(* ===== verification/JS_Number.thy ===== *)
theory JS_Number
  imports Complex_Main
begin

text \<open>
  JavaScript numbers. A \<open>Number\<close> is an IEEE 754 double; the services compare shares, ratios and
  prices computed in doubles, so the rounding is part of their behaviour. A finite double is kept
  here as the rational it denotes, and every arithmetic operation is the exact rational operation
  followed by rounding to the nearest double, ties to even, with the smallest quantum
  \<open>2\<^sup>-1074\<close> and overflow to infinity. The sign of zero is not kept: the sources never divide by a
  zero or print one. A \<open>BigInt\<close> of the source is an \<open>int\<close>.

  The lemmas say what the other theories need of rounding: it is monotone, it is exact on
  integers up to \<open>2\<^sup>53\<close>, its relative error is at most \<open>2\<^sup>-53\<close>, and so the quotients \<open>k / 10\<^sup>6\<close> the
  notifier compares keep their order.
\<close>

section \<open>Rounding to the nearest integer, ties to even\<close>

definition rne :: "rat \<Rightarrow> int" where
  "rne y = (let f = \<lfloor>y\<rfloor>; d = y - of_int f in
     if d < 1 / 2 then f else if d > 1 / 2 then f + 1 else if even f then f else f + 1)"

lemma rne_cases: "rne y = \<lfloor>y\<rfloor> \<or> rne y = \<lfloor>y\<rfloor> + 1"
  by (simp add: rne_def Let_def)

lemma rne_int [simp]: "rne (of_int n) = n"
  by (simp add: rne_def)

lemma rne_error: "\<bar>of_int (rne y) - y\<bar> \<le> 1 / 2"
proof -
  have "of_int \<lfloor>y\<rfloor> \<le> y" "y < of_int \<lfloor>y\<rfloor> + 1"
    by linarith+
  then show ?thesis
    unfolding rne_def Let_def by (simp add: abs_le_iff)
qed

lemma rne_mono: "x \<le> y \<Longrightarrow> rne x \<le> rne y"
proof -
  assume le: "x \<le> y"
  then have fl: "\<lfloor>x\<rfloor> \<le> \<lfloor>y\<rfloor>" by (rule floor_mono)
  show ?thesis
  proof (cases "\<lfloor>x\<rfloor> = \<lfloor>y\<rfloor>")
    case True
    with le show ?thesis by (auto simp: rne_def Let_def)
  next
    case False
    with fl have "\<lfloor>x\<rfloor> + 1 \<le> \<lfloor>y\<rfloor>" by simp
    then show ?thesis using rne_cases [of x] rne_cases [of y] by linarith
  qed
qed

lemma rne_ge: "of_int n \<le> y \<Longrightarrow> n \<le> rne y"
  using rne_mono [of "of_int n" y] by simp

lemma rne_le: "y \<le> of_int n \<Longrightarrow> rne y \<le> n"
  using rne_mono [of y "of_int n"] by simp

section \<open>The binary exponent of a positive rational\<close>

fun ilog2 :: "int \<Rightarrow> nat" where
  "ilog2 n = (if n \<le> 1 then 0 else Suc (ilog2 (n div 2)))"

declare ilog2.simps [simp del]

lemma ilog2_bounds:
  assumes "0 < n"
  shows "2 ^ ilog2 n \<le> n \<and> n < 2 ^ Suc (ilog2 n)"
  using assms
proof (induction n rule: ilog2.induct)
  case (1 n)
  show ?case
  proof (cases "n \<le> 1")
    case True
    with "1.prems" have "n = 1" by simp
    then show ?thesis by (simp add: ilog2.simps [of 1])
  next
    case False
    then have IH: "2 ^ ilog2 (n div 2) \<le> n div 2" "n div 2 < 2 ^ Suc (ilog2 (n div 2))"
      using "1.IH" by auto
    have "ilog2 n = Suc (ilog2 (n div 2))" using False by (subst ilog2.simps) simp
    moreover have "2 * 2 ^ ilog2 (n div 2) \<le> n" using IH(1) by linarith
    moreover have "n < 2 * 2 ^ Suc (ilog2 (n div 2))" using IH(2) by linarith
    ultimately show ?thesis by simp
  qed
qed

definition binexp :: "rat \<Rightarrow> int" where
  "binexp x = (let (p, q) = quotient_of x; k = int (ilog2 p) - int (ilog2 q)
               in if 2 powi k \<le> x then k else k - 1)"

lemma ilog2_rat_bounds:
  assumes "0 < n"
  shows "2 powi int (ilog2 n) \<le> (of_int n :: rat)" "(of_int n :: rat) < 2 powi (int (ilog2 n) + 1)"
proof -
  have "of_int (2 ^ ilog2 n) \<le> (of_int n :: rat)"
    using ilog2_bounds [OF assms] by (intro of_int_le_iff [THEN iffD2]) simp
  then show "2 powi int (ilog2 n) \<le> (of_int n :: rat)" by simp
  have "(of_int n :: rat) < of_int (2 ^ Suc (ilog2 n))"
    using ilog2_bounds [OF assms] by (intro of_int_less_iff [THEN iffD2]) simp
  then show "(of_int n :: rat) < 2 powi (int (ilog2 n) + 1)" by (simp add: power_int_add)
qed

lemma binexp_bounds:
  assumes "0 < x"
  shows "2 powi (binexp x) \<le> x" "x < 2 powi (binexp x + 1)"
proof -
  obtain p q where pq: "quotient_of x = (p, q)" by (cases "quotient_of x")
  have q0: "0 < q" using quotient_of_denom_pos [OF pq] .
  have xe: "x = of_int p / of_int q" using quotient_of_div [OF pq] .
  have p0: "0 < p" using assms q0 xe by (simp add: zero_less_divide_iff)
  define a b where "a = int (ilog2 p)" and "b = int (ilog2 q)"
  note pb = ilog2_rat_bounds [OF p0, folded a_def]
  note qb = ilog2_rat_bounds [OF q0, folded b_def]
  define k where "k = a - b"
  have lower: "2 powi (k - 1) \<le> x"
  proof -
    have "2 powi (k - 1) = (2 powi a) / (2 powi (b + 1) :: rat)"
      using power_int_diff [of "2::rat" a "b + 1"] by (simp add: k_def algebra_simps)
    also have "\<dots> \<le> of_int p / of_int q"
      using pb(1) qb(2) q0 p0 by (intro frac_le) auto
    finally show ?thesis using xe by simp
  qed
  have upper: "x < 2 powi (k + 1)"
  proof -
    have "of_int p / of_int q < (2 powi (a + 1)) / (2 powi b :: rat)"
      using pb(2) qb(1) q0 p0 by (intro frac_less) auto
    also have "\<dots> = 2 powi (k + 1)"
      using power_int_diff [of "2::rat" "a + 1" b] by (simp add: k_def algebra_simps)
    finally show ?thesis using xe by simp
  qed
  have be: "binexp x = (if 2 powi k \<le> x then k else k - 1)"
    by (simp add: binexp_def pq a_def b_def k_def Let_def)
  show "2 powi (binexp x) \<le> x" using be lower by simp
  show "x < 2 powi (binexp x + 1)" using be upper by (cases "2 powi k \<le> x") auto
qed

lemma powi2_less_iff: "(2::rat) powi m < 2 powi n \<longleftrightarrow> m < n"
proof
  assume less: "(2::rat) powi m < 2 powi n"
  show "m < n"
  proof (rule ccontr)
    assume "\<not> m < n"
    then have "(2::rat) powi n \<le> 2 powi m" by (intro power_int_increasing) auto
    with less show False by simp
  qed
qed (rule power_int_strict_increasing, auto)

lemma binexp_mono: "0 < x \<Longrightarrow> x \<le> y \<Longrightarrow> binexp x \<le> binexp y"
proof -
  assume "0 < x" "x \<le> y"
  then have "2 powi (binexp x) < (2::rat) powi (binexp y + 1)"
    using binexp_bounds [of x] binexp_bounds [of y] by linarith
  then show ?thesis by (simp add: powi2_less_iff)
qed

section \<open>Rounding to the nearest double\<close>

text \<open>The quantum of a positive rational: the distance of neighbouring doubles around it.\<close>

definition quantum :: "rat \<Rightarrow> int" where
  "quantum x = max (binexp x - 52) (-1074)"

definition dbl_pos :: "rat \<Rightarrow> rat" where
  "dbl_pos x = of_int (rne (x / 2 powi (quantum x))) * 2 powi (quantum x)"

definition dbl :: "rat \<Rightarrow> rat" where
  "dbl x = (if x = 0 then 0 else if 0 < x then dbl_pos x else - dbl_pos (- x))"

lemma dbl_0 [simp]: "dbl 0 = 0"
  by (simp add: dbl_def)

lemma dbl_minus: "dbl (- x) = - dbl x"
  by (simp add: dbl_def)

lemma quantum_mono: "0 < x \<Longrightarrow> x \<le> y \<Longrightarrow> quantum x \<le> quantum y"
  using binexp_mono [of x y] by (simp add: quantum_def)

lemma dbl_pos_nonneg: "0 < x \<Longrightarrow> 0 \<le> dbl_pos x"
  using rne_ge [of 0 "x / 2 powi (quantum x)"] by (simp add: dbl_pos_def)

lemma dbl_pos_upper: "0 < x \<Longrightarrow> dbl_pos x \<le> 2 powi (quantum x + 53)"
proof -
  assume x: "0 < x"
  have "x < 2 powi (binexp x + 1)" using binexp_bounds [OF x] by simp
  also have "\<dots> \<le> 2 powi (quantum x + 53)"
    by (intro power_int_increasing) (auto simp: quantum_def)
  finally have "x / 2 powi (quantum x) \<le> of_int (2 ^ 53)"
    by (simp add: field_simps power_int_add)
  then have "rne (x / 2 powi (quantum x)) \<le> 2 ^ 53" by (rule rne_le)
  then have "(of_int (rne (x / 2 powi (quantum x))) :: rat) \<le> of_int (2 ^ 53)"
    by (rule of_int_le_iff [THEN iffD2])
  then have "dbl_pos x \<le> of_int (2 ^ 53) * 2 powi (quantum x)"
    unfolding dbl_pos_def by (rule mult_right_mono) simp
  then show ?thesis by (simp add: power_int_add mult.commute)
qed

lemma dbl_pos_lower:
  assumes x: "0 < x" and q: "-1074 < quantum x"
  shows "2 powi (quantum x + 52) \<le> dbl_pos x"
proof -
  have "quantum x = binexp x - 52" using q by (simp add: quantum_def max_def split: if_splits)
  then have "2 powi (quantum x + 52) \<le> x" using binexp_bounds [OF x] by simp
  then have "of_int (2 ^ 52) \<le> x / 2 powi (quantum x)"
    by (simp add: field_simps power_int_add)
  then have "2 ^ 52 \<le> rne (x / 2 powi (quantum x))" by (rule rne_ge)
  then have "of_int (2 ^ 52) \<le> (of_int (rne (x / 2 powi (quantum x))) :: rat)"
    by (rule of_int_le_iff [THEN iffD2])
  then have "of_int (2 ^ 52) * 2 powi (quantum x) \<le> dbl_pos x"
    unfolding dbl_pos_def by (rule mult_right_mono) simp
  then show ?thesis by (simp add: power_int_add mult.commute)
qed

lemma dbl_pos_mono:
  assumes x: "0 < x" and le: "x \<le> y"
  shows "dbl_pos x \<le> dbl_pos y"
proof (cases "quantum x = quantum y")
  case True
  have "rne (x / 2 powi (quantum y)) \<le> rne (y / 2 powi (quantum y))"
    using le by (intro rne_mono divide_right_mono) auto
  with True show ?thesis by (simp add: dbl_pos_def mult_right_mono)
next
  case False
  with quantum_mono [OF x le] have less: "quantum x < quantum y" by simp
  then have q: "-1074 < quantum y" by (simp add: quantum_def split: if_splits)
  have "dbl_pos x \<le> 2 powi (quantum x + 53)" using x by (rule dbl_pos_upper)
  also have "\<dots> \<le> 2 powi (quantum y + 52)"
    using less by (intro power_int_increasing) auto
  also have "\<dots> \<le> dbl_pos y"
    using x le q by (intro dbl_pos_lower) auto
  finally show ?thesis .
qed

lemma dbl_nonneg: "0 \<le> x \<Longrightarrow> 0 \<le> dbl x"
  by (simp add: dbl_def dbl_pos_nonneg)

lemma dbl_nonpos: "x \<le> 0 \<Longrightarrow> dbl x \<le> 0"
  using dbl_nonneg [of "- x"] by (simp add: dbl_minus)

lemma dbl_mono: "x \<le> y \<Longrightarrow> dbl x \<le> dbl y"
proof -
  assume le: "x \<le> y"
  consider "0 < x" | "x \<le> 0" "0 \<le> y" | "y < 0" by linarith
  then show ?thesis
  proof cases
    case 1
    with le show ?thesis by (simp add: dbl_def dbl_pos_mono)
  next
    case 2
    with dbl_nonpos [of x] dbl_nonneg [of y] show ?thesis by linarith
  next
    case 3
    with le show ?thesis by (simp add: dbl_def dbl_pos_mono)
  qed
qed

text \<open>A rational that is an integer multiple of its own quantum is a double already.\<close>

lemma dbl_pos_exact:
  assumes "0 < x" "x = of_int m * 2 powi e" "quantum x \<le> e"
  shows "dbl_pos x = x"
proof -
  have "x / 2 powi (quantum x) = of_int m * 2 powi (e - quantum x)"
    using assms(2) by (simp add: power_int_diff)
  also have "\<dots> = of_int (m * 2 ^ nat (e - quantum x))"
    using assms(3) by (simp add: power_int_def)
  finally have eq: "x / 2 powi (quantum x) = of_int (m * 2 ^ nat (e - quantum x))" .
  have "rne (x / 2 powi (quantum x)) = m * 2 ^ nat (e - quantum x)"
    unfolding eq by (rule rne_int)
  then have "dbl_pos x = x / 2 powi (quantum x) * 2 powi (quantum x)"
    by (simp only: dbl_pos_def eq)
  then show ?thesis by simp
qed

lemma dbl_of_int:
  assumes "\<bar>n\<bar> \<le> 2 ^ 53"
  shows "dbl (of_int n) = of_int n"
proof -
  have pos: "dbl_pos (of_int k) = of_int k" if k: "0 < k" "k \<le> 2 ^ 53" for k :: int
  proof (cases "k = 2 ^ 53")
    case True
    have k2: "(of_int k :: rat) = of_int 1 * 2 powi 53" using True by simp
    have "2 powi (binexp (of_int k)) \<le> (of_int k :: rat)"
      using binexp_bounds [of "of_int k"] k by simp
    then have "(2::rat) powi (binexp (of_int k)) < 2 powi 54" using True by simp
    then have "binexp (of_int k) < 54" by (simp only: powi2_less_iff)
    then show ?thesis
      using k k2 by (intro dbl_pos_exact [OF _ k2]) (auto simp: quantum_def)
  next
    case False
    then have "k < 2 ^ 53" using k by simp
    then have "(of_int k :: rat) < of_int (2 ^ 53)" by (rule of_int_less_iff [THEN iffD2])
    moreover have "2 powi (binexp (of_int k)) \<le> (of_int k :: rat)"
      using binexp_bounds [of "of_int k"] k by simp
    ultimately have "(2::rat) powi (binexp (of_int k)) < 2 powi 53" by simp
    then have "binexp (of_int k) < 53" by (simp only: powi2_less_iff)
    then show ?thesis
      using k by (intro dbl_pos_exact [of _ k 0]) (auto simp: quantum_def)
  qed
  consider "n = 0" | "0 < n" | "n < 0" by linarith
  then show ?thesis
  proof cases
    case 3
    then show ?thesis using pos [of "- n"] assms by (simp add: dbl_def)
  qed (use pos [of n] assms in \<open>auto simp: dbl_def\<close>)
qed

lemma dbl_1 [simp]: "dbl 1 = 1"
  using dbl_of_int [of 1] by simp

lemma dbl_numeral_small: "numeral k \<le> (2 ^ 53 :: int) \<Longrightarrow> dbl (numeral k) = numeral k"
  using dbl_of_int [of "numeral k"] by simp

text \<open>Away from the subnormal range the relative error is at most \<open>2\<^sup>-53\<close>.\<close>

lemma dbl_pos_error:
  assumes x: "0 < x" and big: "2 powi (-1022) \<le> x"
  shows "\<bar>dbl_pos x - x\<bar> \<le> x * 2 powi (-53)"
proof -
  have "(2::rat) powi (-1022) < 2 powi (binexp x + 1)"
    using big binexp_bounds [OF x] by linarith
  then have "-1022 \<le> binexp x" by (simp only: powi2_less_iff)
  then have q: "quantum x = binexp x - 52" by (simp add: quantum_def)
  let ?u = "2 powi (quantum x) :: rat"
  have u: "0 < ?u" by simp
  have "\<bar>dbl_pos x - x\<bar> = \<bar>of_int (rne (x / ?u)) - x / ?u\<bar> * ?u"
  proof -
    have "dbl_pos x - x = (of_int (rne (x / ?u)) - x / ?u) * ?u"
      by (simp add: dbl_pos_def left_diff_distrib)
    then show ?thesis by (simp only: abs_mult abs_of_pos [OF u])
  qed
  also have "\<dots> \<le> 1 / 2 * ?u"
    using rne_error u by (intro mult_right_mono) auto
  also have "\<dots> = 2 powi (binexp x) * 2 powi (-53)"
    using power_int_add [of "2::rat" "binexp x" "-53"] power_int_add [of "2::rat" "quantum x" "-1"]
    by (simp add: q)
  also have "\<dots> \<le> x * 2 powi (-53)"
    using binexp_bounds [OF x] by (intro mult_right_mono) auto
  finally show ?thesis .
qed

lemma dbl_error: "0 < x \<Longrightarrow> 2 powi (-1022) \<le> x \<Longrightarrow> \<bar>dbl x - x\<bar> \<le> x * 2 powi (-53)"
  using dbl_pos_error [of x] by (simp add: dbl_def)

section \<open>Quotients by a million\<close>

text \<open>
  The notifier computes shares and ratios as \<open>Number(\<dots> * 1000000n / \<dots>) / 1000000\<close>: a
  number of millionths \<open>k\<close> rounded to a double. Doubles are much finer than a millionth, so
  comparing two such doubles is comparing the numerators.
\<close>

definition ppm :: "int \<Rightarrow> rat" where
  "ppm k = dbl (of_int k / 1000000)"

lemma ppm_strict:
  assumes k: "0 \<le> k" and kt: "k < t" and t: "t \<le> 2 ^ 32"
  shows "ppm k < ppm t"
proof -
  let ?a = "of_int k / 1000000 :: rat" and ?b = "of_int t / 1000000 :: rat"
  have tiny: "(2::rat) powi (-1022) \<le> 1 / 1000000"
  proof -
    have "(2::rat) powi (-1022) \<le> 2 powi (-20)" by (intro power_int_increasing) auto
    also have "(2::rat) powi (-20) = 1 / 1048576" by (simp add: power_int_minus field_simps)
    finally show ?thesis by simp
  qed
  have e53: "(2::rat) powi (-53) = 1 / 9007199254740992" by (simp add: power_int_minus field_simps)
  have t1: "(1::rat) \<le> of_int t" using k kt by simp
  then have "\<bar>dbl ?b - ?b\<bar> \<le> ?b * 2 powi (-53)"
    using tiny by (intro dbl_error) auto
  then have b: "?b - ?b / 9007199254740992 \<le> dbl ?b" unfolding e53 by linarith
  have a: "dbl ?a \<le> ?a + ?a / 9007199254740992"
  proof (cases "k = 0")
    case False
    then have "(1::rat) \<le> of_int k" using k by simp
    then have "\<bar>dbl ?a - ?a\<bar> \<le> ?a * 2 powi (-53)"
      using tiny by (intro dbl_error) auto
    then show ?thesis unfolding e53 by linarith
  qed simp
  have "k + 1 \<le> t" using kt by simp
  then have kt': "of_int k + 1 \<le> (of_int t :: rat)"
    by (metis of_int_1 of_int_add of_int_le_iff)
  have "t \<le> 4294967296" using t by simp
  then have t': "of_int t \<le> (4294967296 :: rat)"
    by (metis of_int_le_iff of_int_numeral)
  have "?a + ?a / 9007199254740992 < ?b - ?b / 9007199254740992"
    using kt' t' by (simp add: field_simps)
  with a b show ?thesis unfolding ppm_def by linarith
qed

lemma ppm_less_iff:
  assumes "0 \<le> k" "k \<le> 2 ^ 32" "0 \<le> t" "t \<le> 2 ^ 32"
  shows "ppm k < ppm t \<longleftrightarrow> k < t"
  using ppm_strict [of k t] ppm_strict [of t k] assms
  by (cases k t rule: linorder_cases) auto

lemma ppm_le_iff:
  assumes "0 \<le> k" "k \<le> 2 ^ 32" "0 \<le> t" "t \<le> 2 ^ 32"
  shows "ppm k \<le> ppm t \<longleftrightarrow> k \<le> t"
  using ppm_less_iff [of t k] assms by (auto simp: not_less [symmetric])

section \<open>Numbers and their operations\<close>

datatype jsnum = JNaN | JInf | JNegInf | Fin rat

text \<open>The first power of two that is out of the range of a double.\<close>

definition dbl_limit :: rat where
  "dbl_limit = 2 ^ 1024"

lemma dbl_limit_code [code]:
  "dbl_limit = 179769313486231590772930519078902473361797697894230657273430081157732675805500963132708477322407536021120113879871393357658789768814416622492847430639474124377767893424865485276302219601246094119453082952085005768838150682342462881473913110540827237163350510684586298239947245938479716304835356329624224137216"
  by (simp add: dbl_limit_def)

definition js_of_rat :: "rat \<Rightarrow> jsnum" where
  "js_of_rat q = (let r = dbl q in
     if r \<ge> dbl_limit then JInf else if r \<le> - dbl_limit then JNegInf else Fin r)"

definition js_of_int :: "int \<Rightarrow> jsnum" where
  "js_of_int n = js_of_rat (of_int n)"

fun js_neg :: "jsnum \<Rightarrow> jsnum" where
  "js_neg (Fin x) = Fin (- x)"
| "js_neg JNaN = JNaN"
| "js_neg JInf = JNegInf"
| "js_neg JNegInf = JInf"

fun js_add :: "jsnum \<Rightarrow> jsnum \<Rightarrow> jsnum" where
  "js_add (Fin x) (Fin y) = js_of_rat (x + y)"
| "js_add JNaN b = JNaN"
| "js_add a JNaN = JNaN"
| "js_add JInf JNegInf = JNaN"
| "js_add JNegInf JInf = JNaN"
| "js_add JInf b = JInf"
| "js_add a JInf = JInf"
| "js_add a b = JNegInf"

definition js_sub :: "jsnum \<Rightarrow> jsnum \<Rightarrow> jsnum" where
  "js_sub a b = js_add a (js_neg b)"

definition js_inf_sign :: "bool \<Rightarrow> jsnum" where
  "js_inf_sign pos = (if pos then JInf else JNegInf)"

fun js_mul :: "jsnum \<Rightarrow> jsnum \<Rightarrow> jsnum" where
  "js_mul (Fin x) (Fin y) = js_of_rat (x * y)"
| "js_mul JNaN b = JNaN"
| "js_mul a JNaN = JNaN"
| "js_mul (Fin x) JInf = (if x = 0 then JNaN else js_inf_sign (0 < x))"
| "js_mul (Fin x) JNegInf = (if x = 0 then JNaN else js_inf_sign (x < 0))"
| "js_mul JInf (Fin y) = (if y = 0 then JNaN else js_inf_sign (0 < y))"
| "js_mul JNegInf (Fin y) = (if y = 0 then JNaN else js_inf_sign (y < 0))"
| "js_mul JInf JInf = JInf"
| "js_mul JNegInf JNegInf = JInf"
| "js_mul a b = JNegInf"

fun js_div :: "jsnum \<Rightarrow> jsnum \<Rightarrow> jsnum" where
  "js_div (Fin x) (Fin y) =
     (if y = 0 then (if x = 0 then JNaN else js_inf_sign (0 < x)) else js_of_rat (x / y))"
| "js_div JNaN b = JNaN"
| "js_div a JNaN = JNaN"
| "js_div (Fin x) b = Fin 0"
| "js_div JInf (Fin y) = js_inf_sign (0 \<le> y)"
| "js_div JNegInf (Fin y) = js_inf_sign (y < 0)"
| "js_div a b = JNaN"

text \<open>Comparisons with a NaN are false, as in the language; so \<open>\<not> js_le a b\<close> is not \<open>js_lt b a\<close>.\<close>

fun js_lt :: "jsnum \<Rightarrow> jsnum \<Rightarrow> bool" where
  "js_lt (Fin x) (Fin y) = (x < y)"
| "js_lt (Fin x) JInf = True"
| "js_lt JNegInf (Fin y) = True"
| "js_lt JNegInf JInf = True"
| "js_lt a b = False"

fun js_le :: "jsnum \<Rightarrow> jsnum \<Rightarrow> bool" where
  "js_le (Fin x) (Fin y) = (x \<le> y)"
| "js_le JNaN b = False"
| "js_le a JNaN = False"
| "js_le JNegInf b = True"
| "js_le a JInf = True"
| "js_le a b = False"

definition js_is_finite :: "jsnum \<Rightarrow> bool" where
  "js_is_finite a = (case a of Fin _ \<Rightarrow> True | _ \<Rightarrow> False)"

definition js_is_integer :: "jsnum \<Rightarrow> bool" where
  "js_is_integer a = (case a of Fin x \<Rightarrow> of_int \<lfloor>x\<rfloor> = x | _ \<Rightarrow> False)"

definition js_floor :: "jsnum \<Rightarrow> jsnum" where
  "js_floor a = (case a of Fin x \<Rightarrow> Fin (of_int \<lfloor>x\<rfloor>) | _ \<Rightarrow> a)"

text \<open>\<open>Math.round\<close> takes the nearest integer, the larger one on a tie.\<close>

definition js_round :: "jsnum \<Rightarrow> jsnum" where
  "js_round a = (case a of Fin x \<Rightarrow> Fin (of_int \<lfloor>x + 1 / 2\<rfloor>) | _ \<Rightarrow> a)"

definition js_abs :: "jsnum \<Rightarrow> jsnum" where
  "js_abs a = (case a of Fin x \<Rightarrow> Fin \<bar>x\<bar> | JNegInf \<Rightarrow> JInf | _ \<Rightarrow> a)"

definition js_max :: "jsnum \<Rightarrow> jsnum \<Rightarrow> jsnum" where
  "js_max a b = (if a = JNaN \<or> b = JNaN then JNaN else if js_lt a b then b else a)"

definition js_min :: "jsnum \<Rightarrow> jsnum \<Rightarrow> jsnum" where
  "js_min a b = (if a = JNaN \<or> b = JNaN then JNaN else if js_lt b a then b else a)"

lemma js_lt_NaN_right [simp]: "\<not> js_lt a JNaN"
  by (cases a) auto

lemma js_le_NaN_right [simp]: "\<not> js_le a JNaN"
  by (cases a) auto

lemma js_lt_not_le: "a \<noteq> JNaN \<Longrightarrow> b \<noteq> JNaN \<Longrightarrow> js_lt a b \<longleftrightarrow> \<not> js_le b a"
  by (cases a; cases b) auto

lemma js_of_rat_small:
  assumes "\<bar>dbl q\<bar> < 2 ^ 1024"
  shows "js_of_rat q = Fin (dbl q)"
  using assms by (auto simp: js_of_rat_def dbl_limit_def Let_def abs_if split: if_splits)

lemma js_of_int_small: "\<bar>n\<bar> \<le> 2 ^ 53 \<Longrightarrow> js_of_int n = Fin (of_int n)"
proof -
  assume n: "\<bar>n\<bar> \<le> 2 ^ 53"
  then have d: "dbl (of_int n) = of_int n" by (rule dbl_of_int)
  from n have "(of_int \<bar>n\<bar> :: rat) \<le> of_int (2 ^ 53)" by (rule of_int_le_iff [THEN iffD2])
  then have "\<bar>of_int n\<bar> \<le> (2 ^ 53 :: rat)" by simp
  also have "\<dots> < 2 ^ 1024" by (rule power_strict_increasing) auto
  finally have "\<bar>dbl (of_int n)\<bar> < 2 ^ 1024" by (simp add: d)
  then show ?thesis by (simp add: js_of_int_def js_of_rat_small d)
qed

lemma js_sub_int:
  assumes "\<bar>a\<bar> \<le> 2 ^ 53" "\<bar>b\<bar> \<le> 2 ^ 53" "\<bar>a - b\<bar> \<le> 2 ^ 53"
  shows "js_sub (Fin (of_int a)) (Fin (of_int b)) = Fin (of_int (a - b))"
  using js_of_int_small [OF assms(3)] by (simp add: js_sub_def js_of_int_def)

section \<open>BigInt\<close>

text \<open>
  Division truncates; the models use it with a divisor that is not zero. \<open>BigInt(x)\<close> throws for a
  number that is not an integer.
\<close>

definition big_div :: "int \<Rightarrow> int \<Rightarrow> int" where
  "big_div a b = sgn a * sgn b * (\<bar>a\<bar> div \<bar>b\<bar>)"

lemma big_div_nonneg: "0 \<le> a \<Longrightarrow> 0 < b \<Longrightarrow> big_div a b = a div b"
  by (cases "a = 0") (auto simp: big_div_def)

lemma le_div_iff: "0 < b \<Longrightarrow> k \<le> a div b \<longleftrightarrow> k * b \<le> (a :: int)"
  using div_le_mono2 zdiv_mono1 [of "k * b" a b] mult_left_mono [of k "a div b" b]
  by (metis mult.commute mult_div_mod_eq le_add_same_cancel1 nonzero_mult_div_cancel_right order_less_imp_le
      order_less_irrefl order_trans pos_mod_sign)

definition big_of_number :: "jsnum \<Rightarrow> int option" where
  "big_of_number x = (case x of Fin q \<Rightarrow> if of_int \<lfloor>q\<rfloor> = q then Some \<lfloor>q\<rfloor> else None | _ \<Rightarrow> None)"

end
