(* ===== verification/JS_Regex.thy ===== *)
theory JS_Regex
  imports Main
begin

text \<open>
  The regular expressions of the sources. A pattern is transcribed into \<open>rx\<close> as it is written
  (a character class is a predicate on code units), \<open>rx_full\<close> is \<open>/^r$/.test\<close> and \<open>rx_search\<close>
  is \<open>/r/.test\<close> without anchors. Both run Brzozowski derivatives and so evaluate; \<open>rx_full_iff\<close>
  and \<open>rx_search_iff\<close> say they decide the declarative relation \<open>matches\<close>.

  A string is a list of code units below 256, one \<open>char\<close> each.
\<close>

section \<open>Patterns and what they match\<close>

datatype rx =
    RZero
  | REps
  | RCls "char \<Rightarrow> bool"
  | RSeq rx rx
  | RAlt rx rx
  | RStar rx

inductive matches :: "rx \<Rightarrow> string \<Rightarrow> bool" where
  eps: "matches REps []"
| cls: "p c \<Longrightarrow> matches (RCls p) [c]"
| seq: "matches r u \<Longrightarrow> matches s v \<Longrightarrow> matches (RSeq r s) (u @ v)"
| alt_left: "matches r u \<Longrightarrow> matches (RAlt r s) u"
| alt_right: "matches s u \<Longrightarrow> matches (RAlt r s) u"
| star_nil: "matches (RStar r) []"
| star_cons: "matches r u \<Longrightarrow> matches (RStar r) v \<Longrightarrow> matches (RStar r) (u @ v)"

inductive_simps matches_zero [simp]: "matches RZero s"
inductive_simps matches_eps [simp]: "matches REps s"
inductive_simps matches_cls [simp]: "matches (RCls p) s"
inductive_simps matches_alt [simp]: "matches (RAlt r1 r2) s"
inductive_cases matches_starE: "matches (RStar r) s"
inductive_cases matches_seqE: "matches (RSeq r1 r2) s"

lemma matches_seq: "matches (RSeq r1 r2) s \<longleftrightarrow> (\<exists>u v. s = u @ v \<and> matches r1 u \<and> matches r2 v)"
proof
  assume "matches (RSeq r1 r2) s"
  then show "\<exists>u v. s = u @ v \<and> matches r1 u \<and> matches r2 v"
    by (elim matches_seqE) (intro exI conjI)
qed (auto intro: matches.seq)

section \<open>The derived forms of patterns\<close>

fun rx_rep :: "nat \<Rightarrow> rx \<Rightarrow> rx" where
  "rx_rep 0 r = REps"
| "rx_rep (Suc n) r = RSeq r (rx_rep n r)"

definition rx_plus :: "rx \<Rightarrow> rx" where
  "rx_plus r = RSeq r (RStar r)"

fun rx_lit :: "string \<Rightarrow> rx" where
  "rx_lit [] = REps"
| "rx_lit (c # cs) = RSeq (RCls (\<lambda>x. x = c)) (rx_lit cs)"

fun rx_any_of :: "string list \<Rightarrow> rx" where
  "rx_any_of [] = RZero"
| "rx_any_of (w # ws) = RAlt (rx_lit w) (rx_any_of ws)"

lemma matches_seq_cls:
  "matches (RSeq (RCls p) r) s \<longleftrightarrow> (\<exists>c t. s = c # t \<and> p c \<and> matches r t)"
proof
  assume "\<exists>c t. s = c # t \<and> p c \<and> matches r t"
  then obtain c t where "s = [c] @ t" "p c" "matches r t" by auto
  then show "matches (RSeq (RCls p) r) s"
    by (auto intro: matches.seq matches.cls simp del: append.simps)
qed (auto simp: matches_seq)

lemma matches_rep_cls: "matches (rx_rep n (RCls p)) s \<longleftrightarrow> length s = n \<and> list_all p s"
proof (induction n arbitrary: s)
  case (Suc n)
  then show ?case by (cases s) (auto simp: matches_seq_cls)
qed auto

lemma matches_star_cls: "matches (RStar (RCls p)) s \<longleftrightarrow> list_all p s"
proof (induction s)
  case Nil
  show ?case by (auto intro: matches.star_nil)
next
  case (Cons c s)
  have "matches (RStar (RCls p)) (c # s)" if "p c" "matches (RStar (RCls p)) s"
    using matches.star_cons [OF matches.cls [of p c, OF that(1)] that(2)] by simp
  moreover have "p c \<and> matches (RStar (RCls p)) s" if "matches (RStar (RCls p)) (c # s)"
    using that by (cases rule: matches_starE) auto
  ultimately show ?case using Cons by auto
qed

lemma matches_plus_cls: "matches (rx_plus (RCls p)) s \<longleftrightarrow> s \<noteq> [] \<and> list_all p s"
  by (cases s) (auto simp: rx_plus_def matches_seq_cls matches_star_cls)

lemma matches_lit [simp]: "matches (rx_lit w) s \<longleftrightarrow> s = w"
  by (induction w arbitrary: s) (auto simp: matches_seq_cls)

lemma matches_any_of [simp]: "matches (rx_any_of ws) s \<longleftrightarrow> s \<in> set ws"
  by (induction ws) auto

lemmas matches_simps = matches_seq matches_rep_cls matches_star_cls matches_plus_cls

section \<open>The matcher\<close>

fun nullable :: "rx \<Rightarrow> bool" where
  "nullable RZero = False"
| "nullable REps = True"
| "nullable (RCls p) = False"
| "nullable (RSeq r s) = (nullable r \<and> nullable s)"
| "nullable (RAlt r s) = (nullable r \<or> nullable s)"
| "nullable (RStar r) = True"

text \<open>Constructors that drop the empty pattern, so that derivatives stay small.\<close>

fun mk_seq :: "rx \<Rightarrow> rx \<Rightarrow> rx" where
  "mk_seq RZero s = RZero"
| "mk_seq REps s = s"
| "mk_seq r s = RSeq r s"

fun mk_alt :: "rx \<Rightarrow> rx \<Rightarrow> rx" where
  "mk_alt RZero s = s"
| "mk_alt r RZero = r"
| "mk_alt r s = RAlt r s"

fun deriv :: "char \<Rightarrow> rx \<Rightarrow> rx" where
  "deriv c RZero = RZero"
| "deriv c REps = RZero"
| "deriv c (RCls p) = (if p c then REps else RZero)"
| "deriv c (RSeq r s) =
     (if nullable r then mk_alt (mk_seq (deriv c r) s) (deriv c s) else mk_seq (deriv c r) s)"
| "deriv c (RAlt r s) = mk_alt (deriv c r) (deriv c s)"
| "deriv c (RStar r) = mk_seq (deriv c r) (RStar r)"

fun rx_full :: "rx \<Rightarrow> string \<Rightarrow> bool" where
  "rx_full r [] = nullable r"
| "rx_full r (c # cs) = rx_full (deriv c r) cs"

definition rx_search :: "rx \<Rightarrow> string \<Rightarrow> bool" where
  "rx_search r = rx_full (RSeq (RStar (RCls (\<lambda>_. True))) (RSeq r (RStar (RCls (\<lambda>_. True)))))"

lemma nullable_iff: "nullable r \<longleftrightarrow> matches r []"
  by (induction r) (auto simp: matches_seq intro: matches.intros)

lemma matches_mk_seq [simp]: "matches (mk_seq r s) w \<longleftrightarrow> matches (RSeq r s) w"
  by (cases r) (auto simp: matches_seq)

lemma matches_mk_alt [simp]: "matches (mk_alt r s) w \<longleftrightarrow> matches (RAlt r s) w"
  by (cases r; cases s) auto

lemma matches_star_Cons:
  "matches (RStar r) (c # s) \<longleftrightarrow> (\<exists>u v. s = u @ v \<and> matches r (c # u) \<and> matches (RStar r) v)"
proof
  assume "matches (RStar r) (c # s)"
  then show "\<exists>u v. s = u @ v \<and> matches r (c # u) \<and> matches (RStar r) v"
  proof (induction "RStar r" "c # s" arbitrary: s rule: matches.induct)
    case (star_cons u v)
    then show ?case by (cases u) auto
  qed
next
  assume "\<exists>u v. s = u @ v \<and> matches r (c # u) \<and> matches (RStar r) v"
  then obtain u v where s: "s = u @ v" and r: "matches r (c # u)" and v: "matches (RStar r) v" by blast
  show "matches (RStar r) (c # s)" using matches.star_cons [OF r v] s by simp
qed

lemma matches_seq_Cons:
  "matches (RSeq r s) (c # w) \<longleftrightarrow>
     (\<exists>u v. w = u @ v \<and> matches r (c # u) \<and> matches s v) \<or> (matches r [] \<and> matches s (c # w))"
  by (auto simp: matches_seq Cons_eq_append_conv)

lemma matches_deriv: "matches (deriv c r) w \<longleftrightarrow> matches r (c # w)"
proof (induction r arbitrary: w)
  case (RSeq r s)
  have "matches (deriv c (RSeq r s)) w \<longleftrightarrow>
      matches (RSeq (deriv c r) s) w \<or> (matches r [] \<and> matches (deriv c s) w)"
    by (simp add: nullable_iff)
  also have "\<dots> \<longleftrightarrow> matches (RSeq r s) (c # w)"
    unfolding matches_seq_Cons matches_seq [of "deriv c r"] RSeq.IH ..
  finally show ?case .
next
  case (RStar r)
  then show ?case by (simp add: matches_seq matches_star_Cons)
qed auto

theorem rx_full_iff: "rx_full r s \<longleftrightarrow> matches r s"
  by (induction s arbitrary: r) (auto simp: nullable_iff matches_deriv)

theorem rx_search_iff: "rx_search r s \<longleftrightarrow> (\<exists>a b c. s = a @ b @ c \<and> matches r b)"
  by (auto simp: rx_search_def rx_full_iff matches_seq matches_star_cls list_all_iff)

end
