(* ===== verification/Gemba_Prelude.thy ===== *)
theory Gemba_Prelude
  imports JS_Number JS_Regex "HOL-Library.AList" "HOL-Library.Sublist"
begin

text \<open>
  What the components share: strings as the services use them (\<open>trim\<close>, \<open>split\<close>, \<open>includes\<close>,
  \<open>toLowerCase\<close>), the values a JSON body or an environment variable can hold, the coercions
  \<open>Number()\<close> and \<open>!!\<close>, the insertion-ordered \<open>Map\<close>, and asynchronous operations that may throw.

  An asynchronous operation is a function from a world to a result and the world after it: \<open>Inl\<close>
  is the message of the error the promise rejects with, \<open>Inr\<close> the value it resolves to. State
  that was changed before an error stays changed.
\<close>

named_theorems handler_defs \<open>definitions of request handlers, unfolded together\<close>

section \<open>Strings\<close>

definition code_unit :: "char \<Rightarrow> nat" where
  "code_unit c = of_char c"

text \<open>The white space that \<open>trim\<close> strips and \<open>\s\<close> matches, below 256.\<close>

definition is_ws :: "char \<Rightarrow> bool" where
  "is_ws c = (let n = code_unit c in (9 \<le> n \<and> n \<le> 13) \<or> n = 32 \<or> n = 160)"

definition is_digit :: "char \<Rightarrow> bool" where
  "is_digit c = (let n = code_unit c in 48 \<le> n \<and> n \<le> 57)"

definition is_hex :: "char \<Rightarrow> bool" where
  "is_hex c = (let n = code_unit c in
     (48 \<le> n \<and> n \<le> 57) \<or> (65 \<le> n \<and> n \<le> 70) \<or> (97 \<le> n \<and> n \<le> 102))"

definition lower_char :: "char \<Rightarrow> char" where
  "lower_char c = (let n = code_unit c in
     if (65 \<le> n \<and> n \<le> 90) \<or> (192 \<le> n \<and> n \<le> 222 \<and> n \<noteq> 215) then char_of (n + 32) else c)"

definition to_lower :: "string \<Rightarrow> string" where
  "to_lower = map lower_char"

definition trim_left :: "string \<Rightarrow> string" where
  "trim_left s = dropWhile is_ws s"

definition trim :: "string \<Rightarrow> string" where
  "trim s = rev (trim_left (rev (trim_left s)))"

fun str_includes :: "string \<Rightarrow> string \<Rightarrow> bool" where
  "str_includes [] sub = (sub = [])"
| "str_includes (c # s) sub = (prefix sub (c # s) \<or> str_includes s sub)"

fun split_on :: "char \<Rightarrow> string \<Rightarrow> string list" where
  "split_on d [] = [[]]"
| "split_on d (c # s) =
     (if c = d then [] # split_on d s
      else (case split_on d s of [] \<Rightarrow> [[c]] | h # t \<Rightarrow> (c # h) # t))"

fun join_with :: "char \<Rightarrow> string list \<Rightarrow> string" where
  "join_with d [] = []"
| "join_with d [s] = s"
| "join_with d (s # t # ss) = s @ d # join_with d (t # ss)"

fun index_of :: "char \<Rightarrow> string \<Rightarrow> nat option" where
  "index_of d [] = None"
| "index_of d (c # s) = (if c = d then Some 0 else map_option Suc (index_of d s))"

lemma split_on_nonempty [simp]: "split_on d s \<noteq> []"
  by (induction s) (auto split: list.splits)

lemma split_on_no_sep: "d \<notin> set s \<Longrightarrow> split_on d s = [s]"
  by (induction s) auto

lemma split_on_append: "d \<notin> set s \<Longrightarrow> split_on d (s @ d # t) = s # split_on d t"
  by (induction s) auto

lemma split_on_join:
  assumes "ss \<noteq> []" "\<forall>s \<in> set ss. d \<notin> set s"
  shows "split_on d (join_with d ss) = ss"
  using assms by (induction d ss rule: join_with.induct) (auto simp: split_on_append split_on_no_sep)

lemma split_on_parts: "s \<in> set (split_on d t) \<Longrightarrow> d \<notin> set s"
  by (induction t arbitrary: s) (fastforce split: list.splits if_splits)+

lemma index_of_append [simp]: "d \<notin> set s \<Longrightarrow> index_of d (s @ d # t) = Some (length s)"
  by (induction s) auto

lemma str_includes_iff: "str_includes s sub \<longleftrightarrow> (\<exists>a b. s = a @ sub @ b)"
proof (induction s)
  case (Cons c s)
  show ?case
  proof
    assume "str_includes (c # s) sub"
    then consider "prefix sub (c # s)" | "str_includes s sub" by auto
    then show "\<exists>a b. c # s = a @ sub @ b"
    proof cases
      case 1
      then obtain b where "c # s = [] @ sub @ b" by (auto simp: prefix_def)
      then show ?thesis by blast
    next
      case 2
      then obtain a b where "c # s = (c # a) @ sub @ b" using Cons.IH by auto
      then show ?thesis by blast
    qed
  next
    assume "\<exists>a b. c # s = a @ sub @ b"
    then obtain a b where ab: "c # s = a @ sub @ b" by blast
    show "str_includes (c # s) sub"
    proof (cases a)
      case Nil
      with ab have "prefix sub (c # s)" by (simp add: prefix_def)
      then show ?thesis by simp
    next
      case (Cons x a')
      with ab Cons.IH show ?thesis by auto
    qed
  qed
qed simp

lemma trim_left_fix: "s = [] \<or> \<not> is_ws (hd s) \<Longrightarrow> trim_left s = s"
  by (cases s) (auto simp: trim_left_def)

lemma trim_fix: "s = [] \<or> \<not> is_ws (hd s) \<and> \<not> is_ws (last s) \<Longrightarrow> trim s = s"
  by (auto simp: trim_def trim_left_fix hd_rev)

lemma length_trim_left: "length (trim_left s) \<le> length s"
  by (simp add: trim_left_def length_dropWhile_le)

lemma length_trim: "length (trim s) \<le> length s"
  using length_trim_left [of s] length_trim_left [of "rev (trim_left s)"] by (simp add: trim_def)

lemma trim_left_Nil [simp]: "trim_left [] = []"
  by (simp add: trim_left_def)

lemma trim_left_eq_Nil: "trim_left s = [] \<longleftrightarrow> list_all is_ws s"
  by (simp add: trim_left_def list_all_iff)

lemma trim_eq_Nil: "trim s = [] \<longleftrightarrow> list_all is_ws s"
proof -
  have "trim s = [] \<longleftrightarrow> trim_left s = []"
  proof (cases "trim_left s")
    case (Cons c t)
    then have "\<not> is_ws c" using hd_dropWhile [of is_ws s] by (simp add: trim_left_def)
    then show ?thesis by (simp add: trim_def trim_left_eq_Nil Cons)
  qed (simp add: trim_def)
  then show ?thesis by (simp add: trim_left_eq_Nil)
qed

lemma trim_hd: "trim s \<noteq> [] \<Longrightarrow> \<not> is_ws (hd (trim s))"
proof -
  assume ne: "trim s \<noteq> []"
  let ?t = "trim_left s"
  have t: "?t \<noteq> []" using ne by (auto simp: trim_eq_Nil trim_left_eq_Nil)
  then have "\<not> is_ws (hd ?t)" by (simp add: trim_left_def hd_dropWhile)
  moreover have "\<exists>u. ?t = trim s @ u"
  proof -
    have "rev ?t = takeWhile is_ws (rev ?t) @ trim_left (rev ?t)" by (simp add: trim_left_def)
    then have "?t = trim s @ rev (takeWhile is_ws (rev ?t))"
      by (metis rev_append rev_rev_ident trim_def)
    then show ?thesis by blast
  qed
  ultimately show ?thesis using ne by auto
qed

lemma trim_last: "trim s \<noteq> [] \<Longrightarrow> \<not> is_ws (last (trim s))"
  by (simp add: trim_def trim_left_def last_rev hd_dropWhile)

lemma trim_trim [simp]: "trim (trim s) = trim s"
  using trim_hd [of s] trim_last [of s] by (intro trim_fix) auto

section \<open>Values and coercions\<close>

text \<open>
  What a parsed JSON body can hold, and \<open>undefined\<close> for a property it does not have.
\<close>

datatype jsval =
    JUndef
  | JNull
  | JBool bool
  | JNum jsnum
  | JStr string
  | JArr "jsval list"
  | JObj "(string \<times> jsval) list"

text \<open>A property of a plain object (\<open>body.name\<close>): \<open>undefined\<close> when it is missing.\<close>

definition get_prop :: "(string \<times> jsval) list \<Rightarrow> string \<Rightarrow> jsval" where
  "get_prop body k = (case map_of body k of None \<Rightarrow> JUndef | Some v \<Rightarrow> v)"

definition truthy :: "jsval \<Rightarrow> bool" where
  "truthy v = (case v of JUndef \<Rightarrow> False | JNull \<Rightarrow> False | JBool b \<Rightarrow> b
     | JNum n \<Rightarrow> n \<noteq> JNaN \<and> n \<noteq> Fin 0 | JStr s \<Rightarrow> s \<noteq> [] | JArr _ \<Rightarrow> True | JObj _ \<Rightarrow> True)"

text \<open>\<open>a ?? b\<close> and \<open>a || b\<close>.\<close>

definition nullish :: "jsval \<Rightarrow> jsval \<Rightarrow> jsval" where
  "nullish a b = (if a = JUndef \<or> a = JNull then b else a)"

definition or_else :: "jsval \<Rightarrow> jsval \<Rightarrow> jsval" where
  "or_else a b = (if truthy a then a else b)"

subsection \<open>Number of a string\<close>

definition digit_val :: "char \<Rightarrow> int" where
  "digit_val c = (let n = int (code_unit c) in
     if n \<le> 57 then n - 48 else if n \<le> 90 then n - 55 else n - 87)"

definition digits_val :: "int \<Rightarrow> string \<Rightarrow> int" where
  "digits_val b ds = foldl (\<lambda>acc c. acc * b + digit_val c) 0 ds"

text \<open>An unsigned decimal literal: digits, an optional fraction, an optional exponent.\<close>

definition dec_int :: "string \<Rightarrow> int option" where
  "dec_int s = (let (neg, ds) = (case s of [] \<Rightarrow> (False, [])
       | c # cs \<Rightarrow> if c = CHR ''-'' then (True, cs) else if c = CHR ''+'' then (False, cs) else (False, s))
     in if ds \<noteq> [] \<and> list_all is_digit ds
        then Some (if neg then - digits_val 10 ds else digits_val 10 ds) else None)"

definition dec_mantissa :: "string \<Rightarrow> rat option" where
  "dec_mantissa s = (case split_on CHR ''.'' s of
       [ip] \<Rightarrow> (if ip \<noteq> [] \<and> list_all is_digit ip then Some (of_int (digits_val 10 ip)) else None)
     | [ip, fp] \<Rightarrow> (if (ip \<noteq> [] \<or> fp \<noteq> []) \<and> list_all is_digit ip \<and> list_all is_digit fp
          then Some (of_int (digits_val 10 (ip @ fp)) / 10 ^ length fp) else None)
     | _ \<Rightarrow> None)"

definition dec_literal :: "string \<Rightarrow> rat option" where
  "dec_literal s = (let m = takeWhile (\<lambda>c. c \<noteq> CHR ''e'' \<and> c \<noteq> CHR ''E'') s; r = drop (length m) s
     in case r of [] \<Rightarrow> dec_mantissa m
        | _ # ex \<Rightarrow> (case (dec_mantissa m, dec_int ex) of
             (Some x, Some e) \<Rightarrow> Some (x * 10 powi e) | _ \<Rightarrow> None))"

definition radix_literal :: "string \<Rightarrow> jsnum option" where
  "radix_literal s = (case s of
      z # x # ds \<Rightarrow>
        (if z \<noteq> CHR ''0'' then None
         else if (x = CHR ''x'' \<or> x = CHR ''X'') \<and> ds \<noteq> [] \<and> list_all is_hex ds then Some (js_of_int (digits_val 16 ds))
         else if (x = CHR ''o'' \<or> x = CHR ''O'') \<and> ds \<noteq> [] \<and> list_all (\<lambda>c. is_digit c \<and> digit_val c < 8) ds
           then Some (js_of_int (digits_val 8 ds))
         else if (x = CHR ''b'' \<or> x = CHR ''B'') \<and> ds \<noteq> [] \<and> list_all (\<lambda>c. is_digit c \<and> digit_val c < 2) ds
           then Some (js_of_int (digits_val 2 ds))
         else None)
    | _ \<Rightarrow> None)"

definition string_to_number :: "string \<Rightarrow> jsnum" where
  "string_to_number str = (let s = trim str in
     if s = [] then Fin 0
     else case radix_literal s of Some n \<Rightarrow> n | None \<Rightarrow>
       (let (neg, u) = (if hd s = CHR ''-'' then (True, tl s)
                        else if hd s = CHR ''+'' then (False, tl s) else (False, s)) in
        if u = ''Infinity'' then (if neg then JNegInf else JInf)
        else case dec_literal u of
            None \<Rightarrow> JNaN
          | Some q \<Rightarrow> js_of_rat (if neg then - q else q)))"

text \<open>
  \<open>Number(v)\<close>. An array becomes the number of the string it joins to: the empty array is 0 and an
  array of one string is the number of that string; every other array and every object gives NaN
  unless its single element does not.
\<close>

fun to_number :: "jsval \<Rightarrow> jsnum" where
  "to_number JUndef = JNaN"
| "to_number JNull = Fin 0"
| "to_number (JBool b) = (if b then Fin 1 else Fin 0)"
| "to_number (JNum n) = n"
| "to_number (JStr s) = string_to_number s"
| "to_number (JArr []) = Fin 0"
| "to_number (JArr [v]) = (case v of JUndef \<Rightarrow> Fin 0 | JNull \<Rightarrow> Fin 0 | JBool _ \<Rightarrow> JNaN
     | JObj _ \<Rightarrow> JNaN | _ \<Rightarrow> to_number v)"
| "to_number (JArr (v # w # vs)) = JNaN"
| "to_number (JObj _) = JNaN"

subsection \<open>String of a value\<close>

text \<open>\<open>String(v)\<close>; the text of a number is a parameter.\<close>

fun js_string :: "(jsnum \<Rightarrow> string) \<Rightarrow> jsval \<Rightarrow> string" where
  "js_string num JUndef = ''undefined''"
| "js_string num JNull = ''null''"
| "js_string num (JBool b) = (if b then ''true'' else ''false'')"
| "js_string num (JNum n) = num n"
| "js_string num (JStr s) = s"
| "js_string num (JObj ps) = ''[object Object]''"
| "js_string num (JArr []) = []"
| "js_string num (JArr [v]) = (case v of JUndef \<Rightarrow> [] | JNull \<Rightarrow> [] | _ \<Rightarrow> js_string num v)"
| "js_string num (JArr (v # w # vs)) =
     (case v of JUndef \<Rightarrow> [] | JNull \<Rightarrow> [] | _ \<Rightarrow> js_string num v) @ '','' @ js_string num (JArr (w # vs))"

text \<open>
  What that rendering (and \<open>Number(v)\<close>, a template literal, a property key) throws for: an object with a
  \<open>toString\<close> of its own, which in a parsed document is never a function, alone or inside an array.
\<close>

fun text_throws :: "jsval \<Rightarrow> bool" where
  "text_throws (JObj ps) = list_ex (\<lambda>p. fst p = ''toString'') ps"
| "text_throws (JArr vs) = list_ex text_throws vs"
| "text_throws v = False"

fun dec_string :: "nat \<Rightarrow> string" where
  "dec_string n = (if n < 10 then [char_of (48 + n)] else dec_string (n div 10) @ [char_of (48 + n mod 10)])"

declare dec_string.simps [simp del]

subsection \<open>The environment\<close>

type_synonym env = "string \<Rightarrow> string option"

text \<open>\<open>process.env.NAME || default\<close>, as text and as \<open>Number(...)\<close>.\<close>

definition env_or :: "env \<Rightarrow> string \<Rightarrow> string \<Rightarrow> string" where
  "env_or env name dflt = (case env name of None \<Rightarrow> dflt | Some [] \<Rightarrow> dflt | Some s \<Rightarrow> s)"

definition env_num :: "env \<Rightarrow> string \<Rightarrow> jsnum \<Rightarrow> jsnum" where
  "env_num env name dflt = (case env name of None \<Rightarrow> dflt | Some [] \<Rightarrow> dflt | Some s \<Rightarrow> string_to_number s)"

section \<open>Maps\<close>

text \<open>
  A \<open>Map\<close> keeps its entries in the order of their first insertion; setting a key that is there
  changes the value in place. It is an association list with \<open>AList.update\<close> and \<open>AList.delete\<close>.
  The locale states what its clients use of it.
\<close>

locale key_value_map =
  fixes get :: "'m \<Rightarrow> 'k \<Rightarrow> 'v option"
    and put :: "'k \<Rightarrow> 'v \<Rightarrow> 'm \<Rightarrow> 'm"
    and del :: "'k \<Rightarrow> 'm \<Rightarrow> 'm"
    and empty :: "'m"
  assumes get_put: "get (put k v m) k' = (if k = k' then Some v else get m k')"
    and get_del: "get (del k m) k' = (if k = k' then None else get m k')"
    and get_empty: "get empty k = None"
begin

lemma get_put_same [simp]: "get (put k v m) k = Some v"
  by (simp add: get_put)

lemma get_put_other: "k \<noteq> k' \<Longrightarrow> get (put k v m) k' = get m k'"
  by (simp add: get_put)

lemma get_del_same [simp]: "get (del k m) k = None"
  by (simp add: get_del)

lemma get_del_other: "k \<noteq> k' \<Longrightarrow> get (del k m) k' = get m k'"
  by (simp add: get_del)

end

type_synonym ('k, 'v) jsmap = "('k \<times> 'v) list"

interpretation js_map: key_value_map map_of AList.update AList.delete "[]"
  by unfold_locales (auto simp: update_conv' delete_conv')

lemma keys_delete: "fst ` set (AList.delete k xs) = fst ` set xs - {k}"
  by (auto simp: AList.delete_eq)

section \<open>Asynchronous operations\<close>

type_synonym ('w, 'e, 'a) act = "'w \<Rightarrow> ('e + 'a) \<times> 'w"

definition act_return :: "'a \<Rightarrow> ('w, 'e, 'a) act" where
  "act_return a = (\<lambda>w. (Inr a, w))"

definition act_throw :: "'e \<Rightarrow> ('w, 'e, 'a) act" where
  "act_throw e = (\<lambda>w. (Inl e, w))"

text \<open>\<open>await\<close>: go on with the value, or leave with the error.\<close>

definition act_bind :: "('w, 'e, 'a) act \<Rightarrow> ('a \<Rightarrow> ('w, 'e, 'b) act) \<Rightarrow> ('w, 'e, 'b) act" where
  "act_bind m f = (\<lambda>w. case m w of (Inl e, w') \<Rightarrow> (Inl e, w') | (Inr a, w') \<Rightarrow> f a w')"

text \<open>\<open>try m catch (e) h\<close>.\<close>

definition act_catch :: "('w, 'e, 'a) act \<Rightarrow> ('e \<Rightarrow> ('w, 'f, 'a) act) \<Rightarrow> ('w, 'f, 'a) act" where
  "act_catch m h = (\<lambda>w. case m w of (Inl e, w') \<Rightarrow> h e w' | (Inr a, w') \<Rightarrow> (Inr a, w'))"

text \<open>A synchronous check that throws.\<close>

definition act_check :: "'e + 'a \<Rightarrow> ('w, 'e, 'a) act" where
  "act_check r = (\<lambda>w. (r, w))"

lemma act_return_simps [simp]:
  "act_return a w = (Inr a, w)" "act_throw e w = (Inl e, w)" "act_check r w = (r, w)"
  by (simp_all add: act_return_def act_throw_def act_check_def)

lemma act_bind_Inr:
  "act_bind m f w = (Inr b, w'') \<longleftrightarrow> (\<exists>a w'. m w = (Inr a, w') \<and> f a w' = (Inr b, w''))"
  by (auto simp: act_bind_def split: prod.splits sum.splits)

lemma act_bind_simps [simp]:
  "m w = (Inl e, w') \<Longrightarrow> act_bind m f w = (Inl e, w')"
  "m w = (Inr a, w') \<Longrightarrow> act_bind m f w = f a w'"
  by (simp_all add: act_bind_def)

text \<open>
  The world after an operation. A relation that every step respects is respected by the whole:
  this is how invariants and frame conditions go through a handler.
\<close>

definition keeps :: "('w \<Rightarrow> 'w \<Rightarrow> bool) \<Rightarrow> ('w, 'e, 'a) act \<Rightarrow> bool" where
  "keeps R m = (\<forall>w. R w (snd (m w)))"

lemma keepsI: "(\<And>w. R w (snd (m w))) \<Longrightarrow> keeps R m"
  by (simp add: keeps_def)

lemma keepsD: "keeps R m \<Longrightarrow> R w (snd (m w))"
  by (simp add: keeps_def)

lemma keeps_pure [simp]:
  "reflp R \<Longrightarrow> keeps R (act_return a)" "reflp R \<Longrightarrow> keeps R (act_throw e)"
  "reflp R \<Longrightarrow> keeps R (act_check r)" "reflp R \<Longrightarrow> keeps R (Pair r)"
  by (simp_all add: keeps_def reflpD)

lemma keeps_bind:
  assumes "transp R" "keeps R m" "\<And>a. keeps R (f a)"
  shows "keeps R (act_bind m f)"
proof (rule keepsI)
  fix w
  show "R w (snd (act_bind m f w))"
    using keepsD [OF assms(2), of w] keepsD [OF assms(3)] transpD [OF assms(1)]
    by (auto simp: act_bind_def split: prod.splits sum.splits)
qed

lemma keeps_catch:
  assumes "transp R" "keeps R m" "\<And>e. keeps R (h e)"
  shows "keeps R (act_catch m h)"
proof (rule keepsI)
  fix w
  show "R w (snd (act_catch m h w))"
    using keepsD [OF assms(2), of w] keepsD [OF assms(3)] transpD [OF assms(1)]
    by (auto simp: act_catch_def split: prod.splits sum.splits)
qed

text \<open>
  Contracts of operations: from a world with \<open>P\<close>, an operation that returns \<open>a\<close> leaves \<open>Q a\<close>
  and one that throws \<open>e\<close> leaves \<open>E e\<close>.
\<close>

definition contract ::
  "('w \<Rightarrow> bool) \<Rightarrow> ('w, 'e, 'a) act \<Rightarrow> ('a \<Rightarrow> 'w \<Rightarrow> bool) \<Rightarrow> ('e \<Rightarrow> 'w \<Rightarrow> bool) \<Rightarrow> bool" where
  "contract P m Q E = (\<forall>w. P w \<longrightarrow> (case m w of (Inr a, w') \<Rightarrow> Q a w' | (Inl e, w') \<Rightarrow> E e w'))"

lemma contractI:
  "(\<And>w a w'. P w \<Longrightarrow> m w = (Inr a, w') \<Longrightarrow> Q a w') \<Longrightarrow>
   (\<And>w e w'. P w \<Longrightarrow> m w = (Inl e, w') \<Longrightarrow> E e w') \<Longrightarrow> contract P m Q E"
  by (auto simp: contract_def split: prod.splits sum.splits)

lemma contract_Inr: "contract P m Q E \<Longrightarrow> P w \<Longrightarrow> m w = (Inr a, w') \<Longrightarrow> Q a w'"
  by (fastforce simp: contract_def)

lemma contract_Inl: "contract P m Q E \<Longrightarrow> P w \<Longrightarrow> m w = (Inl e, w') \<Longrightarrow> E e w'"
  by (fastforce simp: contract_def)

lemma contract_bind:
  "contract P m R E \<Longrightarrow> (\<And>a. contract (R a) (f a) Q E) \<Longrightarrow> contract P (act_bind m f) Q E"
  by (fastforce simp: contract_def act_bind_def split: prod.splits sum.splits)

lemma contract_catch:
  "contract P m Q R \<Longrightarrow> (\<And>e. contract (R e) (h e) Q E) \<Longrightarrow> contract P (act_catch m h) Q E"
  by (fastforce simp: contract_def act_catch_def split: prod.splits sum.splits)

lemma contract_return: "(\<And>w. P w \<Longrightarrow> Q a w) \<Longrightarrow> contract P (act_return a) Q E"
  by (simp add: contract_def)

lemma contract_throw: "(\<And>w. P w \<Longrightarrow> E e w) \<Longrightarrow> contract P (act_throw e) Q E"
  by (simp add: contract_def)

lemma contract_check:
  "(\<And>w a. r = Inr a \<Longrightarrow> P w \<Longrightarrow> Q a w) \<Longrightarrow> (\<And>w e. r = Inl e \<Longrightarrow> P w \<Longrightarrow> E e w) \<Longrightarrow>
     contract P (act_check r) Q E"
  by (cases r) (simp_all add: contract_def)

lemma contract_weaken:
  "contract P m Q E \<Longrightarrow> (\<And>w. P' w \<Longrightarrow> P w) \<Longrightarrow> (\<And>a w. Q a w \<Longrightarrow> Q' a w) \<Longrightarrow>
     (\<And>e w. E e w \<Longrightarrow> E' e w) \<Longrightarrow> contract P' m Q' E'"
  by (fastforce simp: contract_def split: prod.splits sum.splits)

lemma contract_pre: "(\<And>w. P w \<Longrightarrow> contract (\<lambda>v. v = w) m Q E) \<Longrightarrow> contract P m Q E"
  by (auto simp: contract_def)

end
