(* ===== verification/Validation.thy ===== *)
theory Validation
  imports Gemba_Prelude
begin

text \<open>
  Input validation: services/access-control/src/validation.js and
  services/testnet-faucet/src/validation.js. A check is a function of the value that reached the
  handler (any JSON value, \<open>undefined\<close> when the property is missing) and returns the error it throws
  or the value it lets through. The characterisations say exactly which values pass.
\<close>

section \<open>Errors of the access-control API\<close>

text \<open>
  \<open>ValidationError\<close> carries status 400. A body that express.json() cannot parse is an \<open>HttpError\<close>
  with a status of its own; an error of PostgreSQL, ethers or the runtime has no status.
\<close>

datatype api_error =
    ValidationError string string
  | HttpError nat string string
  | OtherError string string

fun error_status :: "api_error \<Rightarrow> nat option" where
  "error_status (ValidationError f m) = Some 400"
| "error_status (HttpError s n m) = Some s"
| "error_status (OtherError n m) = None"

fun error_name :: "api_error \<Rightarrow> string" where
  "error_name (ValidationError f m) = ''ValidationError''"
| "error_name (HttpError s n m) = n"
| "error_name (OtherError n m) = n"

fun error_message :: "api_error \<Rightarrow> string" where
  "error_message (ValidationError f m) = f @ '': '' @ m"
| "error_message (HttpError s n m) = m"
| "error_message (OtherError n m) = m"

section \<open>Patterns\<close>

abbreviation rx_hex :: rx where
  "rx_hex \<equiv> RCls is_hex"

definition EVM_ADDRESS :: rx where
  "EVM_ADDRESS = RSeq (rx_lit ''0x'') (rx_rep 40 rx_hex)"

definition UUID :: rx where
  "UUID = RSeq (rx_rep 8 rx_hex) (RSeq (rx_lit ''-'') (RSeq (rx_rep 4 rx_hex) (RSeq (rx_lit ''-'')
     (RSeq (rx_rep 4 rx_hex) (RSeq (rx_lit ''-'') (RSeq (rx_rep 4 rx_hex) (RSeq (rx_lit ''-'')
       (rx_rep 12 rx_hex))))))))"

definition is_address :: "string \<Rightarrow> bool" where
  "is_address s = rx_full EVM_ADDRESS s"

definition is_uuid :: "string \<Rightarrow> bool" where
  "is_uuid s = rx_full UUID s"

lemma is_address_iff:
  "is_address s \<longleftrightarrow> (\<exists>h. s = ''0x'' @ h \<and> length h = 40 \<and> list_all is_hex h)"
  by (simp add: is_address_def EVM_ADDRESS_def rx_full_iff matches_simps del: rx_rep.simps rx_lit.simps)

lemma matches_group:
  "matches (RSeq (rx_rep n rx_hex) (RSeq (rx_lit ''-'') r)) s \<longleftrightarrow>
     (\<exists>a w. s = a @ CHR ''-'' # w \<and> (length a = n \<and> list_all is_hex a) \<and> matches r w)"
  by (auto simp: matches_seq matches_rep_cls simp del: rx_rep.simps rx_lit.simps)

lemma is_uuid_iff:
  "is_uuid s \<longleftrightarrow> (\<exists>a b c d e. s = join_with CHR ''-'' [a, b, c, d, e] \<and>
     map length [a, b, c, d, e] = [8, 4, 4, 4, 12] \<and> list_all is_hex (a @ b @ c @ d @ e))"
proof -
  have "is_uuid s \<longleftrightarrow> (\<exists>a w. s = a @ CHR ''-'' # w \<and> (length a = 8 \<and> list_all is_hex a) \<and>
      (\<exists>b x. w = b @ CHR ''-'' # x \<and> (length b = 4 \<and> list_all is_hex b) \<and>
      (\<exists>c y. x = c @ CHR ''-'' # y \<and> (length c = 4 \<and> list_all is_hex c) \<and>
      (\<exists>d e. y = d @ CHR ''-'' # e \<and> (length d = 4 \<and> list_all is_hex d) \<and>
        (length e = 12 \<and> list_all is_hex e)))))"
    unfolding is_uuid_def UUID_def rx_full_iff matches_group matches_rep_cls ..
  also have "\<dots> \<longleftrightarrow> (\<exists>a b c d e. s = join_with CHR ''-'' [a, b, c, d, e] \<and>
     map length [a, b, c, d, e] = [8, 4, 4, 4, 12] \<and> list_all is_hex (a @ b @ c @ d @ e))"
    by simp blast
  finally show ?thesis .
qed

lemma is_address_length: "is_address s \<Longrightarrow> length s = 42"
  by (auto simp: is_address_iff)

section \<open>The checks\<close>

definition requireEvmAddress :: "string \<Rightarrow> jsval \<Rightarrow> api_error + string" where
  "requireEvmAddress field v = (case v of
      JStr s \<Rightarrow> (if is_address s then Inr s
        else Inl (ValidationError field ''must be a 0x-prefixed 20-byte address''))
    | _ \<Rightarrow> Inl (ValidationError field ''must be a 0x-prefixed 20-byte address''))"

definition requireUuid :: "string \<Rightarrow> jsval \<Rightarrow> api_error + string" where
  "requireUuid field v = (case v of
      JStr s \<Rightarrow> (if is_uuid s then Inr s else Inl (ValidationError field ''must be a UUID''))
    | _ \<Rightarrow> Inl (ValidationError field ''must be a UUID''))"

text \<open>A zone that passes is an integer; the result is that integer.\<close>

definition requireZone :: "string \<Rightarrow> jsval \<Rightarrow> api_error + int" where
  "requireZone field v = (case v of
      JNum (Fin q) \<Rightarrow> (if \<not> js_is_integer (Fin q) \<or> q < 0
        then Inl (ValidationError field ''must be a non-negative integer'') else Inr \<lfloor>q\<rfloor>)
    | _ \<Rightarrow> Inl (ValidationError field ''must be a non-negative integer''))"

text \<open>\<open>max\<close> defaults to 256.\<close>

definition requireNonEmptyString :: "string \<Rightarrow> jsval \<Rightarrow> nat \<Rightarrow> api_error + string" where
  "requireNonEmptyString field v mx = (case v of
      JStr s \<Rightarrow> (if length (trim s) = 0 then Inl (ValidationError field ''is required'')
        else if mx < length s
        then Inl (ValidationError field (''must be at most '' @ dec_string mx @ '' chars''))
        else Inr s)
    | _ \<Rightarrow> Inl (ValidationError field ''is required''))"

definition optionalEmail :: "string \<Rightarrow> jsval \<Rightarrow> api_error + string option" where
  "optionalEmail field v = (
     if v = JUndef \<or> v = JNull \<or> v = JStr [] then Inr None
     else case v of
       JStr s \<Rightarrow> (if \<not> str_includes s ''@'' \<or> 320 < length s
         then Inl (ValidationError field ''must be a valid email'') else Inr (Some s))
     | _ \<Rightarrow> Inl (ValidationError field ''must be a valid email''))"

text \<open>The faucet's check of the requested address.\<close>

definition isEvmAddress :: "jsval \<Rightarrow> bool" where
  "isEvmAddress v = (case v of JStr s \<Rightarrow> rx_full EVM_ADDRESS s | _ \<Rightarrow> False)"

section \<open>What passes\<close>

lemma requireEvmAddress_Inr:
  "requireEvmAddress field v = Inr a \<longleftrightarrow> v = JStr a \<and> is_address a"
  by (auto simp: requireEvmAddress_def split: jsval.splits)

lemma requireUuid_Inr: "requireUuid field v = Inr a \<longleftrightarrow> v = JStr a \<and> is_uuid a"
  by (auto simp: requireUuid_def split: jsval.splits)

lemma requireZone_Inr: "requireZone field v = Inr z \<longleftrightarrow> v = JNum (Fin (of_int z)) \<and> 0 \<le> z"
proof (cases v)
  case (JNum n)
  show ?thesis
  proof (cases n)
    case (Fin q)
    show ?thesis
    proof (cases "of_int \<lfloor>q\<rfloor> = q")
      case True
      then obtain k where "q = of_int k" by metis
      then show ?thesis by (auto simp: requireZone_def JNum Fin js_is_integer_def)
    next
      case False
      then have "q \<noteq> of_int z" by auto
      with False show ?thesis by (auto simp: requireZone_def JNum Fin js_is_integer_def)
    qed
  qed (auto simp: requireZone_def JNum)
qed (auto simp: requireZone_def)

lemma requireNonEmptyString_Inr:
  "requireNonEmptyString field v mx = Inr s \<longleftrightarrow>
     v = JStr s \<and> (\<exists>c \<in> set s. \<not> is_ws c) \<and> length s \<le> mx"
  by (auto simp: requireNonEmptyString_def trim_eq_Nil list_all_iff split: jsval.splits)

lemma optionalEmail_Inr:
  "optionalEmail field v = Inr r \<longleftrightarrow>
     (r = None \<and> v \<in> {JUndef, JNull, JStr []}) \<or>
     (\<exists>s. r = Some s \<and> v = JStr s \<and> CHR ''@'' \<in> set s \<and> length s \<le> 320)"
proof -
  have "str_includes s ''@'' \<longleftrightarrow> CHR ''@'' \<in> set s" for s
    by (auto simp: str_includes_iff dest: split_list)
  then show ?thesis by (auto simp: optionalEmail_def split: jsval.splits)
qed

lemma isEvmAddress_iff: "isEvmAddress v \<longleftrightarrow> (\<exists>s. v = JStr s \<and> is_address s)"
  by (auto simp: isEvmAddress_def is_address_def split: jsval.splits)

text \<open>Every refusal is a client error: the field is named and the status is 400.\<close>

lemma requireEvmAddress_400: "requireEvmAddress field v = Inl e \<Longrightarrow> error_status e = Some 400"
  by (cases v) (auto simp: requireEvmAddress_def split: if_splits)

lemma requireUuid_400: "requireUuid field v = Inl e \<Longrightarrow> error_status e = Some 400"
  by (cases v) (auto simp: requireUuid_def split: if_splits)

lemma requireZone_400: "requireZone field v = Inl e \<Longrightarrow> error_status e = Some 400"
  by (auto simp: requireZone_def split: jsval.splits jsnum.splits if_splits)

lemma requireNonEmptyString_400:
  "requireNonEmptyString field v mx = Inl e \<Longrightarrow> error_status e = Some 400"
  by (cases v) (auto simp: requireNonEmptyString_def split: if_splits)

lemma optionalEmail_400: "optionalEmail field v = Inl e \<Longrightarrow> error_status e = Some 400"
  by (cases v) (auto simp: optionalEmail_def split: if_splits)

lemmas checks_fail_as_400 = requireEvmAddress_400 requireUuid_400 requireZone_400
  requireNonEmptyString_400 optionalEmail_400

lemmas check_results = requireEvmAddress_Inr requireUuid_Inr requireZone_Inr
  requireNonEmptyString_Inr optionalEmail_Inr

end
