(* ===== verification/Auth.thy ===== *)
theory Auth
  imports Validation
begin

text \<open>
  Authentication of the access-control API: services/access-control/src/auth.js. The key map is
  parsed from the environment; a request is identified by the API key it presents and by nothing
  else.
\<close>

section \<open>The key map\<close>

text \<open>One \<open>key:tenant\<close> pair of the list; a pair without a key or without a tenant is skipped.\<close>

definition parse_pair :: "string \<Rightarrow> (string \<times> string) option" where
  "parse_pair pair = (case index_of CHR '':'' pair of
      None \<Rightarrow> None
    | Some idx \<Rightarrow>
       (if idx = 0 then None
        else let key = trim (take idx pair); tenant = trim (drop (idx + 1) pair) in
          if key \<noteq> [] \<and> tenant \<noteq> [] then Some (key, tenant) else None))"

definition parseApiKeys :: "string option \<Rightarrow> (string, string) jsmap" where
  "parseApiKeys raw = foldl (\<lambda>m pair. case parse_pair pair of
        None \<Rightarrow> m | Some (key, tenant) \<Rightarrow> AList.update key tenant m)
     [] (split_on CHR '','' (case raw of None \<Rightarrow> [] | Some s \<Rightarrow> s))"

section \<open>The middleware\<close>

type_synonym headers = "string \<Rightarrow> string option"

text \<open>\<open>a || b\<close> on header values: a missing header and an empty one are both falsy.\<close>

definition header_or :: "string option \<Rightarrow> string \<Rightarrow> string" where
  "header_or a b = (case a of None \<Rightarrow> b | Some [] \<Rightarrow> b | Some s \<Rightarrow> s)"

text \<open>\<open>replace(/^Bearer\s+/i, '')\<close>.\<close>

definition strip_bearer :: "string \<Rightarrow> string" where
  "strip_bearer s = (if to_lower (take 6 s) = ''bearer'' \<and> drop 6 s \<noteq> [] \<and> is_ws (hd (drop 6 s))
     then dropWhile is_ws (drop 6 s) else s)"

definition presented_key :: "headers \<Rightarrow> string" where
  "presented_key h =
     header_or (h ''x-api-key'') (trim (strip_bearer (header_or (h ''authorization'') [])))"

text \<open>The tenant id the request gets, or \<open>None\<close> for the answer 401.\<close>

definition apiKeyAuth :: "(string, string) jsmap \<Rightarrow> headers \<Rightarrow> string option" where
  "apiKeyAuth keyMap h = (let key = presented_key h;
       tenantId = (if key \<noteq> [] then map_of keyMap key else None) in
     case tenantId of None \<Rightarrow> None | Some [] \<Rightarrow> None | Some t \<Rightarrow> Some t)"

section \<open>Facts\<close>

text \<open>The pairs of the list in order; a later pair for the same key wins.\<close>

definition configured_pairs :: "string option \<Rightarrow> (string \<times> string) list" where
  "configured_pairs raw =
     List.map_filter parse_pair (split_on CHR '','' (case raw of None \<Rightarrow> [] | Some s \<Rightarrow> s))"

lemma map_of_updates:
  "map_of (foldl (\<lambda>m (k, v). AList.update k v m) m ps) k =
     (case map_of (rev ps) k of None \<Rightarrow> map_of m k | Some v \<Rightarrow> Some v)"
proof (induction ps arbitrary: m)
  case (Cons p ps)
  show ?case
    by (cases p) (auto simp: Cons js_map.get_put map_of_append map_add_def split: option.splits)
qed simp

lemma foldl_skip:
  "foldl (\<lambda>m x. case f x of None \<Rightarrow> m | Some (k, v) \<Rightarrow> g k v m) m xs =
     foldl (\<lambda>m (k, v). g k v m) m (List.map_filter f xs)"
  by (induction xs arbitrary: m) (auto simp: List.map_filter_simps split: option.splits)

lemma parseApiKeys_pairs:
  "map_of (parseApiKeys raw) k = map_of (rev (configured_pairs raw)) k"
  unfolding parseApiKeys_def configured_pairs_def foldl_skip map_of_updates
  by (simp split: option.splits)

lemma parse_pair_sound:
  "parse_pair p = Some (k, t) \<Longrightarrow> k \<noteq> [] \<and> t \<noteq> [] \<and> trim k = k \<and> trim t = t"
  by (auto simp: parse_pair_def Let_def split: option.splits if_splits)

lemma configured_pairs_sound:
  "(k, t) \<in> set (configured_pairs raw) \<Longrightarrow> k \<noteq> [] \<and> t \<noteq> [] \<and> trim k = k \<and> trim t = t"
  unfolding configured_pairs_def List.map_filter_def by (auto dest: parse_pair_sound)

lemma parsed_keys_sound:
  "map_of (parseApiKeys raw) k = Some t \<Longrightarrow> k \<noteq> [] \<and> t \<noteq> [] \<and> trim k = k \<and> trim t = t"
  unfolding parseApiKeys_pairs by (drule map_of_SomeD) (simp add: configured_pairs_sound)

definition print_pair :: "string \<times> string \<Rightarrow> string" where
  "print_pair p = fst p @ CHR '':'' # snd p"

definition plain_pair :: "string \<times> string \<Rightarrow> bool" where
  "plain_pair p = (fst p \<noteq> [] \<and> snd p \<noteq> [] \<and> trim (fst p) = fst p \<and> trim (snd p) = snd p \<and>
     CHR '':'' \<notin> set (fst p) \<and> CHR '','' \<notin> set (fst p) \<and> CHR '','' \<notin> set (snd p))"

lemma parse_print_pair: "plain_pair p \<Longrightarrow> parse_pair (print_pair p) = Some p"
  by (cases p) (auto simp: parse_pair_def print_pair_def plain_pair_def Let_def)

lemma configured_pairs_print:
  assumes "list_all plain_pair ps"
  shows "configured_pairs (Some (join_with CHR '','' (map print_pair ps))) = ps"
proof (cases "ps = []")
  case True
  then show ?thesis by (simp add: configured_pairs_def List.map_filter_simps parse_pair_def)
next
  case False
  have "split_on CHR '','' (join_with CHR '','' (map print_pair ps)) = map print_pair ps"
    using False assms by (intro split_on_join) (auto simp: list_all_iff plain_pair_def print_pair_def)
  moreover have "List.map_filter parse_pair (map print_pair ps) = ps"
    using assms by (induction ps) (auto simp: List.map_filter_simps parse_print_pair)
  ultimately show ?thesis by (simp add: configured_pairs_def)
qed

lemma apiKeyAuth_Some:
  "apiKeyAuth m h = Some t \<longleftrightarrow>
     presented_key h \<noteq> [] \<and> map_of m (presented_key h) = Some t \<and> t \<noteq> []"
  by (auto simp: apiKeyAuth_def Let_def split: option.splits list.splits)

lemma presented_key_only:
  "h ''x-api-key'' = h' ''x-api-key'' \<Longrightarrow> h ''authorization'' = h' ''authorization'' \<Longrightarrow>
     presented_key h = presented_key h'"
  by (simp add: presented_key_def)

lemma apiKeyAuth_only:
  "h ''x-api-key'' = h' ''x-api-key'' \<Longrightarrow> h ''authorization'' = h' ''authorization'' \<Longrightarrow>
     apiKeyAuth m h = apiKeyAuth m h'"
  using presented_key_only [of h h'] by (simp add: apiKeyAuth_def)

end
