(* ===== verification/Capability_Ledger.thy ===== *)
theory Capability_Ledger
  imports Gemba_Prelude
begin

text \<open>
  The on-chain side of the access-control service: contracts/src/access/AccessControlNFT.sol. A
  token id is a zone and a balance of one means that the address may enter it. The contract is
  soulbound, so balances change by \<open>grantAccess\<close> and \<open>revokeAccess\<close> only; both are for the holder of
  ISSUER_ROLE, which in this system is the wallet of the service.

  The locale \<open>capability_ledger\<close> is what the service relies on; the contract provides it.
\<close>

section \<open>The contract\<close>

text \<open>
  \<open>refuses\<close> are the holders that are contracts which do not take the token when \<open>_mint\<close> asks them; they are
  code of others.
\<close>

datatype revert = ZeroAddress | AlreadyGranted | NotGranted | UnauthorizedAccount | ReceiverRefused

record nft =
  balance :: "string \<Rightarrow> int \<Rightarrow> nat"
  issuer_role :: "string list"
  refuses :: "string \<Rightarrow> bool"

definition zero_address :: string where
  "zero_address = ''0x'' @ replicate 40 CHR ''0''"

definition set_balance :: "string \<Rightarrow> int \<Rightarrow> nat \<Rightarrow> nft \<Rightarrow> nft" where
  "set_balance holder zone n c =
     c\<lparr>balance := (balance c)(holder := (balance c holder)(zone := n))\<rparr>"

definition nft_grantAccess :: "string \<Rightarrow> string \<Rightarrow> int \<Rightarrow> nft \<Rightarrow> revert + nft" where
  "nft_grantAccess sender holder zone c = (
     if sender \<notin> set (issuer_role c) then Inl UnauthorizedAccount
     else if holder = zero_address then Inl ZeroAddress
     else if balance c holder zone \<noteq> 0 then Inl AlreadyGranted
     else if refuses c holder then Inl ReceiverRefused
     else Inr (set_balance holder zone (balance c holder zone + 1) c))"

definition nft_revokeAccess :: "string \<Rightarrow> string \<Rightarrow> int \<Rightarrow> nft \<Rightarrow> revert + nft" where
  "nft_revokeAccess sender holder zone c = (
     if sender \<notin> set (issuer_role c) then Inl UnauthorizedAccount
     else if balance c holder zone = 0 then Inl NotGranted
     else Inr (set_balance holder zone (balance c holder zone - 1) c))"

definition nft_hasAccess :: "nft \<Rightarrow> string \<Rightarrow> int \<Rightarrow> bool" where
  "nft_hasAccess c holder zone = (balance c holder zone \<noteq> 0)"

text \<open>Balances never exceed one, and the zero address holds nothing.\<close>

definition nft_ok :: "nft \<Rightarrow> bool" where
  "nft_ok c = (\<forall>h z. balance c h z \<le> 1 \<and> balance c zero_address z = 0)"

lemma balance_set_balance [simp]:
  "balance (set_balance h z n c) h' z' = (if h' = h \<and> z' = z then n else balance c h' z')"
  "issuer_role (set_balance h z n c) = issuer_role c"
  "refuses (set_balance h z n c) = refuses c"
  by (simp_all add: set_balance_def)

lemma nft_ok_grant: "nft_ok c \<Longrightarrow> nft_grantAccess s h z c = Inr c' \<Longrightarrow> nft_ok c'"
  by (auto simp: nft_ok_def nft_grantAccess_def split: if_splits)

lemma nft_ok_revoke: "nft_ok c \<Longrightarrow> nft_revokeAccess s h z c = Inr c' \<Longrightarrow> nft_ok c'"
  by (auto simp: nft_ok_def nft_revokeAccess_def split: if_splits)

section \<open>The interface\<close>

locale capability_ledger =
  fixes holds :: "'l \<Rightarrow> string \<Rightarrow> int \<Rightarrow> bool"
    and grant :: "string \<Rightarrow> int \<Rightarrow> 'l \<Rightarrow> 'l option"
    and revoke :: "string \<Rightarrow> int \<Rightarrow> 'l \<Rightarrow> 'l option"
    and ready :: "'l \<Rightarrow> bool"
  assumes grant_effect: "ready l \<Longrightarrow> grant h z l = Some l' \<Longrightarrow>
      ready l' \<and> (\<forall>h' z'. holds l' h' z' \<longleftrightarrow> holds l h' z' \<or> (h' = h \<and> z' = z))"
    and grant_fresh: "ready l \<Longrightarrow> holds l h z \<Longrightarrow> grant h z l = None"
    and revoke_effect: "ready l \<Longrightarrow> revoke h z l = Some l' \<Longrightarrow>
      ready l' \<and> (\<forall>h' z'. holds l' h' z' \<longleftrightarrow> holds l h' z' \<and> \<not> (h' = h \<and> z' = z))"
    and revoke_defined: "ready l \<Longrightarrow> revoke h z l = None \<longleftrightarrow> \<not> holds l h z"
begin

text \<open>Revoking a list of capabilities one by one, going on after one that is not held.\<close>

definition revoke_each :: "(string \<times> int) list \<Rightarrow> 'l \<Rightarrow> 'l" where
  "revoke_each caps l = foldl (\<lambda>l (h, z). case revoke h z l of None \<Rightarrow> l | Some l' \<Rightarrow> l') l caps"

lemma revoke_step:
  assumes "ready l"
  shows "ready (case revoke h z l of None \<Rightarrow> l | Some l' \<Rightarrow> l')"
    and "holds (case revoke h z l of None \<Rightarrow> l | Some l' \<Rightarrow> l') h' z' \<longleftrightarrow>
      holds l h' z' \<and> \<not> (h' = h \<and> z' = z)"
  using assms revoke_effect revoke_defined by (auto split: option.splits)

lemma revoke_each_spec:
  "ready l \<Longrightarrow> ready (revoke_each caps l) \<and>
     (\<forall>h z. holds (revoke_each caps l) h z \<longleftrightarrow> holds l h z \<and> (h, z) \<notin> set caps)"
proof (induction caps arbitrary: l)
  case (Cons c caps)
  obtain h z where c: "c = (h, z)" by (cases c)
  let ?l = "case revoke h z l of None \<Rightarrow> l | Some l' \<Rightarrow> l'"
  have "revoke_each (c # caps) l = revoke_each caps ?l" by (simp add: revoke_each_def c)
  with Cons.IH [of ?l] revoke_step [OF Cons.prems] show ?case by (auto simp: c)
qed (simp add: revoke_each_def)

lemma revoke_after_grant:
  assumes "ready l" "grant h z l = Some l'"
  shows "\<exists>l''. revoke h z l' = Some l'' \<and> (\<forall>h' z'. holds l'' h' z' = holds l h' z')"
proof -
  have l': "ready l'" "\<And>h' z'. holds l' h' z' \<longleftrightarrow> holds l h' z' \<or> (h' = h \<and> z' = z)"
    using grant_effect [OF assms] by auto
  then obtain l'' where l'': "revoke h z l' = Some l''" using revoke_defined [OF l'(1)] by fastforce
  have "\<not> holds l h z" using grant_fresh assms by fastforce
  with revoke_effect [OF l'(1) l''] l'' l'(2) show ?thesis by auto
qed

end

text \<open>The contract, called by one sender, is such a ledger.\<close>

definition option_of :: "'e + 'a \<Rightarrow> 'a option" where
  "option_of r = (case r of Inl _ \<Rightarrow> None | Inr a \<Rightarrow> Some a)"

definition issuer_ready :: "string \<Rightarrow> nft \<Rightarrow> bool" where
  "issuer_ready sender c = (nft_ok c \<and> sender \<in> set (issuer_role c))"

interpretation nft: capability_ledger nft_hasAccess
  "\<lambda>h z c. option_of (nft_grantAccess sender h z c)"
  "\<lambda>h z c. option_of (nft_revokeAccess sender h z c)"
  "issuer_ready sender" for sender
proof (unfold_locales, goal_cases)
  case (1 l h z l')
  then show ?case
    by (auto simp: option_of_def issuer_ready_def nft_hasAccess_def nft_ok_grant
        split: sum.splits) (auto simp: nft_grantAccess_def split: if_splits)
next
  case (2 l h z)
  then show ?case by (simp add: nft_grantAccess_def option_of_def nft_hasAccess_def issuer_ready_def)
next
  case (3 l h z l')
  then have "balance l h z \<le> 1" by (simp add: issuer_ready_def nft_ok_def)
  with 3 show ?case
    by (auto simp: option_of_def issuer_ready_def nft_hasAccess_def nft_ok_revoke
        split: sum.splits) (auto simp: nft_revokeAccess_def split: if_splits)
next
  case (4 l h z)
  then show ?case by (simp add: nft_revokeAccess_def option_of_def nft_hasAccess_def issuer_ready_def)
qed

end
