(* ===== verification/Access_Db.thy ===== *)
theory Access_Db
  imports Auth Capability_Ledger
begin

text \<open>
  The off-chain state of the access-control service: the tables and policies of
  services/access-control/db/schema.sql and the statements of services/access-control/src/db.js.

  A statement runs on the tables under the value of \<open>app.current_tenant\<close>: row-level security hides
  the rows of other tenants from it and refuses rows it would create for them, while unique and
  foreign keys look at every row. Ids come from the database (the model passes the next one in) and
  are canonical; a text parameter compared with a uuid column is read case-insensitively.
\<close>

section \<open>Tables\<close>

record employee =
  emp_id :: string
  emp_tenant :: string
  emp_full_name :: string
  emp_email :: "string option"
  emp_wallet :: string
  emp_created :: int

record capability =
  cap_id :: string
  cap_tenant :: string
  cap_employee :: string
  cap_zone :: int
  cap_grant_tx :: string
  cap_revoked :: "int option"
  cap_created :: int

record access_log =
  log_id :: nat
  log_tenant :: string
  log_employee :: "string option"
  log_zone :: int
  log_granted :: bool
  log_occurred :: int

record outbox_row =
  ob_id :: string
  ob_tenant :: string
  ob_wallet :: string
  ob_zone :: int
  ob_reason :: "string option"
  ob_created :: int
  ob_retried :: "int option"

record db =
  tenants :: "string list"
  employees :: "employee list"
  capabilities :: "capability list"
  access_logs :: "access_log list"
  outbox :: "outbox_row list"
  log_seq :: nat

section \<open>Statements\<close>

datatype pg_error =
    InvalidUuid
  | InvalidText
  | OutOfRange
  | PolicyViolation
  | ForeignKeyViolation
  | UniqueViolation

text \<open>
  A value of type uuid in the form with hyphens, in either case. PostgreSQL takes other spellings as well; the ids of
  requests have been checked for this one, and the tenants of the API keys are taken to be configured in it.
\<close>

definition pg_uuid :: "string \<Rightarrow> pg_error + string" where
  "pg_uuid s = (if is_uuid s then Inr (to_lower s) else Inl InvalidUuid)"

definition pg_text_ok :: "string \<Rightarrow> bool" where
  "pg_text_ok s = (CHR 0x00 \<notin> set s)"

definition pg_bigint_ok :: "int \<Rightarrow> bool" where
  "pg_bigint_ok z = (- (2 ^ 63) \<le> z \<and> z < 2 ^ 63)"

text \<open>The value the policies compare \<open>tenant_id\<close> with; NULL when the setting is absent.\<close>

definition rls_tenant :: "string option \<Rightarrow> pg_error + string option" where
  "rls_tenant setting = (case setting of None \<Rightarrow> Inr None
     | Some s \<Rightarrow> (case pg_uuid s of Inl e \<Rightarrow> Inl e | Inr u \<Rightarrow> Inr (Some u)))"

type_synonym 'a stmt = "string option \<Rightarrow> db \<Rightarrow> pg_error + ('a \<times> db)"

text \<open>The checks every INSERT of a tenant's row goes through.\<close>

definition insert_checks :: "string \<Rightarrow> string option \<Rightarrow> db \<Rightarrow> pg_error + string" where
  "insert_checks tenantId setting d = (case pg_uuid tenantId of Inl e \<Rightarrow> Inl e
     | Inr t \<Rightarrow> (case rls_tenant setting of Inl e \<Rightarrow> Inl e
       | Inr cur \<Rightarrow> if cur \<noteq> Some t then Inl PolicyViolation
           else if t \<notin> set (tenants d) then Inl ForeignKeyViolation else Inr t))"

definition createEmployee ::
  "string \<Rightarrow> string \<Rightarrow> string option \<Rightarrow> string \<Rightarrow> string \<Rightarrow> int \<Rightarrow> (string \<times> string) stmt" where
  "createEmployee tenantId fullName email wallet new_id now setting d = (
     if \<not> (pg_text_ok fullName \<and> pred_option pg_text_ok email \<and> pg_text_ok wallet) then Inl InvalidText
     else case insert_checks tenantId setting d of Inl e \<Rightarrow> Inl e
     | Inr t \<Rightarrow>
        if new_id \<in> emp_id ` set (employees d) then Inl UniqueViolation
        else if \<exists>e \<in> set (employees d). emp_tenant e = t \<and> emp_wallet e = wallet then Inl UniqueViolation
        else Inr ((new_id, wallet), d\<lparr>employees := employees d @ [\<lparr>emp_id = new_id, emp_tenant = t,
               emp_full_name = fullName, emp_email = email, emp_wallet = wallet, emp_created = now\<rparr>]\<rparr>))"

definition visible_employees :: "string option \<Rightarrow> db \<Rightarrow> employee list" where
  "visible_employees cur d = filter (\<lambda>e. Some (emp_tenant e) = cur) (employees d)"

definition listEmployees :: "(string \<times> string \<times> string) list stmt" where
  "listEmployees setting d = (case rls_tenant setting of Inl e \<Rightarrow> Inl e
     | Inr cur \<Rightarrow> Inr (map (\<lambda>e. (emp_id e, emp_full_name e, emp_wallet e))
         (sort_key emp_created (visible_employees cur d)), d))"

definition getEmployeeWallet :: "string \<Rightarrow> string option stmt" where
  "getEmployeeWallet employeeId setting d = (case pg_uuid employeeId of Inl e \<Rightarrow> Inl e
     | Inr i \<Rightarrow> (case rls_tenant setting of Inl e \<Rightarrow> Inl e
       | Inr cur \<Rightarrow> Inr (map_option emp_wallet (find (\<lambda>e. emp_id e = i) (visible_employees cur d)), d)))"

definition createCapability :: "string \<Rightarrow> string \<Rightarrow> int \<Rightarrow> string \<Rightarrow> string \<Rightarrow> int \<Rightarrow> string stmt" where
  "createCapability tenantId employeeId zone grantTx new_id now setting d = (
     case pg_uuid employeeId of Inl e \<Rightarrow> Inl e
     | Inr i \<Rightarrow>
        if \<not> pg_bigint_ok zone then Inl OutOfRange
        else case insert_checks tenantId setting d of Inl e \<Rightarrow> Inl e
        | Inr t \<Rightarrow>
           if new_id \<in> cap_id ` set (capabilities d) then Inl UniqueViolation
           else if i \<notin> emp_id ` set (employees d) then Inl ForeignKeyViolation
           else Inr (new_id, d\<lparr>capabilities := capabilities d @ [\<lparr>cap_id = new_id, cap_tenant = t,
                  cap_employee = i, cap_zone = zone, cap_grant_tx = grantTx, cap_revoked = None,
                  cap_created = now\<rparr>]\<rparr>))"

text \<open>The rows \<open>(zone, wallet)\<close> of the join, on the rows the tenant sees.\<close>

definition getEmployeeCapabilities :: "string \<Rightarrow> (int \<times> string) list stmt" where
  "getEmployeeCapabilities employeeId setting d = (case pg_uuid employeeId of Inl e \<Rightarrow> Inl e
     | Inr i \<Rightarrow> (case rls_tenant setting of Inl e \<Rightarrow> Inl e
       | Inr cur \<Rightarrow> Inr (concat (map (\<lambda>c. map (\<lambda>e. (cap_zone c, emp_wallet e))
             (filter (\<lambda>e. emp_id e = cap_employee c) (visible_employees cur d)))
           (filter (\<lambda>c. Some (cap_tenant c) = cur \<and> cap_employee c = i \<and> cap_revoked c = None)
             (capabilities d))), d)))"

definition logAccess :: "string \<Rightarrow> string \<Rightarrow> int \<Rightarrow> bool \<Rightarrow> string \<Rightarrow> int \<Rightarrow> unit stmt" where
  "logAccess tenantId employeeId zone granted new_id now setting d = (
     case pg_uuid employeeId of Inl e \<Rightarrow> Inl e
     | Inr i \<Rightarrow>
        if \<not> pg_bigint_ok zone then Inl OutOfRange
        else case insert_checks tenantId setting d of Inl e \<Rightarrow> Inl e
        | Inr t \<Rightarrow>
           if i \<notin> emp_id ` set (employees d) then Inl ForeignKeyViolation
           else Inr ((), d\<lparr>log_seq := Suc (log_seq d),
                  access_logs := access_logs d @ [\<lparr>log_id = log_seq d, log_tenant = t,
                  log_employee = Some i, log_zone = zone, log_granted = granted, log_occurred = now\<rparr>]\<rparr>))"

text \<open>ON DELETE CASCADE on capabilities, ON DELETE SET NULL on access_logs; neither is subject to RLS.\<close>

definition forget_employees :: "string set \<Rightarrow> access_log \<Rightarrow> access_log" where
  "forget_employees gone l = (case log_employee l of
      Some e \<Rightarrow> (if e \<in> gone then l\<lparr>log_employee := None\<rparr> else l) | None \<Rightarrow> l)"

definition deleteEmployee :: "string \<Rightarrow> unit stmt" where
  "deleteEmployee employeeId setting d = (case pg_uuid employeeId of Inl e \<Rightarrow> Inl e
     | Inr i \<Rightarrow> (case rls_tenant setting of Inl e \<Rightarrow> Inl e
       | Inr cur \<Rightarrow>
          (let hit = (\<lambda>e. Some (emp_tenant e) = cur \<and> emp_id e = i);
               gone = emp_id ` set (filter hit (employees d)) in
           Inr ((), d\<lparr>employees := filter (\<lambda>e. \<not> hit e) (employees d),
             capabilities := filter (\<lambda>c. cap_employee c \<notin> gone) (capabilities d),
             access_logs := map (forget_employees gone) (access_logs d)\<rparr>))))"

definition recordFailedRevocation ::
  "string \<Rightarrow> string \<Rightarrow> int \<Rightarrow> string option \<Rightarrow> string \<Rightarrow> int \<Rightarrow> unit stmt" where
  "recordFailedRevocation tenantId wallet zone reason new_id now setting d = (
     if \<not> (pg_text_ok wallet \<and> pred_option pg_text_ok reason) then Inl InvalidText
     else if \<not> pg_bigint_ok zone then Inl OutOfRange
     else case insert_checks tenantId setting d of Inl e \<Rightarrow> Inl e
     | Inr t \<Rightarrow>
        if new_id \<in> ob_id ` set (outbox d) then Inl UniqueViolation
        else Inr ((), d\<lparr>outbox := outbox d @ [\<lparr>ob_id = new_id, ob_tenant = t, ob_wallet = wallet,
               ob_zone = zone, ob_reason = reason, ob_created = now, ob_retried = None\<rparr>]\<rparr>))"

definition listPendingRevocations :: "nat \<Rightarrow> (string \<times> string \<times> int) list stmt" where
  "listPendingRevocations limit setting d = (case rls_tenant setting of Inl e \<Rightarrow> Inl e
     | Inr cur \<Rightarrow> Inr (map (\<lambda>r. (ob_id r, ob_wallet r, ob_zone r)) (take limit (sort_key ob_created
         (filter (\<lambda>r. Some (ob_tenant r) = cur \<and> ob_retried r = None) (outbox d)))), d))"

definition markRevocationRetried :: "string \<Rightarrow> int \<Rightarrow> unit stmt" where
  "markRevocationRetried row_id now setting d = (case pg_uuid row_id of Inl e \<Rightarrow> Inl e
     | Inr i \<Rightarrow> (case rls_tenant setting of Inl e \<Rightarrow> Inl e
       | Inr cur \<Rightarrow> Inr ((), d\<lparr>outbox := map (\<lambda>r.
           if Some (ob_tenant r) = cur \<and> ob_id r = i then r\<lparr>ob_retried := Some now\<rparr> else r) (outbox d)\<rparr>)))"

text \<open>Outside every tenant: the table of tenants has no policy.\<close>

definition listTenantIds :: "db \<Rightarrow> string list" where
  "listTenantIds d = tenants d"

text \<open>The query of \<open>assertSafeDbRole\<close> and what it does with the row.\<close>

definition assertSafeDbRole :: "bool \<Rightarrow> bool \<Rightarrow> string + unit" where
  "assertSafeDbRole is_superuser bypassrls = (if is_superuser \<or> bypassrls
     then Inl ''refusing to start: DB role is a superuser or has BYPASSRLS'' else Inr ())"

lemmas stmt_defs = createEmployee_def listEmployees_def getEmployeeWallet_def createCapability_def
  getEmployeeCapabilities_def logAccess_def deleteEmployee_def recordFailedRevocation_def
  listPendingRevocations_def markRevocationRetried_def

section \<open>What the schema guarantees\<close>

definition employee_ids :: "db \<Rightarrow> string set" where
  "employee_ids d = emp_id ` set (employees d)"

definition db_ok :: "db \<Rightarrow> bool" where
  "db_ok d = (distinct (map emp_id (employees d)) \<and>
     distinct (map (\<lambda>e. (emp_tenant e, emp_wallet e)) (employees d)) \<and>
     distinct (map cap_id (capabilities d)) \<and>
     distinct (map ob_id (outbox d)) \<and>
     (\<forall>e \<in> set (employees d). emp_tenant e \<in> set (tenants d)) \<and>
     (\<forall>c \<in> set (capabilities d). cap_employee c \<in> employee_ids d) \<and>
     (\<forall>l \<in> set (access_logs d). pred_option (\<lambda>e. e \<in> employee_ids d) (log_employee l)))"

text \<open>What the schema does not: a row points to an employee of its own tenant.\<close>

definition same_tenant :: "db \<Rightarrow> bool" where
  "same_tenant d = (
     (\<forall>c \<in> set (capabilities d). \<forall>e \<in> set (employees d). emp_id e = cap_employee c \<longrightarrow> emp_tenant e = cap_tenant c) \<and>
     (\<forall>l \<in> set (access_logs d). \<forall>e \<in> set (employees d). log_employee l = Some (emp_id e) \<longrightarrow> emp_tenant e = log_tenant l))"

definition owns :: "string \<Rightarrow> string \<Rightarrow> db \<Rightarrow> bool" where
  "owns t i d = (\<exists>e \<in> set (employees d). emp_id e = i \<and> emp_tenant e = t)"

definition rows_of :: "string \<Rightarrow> db \<Rightarrow> employee list \<times> capability list \<times> access_log list \<times> outbox_row list" where
  "rows_of t d = (filter (\<lambda>e. emp_tenant e = t) (employees d), filter (\<lambda>c. cap_tenant c = t) (capabilities d),
     filter (\<lambda>l. log_tenant l = t) (access_logs d), filter (\<lambda>r. ob_tenant r = t) (outbox d))"

section \<open>Statements one by one\<close>

lemma pg_uuid_Inr [simp]: "pg_uuid s = Inr u \<longleftrightarrow> is_uuid s \<and> u = to_lower s"
  by (auto simp: pg_uuid_def)

lemma pg_uuid_Inl [simp]: "pg_uuid s = Inl e \<longleftrightarrow> \<not> is_uuid s \<and> e = InvalidUuid"
  by (auto simp: pg_uuid_def)

lemma rls_tenant_Some [simp]: "rls_tenant (Some s) = Inr cur \<longleftrightarrow> is_uuid s \<and> cur = Some (to_lower s)"
  by (auto simp: rls_tenant_def split: sum.splits)

lemma rls_tenant_Some_Inl [simp]: "rls_tenant (Some s) = Inl e \<longleftrightarrow> \<not> is_uuid s \<and> e = InvalidUuid"
  by (auto simp: rls_tenant_def split: sum.splits)

lemma insert_checks_own:
  "insert_checks s (Some s) d = (if \<not> is_uuid s then Inl InvalidUuid
     else if to_lower s \<in> set (tenants d) then Inr (to_lower s) else Inl ForeignKeyViolation)"
  by (auto simp: insert_checks_def split: sum.splits)

text \<open>The effect of each statement that writes, run as tenant \<open>s\<close>.\<close>

lemma createEmployee_Inr:
  "createEmployee s fullName email wallet i now (Some s) d = Inr (r, d') \<longleftrightarrow>
     pg_text_ok fullName \<and> pred_option pg_text_ok email \<and> pg_text_ok wallet \<and> is_uuid s \<and>
     to_lower s \<in> set (tenants d) \<and> i \<notin> emp_id ` set (employees d) \<and>
     (\<forall>e \<in> set (employees d). emp_tenant e = to_lower s \<longrightarrow> emp_wallet e \<noteq> wallet) \<and> r = (i, wallet) \<and>
     d' = d\<lparr>employees := employees d @ [\<lparr>emp_id = i, emp_tenant = to_lower s,
       emp_full_name = fullName, emp_email = email, emp_wallet = wallet, emp_created = now\<rparr>]\<rparr>"
  by (auto simp: createEmployee_def insert_checks_own split: sum.splits if_splits)

lemma createCapability_Inr:
  "createCapability s employeeId z tx i now (Some s) d = Inr (r, d') \<longleftrightarrow>
     is_uuid employeeId \<and> pg_bigint_ok z \<and> is_uuid s \<and> to_lower s \<in> set (tenants d) \<and>
     i \<notin> cap_id ` set (capabilities d) \<and> to_lower employeeId \<in> emp_id ` set (employees d) \<and> r = i \<and>
     d' = d\<lparr>capabilities := capabilities d @ [\<lparr>cap_id = i, cap_tenant = to_lower s,
       cap_employee = to_lower employeeId, cap_zone = z, cap_grant_tx = tx, cap_revoked = None,
       cap_created = now\<rparr>]\<rparr>"
  by (auto simp: createCapability_def insert_checks_own split: sum.splits if_splits)

lemma logAccess_Inr:
  "logAccess s employeeId z g i now (Some s) d = Inr (r, d') \<longleftrightarrow>
     is_uuid employeeId \<and> pg_bigint_ok z \<and> is_uuid s \<and> to_lower s \<in> set (tenants d) \<and>
     to_lower employeeId \<in> emp_id ` set (employees d) \<and>
     d' = d\<lparr>log_seq := Suc (log_seq d), access_logs := access_logs d @ [\<lparr>log_id = log_seq d,
       log_tenant = to_lower s, log_employee = Some (to_lower employeeId), log_zone = z,
       log_granted = g, log_occurred = now\<rparr>]\<rparr>"
  by (auto simp: logAccess_def insert_checks_own split: sum.splits if_splits)

lemma recordFailedRevocation_Inr:
  "recordFailedRevocation s wallet z reason i now (Some s) d = Inr (r, d') \<longleftrightarrow>
     pg_text_ok wallet \<and> pred_option pg_text_ok reason \<and> pg_bigint_ok z \<and> is_uuid s \<and>
     to_lower s \<in> set (tenants d) \<and> i \<notin> ob_id ` set (outbox d) \<and>
     d' = d\<lparr>outbox := outbox d @ [\<lparr>ob_id = i, ob_tenant = to_lower s, ob_wallet = wallet,
       ob_zone = z, ob_reason = reason, ob_created = now, ob_retried = None\<rparr>]\<rparr>"
  by (auto simp: recordFailedRevocation_def insert_checks_own split: sum.splits if_splits)

definition without_employee :: "string \<Rightarrow> db \<Rightarrow> db" where
  "without_employee i d = d\<lparr>employees := filter (\<lambda>e. emp_id e \<noteq> i) (employees d),
     capabilities := filter (\<lambda>c. cap_employee c \<noteq> i) (capabilities d),
     access_logs := map (forget_employees {i}) (access_logs d)\<rparr>"

text \<open>With ids unique, a delete either removes the one employee with this id or does nothing.\<close>

lemma deleteEmployee_Inr:
  assumes ok: "db_ok d"
  shows "deleteEmployee employeeId (Some s) d = Inr (r, d') \<longleftrightarrow>
     is_uuid employeeId \<and> is_uuid s \<and>
     d' = (if owns (to_lower s) (to_lower employeeId) d then without_employee (to_lower employeeId) d else d)"
proof -
  let ?i = "to_lower employeeId" and ?t = "to_lower s"
  let ?hit = "\<lambda>e. emp_tenant e = ?t \<and> emp_id e = ?i"
  let ?gone = "emp_id ` set (filter ?hit (employees d))"
  let ?d = "d\<lparr>employees := filter (\<lambda>e. \<not> ?hit e) (employees d),
     capabilities := filter (\<lambda>c. cap_employee c \<notin> ?gone) (capabilities d),
     access_logs := map (forget_employees ?gone) (access_logs d)\<rparr>"
  have uniq: "emp_tenant e = ?t" if "owns ?t ?i d" "e \<in> set (employees d)" "emp_id e = ?i" for e
    using that ok by (auto simp: owns_def db_ok_def distinct_map inj_on_def)
  have "?d = (if owns ?t ?i d then without_employee ?i d else d)"
  proof (cases "owns ?t ?i d")
    case True
    then have "?gone = {?i}" by (auto simp: owns_def image_iff)
    moreover have "filter (\<lambda>e. \<not> ?hit e) (employees d) = filter (\<lambda>e. emp_id e \<noteq> ?i) (employees d)"
      using uniq [OF True] by (intro filter_cong) auto
    ultimately show ?thesis using True by (simp add: without_employee_def)
  next
    case False
    then have "?gone = {}" by (auto simp: owns_def)
    moreover have "filter (\<lambda>e. \<not> ?hit e) (employees d) = employees d"
      using False by (auto simp: owns_def filter_id_conv)
    moreover have "forget_employees {} = id" by (auto simp: forget_employees_def fun_eq_iff split: option.splits)
    ultimately show ?thesis using False by simp
  qed
  moreover have "deleteEmployee employeeId (Some s) d = Inr (r, d') \<longleftrightarrow>
      is_uuid employeeId \<and> is_uuid s \<and> d' = ?d"
    by (auto simp: deleteEmployee_def Let_def split: sum.splits)
  ultimately show ?thesis by simp
qed

lemma markRevocationRetried_Inr:
  "markRevocationRetried i now (Some s) d = Inr (r, d') \<longleftrightarrow> is_uuid i \<and> is_uuid s \<and>
     d' = d\<lparr>outbox := map (\<lambda>r. if ob_tenant r = to_lower s \<and> ob_id r = to_lower i
       then r\<lparr>ob_retried := Some now\<rparr> else r) (outbox d)\<rparr>"
  by (auto simp: markRevocationRetried_def split: sum.splits)

lemma reads_keep_db:
  "listEmployees st d = Inr (l, d') \<Longrightarrow> d' = d"
  "getEmployeeWallet i st d = Inr (w, d') \<Longrightarrow> d' = d"
  "getEmployeeCapabilities i st d = Inr (cs, d') \<Longrightarrow> d' = d"
  "listPendingRevocations n st d = Inr (rs, d') \<Longrightarrow> d' = d"
  by (auto simp: stmt_defs split: sum.splits)

lemma getEmployeeWallet_Inr:
  assumes "db_ok d"
  shows "getEmployeeWallet i (Some s) d = Inr (Some w, d') \<longleftrightarrow> is_uuid i \<and> is_uuid s \<and> d' = d \<and>
     (\<exists>e \<in> set (employees d). emp_id e = to_lower i \<and> emp_tenant e = to_lower s \<and> emp_wallet e = w)"
proof -
  let ?vis = "visible_employees (Some (to_lower s)) d"
  have "find (\<lambda>e. emp_id e = to_lower i) ?vis = Some e \<longleftrightarrow>
      e \<in> set (employees d) \<and> emp_id e = to_lower i \<and> emp_tenant e = to_lower s" for e
  proof
    assume r: "e \<in> set (employees d) \<and> emp_id e = to_lower i \<and> emp_tenant e = to_lower s"
    then have "find (\<lambda>e. emp_id e = to_lower i) ?vis \<noteq> None"
      by (auto simp: find_None_iff visible_employees_def)
    then obtain e' where e': "find (\<lambda>e. emp_id e = to_lower i) ?vis = Some e'" by blast
    then have "e' \<in> set (employees d)" "emp_id e' = to_lower i"
      by (auto simp: find_Some_iff visible_employees_def dest: nth_mem)
    then have "e' = e" using r assms by (auto simp: db_ok_def distinct_map inj_on_def)
    with e' show "find (\<lambda>e. emp_id e = to_lower i) ?vis = Some e" by simp
  qed (auto simp: find_Some_iff visible_employees_def dest: nth_mem)
  then show ?thesis by (auto simp: getEmployeeWallet_def split: sum.splits)
qed

text \<open>The result of the read before a grant or a log entry shows that the employee is the caller's.\<close>

lemma getEmployeeWallet_owns:
  "db_ok d \<Longrightarrow> getEmployeeWallet i (Some s) d = Inr (Some w, d') \<Longrightarrow> owns (to_lower s) (to_lower i) d"
  by (auto simp: getEmployeeWallet_Inr owns_def)

section \<open>What a statement of one tenant may change\<close>

definition safe_step :: "string \<Rightarrow> db \<Rightarrow> db \<Rightarrow> bool" where
  "safe_step t d d' = (db_ok d \<and> same_tenant d \<longrightarrow> db_ok d' \<and> same_tenant d' \<and> tenants d' = tenants d \<and>
     (\<forall>t'. t' \<noteq> t \<longrightarrow> rows_of t' d' = rows_of t' d))"

lemma safe_step_refl [simp]: "safe_step t d d"
  by (simp add: safe_step_def)

lemma safe_step_trans: "safe_step t d d' \<Longrightarrow> safe_step t d' d'' \<Longrightarrow> safe_step t d d''"
  by (simp add: safe_step_def)

lemma safe_stepI:
  assumes "\<lbrakk>db_ok d; same_tenant d\<rbrakk> \<Longrightarrow> db_ok d'" "\<lbrakk>db_ok d; same_tenant d\<rbrakk> \<Longrightarrow> same_tenant d'"
    and "tenants d' = tenants d" "\<And>t'. \<lbrakk>db_ok d; same_tenant d; t' \<noteq> t\<rbrakk> \<Longrightarrow> rows_of t' d' = rows_of t' d"
  shows "safe_step t d d'"
  using assms by (simp add: safe_step_def)

lemma employee_of_id:
  "db_ok d \<Longrightarrow> owns t i d \<Longrightarrow> e \<in> set (employees d) \<Longrightarrow> emp_id e = i \<Longrightarrow> emp_tenant e = t"
  by (auto simp: owns_def db_ok_def distinct_map inj_on_def)

lemma same_tenantD:
  assumes "same_tenant d" "e \<in> set (employees d)"
  shows "c \<in> set (capabilities d) \<Longrightarrow> emp_id e = cap_employee c \<Longrightarrow> emp_tenant e = cap_tenant c"
    and "l \<in> set (access_logs d) \<Longrightarrow> log_employee l = Some (emp_id e) \<Longrightarrow> emp_tenant e = log_tenant l"
  using assms by (auto simp: same_tenant_def)

lemma safe_createEmployee:
  assumes "createEmployee s fullName email wallet i now (Some s) d = Inr (r, d')"
  shows "safe_step (to_lower s) d d'"
proof (rule safe_stepI)
  let ?e = "\<lparr>emp_id = i, emp_tenant = to_lower s, emp_full_name = fullName, emp_email = email,
    emp_wallet = wallet, emp_created = now\<rparr>"
  from assms have d': "d' = d\<lparr>employees := employees d @ [?e]\<rparr>"
    and fresh: "i \<notin> emp_id ` set (employees d)" and t: "to_lower s \<in> set (tenants d)"
    and w: "(to_lower s, wallet) \<notin> (\<lambda>e. (emp_tenant e, emp_wallet e)) ` set (employees d)"
    by (auto simp: createEmployee_Inr)
  have ids: "employee_ids d' = insert i (employee_ids d)" by (simp add: d' employee_ids_def)
  show "tenants d' = tenants d" by (simp add: d')
  show "rows_of t' d' = rows_of t' d" if "t' \<noteq> to_lower s" for t' using that by (simp add: d' rows_of_def)
  assume ok: "db_ok d" and st: "same_tenant d"
  show "db_ok d'"
    using ok fresh t w unfolding db_ok_def ids by (auto simp: d' option.pred_set)
  have "cap_employee c \<noteq> i" if "c \<in> set (capabilities d)" for c
    using that ok fresh by (auto simp: db_ok_def employee_ids_def)
  moreover have "log_employee l \<noteq> Some i" if "l \<in> set (access_logs d)" for l
    using that ok fresh by (auto simp: db_ok_def employee_ids_def option.pred_set)
  ultimately show "same_tenant d'" using st by (auto simp: same_tenant_def d')
qed

lemma safe_createCapability:
  assumes "createCapability s employeeId z tx i now (Some s) d = Inr (r, d')"
    and own: "owns (to_lower s) (to_lower employeeId) d"
  shows "safe_step (to_lower s) d d'"
proof (rule safe_stepI)
  let ?c = "\<lparr>cap_id = i, cap_tenant = to_lower s, cap_employee = to_lower employeeId, cap_zone = z,
    cap_grant_tx = tx, cap_revoked = None, cap_created = now\<rparr>"
  from assms(1) have d': "d' = d\<lparr>capabilities := capabilities d @ [?c]\<rparr>"
    and fresh: "i \<notin> cap_id ` set (capabilities d)" and e: "to_lower employeeId \<in> employee_ids d"
    by (simp_all add: createCapability_Inr employee_ids_def)
  have ids: "employee_ids d' = employee_ids d" by (simp add: d' employee_ids_def)
  show "tenants d' = tenants d" by (simp add: d')
  show "rows_of t' d' = rows_of t' d" if "t' \<noteq> to_lower s" for t' using that by (simp add: d' rows_of_def)
  assume ok: "db_ok d" and st: "same_tenant d"
  show "db_ok d'" using ok fresh e unfolding db_ok_def ids by (simp add: d')
  show "same_tenant d'" using st employee_of_id [OF ok own] by (auto simp: same_tenant_def d')
qed

lemma safe_logAccess:
  assumes "logAccess s employeeId z g i now (Some s) d = Inr (r, d')"
    and own: "owns (to_lower s) (to_lower employeeId) d"
  shows "safe_step (to_lower s) d d'"
proof (rule safe_stepI)
  let ?l = "\<lparr>log_id = log_seq d, log_tenant = to_lower s, log_employee = Some (to_lower employeeId),
    log_zone = z, log_granted = g, log_occurred = now\<rparr>"
  from assms(1) have d': "d' = d\<lparr>log_seq := Suc (log_seq d), access_logs := access_logs d @ [?l]\<rparr>"
    and e: "to_lower employeeId \<in> employee_ids d"
    by (simp_all add: logAccess_Inr employee_ids_def)
  have ids: "employee_ids d' = employee_ids d" by (simp add: d' employee_ids_def)
  show "tenants d' = tenants d" by (simp add: d')
  show "rows_of t' d' = rows_of t' d" if "t' \<noteq> to_lower s" for t' using that by (simp add: d' rows_of_def)
  assume ok: "db_ok d" and st: "same_tenant d"
  show "db_ok d'" using ok e unfolding db_ok_def ids by (simp add: d')
  show "same_tenant d'" using st employee_of_id [OF ok own] by (auto simp: same_tenant_def d')
qed

lemma safe_outbox:
  assumes "distinct (map ob_id (outbox d)) \<Longrightarrow> distinct (map ob_id rs)"
    and "\<And>t'. t' \<noteq> t \<Longrightarrow> filter (\<lambda>r. ob_tenant r = t') rs = filter (\<lambda>r. ob_tenant r = t') (outbox d)"
  shows "safe_step t d (d\<lparr>outbox := rs\<rparr>)"
  using assms by (auto simp: safe_step_def db_ok_def same_tenant_def rows_of_def employee_ids_def)

lemma safe_recordFailedRevocation:
  assumes "recordFailedRevocation s wallet z reason i now (Some s) d = Inr (r, d')"
  shows "safe_step (to_lower s) d d'"
proof -
  let ?r = "\<lparr>ob_id = i, ob_tenant = to_lower s, ob_wallet = wallet, ob_zone = z, ob_reason = reason,
    ob_created = now, ob_retried = None\<rparr>"
  from assms have "d' = d\<lparr>outbox := outbox d @ [?r]\<rparr>" "i \<notin> ob_id ` set (outbox d)"
    by (simp_all add: recordFailedRevocation_Inr)
  then show ?thesis by (auto intro: safe_outbox)
qed

definition mark_row :: "string \<Rightarrow> string \<Rightarrow> int \<Rightarrow> outbox_row \<Rightarrow> outbox_row" where
  "mark_row t i now r = (if ob_tenant r = t \<and> ob_id r = i then r\<lparr>ob_retried := Some now\<rparr> else r)"

lemma mark_row_simps [simp]:
  "ob_id (mark_row t i now r) = ob_id r" "ob_tenant (mark_row t i now r) = ob_tenant r"
  "ob_wallet (mark_row t i now r) = ob_wallet r" "ob_zone (mark_row t i now r) = ob_zone r"
  "ob_created (mark_row t i now r) = ob_created r"
  by (simp_all add: mark_row_def)

lemma filter_mark_rows:
  "t' \<noteq> t \<Longrightarrow> filter (\<lambda>r. ob_tenant r = t') (map (mark_row t i now) rs) = filter (\<lambda>r. ob_tenant r = t') rs"
  by (induction rs) (auto simp: mark_row_def)

lemma markRevocationRetried_rows:
  "markRevocationRetried i now (Some s) d = Inr (r, d') \<longleftrightarrow> is_uuid i \<and> is_uuid s \<and>
     d' = d\<lparr>outbox := map (mark_row (to_lower s) (to_lower i) now) (outbox d)\<rparr>"
proof -
  have "mark_row (to_lower s) (to_lower i) now = (\<lambda>r. if ob_tenant r = to_lower s \<and> ob_id r = to_lower i
       then r\<lparr>ob_retried := Some now\<rparr> else r)"
    by (simp add: mark_row_def fun_eq_iff)
  then show ?thesis by (simp add: markRevocationRetried_Inr)
qed

lemma safe_markRevocationRetried:
  assumes "markRevocationRetried i now (Some s) d = Inr (r, d')"
  shows "safe_step (to_lower s) d d'"
proof -
  from assms have "d' = d\<lparr>outbox := map (mark_row (to_lower s) (to_lower i) now) (outbox d)\<rparr>"
    by (simp add: markRevocationRetried_rows)
  moreover have "map ob_id (map (mark_row (to_lower s) (to_lower i) now) (outbox d)) = map ob_id (outbox d)"
    by simp
  ultimately show ?thesis by (auto intro!: safe_outbox filter_mark_rows simp del: map_map)
qed

lemma forget_employees_simps [simp]:
  "log_tenant (forget_employees g l) = log_tenant l"
  "log_employee (forget_employees g l) = (case log_employee l of Some e \<Rightarrow> if e \<in> g then None else Some e | None \<Rightarrow> None)"
  by (auto simp: forget_employees_def split: option.splits)

lemma safe_without_employee:
  assumes own: "owns t i d"
  shows "safe_step t d (without_employee i d)"
proof (rule safe_stepI)
  let ?d = "without_employee i d"
  have ids: "employee_ids ?d = employee_ids d - {i}" by (auto simp: employee_ids_def without_employee_def)
  show "tenants ?d = tenants d" by (simp add: without_employee_def)
  assume ok: "db_ok d" and st: "same_tenant d"
  have t: "emp_tenant x = t" if "x \<in> set (employees d)" "emp_id x = i" for x
    using employee_of_id [OF ok own that] .
  obtain e where e: "e \<in> set (employees d)" "emp_id e = i" using own by (auto simp: owns_def)
  show "db_ok ?d"
    using ok unfolding db_ok_def ids
    by (auto simp: without_employee_def option.pred_set distinct_map_filter split: option.splits)
  show "same_tenant ?d"
    using st by (auto simp: same_tenant_def without_employee_def split: option.splits if_splits)
  show "rows_of t' ?d = rows_of t' d" if t': "t' \<noteq> t" for t'
  proof -
    have "emp_id x \<noteq> i" if "x \<in> set (employees d)" "emp_tenant x = t'" for x
      using that t t' by auto
    moreover have "cap_employee c \<noteq> i" if "c \<in> set (capabilities d)" "cap_tenant c = t'" for c
      using that same_tenantD(1) [OF st e(1)] e(2) t [OF e] t' by auto
    moreover have "forget_employees {i} l = l" if "l \<in> set (access_logs d)" "log_tenant l = t'" for l
      using that same_tenantD(2) [OF st e(1)] e(2) t [OF e] t'
      by (auto simp: forget_employees_def split: option.splits)
    ultimately show ?thesis
      by (auto simp: rows_of_def without_employee_def filter_map o_def intro!: filter_cong map_idI)
  qed
qed

lemma safe_deleteEmployee:
  assumes "deleteEmployee employeeId (Some s) d = Inr (r, d')"
  shows "safe_step (to_lower s) d d'"
proof (cases "db_ok d")
  case True
  with assms safe_without_employee show ?thesis by (simp add: deleteEmployee_Inr split: if_splits)
qed (simp add: safe_step_def)

lemmas safe_statements = safe_createEmployee safe_createCapability safe_logAccess
  safe_recordFailedRevocation safe_markRevocationRetried safe_deleteEmployee

text \<open>What a tenant reads depends on its own rows only.\<close>

definition tenant_view :: "string \<Rightarrow> db \<Rightarrow> db" where
  "tenant_view t d = d\<lparr>employees := filter (\<lambda>e. emp_tenant e = t) (employees d),
     capabilities := filter (\<lambda>c. cap_tenant c = t) (capabilities d),
     access_logs := filter (\<lambda>l. log_tenant l = t) (access_logs d),
     outbox := filter (\<lambda>r. ob_tenant r = t) (outbox d)\<rparr>"

lemma visible_employees_own:
  "visible_employees (Some t) d = filter (\<lambda>e. emp_tenant e = t) (employees d)"
  by (simp add: visible_employees_def)

end
