(* ===== verification/Access_World.thy ===== *)
theory Access_World
  imports Access_Db
begin

text \<open>
  The world the access-control service acts on: the committed tables, the contract, the database
  clients that are checked out of the pool, and what goes wrong. \<open>withTenant\<close> of
  services/access-control/src/db.js is the transaction every statement runs in; the chain client of
  services/access-control/src/chain.js sends to the contract.

  Each call that leaves the process takes the next entry of a fault schedule: it works, it
  is lost before it has an effect, or it has its effect and its answer is lost. There is a schedule
  for the database and one for the chain. They are arbitrary, so a theorem about all worlds is a
  theorem about all failures. An empty schedule is a run in which nothing fails.
\<close>

section \<open>The world\<close>

datatype fault = Fine | LostBefore string | LostAfter string

text \<open>What PostgreSQL, ethers and the network decide.\<close>

record platform =
  new_uuid :: "nat \<Rightarrow> string"
  tx_hash :: "nat \<Rightarrow> string"
  pg_message :: "pg_error \<Rightarrow> string"
  revert_message :: "revert \<Rightarrow> string"
  encode_call :: "string \<Rightarrow> int \<Rightarrow> string + (string \<times> int)"
  issuer :: string
  error_id :: "nat \<Rightarrow> string"

record session =
  setting :: "string option"
  work :: db

record world =
  committed :: db
  session :: "session option"
  nft :: nft
  clients_out :: nat
  held_at_send :: "nat list"
  clock :: int
  drawn :: nat
  schedule :: "fault list"
  chain_schedule :: "fault list"

type_synonym 'a op = "(world, api_error, 'a) act"

definition take_fault :: "world \<Rightarrow> fault \<times> world" where
  "take_fault w = (case schedule w of [] \<Rightarrow> (Fine, w) | f # fs \<Rightarrow> (f, w\<lparr>schedule := fs\<rparr>))"

text \<open>A call whose effect is \<open>eff\<close>; \<open>eff\<close> itself may refuse.\<close>

definition external :: "(world \<Rightarrow> (api_error + 'a) \<times> world) \<Rightarrow> 'a op" where
  "external eff w = (case take_fault w of
      (Fine, w') \<Rightarrow> eff w'
    | (LostBefore m, w') \<Rightarrow> (Inl (OtherError ''Error'' m), w')
    | (LostAfter m, w') \<Rightarrow> (Inl (OtherError ''Error'' m), snd (eff w')))"

definition take_chain_fault :: "world \<Rightarrow> fault \<times> world" where
  "take_chain_fault w = (case chain_schedule w of [] \<Rightarrow> (Fine, w) | f # fs \<Rightarrow> (f, w\<lparr>chain_schedule := fs\<rparr>))"

definition external_chain :: "(world \<Rightarrow> (api_error + 'a) \<times> world) \<Rightarrow> 'a op" where
  "external_chain eff w = (case take_chain_fault w of
      (Fine, w') \<Rightarrow> eff w'
    | (LostBefore m, w') \<Rightarrow> (Inl (OtherError ''Error'' m), w')
    | (LostAfter m, w') \<Rightarrow> (Inl (OtherError ''Error'' m), snd (eff w')))"

definition draw :: "world \<Rightarrow> world" where
  "draw w = w\<lparr>drawn := Suc (drawn w)\<rparr>"

section \<open>The pool and its transactions\<close>

definition pool_connect :: "unit op" where
  "pool_connect w = (case take_fault w of
      (Fine, w') \<Rightarrow> (Inr (), w'\<lparr>clients_out := Suc (clients_out w')\<rparr>)
    | (LostBefore m, w') \<Rightarrow> (Inl (OtherError ''Error'' m), w')
    | (LostAfter m, w') \<Rightarrow> (Inl (OtherError ''Error'' m), w'))"

definition query_begin :: "unit op" where
  "query_begin = external (\<lambda>w. (Inr (), w\<lparr>session := Some \<lparr>setting = None, work = committed w\<rparr>\<rparr>))"

definition query_set_config :: "string \<Rightarrow> unit op" where
  "query_set_config tenantId = external (\<lambda>w. (Inr (),
     w\<lparr>session := map_option (\<lambda>s. s\<lparr>setting := Some tenantId\<rparr>) (session w)\<rparr>))"

definition query_commit :: "unit op" where
  "query_commit = external (\<lambda>w. (Inr (), case session w of None \<Rightarrow> w
     | Some s \<Rightarrow> w\<lparr>committed := work s, session := None\<rparr>))"

definition query_rollback :: "unit op" where
  "query_rollback = external (\<lambda>w. (Inr (), w\<lparr>session := None\<rparr>))"

text \<open>A statement; \<open>i\<close> is the id the database makes and \<open>now\<close> the time of the transaction.\<close>

definition query :: "platform \<Rightarrow> (string \<Rightarrow> int \<Rightarrow> 'a stmt) \<Rightarrow> 'a op" where
  "query P q = external (\<lambda>w. case session w of
      None \<Rightarrow> (Inl (OtherError ''error'' ''no transaction''), w)
    | Some s \<Rightarrow> (case q (new_uuid P (drawn w)) (clock w) (setting s) (work s) of
          Inl e \<Rightarrow> (Inl (OtherError ''error'' (pg_message P e)), draw w)
        | Inr (a, d) \<Rightarrow> (Inr a, (draw w)\<lparr>session := Some (s\<lparr>work := d\<rparr>)\<rparr>)))"

text \<open>\<open>client.release()\<close>; the pool ends a transaction that is still open on the client.\<close>

definition client_release :: "world \<Rightarrow> world" where
  "client_release w = w\<lparr>clients_out := clients_out w - 1, session := None\<rparr>"

definition withTenant :: "string \<Rightarrow> 'a op \<Rightarrow> 'a op" where
  "withTenant tenantId fn = act_bind pool_connect (\<lambda>_ w.
     (case act_catch
         (act_bind query_begin (\<lambda>_. act_bind (query_set_config tenantId) (\<lambda>_.
           act_bind fn (\<lambda>result. act_bind query_commit (\<lambda>_. act_return result)))))
         (\<lambda>err. act_bind query_rollback (\<lambda>_. act_throw err)) w
      of (r, w') \<Rightarrow> (r, client_release w')))"

text \<open>\<open>tenantRepo(pool, tenantId)\<close>: each method is one statement in a transaction of its own.\<close>

definition tenantRepo :: "platform \<Rightarrow> string \<Rightarrow> (string \<Rightarrow> int \<Rightarrow> 'a stmt) \<Rightarrow> 'a op" where
  "tenantRepo P tenantId q = withTenant tenantId (query P q)"

section \<open>The chain client\<close>

text \<open>
  A send: encode the arguments, send, wait for the receipt. It runs in the wallet's queue, so sends
  take effect one after the other.
\<close>

definition chain_send ::
  "platform \<Rightarrow> (string \<Rightarrow> int \<Rightarrow> nft \<Rightarrow> revert + nft) \<Rightarrow> string \<Rightarrow> int \<Rightarrow> string op" where
  "chain_send P call wallet zone w0 = (
     let w = w0\<lparr>held_at_send := held_at_send w0 @ [clients_out w0]\<rparr> in
     case encode_call P wallet zone of
       Inl m \<Rightarrow> (Inl (OtherError ''TypeError'' m), w)
     | Inr (holder, z) \<Rightarrow> external_chain (\<lambda>w. case call holder z (nft w) of
           Inl rv \<Rightarrow> (Inl (OtherError ''Error'' (revert_message P rv)), w)
         | Inr c \<Rightarrow> (Inr (tx_hash P (drawn w)), (draw w)\<lparr>nft := c\<rparr>)) w)"

definition chain_grantAccess :: "platform \<Rightarrow> string \<Rightarrow> int \<Rightarrow> string op" where
  "chain_grantAccess P = chain_send P (nft_grantAccess (issuer P))"

definition chain_revokeAccess :: "platform \<Rightarrow> string \<Rightarrow> int \<Rightarrow> string op" where
  "chain_revokeAccess P = chain_send P (nft_revokeAccess (issuer P))"

definition chain_hasAccess :: "platform \<Rightarrow> string \<Rightarrow> int \<Rightarrow> bool op" where
  "chain_hasAccess P wallet zone = (case encode_call P wallet zone of
       Inl m \<Rightarrow> act_throw (OtherError ''TypeError'' m)
     | Inr (holder, z) \<Rightarrow> external_chain (\<lambda>w. (Inr (nft_hasAccess (nft w) holder z), w)))"

section \<open>What a transaction does\<close>

text \<open>A world between requests: no transaction is open and no client is out.\<close>

definition idle :: "world \<Rightarrow> bool" where
  "idle w = (session w = None \<and> clients_out w = 0)"

definition same_outside :: "world \<Rightarrow> world \<Rightarrow> bool" where
  "same_outside w w' = (nft w' = nft w \<and> held_at_send w' = held_at_send w \<and> clock w' = clock w \<and>
     chain_schedule w' = chain_schedule w)"

lemma take_fault_none [simp]: "schedule w = [] \<Longrightarrow> take_fault w = (Fine, w)"
  by (simp add: take_fault_def)

text \<open>The rule of an external call: whatever fails, its effect has happened or it has not.\<close>

lemma contract_external:
  assumes "\<And>w fs. P w \<Longrightarrow> P (w\<lparr>schedule := fs\<rparr>)"
    and "\<And>w m. P w \<Longrightarrow> E (OtherError ''Error'' m) w"
    and "\<And>w a w'. P w \<Longrightarrow> eff w = (Inr a, w') \<Longrightarrow> Q a w' \<and> (\<forall>m. E (OtherError ''Error'' m) w')"
    and "\<And>w e w'. P w \<Longrightarrow> eff w = (Inl e, w') \<Longrightarrow> E e w' \<and> (\<forall>m. E (OtherError ''Error'' m) w')"
  shows "contract P (external eff) Q E"
proof (rule contractI)
  have P: "P w'" if "P w" "take_fault w = (f, w')" for w f w'
    using that assms(1) by (auto simp: take_fault_def split: list.splits)
  show "Q a w'" if "P w" "external eff w = (Inr a, w')" for w a w'
  proof -
    obtain f w1 where f: "take_fault w = (f, w1)" by (cases "take_fault w")
    obtain r w2 where r: "eff w1 = (r, w2)" by (cases "eff w1")
    show ?thesis
      using that(2) f r assms(3) [OF P [OF that(1) f]] by (cases f) (auto simp: external_def)
  qed
  show "E e w'" if "P w" and ext: "external eff w = (Inl e, w')" for w e w'
  proof -
    obtain f w1 where f: "take_fault w = (f, w1)" by (cases "take_fault w")
    obtain r w2 where r: "eff w1 = (r, w2)" by (cases "eff w1")
    show ?thesis
      using ext f r P [OF that(1) f] assms(2) [of w1] assms(3) [of w1] assms(4) [of w1]
      by (cases r; cases f) (auto simp: external_def)
  qed
qed

text \<open>The effect the statement of a transaction has on the tables of the world it starts in.\<close>

definition tx_effect :: "platform \<Rightarrow> string \<Rightarrow> (string \<Rightarrow> int \<Rightarrow> 'a stmt) \<Rightarrow> world \<Rightarrow> db \<Rightarrow> 'a \<Rightarrow> bool" where
  "tx_effect P s q w d a = (q (new_uuid P (drawn w)) (clock w) (Some s) (committed w) = Inr (a, d))"

text \<open>Inside the transaction that began in \<open>w\<close>: nothing outside it has changed.\<close>

definition in_tx :: "world \<Rightarrow> world \<Rightarrow> bool" where
  "in_tx w v = (committed v = committed w \<and> same_outside w v \<and> clients_out v = Suc (clients_out w))"

definition tx_done :: "platform \<Rightarrow> string \<Rightarrow> (string \<Rightarrow> int \<Rightarrow> 'a stmt) \<Rightarrow> world \<Rightarrow> world \<Rightarrow> bool" where
  "tx_done P s q w v = (same_outside w v \<and> clients_out v = Suc (clients_out w) \<and>
     (committed v = committed w \<or> (\<exists>a. tx_effect P s q w (committed v) a)))"

lemma in_tx_schedule [simp]: "in_tx w (v\<lparr>schedule := fs\<rparr>) = in_tx w v"
  "tx_done P s q w (v\<lparr>schedule := fs\<rparr>) = tx_done P s q w v"
  "in_tx w (v\<lparr>session := ss\<rparr>) = in_tx w v" "tx_done P s q w (v\<lparr>session := ss\<rparr>) = tx_done P s q w v"
  "in_tx w (draw v) = in_tx w v"
  by (simp_all add: in_tx_def tx_done_def same_outside_def draw_def)

lemma in_tx_done: "in_tx w v \<Longrightarrow> tx_done P s q w v"
  by (simp add: in_tx_def tx_done_def)

lemma in_tx_committed: "in_tx w v \<Longrightarrow> committed v = committed w"
  by (simp add: in_tx_def)

lemma contract_begin:
  "contract (\<lambda>v. in_tx w v \<and> drawn v = drawn w) query_begin
     (\<lambda>_ v. in_tx w v \<and> drawn v = drawn w \<and> session v = Some \<lparr>setting = None, work = committed w\<rparr>)
     (\<lambda>_. tx_done P s q w)"
  unfolding query_begin_def by (rule contract_external) (auto simp: in_tx_done in_tx_committed)

lemma contract_set_config:
  "contract (\<lambda>v. in_tx w v \<and> drawn v = drawn w \<and> session v = Some \<lparr>setting = None, work = committed w\<rparr>)
     (query_set_config s)
     (\<lambda>_ v. in_tx w v \<and> drawn v = drawn w \<and> session v = Some \<lparr>setting = Some s, work = committed w\<rparr>)
     (\<lambda>_. tx_done P s q w)"
  unfolding query_set_config_def by (rule contract_external) (auto simp: in_tx_done)

lemma contract_query:
  "contract (\<lambda>v. in_tx w v \<and> drawn v = drawn w \<and> session v = Some \<lparr>setting = Some s, work = committed w\<rparr>)
     (query P q)
     (\<lambda>a v. in_tx w v \<and> (\<exists>d. session v = Some \<lparr>setting = Some s, work = d\<rparr> \<and> tx_effect P s q w d a))
     (\<lambda>_. tx_done P s q w)"
  unfolding query_def
proof (rule contract_external, goal_cases)
  case (3 v a v')
  then show ?case
    by (auto simp: in_tx_done tx_effect_def split: sum.splits) (auto simp: in_tx_def same_outside_def)
qed (auto simp: in_tx_done split: sum.splits option.splits)

lemma contract_commit:
  "contract (\<lambda>v. in_tx w v \<and> (\<exists>d. session v = Some \<lparr>setting = Some s, work = d\<rparr> \<and> tx_effect P s q w d a))
     query_commit
     (\<lambda>_ v. tx_done P s q w v \<and> tx_effect P s q w (committed v) a)
     (\<lambda>_. tx_done P s q w)"
  unfolding query_commit_def
  by (rule contract_external) (auto simp: in_tx_done, auto simp: in_tx_def tx_done_def same_outside_def)

lemma contract_rollback: "contract (tx_done P s q w) query_rollback (\<lambda>_. tx_done P s q w) (\<lambda>_. tx_done P s q w)"
  unfolding query_rollback_def by (rule contract_external) auto

definition untouched :: "world \<Rightarrow> world \<Rightarrow> bool" where
  "untouched w v = (committed v = committed w \<and> session v = session w \<and> same_outside w v \<and>
     clients_out v = clients_out w \<and> drawn v = drawn w)"

lemma untouched_refl [simp]: "untouched w w"
  by (simp add: untouched_def same_outside_def)

lemma contract_connect:
  "contract (untouched w) pool_connect (\<lambda>_ v. in_tx w v \<and> drawn v = drawn w) (\<lambda>_. untouched w)"
  by (rule contractI)
    (auto simp: pool_connect_def take_fault_def in_tx_def same_outside_def untouched_def split: list.splits fault.splits)

text \<open>
  All or nothing: the tables after a transaction are those before, or those the statement made. A
  result means that the statement ran and was committed. The client is back in the pool.
\<close>

definition tx_outcome :: "platform \<Rightarrow> string \<Rightarrow> (string \<Rightarrow> int \<Rightarrow> 'a stmt) \<Rightarrow> world \<Rightarrow> api_error + 'a \<Rightarrow> world \<Rightarrow> bool" where
  "tx_outcome P s q w r v = (same_outside w v \<and> clients_out v = clients_out w \<and> session v = None \<and>
     (case r of Inr a \<Rightarrow> tx_effect P s q w (committed v) a
      | Inl e \<Rightarrow> committed v = committed w \<or> (\<exists>a. tx_effect P s q w (committed v) a)))"

lemma tenantRepo_outcome:
  assumes "session w = None" "tenantRepo P s q w = (r, v)"
  shows "tx_outcome P s q w r v"
proof -
  let ?body = "act_bind query_begin (\<lambda>_. act_bind (query_set_config s) (\<lambda>_.
           act_bind (query P q) (\<lambda>result. act_bind query_commit (\<lambda>_. act_return result))))"
  let ?guarded = "act_catch ?body (\<lambda>err. act_bind query_rollback (\<lambda>_. act_throw err))"
  have "contract (\<lambda>v. in_tx w v \<and> drawn v = drawn w) ?body
      (\<lambda>a v. tx_done P s q w v \<and> tx_effect P s q w (committed v) a) (\<lambda>_. tx_done P s q w)"
    by (rule contract_bind [OF contract_begin contract_bind [OF contract_set_config
          contract_bind [OF contract_query contract_bind [OF contract_commit contract_return]]]]) auto
  then have guarded: "contract (\<lambda>v. in_tx w v \<and> drawn v = drawn w) ?guarded
      (\<lambda>a v. tx_done P s q w v \<and> tx_effect P s q w (committed v) a) (\<lambda>_. tx_done P s q w)"
    by (rule contract_catch) (rule contract_bind [OF contract_rollback contract_throw])
  obtain c w1 where c: "pool_connect w = (c, w1)" by (cases "pool_connect w")
  show ?thesis
  proof (cases c)
    case (Inl e)
    then have "untouched w w1" using contract_Inl [OF contract_connect, of w w e w1] c by simp
    then show ?thesis
      using assms c Inl by (auto simp: tx_outcome_def tenantRepo_def withTenant_def untouched_def)
  next
    case (Inr u)
    have w1: "in_tx w w1 \<and> drawn w1 = drawn w"
      using contract_Inr [OF contract_connect, of w w u w1] c Inr by simp
    obtain w2 where r: "?guarded w1 = (r, w2)" and v: "v = client_release w2"
      using assms(2) c Inr by (auto simp: tenantRepo_def withTenant_def split: prod.splits)
    show ?thesis
      using contract_Inr [OF guarded w1, of _ w2] contract_Inl [OF guarded w1, of _ w2] r v
      by (cases r) (auto simp: tx_outcome_def tx_done_def client_release_def same_outside_def)
  qed
qed

text \<open>Without failures a statement that the database accepts returns its result.\<close>

lemma tenantRepo_fine:
  assumes "schedule w = []" "q (new_uuid P (drawn w)) (clock w) (Some s) (committed w) = Inr (a, d)"
  shows "tenantRepo P s q w = (Inr a, (draw w)\<lparr>committed := d, session := None\<rparr>)"
  using assms by (simp add: tenantRepo_def withTenant_def act_bind_def act_catch_def pool_connect_def
      query_begin_def query_set_config_def query_def query_commit_def external_def draw_def client_release_def)

lemma tenantRepo_refused:
  assumes "schedule w = []" "q (new_uuid P (drawn w)) (clock w) (Some s) (committed w) = Inl e"
  shows "tenantRepo P s q w = (Inl (OtherError ''error'' (pg_message P e)), (draw w)\<lparr>session := None\<rparr>)"
  using assms by (simp add: tenantRepo_def withTenant_def act_bind_def act_catch_def pool_connect_def
      query_begin_def query_set_config_def query_def query_rollback_def external_def draw_def client_release_def)

section \<open>What a send does\<close>

definition encodes :: "platform \<Rightarrow> string \<Rightarrow> int \<Rightarrow> string \<times> int \<Rightarrow> bool" where
  "encodes P wallet zone hz = (encode_call P wallet zone = Inr hz)"

definition same_db :: "world \<Rightarrow> world \<Rightarrow> bool" where
  "same_db w w' = (committed w' = committed w \<and> session w' = session w \<and> clients_out w' = clients_out w \<and>
     schedule w' = schedule w \<and> clock w' = clock w)"

text \<open>
  A send that returns has been executed. One that throws has been executed or not: the error says
  nothing about it.
\<close>

lemma chain_send_cases:
  assumes "chain_send P call wallet zone w = (r, v)"
  shows "same_db w v" "held_at_send v = held_at_send w @ [clients_out w]" "drawn w \<le> drawn v"
    and "nft v = nft w \<or> (\<exists>h z. encodes P wallet zone (h, z) \<and> call h z (nft w) = Inr (nft v))"
    and "r = Inr a \<Longrightarrow> \<exists>h z. encodes P wallet zone (h, z) \<and> call h z (nft w) = Inr (nft v)"
  using assms
  by (auto simp: chain_send_def external_chain_def take_chain_fault_def encodes_def same_db_def draw_def Let_def
      split: sum.splits prod.splits fault.splits list.splits)

lemma chain_hasAccess_cases:
  assumes "chain_hasAccess P wallet zone w = (r, v)"
  shows "same_db w v" "held_at_send v = held_at_send w" "nft v = nft w" "drawn v = drawn w"
    and "r = Inr b \<Longrightarrow> \<exists>h z. encodes P wallet zone (h, z) \<and> b = nft_hasAccess (nft w) h z"
  using assms
  by (auto simp: chain_hasAccess_def external_chain_def take_chain_fault_def encodes_def same_db_def
      split: sum.splits prod.splits fault.splits list.splits)

lemma chain_send_fine:
  assumes "chain_schedule w = []"
  shows "chain_send P call wallet zone w =
    (let v = w\<lparr>held_at_send := held_at_send w @ [clients_out w]\<rparr> in
     case encode_call P wallet zone of Inl m \<Rightarrow> (Inl (OtherError ''TypeError'' m), v)
     | Inr (h, z) \<Rightarrow> (case call h z (nft w) of Inl rv \<Rightarrow> (Inl (OtherError ''Error'' (revert_message P rv)), v)
        | Inr c \<Rightarrow> (Inr (tx_hash P (drawn w)), (draw v)\<lparr>nft := c\<rparr>)))"
  using assms by (auto simp: chain_send_def external_chain_def take_chain_fault_def Let_def draw_def
      split: sum.splits prod.splits)

end
