(* ===== verification/Erasure.thy ===== *)
theory Erasure
  imports Access_World
begin

text \<open>
  GDPR erasure: services/access-control/src/gdpr.js. As in the source, the function takes the
  database and the chain as arguments, so it is a definition over four operations of some world. The
  locale \<open>erasure_backend\<close> says what it needs of them; \<open>durable_backend\<close> adds that a failed
  revocation can be recorded. Both are interpreted on the tenant's repository and the chain client.
\<close>

section \<open>The code\<close>

text \<open>\<open>{zone, wallet, txHash, ok: true}\<close> and \<open>{zone, wallet, error, ok: false}\<close>.\<close>

datatype revocation = Revoked int string string | NotRevoked int string string

fun revocation_ok :: "revocation \<Rightarrow> bool" where
  "revocation_ok (Revoked z w h) = True"
| "revocation_ok (NotRevoked z w r) = False"

record erasure_result =
  er_employeeId :: string
  er_revoked :: "revocation list"
  er_deleted :: bool

text \<open>\<open>String(err.message || err)\<close>.\<close>

definition error_reason :: "api_error \<Rightarrow> string" where
  "error_reason err = (if error_message err \<noteq> [] then error_message err else error_name err)"

text \<open>One round of the loop; \<open>record\<close> is absent when the repository has no outbox.\<close>

definition revoke_one ::
  "(string \<Rightarrow> int \<Rightarrow> string \<Rightarrow> ('w, api_error, unit) act) option \<Rightarrow>
   (string \<Rightarrow> int \<Rightarrow> ('w, api_error, string) act) \<Rightarrow> int \<times> string \<Rightarrow> 'w \<Rightarrow> revocation \<times> 'w" where
  "revoke_one recorder revoke cap w = (case cap of (zone, wallet) \<Rightarrow>
     (case revoke wallet zone w of
        (Inr txHash, w1) \<Rightarrow> (Revoked zone wallet txHash, w1)
      | (Inl err, w1) \<Rightarrow> (NotRevoked zone wallet (error_reason err),
          (case recorder of None \<Rightarrow> w1
            | Some record_failed \<Rightarrow> snd (record_failed wallet zone (error_reason err) w1)))))"

fun revoke_loop ::
  "(string \<Rightarrow> int \<Rightarrow> string \<Rightarrow> ('w, api_error, unit) act) option \<Rightarrow>
   (string \<Rightarrow> int \<Rightarrow> ('w, api_error, string) act) \<Rightarrow> (int \<times> string) list \<Rightarrow> 'w \<Rightarrow> revocation list \<times> 'w" where
  "revoke_loop recorder revoke [] w = ([], w)"
| "revoke_loop recorder revoke (cap # caps) w =
     (case revoke_one recorder revoke cap w of (r, w1) \<Rightarrow>
        (case revoke_loop recorder revoke caps w1 of (rs, w2) \<Rightarrow> (r # rs, w2)))"

text \<open>\<open>chain\<close> may be null, and \<open>opts.revokeOnChain\<close> false; then nothing is revoked.\<close>

definition eraseEmployee ::
  "(string \<Rightarrow> ('w, api_error, (int \<times> string) list) act) \<Rightarrow> (string \<Rightarrow> ('w, api_error, unit) act) \<Rightarrow>
   (string \<Rightarrow> int \<Rightarrow> string \<Rightarrow> ('w, api_error, unit) act) option \<Rightarrow>
   (string \<Rightarrow> int \<Rightarrow> ('w, api_error, string) act) option \<Rightarrow> bool \<Rightarrow> string \<Rightarrow>
   ('w, api_error, erasure_result) act" where
  "eraseEmployee getCaps delete recorder chain revokeOnChain employeeId =
     act_bind (if revokeOnChain \<and> chain \<noteq> None then getCaps employeeId else act_return []) (\<lambda>caps.
     act_bind (delete employeeId) (\<lambda>_ w.
       (case chain of
          None \<Rightarrow> (Inr \<lparr>er_employeeId = employeeId, er_revoked = [], er_deleted = True\<rparr>, w)
        | Some revoke \<Rightarrow> (case revoke_loop recorder revoke caps w of (revoked, w') \<Rightarrow>
            (Inr \<lparr>er_employeeId = employeeId, er_revoked = revoked, er_deleted = True\<rparr>, w')))))"

section \<open>The interface\<close>

locale erasure_backend =
  fixes getCaps :: "string \<Rightarrow> ('w, api_error, (int \<times> string) list) act"
    and delete :: "string \<Rightarrow> ('w, api_error, unit) act"
    and record_failed :: "string \<Rightarrow> int \<Rightarrow> string \<Rightarrow> ('w, api_error, unit) act"
    and revoke :: "string \<Rightarrow> int \<Rightarrow> ('w, api_error, string) act"
    and ok :: "'w \<Rightarrow> bool"
    and holds :: "'w \<Rightarrow> string \<Rightarrow> int \<Rightarrow> bool"
    and pending :: "'w \<Rightarrow> string \<Rightarrow> int \<Rightarrow> bool"
    and active :: "'w \<Rightarrow> string \<Rightarrow> (int \<times> string) list"
    and gone :: "'w \<Rightarrow> string \<Rightarrow> bool"
  assumes get_law: "ok w \<Longrightarrow> getCaps i w = (caps_r, w') \<Longrightarrow> ok w' \<and> holds w' = holds w \<and> pending w' = pending w \<and>
      (\<forall>caps. caps_r = Inr caps \<longrightarrow> caps = active w i)"
    and delete_law: "ok w \<Longrightarrow> delete i w = (del_r, w') \<Longrightarrow> ok w' \<and> holds w' = holds w \<and> pending w' = pending w \<and>
      (del_r = Inr () \<longrightarrow> gone w' i)"
    and revoke_law: "ok w \<Longrightarrow> revoke a z w = (rev_r, w') \<Longrightarrow> ok w' \<and> (\<forall>a' z'. holds w' a' z' \<longrightarrow> holds w a' z') \<and>
      pending w' = pending w \<and> (\<forall>h. rev_r = Inr h \<longrightarrow> \<not> holds w' a z) \<and> (gone w i \<longrightarrow> gone w' i)"
    and record_law: "ok w \<Longrightarrow> record_failed a z m w = (rec_r, w') \<Longrightarrow> ok w' \<and> holds w' = holds w \<and>
      (\<forall>a' z'. pending w a' z' \<longrightarrow> pending w' a' z') \<and> (rec_r = Inr () \<longrightarrow> pending w' a z) \<and> (gone w i \<longrightarrow> gone w' i)"
begin

definition progress :: "'w \<Rightarrow> 'w \<Rightarrow> bool" where
  "progress w w' = (ok w' \<and> (\<forall>a z. holds w' a z \<longrightarrow> holds w a z) \<and> (\<forall>a z. pending w a z \<longrightarrow> pending w' a z) \<and>
     (\<forall>i. gone w i \<longrightarrow> gone w' i))"

lemma progress_trans: "progress w w' \<Longrightarrow> progress w' w'' \<Longrightarrow> progress w w''"
  by (simp add: progress_def)

lemma revoke_one_progress:
  assumes "ok w" "revoke_one (Some record_failed) revoke (z, a) w = (r, w')"
  shows "progress w w'" "revocation_ok r \<Longrightarrow> \<not> holds w' a z"
proof -
  obtain v w1 where v: "revoke a z w = (v, w1)" by (cases "revoke a z w")
  have w1: "progress w w1" "\<And>h. v = Inr h \<Longrightarrow> \<not> holds w1 a z"
    using revoke_law [OF assms(1) v] by (auto simp: progress_def)
  have "progress w w' \<and> (revocation_ok r \<longrightarrow> \<not> holds w' a z)"
  proof (cases v)
    case (Inl e)
    obtain u w2 where u: "record_failed a z (error_reason e) w1 = (u, w2)"
      by (cases "record_failed a z (error_reason e) w1")
    have "ok w1" using w1(1) by (simp add: progress_def)
    from record_law [OF this u] have "progress w1 w2" by (auto simp: progress_def)
    moreover have "w' = w2" "\<not> revocation_ok r" using assms(2) v u Inl by (auto simp: revoke_one_def)
    ultimately show ?thesis using progress_trans [OF w1(1)] by auto
  next
    case (Inr h)
    then show ?thesis using assms(2) v w1 by (auto simp: revoke_one_def)
  qed
  then show "progress w w'" "revocation_ok r \<Longrightarrow> \<not> holds w' a z" by auto
qed

lemma revoke_loop_progress:
  "ok w \<Longrightarrow> revoke_loop (Some record_failed) revoke caps w = (rs, w') \<Longrightarrow>
    ok w' \<and> (\<forall>a z. holds w' a z \<longrightarrow> holds w a z) \<and> (\<forall>a z. pending w a z \<longrightarrow> pending w' a z) \<and>
    (\<forall>i. gone w i \<longrightarrow> gone w' i) \<and> length rs = length caps \<and>
    (\<forall>k < length caps. revocation_ok (rs ! k) \<longrightarrow> \<not> holds w' (snd (caps ! k)) (fst (caps ! k)))"
proof (induction caps arbitrary: w rs)
  case (Cons cap caps)
  obtain z a where cap: "cap = (z, a)" by (cases cap)
  obtain r w1 where r: "revoke_one (Some record_failed) revoke (z, a) w = (r, w1)"
    by (cases "revoke_one (Some record_failed) revoke (z, a) w")
  obtain rs' where rs': "revoke_loop (Some record_failed) revoke caps w1 = (rs', w')" and rs: "rs = r # rs'"
    using Cons.prems(2) r by (auto simp: cap split: prod.splits)
  note one = revoke_one_progress [OF Cons.prems(1) r]
  have "ok w1" using one(1) by (simp add: progress_def)
  from Cons.IH [OF this rs'] one show ?case
    by (auto simp: rs cap progress_def nth_Cons split: nat.splits)
qed simp

text \<open>The chain cannot block an erasure, and a revocation reported as done is done.\<close>

lemma erase_result:
  assumes "ok w" "eraseEmployee getCaps delete (Some record_failed) (Some revoke) True i w = (Inr res, w')"
  shows "ok w'" "gone w' i" "er_deleted res" "length (er_revoked res) = length (active w i)"
    and "\<And>k. k < length (active w i) \<Longrightarrow> revocation_ok (er_revoked res ! k) \<Longrightarrow>
      \<not> holds w' (snd (active w i ! k)) (fst (active w i ! k))"
proof -
  obtain caps w1 w2 rs where get: "getCaps i w = (Inr caps, w1)" and del: "delete i w1 = (Inr (), w2)"
    and loop: "revoke_loop (Some record_failed) revoke caps w2 = (rs, w')"
    and res: "res = \<lparr>er_employeeId = i, er_revoked = rs, er_deleted = True\<rparr>"
    using assms(2) by (auto simp: eraseEmployee_def act_bind_def split: prod.splits sum.splits)
  have "caps = active w i" "ok w1" using get_law [OF assms(1) get] by auto
  moreover have "ok w2" "gone w2 i" using delete_law [OF \<open>ok w1\<close> del] by auto
  ultimately show "ok w'" "gone w' i" "er_deleted res" "length (er_revoked res) = length (active w i)"
    "\<And>k. k < length (active w i) \<Longrightarrow> revocation_ok (er_revoked res ! k) \<Longrightarrow>
      \<not> holds w' (snd (active w i ! k)) (fst (active w i ! k))"
    using revoke_loop_progress [OF \<open>ok w2\<close> loop] by (auto simp: res)
qed

end

text \<open>With a database that answers, the record of a failed revocation is written.\<close>

locale durable_backend = erasure_backend +
  fixes valid :: "string \<Rightarrow> bool"
  assumes get_total: "ok w \<Longrightarrow> valid i \<Longrightarrow> \<exists>w'. getCaps i w = (Inr (active w i), w')"
    and delete_total: "ok w \<Longrightarrow> valid i \<Longrightarrow> \<exists>w'. delete i w = (Inr (), w')"
    and record_total: "ok w \<Longrightarrow> (z, a) \<in> set (active w0 i) \<Longrightarrow> ok w0 \<Longrightarrow> revoke a z w = (Inl e, w1) \<Longrightarrow>
      \<exists>w'. record_failed a z (error_reason e) w1 = (Inr (), w')"
begin

lemma revoke_one_settles:
  assumes "ok w" "ok w0" "(z, a) \<in> set (active w0 i)"
    and "revoke_one (Some record_failed) revoke (z, a) w = (r, w')"
  shows "\<not> holds w' a z \<or> pending w' a z"
proof -
  obtain v w1 where v: "revoke a z w = (v, w1)" by (cases "revoke a z w")
  show ?thesis
  proof (cases v)
    case (Inl e)
    with v obtain w2 where w2: "record_failed a z (error_reason e) w1 = (Inr (), w2)"
      using record_total [OF assms(1,3,2)] by blast
    moreover have "ok w1" using revoke_law [OF assms(1) v] by simp
    ultimately show ?thesis using record_law [of w1] assms(4) v Inl by (auto simp: revoke_one_def)
  next
    case (Inr h)
    then show ?thesis using revoke_law [OF assms(1) v] assms(4) v by (auto simp: revoke_one_def)
  qed
qed

lemma revoke_loop_settles:
  "ok w \<Longrightarrow> ok w0 \<Longrightarrow> set caps \<subseteq> set (active w0 i) \<Longrightarrow>
    revoke_loop (Some record_failed) revoke caps w = (rs, w') \<Longrightarrow>
    (z, a) \<in> set caps \<Longrightarrow> \<not> holds w' a z \<or> pending w' a z"
proof (induction caps arbitrary: w rs)
  case (Cons cap caps)
  obtain z' a' where cap: "cap = (z', a')" by (cases cap)
  obtain r w1 where r: "revoke_one (Some record_failed) revoke (z', a') w = (r, w1)"
    by (cases "revoke_one (Some record_failed) revoke (z', a') w")
  obtain rs' where rs': "revoke_loop (Some record_failed) revoke caps w1 = (rs', w')"
    using Cons.prems(4) r by (auto simp: cap split: prod.splits)
  have w1: "ok w1" using revoke_one_progress(1) [OF Cons.prems(1) r] by (simp add: progress_def)
  have "\<not> holds w1 a' z' \<or> pending w1 a' z'"
    using revoke_one_settles [OF Cons.prems(1,2) _ r, of i] Cons.prems(3) by (simp add: cap)
  with revoke_loop_progress [OF w1 rs'] have "\<not> holds w' a' z' \<or> pending w' a' z'" by blast
  moreover have "\<not> holds w' a z \<or> pending w' a z" if "(z, a) \<in> set caps"
    using Cons.IH [OF w1 Cons.prems(2) _ rs' that] Cons.prems(3) by simp
  ultimately show ?case using Cons.prems(5) by (auto simp: cap)
qed simp

lemma erase_settles:
  assumes "ok w" "valid i"
  shows "\<exists>res w'. eraseEmployee getCaps delete (Some record_failed) (Some revoke) True i w = (Inr res, w') \<and>
    ok w' \<and> gone w' i \<and> (\<forall>(z, a) \<in> set (active w i). \<not> holds w' a z \<or> pending w' a z)"
proof -
  obtain w1 where get: "getCaps i w = (Inr (active w i), w1)" using get_total [OF assms] by blast
  have w1: "ok w1" using get_law [OF assms(1) get] by simp
  obtain w2 where del: "delete i w1 = (Inr (), w2)" using delete_total [OF w1 assms(2)] by blast
  have w2: "ok w2" using delete_law [OF w1 del] by simp
  obtain rs w' where loop: "revoke_loop (Some record_failed) revoke (active w i) w2 = (rs, w')"
    by (cases "revoke_loop (Some record_failed) revoke (active w i) w2")
  have run: "eraseEmployee getCaps delete (Some record_failed) (Some revoke) True i w =
      (Inr \<lparr>er_employeeId = i, er_revoked = rs, er_deleted = True\<rparr>, w')"
    by (simp add: eraseEmployee_def get del loop)
  show ?thesis
    using run erase_result(1,2) [OF assms(1) run] revoke_loop_settles [OF w2 assms(1) subset_refl loop] by auto
qed

end

end
