(* ===== verification/Access_Repo.thy ===== *)
theory Access_Repo
  imports Erasure
begin

text \<open>
  The tenant's repository and the chain client as the backend of an erasure: the interpretation of
  \<open>erasure_backend\<close> holds whatever fails, that of \<open>durable_backend\<close> while the database answers.
\<close>

section \<open>The operations an erasure is given\<close>

definition repo_getCaps :: "platform \<Rightarrow> string \<Rightarrow> string \<Rightarrow> (int \<times> string) list op" where
  "repo_getCaps P s i = tenantRepo P s (\<lambda>_ _. getEmployeeCapabilities i)"

definition repo_delete :: "platform \<Rightarrow> string \<Rightarrow> string \<Rightarrow> unit op" where
  "repo_delete P s i = tenantRepo P s (\<lambda>_ _. deleteEmployee i)"

definition repo_record :: "platform \<Rightarrow> string \<Rightarrow> string \<Rightarrow> int \<Rightarrow> string \<Rightarrow> unit op" where
  "repo_record P s wallet zone reason = tenantRepo P s (recordFailedRevocation s wallet zone (Some reason))"

text \<open>\<open>eraseEmployee({ db: tenantRepo(pool, req.tenantId), chain }, employeeId)\<close>.\<close>

definition erase_as :: "platform \<Rightarrow> string \<Rightarrow> string \<Rightarrow> erasure_result op" where
  "erase_as P s i = eraseEmployee (repo_getCaps P s) (repo_delete P s) (Some (repo_record P s))
     (Some (chain_revokeAccess P)) True i"

section \<open>What they are about\<close>

definition token_held :: "platform \<Rightarrow> world \<Rightarrow> string \<Rightarrow> int \<Rightarrow> bool" where
  "token_held P w wallet zone = (case encode_call P wallet zone of
      Inl _ \<Rightarrow> False | Inr (h, z) \<Rightarrow> nft_hasAccess (nft w) h z)"

definition queued :: "string \<Rightarrow> world \<Rightarrow> string \<Rightarrow> int \<Rightarrow> bool" where
  "queued s w wallet zone = (\<exists>r \<in> set (outbox (committed w)). ob_tenant r = to_lower s \<and>
     ob_wallet r = wallet \<and> ob_zone r = zone \<and> ob_retried r = None)"

definition active_caps :: "string \<Rightarrow> string \<Rightarrow> db \<Rightarrow> (int \<times> string) list" where
  "active_caps t i d = concat (map (\<lambda>c. map (\<lambda>e. (cap_zone c, emp_wallet e))
       (filter (\<lambda>e. emp_id e = cap_employee c) (visible_employees (Some t) d)))
     (filter (\<lambda>c. cap_tenant c = t \<and> cap_employee c = i \<and> cap_revoked c = None) (capabilities d)))"

lemma set_active_caps:
  "(z, a) \<in> set (active_caps t i d) \<longleftrightarrow> (\<exists>c \<in> set (capabilities d). \<exists>e \<in> set (employees d).
     cap_tenant c = t \<and> cap_employee c = i \<and> cap_revoked c = None \<and> cap_zone c = z \<and>
     emp_tenant e = t \<and> emp_id e = i \<and> emp_wallet e = a)"
  by (auto simp: active_caps_def visible_employees_def)

lemma getEmployeeCapabilities_Inr:
  "getEmployeeCapabilities i (Some s) d = Inr (caps, d') \<longleftrightarrow>
     is_uuid i \<and> is_uuid s \<and> d' = d \<and> caps = active_caps (to_lower s) (to_lower i) d"
  by (auto simp: getEmployeeCapabilities_def active_caps_def split: sum.splits)

section \<open>Whatever fails\<close>

definition repo_ok :: "world \<Rightarrow> bool" where
  "repo_ok w = (session w = None \<and> nft_ok (nft w) \<and> db_ok (committed w) \<and> same_tenant (committed w))"

lemma repo_ok_tx:
  assumes ok: "repo_ok w" and run: "tenantRepo P s q w = (r, v)"
    and safe: "\<And>n c a d. q n c (Some s) (committed w) = Inr (a, d) \<Longrightarrow> safe_step (to_lower s) (committed w) d"
  shows "repo_ok v" "tx_outcome P s q w r v" "nft v = nft w" "safe_step (to_lower s) (committed w) (committed v)"
proof -
  show out: "tx_outcome P s q w r v"
    using tenantRepo_outcome run ok by (auto simp: repo_ok_def)
  show "nft v = nft w" using out by (simp add: tx_outcome_def same_outside_def)
  show st: "safe_step (to_lower s) (committed w) (committed v)"
    using out safe by (auto simp: tx_outcome_def tx_effect_def split: sum.splits)
  show "repo_ok v"
    using ok out st by (auto simp: repo_ok_def tx_outcome_def same_outside_def safe_step_def)
qed

lemma token_held_nft: "nft v = nft w \<Longrightarrow> token_held P v = token_held P w"
  by (simp add: token_held_def fun_eq_iff split: sum.splits prod.splits)

lemma queued_db: "outbox (committed v) = outbox (committed w) \<Longrightarrow> queued s v = queued s w"
  by (simp add: queued_def fun_eq_iff)

lemma revoke_holds:
  assumes "nft_ok c" "nft_revokeAccess sender h z c = Inr c'"
  shows "nft_hasAccess c' h' z' \<longleftrightarrow> nft_hasAccess c h' z' \<and> \<not> (h' = h \<and> z' = z)"
proof -
  have s: "sender \<in> set (issuer_role c)" using assms(2) by (simp add: nft_revokeAccess_def split: if_splits)
  then have "issuer_ready sender c" using assms(1) by (simp add: issuer_ready_def)
  from nft.revoke_effect [OF this, of h z c'] assms(2) show ?thesis by (simp add: option_of_def)
qed

lemma chain_revoke_cases:
  assumes ok: "nft_ok (nft w)" and run: "chain_revokeAccess P wallet zone w = (r, v)"
  shows "nft_ok (nft v)" "token_held P v a z \<Longrightarrow> token_held P w a z"
    and "r = Inr h \<Longrightarrow> \<not> token_held P v wallet zone"
proof -
  note cases = chain_send_cases [OF run [unfolded chain_revokeAccess_def]]
  show "nft_ok (nft v)" using cases(4) ok nft_ok_revoke by fastforce
  show "token_held P w a z" if "token_held P v a z"
    using that cases(4) revoke_holds [OF ok] by (auto simp: token_held_def split: sum.splits)
  show "\<not> token_held P v wallet zone" if "r = Inr h"
    using cases(5) [OF that] revoke_holds [OF ok] by (auto simp: token_held_def encodes_def)
qed

interpretation repo: erasure_backend "repo_getCaps P s" "repo_delete P s" "repo_record P s"
  "chain_revokeAccess P" repo_ok "token_held P" "queued s"
  "\<lambda>w i. active_caps (to_lower s) (to_lower i) (committed w)"
  "\<lambda>w i. \<not> owns (to_lower s) (to_lower i) (committed w)" for P s
proof (unfold_locales, goal_cases)
  case (1 w i r w')
  have safe: "safe_step (to_lower s) (committed w) d"
    if "getEmployeeCapabilities i (Some s) (committed w) = Inr (a, d)" for a d
    using that by (simp add: getEmployeeCapabilities_Inr)
  note run = 1(2) [unfolded repo_getCaps_def]
  have out: "repo_ok w'" "tx_outcome P s (\<lambda>_ _. getEmployeeCapabilities i) w r w'" "nft w' = nft w"
    by (rule repo_ok_tx [OF 1(1) run], erule safe)+
  have "committed w' = committed w" "\<forall>caps. r = Inr caps \<longrightarrow> caps = active_caps (to_lower s) (to_lower i) (committed w)"
    using out(2) by (auto simp: tx_outcome_def tx_effect_def getEmployeeCapabilities_Inr split: sum.splits)
  then show ?case using out(1,3) by (simp add: token_held_nft [of w' w] queued_db [of w' w])
next
  case (2 w i r w')
  have ok: "db_ok (committed w)" using 2(1) by (simp add: repo_ok_def)
  note run = 2(2) [unfolded repo_delete_def]
  have out: "repo_ok w'" "tx_outcome P s (\<lambda>_ _. deleteEmployee i) w r w'" "nft w' = nft w"
    by (rule repo_ok_tx [OF 2(1) run], erule safe_deleteEmployee)+
  have "outbox (committed w') = outbox (committed w)"
    and "r = Inr () \<Longrightarrow> \<not> owns (to_lower s) (to_lower i) (committed w')"
    using out(2) by (auto simp: tx_outcome_def tx_effect_def deleteEmployee_Inr [OF ok] owns_def without_employee_def
        split: sum.splits)
  then show ?case using out(1,3) by (simp add: token_held_nft [of w' w] queued_db [of w' w])
next
  case (3 w a z r w' i)
  then have "nft_ok (nft w)" by (simp add: repo_ok_def)
  note cases = chain_revoke_cases [OF this 3(2)]
  have "same_db w w'" using chain_send_cases(1) [OF 3(2) [unfolded chain_revokeAccess_def]] .
  then show ?case using 3(1) cases by (auto simp: repo_ok_def same_db_def queued_def fun_eq_iff)
next
  case (4 w a z m r w' i)
  note run = 4(2) [unfolded repo_record_def]
  have out: "repo_ok w'" "tx_outcome P s (recordFailedRevocation s a z (Some m)) w r w'" "nft w' = nft w"
    by (rule repo_ok_tx [OF 4(1) run], erule safe_recordFailedRevocation)+
  have "\<forall>a' z'. queued s w a' z' \<longrightarrow> queued s w' a' z'" "r = Inr () \<longrightarrow> queued s w' a z"
    "employees (committed w') = employees (committed w)"
    using out(2) by (auto simp: tx_outcome_def tx_effect_def recordFailedRevocation_Inr queued_def split: sum.splits)
  then show ?case using out(1,3) by (simp add: token_held_nft [of w' w] owns_def)
qed

section \<open>While the database answers\<close>

text \<open>No text that reaches the outbox has a NUL, which PostgreSQL refuses.\<close>

definition clean_platform :: "platform \<Rightarrow> bool" where
  "clean_platform P = (inj (new_uuid P) \<and> (\<forall>rv. pg_text_ok (revert_message P rv)) \<and>
     (\<forall>a z m. encode_call P a z = Inl m \<longrightarrow> pg_text_ok m))"

fun clean_fault :: "fault \<Rightarrow> bool" where
  "clean_fault Fine = True"
| "clean_fault (LostBefore m) = pg_text_ok m"
| "clean_fault (LostAfter m) = pg_text_ok m"

definition stored_ok :: "db \<Rightarrow> bool" where
  "stored_ok d = ((\<forall>e \<in> set (employees d). pg_text_ok (emp_wallet e)) \<and>
     (\<forall>c \<in> set (capabilities d). pg_bigint_ok (cap_zone c)))"

definition fresh_ids :: "platform \<Rightarrow> world \<Rightarrow> bool" where
  "fresh_ids P w = (\<forall>n \<ge> drawn w. new_uuid P n \<notin> ob_id ` set (outbox (committed w)))"

definition db_up :: "platform \<Rightarrow> string \<Rightarrow> world \<Rightarrow> bool" where
  "db_up P s w = (repo_ok w \<and> schedule w = [] \<and> is_uuid s \<and> to_lower s \<in> set (tenants (committed w)) \<and>
     stored_ok (committed w) \<and> fresh_ids P w \<and> clean_platform P \<and> list_all clean_fault (chain_schedule w))"

lemma error_reason_clean: "pg_text_ok (error_message e) \<Longrightarrow> pg_text_ok (error_name e) \<Longrightarrow> pg_text_ok (error_reason e)"
  by (simp add: error_reason_def)

lemma chain_send_clean:
  assumes clean: "clean_platform P" "list_all clean_fault (chain_schedule w)" and run: "chain_send P call a z w = (r, v)"
  shows "list_all clean_fault (chain_schedule v) \<and> (\<forall>e. r = Inl e \<longrightarrow> pg_text_ok (error_reason e))"
proof -
  have names: "pg_text_ok ''Error''" "pg_text_ok ''TypeError''" by (simp_all add: pg_text_ok_def)
  let ?w = "w\<lparr>held_at_send := held_at_send w @ [clients_out w]\<rparr>"
  obtain f u where u: "take_chain_fault ?w = (f, u)" by (cases "take_chain_fault ?w")
  have f: "clean_fault f" "list_all clean_fault (chain_schedule u)"
    using u clean(2) by (auto simp: take_chain_fault_def split: list.splits)
  show ?thesis
  proof (cases "encode_call P a z")
    case (Inl m)
    then show ?thesis using run clean names
      by (auto simp: chain_send_def Let_def clean_platform_def intro!: error_reason_clean)
  next
    case (Inr hz)
    obtain h y where hz: "hz = (h, y)" by (cases hz)
    have rv: "pg_text_ok (revert_message P m)" for m using clean(1) by (simp add: clean_platform_def)
    show ?thesis using run f u names rv
      by (cases f; cases "call h y (nft u)")
        (auto simp: chain_send_def external_chain_def Inr hz draw_def Let_def intro!: error_reason_clean)
  qed
qed

text \<open>What a statement has to keep for the database to stay in order.\<close>

definition stored_step :: "platform \<Rightarrow> string \<Rightarrow> world \<Rightarrow> db \<Rightarrow> bool" where
  "stored_step P s w d = (safe_step (to_lower s) (committed w) d \<and> stored_ok d \<and>
     ob_id ` set (outbox d) \<subseteq> insert (new_uuid P (drawn w)) (ob_id ` set (outbox (committed w))))"

lemma db_up_draw: "db_up P s w \<Longrightarrow> db_up P s ((draw w)\<lparr>session := None\<rparr>)"
  by (simp add: db_up_def repo_ok_def fresh_ids_def draw_def)

lemma db_up_write:
  assumes up: "db_up P s w" and d: "stored_step P s w d"
  shows "db_up P s ((draw w)\<lparr>committed := d, session := None\<rparr>)"
proof -
  have "new_uuid P n \<notin> ob_id ` set (outbox d)" if "Suc (drawn w) \<le> n" for n
  proof -
    have "new_uuid P n \<noteq> new_uuid P (drawn w)" using up that by (auto simp: db_up_def clean_platform_def dest: injD)
    moreover have "new_uuid P n \<notin> ob_id ` set (outbox (committed w))"
      using up that by (simp add: db_up_def fresh_ids_def)
    ultimately show ?thesis using d by (auto simp: stored_step_def)
  qed
  then show ?thesis using up d
    by (simp add: db_up_def repo_ok_def safe_step_def draw_def stored_step_def fresh_ids_def)
qed

lemma tenantRepo_up:
  assumes up: "db_up P s w" and run: "tenantRepo P s q w = (r, v)"
    and d: "\<And>a d. q (new_uuid P (drawn w)) (clock w) (Some s) (committed w) = Inr (a, d) \<Longrightarrow> stored_step P s w d"
  shows "db_up P s v"
proof (cases "q (new_uuid P (drawn w)) (clock w) (Some s) (committed w)")
  case (Inl e)
  then show ?thesis using run db_up_draw [OF up] tenantRepo_refused [of w q P s e] up by (simp add: db_up_def)
next
  case (Inr ad)
  obtain a d where "ad = (a, d)" by (cases ad)
  with Inr show ?thesis using run db_up_write [OF up d] tenantRepo_fine [of w q P s a d] up by (simp add: db_up_def)
qed

lemma stored_step_same: "db_up P s w \<Longrightarrow> stored_step P s w (committed w)"
  by (auto simp: stored_step_def db_up_def)

lemma stored_step_delete:
  assumes up: "db_up P s w" and d: "deleteEmployee i (Some s) (committed w) = Inr (a, d)"
  shows "stored_step P s w d"
proof -
  have "db_ok (committed w)" "stored_ok (committed w)" using up by (simp_all add: db_up_def repo_ok_def)
  then have "stored_ok d \<and> outbox d = outbox (committed w)"
    using d by (auto simp: deleteEmployee_Inr without_employee_def stored_ok_def)
  then show ?thesis using safe_deleteEmployee [OF d] by (auto simp: stored_step_def)
qed

lemma stored_step_record:
  assumes up: "db_up P s w"
    and d: "recordFailedRevocation s wallet z reason (new_uuid P (drawn w)) now (Some s) (committed w) = Inr (a, d)"
  shows "stored_step P s w d"
  using safe_recordFailedRevocation [OF d] up d
  by (auto simp: stored_step_def recordFailedRevocation_Inr db_up_def stored_ok_def)

lemma db_up_repo_ok: "db_up P s w \<Longrightarrow> repo_ok w"
  by (simp add: db_up_def)

lemma up_getCaps: "db_up P s w \<Longrightarrow> repo_getCaps P s i w = (r, v) \<Longrightarrow> db_up P s v"
  unfolding repo_getCaps_def
  by (rule tenantRepo_up, assumption, assumption) (auto simp: getEmployeeCapabilities_Inr stored_step_same)

lemma up_delete: "db_up P s w \<Longrightarrow> repo_delete P s i w = (r, v) \<Longrightarrow> db_up P s v"
  unfolding repo_delete_def by (rule tenantRepo_up, assumption, assumption) (rule stored_step_delete)

lemma up_record: "db_up P s w \<Longrightarrow> repo_record P s a z m w = (r, v) \<Longrightarrow> db_up P s v"
  unfolding repo_record_def by (rule tenantRepo_up, assumption, assumption) (rule stored_step_record)

lemma up_revoke:
  assumes up: "db_up P s w" and run: "chain_revokeAccess P a z w = (r, v)"
  shows "db_up P s v \<and> (\<forall>e. r = Inl e \<longrightarrow> pg_text_ok (error_reason e))"
proof -
  note run' = run [unfolded chain_revokeAccess_def]
  note cases = chain_send_cases(1,3) [OF run'] chain_revoke_cases(1) [OF _ run]
  have clean: "list_all clean_fault (chain_schedule v) \<and> (\<forall>e. r = Inl e \<longrightarrow> pg_text_ok (error_reason e))"
    using up by (intro chain_send_clean [OF _ _ run']) (auto simp: db_up_def)
  have "nft_ok (nft v)" using cases(3) up by (simp add: db_up_def repo_ok_def)
  then show ?thesis
    using up cases(1,2) clean by (simp add: db_up_def repo_ok_def same_db_def fresh_ids_def)
qed

interpretation repo_up: durable_backend "repo_getCaps P s" "repo_delete P s" "repo_record P s"
  "chain_revokeAccess P" "db_up P s" "token_held P" "queued s"
  "\<lambda>w i. active_caps (to_lower s) (to_lower i) (committed w)"
  "\<lambda>w i. \<not> owns (to_lower s) (to_lower i) (committed w)" is_uuid for P s
proof (unfold_locales, goal_cases)
  case (1 w i r w')
  show ?case using repo.get_law [OF db_up_repo_ok [OF 1(1)] 1(2)] up_getCaps [OF 1] by simp
next
  case (2 w i r w')
  show ?case using repo.delete_law [OF db_up_repo_ok [OF 2(1)] 2(2)] up_delete [OF 2] by simp
next
  case (3 w a z r w' i)
  show ?case using repo.revoke_law [OF db_up_repo_ok [OF 3(1)] 3(2), of s i] up_revoke [OF 3] by simp
next
  case (4 w a z m r w' i)
  show ?case using repo.record_law [OF db_up_repo_ok [OF 4(1)] 4(2), of i] up_record [OF 4] by simp
next
  case (5 w i)
  then have "getEmployeeCapabilities i (Some s) (committed w) =
      Inr (active_caps (to_lower s) (to_lower i) (committed w), committed w)" "schedule w = []"
    by (simp_all add: getEmployeeCapabilities_Inr db_up_def)
  then show ?case unfolding repo_getCaps_def by (subst tenantRepo_fine) auto
next
  case (6 w i)
  then have "db_ok (committed w)" "schedule w = []" "is_uuid s" by (simp_all add: db_up_def repo_ok_def)
  with 6(2) obtain d where "deleteEmployee i (Some s) (committed w) = Inr ((), d)" "schedule w = []"
    by (auto simp: deleteEmployee_Inr)
  then show ?case unfolding repo_delete_def by (subst tenantRepo_fine) auto
next
  case (7 w z a w0 i e w1)
  have w1: "db_up P s w1" "pg_text_ok (error_reason e)" using up_revoke [OF 7(1,4)] by auto
  have "pg_text_ok a" "pg_bigint_ok z"
    using 7(2,3) by (auto simp: set_active_caps db_up_def stored_ok_def)
  then obtain d where "recordFailedRevocation s a z (Some (error_reason e)) (new_uuid P (drawn w1)) (clock w1)
      (Some s) (committed w1) = Inr ((), d)" "schedule w1 = []"
    using w1 by (auto simp: recordFailedRevocation_Inr db_up_def fresh_ids_def)
  then show ?case unfolding repo_record_def by (subst tenantRepo_fine) auto
qed

end
