(* ===== verification/Outbox.thy ===== *)
theory Outbox
  imports Access_Repo
begin

text \<open>
  The retry worker of services/access-control/src/outbox.js: one pass over the pending revocations of
  a tenant, and over every tenant. \<open>startOutboxWorker\<close> runs \<open>processOutbox\<close> from a timer and logs what it
  throws; a run is one step here.
\<close>

section \<open>The code\<close>

text \<open>One row: revoke, then mark. \<open>True\<close> counts as ok, \<open>False\<close> as failed.\<close>

definition retry_row :: "platform \<Rightarrow> string \<Rightarrow> string \<times> string \<times> int \<Rightarrow> world \<Rightarrow> bool \<times> world" where
  "retry_row P s row w = (case row of (row_id, wallet, zone) \<Rightarrow>
     (case act_bind (chain_revokeAccess P wallet zone) (\<lambda>_.
         tenantRepo P s (\<lambda>_ now. markRevocationRetried row_id now)) w of
        (Inr u, w') \<Rightarrow> (True, w') | (Inl e, w') \<Rightarrow> (False, w')))"

fun retry_rows :: "platform \<Rightarrow> string \<Rightarrow> (string \<times> string \<times> int) list \<Rightarrow> nat \<times> nat \<Rightarrow> world \<Rightarrow> (nat \<times> nat) \<times> world" where
  "retry_rows P s [] counts w = (counts, w)"
| "retry_rows P s (row # rows) counts w = (case retry_row P s row w of (done, w') \<Rightarrow>
     retry_rows P s rows (if done then (Suc (fst counts), snd counts) else (fst counts, Suc (snd counts))) w')"

record outbox_report =
  or_ok :: nat
  or_failed :: nat
  or_total :: nat

definition processOutboxFor :: "platform \<Rightarrow> string \<Rightarrow> nat \<Rightarrow> outbox_report op" where
  "processOutboxFor P s limit = act_bind (tenantRepo P s (\<lambda>_ _. listPendingRevocations limit)) (\<lambda>pending w.
     (case retry_rows P s pending (0, 0) w of (counts, w') \<Rightarrow>
       (Inr \<lparr>or_ok = fst counts, or_failed = snd counts, or_total = length pending\<rparr>, w')))"

fun process_tenants :: "platform \<Rightarrow> nat \<Rightarrow> string list \<Rightarrow> nat \<times> nat \<Rightarrow> (nat \<times> nat) op" where
  "process_tenants P limit [] counts = act_return counts"
| "process_tenants P limit (tid # tids) counts = act_bind (processOutboxFor P tid limit) (\<lambda>r.
     process_tenants P limit tids (fst counts + or_ok r, snd counts + or_failed r))"

definition processOutbox :: "platform \<Rightarrow> nat \<Rightarrow> (nat \<times> nat) op" where
  "processOutbox P limit = act_bind (external (\<lambda>w. (Inr (listTenantIds (committed w)), w))) (\<lambda>tenantIds.
     process_tenants P limit tenantIds (0, 0))"

section \<open>Facts\<close>

lemma retry_row_ok:
  assumes ok: "repo_ok w" and run: "retry_row P s (i, a, z) w = (b, v)"
  shows "repo_ok v" "token_held P v a' z' \<Longrightarrow> token_held P w a' z'" "b \<Longrightarrow> \<not> token_held P v a z"
proof -
  obtain r w1 where r: "chain_revokeAccess P a z w = (r, w1)" by (cases "chain_revokeAccess P a z w")
  note cases = chain_revoke_cases [OF _ r] chain_send_cases(1) [OF r [unfolded chain_revokeAccess_def]]
  have w1: "repo_ok w1" "\<And>a' z'. token_held P w1 a' z' \<Longrightarrow> token_held P w a' z'"
    "\<And>h. r = Inr h \<Longrightarrow> \<not> token_held P w1 a z"
    using cases ok by (auto simp: repo_ok_def same_db_def)
  have "repo_ok v \<and> (token_held P v a' z' \<longrightarrow> token_held P w a' z') \<and> (b \<longrightarrow> \<not> token_held P v a z)"
  proof (cases r)
    case (Inl e)
    then show ?thesis using run r w1 by (simp add: retry_row_def)
  next
    case (Inr h)
    obtain u w2 where u: "tenantRepo P s (\<lambda>_ now. markRevocationRetried i now) w1 = (u, w2)"
      by (cases "tenantRepo P s (\<lambda>_ now. markRevocationRetried i now) w1")
    have "repo_ok w2" "nft w2 = nft w1"
      by (rule repo_ok_tx [OF w1(1) u], erule safe_markRevocationRetried)+
    then show ?thesis
      using run r u Inr w1 token_held_nft [of w2 w1 P] by (auto simp: retry_row_def split: sum.splits)
  qed
  then show "repo_ok v" "token_held P v a' z' \<Longrightarrow> token_held P w a' z'" "b \<Longrightarrow> \<not> token_held P v a z"
    by auto
qed

text \<open>When the chain answers, a row that is retried is revoked, or was not held.\<close>

lemma retry_row_revokes:
  assumes "repo_ok w" "chain_schedule w = []" "issuer P \<in> set (issuer_role (nft w))"
    and run: "retry_row P s (i, a, z) w = (b, v)"
  shows "\<not> token_held P v a z" "chain_schedule v = []" "issuer_role (nft v) = issuer_role (nft w)"
proof -
  obtain r w1 where r: "chain_revokeAccess P a z w = (r, w1)" by (cases "chain_revokeAccess P a z w")
  have w1: "repo_ok w1"
    using chain_revoke_cases(1) [OF _ r] chain_send_cases(1) [OF r [unfolded chain_revokeAccess_def]] assms(1)
    by (simp add: repo_ok_def same_db_def)
  have "\<not> token_held P w1 a z \<and> chain_schedule w1 = [] \<and> issuer_role (nft w1) = issuer_role (nft w)"
    using r assms(1-3) chain_revoke_cases(3) [OF _ r]
    by (auto simp: chain_revokeAccess_def chain_send_fine Let_def token_held_def nft_revokeAccess_def
        nft_hasAccess_def repo_ok_def draw_def split: sum.splits prod.splits if_splits)
  moreover obtain u w2 where u: "tenantRepo P s (\<lambda>_ now. markRevocationRetried i now) w1 = (u, w2)"
    by (cases "tenantRepo P s (\<lambda>_ now. markRevocationRetried i now) w1")
  moreover have "tx_outcome P s (\<lambda>_ now. markRevocationRetried i now) w1 u w2"
    using tenantRepo_outcome [OF _ u] w1 by (simp add: repo_ok_def)
  ultimately show "\<not> token_held P v a z" "chain_schedule v = []" "issuer_role (nft v) = issuer_role (nft w)"
    using run r token_held_nft [of w2 w1 P]
    by (auto simp: retry_row_def act_bind_def tx_outcome_def same_outside_def split: sum.splits)
qed

lemma retry_rows_revoke:
  assumes "repo_ok w" "chain_schedule w = []" "issuer P \<in> set (issuer_role (nft w))"
    and "retry_rows P s rows counts w = (counts', v)"
  shows "(\<forall>(i, a, z) \<in> set rows. \<not> token_held P v a z) \<and>
    (\<forall>a z. token_held P v a z \<longrightarrow> token_held P w a z) \<and>
    fst counts' + snd counts' = fst counts + snd counts + length rows"
  using assms
proof (induction rows arbitrary: counts w)
  case (Cons row rows)
  obtain i a z where row: "row = (i, a, z)" by (cases row)
  obtain b w1 where b: "retry_row P s (i, a, z) w = (b, w1)" by (cases "retry_row P s (i, a, z) w")
  let ?c = "if b then (Suc (fst counts), snd counts) else (fst counts, Suc (snd counts))"
  have w1: "repo_ok w1" "\<not> token_held P w1 a z" "chain_schedule w1 = []" "issuer P \<in> set (issuer_role (nft w1))"
    "\<forall>a z. token_held P w1 a z \<longrightarrow> token_held P w a z"
    using retry_row_ok [OF Cons.prems(1) b] retry_row_revokes [OF Cons.prems(1-3) b] Cons.prems(3) by auto
  have "retry_rows P s rows ?c w1 = (counts', v)" using Cons.prems(4) b by (simp add: row)
  from Cons.IH [OF w1(1,3,4) this] w1 show ?case by (auto simp: row split: if_splits)
qed simp

text \<open>A row whose capability is not held any more cannot be retried: the contract refuses.\<close>

definition dead_row :: "platform \<Rightarrow> world \<Rightarrow> string \<times> string \<times> int \<Rightarrow> bool" where
  "dead_row P w row = (case row of (i, a, z) \<Rightarrow> \<not> token_held P w a z)"

lemma dead_row_nft: "nft v = nft w \<Longrightarrow> dead_row P v = dead_row P w"
  using token_held_nft [of v w P] by (simp add: dead_row_def fun_eq_iff)

definition logged :: "world \<Rightarrow> world \<Rightarrow> bool" where
  "logged w v = (committed v = committed w \<and> nft v = nft w \<and> session v = session w \<and> clock v = clock w \<and>
     schedule v = schedule w \<and> chain_schedule v = chain_schedule w)"

lemma logged_trans: "logged w v \<Longrightarrow> logged v u \<Longrightarrow> logged w u"
  by (simp add: logged_def)

lemma retry_dead_row:
  assumes "chain_schedule w = []" "dead_row P w row"
  shows "\<exists>v. retry_row P s row w = (False, v) \<and> logged w v"
proof -
  obtain i a z where row: "row = (i, a, z)" by (cases row)
  let ?v = "w\<lparr>held_at_send := held_at_send w @ [clients_out w]\<rparr>"
  have dead: "encode_call P a z = Inr (h, y) \<Longrightarrow> balance (nft w) h y = 0" for h y
    using assms(2) by (simp add: row dead_row_def token_held_def nft_hasAccess_def)
  have "\<exists>e. chain_revokeAccess P a z w = (Inl e, ?v)"
    unfolding chain_revokeAccess_def chain_send_fine [OF assms(1)]
    using dead by (auto simp: Let_def nft_revokeAccess_def split: sum.splits)
  moreover have "logged w ?v" by (simp add: logged_def)
  ultimately obtain e v where "chain_revokeAccess P a z w = (Inl e, v)" "logged w v" by blast
  then show ?thesis by (simp add: retry_row_def row)
qed

lemma retry_dead_rows:
  "chain_schedule w = [] \<Longrightarrow> list_all (dead_row P w) rows \<Longrightarrow>
    \<exists>v. retry_rows P s rows counts w = ((fst counts, snd counts + length rows), v) \<and> logged w v"
proof (induction rows arbitrary: counts w)
  case (Cons row rows)
  then obtain w1 where w1: "retry_row P s row w = (False, w1)" "logged w w1"
    using retry_dead_row [of w P row s] by auto
  have "list_all (dead_row P w1) rows"
    using Cons.prems(2) w1(2) dead_row_nft [of w1 w P] by (simp add: logged_def)
  with Cons.IH [of w1 "(fst counts, Suc (snd counts))"] w1 Cons.prems(1) logged_trans
  show ?case by (fastforce simp: logged_def)
qed (simp add: logged_def)

definition pending_rows :: "string \<Rightarrow> db \<Rightarrow> (string \<times> string \<times> int) list" where
  "pending_rows s d = map (\<lambda>r. (ob_id r, ob_wallet r, ob_zone r)) (sort_key ob_created
     (filter (\<lambda>r. ob_tenant r = to_lower s \<and> ob_retried r = None) (outbox d)))"

lemma listPendingRevocations_Inr:
  "listPendingRevocations limit (Some s) d = Inr (rows, d') \<longleftrightarrow>
     is_uuid s \<and> d' = d \<and> rows = take limit (pending_rows s d)"
  by (auto simp: listPendingRevocations_def pending_rows_def take_map split: sum.splits)

lemma list_pending_up:
  assumes "schedule w = []" "is_uuid s"
  shows "tenantRepo P s (\<lambda>_ _. listPendingRevocations limit) w =
    (Inr (take limit (pending_rows s (committed w))), (draw w)\<lparr>session := None\<rparr>)"
  using assms tenantRepo_fine [of w "\<lambda>_ _. listPendingRevocations limit" P s
      "take limit (pending_rows s (committed w))" "committed w"]
  by (simp add: listPendingRevocations_Inr draw_def)

text \<open>When the first \<open>limit\<close> rows are dead, a pass changes nothing, and neither does the next.\<close>

lemma process_dead:
  assumes "schedule w = []" "chain_schedule w = []" "session w = None" "is_uuid s"
    and "list_all (dead_row P w) (take limit (pending_rows s (committed w)))"
  shows "\<exists>v. processOutboxFor P s limit w =
      (Inr \<lparr>or_ok = 0, or_failed = length (take limit (pending_rows s (committed w))),
         or_total = length (take limit (pending_rows s (committed w)))\<rparr>, v) \<and> logged w v"
proof -
  let ?w = "(draw w)\<lparr>session := None\<rparr>" and ?rows = "take limit (pending_rows s (committed w))"
  have "list_all (dead_row P ?w) ?rows"
    using assms(5) dead_row_nft [of ?w w P] by (simp add: draw_def)
  then obtain v where "retry_rows P s ?rows (0, 0) ?w = ((0, length ?rows), v)" "logged ?w v"
    using retry_dead_rows [of ?w P ?rows s "(0, 0)"] assms(2) by (auto simp: draw_def)
  then show ?thesis
    using list_pending_up [OF assms(1,4)] assms(3) by (simp add: processOutboxFor_def logged_def draw_def)
qed

end
