(* ===== verification/Access_Api.thy ===== *)
theory Access_Api
  imports Outbox
begin

text \<open>
  The HTTP API of the access-control service: services/access-control/src/app.js. A request is its
  route, its headers and its parsed body; \<open>handle\<close> runs the middleware in the order the app installs
  it (body parser, API key, route, error handler) and gives the response and the world after it.

  The handler of POST /capabilities is three operations, a read, a mint and a write, and other
  requests may run between them: they are definitions of their own, composed by the handler.
\<close>

section \<open>Requests and responses\<close>

datatype route =
    PostEmployees
  | PostCapabilities
  | PostAccessLogs
  | GetAccess string string
  | DeleteEmployee string
  | NoRoute

record request =
  req_route :: route
  req_headers :: headers
  req_body :: "api_error + jsval"

record response =
  res_status :: nat
  res_json :: jsval

definition respond :: "nat \<Rightarrow> (string \<times> jsval) list \<Rightarrow> response" where
  "respond st kvs = \<lparr>res_status = st, res_json = JObj kvs\<rparr>"

definition json_int :: "int \<Rightarrow> jsval" where
  "json_int z = JNum (Fin (of_int z))"

definition body_field :: "jsval \<Rightarrow> string \<Rightarrow> jsval" where
  "body_field body k = (case body of JObj ps \<Rightarrow> get_prop ps k | _ \<Rightarrow> JUndef)"

text \<open>The error handler: the text of a 5xx stays on the server.\<close>

definition error_response :: "platform \<Rightarrow> world \<Rightarrow> api_error \<Rightarrow> response" where
  "error_response P w err = (
     let st = (case error_status err of None \<Rightarrow> 500 | Some n \<Rightarrow> if n = 0 then 500 else n) in
     if st \<ge> 500 then respond st [(''error'', JStr ''InternalError''), (''message'', JStr ''internal error''),
         (''id'', JStr (error_id P (drawn w)))]
     else respond st [(''error'', JStr (if error_name err = [] then ''Error'' else error_name err)),
         (''message'', JStr (error_message err))])"

section \<open>The handlers\<close>

definition post_employees :: "platform \<Rightarrow> string \<Rightarrow> jsval \<Rightarrow> response op" where
  "post_employees P t body =
     act_bind (act_check (requireNonEmptyString ''full_name'' (body_field body ''full_name'') 256)) (\<lambda>fullName.
     act_bind (act_check (optionalEmail ''email'' (body_field body ''email''))) (\<lambda>email.
     act_bind (act_check (requireEvmAddress ''wallet'' (body_field body ''wallet''))) (\<lambda>wallet.
     act_bind (tenantRepo P t (createEmployee t fullName email wallet)) (\<lambda>created.
       act_return (respond 201 [(''id'', JStr (fst created)), (''wallet'', JStr (snd created))])))))"

text \<open>The read, the mint and the write of POST /capabilities.\<close>

definition capability_wallet :: "platform \<Rightarrow> string \<Rightarrow> string \<Rightarrow> string op" where
  "capability_wallet P t employeeId =
     act_bind (tenantRepo P t (\<lambda>_ _. getEmployeeWallet employeeId)) (\<lambda>wallet.
       case wallet of None \<Rightarrow> act_throw (ValidationError ''employee_id'' ''unknown employee'')
       | Some a \<Rightarrow> if a = [] then act_throw (ValidationError ''employee_id'' ''unknown employee'') else act_return a)"

definition capability_write :: "platform \<Rightarrow> string \<Rightarrow> string \<Rightarrow> int \<Rightarrow> string \<Rightarrow> response op" where
  "capability_write P t employeeId zone grantTx =
     act_bind (tenantRepo P t (createCapability t employeeId zone grantTx)) (\<lambda>i.
       act_return (respond 201 [(''id'', JStr i)]))"

definition post_capabilities :: "platform \<Rightarrow> string \<Rightarrow> jsval \<Rightarrow> response op" where
  "post_capabilities P t body =
     act_bind (act_check (requireUuid ''employee_id'' (body_field body ''employee_id''))) (\<lambda>employeeId.
     act_bind (act_check (requireZone ''zone'' (body_field body ''zone''))) (\<lambda>zone.
     act_bind (capability_wallet P t employeeId) (\<lambda>wallet.
     act_bind (chain_grantAccess P wallet zone) (\<lambda>grantTx.
       capability_write P t employeeId zone grantTx))))"

definition post_access_logs :: "platform \<Rightarrow> string \<Rightarrow> jsval \<Rightarrow> response op" where
  "post_access_logs P t body =
     act_bind (act_check (requireUuid ''employee_id'' (body_field body ''employee_id''))) (\<lambda>employeeId.
     act_bind (act_check (requireZone ''zone'' (body_field body ''zone''))) (\<lambda>zone.
     case body_field body ''granted'' of
       JBool granted \<Rightarrow>
         act_bind (capability_wallet P t employeeId) (\<lambda>_.
         act_bind (tenantRepo P t (logAccess t employeeId zone granted)) (\<lambda>_.
           act_return (respond 201 [(''ok'', JBool True)])))
     | _ \<Rightarrow> act_throw (ValidationError ''granted'' ''must be a boolean'')))"

definition get_access :: "platform \<Rightarrow> string \<Rightarrow> string \<Rightarrow> response op" where
  "get_access P wallet_param zone_param =
     act_bind (act_check (requireEvmAddress ''wallet'' (JStr wallet_param))) (\<lambda>wallet.
     act_bind (act_check (requireZone ''zone'' (JNum (string_to_number zone_param)))) (\<lambda>zone.
     act_bind (chain_hasAccess P wallet zone) (\<lambda>b.
       act_return (respond 200 [(''wallet'', JStr wallet), (''zone'', json_int zone), (''hasAccess'', JBool b)]))))"

text \<open>The zone of an erased capability is a bigint column, which the driver returns as text.\<close>

definition bigint_text :: "int \<Rightarrow> string" where
  "bigint_text z = (if z < 0 then CHR ''-'' # dec_string (nat (- z)) else dec_string (nat z))"

fun revocation_json :: "revocation \<Rightarrow> jsval" where
  "revocation_json (Revoked z a h) =
     JObj [(''zone'', JStr (bigint_text z)), (''wallet'', JStr a), (''txHash'', JStr h), (''ok'', JBool True)]"
| "revocation_json (NotRevoked z a m) =
     JObj [(''zone'', JStr (bigint_text z)), (''wallet'', JStr a), (''error'', JStr m), (''ok'', JBool False)]"

definition delete_employee :: "platform \<Rightarrow> string \<Rightarrow> string \<Rightarrow> response op" where
  "delete_employee P t id_param =
     act_bind (act_check (requireUuid ''id'' (JStr id_param))) (\<lambda>employeeId.
     act_bind (erase_as P t employeeId) (\<lambda>r.
       act_return (respond 200 [(''employeeId'', JStr (er_employeeId r)),
         (''revoked'', JArr (map revocation_json (er_revoked r))), (''deleted'', JBool (er_deleted r))])))"

definition dispatch :: "platform \<Rightarrow> string \<Rightarrow> route \<Rightarrow> jsval \<Rightarrow> response op" where
  "dispatch P t r body = (case r of
      PostEmployees \<Rightarrow> post_employees P t body
    | PostCapabilities \<Rightarrow> post_capabilities P t body
    | PostAccessLogs \<Rightarrow> post_access_logs P t body
    | GetAccess a z \<Rightarrow> get_access P a z
    | DeleteEmployee i \<Rightarrow> delete_employee P t i
    | NoRoute \<Rightarrow> act_return (respond 404 []))"

definition unauthorized :: response where
  "unauthorized = respond 401 [(''error'', JStr ''Unauthorized''), (''message'', JStr ''valid x-api-key required'')]"

definition handle :: "platform \<Rightarrow> (string, string) jsmap \<Rightarrow> request \<Rightarrow> world \<Rightarrow> response \<times> world" where
  "handle P apiKeys req w = (case req_body req of
      Inl err \<Rightarrow> (error_response P w err, w)
    | Inr body \<Rightarrow> (case apiKeyAuth apiKeys (req_headers req) of
        None \<Rightarrow> (unauthorized, w)
      | Some t \<Rightarrow> (case dispatch P t (req_route req) body w of
          (Inr res, w') \<Rightarrow> (res, w')
        | (Inl err, w') \<Rightarrow> (error_response P w' err, w'))))"

text \<open>\<open>server.js\<close>: the service starts on a safe role and with at least one key.\<close>

definition startup :: "bool \<Rightarrow> bool \<Rightarrow> string option \<Rightarrow> string + (string, string) jsmap" where
  "startup is_superuser bypassrls keys_env = (case assertSafeDbRole is_superuser bypassrls of
      Inl e \<Rightarrow> Inl e
    | Inr _ \<Rightarrow> if parseApiKeys keys_env = [] then Inl ''refusing to start: ACCESS_API_KEYS is empty''
        else Inr (parseApiKeys keys_env))"

section \<open>Isolation\<close>

text \<open>What a request of tenant \<open>t\<close> may do to the world, whatever fails.\<close>

definition tenant_step :: "string \<Rightarrow> world \<Rightarrow> world \<Rightarrow> bool" where
  "tenant_step t w v = (repo_ok w \<longrightarrow> repo_ok v \<and> safe_step t (committed w) (committed v) \<and>
     clients_out v = clients_out w \<and> (\<exists>n. held_at_send v = held_at_send w @ replicate n (clients_out w)))"

lemma tenant_step_refl [simp]: "tenant_step t w w"
  by (simp add: tenant_step_def)

lemma tenant_step_trans: "tenant_step t w v \<Longrightarrow> tenant_step t v u \<Longrightarrow> tenant_step t w u"
  unfolding tenant_step_def using safe_step_trans by (metis append.assoc replicate_add)

lemma transp_tenant_step: "transp (tenant_step t)"
  by (rule transpI) (rule tenant_step_trans)

lemma reflp_tenant_step: "reflp (tenant_step t)"
  by (rule reflpI) simp

lemma step_tenantRepo:
  assumes "tenantRepo P s q w = (r, v)"
    and "\<And>n c a d. repo_ok w \<Longrightarrow> q n c (Some s) (committed w) = Inr (a, d) \<Longrightarrow> safe_step (to_lower s) (committed w) d"
  shows "tenant_step (to_lower s) w v"
  unfolding tenant_step_def
proof
  assume ok: "repo_ok w"
  have "repo_ok v" "tx_outcome P s q w r v" "safe_step (to_lower s) (committed w) (committed v)"
    by (rule repo_ok_tx [OF ok assms(1)], erule assms(2) [OF ok])+
  then show "repo_ok v \<and> safe_step (to_lower s) (committed w) (committed v) \<and> clients_out v = clients_out w \<and>
      (\<exists>n. held_at_send v = held_at_send w @ replicate n (clients_out w))"
    by (auto simp: tx_outcome_def same_outside_def intro: exI [of _ 0])
qed

lemma keeps_tenantRepo:
  "(\<And>n c a d d'. q n c (Some s) d = Inr (a, d') \<Longrightarrow> safe_step (to_lower s) d d') \<Longrightarrow>
     keeps (tenant_step (to_lower s)) (tenantRepo P s q)"
  by (rule keepsI) (metis step_tenantRepo prod.collapse)

lemma keeps_chain_send:
  assumes "\<And>h z c c'. nft_ok c \<Longrightarrow> call h z c = Inr c' \<Longrightarrow> nft_ok c'"
  shows "keeps (tenant_step t) (chain_send P call a z)"
proof (rule keepsI)
  fix w
  obtain r v where run: "chain_send P call a z w = (r, v)" by (cases "chain_send P call a z w")
  have "held_at_send v = held_at_send w @ replicate 1 (clients_out w)"
    using chain_send_cases(2) [OF run] by simp
  then have n: "\<exists>n. held_at_send v = held_at_send w @ replicate n (clients_out w)" by blast
  have "repo_ok v" if "repo_ok w"
    using that chain_send_cases(1,4) [OF run] assms by (auto simp: repo_ok_def same_db_def)
  then show "tenant_step t w (snd (chain_send P call a z w))"
    using n chain_send_cases(1) [OF run] run by (simp add: tenant_step_def same_db_def)
qed

lemma keeps_chain_hasAccess: "keeps (tenant_step t) (chain_hasAccess P a z)"
proof (rule keepsI)
  fix w
  obtain r v where run: "chain_hasAccess P a z w = (r, v)" by (cases "chain_hasAccess P a z w")
  note cases = chain_hasAccess_cases(1-3) [OF run]
  have "held_at_send v = held_at_send w @ replicate 0 (clients_out w)" using cases by simp
  then show "tenant_step t w (snd (chain_hasAccess P a z w))"
    unfolding tenant_step_def using cases run by (auto simp: repo_ok_def same_db_def simp del: replicate.simps)
qed

lemmas keeps_step_bind = keeps_bind [OF transp_tenant_step]
lemmas keeps_step_pure = keeps_pure [OF reflp_tenant_step]

lemma keeps_grant: "keeps (tenant_step t) (chain_grantAccess P a z)"
  unfolding chain_grantAccess_def by (rule keeps_chain_send) (rule nft_ok_grant)

lemma keeps_revoke: "keeps (tenant_step t) (chain_revokeAccess P a z)"
  unfolding chain_revokeAccess_def by (rule keeps_chain_send) (rule nft_ok_revoke)

text \<open>The read hands out a wallet only when the employee is the caller's, and changes nothing.\<close>

lemma wallet_read_owns:
  assumes ok: "repo_ok w" and run: "capability_wallet P t i w = (r, v)"
  shows "repo_ok v" "committed v = committed w" "nft v = nft w" "tenant_step (to_lower t) w v"
    and "r = Inr a \<Longrightarrow> owns (to_lower t) (to_lower i) (committed v)"
proof -
  obtain u w1 where u: "tenantRepo P t (\<lambda>_ _. getEmployeeWallet i) w = (u, w1)"
    by (cases "tenantRepo P t (\<lambda>_ _. getEmployeeWallet i) w")
  have read: "d = committed w" if "getEmployeeWallet i (Some t) (committed w) = Inr (x, d)" for x d
    using reads_keep_db(2) [OF that] .
  have out: "repo_ok w1" "tx_outcome P t (\<lambda>_ _. getEmployeeWallet i) w u w1" "nft w1 = nft w"
    by (rule repo_ok_tx [OF ok u], drule read, simp)+
  have step: "tenant_step (to_lower t) w w1"
    by (rule step_tenantRepo [OF u], drule read, simp)
  have same: "committed w1 = committed w"
    using out(2) read by (auto simp: tx_outcome_def tx_effect_def split: sum.splits)
  have own: "owns (to_lower t) (to_lower i) (committed w)" if "u = Inr (Some a)" for a
    using that out(2) ok same getEmployeeWallet_owns [of "committed w" i t a "committed w"]
    by (simp add: tx_outcome_def tx_effect_def repo_ok_def)
  show "repo_ok v" "committed v = committed w" "nft v = nft w" "tenant_step (to_lower t) w v"
    "r = Inr a \<Longrightarrow> owns (to_lower t) (to_lower i) (committed v)"
    using run u out(1,3) step same own
    by (auto simp: capability_wallet_def act_bind_def split: sum.splits option.splits if_splits)
qed

lemma keeps_capability_wallet: "keeps (tenant_step (to_lower t)) (capability_wallet P t i)"
proof (rule keepsI)
  fix w
  obtain r v where r: "capability_wallet P t i w = (r, v)" by (cases "capability_wallet P t i w")
  show "tenant_step (to_lower t) w (snd (capability_wallet P t i w))"
    using wallet_read_owns(4) [OF _ r] r by (cases "repo_ok w") (auto simp: tenant_step_def)
qed

lemma step_owned_write:
  assumes "owns (to_lower t) (to_lower i) (committed w)"
  shows "tenant_step (to_lower t) w (snd (tenantRepo P t (createCapability t i z tx) w))"
    and "tenant_step (to_lower t) w (snd (tenantRepo P t (logAccess t i z g) w))"
  by (rule step_tenantRepo [OF prod.collapse [symmetric]], erule safe_createCapability [OF _ assms],
      rule step_tenantRepo [OF prod.collapse [symmetric]], erule safe_logAccess [OF _ assms])

lemma snd_act_bind:
  "snd (act_bind m f w) = (case m w of (Inl e, w') \<Rightarrow> w' | (Inr a, w') \<Rightarrow> snd (f a w'))"
  by (simp add: act_bind_def split: prod.splits sum.splits)

text \<open>A read, then anything that leaves the tables alone, then the write for the same employee.\<close>

lemma keeps_after_wallet:
  assumes f: "\<And>a w. repo_ok w \<Longrightarrow> owns (to_lower t) (to_lower i) (committed w) \<Longrightarrow>
    tenant_step (to_lower t) w (snd (f a w))"
  shows "keeps (tenant_step (to_lower t)) (act_bind (capability_wallet P t i) f)"
proof (rule keepsI)
  fix w
  show "tenant_step (to_lower t) w (snd (act_bind (capability_wallet P t i) f w))"
  proof (cases "repo_ok w")
    case True
    obtain r v where r: "capability_wallet P t i w = (r, v)" by (cases "capability_wallet P t i w")
    note read = wallet_read_owns [OF True r]
    show ?thesis
    proof (cases r)
      case (Inl e)
      then show ?thesis using r read(4) by (simp add: snd_act_bind)
    next
      case (Inr a)
      then show ?thesis using r tenant_step_trans [OF read(4) f [OF read(1) read(5) [OF Inr], of a]]
        by (simp add: snd_act_bind)
    qed
  qed (simp add: tenant_step_def)
qed

lemma keeps_post_capabilities: "keeps (tenant_step (to_lower t)) (post_capabilities P t body)"
  unfolding post_capabilities_def
proof (rule keeps_step_bind [OF keeps_step_pure(3)], rule keeps_step_bind [OF keeps_step_pure(3)],
    rule keeps_after_wallet)
  fix i z a w
  assume "repo_ok w" and own: "owns (to_lower t) (to_lower i) (committed w)"
  obtain r v where r: "chain_grantAccess P a z w = (r, v)" by (cases "chain_grantAccess P a z w")
  have step: "tenant_step (to_lower t) w v" using keepsD [OF keeps_grant, of "to_lower t" w P a z] r by simp
  have "committed v = committed w"
    using chain_send_cases(1) [OF r [unfolded chain_grantAccess_def]] by (simp add: same_db_def)
  then have "tenant_step (to_lower t) v (snd (capability_write P t i z tx v))" for tx
    using step_owned_write(1) [of t i v] own
    by (auto simp: capability_write_def snd_act_bind split: prod.splits sum.splits) (metis snd_conv)+
  then show "tenant_step (to_lower t) w
      (snd (act_bind (chain_grantAccess P a z) (\<lambda>tx. capability_write P t i z tx) w))"
    using r step tenant_step_trans by (auto simp: snd_act_bind split: sum.splits)
qed

lemma keeps_post_access_logs: "keeps (tenant_step (to_lower t)) (post_access_logs P t body)"
proof -
  have "tenant_step (to_lower t) w (snd (act_bind (tenantRepo P t (logAccess t i z g))
      (\<lambda>_. act_return (respond 201 [(''ok'', JBool True)])) w))"
    if "owns (to_lower t) (to_lower i) (committed w)" for i z g w
    using step_owned_write(2) [OF that, of P z g]
    by (auto simp: snd_act_bind split: prod.splits sum.splits)
  then show ?thesis
    unfolding post_access_logs_def
    by (intro keeps_step_bind keeps_step_pure) (auto intro!: keeps_after_wallet keeps_step_pure split: jsval.splits)
qed

lemma keeps_post_employees: "keeps (tenant_step (to_lower t)) (post_employees P t body)"
  unfolding post_employees_def
  by (intro keeps_step_bind keeps_step_pure keeps_tenantRepo) (rule safe_createEmployee)

lemma keeps_get_access: "keeps (tenant_step t) (get_access P a z)"
  unfolding get_access_def by (intro keeps_step_bind keeps_step_pure keeps_chain_hasAccess)

lemma keeps_revoke_loop:
  "tenant_step (to_lower t) w (snd (revoke_loop (Some (repo_record P t)) (chain_revokeAccess P) caps w))"
proof (induction caps arbitrary: w)
  case (Cons cap caps)
  obtain z a where cap: "cap = (z, a)" by (cases cap)
  have "keeps (tenant_step (to_lower t)) (repo_record P t a z m)" for m
    unfolding repo_record_def by (rule keeps_tenantRepo) (rule safe_recordFailedRevocation)
  then have "tenant_step (to_lower t) w (snd (revoke_one (Some (repo_record P t)) (chain_revokeAccess P) cap w))"
    using keepsD [OF keeps_revoke, of "to_lower t" w P a z] tenant_step_trans keepsD
    by (fastforce simp: revoke_one_def cap split: prod.splits sum.splits)
  with Cons.IH tenant_step_trans show ?case by (fastforce split: prod.splits)
qed simp

lemma keeps_delete_employee: "keeps (tenant_step (to_lower t)) (delete_employee P t i)"
proof -
  have "keeps (tenant_step (to_lower t)) (repo_getCaps P t i)" for i
    unfolding repo_getCaps_def by (rule keeps_tenantRepo) (simp add: getEmployeeCapabilities_Inr)
  moreover have "keeps (tenant_step (to_lower t)) (repo_delete P t i)" for i
    unfolding repo_delete_def by (rule keeps_tenantRepo) (rule safe_deleteEmployee)
  moreover have "keeps (tenant_step (to_lower t)) (\<lambda>w. case revoke_loop (Some (repo_record P t)) (chain_revokeAccess P) caps w of
      (revoked, w') \<Rightarrow> (Inr \<lparr>er_employeeId = i, er_revoked = revoked, er_deleted = True\<rparr>, w'))" for i caps
    using keeps_revoke_loop by (auto simp: keeps_def split: prod.splits) (metis snd_conv)
  ultimately show ?thesis
    unfolding delete_employee_def erase_as_def eraseEmployee_def
    by (intro keeps_step_bind keeps_step_pure) (auto intro: keeps_step_bind)
qed

lemma keeps_dispatch: "keeps (tenant_step (to_lower t)) (dispatch P t r body)"
  by (cases r) (simp_all add: dispatch_def keeps_post_employees keeps_post_capabilities
      keeps_post_access_logs keeps_get_access keeps_delete_employee keeps_step_pure)

text \<open>A request acts as the tenant its key stands for, or changes nothing.\<close>

lemma handle_step:
  assumes "handle P apiKeys req w = (res, v)"
  shows "v = w \<or> (\<exists>t. apiKeyAuth apiKeys (req_headers req) = Some t \<and> tenant_step (to_lower t) w v)"
  using assms keepsD [OF keeps_dispatch]
  by (auto simp: handle_def split: sum.splits option.splits prod.splits) (metis snd_conv)+

end
