(* ===== verification/Send_Queue.thy ===== *)
theory Send_Queue
  imports Gemba_Prelude
begin

text \<open>
  The send queue of a signing wallet: \<open>serialize\<close> in services/access-control/src/chain.js and, line
  for line, in services/testnet-faucet/src/faucet.js:

    let queue = Promise.resolve();
    function serialize(fn) {
      const run = queue.then(fn, fn);
      queue = run.then(() => {}, () => {});
      return run;
    }

  The queue is modelled at the level of the promises: every call makes the promise \<open>run\<close>, which
  starts \<open>fn\<close> once the promise \<open>queue\<close> of that moment has settled, and a new \<open>queue\<close> which settles
  after \<open>run\<close> has, whatever its result. Promise 0 is the resolved promise of the start, promise
  \<open>k + 1\<close> the \<open>queue\<close> that call \<open>k\<close> left. What the event loop does on its own (start a job whose promise
  has settled, settle the promise behind a finished job) is kept apart from the end of a job, which
  is not in its hands: a job awaits \<open>tx.wait()\<close>, which has no timeout, and may never end. What is
  derived: at most one job runs, jobs run in the order of the calls, a failed job does not stop the next,
  the queue waits for nothing but the job that runs, and for that one it waits for ever.
\<close>

section \<open>Promises and steps\<close>

datatype run_status = Waiting | Running | Settled bool

record 'j job =
  job_fn :: 'j
  waits_on :: nat
  status :: run_status
  tail_settled :: bool

record 'j send_queue =
  jobs :: "'j job list"
  queue :: nat

definition empty_queue :: "'j send_queue" where
  "empty_queue = \<lparr>jobs = [], queue = 0\<rparr>"

definition serialize :: "'j \<Rightarrow> 'j send_queue \<Rightarrow> 'j send_queue" where
  "serialize fn s = s\<lparr>
     jobs := jobs s @ [\<lparr>job_fn = fn, waits_on = queue s, status = Waiting, tail_settled = False\<rparr>],
     queue := Suc (length (jobs s))\<rparr>"

definition queue_settled :: "'j send_queue \<Rightarrow> nat \<Rightarrow> bool" where
  "queue_settled s p = (case p of 0 \<Rightarrow> True | Suc k \<Rightarrow> k < length (jobs s) \<and> tail_settled (jobs s ! k))"

definition set_job :: "nat \<Rightarrow> 'j job \<Rightarrow> 'j send_queue \<Rightarrow> 'j send_queue" where
  "set_job i j s = s\<lparr>jobs := (jobs s)[i := j]\<rparr>"

text \<open>What the event loop does on its own: start a job, settle the promise behind a finished one.\<close>

inductive internal :: "'j send_queue \<Rightarrow> 'j send_queue \<Rightarrow> bool" where
  start: "i < length (jobs s) \<Longrightarrow> status (jobs s ! i) = Waiting \<Longrightarrow> queue_settled s (waits_on (jobs s ! i)) \<Longrightarrow>
    internal s (set_job i ((jobs s ! i)\<lparr>status := Running\<rparr>) s)"
| tail: "i < length (jobs s) \<Longrightarrow> status (jobs s ! i) = Settled ok \<Longrightarrow> \<not> tail_settled (jobs s ! i) \<Longrightarrow>
    internal s (set_job i ((jobs s ! i)\<lparr>tail_settled := True\<rparr>) s)"

text \<open>
  The end of a running job, with a value or an exception: when, and whether at all, is up to the chain.
\<close>

inductive job_ends :: "nat \<Rightarrow> bool \<Rightarrow> 'j send_queue \<Rightarrow> 'j send_queue \<Rightarrow> bool" where
  ends: "i < length (jobs s) \<Longrightarrow> status (jobs s ! i) = Running \<Longrightarrow>
    job_ends i ok s (set_job i ((jobs s ! i)\<lparr>status := Settled ok\<rparr>) s)"

inductive reachable :: "'j send_queue \<Rightarrow> bool" where
  init: "reachable empty_queue"
| call: "reachable s \<Longrightarrow> reachable (serialize fn s)"
| step: "reachable s \<Longrightarrow> internal s s' \<Longrightarrow> reachable s'"
| ended: "reachable s \<Longrightarrow> job_ends i ok s s' \<Longrightarrow> reachable s'"

text \<open>The states a program gets to from \<open>s\<close> while job \<open>r\<close> does not end, whatever else is called.\<close>

inductive while_running :: "nat \<Rightarrow> 'j send_queue \<Rightarrow> 'j send_queue \<Rightarrow> bool" for r s where
  here: "while_running r s s"
| called: "while_running r s t \<Longrightarrow> while_running r s (serialize fn t)"
| stepped: "while_running r s t \<Longrightarrow> internal t t' \<Longrightarrow> while_running r s t'"
| another: "while_running r s t \<Longrightarrow> job_ends i ok t t' \<Longrightarrow> i \<noteq> r \<Longrightarrow> while_running r s t'"

inductive_cases internalE: "internal s s'"
inductive_cases job_endsE: "job_ends i ok s s'"

section \<open>The invariant\<close>

definition chained :: "'j send_queue \<Rightarrow> bool" where
  "chained s = (queue s = length (jobs s) \<and>
     (\<forall>i < length (jobs s). waits_on (jobs s ! i) = i \<and>
        (tail_settled (jobs s ! i) \<longrightarrow> (\<exists>ok. status (jobs s ! i) = Settled ok)) \<and>
        (status (jobs s ! i) \<noteq> Waiting \<longrightarrow> queue_settled s i)))"

lemma jobs_set_job [simp]: "jobs (set_job i j s) = (jobs s)[i := j]" "queue (set_job i j s) = queue s"
  by (simp_all add: set_job_def)

lemma queue_settled_0 [simp]: "queue_settled s 0"
  by (simp add: queue_settled_def)

lemma queue_settled_Suc [simp]:
  "queue_settled s (Suc k) \<longleftrightarrow> k < length (jobs s) \<and> tail_settled (jobs s ! k)"
  by (simp add: queue_settled_def)

lemma chainedD:
  assumes "chained s" "i < length (jobs s)"
  shows "waits_on (jobs s ! i) = i"
    and "tail_settled (jobs s ! i) \<Longrightarrow> \<exists>ok. status (jobs s ! i) = Settled ok"
    and "status (jobs s ! i) \<noteq> Waiting \<Longrightarrow> queue_settled s i"
  using assms by (auto simp: chained_def)

lemma queue_settled_mono:
  assumes "\<And>k. k < length (jobs s) \<Longrightarrow> tail_settled (jobs s ! k) \<Longrightarrow> tail_settled (jobs s' ! k)"
    and "length (jobs s) \<le> length (jobs s')" "queue_settled s p"
  shows "queue_settled s' p"
  using assms by (cases p) auto

lemma chained_serialize:
  assumes c: "chained s"
  shows "chained (serialize fn s)"
  unfolding chained_def
proof (intro conjI allI impI)
  fix i assume i: "i < length (jobs (serialize fn s))"
  show "waits_on (jobs (serialize fn s) ! i) = i"
    using c i by (auto simp: serialize_def nth_append chained_def less_Suc_eq)
  show "\<exists>ok. status (jobs (serialize fn s) ! i) = Settled ok" if "tail_settled (jobs (serialize fn s) ! i)"
    using that i chainedD(2) [OF c] by (auto simp: serialize_def nth_append split: if_splits)
  show "queue_settled (serialize fn s) i" if "status (jobs (serialize fn s) ! i) \<noteq> Waiting"
  proof -
    have "i < length (jobs s)" "status (jobs s ! i) \<noteq> Waiting"
      using that i by (auto simp: serialize_def nth_append split: if_splits)
    from chainedD(3) [OF c this] show ?thesis
      by (rule queue_settled_mono [rotated 2]) (auto simp: serialize_def nth_append)
  qed
qed (simp add: serialize_def)

text \<open>One update of a job keeps the invariant when it keeps what the promises rely on.\<close>

lemma chained_set_job:
  assumes c: "chained s" and i: "i < length (jobs s)"
    and w: "waits_on j = waits_on (jobs s ! i)"
    and m: "tail_settled (jobs s ! i) \<Longrightarrow> tail_settled j"
    and t: "tail_settled j \<Longrightarrow> \<exists>ok. status j = Settled ok"
    and q: "status j \<noteq> Waiting \<Longrightarrow> queue_settled s i"
  shows "chained (set_job i j s)"
  unfolding chained_def
proof (intro conjI allI impI)
  have mono: "queue_settled s p \<Longrightarrow> queue_settled (set_job i j s) p" for p
    by (rule queue_settled_mono) (use m i in \<open>auto simp: nth_list_update\<close>)
  fix k assume k: "k < length (jobs (set_job i j s))"
  show "waits_on (jobs (set_job i j s) ! k) = k"
    using c i k w by (auto simp: nth_list_update chained_def)
  show "\<exists>ok. status (jobs (set_job i j s) ! k) = Settled ok" if "tail_settled (jobs (set_job i j s) ! k)"
    using that k t chainedD(2) [OF c] i by (auto simp: nth_list_update split: if_splits)
  show "queue_settled (set_job i j s) k" if "status (jobs (set_job i j s) ! k) \<noteq> Waiting"
    using that k q chainedD(3) [OF c] i mono by (auto simp: nth_list_update split: if_splits)
qed (use c in \<open>simp add: chained_def\<close>)

lemma chained_internal: "chained s \<Longrightarrow> internal s s' \<Longrightarrow> chained s'"
proof (elim internalE)
  fix i assume c: "chained s" and i: "i < length (jobs s)" "status (jobs s ! i) = Waiting"
    and q: "queue_settled s (waits_on (jobs s ! i))" and s': "s' = set_job i ((jobs s ! i)\<lparr>status := Running\<rparr>) s"
  show "chained s'" unfolding s'
    by (rule chained_set_job [OF c i(1)]) (use i q chainedD [OF c i(1)] in auto)
next
  fix i ok assume c: "chained s" and i: "i < length (jobs s)" "status (jobs s ! i) = Settled ok"
    and s': "s' = set_job i ((jobs s ! i)\<lparr>tail_settled := True\<rparr>) s"
  show "chained s'" unfolding s'
    by (rule chained_set_job [OF c i(1)]) (use i chainedD [OF c i(1)] in auto)
qed

lemma chained_job_ends: "chained s \<Longrightarrow> job_ends i ok s s' \<Longrightarrow> chained s'"
proof (elim job_endsE)
  assume c: "chained s" and i: "i < length (jobs s)" "status (jobs s ! i) = Running"
    and s': "s' = set_job i ((jobs s ! i)\<lparr>status := Settled ok\<rparr>) s"
  show "chained s'" unfolding s'
    by (rule chained_set_job [OF c i(1)]) (use i chainedD [OF c i(1)] in auto)
qed

lemma reachable_chained: "reachable s \<Longrightarrow> chained s"
proof (induction rule: reachable.induct)
  case init
  show ?case by (simp add: chained_def empty_queue_def)
qed (auto intro: chained_serialize chained_internal chained_job_ends)

section \<open>Order, exclusion and progress\<close>

lemma chained_earlier_settled:
  assumes c: "chained s"
  shows "i < length (jobs s) \<Longrightarrow> status (jobs s ! i) \<noteq> Waiting \<Longrightarrow> k < i \<Longrightarrow>
    \<exists>ok. status (jobs s ! k) = Settled ok"
proof (induction i)
  case (Suc i)
  from chainedD(3) [OF c Suc.prems(1,2)] have t: "i < length (jobs s)" "tail_settled (jobs s ! i)" by auto
  from chainedD(2) [OF c t] obtain ok where i: "status (jobs s ! i) = Settled ok" by blast
  show ?case
  proof (cases "k = i")
    case False
    with Suc.prems(3) Suc.IH [OF t(1)] i show ?thesis by simp
  qed (use i in blast)
qed simp

text \<open>The steps a job still needs.\<close>

definition job_work :: "'j job \<Rightarrow> nat" where
  "job_work j = (case status j of Waiting \<Rightarrow> 3 | Running \<Rightarrow> 2 | Settled _ \<Rightarrow> if tail_settled j then 0 else 1)"

definition queue_work :: "'j send_queue \<Rightarrow> nat" where
  "queue_work s = sum_list (map job_work (jobs s))"

lemma sum_list_update_less:
  "i < length xs \<Longrightarrow> f y < f (xs ! i) \<Longrightarrow> sum_list (map f (xs[i := y])) < (sum_list (map f xs) :: nat)"
proof (induction xs arbitrary: i)
  case (Cons x xs)
  then show ?case by (cases i) auto
qed simp

lemma internal_work_less: "internal s s' \<Longrightarrow> queue_work s' < queue_work s"
  by (elim internalE) (auto simp: queue_work_def job_work_def intro!: sum_list_update_less)

lemma job_ends_work_less: "chained s \<Longrightarrow> job_ends i ok s s' \<Longrightarrow> queue_work s' < queue_work s"
  by (elim job_endsE) (auto simp: queue_work_def job_work_def intro!: sum_list_update_less)

text \<open>When the loop has nothing left to do, an unsettled job has a running one before it, or is it.\<close>

lemma chained_idle:
  assumes c: "chained s" and idle: "\<nexists>s'. internal s s'"
    and "i < length (jobs s)" "\<nexists>ok. status (jobs s ! i) = Settled ok"
  shows "\<exists>r \<le> i. status (jobs s ! r) = Running"
  using assms(3,4)
proof (induction i)
  case 0
  have "status (jobs s ! 0) \<noteq> Waiting"
  proof
    assume "status (jobs s ! 0) = Waiting"
    with idle 0 chainedD(1) [OF c] internal.start [of 0 s] show False by auto
  qed
  with 0 show ?case by (cases "status (jobs s ! 0)") auto
next
  case (Suc i)
  show ?case
  proof (cases "\<exists>ok. status (jobs s ! i) = Settled ok")
    case True
    then have "tail_settled (jobs s ! i)" using idle Suc.prems internal.tail [of i s] by auto
    then have "queue_settled s (waits_on (jobs s ! Suc i))"
      using chainedD(1) [OF c Suc.prems(1)] Suc.prems(1) by simp
    with idle Suc.prems internal.start [of "Suc i" s] have "status (jobs s ! Suc i) \<noteq> Waiting" by auto
    with Suc.prems show ?thesis by (cases "status (jobs s ! Suc i)") auto
  next
    case False
    with Suc obtain r where "r \<le> i" "status (jobs s ! r) = Running" by auto
    then show ?thesis using le_SucI by blast
  qed
qed

lemma chained_later_waiting:
  assumes c: "chained s" and "k < length (jobs s)" "r < k" "status (jobs s ! r) = Running"
  shows "status (jobs s ! k) = Waiting"
  using chained_earlier_settled [OF c assms(2) _ assms(3)] assms(4) by auto

text \<open>As soon as the running job has ended, with either result, the loop starts the next one.\<close>

lemma chained_next_starts:
  assumes c: "chained s" and r: "Suc r < length (jobs s)" and e: "job_ends r ok s s'"
  shows "\<exists>s1 s2. internal s' s1 \<and> internal s1 s2 \<and> status (jobs s2 ! Suc r) = Running"
proof -
  from e have run: "status (jobs s ! r) = Running" and s': "s' = set_job r ((jobs s ! r)\<lparr>status := Settled ok\<rparr>) s"
    by (auto elim: job_endsE)
  have nt: "\<not> tail_settled (jobs s ! r)" using chainedD(2) [OF c, of r] run r by auto
  define s1 where "s1 = set_job r ((jobs s' ! r)\<lparr>tail_settled := True\<rparr>) s'"
  have 1: "internal s' s1"
    unfolding s1_def by (rule internal.tail) (use r nt in \<open>auto simp: s'\<close>)
  have "status (jobs s1 ! Suc r) = Waiting"
    using chained_later_waiting [OF c r _ run] r by (simp add: s1_def s')
  moreover have "queue_settled s1 (waits_on (jobs s1 ! Suc r))"
    using chainedD(1) [OF c r] r by (simp add: s1_def s')
  ultimately have 2: "internal s1 (set_job (Suc r) ((jobs s1 ! Suc r)\<lparr>status := Running\<rparr>) s1)"
    by (intro internal.start) (use r in \<open>simp_all add: s1_def s'\<close>)
  have "status (jobs (set_job (Suc r) ((jobs s1 ! Suc r)\<lparr>status := Running\<rparr>) s1) ! Suc r) = Running"
    using r by (simp add: s1_def s')
  with 1 2 show ?thesis by blast
qed

text \<open>
  The other side of this: while job \<open>r\<close> runs, nothing that is called or done starts a later job. The
  jobs of chain.js await a receipt without a timeout, so a transaction that is never mined (underpriced
  or dropped) holds up every later grant and revocation until the service is restarted.
\<close>

lemma hung_job_blocks:
  assumes "reachable s" "r < length (jobs s)" "status (jobs s ! r) = Running" "while_running r s t"
  shows "reachable t" "r < length (jobs t)" "status (jobs t ! r) = Running"
    "\<forall>k < length (jobs t). r < k \<longrightarrow> status (jobs t ! k) = Waiting"
proof -
  have *: "reachable t \<and> r < length (jobs t) \<and> status (jobs t ! r) = Running"
    using assms(4)
  proof (induction rule: while_running.induct)
    case (called t fn)
    then have "reachable (serialize fn t)" by (blast intro: reachable.call)
    with called show ?case by (simp add: serialize_def nth_append)
  next
    case (stepped t t')
    then have "reachable t'" by (blast intro: reachable.step)
    with stepped show ?case by (auto elim!: internalE simp: nth_list_update)
  next
    case (another t i ok t')
    then have "reachable t'" by (blast intro: reachable.ended)
    with another show ?case by (auto elim!: job_endsE simp: nth_list_update)
  qed (use assms in simp)
  then show "reachable t" "r < length (jobs t)" "status (jobs t ! r) = Running" by auto
  with chained_later_waiting [OF reachable_chained]
  show "\<forall>k < length (jobs t). r < k \<longrightarrow> status (jobs t ! k) = Waiting" by blast
qed

end
