(* ===== verification/Access_Properties.thy ===== *)
theory Access_Properties
  imports Access_Api Send_Queue
begin

text \<open>
  What the access-control service promises, on the whole API: tenants are isolated, the pool is
  never held during a send, errors stay opaque, an erasure cannot be blocked by the chain, and what
  the outbox does and does not retry. The concrete worlds at the top are for the witnesses.
\<close>

section \<open>Concrete worlds\<close>

definition demo_tenant :: string where
  "demo_tenant = ''11111111-1111-1111-1111-11111111111A''"

definition demo_other :: string where
  "demo_other = ''22222222-2222-2222-2222-222222222222''"

definition demo_employee :: string where
  "demo_employee = ''33333333-3333-3333-3333-333333333333''"

definition demo_wallet :: string where
  "demo_wallet = ''0x'' @ replicate 40 CHR ''7''"

definition demo_platform :: platform where
  "demo_platform = \<lparr>new_uuid = (\<lambda>n. replicate n CHR ''u''), tx_hash = (\<lambda>n. ''0xhash''),
     pg_message = (\<lambda>e. ''pg''), revert_message = (\<lambda>r. ''execution reverted''),
     encode_call = (\<lambda>a z. if z \<le> 9007199254740991 then Inr (to_lower a, z) else Inl ''overflow''),
     issuer = ''issuer'', error_id = (\<lambda>n. ''abcd1234'')\<rparr>"

definition demo_db :: db where
  "demo_db = \<lparr>tenants = [to_lower demo_tenant, demo_other],
     employees = [\<lparr>emp_id = demo_employee, emp_tenant = to_lower demo_tenant, emp_full_name = ''Ana'',
       emp_email = None, emp_wallet = demo_wallet, emp_created = 1\<rparr>],
     capabilities = [\<lparr>cap_id = ''c'', cap_tenant = to_lower demo_tenant, cap_employee = demo_employee,
       cap_zone = 7, cap_grant_tx = ''0x1'', cap_revoked = None, cap_created = 2\<rparr>],
     access_logs = [], outbox = [], log_seq = 0\<rparr>"

definition demo_nft :: nft where
  "demo_nft = set_balance demo_wallet 7 1 \<lparr>balance = (\<lambda>_ _. 0), issuer_role = [''issuer''], refuses = (\<lambda>_. False)\<rparr>"

definition demo_world :: "fault list \<Rightarrow> fault list \<Rightarrow> world" where
  "demo_world fs cs = \<lparr>committed = demo_db, session = None, nft = demo_nft, clients_out = 0, held_at_send = [],
     clock = 5, drawn = 1, schedule = fs, chain_schedule = cs\<rparr>"

definition demo_keys :: "(string, string) jsmap" where
  "demo_keys = [(''key-a'', demo_tenant), (''key-b'', demo_other)]"

definition demo_request :: "string \<Rightarrow> route \<Rightarrow> (string \<times> jsval) list \<Rightarrow> request" where
  "demo_request key r body = \<lparr>req_route = r,
     req_headers = (\<lambda>h. if h = ''x-api-key'' then Some key else None), req_body = Inr (JObj body)\<rparr>"

lemmas demo_defs = demo_tenant_def demo_other_def demo_employee_def demo_wallet_def demo_platform_def
  demo_db_def demo_nft_def demo_world_def demo_keys_def demo_request_def

lemma demo_wallet_nonzero: "demo_wallet \<noteq> zero_address"
  by code_simp

lemma demo_repo_ok: "repo_ok (demo_world fs cs)"
  using demo_wallet_nonzero
  by (auto simp: repo_ok_def demo_world_def demo_nft_def demo_db_def nft_ok_def db_ok_def same_tenant_def
      employee_ids_def)

lemma demo_valid: "is_uuid demo_tenant" "is_uuid demo_employee" "pg_text_ok demo_wallet"
  by (code_simp, code_simp, code_simp)

lemma demo_clean: "clean_platform demo_platform"
  by (auto simp: clean_platform_def demo_platform_def inj_def pg_text_ok_def replicate_eq_replicate split: if_splits)

lemma demo_db_up: "list_all clean_fault cs \<Longrightarrow> db_up demo_platform demo_tenant (demo_world [] cs)"
  using demo_repo_ok [of "[]" cs] demo_valid demo_clean
  by (simp add: db_up_def demo_world_def demo_db_def stored_ok_def fresh_ids_def pg_bigint_ok_def)

section \<open>Isolation and errors\<close>

text \<open>
  C1. Tenants are isolated: whatever a request contains and whatever fails while it runs, the rows of
  every tenant other than the one its API key stands for stay as they were.
\<close>

theorem tenant_isolation:
  assumes "repo_ok w" and "handle P apiKeys req w = (res, v)"
    and "\<forall>s. apiKeyAuth apiKeys (req_headers req) = Some s \<longrightarrow> to_lower s \<noteq> t"
  shows "rows_of t (committed v) = rows_of t (committed w)"
  using handle_step [OF assms(2)] assms(1,3) by (auto simp: tenant_step_def safe_step_def repo_ok_def)

theorem tenant_isolation_witness:
  "rows_of demo_other (committed (snd (handle demo_platform demo_keys
      (demo_request ''key-a'' (DeleteEmployee demo_employee) []) (demo_world [] [LostBefore ''timeout''])))) =
   rows_of demo_other (committed (demo_world [] []))"
proof -
  have "apiKeyAuth demo_keys (req_headers (demo_request ''key-a'' (DeleteEmployee demo_employee) [])) = Some demo_tenant"
    "to_lower demo_tenant \<noteq> demo_other"
    by (code_simp, code_simp)
  then have "\<forall>s. apiKeyAuth demo_keys (req_headers (demo_request ''key-a'' (DeleteEmployee demo_employee) [])) = Some s
      \<longrightarrow> to_lower s \<noteq> demo_other"
    by simp
  from tenant_isolation [OF demo_repo_ok prod.collapse [symmetric] this, of demo_platform "[]" "[LostBefore ''timeout'']"]
  show ?thesis by (simp add: demo_world_def)
qed

text \<open>
  C5. Every request keeps the constraints of the schema and the ownership of rows (no capability or
  log entry points to an employee of another tenant, which the schema alone does not ensure), ends
  its transaction, and leaves the balances of the contract at most one.
\<close>

theorem handle_keeps_world:
  assumes "repo_ok w" "handle P apiKeys req w = (res, v)"
  shows "session v = None \<and> nft_ok (nft v) \<and> db_ok (committed v) \<and> same_tenant (committed v)"
  using handle_step [OF assms(2)] assms(1) by (auto simp: tenant_step_def repo_ok_def)

theorem handle_keeps_world_witness:
  "db_ok (committed (snd (handle demo_platform demo_keys (demo_request ''key-b'' PostCapabilities
     [(''employee_id'', JStr demo_employee), (''zone'', JNum (Fin 3))]) (demo_world [LostAfter ''x''] []))))"
  using handle_keeps_world [OF demo_repo_ok prod.collapse [symmetric]] by blast

text \<open>
  C14. No database client is held while a transaction waits for the chain, and none is leaked: a
  request that starts with an idle pool makes every send with no client out and ends with an idle pool.
\<close>

theorem no_client_held_during_send:
  assumes "repo_ok w" "clients_out w = 0" "handle P apiKeys req w = (res, v)"
  shows "clients_out v = 0 \<and> (\<exists>n. held_at_send v = held_at_send w @ replicate n 0)"
  using handle_step [OF assms(3)] assms(1,2)
  by (auto simp: tenant_step_def intro: exI [of _ 0])

theorem no_client_held_during_send_witness:
  "clients_out (snd (handle demo_platform demo_keys (demo_request ''key-a'' (DeleteEmployee demo_employee) [])
     (demo_world [Fine, Fine, LostBefore ''gone''] []))) = 0"
  using no_client_held_during_send [OF demo_repo_ok _ prod.collapse [symmetric]] by (simp add: demo_world_def)

text \<open>
  Authentication fails closed and looks at the API key alone: without a configured key the answer
  is 401 and nothing changes, and the header x-tenant-id makes no difference to any request.
\<close>

theorem auth_fails_closed:
  "(req_body req = Inr body \<longrightarrow> map_of apiKeys (presented_key (req_headers req)) = None \<longrightarrow>
      handle P apiKeys req w = (unauthorized, w)) \<and>
   handle P apiKeys (req\<lparr>req_headers := (req_headers req)(''x-tenant-id'' := v)\<rparr>) w = handle P apiKeys req w"
proof -
  have "apiKeyAuth apiKeys ((req_headers req)(''x-tenant-id'' := v)) = apiKeyAuth apiKeys (req_headers req)"
    by (rule apiKeyAuth_only) simp_all
  then have "handle P apiKeys (req\<lparr>req_headers := (req_headers req)(''x-tenant-id'' := v)\<rparr>) w = handle P apiKeys req w"
    by (cases "req_body req"; cases "apiKeyAuth apiKeys (req_headers req)") (simp_all add: handle_def)
  moreover have "apiKeyAuth apiKeys (req_headers req) = None"
    if "map_of apiKeys (presented_key (req_headers req)) = None"
    using that by (simp add: apiKeyAuth_def Let_def)
  ultimately show ?thesis by (simp add: handle_def)
qed

theorem auth_fails_closed_witness:
  "fst (handle demo_platform demo_keys (demo_request ''key-z'' PostEmployees []) (demo_world [] [])) = unauthorized"
proof -
  let ?req = "demo_request ''key-z'' PostEmployees []"
  have "req_body ?req = Inr (JObj [])" "map_of demo_keys (presented_key (req_headers ?req)) = None"
    by (simp add: demo_request_def, code_simp)
  with auth_fails_closed [of ?req "JObj []" demo_keys demo_platform "demo_world [] []" None]
  show ?thesis by simp
qed

text \<open>
  Internal errors are opaque: a response with a status of 500 or more is the fixed InternalError
  object, whatever PostgreSQL, ethers or the network reported; two failures differ in the id alone.
\<close>

theorem server_errors_opaque:
  assumes "handle P apiKeys req w = (res, v)" "500 \<le> res_status res"
  shows "\<exists>i. res = respond (res_status res) [(''error'', JStr ''InternalError''),
    (''message'', JStr ''internal error''), (''id'', JStr i)]"
proof -
  have err: "500 \<le> res_status (error_response P u e) \<Longrightarrow> \<exists>i. error_response P u e =
      respond (res_status (error_response P u e)) [(''error'', JStr ''InternalError''),
        (''message'', JStr ''internal error''), (''id'', JStr i)]" for u e
    by (auto simp: error_response_def respond_def Let_def split: option.splits if_splits)
  have logs: "res_status r < 500" if "post_access_logs P t body w = (Inr r, v)" for t body r
    using that by (cases "body_field body ''granted''") (auto simp: post_access_logs_def respond_def act_bind_Inr)
  have ok: "res_status r < 500" if "dispatch P t rt body w = (Inr r, v)" for t rt body r
    using that logs
    by (cases rt)
      (auto simp: dispatch_def post_employees_def post_capabilities_def capability_write_def
        get_access_def delete_employee_def respond_def act_bind_Inr)
  show ?thesis
    using assms err ok unfolding handle_def
    by (auto simp: unauthorized_def respond_def split: sum.splits option.splits prod.splits) fastforce+
qed

theorem server_errors_opaque_witness:
  "\<exists>i. fst (handle demo_platform demo_keys (demo_request ''key-a'' (DeleteEmployee demo_employee) [])
     (demo_world [LostBefore ''postgres://user:secret@db''] [])) =
    respond 500 [(''error'', JStr ''InternalError''), (''message'', JStr ''internal error''), (''id'', JStr i)]"
proof -
  let ?h = "handle demo_platform demo_keys (demo_request ''key-a'' (DeleteEmployee demo_employee) [])
     (demo_world [LostBefore ''postgres://user:secret@db''] [])"
  have "res_status (fst ?h) = 500" by code_simp
  then show ?thesis
    using server_errors_opaque [OF prod.collapse [symmetric], of demo_platform demo_keys
      "demo_request ''key-a'' (DeleteEmployee demo_employee) []" "demo_world [LostBefore ''postgres://user:secret@db''] []"]
    by simp
qed

section \<open>Erasure\<close>



text \<open>
  C36. An erasure that succeeds leaves nothing that points to the person, also when the database fails
  at any later point: no employee row, no capability row and no log entry of the tenant refers to the
  id, and each capability that the answer reports as revoked is not held on chain.
\<close>

theorem erasure_leaves_no_reference:
  assumes "repo_ok w" "erase_as P s i w = (Inr r, v)"
  shows "\<not> owns (to_lower s) (to_lower i) (committed v) \<and>
    (\<forall>c \<in> set (capabilities (committed v)). cap_tenant c = to_lower s \<longrightarrow> cap_employee c \<noteq> to_lower i) \<and>
    (\<forall>l \<in> set (access_logs (committed v)). log_tenant l = to_lower s \<longrightarrow> log_employee l \<noteq> Some (to_lower i)) \<and>
    (let caps = active_caps (to_lower s) (to_lower i) (committed w) in
     length (er_revoked r) = length caps \<and>
     (\<forall>k < length caps. revocation_ok (er_revoked r ! k) \<longrightarrow> \<not> token_held P v (snd (caps ! k)) (fst (caps ! k))))"
proof -
  note res = repo.erase_result [OF assms(1) assms(2) [unfolded erase_as_def]]
  have gone: "\<not> owns (to_lower s) (to_lower i) (committed v)" and ok: "repo_ok v" by fact+
  have st: "same_tenant (committed v)" and d: "db_ok (committed v)" using ok by (simp_all add: repo_ok_def)
  have "cap_employee c \<noteq> to_lower i" if c: "c \<in> set (capabilities (committed v))" "cap_tenant c = to_lower s" for c
  proof
    assume i: "cap_employee c = to_lower i"
    then obtain e where "e \<in> set (employees (committed v))" "emp_id e = to_lower i"
      using d c by (auto simp: db_ok_def employee_ids_def)
    with same_tenantD(1) [OF st, of e c] c i gone show False by (auto simp: owns_def)
  qed
  moreover have "log_employee l \<noteq> Some (to_lower i)" if l: "l \<in> set (access_logs (committed v))" "log_tenant l = to_lower s" for l
  proof
    assume i: "log_employee l = Some (to_lower i)"
    then obtain e where "e \<in> set (employees (committed v))" "emp_id e = to_lower i"
      using d l by (fastforce simp: db_ok_def employee_ids_def option.pred_set)
    with same_tenantD(2) [OF st, of e l] l i gone show False by (auto simp: owns_def)
  qed
  ultimately show ?thesis using gone res(4,5) by (auto simp: Let_def)
qed

theorem erasure_leaves_no_reference_witness:
  "\<not> owns (to_lower demo_tenant) (to_lower demo_employee)
     (committed (snd (erase_as demo_platform demo_tenant demo_employee (demo_world [] [LostAfter ''x'']))))"
proof -
  let ?e = "erase_as demo_platform demo_tenant demo_employee (demo_world [] [LostAfter ''x''])"
  have "fst ?e = Inr \<lparr>er_employeeId = demo_employee, er_revoked = [NotRevoked 7 demo_wallet ''x''], er_deleted = True\<rparr>"
    by code_simp
  then have "?e = (Inr \<lparr>er_employeeId = demo_employee, er_revoked = [NotRevoked 7 demo_wallet ''x''], er_deleted = True\<rparr>, snd ?e)"
    by (simp add: prod_eq_iff)
  from erasure_leaves_no_reference [OF demo_repo_ok this] show ?thesis by blast
qed

text \<open>
  A token can outlive the erasure of its holder without a trace: when the mint of POST
  /capabilities is mined and the write after it fails, the answer is 500, no capability row exists, and
  a later erasure of the employee, with nothing failing, neither revokes the token nor queues it.
\<close>

theorem orphan_capability_survives_erasure:
  "\<exists>faults. let
      w0 = demo_world faults [];
      (r1, w1) = handle demo_platform demo_keys (demo_request ''key-a'' PostCapabilities
        [(''employee_id'', JStr demo_employee), (''zone'', JNum (Fin 9))]) w0;
      (r2, w2) = handle demo_platform demo_keys (demo_request ''key-a'' (DeleteEmployee demo_employee) []) w1
    in res_status r1 = 500 \<and> res_status r2 = 200 \<and> schedule w1 = [] \<and> chain_schedule w1 = [] \<and>
       token_held demo_platform w2 demo_wallet 9 \<and> \<not> queued demo_tenant w2 demo_wallet 9 \<and>
       employees (committed w2) = []"
  by (rule exI [of _ "[Fine, Fine, Fine, Fine, Fine, LostBefore ''connection refused'']"]) code_simp

section \<open>The outbox\<close>

text \<open>
  A pass of the outbox worker that gets through to the chain leaves none of the listed
  capabilities held, never grants one, and counts each row once.
\<close>

theorem outbox_pass_revokes:
  assumes "repo_ok w" "chain_schedule w = []" "issuer P \<in> set (issuer_role (nft w))"
    and run: "processOutboxFor P s limit w = (Inr r, v)"
  shows "(\<forall>(i, a, z) \<in> set (take limit (pending_rows s (committed w))). \<not> token_held P v a z) \<and>
    (\<forall>a z. token_held P v a z \<longrightarrow> token_held P w a z) \<and> or_ok r + or_failed r = or_total r"
proof -
  obtain rows w1 where l: "tenantRepo P s (\<lambda>_ _. listPendingRevocations limit) w = (Inr rows, w1)"
    using run by (auto simp: processOutboxFor_def act_bind_Inr)
  have read: "d = committed w" if "listPendingRevocations limit (Some s) (committed w) = Inr (x, d)" for x d
    using reads_keep_db(4) [OF that] .
  have out: "repo_ok w1" "tx_outcome P s (\<lambda>_ _. listPendingRevocations limit) w (Inr rows) w1"
    by (rule repo_ok_tx [OF assms(1) l], drule read, simp)+
  have rows: "rows = take limit (pending_rows s (committed w))" "nft w1 = nft w" "chain_schedule w1 = []"
    using out(2) assms(2) by (auto simp: tx_outcome_def tx_effect_def same_outside_def listPendingRevocations_Inr)
  obtain c where c: "retry_rows P s rows (0, 0) w1 = (c, v)"
    and r: "r = \<lparr>or_ok = fst c, or_failed = snd c, or_total = length rows\<rparr>"
    using run l by (auto simp: processOutboxFor_def split: prod.splits)
  have "issuer P \<in> set (issuer_role (nft w1))" using assms(3) rows by simp
  from retry_rows_revoke [OF out(1) rows(3) this c] show ?thesis
    using rows token_held_nft [of w1 w P] by (simp add: r)
qed

definition demo_outbox_world :: "string \<Rightarrow> world" where
  "demo_outbox_world wallet = (demo_world [] [])\<lparr>committed := demo_db\<lparr>outbox :=
     [\<lparr>ob_id = demo_other, ob_tenant = to_lower demo_tenant, ob_wallet = wallet, ob_zone = 7,
       ob_reason = None, ob_created = 3, ob_retried = None\<rparr>]\<rparr>\<rparr>"

theorem outbox_pass_revokes_witness:
  "\<not> token_held demo_platform (snd (processOutboxFor demo_platform demo_tenant 100 (demo_outbox_world demo_wallet))) demo_wallet 7"
proof -
  let ?w = "demo_outbox_world demo_wallet"
  let ?e = "processOutboxFor demo_platform demo_tenant 100 ?w"
  have ok: "repo_ok ?w" using demo_repo_ok [of "[]" "[]"]
    by (simp add: repo_ok_def demo_outbox_world_def demo_world_def db_ok_def same_tenant_def employee_ids_def)
  have "fst ?e = Inr \<lparr>or_ok = 1, or_failed = 0, or_total = 1\<rparr>" by code_simp
  then have run: "?e = (Inr \<lparr>or_ok = 1, or_failed = 0, or_total = 1\<rparr>, snd ?e)" by (simp add: prod_eq_iff)
  have c: "chain_schedule ?w = []" "issuer demo_platform \<in> set (issuer_role (nft ?w))" by (code_simp, code_simp)
  have "take 100 (pending_rows demo_tenant (committed ?w)) = [(demo_other, demo_wallet, 7)]" by code_simp
  with outbox_pass_revokes [OF ok c run] show ?thesis by simp
qed

text \<open>
  C40. The outbox starves behind rows that cannot succeed: a row whose capability is no longer held
  (the revoke was mined and its answer lost, or the token was revoked by other means) fails at every
  retry and is never marked, so when the oldest \<open>limit\<close> rows of a tenant are such rows, no number of
  passes changes anything, and the rows behind them are never tried.
\<close>

theorem outbox_starves:
  assumes "schedule w = []" "chain_schedule w = []" "session w = None" "is_uuid s"
    and "list_all (dead_row P w) (take limit (pending_rows s (committed w)))"
  shows "committed (((\<lambda>u. snd (processOutboxFor P s limit u)) ^^ n) w) = committed w \<and>
    nft (((\<lambda>u. snd (processOutboxFor P s limit u)) ^^ n) w) = nft w"
proof -
  let ?pass = "\<lambda>u. snd (processOutboxFor P s limit u)"
  have "logged w ((?pass ^^ n) w)"
  proof (induction n)
    case (Suc n)
    let ?u = "(?pass ^^ n) w"
    have "list_all (dead_row P ?u) (take limit (pending_rows s (committed ?u)))"
      using assms(5) Suc dead_row_nft [of ?u w P] by (simp add: logged_def)
    then obtain v where "processOutboxFor P s limit ?u = (Inr \<lparr>or_ok = 0,
        or_failed = length (take limit (pending_rows s (committed ?u))),
        or_total = length (take limit (pending_rows s (committed ?u)))\<rparr>, v)" "logged ?u v"
      using process_dead [of ?u s P limit] assms(1-4) Suc by (auto simp: logged_def)
    then show ?case using logged_trans [OF Suc] by simp
  qed (simp add: logged_def)
  then show ?thesis by (simp add: logged_def)
qed

theorem outbox_starves_witness:
  "committed (((\<lambda>u. snd (processOutboxFor demo_platform demo_tenant 1 u)) ^^ 1000)
     (demo_outbox_world ''0xother'')) = committed (demo_outbox_world ''0xother'')"
proof -
  let ?w = "demo_outbox_world ''0xother''"
  have "schedule ?w = []" "chain_schedule ?w = []" "session ?w = None"
    by (simp_all add: demo_outbox_world_def demo_world_def)
  moreover have "list_all (dead_row demo_platform ?w) (take 1 (pending_rows demo_tenant (committed ?w)))"
    by code_simp
  ultimately show ?thesis using outbox_starves demo_valid(1) by blast
qed

section \<open>Capabilities\<close>

text \<open>
  A capability that POST /capabilities reports as issued exists on both sides: a row of the
  caller's tenant for the employee and the zone, and the token held by the employee's wallet.
\<close>

theorem issued_capability_exists:
  assumes "repo_ok w" "post_capabilities P t body w = (Inr res, v)"
  shows "res_status res = 201 \<and> (\<exists>i z c e. body_field body ''employee_id'' = JStr i \<and>
    body_field body ''zone'' = json_int z \<and>
    c \<in> set (capabilities (committed v)) \<and> cap_tenant c = to_lower t \<and> cap_employee c = to_lower i \<and> cap_zone c = z \<and>
    e \<in> set (employees (committed v)) \<and> emp_id e = to_lower i \<and> emp_tenant e = to_lower t \<and>
    token_held P v (emp_wallet e) z)"
proof -
  obtain i z a w1 tx w2 where i: "body_field body ''employee_id'' = JStr i"
    and z: "body_field body ''zone'' = json_int z"
    and a: "capability_wallet P t i w = (Inr a, w1)" and g: "chain_grantAccess P a z w1 = (Inr tx, w2)"
    and wr: "capability_write P t i z tx w2 = (Inr res, v)"
    using assms(2)
    by (auto simp: post_capabilities_def act_bind_Inr check_results json_int_def)
  obtain u w0 where u: "tenantRepo P t (\<lambda>_ _. getEmployeeWallet i) w = (Inr (Some a), w0)" and w0: "w0 = w1"
    using a by (auto simp: capability_wallet_def act_bind_Inr split: option.splits if_splits)
  have s: "session w = None" and d: "db_ok (committed w)" using assms(1) by (simp_all add: repo_ok_def)
  note read = wallet_read_owns [OF assms(1) a]
  have "getEmployeeWallet i (Some t) (committed w) = Inr (Some a, committed w1)"
    using tenantRepo_outcome [OF s u] by (simp add: tx_outcome_def tx_effect_def w0)
  then obtain e where e: "e \<in> set (employees (committed w1))" "emp_id e = to_lower i" "emp_tenant e = to_lower t" "emp_wallet e = a"
    using d read(2) by (auto simp: getEmployeeWallet_Inr)
  note send = chain_send_cases(1,5) [OF g [unfolded chain_grantAccess_def]]
  have held: "token_held P w2 a z"
  proof -
    obtain h y where hy: "encode_call P a z = Inr (h, y)" "nft_grantAccess (issuer P) h y (nft w1) = Inr (nft w2)"
      using send(2) [OF refl] by (auto simp: encodes_def)
    then have "nft w2 = set_balance h y (balance (nft w1) h y + 1) (nft w1)"
      by (simp add: nft_grantAccess_def split: if_splits)
    then show ?thesis using hy(1) by (simp add: token_held_def nft_hasAccess_def)
  qed
  have w2: "session w2 = None" "committed w2 = committed w1"
    using send(1) read(1) by (auto simp: same_db_def repo_ok_def)
  obtain k where k: "tenantRepo P t (createCapability t i z tx) w2 = (Inr k, v)"
    and res: "res = respond 201 [(''id'', JStr k)]"
    using wr by (auto simp: capability_write_def act_bind_Inr)
  have out: "tx_outcome P t (createCapability t i z tx) w2 (Inr k) v" using tenantRepo_outcome [OF w2(1) k] .
  then obtain c where "c \<in> set (capabilities (committed v))" "cap_tenant c = to_lower t" "cap_employee c = to_lower i"
    "cap_zone c = z" "employees (committed v) = employees (committed w2)" "nft v = nft w2"
    by (fastforce simp: tx_outcome_def tx_effect_def createCapability_Inr same_outside_def)
  with e w2 held token_held_nft [of v w2 P] i z res show ?thesis by (auto simp: respond_def)
qed

theorem issued_capability_exists_witness:
  "\<exists>c. c \<in> set (capabilities (committed (snd (post_capabilities demo_platform demo_tenant
     (JObj [(''employee_id'', JStr demo_employee), (''zone'', JNum (Fin 9))]) (demo_world [] []))))) \<and>
     cap_tenant c = to_lower demo_tenant"
proof -
  let ?p = "post_capabilities demo_platform demo_tenant
     (JObj [(''employee_id'', JStr demo_employee), (''zone'', JNum (Fin 9))]) (demo_world [] [])"
  have "fst ?p = Inr (respond 201 [(''id'', JStr ''uuu'')])" by code_simp
  then have "?p = (Inr (respond 201 [(''id'', JStr ''uuu'')]), snd ?p)" by (simp add: prod_eq_iff)
  from issued_capability_exists [OF demo_repo_ok this] show ?thesis by blast
qed

text \<open>
  C12. The zone of GET /access/:wallet/:zone goes through \<open>Number\<close>, so a segment of white space asks
  about zone 0: the answer is that of zone 0 instead of a validation error.
\<close>

theorem blank_zone_is_zone_zero:
  assumes "list_all is_ws z"
  shows "get_access P a z w = get_access P a ''0'' w"
proof -
  have "string_to_number z = Fin 0" using assms by (simp add: string_to_number_def trim_eq_Nil [THEN iffD2])
  moreover have "string_to_number ''0'' = Fin 0" by code_simp
  ultimately show ?thesis by (simp add: get_access_def)
qed

theorem blank_zone_is_zone_zero_witness:
  "fst (get_access demo_platform demo_wallet '' '' (demo_world [] [])) = Inr (respond 200
     [(''wallet'', JStr demo_wallet), (''zone'', json_int 0), (''hasAccess'', JBool False)])"
proof -
  have "list_all is_ws '' ''" by code_simp
  then have "get_access demo_platform demo_wallet '' '' (demo_world [] []) =
      get_access demo_platform demo_wallet ''0'' (demo_world [] [])"
    by (rule blank_zone_is_zone_zero)
  moreover have "fst (get_access demo_platform demo_wallet ''0'' (demo_world [] [])) = Inr (respond 200
     [(''wallet'', JStr demo_wallet), (''zone'', json_int 0), (''hasAccess'', JBool False)])"
    by code_simp
  ultimately show ?thesis by simp
qed

section \<open>Keys and the send queue\<close>

text \<open>
  C40. A list of plain key-tenant pairs printed as \<open>key1:tenant1,key2:tenant2\<close> is parsed back: the map
  holds exactly these keys, the last pair of a key wins, and every key and tenant of any parsed list is
  non-empty and trimmed.
\<close>

theorem api_keys_parse_back:
  "(list_all plain_pair ps \<longrightarrow>
      map_of (parseApiKeys (Some (join_with CHR '','' (map print_pair ps)))) = map_of (rev ps)) \<and>
   (map_of (parseApiKeys raw) k = Some t \<longrightarrow> k \<noteq> [] \<and> t \<noteq> [] \<and> trim k = k \<and> trim t = t)"
  using parsed_keys_sound by (auto simp: fun_eq_iff parseApiKeys_pairs configured_pairs_print)

theorem api_keys_parse_back_witness:
  "map_of (parseApiKeys (Some ''k1:t1,k2:t2:x,k1:t3'')) ''k1'' = Some ''t3''"
proof -
  have "list_all plain_pair [(''k1'', ''t1''), (''k2'', ''t2:x''), (''k1'', ''t3'')]" by code_simp
  moreover have "join_with CHR '','' (map print_pair [(''k1'', ''t1''), (''k2'', ''t2:x''), (''k1'', ''t3'')]) =
      ''k1:t1,k2:t2:x,k1:t3''" by code_simp
  ultimately show ?thesis
    using api_keys_parse_back [of "[(''k1'', ''t1''), (''k2'', ''t2:x''), (''k1'', ''t3'')]" None "[]" "[]"] by simp
qed

text \<open>
  C15. The send queue runs one job at a time, in the order of the calls: when a job has started, every
  job called before it has settled, so no two jobs run at once and nonces are read one after the other.
\<close>

theorem queue_runs_in_order:
  assumes "reachable s" "i < length (jobs s)" "status (jobs s ! i) \<noteq> Waiting"
  shows "(\<forall>k < i. \<exists>ok. status (jobs s ! k) = Settled ok) \<and>
    (\<forall>k < length (jobs s). status (jobs s ! i) = Running \<longrightarrow> status (jobs s ! k) = Running \<longrightarrow> k = i)"
proof -
  note c = reachable_chained [OF assms(1)]
  have "k = i" if "k < length (jobs s)" "status (jobs s ! i) = Running" "status (jobs s ! k) = Running" for k
    using that chained_earlier_settled [OF c assms(2), of k] chained_earlier_settled [OF c that(1), of i]
    by (cases k i rule: linorder_cases) auto
  with chained_earlier_settled [OF c assms(2,3)] show ?thesis by auto
qed

theorem queue_runs_in_order_witness:
  "\<exists>s :: nat send_queue. reachable s \<and> length (jobs s) = 2 \<and>
    (\<forall>k < 2. status (jobs s ! k) = Running \<longrightarrow> k = 0)"
proof -
  let ?q = "serialize (2 :: nat) (serialize 1 empty_queue)"
  let ?s = "set_job 0 ((jobs ?q ! 0)\<lparr>status := Running\<rparr>) ?q"
  have q: "jobs ?q = [\<lparr>job_fn = 1, waits_on = 0, status = Waiting, tail_settled = False\<rparr>,
      \<lparr>job_fn = 2, waits_on = 1, status = Waiting, tail_settled = False\<rparr>]"
    by (simp add: serialize_def empty_queue_def)
  have "reachable ?q" by (intro reachable.intros)
  moreover have "internal ?q ?s" by (rule internal.start) (simp_all only: q, simp_all)
  ultimately have r: "reachable ?s" by (rule reachable.step)
  have "length (jobs ?s) = 2" "status (jobs ?s ! 0) = Running"
    by (simp_all add: serialize_def empty_queue_def)
  with r obtain s :: "nat send_queue" where s: "reachable s" "length (jobs s) = 2" "status (jobs s ! 0) = Running"
    by blast
  then have "\<forall>k < 2. status (jobs s ! k) = Running \<longrightarrow> k = 0"
    using queue_runs_in_order [OF s(1), of 0] by auto
  with s show ?thesis by blast
qed

text \<open>
  C16. The send queue waits for nothing but the job that runs: every step of the event loop uses up work
  that only a new call adds; when no step is left and some job has not settled, exactly one job runs,
  at or before it, all jobs before that one have settled and all after it wait; when it ends,
  with a value or an exception, the loop starts the job after it; and as long as it does not end
  (the receipt it awaits has no timeout) it goes on running and no later job starts, whatever is called.
\<close>

theorem queue_waits_for_running_job:
  assumes "reachable s" "i < length (jobs s)" "\<nexists>ok. status (jobs s ! i) = Settled ok" "\<nexists>s'. internal s s'"
  shows "\<exists>r \<le> i. status (jobs s ! r) = Running \<and>
    (\<forall>k < r. \<exists>ok. status (jobs s ! k) = Settled ok) \<and>
    (\<forall>k < length (jobs s). r < k \<longrightarrow> status (jobs s ! k) = Waiting) \<and>
    (\<forall>ok. \<exists>s'. job_ends r ok s s' \<and> (Suc r < length (jobs s) \<longrightarrow>
      (\<exists>s1 s2. internal s' s1 \<and> internal s1 s2 \<and> status (jobs s2 ! Suc r) = Running))) \<and>
    (\<forall>t. while_running r s t \<longrightarrow> status (jobs t ! r) = Running \<and>
      (\<forall>k < length (jobs t). r < k \<longrightarrow> status (jobs t ! k) = Waiting)) \<and>
    (\<forall>t t'. internal t t' \<longrightarrow> queue_work t' < queue_work t)"
proof -
  note c = reachable_chained [OF assms(1)]
  obtain r where r: "r \<le> i" "status (jobs s ! r) = Running" using chained_idle [OF c assms(4,2,3)] by blast
  then have l: "r < length (jobs s)" using assms(2) by simp
  have "\<exists>s'. job_ends r ok s s' \<and> (Suc r < length (jobs s) \<longrightarrow>
      (\<exists>s1 s2. internal s' s1 \<and> internal s1 s2 \<and> status (jobs s2 ! Suc r) = Running))" for ok
    using job_ends.ends [OF l r(2), of ok] chained_next_starts [OF c, of r ok] by blast
  moreover have "\<forall>k < r. \<exists>ok. status (jobs s ! k) = Settled ok"
    using chained_earlier_settled [OF c l] r(2) by simp
  ultimately show ?thesis
    using r chained_later_waiting [OF c _ _ r(2)] hung_job_blocks(3,4) [OF assms(1) l r(2)] internal_work_less
    by blast
qed

theorem queue_waits_for_running_job_witness:
  "\<exists>s :: nat send_queue. reachable s \<and> length (jobs s) = 2 \<and> (\<nexists>s'. internal s s') \<and> status (jobs s ! 0) = Running \<and>
    (\<exists>s' s1 s2. job_ends 0 False s s' \<and> internal s' s1 \<and> internal s1 s2 \<and> status (jobs s2 ! 1) = Running)"
proof -
  let ?q = "serialize (2 :: nat) (serialize 1 empty_queue)"
  define s where "s = set_job 0 ((jobs ?q ! 0)\<lparr>status := Running\<rparr>) ?q"
  have q: "jobs ?q = [\<lparr>job_fn = 1, waits_on = 0, status = Waiting, tail_settled = False\<rparr>,
      \<lparr>job_fn = 2, waits_on = 1, status = Waiting, tail_settled = False\<rparr>]"
    by (simp add: serialize_def empty_queue_def)
  have s: "jobs s = [\<lparr>job_fn = 1, waits_on = 0, status = Running, tail_settled = False\<rparr>,
      \<lparr>job_fn = 2, waits_on = 1, status = Waiting, tail_settled = False\<rparr>]"
    unfolding s_def jobs_set_job q by simp
  have "reachable ?q" by (intro reachable.intros)
  moreover have "internal ?q s" unfolding s_def by (rule internal.start) (simp_all only: q, simp_all)
  ultimately have r: "reachable s" by (rule reachable.step)
  have idle: "\<nexists>s'. internal s s'"
    by (auto elim!: internalE simp: s less_Suc_eq numeral_2_eq_2)
  have l: "1 < length (jobs s)" "\<nexists>ok. status (jobs s ! 1) = Settled ok" by (simp_all add: s)
  from queue_waits_for_running_job [OF r l idle] obtain j where j: "j \<le> 1" "status (jobs s ! j) = Running"
    and n: "\<forall>ok. \<exists>s'. job_ends j ok s s' \<and> (Suc j < length (jobs s) \<longrightarrow>
      (\<exists>s1 s2. internal s' s1 \<and> internal s1 s2 \<and> status (jobs s2 ! Suc j) = Running))" by blast
  have "j = 0" using j by (cases j) (simp_all add: s)
  with n have "\<exists>s' s1 s2. job_ends 0 False s s' \<and> internal s' s1 \<and> internal s1 s2 \<and> status (jobs s2 ! 1) = Running"
    by (auto simp: s)
  with r idle j \<open>j = 0\<close> show ?thesis by (intro exI [of _ s]) (simp add: s)
qed

end
