(* ===== verification/Cooldown.thy ===== *)
theory Cooldown
  imports Gemba_Prelude
begin

text \<open>
  The per-key cooldown limiter of services/testnet-faucet/src/ratelimit.js. Times are the integers of
  \<open>Date.now()\<close>; the cooldown is a number that comes from the environment, so it may be any double,
  NaN included. The locale \<open>rate_limiter\<close> is what the faucet relies on.
\<close>

section \<open>The class\<close>

record limiter =
  cooldownMs :: jsnum
  last_acquired :: "(string, int) jsmap"

definition new_limiter :: "jsnum \<Rightarrow> limiter" where
  "new_limiter cd = \<lparr>cooldownMs = cd, last_acquired = []\<rparr>"

definition elapsed :: "int \<Rightarrow> int \<Rightarrow> jsnum" where
  "elapsed now t = js_sub (js_of_int now) (js_of_int t)"

definition remaining :: "limiter \<Rightarrow> string \<Rightarrow> int \<Rightarrow> jsnum" where
  "remaining l key now = (case map_of (last_acquired l) key of
      None \<Rightarrow> Fin 0
    | Some t \<Rightarrow> js_max (Fin 0) (js_sub (cooldownMs l) (elapsed now t)))"

definition sweep :: "int \<Rightarrow> limiter \<Rightarrow> limiter" where
  "sweep now l = l\<lparr>last_acquired :=
     filter (\<lambda>(k, t). \<not> js_le (cooldownMs l) (elapsed now t)) (last_acquired l)\<rparr>"

definition tryAcquire :: "string \<Rightarrow> int \<Rightarrow> limiter \<Rightarrow> bool \<times> limiter" where
  "tryAcquire key now l = (if js_lt (Fin 0) (remaining l key now) then (False, l)
     else (let s = sweep now l in (True, s\<lparr>last_acquired := AList.update key now (last_acquired s)\<rparr>)))"

definition release :: "string \<Rightarrow> limiter \<Rightarrow> limiter" where
  "release key l = l\<lparr>last_acquired := AList.delete key (last_acquired l)\<rparr>"

section \<open>Times and cooldowns that are exact\<close>

text \<open>The range of a \<open>Date\<close>, and cooldowns up to three thousand years.\<close>

definition time_ok :: "int \<Rightarrow> bool" where
  "time_ok t = (0 \<le> t \<and> t \<le> 8640000000000000)"

definition limiter_ok :: "int \<Rightarrow> limiter \<Rightarrow> bool" where
  "limiter_ok c l = (cooldownMs l = Fin (of_int c) \<and> 0 \<le> c \<and> c \<le> 100000000000000 \<and>
     distinct (map fst (last_acquired l)) \<and> (\<forall>t \<in> snd ` set (last_acquired l). time_ok t))"

lemma elapsed_int: "time_ok now \<Longrightarrow> time_ok t \<Longrightarrow> elapsed now t = Fin (of_int (now - t))"
  unfolding elapsed_def time_ok_def
  by (subst (1 2) js_of_int_small) (auto intro!: js_sub_int simp del: of_int_diff)

lemma remaining_int:
  assumes "limiter_ok c l" "time_ok now"
  shows "remaining l key now = (case map_of (last_acquired l) key of None \<Rightarrow> Fin 0
    | Some t \<Rightarrow> Fin (of_int (max 0 (c - (now - t)))))"
proof (cases "map_of (last_acquired l) key")
  case (Some t)
  then have t: "time_ok t" using assms(1) by (force simp: limiter_ok_def dest: map_of_SomeD)
  have "js_sub (Fin (of_int c)) (Fin (of_int (now - t))) = Fin (of_int (c - (now - t)))"
    using assms t by (intro js_sub_int) (auto simp: limiter_ok_def time_ok_def)
  then show ?thesis
    using assms t Some by (simp add: remaining_def elapsed_int limiter_ok_def js_max_def max_def del: of_int_diff)
qed (simp add: remaining_def)

text \<open>On cooldown: the key was acquired less than the cooldown ago.\<close>

definition on_cooldown :: "int \<Rightarrow> limiter \<Rightarrow> string \<Rightarrow> int \<Rightarrow> bool" where
  "on_cooldown c l key now = (case map_of (last_acquired l) key of None \<Rightarrow> False | Some t \<Rightarrow> now < t + c)"

lemma tryAcquire_blocks:
  assumes "limiter_ok c l" "time_ok now"
  shows "js_lt (Fin 0) (remaining l key now) \<longleftrightarrow> on_cooldown c l key now"
  unfolding remaining_int [OF assms] on_cooldown_def by (auto split: option.splits)

lemma map_of_sweep:
  assumes "limiter_ok c l" "time_ok now"
  shows "map_of (last_acquired (sweep now l)) k =
    (case map_of (last_acquired l) k of None \<Rightarrow> None | Some t \<Rightarrow> if now < t + c then Some t else None)"
proof -
  have eq: "filter (\<lambda>(k, t). \<not> js_le (cooldownMs l) (elapsed now t)) (last_acquired l) =
      filter (\<lambda>(k, t). now < t + c) (last_acquired l)"
    using assms by (intro filter_cong) (force simp: limiter_ok_def elapsed_int simp del: of_int_diff)+
  have "distinct (map fst xs) \<Longrightarrow> map_of (filter (\<lambda>(k, t). now < t + c) xs) k =
      (case map_of xs k of None \<Rightarrow> None | Some t \<Rightarrow> if now < t + c then Some t else None)" for xs
    by (induction xs) (auto split: option.splits simp: map_of_eq_None_iff image_iff)
  moreover have "distinct (map fst (last_acquired l))" using assms(1) by (simp add: limiter_ok_def)
  ultimately show ?thesis by (simp add: sweep_def eq)
qed

lemma limiter_ok_sweep: "limiter_ok c l \<Longrightarrow> limiter_ok c (sweep now l)"
  by (auto simp: limiter_ok_def sweep_def distinct_map_filter)

lemma limiter_ok_update:
  assumes "limiter_ok c l" "time_ok now"
  shows "limiter_ok c (l\<lparr>last_acquired := AList.update k now (last_acquired l)\<rparr>)"
proof -
  have "snd ` set (AList.update k now xs) \<subseteq> insert now (snd ` set xs)" for xs :: "(string \<times> int) list"
    by (induction xs) auto
  then show ?thesis using assms by (fastforce simp: limiter_ok_def distinct_update)
qed

lemma limiter_ok_release: "limiter_ok c l \<Longrightarrow> limiter_ok c (release k l)"
  by (auto simp: limiter_ok_def release_def AList.delete_eq distinct_map_filter)

lemma tryAcquire_cases:
  assumes "limiter_ok c l" "time_ok now"
  shows "tryAcquire k now l = (if on_cooldown c l k now then (False, l)
    else (True, (sweep now l)\<lparr>last_acquired := AList.update k now (last_acquired (sweep now l))\<rparr>))"
  unfolding tryAcquire_def Let_def tryAcquire_blocks [OF assms] by simp

section \<open>The interface\<close>

text \<open>What a client may use of a limiter: time never runs backwards for it.\<close>

locale rate_limiter =
  fixes acquire :: "string \<Rightarrow> int \<Rightarrow> 'l \<Rightarrow> bool \<times> 'l"
    and undo :: "string \<Rightarrow> 'l \<Rightarrow> 'l"
    and entry :: "'l \<Rightarrow> string \<Rightarrow> int \<Rightarrow> int option"
    and window :: int
    and valid :: "'l \<Rightarrow> bool"
    and valid_time :: "int \<Rightarrow> bool"
  assumes acquire_valid: "valid l \<Longrightarrow> valid_time now \<Longrightarrow> valid (snd (acquire k now l))"
    and undo_valid: "valid l \<Longrightarrow> valid (undo k l)"
    and acquire_iff: "valid l \<Longrightarrow> valid_time now \<Longrightarrow> fst (acquire k now l) \<longleftrightarrow> entry l k now = None"
    and acquire_refused: "valid l \<Longrightarrow> valid_time now \<Longrightarrow> \<not> fst (acquire k now l) \<Longrightarrow> snd (acquire k now l) = l"
    and acquire_entry: "valid l \<Longrightarrow> valid_time now \<Longrightarrow> fst (acquire k now l) \<Longrightarrow> now \<le> later \<Longrightarrow>
      entry (snd (acquire k now l)) k' later =
        (if k' = k then (if later < now + window then Some now else None) else entry l k' later)"
    and undo_entry: "entry (undo k l) k' later = (if k' = k then None else entry l k' later)"
    and entry_later: "entry l k now = Some t \<Longrightarrow> entry l k later = (if later < t + window then Some t else None)"
begin

text \<open>An acquisition that is undone at once leaves every key as it was.\<close>

lemma undo_acquire:
  assumes "valid l" "valid_time now" "fst (acquire k now l)" "now \<le> later"
  shows "entry (undo k (snd (acquire k now l))) k' later = (if k' = k then None else entry l k' later)"
  using acquire_entry [OF assms] by (simp add: undo_entry)

text \<open>A key acquired at \<open>t\<close> is refused before \<open>t + window\<close>, unless it is undone.\<close>

lemma refused_within_window:
  assumes "valid l" "valid_time t" "fst (acquire k t l)" "t \<le> later" "later < t + window" "valid_time later"
  shows "\<not> fst (acquire k later (snd (acquire k t l)))"
  using acquire_iff [OF acquire_valid [OF assms(1,2)] assms(6)] acquire_entry [OF assms(1-4), of k] assms(5)
  by simp

end

text \<open>The class is a rate limiter when its cooldown is an integer.\<close>

definition cooldown_entry :: "int \<Rightarrow> limiter \<Rightarrow> string \<Rightarrow> int \<Rightarrow> int option" where
  "cooldown_entry c l k now = (case map_of (last_acquired l) k of None \<Rightarrow> None
     | Some t \<Rightarrow> if now < t + c then Some t else None)"

lemma on_cooldown_entry: "on_cooldown c l k now \<longleftrightarrow> cooldown_entry c l k now \<noteq> None"
  by (simp add: on_cooldown_def cooldown_entry_def split: option.splits)

interpretation cooldown: rate_limiter tryAcquire release "cooldown_entry c" c "limiter_ok c" time_ok for c
proof (unfold_locales, goal_cases)
  case (1 l now k)
  then show ?case by (simp add: tryAcquire_cases limiter_ok_update limiter_ok_sweep)
next
  case (2 l k)
  then show ?case by (rule limiter_ok_release)
next
  case (3 l now k)
  then show ?case by (simp add: tryAcquire_cases on_cooldown_entry)
next
  case (4 l now k)
  then show ?case by (simp add: tryAcquire_cases split: if_splits)
next
  case (5 l now k later k')
  then show ?case
    by (auto simp: tryAcquire_cases cooldown_entry_def js_map.get_put map_of_sweep split: if_splits option.splits)
next
  case (6 k l k' later)
  then show ?case by (simp add: release_def cooldown_entry_def js_map.get_del)
next
  case (7 l k now t later)
  then show ?case by (auto simp: cooldown_entry_def split: option.splits if_splits)
qed

section \<open>Memory\<close>

text \<open>Right after an acquisition every entry is within one window: the map is bounded by it.\<close>

lemma acquire_prunes:
  assumes "limiter_ok c l" "time_ok now" "tryAcquire k now l = (True, l')" "0 < c"
  shows "\<forall>(k', t) \<in> set (last_acquired l'). now < t + c"
proof -
  have l': "limiter_ok c l'" using cooldown.acquire_valid [OF assms(1,2), of k] assms(3) by simp
  have m: "map_of (last_acquired l') k' = (if k' = k then Some now else
      (case map_of (last_acquired l) k' of None \<Rightarrow> None | Some t \<Rightarrow> if now < t + c then Some t else None))" for k'
    using assms by (auto simp: tryAcquire_cases js_map.get_put map_of_sweep split: if_splits)
  have "now < t + c" if kt: "(k', t) \<in> set (last_acquired l')" for k' t
  proof -
    have "map_of (last_acquired l') k' = Some t" using kt l' by (simp add: limiter_ok_def)
    then show ?thesis using m [of k'] assms(4) by (auto split: if_splits option.splits)
  qed
  then show ?thesis by auto
qed

end
