(* ===== verification/Faucet.thy ===== *)
theory Faucet
  imports Cooldown Validation
begin

text \<open>
  The testnet faucet: services/testnet-faucet/src/server.js and services/testnet-faucet/src/faucet.js.

  POST /drip awaits twice, first the balance and then the send, and other requests run in between. So
  the handler is three definitions, one for each stretch of code between two awaits
  (\<open>drip_enter\<close>, \<open>drip_balance\<close>, \<open>drip_settle\<close>), and the service is a machine whose events are the
  arrival of a request and the two results, in any interleaving. Sends themselves go through the
  queue of theory \<open>Send_Queue\<close>.
\<close>

section \<open>Configuration and state\<close>

record faucet_config =
  daily_global_max :: jsnum
  min_balance_wei :: int
  drip_gmb :: string

record faucet_state =
  by_address :: limiter
  by_ip :: limiter
  drip_day :: jsnum
  drip_count_today :: int

text \<open>\<open>Number(env || default)\<close> and \<open>BigInt(env || '1000') * 10n ** 18n\<close>, the latter on a parsed integer.\<close>

definition env_number :: "string option \<Rightarrow> int \<Rightarrow> jsnum" where
  "env_number v dflt = (case v of None \<Rightarrow> js_of_int dflt | Some [] \<Rightarrow> js_of_int dflt | Some s \<Rightarrow> string_to_number s)"

definition faucet_config_of :: "string option \<Rightarrow> int option \<Rightarrow> string option \<Rightarrow> faucet_config" where
  "faucet_config_of max_env min_gmb drip_env = \<lparr>daily_global_max = env_number max_env 10000,
     min_balance_wei = (case min_gmb of None \<Rightarrow> 1000 | Some g \<Rightarrow> g) * 10 ^ 18,
     drip_gmb = (case drip_env of None \<Rightarrow> ''100'' | Some [] \<Rightarrow> ''100'' | Some s \<Rightarrow> s)\<rparr>"

definition faucet_start :: "string option \<Rightarrow> faucet_state" where
  "faucet_start cooldown_env = (let cd = env_number cooldown_env 86400000 in
     \<lparr>by_address = new_limiter cd, by_ip = new_limiter cd, drip_day = Fin 0, drip_count_today = 0\<rparr>)"

section \<open>The daily budget\<close>

definition day_of :: "int \<Rightarrow> jsnum" where
  "day_of now = js_floor (js_div (js_of_int now) (Fin 86400000))"

definition globalBudgetAllow :: "faucet_config \<Rightarrow> int \<Rightarrow> faucet_state \<Rightarrow> bool \<times> faucet_state" where
  "globalBudgetAllow cfg now s = (let d = day_of now;
       s1 = (if d \<noteq> drip_day s then s\<lparr>drip_day := d, drip_count_today := 0\<rparr> else s) in
     if js_le (daily_global_max cfg) (js_of_int (drip_count_today s1)) then (False, s1)
     else (True, s1\<lparr>drip_count_today := drip_count_today s1 + 1\<rparr>))"

definition globalBudgetRelease :: "faucet_state \<Rightarrow> faucet_state" where
  "globalBudgetRelease s =
     (if drip_count_today s > 0 then s\<lparr>drip_count_today := drip_count_today s - 1\<rparr> else s)"

section \<open>POST /drip\<close>

datatype drip_reply =
    BadAddress
  | AddressOnCooldown jsnum
  | IpOnCooldown jsnum
  | BudgetReached
  | BelowFloor
  | DripSent string string
  | InternalError

fun reply_status :: "drip_reply \<Rightarrow> nat" where
  "reply_status BadAddress = 400"
| "reply_status (AddressOnCooldown ms) = 429"
| "reply_status (IpOnCooldown ms) = 429"
| "reply_status BudgetReached = 429"
| "reply_status BelowFloor = 503"
| "reply_status (DripSent to hash) = 200"
| "reply_status InternalError = 500"

text \<open>Up to the first await: the reply, or the address the balance check is made for.\<close>

definition drip_enter :: "faucet_config \<Rightarrow> jsval \<Rightarrow> string \<Rightarrow> int \<Rightarrow> faucet_state \<Rightarrow> (drip_reply + string) \<times> faucet_state" where
  "drip_enter cfg address ip now s = (case address of
     JStr to \<Rightarrow>
      (if \<not> isEvmAddress (JStr to) then (Inl BadAddress, s)
       else case tryAcquire to now (by_address s) of
         (False, a) \<Rightarrow> (Inl (AddressOnCooldown (remaining a to now)), s\<lparr>by_address := a\<rparr>)
       | (True, a) \<Rightarrow> (let s1 = s\<lparr>by_address := a\<rparr> in
          case tryAcquire ip now (by_ip s1) of
            (False, p) \<Rightarrow> (Inl (IpOnCooldown (remaining p ip now)), s1\<lparr>by_ip := p, by_address := release to a\<rparr>)
          | (True, p) \<Rightarrow> (let s2 = s1\<lparr>by_ip := p\<rparr> in
             case globalBudgetAllow cfg now s2 of
               (False, s3) \<Rightarrow> (Inl BudgetReached,
                  s3\<lparr>by_address := release to (by_address s3), by_ip := release ip (by_ip s3)\<rparr>)
             | (True, s3) \<Rightarrow> (Inr to, s3))))
   | _ \<Rightarrow> (Inl BadAddress, s))"

definition drip_rollback :: "string \<Rightarrow> string \<Rightarrow> faucet_state \<Rightarrow> faucet_state" where
  "drip_rollback to ip s = globalBudgetRelease
     (s\<lparr>by_address := release to (by_address s), by_ip := release ip (by_ip s)\<rparr>)"

text \<open>The balance has arrived (\<open>Inl\<close>: the call rejected); \<open>None\<close> when the handler goes on to send.\<close>

definition drip_balance :: "faucet_config \<Rightarrow> string \<Rightarrow> string \<Rightarrow> string + int \<Rightarrow> faucet_state \<Rightarrow> drip_reply option \<times> faucet_state" where
  "drip_balance cfg to ip bal s = (case bal of
      Inl e \<Rightarrow> (Some InternalError, s)
    | Inr b \<Rightarrow> (if b < min_balance_wei cfg then (Some BelowFloor, drip_rollback to ip s) else (None, s)))"

definition drip_settle :: "string \<Rightarrow> string \<Rightarrow> string + string \<Rightarrow> faucet_state \<Rightarrow> drip_reply \<times> faucet_state" where
  "drip_settle to ip res s = (case res of
      Inr hash \<Rightarrow> (DripSent to hash, s)
    | Inl e \<Rightarrow> (InternalError, drip_rollback to ip s))"

text \<open>\<open>drip(to)\<close> of faucet.js, on what the chain answered.\<close>

datatype send_outcome = CallFailed string | NoReceipt | Receipt int string

definition faucet_drip :: "string \<Rightarrow> send_outcome \<Rightarrow> string + string" where
  "faucet_drip to out = (if \<not> isEvmAddress (JStr to) then Inl ''invalid recipient address''
     else case out of
       CallFailed m \<Rightarrow> Inl m
     | NoReceipt \<Rightarrow> Inl ''drip transaction failed''
     | Receipt st h \<Rightarrow> if st \<noteq> 1 then Inl ''drip transaction failed'' else Inr h)"

text \<open>The start-up guard: raw sends never on mainnet.\<close>

definition MAINNET_EVM_CHAIN_ID :: int where
  "MAINNET_EVM_CHAIN_ID = 821206"

definition assertNotRawModeOnMainnet :: "string option \<Rightarrow> string + int \<Rightarrow> string + unit" where
  "assertNotRawModeOnMainnet faucetContract network = (
     if (case faucetContract of None \<Rightarrow> False | Some s \<Rightarrow> s \<noteq> []) then Inr ()
     else case network of Inl e \<Rightarrow> Inl e
       | Inr chainId \<Rightarrow> if chainId = MAINNET_EVM_CHAIN_ID
           then Inl ''refusing to start: raw-send faucet mode on MAINNET'' else Inr ())"

section \<open>The service as a machine\<close>

datatype drip_phase = AwaitBalance | AwaitSend

record drip_request =
  rq_to :: string
  rq_ip :: string
  rq_at :: int
  rq_phase :: drip_phase

record faucet_run =
  fstate :: faucet_state
  inflight :: "drip_request list"
  sent :: "(string \<times> int) list"
  now_ms :: int

datatype faucet_event =
    Arrive jsval string
  | BalanceIs nat "string + int"
  | SendIs nat "string + string"

definition drop_nth :: "nat \<Rightarrow> 'a list \<Rightarrow> 'a list" where
  "drop_nth i xs = take i xs @ drop (Suc i) xs"

definition faucet_event :: "faucet_config \<Rightarrow> int \<Rightarrow> faucet_event \<Rightarrow> faucet_run \<Rightarrow> faucet_run" where
  "faucet_event cfg now ev r0 = (let r = r0\<lparr>now_ms := now\<rparr> in case ev of
     Arrive address ip \<Rightarrow> (case drip_enter cfg address ip now (fstate r) of
         (Inl reply, s) \<Rightarrow> r\<lparr>fstate := s\<rparr>
       | (Inr to, s) \<Rightarrow> r\<lparr>fstate := s, inflight := inflight r @
            [\<lparr>rq_to = to, rq_ip = ip, rq_at = now, rq_phase = AwaitBalance\<rparr>]\<rparr>)
   | BalanceIs i bal \<Rightarrow>
      (if i < length (inflight r) \<and> rq_phase (inflight r ! i) = AwaitBalance then
        (let q = inflight r ! i in case drip_balance cfg (rq_to q) (rq_ip q) bal (fstate r) of
           (Some reply, s) \<Rightarrow> r\<lparr>fstate := s, inflight := drop_nth i (inflight r)\<rparr>
         | (None, s) \<Rightarrow> r\<lparr>fstate := s, inflight := (inflight r)[i := q\<lparr>rq_phase := AwaitSend\<rparr>]\<rparr>)
       else r)
   | SendIs i res \<Rightarrow>
      (if i < length (inflight r) \<and> rq_phase (inflight r ! i) = AwaitSend then
        (let q = inflight r ! i in case drip_settle (rq_to q) (rq_ip q) res (fstate r) of
           (reply, s) \<Rightarrow> r\<lparr>fstate := s, inflight := drop_nth i (inflight r),
              sent := (case res of Inr h \<Rightarrow> sent r @ [(rq_to q, rq_at q)] | Inl e \<Rightarrow> sent r)\<rparr>)
       else r))"

definition faucet_init :: "int \<Rightarrow> faucet_run" where
  "faucet_init c = \<lparr>fstate = \<lparr>by_address = new_limiter (Fin (of_int c)), by_ip = new_limiter (Fin (of_int c)),
     drip_day = Fin 0, drip_count_today = 0\<rparr>, inflight = [], sent = [], now_ms = 0\<rparr>"

text \<open>Runs on a clock that does not go back, in which every request is answered within the cooldown.\<close>

definition prompt :: "int \<Rightarrow> int \<Rightarrow> faucet_run \<Rightarrow> bool" where
  "prompt c now r = (now_ms r \<le> now \<and> time_ok now \<and> (\<forall>q \<in> set (inflight r). now < rq_at q + c))"

inductive faucet_reachable :: "faucet_config \<Rightarrow> int \<Rightarrow> faucet_run \<Rightarrow> bool" for cfg c where
  init: "faucet_reachable cfg c (faucet_init c)"
| event: "faucet_reachable cfg c r \<Longrightarrow> prompt c now r \<Longrightarrow> faucet_reachable cfg c (faucet_event cfg now ev r)"

fun run_events :: "faucet_config \<Rightarrow> (int \<times> faucet_event) list \<Rightarrow> faucet_run \<Rightarrow> faucet_run" where
  "run_events cfg [] r = r"
| "run_events cfg ((now, ev) # evs) r = run_events cfg evs (faucet_event cfg now ev r)"

end
