(* ===== verification/Faucet_Properties.thy ===== *)
theory Faucet_Properties
  imports Faucet
begin

text \<open>
  What the faucet promises and where it does not keep it: the spacing of drips to one address, the
  daily budget, the roll-back of a failed drip, and the three ways around the guards.
\<close>

section \<open>The spacing of drips\<close>

text \<open>An entry of a limiter either stays, or it has expired and is gone.\<close>

definition stays_or_expired :: "int \<Rightarrow> int \<Rightarrow> limiter \<Rightarrow> limiter \<Rightarrow> string \<Rightarrow> bool" where
  "stays_or_expired c now l l' k = (map_of (last_acquired l') k = map_of (last_acquired l) k \<or>
     (\<exists>t. map_of (last_acquired l) k = Some t \<and> t + c \<le> now \<and> map_of (last_acquired l') k = None))"

lemma tryAcquire_entries:
  assumes "limiter_ok c l" "time_ok now" "tryAcquire k now l = (True, l')"
  shows "limiter_ok c l'" "map_of (last_acquired l') k = Some now"
    and "\<And>t. map_of (last_acquired l) k = Some t \<Longrightarrow> t + c \<le> now"
    and "k' \<noteq> k \<Longrightarrow> stays_or_expired c now l l' k'"
    and "stays_or_expired c now l (release k l') k'"
  using cooldown.acquire_valid [OF assms(1,2), of k] assms
  by (auto simp: tryAcquire_cases js_map.get_put map_of_sweep stays_or_expired_def on_cooldown_def release_def
      js_map.get_del split: if_splits option.splits)

lemma tryAcquire_refused: "tryAcquire k now l = (False, l') \<Longrightarrow> l' = l"
  by (auto simp: tryAcquire_def Let_def split: if_splits)

lemma budget_limiters:
  "globalBudgetAllow cfg now s = (b, s') \<Longrightarrow> by_address s' = by_address s \<and> by_ip s' = by_ip s"
  by (auto simp: globalBudgetAllow_def Let_def split: if_splits)

lemma rollback_limiters:
  "by_address (drip_rollback to ip s) = release to (by_address s)"
  "by_ip (drip_rollback to ip s) = release ip (by_ip s)"
  by (simp_all add: drip_rollback_def globalBudgetRelease_def)

definition limiters_ok :: "int \<Rightarrow> faucet_state \<Rightarrow> bool" where
  "limiters_ok c s = (limiter_ok c (by_address s) \<and> limiter_ok c (by_ip s))"

lemma drip_enter_entries:
  assumes ok: "limiters_ok c s" and t: "time_ok now" and run: "drip_enter cfg address ip now s = (res, s')"
  shows "limiters_ok c s'"
    and "\<And>e k. res = Inl e \<Longrightarrow> stays_or_expired c now (by_address s) (by_address s') k"
    and "\<And>to. res = Inr to \<Longrightarrow> address = JStr to \<and> map_of (last_acquired (by_address s')) to = Some now \<and>
      (\<forall>t. map_of (last_acquired (by_address s)) to = Some t \<longrightarrow> t + c \<le> now) \<and>
      (\<forall>k. k \<noteq> to \<longrightarrow> stays_or_expired c now (by_address s) (by_address s') k)"
proof -
  have a: "limiter_ok c (by_address s)" and p: "limiter_ok c (by_ip s)" using ok by (simp_all add: limiters_ok_def)
  have same: "stays_or_expired c now l l k" for l k by (simp add: stays_or_expired_def)
  have "limiters_ok c s' \<and> (\<forall>e k. res = Inl e \<longrightarrow> stays_or_expired c now (by_address s) (by_address s') k) \<and>
      (\<forall>to. res = Inr to \<longrightarrow> address = JStr to \<and> map_of (last_acquired (by_address s')) to = Some now \<and>
      (\<forall>t. map_of (last_acquired (by_address s)) to = Some t \<longrightarrow> t + c \<le> now) \<and>
      (\<forall>k. k \<noteq> to \<longrightarrow> stays_or_expired c now (by_address s) (by_address s') k))"
  proof (cases "\<exists>to. address = JStr to \<and> isEvmAddress (JStr to)")
    case False
    then have "res = Inl BadAddress \<and> s' = s" using run by (auto simp: drip_enter_def split: jsval.splits if_splits)
    then show ?thesis using ok same by simp
  next
    case True
    then obtain to where to: "address = JStr to" "isEvmAddress (JStr to)" by blast
    obtain b1 l1 where l1: "tryAcquire to now (by_address s) = (b1, l1)" by (cases "tryAcquire to now (by_address s)")
    show ?thesis
    proof (cases b1)
      case False
      then have "l1 = by_address s" using l1 tryAcquire_refused by simp
      then show ?thesis using run to l1 False ok same by (auto simp: drip_enter_def)
    next
      case b1: True
      note acq = tryAcquire_entries [OF a t l1 [unfolded b1 [THEN eqTrueI]]]
      obtain b2 l2 where l2: "tryAcquire ip now (by_ip s) = (b2, l2)" by (cases "tryAcquire ip now (by_ip s)")
      show ?thesis
      proof (cases b2)
        case False
        then have "l2 = by_ip s" using l2 tryAcquire_refused by simp
        then show ?thesis using run to l1 b1 l2 False acq p limiter_ok_release [OF acq(1)]
          by (auto simp: drip_enter_def limiters_ok_def)
      next
        case b2: True
        note ipq = tryAcquire_entries(1) [OF p t l2 [unfolded b2 [THEN eqTrueI]]]
        let ?s2 = "s\<lparr>by_address := l1, by_ip := l2\<rparr>"
        obtain b3 s3 where s3: "globalBudgetAllow cfg now ?s2 = (b3, s3)" by (cases "globalBudgetAllow cfg now ?s2")
        then have lims: "by_address s3 = l1" "by_ip s3 = l2" using budget_limiters [OF s3] by auto
        show ?thesis
          using run to l1 b1 l2 b2 s3 lims acq ipq limiter_ok_release [OF acq(1)] limiter_ok_release [OF ipq]
          by (cases b3) (auto simp: drip_enter_def limiters_ok_def Let_def)
      qed
    qed
  qed
  then show "limiters_ok c s'"
    and "\<And>e k. res = Inl e \<Longrightarrow> stays_or_expired c now (by_address s) (by_address s') k"
    and "\<And>to. res = Inr to \<Longrightarrow> address = JStr to \<and> map_of (last_acquired (by_address s')) to = Some now \<and>
      (\<forall>t. map_of (last_acquired (by_address s)) to = Some t \<longrightarrow> t + c \<le> now) \<and>
      (\<forall>k. k \<noteq> to \<longrightarrow> stays_or_expired c now (by_address s) (by_address s') k)"
    by blast+
qed

text \<open>
  The invariant: a request in flight holds the entry of its address; a drip that was sent still holds
  it or is a window ago; and the next drip to the same address comes a window later.
\<close>

definition spaced ::
  "int \<Rightarrow> (string \<Rightarrow> int option) \<Rightarrow> (string \<times> int) list \<Rightarrow> (string \<times> int) list \<Rightarrow> int \<Rightarrow> bool" where
  "spaced c m qs sn now = ((\<forall>(to, t) \<in> set qs. m to = Some t \<and> t \<le> now) \<and> distinct (map fst qs) \<and>
     (\<forall>(to, t) \<in> set qs. \<forall>(to', t') \<in> set sn. to' = to \<longrightarrow> t' + c \<le> t) \<and>
     (\<forall>(to, t) \<in> set sn. t + c \<le> now \<or> m to = Some t) \<and>
     sorted_wrt (\<lambda>(a, s) (b, t). a = b \<longrightarrow> s + c \<le> t) sn)"

lemma spacedD:
  assumes "spaced c m qs sn now"
  shows "(to, t) \<in> set qs \<Longrightarrow> m to = Some t" "(to, t) \<in> set qs \<Longrightarrow> t \<le> now"
    and "(to, t) \<in> set qs \<Longrightarrow> (to, t') \<in> set sn \<Longrightarrow> t' + c \<le> t"
    and "(to, t) \<in> set sn \<Longrightarrow> t + c \<le> now \<or> m to = Some t"
    and "distinct (map fst qs)" "sorted_wrt (\<lambda>(a, s) (b, t). a = b \<longrightarrow> s + c \<le> t) sn"
  using assms by (auto simp: spaced_def)

lemma spacedI:
  assumes "\<And>to t. (to, t) \<in> set qs \<Longrightarrow> m to = Some t" "\<And>to t. (to, t) \<in> set qs \<Longrightarrow> t \<le> now"
    and "\<And>to t t'. (to, t) \<in> set qs \<Longrightarrow> (to, t') \<in> set sn \<Longrightarrow> t' + c \<le> t"
    and "\<And>to t. (to, t) \<in> set sn \<Longrightarrow> t + c \<le> now \<or> m to = Some t"
    and "distinct (map fst qs)" "sorted_wrt (\<lambda>(a, s) (b, t). a = b \<longrightarrow> s + c \<le> t) sn"
  shows "spaced c m qs sn now"
  unfolding spaced_def
proof (intro conjI ballI)
  show "case x of (to, t) \<Rightarrow> m to = Some t \<and> t \<le> now" if "x \<in> set qs" for x
    using that assms(1,2) [of "fst x" "snd x"] by (simp add: split_beta)
  show "case x of (to, t) \<Rightarrow> \<forall>(to', t') \<in> set sn. to' = to \<longrightarrow> t' + c \<le> t" if "x \<in> set qs" for x
    using that assms(3) [of "fst x" "snd x"] by (auto simp: split_beta)
  show "case x of (to, t) \<Rightarrow> t + c \<le> now \<or> m to = Some t" if "x \<in> set sn" for x
    using that assms(4) [of "fst x" "snd x"] by (simp add: split_beta)
qed (rule assms)+

definition kept :: "int \<Rightarrow> int \<Rightarrow> (string \<Rightarrow> int option) \<Rightarrow> (string \<Rightarrow> int option) \<Rightarrow> string \<Rightarrow> bool" where
  "kept c now m m' k = (m' k = m k \<or> (\<exists>t. m k = Some t \<and> t + c \<le> now \<and> m' k = None))"

lemma kept_live: "kept c now m m' k \<Longrightarrow> m k = Some t \<Longrightarrow> now < t + c \<Longrightarrow> m' k = Some t"
  by (auto simp: kept_def)

lemma kept_past: "kept c now m m' k \<Longrightarrow> m k = Some t \<Longrightarrow> t + c \<le> now \<or> m' k = Some t"
  by (auto simp: kept_def)

lemma spaced_refused:
  assumes inv: "spaced c m qs sn now" and mono: "now \<le> now'" and live: "\<And>to t. (to, t) \<in> set qs \<Longrightarrow> now' < t + c"
    and kept: "\<And>k. kept c now' m m' k"
  shows "spaced c m' qs sn now'"
proof (rule spacedI)
  show "m' to = Some t" if "(to, t) \<in> set qs" for to t
    using kept_live [OF kept spacedD(1) [OF inv that] live [OF that]] .
  show "t \<le> now'" if "(to, t) \<in> set qs" for to t using spacedD(2) [OF inv that] mono by simp
  show "t + c \<le> now' \<or> m' to = Some t" if "(to, t) \<in> set sn" for to t
    using spacedD(4) [OF inv that] mono kept_past [OF kept, of to t] by auto
qed (use spacedD [OF inv] in auto)

lemma spaced_accepted:
  assumes inv: "spaced c m qs sn now" and mono: "now \<le> now'" and live: "\<And>to t. (to, t) \<in> set qs \<Longrightarrow> now' < t + c"
    and new: "m' a = Some now'" and free: "\<And>t. m a = Some t \<Longrightarrow> t + c \<le> now'"
    and kept: "\<And>k. k \<noteq> a \<Longrightarrow> kept c now' m m' k"
  shows "spaced c m' (qs @ [(a, now')]) sn now'"
proof -
  have other: "to \<noteq> a" if "(to, t) \<in> set qs" for to t
    using spacedD(1) [OF inv that] live [OF that] free by force
  have past: "t + c \<le> now'" if "(a, t) \<in> set sn" for t
    using spacedD(4) [OF inv that] free mono by auto
  show ?thesis
  proof (rule spacedI)
    show "m' to = Some t" if "(to, t) \<in> set (qs @ [(a, now')])" for to t
      using that new other kept_live [OF kept spacedD(1) [OF inv] live] by auto
    show "t \<le> now'" if "(to, t) \<in> set (qs @ [(a, now')])" for to t
      using that spacedD(2) [OF inv, of to t] mono by auto
    show "t' + c \<le> t" if "(to, t) \<in> set (qs @ [(a, now')])" "(to, t') \<in> set sn" for to t t'
      using that spacedD(3) [OF inv, of to t t'] past by auto
    show "t + c \<le> now' \<or> m' to = Some t" if "(to, t) \<in> set sn" for to t
      using that past spacedD(4) [OF inv that] mono kept_past [OF kept, of to t] by (cases "to = a") auto
    show "distinct (map fst (qs @ [(a, now')]))" using spacedD(5) [OF inv] by (auto dest: other)
  qed (rule spacedD(6) [OF inv])
qed

text \<open>A request leaves: it just ends, it is rolled back, or it was sent.\<close>

lemma spaced_leave:
  assumes inv: "spaced c m (as @ (a, t0) # bs) sn now" and mono: "now \<le> now'"
  shows "spaced c m (as @ bs) sn now'" "spaced c (m(a := None)) (as @ bs) sn now'"
    and "spaced c m (as @ bs) (sn @ [(a, t0)]) now'"
proof -
  have a: "m a = Some t0" "t0 \<le> now" "\<And>t'. (a, t') \<in> set sn \<Longrightarrow> t' + c \<le> t0"
    using spacedD(1,2,3) [OF inv, of a t0] by auto
  have q: "m to = Some t" "t \<le> now'" "to \<noteq> a" "\<And>t'. (to, t') \<in> set sn \<Longrightarrow> t' + c \<le> t"
    if "(to, t) \<in> set (as @ bs)" for to t
  proof -
    have mem: "(to, t) \<in> set (as @ (a, t0) # bs)" using that by auto
    show "m to = Some t" "t \<le> now'" "\<And>t'. (to, t') \<in> set sn \<Longrightarrow> t' + c \<le> t"
      using spacedD(1,2,3) [OF inv mem] mono by auto
    have "to \<in> fst ` set (as @ bs)" using that by (metis fst_conv image_eqI)
    then show "to \<noteq> a" using spacedD(5) [OF inv] by auto
  qed
  have d: "distinct (map fst (as @ bs))" using spacedD(5) [OF inv] by auto
  have sn: "t + c \<le> now' \<or> m to = Some t" if "(to, t) \<in> set sn" for to t
    using spacedD(4) [OF inv that] mono by auto
  note srt = spacedD(6) [OF inv]
  show "spaced c m (as @ bs) sn now'" using q d sn srt by (intro spacedI) auto
  show "spaced c (m(a := None)) (as @ bs) sn now'"
  proof (rule spacedI)
    show "t + c \<le> now' \<or> (m(a := None)) to = Some t" if "(to, t) \<in> set sn" for to t
      using sn [OF that] a(2) a(3) [of t] that mono by (cases "to = a") auto
  qed (use q d srt in auto)
  show "spaced c m (as @ bs) (sn @ [(a, t0)]) now'"
  proof (rule spacedI)
    show "t + c \<le> now' \<or> m to = Some t" if "(to, t) \<in> set (sn @ [(a, t0)])" for to t
      using that sn [of to t] a(1) by auto
  qed (use q d srt a in \<open>auto simp: sorted_wrt_append\<close>)
qed

definition entry_of :: "faucet_state \<Rightarrow> string \<Rightarrow> int option" where
  "entry_of s k = map_of (last_acquired (by_address s)) k"

definition holder :: "drip_request \<Rightarrow> string \<times> int" where
  "holder q = (rq_to q, rq_at q)"

definition spacing_inv :: "int \<Rightarrow> faucet_run \<Rightarrow> bool" where
  "spacing_inv c r = (limiters_ok c (fstate r) \<and>
     spaced c (entry_of (fstate r)) (map holder (inflight r)) (sent r) (now_ms r))"

lemma drop_nth_split:
  "i < length xs \<Longrightarrow> \<exists>as bs. xs = as @ xs ! i # bs \<and> drop_nth i xs = as @ bs"
  by (metis drop_nth_def id_take_nth_drop)

lemma prompt_live: "prompt c now r \<Longrightarrow> (to, t) \<in> set (map holder (inflight r)) \<Longrightarrow> now < t + c"
  by (auto simp: prompt_def holder_def)

lemma stays_kept: "stays_or_expired c now (by_address s) (by_address s') k = kept c now (entry_of s) (entry_of s') k"
  by (simp add: stays_or_expired_def kept_def entry_of_def)

lemma spacing_arrive:
  assumes inv: "spacing_inv c r" and p: "prompt c now r"
  shows "spacing_inv c (faucet_event cfg now (Arrive address ip) r)"
proof -
  obtain res s where e: "drip_enter cfg address ip now (fstate r) = (res, s)"
    by (cases "drip_enter cfg address ip now (fstate r)")
  have t: "time_ok now" and mono: "now_ms r \<le> now" using p by (simp_all add: prompt_def)
  have ok: "limiters_ok c (fstate r)"
    and sp: "spaced c (entry_of (fstate r)) (map holder (inflight r)) (sent r) (now_ms r)"
    using inv by (simp_all add: spacing_inv_def)
  note ent = drip_enter_entries [OF ok t e]
  show ?thesis
  proof (cases res)
    case (Inl reply)
    have "spaced c (entry_of s) (map holder (inflight r)) (sent r) now"
      using spaced_refused [OF sp mono prompt_live [OF p]] ent(2) [OF Inl] by (simp add: stays_kept)
    then show ?thesis using e Inl ent(1) by (simp add: faucet_event_def Let_def spacing_inv_def)
  next
    case (Inr to)
    have "spaced c (entry_of s) (map holder (inflight r) @ [(to, now)]) (sent r) now"
      using ent(3) [OF Inr] by (intro spaced_accepted [OF sp mono prompt_live [OF p]]) (auto simp: stays_kept entry_of_def)
    then show ?thesis using e Inr ent(1) by (simp add: faucet_event_def Let_def spacing_inv_def holder_def)
  qed
qed

lemma entry_rollback: "entry_of (drip_rollback to ip s) = (entry_of s)(to := None)"
  by (simp add: entry_of_def fun_eq_iff rollback_limiters release_def js_map.get_del)

lemma limiters_ok_rollback: "limiters_ok c s \<Longrightarrow> limiters_ok c (drip_rollback to ip s)"
  by (simp add: limiters_ok_def rollback_limiters limiter_ok_release)

lemma faucet_event_balance:
  "faucet_event cfg now (BalanceIs i bal) r =
    (if i < length (inflight r) \<and> rq_phase (inflight r ! i) = AwaitBalance then
       (case drip_balance cfg (rq_to (inflight r ! i)) (rq_ip (inflight r ! i)) bal (fstate r) of
          (Some reply, s) \<Rightarrow> r\<lparr>now_ms := now, fstate := s, inflight := drop_nth i (inflight r)\<rparr>
        | (None, s) \<Rightarrow> r\<lparr>now_ms := now, fstate := s,
            inflight := (inflight r)[i := (inflight r ! i)\<lparr>rq_phase := AwaitSend\<rparr>]\<rparr>)
     else r\<lparr>now_ms := now\<rparr>)"
  by (simp add: faucet_event_def Let_def split: prod.split option.split)

lemma faucet_event_send:
  "faucet_event cfg now (SendIs i res) r =
    (if i < length (inflight r) \<and> rq_phase (inflight r ! i) = AwaitSend then
       (case drip_settle (rq_to (inflight r ! i)) (rq_ip (inflight r ! i)) res (fstate r) of
          (reply, s) \<Rightarrow> r\<lparr>now_ms := now, fstate := s, inflight := drop_nth i (inflight r),
              sent := (case res of Inr h \<Rightarrow> sent r @ [(rq_to (inflight r ! i), rq_at (inflight r ! i))]
                | Inl e \<Rightarrow> sent r)\<rparr>)
     else r\<lparr>now_ms := now\<rparr>)"
  by (simp add: faucet_event_def Let_def split: prod.split sum.split)

lemma spacing_balance:
  assumes inv: "spacing_inv c r" and p: "prompt c now r"
  shows "spacing_inv c (faucet_event cfg now (BalanceIs i bal) r)"
proof -
  have mono: "now_ms r \<le> now" using p by (simp add: prompt_def)
  have ok: "limiters_ok c (fstate r)"
    and sp: "spaced c (entry_of (fstate r)) (map holder (inflight r)) (sent r) (now_ms r)"
    using inv by (simp_all add: spacing_inv_def)
  have stay: "spaced c (entry_of (fstate r)) (map holder (inflight r)) (sent r) now"
    using sp mono by (intro spaced_refused [OF sp mono prompt_live [OF p]]) (auto simp: kept_def)
  show ?thesis
  proof (cases "i < length (inflight r) \<and> rq_phase (inflight r ! i) = AwaitBalance")
    case False
    have "faucet_event cfg now (BalanceIs i bal) r = r\<lparr>now_ms := now\<rparr>"
      by (rule trans [OF faucet_event_balance if_not_P [OF False]])
    then show ?thesis using ok stay by (simp add: spacing_inv_def)
  next
    case True
    let ?q = "inflight r ! i"
    obtain as bs where ab: "inflight r = as @ ?q # bs" "drop_nth i (inflight r) = as @ bs"
      using drop_nth_split True by blast
    have "spaced c (entry_of (fstate r)) (map holder as @ (rq_to ?q, rq_at ?q) # map holder bs) (sent r) (now_ms r)"
      using sp by (subst (asm) ab(1)) (simp add: holder_def)
    note leave = spaced_leave [OF this mono]
    have same: "map holder ((inflight r)[i := ?q\<lparr>rq_phase := AwaitSend\<rparr>]) = map holder (inflight r)"
      using True by (simp add: map_update holder_def list_update_same_conv [THEN iffD2])
    show ?thesis
    proof (cases bal)
      case (Inl e)
      then have "faucet_event cfg now (BalanceIs i bal) r = r\<lparr>now_ms := now, inflight := as @ bs\<rparr>"
        using True ab(2) by (simp add: faucet_event_balance drip_balance_def)
      then show ?thesis using leave(1) ok by (simp add: spacing_inv_def)
    next
      case (Inr b)
      show ?thesis
      proof (cases "b < min_balance_wei cfg")
        case floor: True
        then have "faucet_event cfg now (BalanceIs i bal) r =
            r\<lparr>now_ms := now, fstate := drip_rollback (rq_to ?q) (rq_ip ?q) (fstate r), inflight := as @ bs\<rparr>"
          using True ab(2) Inr by (simp add: faucet_event_balance drip_balance_def)
        then show ?thesis using leave(2) ok by (simp add: spacing_inv_def entry_rollback limiters_ok_rollback)
      next
        case False
        then have "faucet_event cfg now (BalanceIs i bal) r =
            r\<lparr>now_ms := now, inflight := (inflight r)[i := ?q\<lparr>rq_phase := AwaitSend\<rparr>]\<rparr>"
          using True Inr by (simp add: faucet_event_balance drip_balance_def)
        then show ?thesis using stay ok same by (simp add: spacing_inv_def)
      qed
    qed
  qed
qed

lemma spacing_send:
  assumes inv: "spacing_inv c r" and p: "prompt c now r"
  shows "spacing_inv c (faucet_event cfg now (SendIs i res) r)"
proof -
  have mono: "now_ms r \<le> now" using p by (simp add: prompt_def)
  have ok: "limiters_ok c (fstate r)"
    and sp: "spaced c (entry_of (fstate r)) (map holder (inflight r)) (sent r) (now_ms r)"
    using inv by (simp_all add: spacing_inv_def)
  have stay: "spaced c (entry_of (fstate r)) (map holder (inflight r)) (sent r) now"
    using sp mono by (intro spaced_refused [OF sp mono prompt_live [OF p]]) (auto simp: kept_def)
  show ?thesis
  proof (cases "i < length (inflight r) \<and> rq_phase (inflight r ! i) = AwaitSend")
    case False
    have "faucet_event cfg now (SendIs i res) r = r\<lparr>now_ms := now\<rparr>"
      by (rule trans [OF faucet_event_send if_not_P [OF False]])
    then show ?thesis using ok stay by (simp add: spacing_inv_def)
  next
    case True
    let ?q = "inflight r ! i"
    obtain as bs where ab: "inflight r = as @ ?q # bs" "drop_nth i (inflight r) = as @ bs"
      using drop_nth_split True by blast
    have "spaced c (entry_of (fstate r)) (map holder as @ (rq_to ?q, rq_at ?q) # map holder bs) (sent r) (now_ms r)"
      using sp by (subst (asm) ab(1)) (simp add: holder_def)
    note leave = spaced_leave [OF this mono]
    show ?thesis
    proof (cases res)
      case (Inl e)
      then have "faucet_event cfg now (SendIs i res) r =
          r\<lparr>now_ms := now, fstate := drip_rollback (rq_to ?q) (rq_ip ?q) (fstate r), inflight := as @ bs\<rparr>"
        using True ab(2) by (simp add: faucet_event_send drip_settle_def)
      then show ?thesis using leave(2) ok by (simp add: spacing_inv_def entry_rollback limiters_ok_rollback)
    next
      case (Inr h)
      then have "faucet_event cfg now (SendIs i res) r =
          r\<lparr>now_ms := now, inflight := as @ bs, sent := sent r @ [(rq_to ?q, rq_at ?q)]\<rparr>"
        using True ab(2) by (simp add: faucet_event_send drip_settle_def)
      then show ?thesis using leave(3) ok by (simp add: spacing_inv_def)
    qed
  qed
qed

lemma spacing_event: "spacing_inv c r \<Longrightarrow> prompt c now r \<Longrightarrow> spacing_inv c (faucet_event cfg now ev r)"
  by (cases ev) (auto intro: spacing_arrive spacing_balance spacing_send)

lemma spacing_reachable:
  assumes "0 \<le> c" "c \<le> 100000000000000"
  shows "faucet_reachable cfg c r \<Longrightarrow> spacing_inv c r"
proof (induction rule: faucet_reachable.induct)
  case init
  show ?case using assms
    by (simp add: spacing_inv_def faucet_init_def limiters_ok_def limiter_ok_def new_limiter_def spaced_def)
qed (rule spacing_event)

section \<open>Properties\<close>

definition demo_to :: string where
  "demo_to = ''0x'' @ replicate 40 CHR ''a''"

definition demo_TO :: string where
  "demo_TO = ''0x'' @ replicate 40 CHR ''A''"

definition demo_cfg :: faucet_config where
  "demo_cfg = \<lparr>daily_global_max = Fin 2, min_balance_wei = 0, drip_gmb = ''100''\<rparr>"

text \<open>Evaluation of sample runs: addresses stay opaque, ages and days are integers.\<close>

definition hex40 :: "char \<Rightarrow> string" where
  "hex40 c = ''0x'' @ replicate 40 c"

lemma hex40_inject [simp]: "hex40 a = hex40 b \<longleftrightarrow> a = b"
  by (simp add: hex40_def replicate_eq_replicate)

lemma demo_addresses:
  "isEvmAddress (JStr demo_to)" "isEvmAddress (JStr (hex40 CHR ''1''))" "isEvmAddress (JStr (hex40 CHR ''2''))"
  "isEvmAddress (JStr (hex40 CHR ''3''))" "isEvmAddress (JStr (hex40 CHR ''4''))" "isEvmAddress (JStr (hex40 CHR ''5''))"
  "isEvmAddress (JStr (hex40 CHR ''6''))"
  by code_simp+

lemma demo_days:
  "day_of 1000 = Fin 0" "day_of 1100 = Fin 0" "day_of 86399990 = Fin 0" "day_of 86399992 = Fin 0" "day_of 86400000 = Fin 1"
  "day_of 86400001 = Fin 1" "day_of 86400003 = Fin 1" "day_of 86400007 = Fin 1" "day_of 86400009 = Fin 1"
  by code_simp+

lemma demo_left: "js_max (Fin 0) (js_sub (Fin 100) (Fin 100)) = Fin 0"
  by code_simp

lemma within_a_day:
  assumes "0 \<le> t" "t \<le> now" "now < t + 86400000" "now < 1000000000"
  shows "\<not> js_le (Fin 86400000) (elapsed now t)"
  using assms by (subst elapsed_int) (simp_all add: time_ok_def del: of_int_diff)

lemmas demo_event_simps = faucet_event_def drip_enter_def tryAcquire_def remaining_def sweep_def release_def AList.delete_eq
  globalBudgetAllow_def globalBudgetRelease_def drip_balance_def drip_settle_def drip_rollback_def drop_nth_def
  demo_cfg_def js_of_int_small new_limiter_def faucet_init_def demo_addresses demo_days

definition one_drip :: "int \<Rightarrow> string \<Rightarrow> string \<Rightarrow> nat \<Rightarrow> (int \<times> faucet_event) list" where
  "one_drip now to ip i = [(now, Arrive (JStr to) ip), (now, BalanceIs i (Inr 5)), (now, SendIs i (Inr ''0xh''))]"

text \<open>
  C9. Two requests for one address string that were both answered with a drip were accepted at least a cooldown
  apart, in every interleaving of requests, balance checks and sends, with failures anywhere, as long as the
  clock does not go back and every request is answered within a cooldown of its acceptance. The times are
  those at which the limiter let the requests in, not those of the transfers, and a drip whose receipt failed
  is not counted although its coins may have moved: see \<open>lost_receipt_drips_again\<close>.
\<close>

theorem faucet_drips_spaced:
  assumes "0 \<le> c" "c \<le> 100000000000000" "faucet_reachable cfg c r"
    and "i < j" "j < length (sent r)" "fst (sent r ! i) = fst (sent r ! j)"
  shows "snd (sent r ! i) + c \<le> snd (sent r ! j)"
  using spacing_reachable [OF assms(1,2,3)] assms(4-)
  by (auto simp: spacing_inv_def spaced_def sorted_wrt_iff_nth_less split_beta)

theorem faucet_drips_spaced_witness:
  "\<exists>r. faucet_reachable demo_cfg 100 r \<and> sent r = [(demo_to, 1000), (demo_to, 1100)] \<and>
    snd (sent r ! 0) + 100 \<le> snd (sent r ! 1)"
proof -
  let ?e = "\<lambda>now ev r. faucet_event demo_cfg now ev r"
  let ?r1 = "?e 1000 (Arrive (JStr demo_to) ''ip'') (faucet_init 100)"
  let ?r2 = "?e 1000 (BalanceIs 0 (Inr 5)) ?r1"
  let ?r3 = "?e 1000 (SendIs 0 (Inr ''0xh'')) ?r2"
  let ?r4 = "?e 1100 (Arrive (JStr demo_to) ''ip'') ?r3"
  let ?r5 = "?e 1100 (BalanceIs 0 (Inr 5)) ?r4"
  let ?r6 = "?e 1100 (SendIs 0 (Inr ''0xh'')) ?r5"
  have p: "prompt 100 1000 (faucet_init 100)" "prompt 100 1000 ?r1" "prompt 100 1000 ?r2" "prompt 100 1100 ?r3"
    "prompt 100 1100 ?r4" "prompt 100 1100 ?r5"
    by (simp_all add: prompt_def demo_event_simps elapsed_int time_ok_def demo_left)
  have r: "faucet_reachable demo_cfg 100 ?r6"
    by (intro faucet_reachable.event faucet_reachable.init p)
  have s: "sent ?r6 = [(demo_to, 1000), (demo_to, 1100)]"
    by (simp add: demo_event_simps elapsed_int time_ok_def demo_left)
  then show ?thesis using faucet_drips_spaced [OF _ _ r, of 0 1] r by (intro exI [of _ ?r6]) simp
qed

text \<open>What one event can do to the daily counter.\<close>

lemma budget_bounds:
  assumes "daily_global_max cfg = Fin (of_int M)" "0 \<le> M" "M \<le> 2 ^ 53"
    and "0 \<le> drip_count_today s" "drip_count_today s \<le> M"
  shows "0 \<le> drip_count_today (snd (globalBudgetAllow cfg now s)) \<and> drip_count_today (snd (globalBudgetAllow cfg now s)) \<le> M"
    and "0 \<le> drip_count_today (drip_rollback to ip s) \<and> drip_count_today (drip_rollback to ip s) \<le> M"
  using assms
  by (auto simp: globalBudgetAllow_def Let_def js_of_int_small drip_rollback_def globalBudgetRelease_def)

lemma enter_bounds:
  assumes M: "daily_global_max cfg = Fin (of_int M)" "0 \<le> M" "M \<le> 2 ^ 53"
    and s: "0 \<le> drip_count_today s" "drip_count_today s \<le> M"
  shows "0 \<le> drip_count_today (snd (drip_enter cfg address ip now s)) \<and>
    drip_count_today (snd (drip_enter cfg address ip now s)) \<le> M"
proof (cases "\<exists>to. address = JStr to \<and> isEvmAddress (JStr to)")
  case False
  then have "snd (drip_enter cfg address ip now s) = s" by (auto simp: drip_enter_def split: jsval.splits if_splits)
  then show ?thesis using s by simp
next
  case True
  then obtain to where to: "address = JStr to" "isEvmAddress (JStr to)" by blast
  obtain b1 l1 where l1: "tryAcquire to now (by_address s) = (b1, l1)" by (cases "tryAcquire to now (by_address s)")
  obtain b2 l2 where l2: "tryAcquire ip now (by_ip s) = (b2, l2)" by (cases "tryAcquire ip now (by_ip s)")
  let ?s2 = "s\<lparr>by_address := l1, by_ip := l2\<rparr>"
  obtain b3 s3 where s3: "globalBudgetAllow cfg now ?s2 = (b3, s3)" by (cases "globalBudgetAllow cfg now ?s2")
  have b: "0 \<le> drip_count_today s3 \<and> drip_count_today s3 \<le> M"
    using budget_bounds(1) [OF M, of ?s2 now] s s3 by simp
  show ?thesis
  proof (cases b1)
    case False
    then show ?thesis using s by (simp add: drip_enter_def to l1)
  next
    case b1: True
    show ?thesis
    proof (cases b2)
      case False
      then show ?thesis using s by (simp add: drip_enter_def to l1 b1 l2)
    next
      case True
      then show ?thesis using b by (cases b3) (simp_all add: drip_enter_def to l1 b1 l2 s3 Let_def)
    qed
  qed
qed

lemma event_bounds:
  assumes M: "daily_global_max cfg = Fin (of_int M)" "0 \<le> M" "M \<le> 2 ^ 53"
    and r: "0 \<le> drip_count_today (fstate r)" "drip_count_today (fstate r) \<le> M"
  shows "0 \<le> drip_count_today (fstate (faucet_event cfg now ev r)) \<and>
    drip_count_today (fstate (faucet_event cfg now ev r)) \<le> M"
proof (cases ev)
  case (Arrive address ip)
  obtain res s where e: "drip_enter cfg address ip now (fstate r) = (res, s)"
    by (cases "drip_enter cfg address ip now (fstate r)")
  show ?thesis
    using enter_bounds [OF M r, of address ip now] e by (cases res) (simp_all add: Arrive faucet_event_def Let_def)
next
  case (BalanceIs i bal)
  show ?thesis
    using r budget_bounds(2) [OF M r]
    by (cases bal) (simp_all add: BalanceIs faucet_event_balance drip_balance_def)
next
  case (SendIs i res)
  show ?thesis
    using r budget_bounds(2) [OF M r]
    by (cases res) (simp_all add: SendIs faucet_event_send drip_settle_def)
qed

text \<open>
  C10. The daily counter never exceeds the configured maximum and never goes below zero, in every
  interleaving and whatever fails.
\<close>

theorem faucet_budget_bounded:
  assumes "daily_global_max cfg = Fin (of_int M)" "0 \<le> M" "M \<le> 2 ^ 53"
  shows "0 \<le> drip_count_today (fstate (run_events cfg evs (faucet_init c))) \<and>
    drip_count_today (fstate (run_events cfg evs (faucet_init c))) \<le> M"
proof -
  have "0 \<le> drip_count_today (fstate r) \<Longrightarrow> drip_count_today (fstate r) \<le> M \<Longrightarrow>
      0 \<le> drip_count_today (fstate (run_events cfg evs r)) \<and> drip_count_today (fstate (run_events cfg evs r)) \<le> M" for r
    by (induction evs arbitrary: r) (use event_bounds [OF assms] in auto)
  then show ?thesis using assms(2) by (simp add: faucet_init_def)
qed

theorem faucet_budget_bounded_witness:
  "drip_count_today (fstate (run_events demo_cfg (one_drip 1000 demo_to ''ip'' 0) (faucet_init 100))) \<le> 2"
  using faucet_budget_bounded [of demo_cfg 2] by (simp add: demo_cfg_def)

text \<open>
  A drip that fails to send costs the requester nothing: after the roll-back the address and the
  IP can acquire again, every other key is as it was, and the counter is what the day started the
  request with.
\<close>

theorem failed_drip_rolls_back:
  assumes "limiters_ok c s" "time_ok now" "drip_enter cfg address ip now s = (Inr to, s1)" "0 \<le> drip_count_today s"
    and "now \<le> later"
  shows "let s2 = snd (drip_settle to ip (Inl e) s1) in
    cooldown_entry c (by_address s2) k later = (if k = to then None else cooldown_entry c (by_address s) k later) \<and>
    cooldown_entry c (by_ip s2) k later = (if k = ip then None else cooldown_entry c (by_ip s) k later) \<and>
    drip_count_today s2 = (if day_of now = drip_day s then drip_count_today s else 0)"
proof -
  have ok: "limiter_ok c (by_address s)" "limiter_ok c (by_ip s)" using assms(1) by (simp_all add: limiters_ok_def)
  obtain l1 l2 where l1: "tryAcquire to now (by_address s) = (True, l1)" and l2: "tryAcquire ip now (by_ip s) = (True, l2)"
    and b: "globalBudgetAllow cfg now (s\<lparr>by_address := l1, by_ip := l2\<rparr>) = (True, s1)"
    using assms(3) by (auto simp: drip_enter_def Let_def split: jsval.splits if_splits prod.splits bool.splits)
  have lims: "by_address s1 = l1" "by_ip s1 = l2" using budget_limiters [OF b] by auto
  have cnt: "drip_count_today s1 = (if day_of now = drip_day s then drip_count_today s else 0) + 1"
    using b by (auto simp: globalBudgetAllow_def Let_def split: if_splits)
  have "cooldown_entry c (release to l1) k later = (if k = to then None else cooldown_entry c (by_address s) k later)"
    using cooldown.undo_acquire [OF ok(1) assms(2) _ assms(5), of to k] l1 by simp
  moreover have "cooldown_entry c (release ip l2) k later = (if k = ip then None else cooldown_entry c (by_ip s) k later)"
    using cooldown.undo_acquire [OF ok(2) assms(2) _ assms(5), of ip k] l2 by simp
  ultimately show ?thesis
    using assms(4) cnt by (simp add: drip_settle_def rollback_limiters lims drip_rollback_def globalBudgetRelease_def)
qed

theorem failed_drip_rolls_back_witness:
  "drip_count_today (snd (drip_settle demo_to ''ip'' (Inl ''x'')
     (snd (drip_enter demo_cfg (JStr demo_to) ''ip'' 1000 (fstate (faucet_init 100)))))) = 0"
proof -
  let ?s = "fstate (faucet_init 100)"
  let ?e = "drip_enter demo_cfg (JStr demo_to) ''ip'' 1000 ?s"
  have "fst ?e = Inr demo_to" by code_simp
  then have e: "?e = (Inr demo_to, snd ?e)" by (simp add: prod_eq_iff)
  have ok: "limiters_ok 100 ?s" by (simp add: faucet_init_def limiters_ok_def limiter_ok_def new_limiter_def)
  have d: "drip_count_today ?s = 0" by (simp add: faucet_init_def)
  have t: "time_ok 1000" by (simp add: time_ok_def)
  show ?thesis using failed_drip_rolls_back [OF ok t e, of 1000 "''x''" demo_to] d by (simp add: Let_def)
qed

section \<open>Around the guards\<close>

definition midnight_run :: "(int \<times> faucet_event) list" where
  "midnight_run = (let d = 86400000; a = (\<lambda>c. JStr (hex40 c)) in
     [(d - 10, Arrive (a CHR ''1'') ''i1''), (d - 9, BalanceIs 0 (Inr 5)),
      (d - 8, Arrive (a CHR ''2'') ''i2''), (d - 7, BalanceIs 1 (Inr 5)),
      (d + 1, Arrive (a CHR ''3'') ''i3''), (d + 1, BalanceIs 2 (Inr 5)), (d + 2, SendIs 2 (Inr ''h'')),
      (d + 3, Arrive (a CHR ''4'') ''i4''), (d + 3, BalanceIs 2 (Inr 5)), (d + 4, SendIs 2 (Inr ''h'')),
      (d + 5, SendIs 0 (Inl ''timeout'')), (d + 6, SendIs 0 (Inl ''timeout'')),
      (d + 7, Arrive (a CHR ''5'') ''i5''), (d + 7, BalanceIs 0 (Inr 5)), (d + 8, SendIs 0 (Inr ''h'')),
      (d + 9, Arrive (a CHR ''6'') ''i6''), (d + 9, BalanceIs 0 (Inr 5)), (d + 10, SendIs 0 (Inr ''h''))])"

lemma midnight_sent: "sent (run_events demo_cfg midnight_run (faucet_init 86400000)) =
   [(hex40 CHR ''3'', 86400001), (hex40 CHR ''4'', 86400003), (hex40 CHR ''5'', 86400007), (hex40 CHR ''6'', 86400009)]"
  by (simp add: midnight_run_def demo_event_simps within_a_day)

text \<open>
  The roll-back of the daily counter does not know the day: a request that enters before midnight
  and fails after it gives its slot back to the new day. With a maximum of 2 per day, four drips are
  sent on one day.
\<close>

theorem midnight_exceeds_daily_budget:
  "daily_global_max demo_cfg = Fin 2 \<and>
   length (filter (\<lambda>(to, t). day_of t = day_of 86400000)
     (sent (run_events demo_cfg midnight_run (faucet_init 86400000)))) = 4"
  by (simp add: midnight_sent demo_days) (simp add: demo_cfg_def)

text \<open>
  A transfer that is mined while its receipt is lost counts as a failed send: the cooldowns are released, and
  the next request of the same address, a millisecond later, is answered with a second drip.
\<close>

theorem lost_receipt_drips_again:
  "\<exists>e. faucet_drip demo_to NoReceipt = Inl e \<and>
     sent (run_events demo_cfg ([(1000, Arrive (JStr demo_to) ''ip''), (1000, BalanceIs 0 (Inr 5)), (1099, SendIs 0 (Inl e))] @
       one_drip 1100 demo_to ''ip'' 0) (faucet_init 86400000)) = [(demo_to, 1100)]"
  by (simp add: faucet_drip_def one_drip_def demo_event_simps)

text \<open>
  When the balance call itself fails nothing is rolled back: the answer is 500, nothing was sent,
  and the address, the IP and a slot of the daily budget stay taken for the whole cooldown.
\<close>

theorem balance_failure_burns_cooldown:
  assumes "limiters_ok c s" "time_ok now" "drip_enter cfg address ip now s = (Inr to, s1)"
    and "time_ok later" "now \<le> later" "later < now + c"
  shows "drip_balance cfg to ip (Inl e) s1 = (Some InternalError, s1) \<and>
    drip_enter cfg (JStr to) ip' later s1 = (Inl (AddressOnCooldown (Fin (of_int (c - (later - now))))), s1)"
proof -
  note ent = drip_enter_entries [OF assms(1-3)]
  have m: "map_of (last_acquired (by_address s1)) to = Some now" and ok: "limiter_ok c (by_address s1)"
    using ent(1) ent(3) [OF refl] by (auto simp: limiters_ok_def)
  have valid: "isEvmAddress (JStr to)"
    using assms(3) by (auto simp: drip_enter_def Let_def split: jsval.splits if_splits prod.splits bool.splits)
  have "on_cooldown c (by_address s1) to later" using m assms(6) by (simp add: on_cooldown_def)
  then have "tryAcquire to later (by_address s1) = (False, by_address s1)"
    by (simp add: tryAcquire_cases [OF ok assms(4)])
  then show ?thesis
    using valid m assms(6) by (simp add: drip_balance_def drip_enter_def remaining_int [OF ok assms(4)])
qed

theorem balance_failure_burns_cooldown_witness:
  "fst (drip_enter demo_cfg (JStr demo_to) ''ip2'' 1099
     (snd (drip_enter demo_cfg (JStr demo_to) ''ip'' 1000 (fstate (faucet_init 100))))) = Inl (AddressOnCooldown (Fin 1))"
proof -
  let ?s = "fstate (faucet_init 100)"
  let ?e = "drip_enter demo_cfg (JStr demo_to) ''ip'' 1000 ?s"
  have "fst ?e = Inr demo_to" by code_simp
  then have e: "?e = (Inr demo_to, snd ?e)" by (simp add: prod_eq_iff)
  have ok: "limiters_ok 100 ?s" by (simp add: faucet_init_def limiters_ok_def limiter_ok_def new_limiter_def)
  have t: "time_ok 1000" "time_ok 1099" by (simp_all add: time_ok_def)
  show ?thesis using balance_failure_burns_cooldown [OF ok t(1) e t(2), of "''x''" "''ip2''"] by simp
qed

text \<open>
  The cooldown is per spelling, not per account: an address acquired a moment ago is free again in
  another letter case, so one account receives a drip for each spelling (from another IP).
\<close>

theorem respelled_address_not_on_cooldown:
  assumes "limiters_ok c s" "time_ok now" "drip_enter cfg address ip now s = (Inr to, s1)"
    and "to' \<noteq> to" "cooldown_entry c (by_address s) to' now = None"
  shows "fst (tryAcquire to' now (by_address s1))"
proof -
  note ent = drip_enter_entries [OF assms(1-3)]
  have ok: "limiter_ok c (by_address s1)" using ent(1) by (simp add: limiters_ok_def)
  have "stays_or_expired c now (by_address s) (by_address s1) to'" using ent(3) [OF refl] assms(4) by blast
  then have "cooldown_entry c (by_address s1) to' now = None"
    using assms(5) by (auto simp: cooldown_entry_def stays_or_expired_def split: option.splits if_splits)
  then show ?thesis using cooldown.acquire_iff [OF ok assms(2)] by simp
qed

theorem respelled_address_not_on_cooldown_witness:
  "to_lower demo_TO = demo_to \<and> fst (tryAcquire demo_TO 1000
     (by_address (snd (drip_enter demo_cfg (JStr demo_to) ''ip'' 1000 (fstate (faucet_init 100))))))"
proof -
  let ?s = "fstate (faucet_init 100)"
  let ?e = "drip_enter demo_cfg (JStr demo_to) ''ip'' 1000 ?s"
  have "fst ?e = Inr demo_to" by code_simp
  then have e: "?e = (Inr demo_to, snd ?e)" by (simp add: prod_eq_iff)
  have ok: "limiters_ok 100 ?s" by (simp add: faucet_init_def limiters_ok_def limiter_ok_def new_limiter_def)
  have t: "time_ok 1000" by (simp add: time_ok_def)
  have "demo_TO \<noteq> demo_to" "to_lower demo_TO = demo_to" by (code_simp, code_simp)
  moreover have "cooldown_entry 100 (by_address ?s) demo_TO 1000 = None"
    by (simp add: cooldown_entry_def faucet_init_def new_limiter_def)
  ultimately show ?thesis using respelled_address_not_on_cooldown [OF ok t e] by blast
qed

text \<open>
  The limiter does not grow with the number of requests: right after an acquisition every entry it
  holds is less than one cooldown old.
\<close>

theorem limiter_memory_bounded:
  assumes "limiter_ok c l" "time_ok now" "tryAcquire k now l = (True, l')" "0 < c"
  shows "\<forall>(k', t) \<in> set (last_acquired l'). now < t + c"
  using acquire_prunes [OF assms] .

theorem limiter_memory_bounded_witness:
  "last_acquired (snd (tryAcquire ''c'' 1200 (snd (tryAcquire ''b'' 1150 (snd (tryAcquire ''a'' 1000 (new_limiter (Fin 100)))))))) =
     [(''b'', 1150), (''c'', 1200)] \<and>
   list_all (\<lambda>(k', t). 1200 < t + 100) [(''b'', 1150), (''c'', 1200 :: int)]"
proof -
  let ?l = "snd (tryAcquire ''b'' 1150 (snd (tryAcquire ''a'' 1000 (new_limiter (Fin 100)))))"
  have t: "time_ok 1000" "time_ok 1150" "time_ok 1200" by (simp_all add: time_ok_def)
  have "limiter_ok 100 (new_limiter (Fin 100))" by (simp add: limiter_ok_def new_limiter_def)
  then have ok: "limiter_ok 100 ?l" by (intro cooldown.acquire_valid t)
  have "fst (tryAcquire ''c'' 1200 ?l)" by code_simp
  then have e: "tryAcquire ''c'' 1200 ?l = (True, snd (tryAcquire ''c'' 1200 ?l))" by (simp add: prod_eq_iff)
  have l: "last_acquired (snd (tryAcquire ''c'' 1200 ?l)) = [(''b'', 1150), (''c'', 1200)]" by code_simp
  show ?thesis using limiter_memory_bounded [OF ok t(3) e] l by (simp add: list_all_iff)
qed

end
