(* ===== verification/Limiter_Refinement.thy ===== *)
theory Limiter_Refinement
  imports Cooldown
begin

text \<open>
  The cooldown limiter against its specification: a ledger that remembers the last acquisition of every
  key for ever. The limiter forgets an entry when it sweeps, and nobody can tell.
\<close>

section \<open>The ledger\<close>

type_synonym ledger = "string \<Rightarrow> int option"

definition ledger_entry :: "int \<Rightarrow> ledger \<Rightarrow> string \<Rightarrow> int \<Rightarrow> int option" where
  "ledger_entry c m k now = (case m k of None \<Rightarrow> None | Some t \<Rightarrow> if now < t + c then Some t else None)"

datatype limiter_op = Acquire string int | Release string

fun ledger_answers :: "int \<Rightarrow> limiter_op list \<Rightarrow> ledger \<Rightarrow> bool list" where
  "ledger_answers c [] m = []"
| "ledger_answers c (Acquire k now # ops) m = (if ledger_entry c m k now = None
     then True # ledger_answers c ops (m(k \<mapsto> now)) else False # ledger_answers c ops m)"
| "ledger_answers c (Release k # ops) m = ledger_answers c ops (m(k := None))"

fun answers :: "(string \<Rightarrow> int \<Rightarrow> 'l \<Rightarrow> bool \<times> 'l) \<Rightarrow> (string \<Rightarrow> 'l \<Rightarrow> 'l) \<Rightarrow> limiter_op list \<Rightarrow> 'l \<Rightarrow> bool list" where
  "answers acq rel [] l = []"
| "answers acq rel (Acquire k now # ops) l = fst (acq k now l) # answers acq rel ops (snd (acq k now l))"
| "answers acq rel (Release k # ops) l = answers acq rel ops (rel k l)"

text \<open>The clock does not go back, and stays within \<open>P\<close>.\<close>

fun clocked :: "(int \<Rightarrow> bool) \<Rightarrow> int \<Rightarrow> limiter_op list \<Rightarrow> bool" where
  "clocked P t0 [] = True"
| "clocked P t0 (Acquire k now # ops) = (P now \<and> t0 \<le> now \<and> clocked P now ops)"
| "clocked P t0 (Release k # ops) = clocked P t0 ops"

section \<open>The simulation\<close>

context rate_limiter
begin

text \<open>From \<open>t0\<close> on, limiter and ledger hold the same keys.\<close>

definition simulates :: "int \<Rightarrow> 'l \<Rightarrow> ledger \<Rightarrow> bool" where
  "simulates t0 l m = (\<forall>k later. t0 \<le> later \<longrightarrow> entry l k later = ledger_entry window m k later)"

lemma simulates_later: "simulates t0 l m \<Longrightarrow> t0 \<le> t \<Longrightarrow> simulates t l m"
  by (simp add: simulates_def)

lemma simulates_acquire:
  assumes "simulates now l m" "valid l" "valid_time now" "entry l k now = None"
  shows "simulates now (snd (acquire k now l)) (m(k \<mapsto> now))"
  using assms acquire_iff [OF assms(2,3)] acquire_entry [OF assms(2,3)]
  by (simp add: simulates_def ledger_entry_def)

lemma simulates_undo: "simulates t l m \<Longrightarrow> simulates t (undo k l) (m(k := None))"
  by (simp add: simulates_def ledger_entry_def undo_entry)

lemma answers_agree:
  "simulates t0 l m \<Longrightarrow> valid l \<Longrightarrow> clocked valid_time t0 ops \<Longrightarrow>
    answers acquire undo ops l = ledger_answers window ops m"
proof (induction ops arbitrary: t0 l m)
  case (Cons op ops)
  show ?case
  proof (cases op)
    case (Acquire k now)
    then have t: "valid_time now" "t0 \<le> now" "clocked valid_time now ops" using Cons.prems(3) by simp_all
    have s: "simulates now l m" using Cons.prems(1) t(2) by (rule simulates_later)
    then have e: "entry l k now = ledger_entry window m k now" by (simp add: simulates_def)
    note v = Cons.prems(2)
    show ?thesis
    proof (cases "fst (acquire k now l)")
      case True
      then have n: "entry l k now = None" using acquire_iff [OF v t(1)] by simp
      then have "simulates now (snd (acquire k now l)) (m(k \<mapsto> now))" by (rule simulates_acquire [OF s v t(1)])
      with Cons.IH acquire_valid [OF v t(1)] t(3) True n e Acquire show ?thesis by (simp add: fun_upd_def)
    next
      case False
      with Cons.IH [OF s v t(3)] acquire_refused [OF v t(1)] acquire_iff [OF v t(1)] e Acquire show ?thesis by auto
    qed
  next
    case (Release k)
    with Cons.IH [OF simulates_undo [OF Cons.prems(1)] undo_valid [OF Cons.prems(2)]] Cons.prems(3)
    show ?thesis by (simp add: fun_upd_def)
  qed
qed simp

end

text \<open>
  C12. Over every run of acquisitions and releases whose clock does not go back, the limiter that sweeps
  gives the answers of a ledger that never forgets.
\<close>

theorem limiter_refines_ledger:
  assumes "0 \<le> c" "c \<le> 100000000000000" "clocked time_ok t0 ops"
  shows "answers tryAcquire release ops (new_limiter (Fin (of_int c))) = ledger_answers c ops (\<lambda>k. None)"
proof (rule cooldown.answers_agree)
  show "cooldown.simulates c t0 (new_limiter (Fin (of_int c))) (\<lambda>k. None)"
    unfolding cooldown.simulates_def by (simp add: cooldown_entry_def ledger_entry_def new_limiter_def)
  show "limiter_ok c (new_limiter (Fin (of_int c)))" using assms by (simp add: limiter_ok_def new_limiter_def)
qed (rule assms(3))

theorem limiter_refines_ledger_witness:
  "answers tryAcquire release [Acquire ''a'' 5, Acquire ''a'' 9, Acquire ''b'' 9, Release ''b'', Acquire ''b'' 10, Acquire ''a'' 15]
     (new_limiter (Fin (of_int 10))) = [True, False, True, True, True]"
  using limiter_refines_ledger [of 10 5 "[Acquire ''a'' 5, Acquire ''a'' 9, Acquire ''b'' 9, Release ''b'', Acquire ''b'' 10, Acquire ''a'' 15]"]
  by (simp add: time_ok_def ledger_entry_def)

end
