(* ===== verification/Purchase.thy ===== *)
theory Purchase
  imports Gemba_Prelude
begin

text \<open>
  The GMB purchase backend: services/purchase-backend/src/server.js. A buyer creates an order, pays
  at the gateway, and the gateway's signed webhook makes the service dispense the order's GMB from
  contracts/src/payments/GembaPayDispenser.sol, which does not look at the reference it is given.

  The webhook handler awaits the dispense, so it is two definitions (\<open>webhook_enter\<close>,
  \<open>webhook_settle\<close>) and other requests run in between; a run is any sequence of events. The set of orders
  in flight holds the order id as it stands in the webhook, which may be any JSON value. HMAC, JSON
  parsing, address checks, the encoding of amounts and the hash of the order id are parameters.
\<close>

section \<open>Configuration\<close>

record purchase_cfg =
  pc_network :: string
  whsec :: string
  gembapay_key :: string
  price_per_gmb_eur :: jsnum
  min_gmb :: jsnum
  max_gmb :: jsnum
  pc_rpc :: string
  pc_chain_id :: jsnum
  pc_dispenser :: string
  owner_pk :: string
  checkout_base :: string

definition is_mainnet :: "env \<Rightarrow> bool" where
  "is_mainnet env = (to_lower (env_or env ''NETWORK'' ''testnet'') = ''mainnet'')"

text \<open>A value with no safe default on mainnet.\<close>

definition env_required :: "env \<Rightarrow> string \<Rightarrow> string + string" where
  "env_required env name = (let v = env_or env name [] in
     if v = [] \<and> is_mainnet env then Inl (name @ '' is required when NETWORK=mainnet'') else Inr v)"

text \<open>The configuration and the checks that stop the process before it listens.\<close>

definition purchase_start :: "env \<Rightarrow> string + purchase_cfg" where
  "purchase_start env = (let mn = is_mainnet env in
     case env_required env ''GEMBA_DISPENSER_ADDRESS'' of Inl e \<Rightarrow> Inl e
     | Inr disp \<Rightarrow> (case env_required env ''GEMBA_DISPENSER_OWNER_PK'' of Inl e \<Rightarrow> Inl e
       | Inr pk \<Rightarrow>
          (let secret = env_or env ''GEMBAPAY_WEBHOOK_SECRET'' [] in
           if mn \<and> secret = [] then Inl ''GEMBAPAY_WEBHOOK_SECRET is required when NETWORK=mainnet''
           else if secret = [] then Inl ''FATAL: GEMBAPAY_WEBHOOK_SECRET is empty''
           else if pk = [] \<or> disp = [] then Inl ''FATAL: GEMBA_DISPENSER_OWNER_PK / GEMBA_DISPENSER_ADDRESS missing''
           else Inr \<lparr>pc_network = to_lower (env_or env ''NETWORK'' ''testnet''), whsec = secret,
             gembapay_key = env_or env ''GEMBAPAY_API_KEY'' [],
             price_per_gmb_eur = env_num env ''GMB_PRICE_EUR'' (if mn then Fin 1 else Fin (dbl (1 / 10))),
             min_gmb = env_num env ''MIN_GMB'' (Fin 10), max_gmb = env_num env ''MAX_GMB'' (Fin 10000),
             pc_rpc = env_or env ''GEMBA_RPC_URL'' (if mn then ''https://gmb1.gembascan.io'' else ''https://rpc1.gembascan.io''),
             pc_chain_id = env_num env ''GEMBA_CHAIN_ID'' (if mn then Fin 821206 else Fin 821207),
             pc_dispenser = disp, owner_pk = pk,
             checkout_base = env_or env ''GEMBAPAY_CHECKOUT_BASE'' ''https://payment.gembapay.com''\<rparr>)))"

section \<open>Orders\<close>

datatype order_status = OrderPending | OrderFulfilled

record order =
  o_evmAddress :: string
  o_gmbAmount :: jsnum
  o_eur :: jsnum
  o_status :: order_status
  o_txHash :: "string option"

type_synonym order_store = "(string, order) jsmap"

text \<open>
  \<open>orders[id]\<close> on a plain object: an own property, a member that every object inherits (truthy, with
  none of an order's fields), or \<open>undefined\<close>.
\<close>

datatype order_lookup = OwnOrder order | InheritedMember | NoOrder

definition inherited_keys :: "string list" where
  "inherited_keys = [''__proto__'', ''constructor'', ''hasOwnProperty'', ''isPrototypeOf'', ''propertyIsEnumerable'',
     ''toLocaleString'', ''toString'', ''valueOf'', ''__defineGetter__'', ''__defineSetter__'',
     ''__lookupGetter__'', ''__lookupSetter__'']"

definition lookup_order :: "order_store \<Rightarrow> string \<Rightarrow> order_lookup" where
  "lookup_order orders i = (case map_of orders i of Some o1 \<Rightarrow> OwnOrder o1
     | None \<Rightarrow> if i \<in> set inherited_keys then InheritedMember else NoOrder)"

record gateway_platform =
  hmac_hex :: "string \<Rightarrow> string \<Rightarrow> string"
  json_parse :: "string \<Rightarrow> string + jsval"
  is_evm_address :: "string \<Rightarrow> bool"
  num_text :: "jsnum \<Rightarrow> string"
  new_order_id :: "nat \<Rightarrow> string"
  id_accepts :: "jsval \<Rightarrow> bool"

record purchase_state =
  orders :: order_store
  disk :: order_store
  dispensing :: "jsval list"
  order_seq :: nat

section \<open>POST /api/purchase/create\<close>

datatype purchase_reply =
    InvalidEvmAddress
  | InvalidAmount
  | GatewayError
  | Created string string jsnum jsnum
  | ServerError
  | BadSignature
  | Ignored
  | UnknownOrder
  | AlreadyDone
  | CurrencyMismatch
  | AmountMismatch
  | Dispensed
  | StatusOf "order_status option" "jsnum option" "string option"
  | NotFound

fun purchase_status :: "purchase_reply \<Rightarrow> nat" where
  "purchase_status InvalidEvmAddress = 400"
| "purchase_status InvalidAmount = 400"
| "purchase_status GatewayError = 502"
| "purchase_status (Created i u e g) = 200"
| "purchase_status ServerError = 500"
| "purchase_status BadSignature = 401"
| "purchase_status Ignored = 200"
| "purchase_status UnknownOrder = 200"
| "purchase_status AlreadyDone = 200"
| "purchase_status CurrencyMismatch = 400"
| "purchase_status AmountMismatch = 400"
| "purchase_status Dispensed = 200"
| "purchase_status (StatusOf s g t) = 200"
| "purchase_status NotFound = 404"

definition price_eur :: "purchase_cfg \<Rightarrow> jsnum \<Rightarrow> jsnum" where
  "price_eur cfg gmb = js_div (js_round (js_mul (js_mul gmb (price_per_gmb_eur cfg)) (Fin 100))) (Fin 100)"

definition upper_char :: "char \<Rightarrow> char" where
  "upper_char c = (let n = code_unit c in
     if (97 \<le> n \<and> n \<le> 122) \<or> (224 \<le> n \<and> n \<le> 254 \<and> n \<noteq> 247) then char_of (n - 32) else c)"

text \<open>Up to the request to the gateway: the checks, the new order, \<open>save\<close> (which may throw).\<close>

definition create_enter :: "gateway_platform \<Rightarrow> purchase_cfg \<Rightarrow> (string \<times> jsval) list \<Rightarrow> bool \<Rightarrow> purchase_state \<Rightarrow>
    (purchase_reply + string) \<times> purchase_state" where
  "create_enter P cfg body save_ok s = (
     let evmAddress = trim (js_string (num_text P) (or_else (get_prop body ''evmAddress'') (JStr [])));
         gmb = to_number (get_prop body ''gmbAmount'') in
     if \<not> is_evm_address P evmAddress then (Inl InvalidEvmAddress, s)
     else if \<not> (js_le (min_gmb cfg) gmb \<and> js_le gmb (max_gmb cfg)) then (Inl InvalidAmount, s)
     else (let eur = price_eur cfg gmb; orderId = new_order_id P (order_seq s);
               o1 = \<lparr>o_evmAddress = evmAddress, o_gmbAmount = gmb, o_eur = eur, o_status = OrderPending, o_txHash = None\<rparr>;
               os = AList.update orderId o1 (orders s);
               s1 = s\<lparr>orders := os, order_seq := Suc (order_seq s)\<rparr> in
           if save_ok then (Inr orderId, s1\<lparr>disk := os\<rparr>) else (Inl ServerError, s1)))"

text \<open>What the gateway answered: it failed, it refused, or it accepted with a URL or without.\<close>

datatype gateway_answer = GatewayThrew | GatewayRefused | GatewayOk "string option"

definition create_settle :: "purchase_cfg \<Rightarrow> string \<Rightarrow> gateway_answer \<Rightarrow> purchase_state \<Rightarrow> purchase_reply" where
  "create_settle cfg orderId ans s = (case ans of
      GatewayThrew \<Rightarrow> ServerError
    | GatewayRefused \<Rightarrow> GatewayError
    | GatewayOk url \<Rightarrow> (case map_of (orders s) orderId of None \<Rightarrow> ServerError
        | Some o1 \<Rightarrow> Created orderId (case url of Some u \<Rightarrow> (if u = [] then checkout_base cfg @ ''/checkout/'' @ orderId else u)
             | None \<Rightarrow> checkout_base cfg @ ''/checkout/'' @ orderId) (o_eur o1) (o_gmbAmount o1)))"

section \<open>POST /api/purchase/webhook\<close>

text \<open>
  The comparison of the signatures. \<open>timingSafeEqual\<close> throws when the byte lengths differ: code units
  above 127 take two bytes.
\<close>

definition utf8_length :: "string \<Rightarrow> nat" where
  "utf8_length s = sum_list (map (\<lambda>c. if code_unit c < 128 then 1 else 2) s)"

datatype sig_check = SigOk | SigBad | SigThrows

definition check_signature :: "gateway_platform \<Rightarrow> purchase_cfg \<Rightarrow> string option \<Rightarrow> string \<Rightarrow> sig_check" where
  "check_signature P cfg sig_header raw = (
     let sig = (case sig_header of None \<Rightarrow> [] | Some s \<Rightarrow> s); expected = hmac_hex P (whsec cfg) raw in
     if length sig \<noteq> length expected then SigBad
     else if utf8_length sig \<noteq> utf8_length expected then SigThrows
     else if sig = expected then SigOk else SigBad)"

text \<open>A property of a parsed value; reading one of null or undefined throws.\<close>

definition read_prop :: "jsval \<Rightarrow> string \<Rightarrow> jsval option" where
  "read_prop v k = (case v of JUndef \<Rightarrow> None | JNull \<Rightarrow> None | JObj ps \<Rightarrow> Some (get_prop ps k) | _ \<Rightarrow> Some JUndef)"

definition currency_field :: "jsval \<Rightarrow> jsval \<Rightarrow> jsval" where
  "currency_field p body = or_else (or_else (the (read_prop p ''currency'')) (the (read_prop body ''currency''))) (JStr [])"

definition paid_currency :: "gateway_platform \<Rightarrow> jsval \<Rightarrow> jsval \<Rightarrow> string" where
  "paid_currency P p body = map upper_char (js_string (num_text P) (currency_field p body))"

definition amount_field :: "jsval \<Rightarrow> jsval \<Rightarrow> jsval" where
  "amount_field p body = nullish (the (read_prop p ''amount'')) (the (read_prop body ''amount''))"

definition paid_amount :: "jsval \<Rightarrow> jsval \<Rightarrow> jsnum" where
  "paid_amount p body = to_number (amount_field p body)"

text \<open>
  \<open>inflight.has(orderId)\<close> on the value as it was parsed: arrays and objects are told apart by identity,
  and those of another webhook are other ones, so only primitive values are ever found again.
\<close>

definition in_flight :: "jsval list \<Rightarrow> jsval \<Rightarrow> bool" where
  "in_flight vs v = (case v of JArr _ \<Rightarrow> False | JObj _ \<Rightarrow> False | _ \<Rightarrow> v \<in> set vs)"

definition amount_differs :: "jsnum \<Rightarrow> jsnum \<Rightarrow> bool" where
  "amount_differs paid eur = (js_is_finite paid \<and> js_lt (Fin (dbl (1 / 100))) (js_abs (js_sub paid eur)))"

record webhook =
  wh_signature :: "string option"
  wh_event :: "string option"
  wh_raw :: string

text \<open>
  Up to the dispense: the reply, or the order id that was put into the set of orders in flight. As a key
  of \<open>orders\<close> the id is its text; \<open>InheritedMember\<close> passes every check (its amount is \<open>undefined\<close>) and
  fails when the amount is parsed: the reply is \<open>ServerError\<close>. The last test is the hash
  \<open>keccakId(orderId)\<close> at the start of \<open>dispenseGmb\<close>: when it throws, \<open>finally\<close> takes the id out of
  the set again before anything else runs, and nothing is sent.
\<close>

definition webhook_enter :: "gateway_platform \<Rightarrow> purchase_cfg \<Rightarrow> webhook \<Rightarrow> purchase_state \<Rightarrow> (purchase_reply + jsval) \<times> purchase_state" where
  "webhook_enter P cfg wh s = (case check_signature P cfg (wh_signature wh) (wh_raw wh) of
     SigThrows \<Rightarrow> (Inl ServerError, s)
   | SigBad \<Rightarrow> (Inl BadSignature, s)
   | SigOk \<Rightarrow> (case json_parse P (wh_raw wh) of
       Inl e \<Rightarrow> (Inl ServerError, s)
     | Inr body \<Rightarrow> (case (read_prop body ''event'', read_prop body ''payment'') of
         (Some ev, Some pay) \<Rightarrow>
           (let event = or_else ev (case wh_event wh of None \<Rightarrow> JUndef | Some h \<Rightarrow> JStr h);
                p = or_else pay (JObj []) in
            if event \<noteq> JStr ''payment.completed'' then (Inl Ignored, s)
            else (let orderId = the (read_prop p ''orderId'') in
              if text_throws orderId then (Inl ServerError, s)
              else (case lookup_order (orders s) (js_string (num_text P) orderId) of
                NoOrder \<Rightarrow> (Inl UnknownOrder, s)
              | InheritedMember \<Rightarrow>
                  if in_flight (dispensing s) orderId then (Inl AlreadyDone, s)
                  else if text_throws (currency_field p body) then (Inl ServerError, s)
                  else if paid_currency P p body \<noteq> [] \<and> paid_currency P p body \<noteq> ''EUR'' then (Inl CurrencyMismatch, s)
                  else (Inl ServerError, s)
              | OwnOrder o1 \<Rightarrow>
                  if o_status o1 = OrderFulfilled \<or> in_flight (dispensing s) orderId then (Inl AlreadyDone, s)
                  else if text_throws (currency_field p body) then (Inl ServerError, s)
                  else if paid_currency P p body \<noteq> [] \<and> paid_currency P p body \<noteq> ''EUR'' then (Inl CurrencyMismatch, s)
                  else if text_throws (amount_field p body) then (Inl ServerError, s)
                  else if amount_differs (paid_amount p body) (o_eur o1) then (Inl AmountMismatch, s)
                  else if \<not> id_accepts P orderId then (Inl ServerError, s)
                  else (Inr orderId, s\<lparr>dispensing := orderId # dispensing s\<rparr>))))
       | _ \<Rightarrow> (Inl ServerError, s))))"

text \<open>
  How \<open>dispenseGmb\<close> ends: the amount or the send is refused; the transaction is sent and waiting for
  it fails, mined or not; or it is mined.
\<close>

datatype dispense_end = SendFailed | WaitFailed bool | Mined string

definition paid_out :: "dispense_end \<Rightarrow> bool" where
  "paid_out d = (case d of SendFailed \<Rightarrow> False | WaitFailed b \<Rightarrow> b | Mined h \<Rightarrow> True)"

definition webhook_settle :: "gateway_platform \<Rightarrow> jsval \<Rightarrow> dispense_end \<Rightarrow> bool \<Rightarrow> purchase_state \<Rightarrow> purchase_reply \<times> purchase_state" where
  "webhook_settle P v d save_ok s0 = (let s = s0\<lparr>dispensing := remove1 v (dispensing s0)\<rparr>; orderId = js_string (num_text P) v in
     case d of
       Mined hash \<Rightarrow> (case map_of (orders s) orderId of
           None \<Rightarrow> (ServerError, s)
         | Some o1 \<Rightarrow> (let os = AList.update orderId (o1\<lparr>o_status := OrderFulfilled, o_txHash := Some hash\<rparr>) (orders s) in
             if save_ok then (Dispensed, s\<lparr>orders := os, disk := os\<rparr>) else (ServerError, s\<lparr>orders := os\<rparr>)))
     | _ \<Rightarrow> (ServerError, s))"

definition get_status :: "string \<Rightarrow> purchase_state \<Rightarrow> purchase_reply" where
  "get_status orderId s = (case lookup_order (orders s) orderId of
      NoOrder \<Rightarrow> NotFound
    | InheritedMember \<Rightarrow> StatusOf None None None
    | OwnOrder o1 \<Rightarrow> StatusOf (Some (o_status o1)) (Some (o_gmbAmount o1)) (o_txHash o1))"

section \<open>Runs\<close>

text \<open>
  \<open>awaiting\<close> are the ids of the dispenses in flight, as the webhooks gave them, and \<open>payouts\<close> the orders
  for which the dispenser has paid, in order. A restart says of each dispense in flight whether its
  transaction is mined all the same.
\<close>

record purchase_run =
  pstate :: purchase_state
  awaiting :: "jsval list"
  payouts :: "string list"

datatype purchase_event =
    Create "(string \<times> jsval) list" bool
  | Webhook webhook
  | DispenseEnds nat dispense_end bool
  | Restart "bool list"

definition purchase_event :: "gateway_platform \<Rightarrow> purchase_cfg \<Rightarrow> purchase_event \<Rightarrow> purchase_run \<Rightarrow> purchase_run" where
  "purchase_event P cfg ev r = (case ev of
     Create body save_ok \<Rightarrow> r\<lparr>pstate := snd (create_enter P cfg body save_ok (pstate r))\<rparr>
   | Webhook wh \<Rightarrow> (case webhook_enter P cfg wh (pstate r) of
        (Inl reply, s) \<Rightarrow> r\<lparr>pstate := s\<rparr>
      | (Inr i, s) \<Rightarrow> r\<lparr>pstate := s, awaiting := awaiting r @ [i]\<rparr>)
   | DispenseEnds k d save_ok \<Rightarrow>
      (if k < length (awaiting r) then
        (let i = awaiting r ! k in
         r\<lparr>pstate := snd (webhook_settle P i d save_ok (pstate r)), awaiting := take k (awaiting r) @ drop (Suc k) (awaiting r),
           payouts := (if paid_out d then payouts r @ [js_string (num_text P) i] else payouts r)\<rparr>)
       else r)
   | Restart paid \<Rightarrow> r\<lparr>pstate := (pstate r)\<lparr>orders := disk (pstate r), dispensing := []\<rparr>, awaiting := [],
       payouts := payouts r @ map (\<lambda>x. js_string (num_text P) (fst x)) (filter snd (zip (awaiting r) paid))\<rparr>)"

definition purchase_init :: purchase_run where
  "purchase_init = \<lparr>pstate = \<lparr>orders = [], disk = [], dispensing = [], order_seq = 0\<rparr>, awaiting = [], payouts = []\<rparr>"

fun purchase_events :: "gateway_platform \<Rightarrow> purchase_cfg \<Rightarrow> purchase_event list \<Rightarrow> purchase_run \<Rightarrow> purchase_run" where
  "purchase_events P cfg [] r = r"
| "purchase_events P cfg (ev # evs) r = purchase_events P cfg evs (purchase_event P cfg ev r)"

section \<open>The invariant\<close>

definition fulfilled :: "order_store \<Rightarrow> string \<Rightarrow> bool" where
  "fulfilled os i = (case map_of os i of Some o1 \<Rightarrow> o_status o1 = OrderFulfilled | None \<Rightarrow> False)"

text \<open>
  An event whose failure says the truth: a dispense that ends in an error has not paid, and a restart
  finds every fulfilled order so on disk and no dispense in flight that still pays.
\<close>

definition certain :: "purchase_event \<Rightarrow> purchase_run \<Rightarrow> bool" where
  "certain ev r = (case ev of
     DispenseEnds k d b \<Rightarrow> d \<noteq> WaitFailed True
   | Restart paid \<Rightarrow> True \<notin> set paid \<and>
       list_all (\<lambda>i. fulfilled (orders (pstate r)) i \<longrightarrow> fulfilled (disk (pstate r)) i) (map fst (orders (pstate r)))
   | _ \<Rightarrow> True)"

fun certain_run :: "gateway_platform \<Rightarrow> purchase_cfg \<Rightarrow> purchase_event list \<Rightarrow> purchase_run \<Rightarrow> bool" where
  "certain_run P cfg [] r = True"
| "certain_run P cfg (ev # evs) r = (certain ev r \<and> certain_run P cfg evs (purchase_event P cfg ev r))"

text \<open>
  The dispenses in flight are of ids that are strings, and the set of orders in flight holds just them;
  \<open>no_order\<close>: the ids that are still to be given out are in neither store.
\<close>

definition no_order :: "gateway_platform \<Rightarrow> nat \<Rightarrow> order_store \<Rightarrow> bool" where
  "no_order P n os = (\<forall>m \<ge> n. map_of os (new_order_id P m) = None)"

definition paid_once :: "gateway_platform \<Rightarrow> purchase_run \<Rightarrow> bool" where
  "paid_once P r = (distinct (payouts r) \<and> distinct (awaiting r) \<and> distinct (dispensing (pstate r)) \<and>
     set (dispensing (pstate r)) = set (awaiting r) \<and> (\<forall>v \<in> set (awaiting r). \<exists>i. v = JStr i) \<and>
     (\<forall>i \<in> set (payouts r). fulfilled (orders (pstate r)) i \<and> JStr i \<notin> set (awaiting r)) \<and>
     (\<forall>i. JStr i \<in> set (awaiting r) \<longrightarrow> map_of (orders (pstate r)) i \<noteq> None) \<and>
     no_order P (order_seq (pstate r)) (orders (pstate r)) \<and> no_order P (order_seq (pstate r)) (disk (pstate r)))"

lemma in_flight_JStr [simp]: "in_flight vs (JStr i) = (JStr i \<in> set vs)"
  by (simp add: in_flight_def)

lemma fulfilled_update:
  "fulfilled (AList.update j o1 os) i = (if i = j then o_status o1 = OrderFulfilled else fulfilled os i)"
  by (simp add: fulfilled_def js_map.get_put)

lemma not_fulfilled: "(st \<noteq> OrderFulfilled) = (st = OrderPending)"
  by (cases st) simp_all

lemma webhook_enter_Inr:
  assumes "webhook_enter P cfg wh s = (Inr v, s')"
  shows "check_signature P cfg (wh_signature wh) (wh_raw wh) = SigOk"
    and "s' = s\<lparr>dispensing := v # dispensing s\<rparr>" "\<not> in_flight (dispensing s) v" "id_accepts P v"
    and "\<exists>o1 body p. json_parse P (wh_raw wh) = Inr body \<and> p = or_else (the (read_prop body ''payment'')) (JObj []) \<and>
      v = the (read_prop p ''orderId'') \<and> map_of (orders s) (js_string (num_text P) v) = Some o1 \<and> o_status o1 = OrderPending \<and>
      or_else (the (read_prop body ''event'')) (case wh_event wh of None \<Rightarrow> JUndef | Some h \<Rightarrow> JStr h) = JStr ''payment.completed'' \<and>
      paid_currency P p body \<in> {[], ''EUR''} \<and> \<not> amount_differs (paid_amount p body) (o_eur o1)"
  using assms
  by (auto simp: webhook_enter_def Let_def lookup_order_def not_fulfilled
      split: sig_check.splits sum.splits option.splits order_lookup.splits if_splits)

end
