(* ===== verification/Purchase_Properties.thy ===== *)
theory Purchase_Properties
  imports Purchase
begin

text \<open>
  What the purchase backend promises: it dispenses only on an authentic, matching webhook, and once per
  order as long as a failed dispense has not paid; and what happens when it has.
\<close>

section \<open>One payout per order\<close>

lemma create_paid_once:
  assumes inv: "paid_once P r" and inj: "inj (new_order_id P)"
    and run: "create_enter P cfg body save_ok (pstate r) = (res, s)"
  shows "paid_once P (r\<lparr>pstate := s\<rparr>)"
proof (cases "s = pstate r")
  case True
  then show ?thesis using inv by simp
next
  case False
  let ?n = "order_seq (pstate r)"
  obtain o1 where s: "orders s = AList.update (new_order_id P ?n) o1 (orders (pstate r))"
    "order_seq s = Suc ?n" "dispensing s = dispensing (pstate r)" "o_status o1 = OrderPending"
    and d: "disk s = orders s \<or> disk s = disk (pstate r)"
    using run False by (auto simp: create_enter_def Let_def split: if_splits)
  have fresh: "map_of (orders (pstate r)) (new_order_id P ?n) = None"
    using inv by (simp add: paid_once_def no_order_def)
  have other: "new_order_id P m \<noteq> new_order_id P ?n" if "Suc ?n \<le> m" for m
    using injD [OF inj, of m ?n] that by auto
  have "i \<noteq> new_order_id P ?n" if "i \<in> set (payouts r) \<or> JStr i \<in> set (awaiting r)" for i
    using that inv fresh by (auto simp: paid_once_def fulfilled_def)
  moreover have no: "no_order P (Suc ?n) (orders s)"
  proof -
    have "map_of (orders s) (new_order_id P m) = None" if "Suc ?n \<le> m" for m
      using inv s(1) other [OF that] that by (simp add: js_map.get_put paid_once_def no_order_def)
    then show ?thesis by (simp add: no_order_def)
  qed
  moreover have "no_order P (Suc ?n) (disk s)"
    using d no inv by (auto simp: paid_once_def no_order_def)
  ultimately show ?thesis
    using inv s by (auto simp: paid_once_def fulfilled_update js_map.get_put)
qed

lemma webhook_enter_Inl: "webhook_enter P cfg wh s = (Inl reply, s') \<Longrightarrow> s' = s"
  by (auto simp: webhook_enter_def Let_def split: sig_check.splits sum.splits option.splits
      order_lookup.splits if_splits)

text \<open>ethers' \<open>id\<close> takes a string and throws for anything else.\<close>

definition hashes_strings :: "gateway_platform \<Rightarrow> bool" where
  "hashes_strings P = (\<forall>v. id_accepts P v \<longrightarrow> (\<exists>i. v = JStr i))"

lemma webhook_paid_once:
  assumes inv: "paid_once P r" and ids: "hashes_strings P"
  shows "paid_once P (purchase_event P cfg (Webhook wh) r)"
proof -
  obtain res s where e: "webhook_enter P cfg wh (pstate r) = (res, s)" by (cases "webhook_enter P cfg wh (pstate r)")
  show ?thesis
  proof (cases res)
    case (Inl reply)
    then have "s = pstate r" using e webhook_enter_Inl by blast
    then show ?thesis using inv e Inl by (simp add: purchase_event_def)
  next
    case (Inr v)
    note en = webhook_enter_Inr [OF e [unfolded Inr]]
    obtain i where v: "v = JStr i" using en(4) ids by (auto simp: hashes_strings_def)
    have "v \<notin> set (dispensing (pstate r))" "v \<notin> set (awaiting r)" using en(3) inv by (simp_all add: v paid_once_def)
    moreover obtain o1 where o1: "map_of (orders (pstate r)) i = Some o1" "o_status o1 = OrderPending"
      using en(5) by (auto simp: v)
    moreover from o1 have "i \<notin> set (payouts r)" using inv by (auto simp: paid_once_def fulfilled_def)
    ultimately show ?thesis
      using inv e Inr en(2) by (auto simp: v purchase_event_def paid_once_def)
  qed
qed

lemma settle_paid_once:
  assumes inv: "paid_once P r" and certain: "d \<noteq> WaitFailed True"
  shows "paid_once P (purchase_event P cfg (DispenseEnds k d save_ok) r)"
proof (cases "k < length (awaiting r)")
  case True
  let ?rest = "take k (awaiting r) @ drop (Suc k) (awaiting r)"
  have "awaiting r ! k \<in> set (awaiting r)" using True by simp
  then obtain i where v: "awaiting r ! k = JStr i" and i: "JStr i \<in> set (awaiting r)"
    using inv unfolding paid_once_def by metis
  obtain s where s: "snd (webhook_settle P (JStr i) d save_ok (pstate r)) = s" by blast
  have split: "awaiting r = take k (awaiting r) @ JStr i # drop (Suc k) (awaiting r)"
    using id_take_nth_drop [OF True] v by simp
  have "distinct (take k (awaiting r) @ JStr i # drop (Suc k) (awaiting r))"
    using inv split by (simp add: paid_once_def)
  then have rest: "distinct ?rest" "set ?rest = set (awaiting r) - {JStr i}"
    by (simp, subst (2) split, auto)
  obtain o1 where o1: "map_of (orders (pstate r)) i = Some o1" using inv i by (auto simp: paid_once_def)
  have disp: "set (dispensing s) = set ?rest" "distinct (dispensing s)" and seq: "order_seq s = order_seq (pstate r)"
    using inv rest o1 s by (auto simp: webhook_settle_def Let_def paid_once_def split: dispense_end.splits if_splits)
  have nn: "new_order_id P m \<noteq> i" if "order_seq (pstate r) \<le> m" for m
    using inv that o1 by (auto simp: paid_once_def no_order_def)
  have ev: "purchase_event P cfg (DispenseEnds k d save_ok) r =
      r\<lparr>pstate := s, awaiting := ?rest, payouts := (if paid_out d then payouts r @ [i] else payouts r)\<rparr>"
    using True s by (simp add: purchase_event_def Let_def v)
  have strs: "\<forall>v \<in> set ?rest. \<exists>i. v = JStr i" unfolding rest(2) using inv by (simp add: paid_once_def)
  show ?thesis
  proof (cases "\<exists>h. d = Mined h")
    case False
    then have "\<not> paid_out d" "orders s = orders (pstate r)" "disk s = disk (pstate r)"
      using certain s by (cases d; auto simp: paid_out_def webhook_settle_def Let_def)+
    then show ?thesis unfolding ev using inv rest disp seq strs by (auto simp: paid_once_def)
  next
    case True
    then obtain h where d: "d = Mined h" by blast
    have os: "orders s = AList.update i (o1\<lparr>o_status := OrderFulfilled, o_txHash := Some h\<rparr>) (orders (pstate r))"
      and di: "disk s = orders s \<or> disk s = disk (pstate r)"
      using o1 s by (auto simp: webhook_settle_def d Let_def split: if_splits)
    have "i \<notin> set (payouts r)" using inv i by (auto simp: paid_once_def)
    moreover have "fulfilled (orders s) j" if "j \<in> set (payouts r)" for j
      using that inv by (simp add: os fulfilled_update paid_once_def)
    moreover have "fulfilled (orders s) i" by (simp add: os fulfilled_update)
    moreover have "map_of (orders s) j \<noteq> None" if "JStr j \<in> set (awaiting r)" for j
      using that inv by (simp add: os js_map.get_put paid_once_def)
    moreover have no: "no_order P (order_seq (pstate r)) (orders s)"
    proof -
      have "map_of (orders s) (new_order_id P m) = None" if "order_seq (pstate r) \<le> m" for m
        using inv nn [OF that] that by (simp add: os js_map.get_put paid_once_def no_order_def)
      then show ?thesis by (simp add: no_order_def)
    qed
    moreover have "no_order P (order_seq (pstate r)) (disk s)" using inv no di by (auto simp: paid_once_def)
    ultimately show ?thesis
      unfolding ev using inv rest disp seq strs by (auto simp: d paid_once_def paid_out_def)
  qed
qed (use inv in \<open>simp add: purchase_event_def\<close>)

lemma restart_paid_once:
  assumes inv: "paid_once P r" and certain: "certain (Restart paid) r"
  shows "paid_once P (purchase_event P cfg (Restart paid) r)"
proof -
  have "\<not> snd x" if "x \<in> set (zip (awaiting r) paid)" for x
    using that certain set_zip_rightD [of "fst x" "snd x"] by (auto simp: certain_def)
  then have none: "filter snd (zip (awaiting r) paid) = []" by (simp add: filter_empty_conv)
  have "fulfilled (disk (pstate r)) i" if "i \<in> set (payouts r)" for i
  proof -
    have f: "fulfilled (orders (pstate r)) i" using that inv by (simp add: paid_once_def)
    then have "i \<in> set (map fst (orders (pstate r)))"
      by (auto simp: fulfilled_def split: option.splits dest: map_of_SomeD intro: rev_image_eqI)
    with f certain show ?thesis by (auto simp: certain_def list_all_iff)
  qed
  with inv none show ?thesis by (simp add: purchase_event_def paid_once_def)
qed

lemma event_paid_once:
  assumes "paid_once P r" "inj (new_order_id P)" "hashes_strings P" "certain ev r"
  shows "paid_once P (purchase_event P cfg ev r)"
proof (cases ev)
  case (Create body save_ok)
  show ?thesis
    using create_paid_once [OF assms(1,2) prod.collapse [symmetric], of cfg body save_ok]
    by (simp add: Create purchase_event_def)
next
  case (Webhook wh)
  then show ?thesis using webhook_paid_once [OF assms(1,3)] by simp
next
  case (DispenseEnds k d save_ok)
  then show ?thesis using settle_paid_once [OF assms(1)] assms(4) by (simp add: certain_def)
next
  case (Restart paid)
  then show ?thesis using restart_paid_once [OF assms(1)] assms(4) by simp
qed

section \<open>Properties\<close>

definition demo_gateway :: gateway_platform where
  "demo_gateway = \<lparr>hmac_hex = (\<lambda>secret raw. secret @ raw), json_parse = (\<lambda>raw. Inr (JObj [(''event'', JStr ''payment.completed''),
       (''payment'', JObj [(''orderId'', if raw = ''raw'' then JStr ''gmb_'' else JArr [JStr ''gmb_'']),
          (''amount'', JNum (Fin 10)), (''currency'', JStr ''eur'')])])),
     is_evm_address = (\<lambda>a. length a = 42), num_text = (\<lambda>n. ''10''), new_order_id = (\<lambda>n. ''gmb_'' @ replicate n CHR ''a''),
     id_accepts = (\<lambda>v. case v of JStr i \<Rightarrow> True | _ \<Rightarrow> False)\<rparr>"

definition demo_env :: env where
  "demo_env = (\<lambda>k. if k = ''NETWORK'' then Some ''mainnet'' else if k = ''GEMBAPAY_WEBHOOK_SECRET'' then Some ''whsec_''
     else if k = ''GEMBA_DISPENSER_ADDRESS'' then Some ''0xd'' else if k = ''GEMBA_DISPENSER_OWNER_PK'' then Some ''0xk'' else None)"

definition demo_purchase_cfg :: purchase_cfg where
  "demo_purchase_cfg = (case purchase_start demo_env of Inr c \<Rightarrow> c)"

definition demo_create :: purchase_event where
  "demo_create = Create [(''evmAddress'', JStr (''0x'' @ replicate 40 CHR ''b'')), (''gmbAmount'', JNum (Fin 10))] True"

definition demo_webhook :: purchase_event where
  "demo_webhook = Webhook \<lparr>wh_signature = Some ''whsec_raw'', wh_event = None, wh_raw = ''raw''\<rparr>"

definition array_wh :: webhook where
  "array_wh = \<lparr>wh_signature = Some ''whsec_array'', wh_event = None, wh_raw = ''array''\<rparr>"

definition array_webhook :: purchase_event where
  "array_webhook = Webhook array_wh"

text \<open>
  C2. What every dispense rests on: when a webhook gets as far as the dispense, its signature is the HMAC
  of its body under the secret, its event is payment.completed, its order is known, pending and not
  being dispensed, the currency it carries is EUR or it carries none, and the amount it carries is within a
  cent of the order's price, or it carries none or one that is not a finite number.
\<close>

theorem dispense_only_after_payment:
  assumes "webhook_enter P cfg wh s = (Inr v, s')"
  shows "(wh_signature wh = Some (hmac_hex P (whsec cfg) (wh_raw wh)) \<or>
      (wh_signature wh = None \<and> hmac_hex P (whsec cfg) (wh_raw wh) = [])) \<and>
    \<not> in_flight (dispensing s) v \<and> (\<exists>o1 body p. json_parse P (wh_raw wh) = Inr body \<and>
      p = or_else (the (read_prop body ''payment'')) (JObj []) \<and> v = the (read_prop p ''orderId'') \<and>
      map_of (orders s) (js_string (num_text P) v) = Some o1 \<and> o_status o1 = OrderPending \<and>
      or_else (the (read_prop body ''event'')) (case wh_event wh of None \<Rightarrow> JUndef | Some h \<Rightarrow> JStr h) = JStr ''payment.completed'' \<and>
      paid_currency P p body \<in> {[], ''EUR''} \<and>
      (js_is_finite (paid_amount p body) \<longrightarrow>
        \<not> js_lt (Fin (dbl (1 / 100))) (js_abs (js_sub (paid_amount p body) (o_eur o1)))))"
  using webhook_enter_Inr [OF assms]
  by (auto simp: check_signature_def Let_def amount_differs_def split: option.splits if_splits)

theorem dispense_only_after_payment_witness:
  "\<exists>s s'. webhook_enter demo_gateway demo_purchase_cfg \<lparr>wh_signature = Some ''whsec_raw'', wh_event = None, wh_raw = ''raw''\<rparr> s
      = (Inr (JStr ''gmb_''), s') \<and> \<not> in_flight (dispensing s) (JStr ''gmb_'')"
proof -
  let ?s = "pstate (purchase_event demo_gateway demo_purchase_cfg demo_create purchase_init)"
  let ?e = "webhook_enter demo_gateway demo_purchase_cfg \<lparr>wh_signature = Some ''whsec_raw'', wh_event = None, wh_raw = ''raw''\<rparr> ?s"
  have "fst ?e = Inr (JStr ''gmb_'')" by code_simp
  then have e: "?e = (Inr (JStr ''gmb_''), snd ?e)" by (simp add: prod_eq_iff)
  with dispense_only_after_payment [OF e] show ?thesis by blast
qed

text \<open>
  C3. Each order is paid out at most once, in every run of creations, webhooks (repeated and concurrent
  ones, with any JSON value as order id), ends of dispenses and restarts, with a failing store, when
  the ids given out are distinct and failures say the truth: a dispense that ends in an error has not paid,
  and at a restart the orders that are fulfilled are so on disk and no dispense in flight pays after it.
  That ids other than strings are refused is the hash's doing, not the set's.
\<close>

theorem one_payout_per_order:
  assumes "inj (new_order_id P)" "\<And>v. id_accepts P v \<Longrightarrow> \<exists>i. v = JStr i" "certain_run P cfg evs purchase_init"
  shows "distinct (payouts (purchase_events P cfg evs purchase_init))"
proof -
  have ids: "hashes_strings P" using assms(2) by (simp add: hashes_strings_def)
  have "paid_once P r \<Longrightarrow> certain_run P cfg evs r \<Longrightarrow> paid_once P (purchase_events P cfg evs r)" for r
    by (induction evs arbitrary: r) (auto intro: event_paid_once [OF _ assms(1) ids])
  moreover have "paid_once P purchase_init" by (simp add: paid_once_def purchase_init_def no_order_def)
  ultimately show ?thesis using assms(3) by (auto simp: paid_once_def)
qed

theorem one_payout_per_order_witness:
  "payouts (purchase_events demo_gateway demo_purchase_cfg
      [demo_create, demo_webhook, array_webhook, demo_webhook, DispenseEnds 0 (Mined ''0xh'') True, Restart [], demo_webhook,
       array_webhook] purchase_init) = [''gmb_''] \<and> distinct [''gmb_'']"
proof -
  let ?evs = "[demo_create, demo_webhook, array_webhook, demo_webhook, DispenseEnds 0 (Mined ''0xh'') True, Restart [], demo_webhook,
    array_webhook]"
  have "inj (new_order_id demo_gateway)" by (auto simp: demo_gateway_def inj_def replicate_eq_replicate)
  moreover have "\<exists>i. v = JStr i" if "id_accepts demo_gateway v" for v
    using that by (cases v) (simp_all add: demo_gateway_def)
  moreover have "certain_run demo_gateway demo_purchase_cfg ?evs purchase_init" by code_simp
  moreover have p: "payouts (purchase_events demo_gateway demo_purchase_cfg ?evs purchase_init) = [''gmb_'']" by code_simp
  ultimately show ?thesis using one_payout_per_order [of demo_gateway demo_purchase_cfg ?evs] by simp
qed

text \<open>
  Without the first assumption on failures an order is paid twice: when the dispense is mined but waiting
  for its receipt fails, the order stays pending, the answer is 500, and the gateway's retry of the same
  webhook dispenses again. A restart before the store is written, or while the dispense is in flight, does the
  same.
\<close>

theorem lost_receipt_pays_twice:
  "payouts (purchase_events demo_gateway demo_purchase_cfg
     [demo_create, demo_webhook, DispenseEnds 0 (WaitFailed True) True,
      demo_webhook, DispenseEnds 0 (Mined ''0xh'') True] purchase_init) = [''gmb_'', ''gmb_''] \<and>
   payouts (purchase_events demo_gateway demo_purchase_cfg
     [demo_create, demo_webhook, DispenseEnds 0 (Mined ''0xh'') False, Restart [],
      demo_webhook, DispenseEnds 0 (Mined ''0xh'') True] purchase_init) = [''gmb_'', ''gmb_''] \<and>
   payouts (purchase_events demo_gateway demo_purchase_cfg
     [demo_create, demo_webhook, Restart [True], demo_webhook, DispenseEnds 0 (Mined ''0xh'') True] purchase_init) =
     [''gmb_'', ''gmb_'']"
  by (intro conjI) code_simp+

text \<open>
  The set of orders in flight does not stop a webhook whose order id is an array of the id: it reads the
  same order and is not found in the set. Only the hash stops it; with a hash that took any value, the
  order would be paid twice.
\<close>

theorem array_id_passes_in_flight_set:
  "let r = purchase_events demo_gateway demo_purchase_cfg [demo_create, demo_webhook] purchase_init in
     fst (webhook_enter demo_gateway demo_purchase_cfg array_wh (pstate r)) = Inl ServerError"
  "payouts (purchase_events (demo_gateway\<lparr>id_accepts := \<lambda>v. True\<rparr>) demo_purchase_cfg
     [demo_create, demo_webhook, array_webhook, DispenseEnds 0 (Mined ''0xh'') True, DispenseEnds 0 (Mined ''0xi'') True]
     purchase_init) = [''gmb_'', ''gmb_'']"
  by code_simp+

definition priced :: "purchase_cfg \<Rightarrow> order_store \<Rightarrow> bool" where
  "priced cfg os = (\<forall>i o1. map_of os i = Some o1 \<longrightarrow> js_le (min_gmb cfg) (o_gmbAmount o1) \<and>
     js_le (o_gmbAmount o1) (max_gmb cfg) \<and> o_eur o1 = price_eur cfg (o_gmbAmount o1))"

lemma priced_update:
  "priced cfg os \<Longrightarrow> js_le (min_gmb cfg) (o_gmbAmount o1) \<Longrightarrow> js_le (o_gmbAmount o1) (max_gmb cfg) \<Longrightarrow>
     o_eur o1 = price_eur cfg (o_gmbAmount o1) \<Longrightarrow> priced cfg (AList.update i o1 os)"
  by (auto simp: priced_def js_map.get_put)

lemma priced_event:
  assumes "priced cfg (orders (pstate r))" "priced cfg (disk (pstate r))"
  shows "priced cfg (orders (pstate (purchase_event P cfg ev r))) \<and> priced cfg (disk (pstate (purchase_event P cfg ev r)))"
proof (cases ev)
  case (Create body save_ok)
  show ?thesis using assms by (auto simp: Create purchase_event_def create_enter_def Let_def intro!: priced_update)
next
  case (Webhook wh)
  obtain res s where e: "webhook_enter P cfg wh (pstate r) = (res, s)" by (cases "webhook_enter P cfg wh (pstate r)")
  have "s = pstate r \<or> (\<exists>i. s = (pstate r)\<lparr>dispensing := i # dispensing (pstate r)\<rparr>)"
  proof (cases res)
    case (Inl reply)
    then show ?thesis using e webhook_enter_Inl by blast
  next
    case (Inr i)
    then show ?thesis using e webhook_enter_Inr(2) by blast
  qed
  then have "orders s = orders (pstate r) \<and> disk s = disk (pstate r)" by auto
  then show ?thesis using assms e by (cases res) (simp_all add: Webhook purchase_event_def)
next
  case (DispenseEnds k d save_ok)
  have "priced cfg (orders (snd (webhook_settle P i d save_ok s))) \<and> priced cfg (disk (snd (webhook_settle P i d save_ok s)))"
    if "priced cfg (orders s)" "priced cfg (disk s)" for i s
    using that by (auto simp: webhook_settle_def Let_def priced_def js_map.get_put split: dispense_end.split option.split)
  with assms show ?thesis by (simp add: DispenseEnds purchase_event_def Let_def)
next
  case (Restart paid)
  then show ?thesis using assms by (simp add: purchase_event_def)
qed

text \<open>
  Every order that can ever be dispensed, restarts included, has an amount between the configured
  minimum and maximum and the price that the configuration gives for it.
\<close>

theorem orders_bounded_and_priced:
  assumes "map_of (orders (pstate (purchase_events P cfg evs purchase_init))) i = Some o1"
  shows "js_le (min_gmb cfg) (o_gmbAmount o1) \<and> js_le (o_gmbAmount o1) (max_gmb cfg) \<and>
    o_eur o1 = price_eur cfg (o_gmbAmount o1)"
proof -
  have keep: "priced cfg (orders (pstate r)) \<Longrightarrow> priced cfg (disk (pstate r)) \<Longrightarrow>
      priced cfg (orders (pstate (purchase_events P cfg evs r)))" for r
  proof (induction evs arbitrary: r)
    case (Cons ev evs)
    show ?case using Cons.IH [of "purchase_event P cfg ev r"] priced_event [OF Cons.prems] by simp
  qed simp
  have "priced cfg (orders (pstate (purchase_events P cfg evs purchase_init)))"
    by (rule keep) (simp_all add: purchase_init_def priced_def)
  with assms show ?thesis unfolding priced_def by blast
qed

theorem orders_bounded_and_priced_witness:
  "\<exists>o1. map_of (orders (pstate (purchase_events demo_gateway demo_purchase_cfg [demo_create] purchase_init))) ''gmb_'' = Some o1 \<and>
    js_le (min_gmb demo_purchase_cfg) (o_gmbAmount o1)"
proof -
  let ?r = "map_of (orders (pstate (purchase_events demo_gateway demo_purchase_cfg [demo_create] purchase_init))) ''gmb_''"
  have "?r = Some \<lparr>o_evmAddress = ''0x'' @ replicate 40 CHR ''b'', o_gmbAmount = Fin 10, o_eur = Fin 10,
      o_status = OrderPending, o_txHash = None\<rparr>"
    by code_simp
  from orders_bounded_and_priced [OF this] this show ?thesis by blast
qed

text \<open>
  The service never starts without the secret that authenticates webhooks, a signer and a
  dispenser, and on mainnet the dispenser and the signer come from the environment, never from a default.
\<close>

theorem purchase_starts_closed:
  assumes "purchase_start env = Inr cfg"
  shows "whsec cfg \<noteq> [] \<and> owner_pk cfg \<noteq> [] \<and> pc_dispenser cfg \<noteq> [] \<and>
    env ''GEMBAPAY_WEBHOOK_SECRET'' = Some (whsec cfg) \<and> env ''GEMBA_DISPENSER_ADDRESS'' = Some (pc_dispenser cfg) \<and>
    env ''GEMBA_DISPENSER_OWNER_PK'' = Some (owner_pk cfg)"
proof -
  have set: "env n = Some (env_or env n [])" if "env_or env n [] \<noteq> []" for n
    using that by (auto simp: env_or_def split: option.splits list.splits)
  have req: "v = env_or env n []" if "env_required env n = Inr v" for n v
    using that by (simp add: env_required_def Let_def split: if_splits)
  obtain disp pk where v: "env_required env ''GEMBA_DISPENSER_ADDRESS'' = Inr disp"
    "env_required env ''GEMBA_DISPENSER_OWNER_PK'' = Inr pk"
    using assms by (auto simp: purchase_start_def Let_def split: sum.splits)
  then have c: "env_or env ''GEMBAPAY_WEBHOOK_SECRET'' [] \<noteq> []" "pk \<noteq> []" "disp \<noteq> []"
    "whsec cfg = env_or env ''GEMBAPAY_WEBHOOK_SECRET'' []" "owner_pk cfg = pk" "pc_dispenser cfg = disp"
    using assms by (auto simp: purchase_start_def Let_def split: if_splits)
  show ?thesis using c set req [OF v(1)] req [OF v(2)] by metis
qed

theorem purchase_starts_closed_witness:
  "whsec demo_purchase_cfg = ''whsec_'' \<and> pc_dispenser demo_purchase_cfg \<noteq> []"
proof -
  have "purchase_start demo_env = Inr demo_purchase_cfg" "whsec demo_purchase_cfg = ''whsec_''"
    by (code_simp, code_simp)
  with purchase_starts_closed [of demo_env] show ?thesis by blast
qed

end
