(* ===== verification/Contact.thy ===== *)
theory Contact
  imports Gemba_Prelude
begin

text \<open>
  The contact form: services/contact-form/src/server.js. The handler cleans the fields, checks them,
  has the Turnstile token verified, and sends two mails, the inquiry and a confirmation; it is a
  function of the body, the proxy's address and what the two services it calls answer.
\<close>

section \<open>Cleaning and checking\<close>

definition clean_field :: "(jsnum \<Rightarrow> string) \<Rightarrow> jsval \<Rightarrow> nat \<Rightarrow> string" where
  "clean_field num v mx = take mx (trim (js_string num (nullish v (JStr []))))"

abbreviation rx_mail_char :: rx where
  "rx_mail_char \<equiv> RCls (\<lambda>c. \<not> is_ws c \<and> c \<noteq> CHR ''@'')"

definition EMAIL :: rx where
  "EMAIL = RSeq (rx_plus rx_mail_char) (RSeq (rx_lit ''@'') (RSeq (rx_plus rx_mail_char)
     (RSeq (rx_lit ''.'') (rx_plus rx_mail_char))))"

definition isEmail :: "string \<Rightarrow> bool" where
  "isEmail s = rx_full EMAIL s"

lemma isEmail_iff:
  "isEmail s \<longleftrightarrow> (\<exists>u d t. s = u @ ''@'' @ d @ ''.'' @ t \<and> u \<noteq> [] \<and> d \<noteq> [] \<and> t \<noteq> [] \<and>
     list_all (\<lambda>c. \<not> is_ws c \<and> c \<noteq> CHR ''@'') (u @ d @ t))"
proof -
  have "isEmail s \<longleftrightarrow> (\<exists>u x. s = u @ x \<and> (u \<noteq> [] \<and> list_all (\<lambda>c. \<not> is_ws c \<and> c \<noteq> CHR ''@'') u) \<and>
      (\<exists>a y. x = a @ y \<and> a = ''@'' \<and> (\<exists>d z. y = d @ z \<and> (d \<noteq> [] \<and> list_all (\<lambda>c. \<not> is_ws c \<and> c \<noteq> CHR ''@'') d) \<and>
      (\<exists>b t. z = b @ t \<and> b = ''.'' \<and> (t \<noteq> [] \<and> list_all (\<lambda>c. \<not> is_ws c \<and> c \<noteq> CHR ''@'') t)))))"
    unfolding isEmail_def EMAIL_def rx_full_iff matches_seq matches_plus_cls matches_lit ..
  then show ?thesis by simp blast
qed

section \<open>The handler\<close>

record contact_cfg =
  turnstile_secret :: string
  contact_to :: string

record contact_mail =
  cm_to :: string
  cm_reply_to :: "string option"
  cm_subject :: string
  cm_text :: string

datatype contact_reply = ContactOk | InvalidInput | TurnstileFailed | SendFailedReply

fun contact_status :: "contact_reply \<Rightarrow> nat" where
  "contact_status ContactOk = 200"
| "contact_status InvalidInput = 400"
| "contact_status TurnstileFailed = 403"
| "contact_status SendFailedReply = 500"

text \<open>The token goes to the verifier; \<open>Inl\<close> is a request that fails, \<open>Inr\<close> its \<open>success\<close>.\<close>

definition verifyTurnstile :: "contact_cfg \<Rightarrow> (string \<Rightarrow> string \<Rightarrow> string + bool) \<Rightarrow> string \<Rightarrow> string \<Rightarrow> string + bool" where
  "verifyTurnstile cfg siteverify token ip = (if turnstile_secret cfg = [] then Inr False else siteverify token ip)"

definition client_ip :: "string option \<Rightarrow> string option \<Rightarrow> string" where
  "client_ip cf xff = trim (hd (split_on CHR '',''
     (case cf of Some (c # cs) \<Rightarrow> c # cs | _ \<Rightarrow> (case xff of None \<Rightarrow> [] | Some s \<Rightarrow> s))))"

definition inquiry_mail :: "contact_cfg \<Rightarrow> string \<Rightarrow> string \<Rightarrow> string \<Rightarrow> string \<Rightarrow> contact_mail" where
  "inquiry_mail cfg name email subject message = \<lparr>cm_to = contact_to cfg,
     cm_reply_to = Some (name @ '' <'' @ email @ ''>''), cm_subject = ''[gembachain.io] '' @ subject,
     cm_text = ''New contact-form message from gembachain.io\<newline>\<newline>Name: '' @ name @ ''\<newline>Email: '' @ email @
       ''\<newline>Subject: '' @ subject @ ''\<newline>\<newline>'' @ message @ ''\<newline>''\<rparr>"

text \<open>The dashes of the texts are em dashes in the source.\<close>

definition confirmation_mail :: "string \<Rightarrow> string \<Rightarrow> string \<Rightarrow> contact_mail" where
  "confirmation_mail name email message = \<lparr>cm_to = email, cm_reply_to = None,
     cm_subject = ''We received your message - GembaBlockchain'',
     cm_text = ''Hi '' @ name @ '',\<newline>\<newline>Thanks for reaching out to GembaBlockchain - we received your message and will get back to you soon.\<newline>\<newline>Your message:\<newline>'' @
       CHR 0x22 # message @ CHR 0x22 # ''\<newline>\<newline>- The GembaBlockchain team\<newline>https://gembachain.io''\<rparr>"

text \<open>The reply and the mails that were accepted for delivery; \<open>sends1\<close> and \<open>sends2\<close> say whether they were.\<close>

definition contact_post :: "contact_cfg \<Rightarrow> (jsnum \<Rightarrow> string) \<Rightarrow> (string \<Rightarrow> string \<Rightarrow> string + bool) \<Rightarrow> bool \<Rightarrow> bool \<Rightarrow>
    string option \<Rightarrow> string option \<Rightarrow> (string \<times> jsval) list \<Rightarrow> contact_reply \<times> contact_mail list" where
  "contact_post cfg num siteverify sends1 sends2 cf xff body = (
     let name = clean_field num (get_prop body ''name'') 120;
         email = clean_field num (get_prop body ''email'') 160;
         subj = clean_field num (get_prop body ''subject'') 160;
         subject = (if subj = [] then ''Contact form message'' else subj);
         message = clean_field num (get_prop body ''message'') 5000;
         token = clean_field num (or_else (get_prop body ''token'') (get_prop body ''cf-turnstile-response'')) 4096 in
     if name = [] \<or> \<not> isEmail email \<or> message = [] then (InvalidInput, [])
     else case verifyTurnstile cfg siteverify token (client_ip cf xff) of
       Inl e \<Rightarrow> (SendFailedReply, [])
     | Inr False \<Rightarrow> (TurnstileFailed, [])
     | Inr True \<Rightarrow>
        (if \<not> sends1 then (SendFailedReply, [])
         else if \<not> sends2 then (SendFailedReply, [inquiry_mail cfg name email subject message])
         else (ContactOk, [inquiry_mail cfg name email subject message, confirmation_mail name email message])))"

section \<open>Properties\<close>

lemma clean_field_length: "length (clean_field num v mx) \<le> mx"
  by (simp add: clean_field_def)

lemma isEmail_chars:
  assumes "isEmail s" "c \<in> set s"
  shows "\<not> is_ws c"
proof -
  have sep: "\<not> is_ws CHR ''@''" "\<not> is_ws CHR ''.''" by (code_simp, code_simp)
  obtain u d t where s: "s = u @ ''@'' @ d @ ''.'' @ t" "list_all (\<lambda>c. \<not> is_ws c \<and> c \<noteq> CHR ''@'') (u @ d @ t)"
    using assms(1) unfolding isEmail_iff by blast
  have "c \<in> set (u @ d @ t) \<or> c = CHR ''@'' \<or> c = CHR ''.''" using assms(2) unfolding s(1) by auto
  moreover have "\<not> is_ws c" if "c \<in> set (u @ d @ t)" using that s(2) unfolding list_all_iff by blast
  ultimately show ?thesis using sep by blast
qed

lemma isEmail_one_at:
  assumes "isEmail s"
  shows "count_list s CHR ''@'' = 1"
proof -
  have none: "count_list xs CHR ''@'' = 0" if "list_all (\<lambda>c. \<not> is_ws c \<and> c \<noteq> CHR ''@'') xs" for xs
    using that by (auto simp: count_list_0_iff list_all_iff)
  from assms show ?thesis by (auto simp: isEmail_iff none)
qed

text \<open>
  The form is no open relay: mails go out only when a Turnstile secret is configured and the token
  was verified, they go to the configured mailbox or to the one address the visitor gave, that address
  has at most 160 characters, exactly one at sign and no white space, so no line break that could add
  a header.
\<close>

theorem contact_mails_gated:
  assumes "contact_post cfg num siteverify sends1 sends2 cf xff body = (reply, mails)" "m \<in> set mails"
  shows "turnstile_secret cfg \<noteq> [] \<and>
    siteverify (clean_field num (or_else (get_prop body ''token'') (get_prop body ''cf-turnstile-response'')) 4096)
      (client_ip cf xff) = Inr True \<and>
    (cm_to m = contact_to cfg \<or>
      (cm_to m = clean_field num (get_prop body ''email'') 160 \<and> count_list (cm_to m) CHR ''@'' = 1 \<and>
       (\<forall>c \<in> set (cm_to m). \<not> is_ws c) \<and> length (cm_to m) \<le> 160))"
proof -
  let ?email = "clean_field num (get_prop body ''email'') 160"
  have e: "isEmail ?email" and sv: "turnstile_secret cfg \<noteq> []"
    "siteverify (clean_field num (or_else (get_prop body ''token'') (get_prop body ''cf-turnstile-response'')) 4096)
      (client_ip cf xff) = Inr True"
    and to: "cm_to m = contact_to cfg \<or> cm_to m = ?email"
    using assms
    by (auto simp: contact_post_def Let_def verifyTurnstile_def inquiry_mail_def confirmation_mail_def
        split: if_splits sum.splits bool.splits)
  show ?thesis using to sv isEmail_one_at [OF e] isEmail_chars [OF e] clean_field_length by metis
qed

theorem contact_mails_gated_witness:
  "\<exists>reply mails. contact_post \<lparr>turnstile_secret = ''s'', contact_to = ''c@g.io''\<rparr> (\<lambda>_. []) (\<lambda>t i. Inr (t = ''tok'')) True True
      None None [(''name'', JStr ''Ana''), (''email'', JStr '' a@b.co ''), (''message'', JStr ''hi''), (''token'', JStr ''tok'')] =
        (reply, mails) \<and> map cm_to mails = [''c@g.io'', ''a@b.co''] \<and> (\<forall>m \<in> set mails. length (cm_to m) \<le> 160)"
proof -
  let ?body = "[(''name'', JStr ''Ana''), (''email'', JStr '' a@b.co ''), (''message'', JStr ''hi''), (''token'', JStr ''tok'')]"
  let ?cfg = "\<lparr>turnstile_secret = ''s'', contact_to = ''c@g.io''\<rparr>"
  let ?p = "contact_post ?cfg (\<lambda>_. []) (\<lambda>t i. Inr (t = ''tok'')) True True None None ?body"
  obtain reply mails where p: "?p = (reply, mails)" by (cases ?p)
  have "map cm_to (snd ?p) = [''c@g.io'', ''a@b.co'']" by code_simp
  then have t: "map cm_to mails = [''c@g.io'', ''a@b.co'']" using p by simp
  have "length (cm_to m) \<le> 160" if "m \<in> set mails" for m
    using contact_mails_gated [OF p that] by (elim conjE disjE) simp_all
  then have "\<forall>m \<in> set mails. length (cm_to m) \<le> 160" by simp
  with p t show ?thesis by (intro exI [of _ reply] exI [of _ mails]) simp
qed

end
