(* ===== verification/Notifier.thy ===== *)
theory Notifier
  imports Gemba_Prelude
begin

text \<open>
  The blockchain notifier: services/blockchain-notifier/src/config.js, mailer.js, chain.js and
  index.js. Each watcher reads the chain, compares with its state and sends mails through \<open>notify\<close>,
  which drops repeats of a key within a cooldown. The world holds the state file's contents, the
  mailer's memory, the clock and the answers of the mail server; what the chain answers is an
  argument. An error thrown by \<open>notify\<close> ends the watcher where it is, and what it had changed stays.
\<close>

section \<open>Configuration\<close>

record thresholds =
  validatorShareWarn :: jsnum
  validatorShareCrit :: jsnum
  minValidators :: jsnum
  bondedRatioWarn :: jsnum
  bondedRatioCrit :: jsnum
  largeSaleFracBondedWarn :: jsnum
  largeSaleFracBondedCrit :: jsnum
  shareRisePP7d :: jsnum
  bondedDropPP7d :: jsnum

record notifier_cfg =
  nc_network :: string
  nc_chain_id :: jsnum
  cosmos_chain_id :: string
  evm_rpc :: string
  cosmos_rest :: string
  explorer :: string
  uptime_urls :: "string list"
  denom :: string
  nc_dispenser :: string
  reserves :: "string list"
  smtp_host :: string
  mail_from :: string
  mail_to :: string
  limits :: thresholds
  dry_run :: bool

definition nonempty_parts :: "string \<Rightarrow> string list" where
  "nonempty_parts s = filter (\<lambda>p. p \<noteq> []) (map trim (split_on CHR '','' s))"

definition notifier_network :: "env \<Rightarrow> string" where
  "notifier_network env = to_lower (env_or env ''NETWORK'' ''testnet'')"

definition default_thresholds :: "env \<Rightarrow> thresholds" where
  "default_thresholds env = \<lparr>
     validatorShareWarn = env_num env ''TH_VAL_SHARE_WARN'' (Fin (dbl (30 / 100))),
     validatorShareCrit = env_num env ''TH_VAL_SHARE_CRIT'' (Fin (dbl (3334 / 10000))),
     minValidators = env_num env ''TH_MIN_VALIDATORS'' (Fin 4),
     bondedRatioWarn = env_num env ''TH_BONDED_WARN'' (Fin (dbl (50 / 100))),
     bondedRatioCrit = env_num env ''TH_BONDED_CRIT'' (Fin (dbl (33 / 100))),
     largeSaleFracBondedWarn = env_num env ''TH_SALE_FRAC_WARN'' (Fin (dbl (10 / 100))),
     largeSaleFracBondedCrit = env_num env ''TH_SALE_FRAC_CRIT'' (Fin (dbl (25 / 100))),
     shareRisePP7d = env_num env ''TH_SHARE_RISE_PP'' (Fin 5),
     bondedDropPP7d = env_num env ''TH_BONDED_DROP_PP'' (Fin 10)\<rparr>"

text \<open>Values that mainnet must be given make the module throw when they are missing.\<close>

definition notifier_config :: "env \<Rightarrow> string + notifier_cfg" where
  "notifier_config env = (let mn = (notifier_network env = ''mainnet'') in
     if mn \<and> env_or env ''COSMOS_REST'' [] = [] then Inl ''COSMOS_REST is required when NETWORK=mainnet''
     else if mn \<and> env_or env ''GEMBA_DISPENSER_ADDRESS'' [] = [] then Inl ''GEMBA_DISPENSER_ADDRESS is required when NETWORK=mainnet''
     else Inr \<lparr>nc_network = notifier_network env,
       nc_chain_id = env_num env ''GEMBA_CHAIN_ID'' (if mn then Fin 821206 else Fin 821207),
       cosmos_chain_id = env_or env ''COSMOS_CHAIN_ID'' (if mn then ''gemba-1'' else ''gemba-testnet-1''),
       evm_rpc = env_or env ''EVM_RPC'' (if mn then ''https://gmb1.gembascan.io'' else ''https://rpc1.gembascan.io''),
       cosmos_rest = env_or env ''COSMOS_REST'' ''http://13.140.148.137:1317'',
       explorer = env_or env ''EXPLORER_URL'' (if mn then ''https://gembascan.io'' else ''https://testnet.gembascan.io''),
       uptime_urls = nonempty_parts (env_or env ''UPTIME_URLS'' (if mn
         then ''https://gmb1.gembascan.io,https://gmb2.gembascan.io,https://gmb3.gembascan.io,https://gembascan.io''
         else ''https://rpc1.gembascan.io,https://rpc2.gembascan.io,https://rpc3.gembascan.io,https://testnet.gembascan.io'')),
       denom = env_or env ''DENOM'' ''agmb'',
       nc_dispenser = to_lower (env_or env ''GEMBA_DISPENSER_ADDRESS'' ''0x0EB298466F862E548d2416a75d3D108E503bD2Cf''),
       reserves = nonempty_parts (env_or env ''RESERVE_ADDRESSES''
         ''cosmos1s32mhm7c0eest48njscsr5fnn2c42mr9w8cnqe,cosmos17s95c5jpc6x2l3edwh4dm8yhac68yru7cre47d''),
       smtp_host = env_or env ''SMTP_HOST'' [],
       mail_from = env_or env ''MAIL_FROM'' (notifier_network env @ ''@gembachain.io''),
       mail_to = env_or env ''MAIL_TO'' ''contacts@gembachain.io'',
       limits = default_thresholds env,
       dry_run = (env ''DRY_RUN'' = Some ''1'' \<or> env_or env ''SMTP_HOST'' [] = [])\<rparr>)"

section \<open>State\<close>

record validator_seen =
  vs_jailed :: bool
  vs_tokens :: int

record share_snapshot =
  snap_t :: int
  snap_shares :: "(string, jsnum) jsmap"

datatype level = Info | Warning | Critical

record alert =
  al_key :: string
  al_subject :: string
  al_level :: level
  al_at :: int

record nworld =
  seen_validators :: "(string, validator_seen) jsmap"
  bonded_history :: "(int \<times> jsnum) list"
  share_snapshots :: "share_snapshot list"
  uptime_ok :: "(string, bool) jsmap"
  last_dispenser_block :: int
  last_sent :: "(string, int) jsmap"
  alert_cooldown :: jsnum
  nclock :: int
  smtp_fails :: "bool list"
  mails :: "alert list"

type_synonym 'a nop = "(nworld, string, 'a) act"

section \<open>The mailer\<close>

text \<open>
  \<open>notify\<close>: the time is recorded for the key before the mail is sent. The head of \<open>smtp_fails\<close> says
  whether the mail server refuses this one; an empty list refuses none.
\<close>

definition notify :: "notifier_cfg \<Rightarrow> string \<Rightarrow> string \<Rightarrow> level \<Rightarrow> bool nop" where
  "notify cfg key subject lv w = (let now = nclock w; prev = map_of (last_sent w) key in
     if (case prev of None \<Rightarrow> False | Some p \<Rightarrow> p \<noteq> 0 \<and> js_lt (js_sub (js_of_int now) (js_of_int p)) (alert_cooldown w))
     then (Inr False, w)
     else (let w1 = w\<lparr>last_sent := AList.update key now (last_sent w)\<rparr>;
               m = \<lparr>al_key = key, al_subject = subject, al_level = lv, al_at = now\<rparr> in
       if smtp_host cfg = [] \<or> dry_run cfg then (Inr True, w1)
       else case smtp_fails w1 of
         [] \<Rightarrow> (Inr True, w1\<lparr>mails := mails w1 @ [m]\<rparr>)
       | True # fs \<Rightarrow> (Inl ''SMTP'', w1\<lparr>smtp_fails := fs\<rparr>)
       | False # fs \<Rightarrow> (Inr True, w1\<lparr>smtp_fails := fs, mails := mails w1 @ [m]\<rparr>)))"

definition resetKey :: "string \<Rightarrow> unit nop" where
  "resetKey key w = (Inr (), w\<lparr>last_sent := AList.delete key (last_sent w)\<rparr>)"

section \<open>Chain data\<close>

record validator =
  v_operator :: string
  v_moniker :: string
  v_tokens :: int
  v_jailed :: bool
  v_status :: string

text \<open>\<open>ratio_of a b\<close> is \<open>Number((a * 1000000n) / b) / 1000000\<close>; its divisors are not zero.\<close>

definition ratio_of :: "int \<Rightarrow> int \<Rightarrow> jsnum" where
  "ratio_of a b = js_div (js_of_int (big_div (a * 1000000) b)) (Fin 1000000)"

text \<open>A reserve whose balance cannot be read is left out of the sum.\<close>

definition fetchBondedRatio :: "int \<Rightarrow> int \<Rightarrow> (string \<Rightarrow> string + int) \<Rightarrow> notifier_cfg \<Rightarrow> jsnum" where
  "fetchBondedRatio bonded supply balance cfg = (
     let res = foldl (\<lambda>acc a. case balance a of Inl e \<Rightarrow> acc | Inr b \<Rightarrow> acc + b) 0 (reserves cfg);
         circ = (if supply > res then supply - res else 0) in
     if circ = 0 then Fin 0 else ratio_of bonded circ)"

record probe =
  pr_ok :: bool

text \<open>What an HTTP request to a URL gives: it fails, or a status (and whether the body is JSON).\<close>

datatype http_answer = HttpFails | HttpStatus nat bool

definition probeRpc :: "http_answer \<Rightarrow> bool" where
  "probeRpc a = (case a of HttpFails \<Rightarrow> False | HttpStatus st json \<Rightarrow> 200 \<le> st \<and> st < 300 \<and> json)"

definition probeHttp :: "http_answer \<Rightarrow> bool" where
  "probeHttp a = (case a of HttpFails \<Rightarrow> False | HttpStatus st json \<Rightarrow> st < 500)"

section \<open>The watchers\<close>

definition bonded_of :: "validator list \<Rightarrow> validator list" where
  "bonded_of vals = filter (\<lambda>v. \<not> v_jailed v \<and> v_status v = ''BOND_STATUS_BONDED'') vals"

definition see_validator :: "validator \<Rightarrow> unit nop" where
  "see_validator v w = (Inr (), w\<lparr>seen_validators :=
     AList.update (v_operator v) \<lparr>vs_jailed = v_jailed v, vs_tokens = v_tokens v\<rparr> (seen_validators w)\<rparr>)"

definition watch_one :: "notifier_cfg \<Rightarrow> validator \<Rightarrow> unit nop" where
  "watch_one cfg v w = act_bind (\<lambda>w. (case map_of (seen_validators w) (v_operator v) of
      None \<Rightarrow> notify cfg (''val-new-'' @ v_operator v) ''New validator'' Info w
    | Some prev \<Rightarrow>
        if v_jailed v \<and> \<not> vs_jailed prev
        then notify cfg (''val-jail-'' @ v_operator v @ ''-'' @ dec_string (nat (nclock w))) ''Validator JAILED'' Warning w
        else if \<not> v_jailed v \<and> vs_jailed prev
        then notify cfg (''val-unjail-'' @ v_operator v @ ''-'' @ dec_string (nat (nclock w))) ''Validator unjailed'' Info w
        else (Inr False, w))) (\<lambda>_. see_validator v) w"

fun watch_each :: "notifier_cfg \<Rightarrow> validator list \<Rightarrow> unit nop" where
  "watch_each cfg [] = act_return ()"
| "watch_each cfg (v # vs) = act_bind (watch_one cfg v) (\<lambda>_. watch_each cfg vs)"

definition share_alert :: "notifier_cfg \<Rightarrow> int \<Rightarrow> validator \<Rightarrow> bool nop" where
  "share_alert cfg tot v = (let share = ratio_of (v_tokens v) tot in
     if js_le (validatorShareCrit (limits cfg)) share
     then notify cfg (''val-share-crit-'' @ v_operator v) ''Validator over 1/3 of voting power'' Critical
     else if js_le (validatorShareWarn (limits cfg)) share
     then notify cfg (''val-share-warn-'' @ v_operator v) ''Validator share high'' Warning
     else act_return False)"

fun share_alerts :: "notifier_cfg \<Rightarrow> int \<Rightarrow> validator list \<Rightarrow> unit nop" where
  "share_alerts cfg tot [] = act_return ()"
| "share_alerts cfg tot (v # vs) = act_bind (share_alert cfg tot v) (\<lambda>_. share_alerts cfg tot vs)"

definition shares_of :: "int \<Rightarrow> validator list \<Rightarrow> (string, jsnum) jsmap" where
  "shares_of tot vs = foldl (\<lambda>m v. AList.update (v_operator v) (ratio_of (v_tokens v) tot) m) [] vs"

text \<open>The Nakamoto loop over the stakes in descending order: how many until more than a third.\<close>

fun nakamoto_loop :: "int \<Rightarrow> int \<Rightarrow> nat \<Rightarrow> int list \<Rightarrow> nat" where
  "nakamoto_loop tot acc n [] = n"
| "nakamoto_loop tot acc n (t # ts) =
     (if (acc + t) * 3 > tot then Suc n else nakamoto_loop tot (acc + t) (Suc n) ts)"

definition nakamoto :: "validator list \<Rightarrow> nat" where
  "nakamoto bonded = nakamoto_loop (sum_list (map v_tokens bonded)) 0 0 (rev (sort (map v_tokens bonded)))"

definition push_snapshot :: "int \<Rightarrow> (string, jsnum) jsmap \<Rightarrow> share_snapshot list \<Rightarrow> share_snapshot list" where
  "push_snapshot now shares snaps =
     (if snaps = [] \<or> now - snap_t (last snaps) > 3600000 then
        (let s = snaps @ [\<lparr>snap_t = now, snap_shares = shares\<rparr>] in if length s > 250 then tl s else s)
      else snaps)"

definition rise_alert :: "notifier_cfg \<Rightarrow> share_snapshot \<Rightarrow> string \<times> jsnum \<Rightarrow> bool nop" where
  "rise_alert cfg ref opsh = (case opsh of (operator, sh) \<Rightarrow>
     (case map_of (snap_shares ref) operator of
        None \<Rightarrow> act_return False
      | Some before \<Rightarrow> if js_le (shareRisePP7d (limits cfg)) (js_mul (js_sub sh before) (Fin 100))
          then notify cfg (''val-share-rise-'' @ operator) ''Validator share rising fast'' Warning
          else act_return False))"

fun rise_alerts :: "notifier_cfg \<Rightarrow> share_snapshot \<Rightarrow> (string \<times> jsnum) list \<Rightarrow> unit nop" where
  "rise_alerts cfg ref [] = act_return ()"
| "rise_alerts cfg ref (x # xs) = act_bind (rise_alert cfg ref x) (\<lambda>_. rise_alerts cfg ref xs)"

definition seven_days_old :: "int \<Rightarrow> int \<Rightarrow> bool" where
  "seven_days_old now t = (now - t \<ge> 7 * 86400000)"

definition watch_shares :: "notifier_cfg \<Rightarrow> (string, jsnum) jsmap \<Rightarrow> unit nop" where
  "watch_shares cfg shares w = (let snaps = push_snapshot (nclock w) shares (share_snapshots w);
       w1 = w\<lparr>share_snapshots := snaps\<rparr> in
     case find (\<lambda>s. seven_days_old (nclock w) (snap_t s)) snaps of
       None \<Rightarrow> (Inr (), w1)
     | Some ref \<Rightarrow> rise_alerts cfg ref shares w1)"

definition watchValidators :: "notifier_cfg \<Rightarrow> string + validator list \<Rightarrow> unit nop" where
  "watchValidators cfg fetched = (case fetched of Inl e \<Rightarrow> act_throw e | Inr vals \<Rightarrow>
     (let bonded = bonded_of vals; tot = sum_list (map v_tokens bonded) in
     act_bind (watch_each cfg vals) (\<lambda>_.
     act_bind (if js_lt (js_of_int (int (length bonded))) (minValidators (limits cfg))
        then act_bind (notify cfg ''val-count-low'' ''Active validators below BFT floor'' Critical) (\<lambda>_. act_return ())
        else resetKey ''val-count-low'') (\<lambda>_.
     if tot = 0 then act_return () else
     act_bind (share_alerts cfg tot bonded) (\<lambda>_.
     act_bind (if nakamoto bonded \<le> 1
        then act_bind (notify cfg ''nakamoto-1'' ''Nakamoto coefficient = 1'' Critical) (\<lambda>_. act_return ())
        else resetKey ''nakamoto-1'') (\<lambda>_.
     watch_shares cfg (shares_of tot bonded)))))))"

definition watchBondedRatio :: "notifier_cfg \<Rightarrow> string + jsnum \<Rightarrow> unit nop" where
  "watchBondedRatio cfg fetched = (case fetched of Inl e \<Rightarrow> act_throw e | Inr ratio \<Rightarrow>
     if js_le ratio (Fin 0) then act_return () else
     act_bind
       (if js_lt ratio (bondedRatioCrit (limits cfg))
        then act_bind (notify cfg ''bonded-crit'' ''Bonded ratio RED LINE'' Critical) (\<lambda>_. act_return ())
        else if js_lt ratio (bondedRatioWarn (limits cfg))
        then act_bind (notify cfg ''bonded-warn'' ''Bonded ratio below floor'' Warning) (\<lambda>_. act_return ())
        else act_bind (resetKey ''bonded-crit'') (\<lambda>_. resetKey ''bonded-warn''))
       (\<lambda>_ w. let h = bonded_history w;
            h1 = (if h = [] \<or> nclock w - fst (last h) > 3600000
              then (let h' = h @ [(nclock w, ratio)] in if length h' > 250 then tl h' else h') else h);
            w1 = w\<lparr>bonded_history := h1\<rparr> in
          case find (\<lambda>(t, r). seven_days_old (nclock w) t) h1 of
            None \<Rightarrow> (Inr (), w1)
          | Some (t, r) \<Rightarrow> if js_le (bondedDropPP7d (limits cfg)) (js_mul (js_sub r ratio) (Fin 100))
              then act_bind (notify cfg ''bonded-drop'' ''Bonded ratio dropping fast'' Warning) (\<lambda>_. act_return ()) w1
              else (Inr (), w1)))"

subsection \<open>Sales\<close>

record sale =
  sale_tx :: string
  sale_amount :: int
  sale_block :: int

definition sales_from :: "int \<Rightarrow> int \<Rightarrow> int" where
  "sales_from seen latest = (if seen \<noteq> 0 then seen + 1 else max 0 (latest - 500))"

text \<open>The bonded stake is read at the first sale; 0 when it cannot be read.\<close>

definition sale_alerts :: "notifier_cfg \<Rightarrow> int \<Rightarrow> sale \<Rightarrow> unit nop" where
  "sale_alerts cfg bonded ev =
     act_bind (notify cfg (''sale-'' @ sale_tx ev) ''GMB sold via GembaPay'' Info) (\<lambda>_.
     if bonded > 0 then
       (let frac = ratio_of (sale_amount ev) bonded in
        if js_le (largeSaleFracBondedCrit (limits cfg)) frac
        then act_bind (notify cfg (''sale-crit-'' @ sale_tx ev) ''LARGE GMB sale'' Critical) (\<lambda>_. act_return ())
        else if js_le (largeSaleFracBondedWarn (limits cfg)) frac
        then act_bind (notify cfg (''sale-warn-'' @ sale_tx ev) ''Sizeable GMB sale'' Warning) (\<lambda>_. act_return ())
        else act_return ())
     else act_return ())"

fun sales_loop :: "notifier_cfg \<Rightarrow> int \<Rightarrow> sale list \<Rightarrow> unit nop" where
  "sales_loop cfg bonded [] = act_return ()"
| "sales_loop cfg bonded (ev # evs) = act_bind (sale_alerts cfg bonded ev) (\<lambda>_. sales_loop cfg bonded evs)"

definition watchGmbSales :: "notifier_cfg \<Rightarrow> string + int \<Rightarrow> (int \<Rightarrow> int \<Rightarrow> string + sale list) \<Rightarrow> string + int \<Rightarrow> unit nop" where
  "watchGmbSales cfg block fetch_logs bonded w = (case block of Inl e \<Rightarrow> (Inl e, w) | Inr latest \<Rightarrow>
     (let start = sales_from (last_dispenser_block w) latest in
      if start > latest then (Inr (), w)
      else case fetch_logs start latest of Inl e \<Rightarrow> (Inl e, w)
        | Inr logs \<Rightarrow> act_bind (sales_loop cfg (case bonded of Inl e \<Rightarrow> 0 | Inr b \<Rightarrow> b) logs)
            (\<lambda>_ w1. (Inr (), w1\<lparr>last_dispenser_block := latest\<rparr>)) w))"

subsection \<open>Uptime and the loop\<close>

definition is_rpc_url :: "string \<Rightarrow> bool" where
  "is_rpc_url url = str_includes url ''rpc''"

definition watch_url :: "notifier_cfg \<Rightarrow> (string \<Rightarrow> http_answer) \<Rightarrow> string \<Rightarrow> unit nop" where
  "watch_url cfg probe_of url w = (
     let ok = (if is_rpc_url url then probeRpc (probe_of url) else probeHttp (probe_of url));
         wasOk = (map_of (uptime_ok w) url \<noteq> Some False) in
     act_bind (if \<not> ok \<and> wasOk
         then act_bind (notify cfg (''down-'' @ url) ''Service DOWN'' Critical) (\<lambda>_. act_return ())
         else if ok \<and> \<not> wasOk
         then act_bind (resetKey (''down-'' @ url)) (\<lambda>_. act_bind (notify cfg (''up-'' @ url) ''Service recovered'' Info) (\<lambda>_. act_return ()))
         else act_return ())
       (\<lambda>_ w1. (Inr (), w1\<lparr>uptime_ok := AList.update url ok (uptime_ok w1)\<rparr>)) w)"

fun watch_urls :: "notifier_cfg \<Rightarrow> (string \<Rightarrow> http_answer) \<Rightarrow> string list \<Rightarrow> unit nop" where
  "watch_urls cfg probe_of [] = act_return ()"
| "watch_urls cfg probe_of (u # us) = act_bind (watch_url cfg probe_of u) (\<lambda>_. watch_urls cfg probe_of us)"

definition watchUptime :: "notifier_cfg \<Rightarrow> (string \<Rightarrow> http_answer) \<Rightarrow> unit nop" where
  "watchUptime cfg probe_of = watch_urls cfg probe_of (uptime_urls cfg)"

text \<open>One cycle: a watcher that throws does not stop the next.\<close>

definition guarded :: "unit nop \<Rightarrow> nworld \<Rightarrow> nworld" where
  "guarded m w = snd (m w)"

definition runChainCycle :: "notifier_cfg \<Rightarrow> string + validator list \<Rightarrow> string + jsnum \<Rightarrow> string + int \<Rightarrow>
    (int \<Rightarrow> int \<Rightarrow> string + sale list) \<Rightarrow> string + int \<Rightarrow> nworld \<Rightarrow> nworld" where
  "runChainCycle cfg vals ratio block fetch_logs bonded w =
     guarded (watchGmbSales cfg block fetch_logs bonded)
       (guarded (watchBondedRatio cfg ratio) (guarded (watchValidators cfg vals) w))"

definition runUptimeCycle :: "notifier_cfg \<Rightarrow> (string \<Rightarrow> http_answer) \<Rightarrow> nworld \<Rightarrow> nworld" where
  "runUptimeCycle cfg probe_of w = guarded (watchUptime cfg probe_of) w"

subsection \<open>Sales cycles that overlap\<close>

text \<open>
  \<open>setInterval\<close> does not wait for a cycle to end, so while one waits for the logs or for the mail server another may
  begin. A cycle of \<open>watchGmbSales\<close> is a job: it begins when the block number has arrived (the start of its range is
  read from the state at that moment), gets its logs, raises the alerts of one sale after the other, and writes the
  block into the state after the last. \<open>scans\<close> collects the ranges of the jobs that got that far. A failure ends
  a job. The state is written to disk at the end of any cycle and read again when the process is restarted. The bonded
  stake that a job reads once is an argument of each of its sales here, and the alerts of one sale are one step.
\<close>

record sales_job =
  sj_from :: int
  sj_to :: int
  sj_todo :: "sale list option"

record sales_service =
  sworld :: nworld
  saved_world :: nworld
  sjobs :: "sales_job list"
  scans :: "(int \<times> int) list"

datatype sales_event =
    CycleBegins "string + int"
  | LogsArrive nat "string + sale list"
  | SaleAlerts nat "string + int"
  | StateSaved
  | NotifierRestarts

definition job_gone :: "nat \<Rightarrow> sales_service \<Rightarrow> sales_service" where
  "job_gone k s = s\<lparr>sjobs := take k (sjobs s) @ drop (Suc k) (sjobs s)\<rparr>"

definition job_complete :: "nat \<Rightarrow> sales_job \<Rightarrow> sales_service \<Rightarrow> sales_service" where
  "job_complete k j s = (job_gone k s)\<lparr>sworld := (sworld s)\<lparr>last_dispenser_block := sj_to j\<rparr>,
     scans := scans s @ [(sj_from j, sj_to j)]\<rparr>"

definition job_next :: "nat \<Rightarrow> sales_job \<Rightarrow> sale list \<Rightarrow> sales_service \<Rightarrow> sales_service" where
  "job_next k j evs s = (if evs = [] then job_complete k j s else s\<lparr>sjobs := (sjobs s)[k := j\<lparr>sj_todo := Some evs\<rparr>]\<rparr>)"

definition sales_step :: "notifier_cfg \<Rightarrow> sales_event \<Rightarrow> sales_service \<Rightarrow> sales_service" where
  "sales_step cfg ev s = (case ev of
     CycleBegins block \<Rightarrow> (case block of Inl e \<Rightarrow> s | Inr latest \<Rightarrow>
       (let start = sales_from (last_dispenser_block (sworld s)) latest in
        if start > latest then s else s\<lparr>sjobs := sjobs s @ [\<lparr>sj_from = start, sj_to = latest, sj_todo = None\<rparr>]\<rparr>))
   | LogsArrive k logs \<Rightarrow> (if k < length (sjobs s) \<and> sj_todo (sjobs s ! k) = None
       then (case logs of Inl e \<Rightarrow> job_gone k s | Inr evs \<Rightarrow> job_next k (sjobs s ! k) evs s) else s)
   | SaleAlerts k bonded \<Rightarrow> (if k < length (sjobs s) then (case sj_todo (sjobs s ! k) of
         Some (x # evs) \<Rightarrow> (case sale_alerts cfg (case bonded of Inl e \<Rightarrow> 0 | Inr b \<Rightarrow> b) x (sworld s) of
             (Inl e, w) \<Rightarrow> job_gone k (s\<lparr>sworld := w\<rparr>)
           | (Inr _, w) \<Rightarrow> job_next k (sjobs s ! k) evs (s\<lparr>sworld := w\<rparr>))
       | _ \<Rightarrow> s) else s)
   | StateSaved \<Rightarrow> s\<lparr>saved_world := sworld s\<rparr>
   | NotifierRestarts \<Rightarrow> s\<lparr>sworld := (saved_world s)\<lparr>nclock := nclock (sworld s), smtp_fails := smtp_fails (sworld s),
       mails := mails (sworld s)\<rparr>, sjobs := []\<rparr>)"

definition sales_service_of :: "nworld \<Rightarrow> sales_service" where
  "sales_service_of w = \<lparr>sworld = w, saved_world = w, sjobs = [], scans = []\<rparr>"

fun sales_steps :: "notifier_cfg \<Rightarrow> sales_event list \<Rightarrow> sales_service \<Rightarrow> sales_service" where
  "sales_steps cfg [] s = s"
| "sales_steps cfg (ev # evs) s = sales_steps cfg evs (sales_step cfg ev s)"

end
