(* ===== verification/Nakamoto.thy ===== *)
theory Nakamoto
  imports Notifier "HOL-Library.Multiset"
begin

text \<open>
  The Nakamoto loop of services/blockchain-notifier/src/index.js counts stakes from the largest down
  until they exceed a third of the total. Here it is shown to give the size of the smallest group of
  bonded validators that does.
\<close>

lemma sum_submset_le_take:
  fixes ds :: "int list"
  assumes "sorted_wrt (\<ge>) ds" "M \<subseteq># mset ds"
  shows "sum_mset M \<le> sum_list (take (size M) ds)"
  using assms
proof (induction ds arbitrary: M)
  case (Cons d ds)
  show ?case
  proof (cases "M = {#}")
    case False
    obtain x where x: "x \<in># M" "d \<in># M \<Longrightarrow> x = d"
      by (metis False multiset_nonemptyE)
    have sub: "M - {#x#} \<subseteq># mset ds"
    proof (cases "d \<in># M")
      case True
      then show ?thesis using Cons.prems(2) x(2) by (simp add: insert_subset_eq_iff subset_eq_diff_conv)
    next
      case False
      then have "count M d = 0" by (simp add: count_eq_zero_iff)
      then have "count M y \<le> count (mset ds) y" for y
        using mset_subset_eq_count [OF Cons.prems(2), of y] by (cases "y = d") auto
      then show ?thesis by (auto simp: subseteq_mset_def diff_le_mono intro: le_trans [OF diff_le_self])
    qed
    have le: "x \<le> d" using x(1) Cons.prems mset_subset_eqD [OF Cons.prems(2) x(1)] by auto
    have "sum_mset (M - {#x#}) \<le> sum_list (take (size (M - {#x#})) ds)"
      using Cons.IH [OF _ sub] Cons.prems(1) by simp
    moreover have "sum_mset M = x + sum_mset (M - {#x#})" using x(1) by (simp add: sum_mset.remove)
    moreover have "size M = Suc (size (M - {#x#}))" using x(1) by (metis size_Suc_Diff1)
    ultimately show ?thesis using le by simp
  qed simp
qed simp

lemma nakamoto_loop_least:
  assumes "nakamoto_loop tot acc n ts = k" "acc * 3 \<le> tot" "0 \<le> tot" "tot < 3 * (acc + sum_list ts)"
  shows "n < k \<and> k \<le> n + length ts \<and> tot < 3 * (acc + sum_list (take (k - n) ts)) \<and>
    (\<forall>j < k - n. 3 * (acc + sum_list (take j ts)) \<le> tot)"
  using assms
proof (induction ts arbitrary: acc n)
  case (Cons t ts)
  show ?case
  proof (cases "(acc + t) * 3 > tot")
    case True
    with Cons.prems(1) have "k = Suc n" by simp
    then show ?thesis using Cons.prems True by (simp add: field_simps)
  next
    case False
    have eq: "nakamoto_loop tot (acc + t) (Suc n) ts = k" using False Cons.prems(1) by simp
    note IH = Cons.IH [OF eq]
    have k: "Suc n < k \<and> k \<le> Suc n + length ts \<and>
        tot < 3 * (acc + t + sum_list (take (k - Suc n) ts)) \<and>
        (\<forall>j < k - Suc n. 3 * (acc + t + sum_list (take j ts)) \<le> tot)"
      using IH False Cons.prems by (simp add: add.assoc)
    have "3 * (acc + sum_list (take j (t # ts))) \<le> tot" if "j < k - n" for j
      using that k Cons.prems(2) by (cases j) (auto simp: add.assoc)
    moreover have "take (k - n) (t # ts) = t # take (k - Suc n) ts"
      using k by (metis Suc_diff_Suc Suc_lessD take_Suc_Cons)
    ultimately show ?thesis using k by (simp add: add.assoc)
  qed
qed simp

text \<open>
  C17. The Nakamoto coefficient the notifier computes is the size of the smallest group of bonded
  validators whose stake exceeds one third: some group of that size does, and no smaller one.
\<close>

theorem nakamoto_is_least_group:
  assumes "\<forall>v \<in> set bonded. 0 \<le> v_tokens v" "0 < sum_list (map v_tokens bonded)"
  shows "(\<exists>M. M \<subseteq># mset (map v_tokens bonded) \<and> size M = nakamoto bonded \<and>
      sum_list (map v_tokens bonded) < 3 * sum_mset M) \<and>
    (\<forall>M. M \<subseteq># mset (map v_tokens bonded) \<and> sum_list (map v_tokens bonded) < 3 * sum_mset M \<longrightarrow>
      nakamoto bonded \<le> size M)"
proof -
  define ds where "ds = rev (sort (map v_tokens bonded))"
  define tot where "tot = sum_list (map v_tokens bonded)"
  have m: "mset ds = mset (map v_tokens bonded)" by (simp add: ds_def)
  have tot: "sum_list ds = tot" unfolding tot_def by (metis m sum_mset_sum_list)
  have sorted: "sorted_wrt (\<ge>) ds" by (simp add: ds_def sorted_wrt_rev)
  have nk: "nakamoto_loop tot 0 0 ds = nakamoto bonded" by (simp add: nakamoto_def ds_def tot_def)
  have pos: "0 < tot" using assms(2) by (simp add: tot_def)
  note least = nakamoto_loop_least [OF nk, simplified]
  have l: "nakamoto bonded \<le> length ds" "tot < 3 * sum_list (take (nakamoto bonded) ds)"
      "\<And>j. j < nakamoto bonded \<Longrightarrow> 3 * sum_list (take j ds) \<le> tot"
    using least pos tot by auto
  have sub: "mset (take (nakamoto bonded) ds) \<subseteq># mset ds"
    by (metis append_take_drop_id mset_append mset_subset_eq_add_left)
  have sz: "size (mset (take (nakamoto bonded) ds)) = nakamoto bonded" using l(1) by simp
  have "nakamoto bonded \<le> size M" if "M \<subseteq># mset ds" "tot < 3 * sum_mset M" for M
  proof (rule ccontr)
    assume "\<not> ?thesis"
    then show False using l(3) [of "size M"] sum_submset_le_take [OF sorted that(1)] that(2) by simp
  qed
  moreover have "tot < 3 * sum_mset (mset (take (nakamoto bonded) ds))"
    using l(2) by (simp add: sum_mset_sum_list)
  ultimately show ?thesis unfolding tot_def [symmetric] m [symmetric] using sub sz by blast
qed

definition sample_bonded :: "validator list" where
  "sample_bonded = map (\<lambda>t. \<lparr>v_operator = ''op'', v_moniker = [], v_tokens = t, v_jailed = False,
     v_status = ''BOND_STATUS_BONDED''\<rparr>) [10, 25, 30, 15, 20]"

lemma nakamoto_is_least_group_witness:
  "nakamoto sample_bonded = 2 \<and> (\<exists>M. M \<subseteq># mset (map v_tokens sample_bonded) \<and> size M = 2 \<and> 100 < 3 * sum_mset M)"
proof -
  have n: "nakamoto sample_bonded = 2" by code_simp
  have t: "sum_list (map v_tokens sample_bonded) = 100" by (simp add: sample_bonded_def)
  have "\<forall>v \<in> set sample_bonded. 0 \<le> v_tokens v" by (simp add: sample_bonded_def)
  from nakamoto_is_least_group [OF this] show ?thesis unfolding n t by simp
qed

end
