(* ===== verification/Notifier_Properties.thy ===== *)
theory Notifier_Properties
  imports Nakamoto
begin

text \<open>
  Properties of the notifier: the exact level of a voting-power alarm, the blocks that are scanned
  for sales by cycles that may overlap, and the alerts that are lost.
\<close>

section \<open>Ratios\<close>

lemma ppm_finite:
  assumes "0 \<le> k" "k \<le> 1000000"
  shows "js_of_rat (of_int k / 1000000) = Fin (ppm k)"
proof -
  have "ppm k \<le> dbl 1" unfolding ppm_def using assms by (intro dbl_mono) simp
  moreover have "0 \<le> ppm k" unfolding ppm_def using assms by (intro dbl_nonneg) simp
  moreover have "(1::rat) < 2 ^ 1024" by (rule one_less_power) auto
  ultimately show ?thesis by (auto simp: ppm_def js_of_rat_small)
qed

lemma ratio_of_ppm:
  assumes "0 \<le> a" "a \<le> b" "0 < b"
  shows "ratio_of a b = Fin (ppm (a * 1000000 div b))" "0 \<le> a * 1000000 div b" "a * 1000000 div b \<le> 1000000"
proof -
  have "a * 1000000 div b \<le> b * 1000000 div b" using assms by (intro zdiv_mono1) auto
  then show k: "0 \<le> a * 1000000 div b" "a * 1000000 div b \<le> 1000000"
    using assms by (auto simp: pos_imp_zdiv_nonneg_iff)
  have "js_of_int (a * 1000000 div b) = Fin (of_int (a * 1000000 div b))"
    by (rule js_of_int_small) (use k in auto)
  then show "ratio_of a b = Fin (ppm (a * 1000000 div b))"
    using assms k by (simp add: ratio_of_def big_div_nonneg ppm_finite)
qed

lemma ratio_at_least:
  assumes "0 \<le> a" "a \<le> b" "0 < b" "0 \<le> k" "k \<le> 1000000"
  shows "js_le (Fin (ppm k)) (ratio_of a b) \<longleftrightarrow> k * b \<le> a * 1000000"
proof -
  have "ppm k \<le> ppm (a * 1000000 div b) \<longleftrightarrow> k \<le> a * 1000000 div b"
    using ratio_of_ppm [OF assms(1-3)] assms(4,5) by (intro ppm_le_iff) auto
  also have "\<dots> \<longleftrightarrow> k * b \<le> a * 1000000" by (rule le_div_iff [OF assms(3)])
  finally show ?thesis by (simp add: ratio_of_ppm [OF assms(1-3)])
qed

text \<open>
  C18. With the default thresholds the share alarm, computed in doubles, is exactly this integer
  rule: critical from 33.34 percent of the bonded stake, a warning from 30 percent, else nothing. A
  validator with more than a third and less than 33.34 percent only gets the warning.
\<close>

theorem share_alarm_exact:
  assumes "env ''TH_VAL_SHARE_WARN'' = None" "env ''TH_VAL_SHARE_CRIT'' = None"
    and "limits cfg = default_thresholds env" "0 \<le> v_tokens v" "v_tokens v \<le> tot" "0 < tot"
  shows "share_alert cfg tot v =
    (if 3334 * tot \<le> 10000 * v_tokens v
     then notify cfg (''val-share-crit-'' @ v_operator v) ''Validator over 1/3 of voting power'' Critical
     else if 3 * tot \<le> 10 * v_tokens v
     then notify cfg (''val-share-warn-'' @ v_operator v) ''Validator share high'' Warning
     else act_return False)"
proof -
  have c: "validatorShareCrit (limits cfg) = Fin (ppm 333400)" "validatorShareWarn (limits cfg) = Fin (ppm 300000)"
    using assms(1-3) by (simp_all add: default_thresholds_def env_num_def ppm_def)
  show ?thesis
    unfolding share_alert_def Let_def c ratio_at_least [OF assms(4-6), of 333400, simplified]
      ratio_at_least [OF assms(4-6), of 300000, simplified]
    by (rule arg_cong3 [where f = If, OF _ refl arg_cong3 [where f = If, OF _ refl refl]]) linarith+
qed

section \<open>What a watcher leaves alone\<close>

definition same_block :: "nworld \<Rightarrow> nworld \<Rightarrow> bool" where
  "same_block w w' = (last_dispenser_block w' = last_dispenser_block w)"

lemma same_block_pre: "reflp same_block" "transp same_block"
  by (auto simp: same_block_def reflp_def transp_def)

lemma notify_keeps_block: "keeps same_block (notify cfg k s lv)"
  by (auto simp: keeps_def same_block_def notify_def Let_def split: option.splits list.splits bool.splits)

lemmas block_rules = keeps_bind [OF same_block_pre(2)] keeps_pure [OF same_block_pre(1)] notify_keeps_block

lemma sale_alerts_keeps_block: "keeps same_block (sale_alerts cfg b ev)"
  by (auto simp: sale_alerts_def Let_def intro!: block_rules)

lemma sales_loop_keeps_block: "keeps same_block (sales_loop cfg b evs)"
  by (induction evs) (auto intro!: block_rules sale_alerts_keeps_block)

section \<open>Sales\<close>

text \<open>
  The blocks from the first one on up to \<open>x\<close> that completed cycles have scanned, and the invariant: they are all
  there up to the block of the state, up to the one on disk, and up to the start of every cycle under way.
\<close>

definition scanned_to :: "int \<Rightarrow> int \<Rightarrow> (int \<times> int) list \<Rightarrow> bool" where
  "scanned_to x0 x rs = (x0 \<le> x \<and> (\<forall>b. x0 < b \<and> b \<le> x \<longrightarrow> (\<exists>r \<in> set rs. fst r \<le> b \<and> b \<le> snd r)))"

definition sales_inv :: "int \<Rightarrow> sales_service \<Rightarrow> bool" where
  "sales_inv x0 s = (scanned_to x0 (last_dispenser_block (sworld s)) (scans s) \<and>
     scanned_to x0 (last_dispenser_block (saved_world s)) (scans s) \<and>
     (\<forall>j \<in> set (sjobs s). scanned_to x0 (sj_from j - 1) (scans s) \<and> sj_from j \<le> sj_to j))"

lemma scanned_to_more: "scanned_to x0 x rs \<Longrightarrow> scanned_to x0 x (rs @ [r])"
  by (auto simp: scanned_to_def)

lemma scanned_to_range: "scanned_to x0 (a - 1) rs \<Longrightarrow> a \<le> b \<Longrightarrow> scanned_to x0 b (rs @ [(a, b)])"
  by (force simp: scanned_to_def)

lemma inv_job_gone: "sales_inv x0 s \<Longrightarrow> sales_inv x0 (job_gone k s)"
  by (auto simp: sales_inv_def job_gone_def dest: in_set_takeD in_set_dropD)

lemma inv_job_complete:
  assumes "sales_inv x0 s" "k < length (sjobs s)" "sjobs s ! k = j"
  shows "sales_inv x0 (job_complete k j s)"
proof -
  have j: "scanned_to x0 (sj_from j - 1) (scans s)" "sj_from j \<le> sj_to j"
    using assms nth_mem [OF assms(2)] by (auto simp: sales_inv_def)
  from assms(1) have "sales_inv x0 (job_gone k s)" by (rule inv_job_gone)
  then show ?thesis
    using scanned_to_range [OF j] by (auto simp: sales_inv_def job_complete_def job_gone_def intro: scanned_to_more)
qed

lemma inv_job_next:
  assumes inv: "sales_inv x0 s" "k < length (sjobs s)" "sjobs s ! k = j"
  shows "sales_inv x0 (job_next k j evs s)"
proof (cases "evs = []")
  case True
  then show ?thesis using inv_job_complete [OF assms] by (simp add: job_next_def)
next
  case False
  have j: "scanned_to x0 (sj_from j - 1) (scans s)" "sj_from j \<le> sj_to j"
    using assms nth_mem [OF assms(2)] by (auto simp: sales_inv_def)
  have "x = j\<lparr>sj_todo := Some evs\<rparr> \<or> x \<in> set (sjobs s)" if "x \<in> set ((sjobs s)[k := j\<lparr>sj_todo := Some evs\<rparr>])" for x
    using that set_update_subset_insert [of "sjobs s" k] by auto
  with inv j False show ?thesis by (fastforce simp: sales_inv_def job_next_def)
qed

lemma inv_same_block:
  "sales_inv x0 s \<Longrightarrow> last_dispenser_block w = last_dispenser_block (sworld s) \<Longrightarrow> sales_inv x0 (s\<lparr>sworld := w\<rparr>)"
  by (simp add: sales_inv_def)

lemma inv_sale_alerts:
  assumes "sales_inv x0 s" "sale_alerts cfg b x (sworld s) = (r, w)"
  shows "sales_inv x0 (s\<lparr>sworld := w\<rparr>)"
proof (rule inv_same_block [OF assms(1)])
  show "last_dispenser_block w = last_dispenser_block (sworld s)"
    using keepsD [OF sale_alerts_keeps_block, of "sworld s" cfg b x] assms(2) by (simp add: same_block_def)
qed

lemma inv_step:
  assumes inv: "sales_inv x0 s" and x0: "0 < x0"
  shows "sales_inv x0 (sales_step cfg ev s)"
proof (cases ev)
  case (CycleBegins block)
  have "sales_from (last_dispenser_block (sworld s)) latest - 1 = last_dispenser_block (sworld s)" for latest
    using inv x0 by (auto simp: sales_inv_def scanned_to_def sales_from_def)
  then show ?thesis
    using inv by (auto simp: CycleBegins sales_step_def Let_def sales_inv_def split: sum.splits)
next
  case (LogsArrive k logs)
  then show ?thesis
    using inv by (auto simp: sales_step_def inv_job_gone inv_job_next split: sum.splits)
next
  case (SaleAlerts k bonded)
  show ?thesis
  proof (cases "k < length (sjobs s) \<and> (\<exists>x evs. sj_todo (sjobs s ! k) = Some (x # evs))")
    case True
    then obtain x evs where k: "k < length (sjobs s)" "sj_todo (sjobs s ! k) = Some (x # evs)" by blast
    obtain r w where r: "sale_alerts cfg (case bonded of Inl e \<Rightarrow> 0 | Inr b \<Rightarrow> b) x (sworld s) = (r, w)" by fastforce
    note w = inv_sale_alerts [OF inv r]
    show ?thesis
      using k r inv_job_gone [OF w] inv_job_next [OF w, of k] by (cases r) (simp_all add: SaleAlerts sales_step_def)
  qed (use inv in \<open>auto simp: SaleAlerts sales_step_def split: option.splits list.splits\<close>)
qed (use inv in \<open>auto simp: sales_step_def sales_inv_def\<close>)

lemma inv_steps: "sales_inv x0 s \<Longrightarrow> 0 < x0 \<Longrightarrow> sales_inv x0 (sales_steps cfg evs s)"
  by (induction evs arbitrary: s) (simp_all add: inv_step)

text \<open>
  C21. No block is skipped: from a state with a block on, whatever the chain and the mail server answer,
  however cycles overlap, fail or are cut off by a restart that reads the saved state back, and whenever the state is saved, every block
  after the first up to the one the state ends with lies in the range of some cycle that got its
  logs and raised the alerts of all of them; the same is so of the block on disk, so that the next run
  skips none either. (Blocks may be scanned twice: by cycles that overlap, and after a failure or a restart.)
\<close>

theorem no_sale_block_skipped:
  assumes "0 < last_dispenser_block w" "s = sales_steps cfg evs (sales_service_of w)"
    and "last_dispenser_block w < b" "b \<le> last_dispenser_block (sworld s) \<or> b \<le> last_dispenser_block (saved_world s)"
  shows "\<exists>r \<in> set (scans s). fst r \<le> b \<and> b \<le> snd r"
proof -
  have "sales_inv (last_dispenser_block w) (sales_service_of w)"
    by (simp add: sales_inv_def sales_service_of_def scanned_to_def)
  from inv_steps [OF this assms(1), of cfg evs] assms(3,4) show ?thesis
    by (auto simp: assms(2) sales_inv_def scanned_to_def)
qed

text \<open>The alerts of a job one after the other are the loop of \<open>watchGmbSales\<close>.\<close>

lemma alerts_in_turn:
  assumes "sjobs s = [j]" "sj_todo j = Some (x # evs)"
  shows "sales_steps cfg (map (\<lambda>_. SaleAlerts 0 bonded) (x # evs)) s =
    (case sales_loop cfg (case bonded of Inl e \<Rightarrow> 0 | Inr b \<Rightarrow> b) (x # evs) (sworld s) of
       (Inl e, w) \<Rightarrow> job_gone 0 (s\<lparr>sworld := w\<rparr>) | (Inr _, w) \<Rightarrow> job_complete 0 j (s\<lparr>sworld := w\<rparr>))"
  using assms
proof (induction evs arbitrary: s j x)
  case Nil
  obtain r w where r: "sale_alerts cfg (case bonded of Inl e \<Rightarrow> 0 | Inr b \<Rightarrow> b) x (sworld s) = (r, w)" by fastforce
  show ?case using Nil r by (cases r) (simp_all add: sales_step_def job_next_def act_bind_def act_return_def)
next
  case (Cons y evs)
  obtain r w where r: "sale_alerts cfg (case bonded of Inl e \<Rightarrow> 0 | Inr b \<Rightarrow> b) x (sworld s) = (r, w)" by fastforce
  show ?case
  proof (cases r)
    case (Inl e)
    have "sales_steps cfg (map (\<lambda>_. SaleAlerts 0 bonded) zs) t = t"
      if "sjobs t = []" for zs :: "sale list" and t
      using that by (induction zs) (simp_all add: sales_step_def)
    then show ?thesis
      using Cons.prems r Inl by (simp add: sales_step_def job_gone_def act_bind_def)
  next
    case (Inr u)
    let ?s = "s\<lparr>sworld := w, sjobs := [j\<lparr>sj_todo := Some (y # evs)\<rparr>]\<rparr>"
    have 1: "sales_step cfg (SaleAlerts 0 bonded) s = ?s"
      using Cons.prems r Inr by (simp add: sales_step_def job_next_def)
    have 2: "sales_loop cfg b (x # y # evs) (sworld s) = sales_loop cfg b (y # evs) w"
      if "b = (case bonded of Inl e \<Rightarrow> 0 | Inr b \<Rightarrow> b)" for b
      using r Inr by (simp add: that act_bind_def)
    have "sales_steps cfg (map (\<lambda>_. SaleAlerts 0 bonded) (y # evs)) ?s =
      (case sales_loop cfg (case bonded of Inl e \<Rightarrow> 0 | Inr b \<Rightarrow> b) (y # evs) (sworld ?s) of
       (Inl e, w) \<Rightarrow> job_gone 0 (?s\<lparr>sworld := w\<rparr>)
     | (Inr _, w) \<Rightarrow> job_complete 0 (j\<lparr>sj_todo := Some (y # evs)\<rparr>) (?s\<lparr>sworld := w\<rparr>))"
      by (rule Cons.IH) simp_all
    then show ?thesis
      using 1 2 Cons.prems(1) by (simp add: job_gone_def job_complete_def split: prod.splits sum.splits)
  qed
qed

text \<open>A cycle in which nothing else happens is \<open>watchGmbSales\<close>.\<close>

lemma cycle_alone:
  assumes "sales_from (last_dispenser_block w) latest \<le> latest"
    and "fetch (sales_from (last_dispenser_block w) latest) latest = Inr logs"
  shows "sworld (sales_steps cfg ([CycleBegins (Inr latest), LogsArrive 0 (Inr logs)] @ map (\<lambda>_. SaleAlerts 0 bonded) logs)
      (sales_service_of w)) = snd (watchGmbSales cfg (Inr latest) fetch bonded w)"
proof (cases logs)
  case Nil
  then show ?thesis
    using assms by (simp add: sales_step_def sales_service_of_def job_next_def job_complete_def job_gone_def watchGmbSales_def
        act_bind_def act_return_def)
next
  case (Cons x evs)
  let ?j = "\<lparr>sj_from = sales_from (last_dispenser_block w) latest, sj_to = latest, sj_todo = Some (x # evs)\<rparr>"
  let ?s = "(sales_service_of w)\<lparr>sjobs := [?j]\<rparr>"
  have "sales_steps cfg [CycleBegins (Inr latest), LogsArrive 0 (Inr logs)] (sales_service_of w) = ?s"
    using assms(1) by (simp add: Cons sales_step_def sales_service_of_def job_next_def)
  moreover have "sales_steps cfg (as @ bs) s = sales_steps cfg bs (sales_steps cfg as s)" for as bs s
    by (induction as arbitrary: s) simp_all
  ultimately have "sales_steps cfg ([CycleBegins (Inr latest), LogsArrive 0 (Inr logs)] @ map (\<lambda>_. SaleAlerts 0 bonded) logs)
      (sales_service_of w) = sales_steps cfg (map (\<lambda>_. SaleAlerts 0 bonded) (x # evs)) ?s"
    by (simp only: Cons)
  then show ?thesis
    using alerts_in_turn [of ?s ?j x evs cfg bonded] assms
    by (simp add: Cons sales_service_of_def job_gone_def job_complete_def watchGmbSales_def act_bind_def Let_def
        del: sales_steps.simps split: prod.splits sum.splits)
qed

section \<open>Alerts that are not mailed\<close>

definition mails_of :: "string \<Rightarrow> nworld \<Rightarrow> alert list" where
  "mails_of k w = filter (\<lambda>m. al_key m = k) (mails w)"

definition suppressed :: "string \<Rightarrow> nworld \<Rightarrow> bool" where
  "suppressed k w = (case map_of (last_sent w) k of None \<Rightarrow> False
     | Some p \<Rightarrow> p \<noteq> 0 \<and> js_lt (js_sub (js_of_int (nclock w)) (js_of_int p)) (alert_cooldown w))"

lemma notify_suppressed: "suppressed k w \<Longrightarrow> notify cfg k s lv w = (Inr False, w)"
  by (simp add: notify_def suppressed_def Let_def)

lemma notify_open:
  assumes "\<not> suppressed k w"
  shows "notify cfg k s lv w = (let w1 = w\<lparr>last_sent := AList.update k (nclock w) (last_sent w)\<rparr>;
      m = \<lparr>al_key = k, al_subject = s, al_level = lv, al_at = nclock w\<rparr> in
    if smtp_host cfg = [] \<or> dry_run cfg then (Inr True, w1)
    else case smtp_fails w1 of [] \<Rightarrow> (Inr True, w1\<lparr>mails := mails w1 @ [m]\<rparr>)
      | True # fs \<Rightarrow> (Inl ''SMTP'', w1\<lparr>smtp_fails := fs\<rparr>)
      | False # fs \<Rightarrow> (Inr True, w1\<lparr>smtp_fails := fs, mails := mails w1 @ [m]\<rparr>))"
  using assms unfolding notify_def suppressed_def Let_def by simp

text \<open>Once a key is suppressed no notification, of whatever key, mails it.\<close>

definition stays_quiet :: "string \<Rightarrow> nworld \<Rightarrow> nworld \<Rightarrow> bool" where
  "stays_quiet k w w' = (suppressed k w \<longrightarrow> suppressed k w' \<and> mails_of k w' = mails_of k w)"

lemma quiet_pre: "reflp (stays_quiet k)" "transp (stays_quiet k)"
  by (auto simp: stays_quiet_def reflp_def transp_def)

lemma notify_other_key:
  assumes "k \<noteq> k'"
  shows "map_of (last_sent (snd (notify cfg k' s lv w))) k = map_of (last_sent w) k \<and>
    mails_of k (snd (notify cfg k' s lv w)) = mails_of k w \<and>
    nclock (snd (notify cfg k' s lv w)) = nclock w \<and>
    alert_cooldown (snd (notify cfg k' s lv w)) = alert_cooldown w"
  using assms
  by (cases "suppressed k' w")
    (auto simp: notify_suppressed notify_open Let_def mails_of_def js_map.get_put split: list.splits bool.splits)

lemma notify_quiet: "keeps (stays_quiet k) (notify cfg k' s lv)"
proof (rule keepsI)
  fix w
  show "stays_quiet k w (snd (notify cfg k' s lv w))"
    using notify_other_key [of k k' cfg s lv w]
    by (cases "k = k'") (auto simp: stays_quiet_def suppressed_def [of k] notify_suppressed split: option.splits)
qed

lemmas quiet_rules = keeps_bind [OF quiet_pre(2)] keeps_pure [OF quiet_pre(1)] notify_quiet

lemma sales_loop_quiet: "keeps (stays_quiet k) (sales_loop cfg b evs)"
  by (induction evs) (auto simp: sale_alerts_def Let_def intro!: quiet_rules)

text \<open>
  A transaction that sells more than once is mailed once: the key of the alert is the
  transaction hash, so the second sale of the transaction falls under the cooldown of the first.
\<close>

theorem one_mail_per_transaction:
  assumes "\<not> suppressed (''sale-'' @ sale_tx ev) w" "0 < nclock w" "alert_cooldown w = Fin c" "0 < c"
    and "smtp_host cfg \<noteq> []" "\<not> dry_run cfg" "smtp_fails w = []" "nclock w \<le> 2 ^ 53"
  shows "length (mails_of (''sale-'' @ sale_tx ev) (snd (sales_loop cfg bonded (ev # evs) w))) =
    Suc (length (mails_of (''sale-'' @ sale_tx ev) w))"
proof -
  let ?k = "''sale-'' @ sale_tx ev"
  obtain w1 where n: "notify cfg ?k ''GMB sold via GembaPay'' Info w = (Inr True, w1)"
      "length (mails_of ?k w1) = Suc (length (mails_of ?k w))" "suppressed ?k w1"
    using assms by (simp add: notify_open Let_def mails_of_def suppressed_def js_of_int_small js_sub_def js_of_rat_small)
  define rest where "rest = (\<lambda>w. snd (act_bind (if bonded > 0 then
       (let frac = ratio_of (sale_amount ev) bonded in
        if js_le (largeSaleFracBondedCrit (limits cfg)) frac
        then act_bind (notify cfg (''sale-crit-'' @ sale_tx ev) ''LARGE GMB sale'' Critical) (\<lambda>_. act_return ())
        else if js_le (largeSaleFracBondedWarn (limits cfg)) frac
        then act_bind (notify cfg (''sale-warn-'' @ sale_tx ev) ''Sizeable GMB sale'' Warning) (\<lambda>_. act_return ())
        else act_return ()) else act_return ()) (\<lambda>_. sales_loop cfg bonded evs) w))"
  have "snd (sales_loop cfg bonded (ev # evs) w) = rest w1"
    using n(1) by (simp add: sale_alerts_def act_bind_def rest_def split del: if_split)
  moreover have "stays_quiet ?k w1 (rest w1)"
    unfolding rest_def by (rule keepsD) (auto simp: Let_def intro!: quiet_rules sales_loop_quiet)
  ultimately show ?thesis using n(2,3) by (simp add: stays_quiet_def)
qed

text \<open>
  A validator alert whose mail is refused is never mailed. The watcher stops there with the
  validators after it unseen; within the cooldown the next cycle takes the key for sent and records
  the validator as seen, and from then on it is no longer new.
\<close>

theorem refused_alert_is_lost:
  assumes "map_of (seen_validators w) (v_operator v) = None" "\<not> suppressed (''val-new-'' @ v_operator v) w"
    and "smtp_host cfg \<noteq> []" "\<not> dry_run cfg" "smtp_fails w = True # fs"
    and "alert_cooldown w = Fin (of_int c)" "0 < nclock w" "nclock w \<le> t" "t < nclock w + c" "t \<le> 2 ^ 53"
    and first: "watchValidators cfg (Inr (v # vs)) w = (r1, w1)"
    and again: "watch_one cfg v (w1\<lparr>nclock := t\<rparr>) = (r2, w2)"
    and later: "watch_one cfg v (w2\<lparr>nclock := t'\<rparr>) = (r3, w3)"
  shows "r1 = Inl ''SMTP'' \<and> seen_validators w1 = seen_validators w \<and> r2 = Inr () \<and> r3 = Inr () \<and>
    map_of (seen_validators w2) (v_operator v) \<noteq> None \<and> mails w3 = mails w"
proof -
  let ?k = "''val-new-'' @ v_operator v"
  have n: "notify cfg ?k s lv w = (Inl ''SMTP'', w\<lparr>last_sent := AList.update ?k (nclock w) (last_sent w), smtp_fails := fs\<rparr>)" for s lv
    using assms(2-5) by (simp add: notify_open Let_def)
  have w1: "r1 = Inl ''SMTP''" "w1 = w\<lparr>last_sent := AList.update ?k (nclock w) (last_sent w), smtp_fails := fs\<rparr>"
    using first n assms(1) by (simp_all add: watchValidators_def Let_def act_bind_def watch_one_def)
  have "js_sub (js_of_int t) (js_of_int (nclock w)) = Fin (of_int (t - nclock w))"
    using assms(7-10) by (simp add: js_of_int_small js_sub_int del: of_int_diff)
  then have "suppressed ?k (w1\<lparr>nclock := t\<rparr>)"
    unfolding w1(2) using assms(6-9) by (simp add: suppressed_def del: of_int_diff)
  then have w2: "r2 = Inr ()" "w2 = snd (see_validator v (w1\<lparr>nclock := t\<rparr>))"
    using again assms(1) by (simp_all add: watch_one_def act_bind_def notify_suppressed see_validator_def w1(2))
  have seen: "map_of (seen_validators w2) (v_operator v) = Some \<lparr>vs_jailed = v_jailed v, vs_tokens = v_tokens v\<rparr>"
    by (simp add: w2(2) see_validator_def)
  then have "r3 = Inr ()" "mails w3 = mails w2"
    using later by (auto simp: watch_one_def act_bind_def see_validator_def)
  then show ?thesis using w1 w2 seen by (simp add: see_validator_def)
qed

text \<open>
  The endpoints the notifier watches by default on mainnet are taken for web pages: none of the
  names contains rpc, so an endpoint that answers every request with 404 counts as up.
\<close>

theorem mainnet_endpoints_probed_as_pages:
  assumes "notifier_config env = Inr cfg" "notifier_network env = ''mainnet''" "env ''UPTIME_URLS'' = None"
    and "u \<in> set (uptime_urls cfg)" "probe_of u = HttpStatus 404 False" "map_of (uptime_ok w) u \<noteq> Some False"
  shows "length (uptime_urls cfg) = 4 \<and>
    watch_url cfg probe_of u w = (Inr (), w\<lparr>uptime_ok := AList.update u True (uptime_ok w)\<rparr>)"
proof -
  let ?urls = "[''https://gmb1.gembascan.io'', ''https://gmb2.gembascan.io'', ''https://gmb3.gembascan.io'', ''https://gembascan.io'']"
  have "nonempty_parts ''https://gmb1.gembascan.io,https://gmb2.gembascan.io,https://gmb3.gembascan.io,https://gembascan.io'' = ?urls"
    by code_simp
  then have urls: "uptime_urls cfg = ?urls"
    using assms(1-3) by (auto simp: notifier_config_def Let_def env_or_def split: if_splits)
  have "list_all (\<lambda>u. \<not> is_rpc_url u) ?urls" by code_simp
  then have "\<not> is_rpc_url u" using assms(4) unfolding urls list_all_iff by blast
  then show ?thesis using assms(5,6) by (simp add: urls watch_url_def Let_def probeHttp_def)
qed

text \<open>
  A bonded ratio of zero raises nothing: when no stake at all is bonded, or the reserves cover
  the whole supply, the watcher of the security indicator returns before its first alarm.
\<close>

theorem zero_bonded_raises_no_alarm:
  assumes "bonded = 0 \<or> supply \<le> foldl (\<lambda>acc a. case balance a of Inl e \<Rightarrow> acc | Inr b \<Rightarrow> acc + b) 0 (reserves cfg)"
  shows "watchBondedRatio cfg (Inr (fetchBondedRatio bonded supply balance cfg)) w = (Inr (), w)"
proof -
  have "ratio_of 0 c = Fin 0" for c
    by (simp add: ratio_of_def big_div_def js_of_int_def js_of_rat_def dbl_limit_def)
  then have "fetchBondedRatio bonded supply balance cfg = Fin 0"
    using assms by (auto simp: fetchBondedRatio_def Let_def)
  then show ?thesis by (simp add: watchBondedRatio_def)
qed

section \<open>Witnesses\<close>

definition sample_notifier_env :: env where
  "sample_notifier_env = (\<lambda>k. if k = ''NETWORK'' then Some ''mainnet''
     else if k = ''COSMOS_REST'' then Some ''http://r''
     else if k = ''GEMBA_DISPENSER_ADDRESS'' then Some ''0xAB'' else if k = ''SMTP_HOST'' then Some ''m'' else None)"

definition sample_notifier :: notifier_cfg where
  "sample_notifier = projr (notifier_config sample_notifier_env)"

definition sample_nworld :: nworld where
  "sample_nworld = \<lparr>seen_validators = [], bonded_history = [], share_snapshots = [], uptime_ok = [],
     last_dispenser_block = 10, last_sent = [], alert_cooldown = Fin (of_int 10800000), nclock = 1000,
     smtp_fails = [], mails = []\<rparr>"

definition sample_validator :: validator where
  "sample_validator = \<lparr>v_operator = ''op'', v_moniker = [], v_tokens = 3333, v_jailed = False,
     v_status = ''BOND_STATUS_BONDED''\<rparr>"

lemma config_parts:
  assumes "notifier_config env = Inr cfg"
  shows "smtp_host cfg = env_or env ''SMTP_HOST'' []" "limits cfg = default_thresholds env"
    "dry_run cfg \<longleftrightarrow> env ''DRY_RUN'' = Some ''1'' \<or> env_or env ''SMTP_HOST'' [] = []"
  using assms by (auto simp: notifier_config_def Let_def split: if_splits)

lemma sample_cfg:
  "notifier_config sample_notifier_env = Inr sample_notifier" "smtp_host sample_notifier = ''m''"
  "\<not> dry_run sample_notifier" "notifier_network sample_notifier_env = ''mainnet''"
  "limits sample_notifier = default_thresholds sample_notifier_env"
proof -
  show n: "notifier_network sample_notifier_env = ''mainnet''" by code_simp
  show c: "notifier_config sample_notifier_env = Inr sample_notifier"
    by (simp add: sample_notifier_def notifier_config_def n Let_def) (simp add: sample_notifier_env_def env_or_def)
  show "smtp_host sample_notifier = ''m''" "\<not> dry_run sample_notifier"
    "limits sample_notifier = default_thresholds sample_notifier_env"
    using config_parts [OF c] by (simp_all add: sample_notifier_env_def env_or_def)
qed

lemma share_alarm_exact_witness:
  "share_alert sample_notifier 9999 sample_validator =
     notify sample_notifier ''val-share-warn-op'' ''Validator share high'' Warning"
proof -
  have "sample_notifier_env ''TH_VAL_SHARE_WARN'' = None" "sample_notifier_env ''TH_VAL_SHARE_CRIT'' = None"
    by (simp_all add: sample_notifier_env_def)
  from share_alarm_exact [OF this sample_cfg(5), of sample_validator 9999]
  show ?thesis by (simp add: sample_validator_def)
qed

definition sample_sales :: "int \<Rightarrow> int \<Rightarrow> string + sale list" where
  "sample_sales a b = Inr [\<lparr>sale_tx = ''t1'', sale_amount = 5, sale_block = a\<rparr>, \<lparr>sale_tx = ''t1'', sale_amount = 7, sale_block = a\<rparr>]"

text \<open>Two cycles that overlap, the second of which ends first: blocks 11 and 12 are scanned twice.\<close>

lemma no_sale_block_skipped_witness:
  "let s = sales_steps sample_notifier [CycleBegins (Inr 12), CycleBegins (Inr 14), LogsArrive 1 (sample_sales 11 14),
       SaleAlerts 1 (Inr 1), SaleAlerts 1 (Inr 1), LogsArrive 0 (Inr []), StateSaved] (sales_service_of sample_nworld) in
     last_dispenser_block (sworld s) = 12 \<and> scans s = [(11, 14), (11, 12)] \<and> (\<exists>r \<in> set (scans s). fst r \<le> 11 \<and> 11 \<le> snd r)"
proof -
  let ?evs = "[CycleBegins (Inr 12), CycleBegins (Inr 14), LogsArrive 1 (sample_sales 11 14),
       SaleAlerts 1 (Inr 1), SaleAlerts 1 (Inr 1), LogsArrive 0 (Inr []), StateSaved]"
  let ?s = "sales_steps sample_notifier ?evs (sales_service_of sample_nworld)"
  have e: "last_dispenser_block (sworld ?s) = 12" "scans ?s = [(11, 14), (11, 12)]" by code_simp+
  have "0 < last_dispenser_block sample_nworld" "last_dispenser_block sample_nworld < 11" by (simp_all add: sample_nworld_def)
  with no_sale_block_skipped [OF this(1) refl this(2), of sample_notifier ?evs] e show ?thesis by (simp add: Let_def)
qed

lemma one_mail_per_transaction_witness:
  "length (mails_of ''sale-t1'' (snd (sales_loop sample_notifier 0 (projr (sample_sales 1 2)) sample_nworld))) = 1"
  using one_mail_per_transaction [of "\<lparr>sale_tx = ''t1'', sale_amount = 5, sale_block = 1\<rparr>" sample_nworld
      "of_int 10800000" sample_notifier 0 "[\<lparr>sale_tx = ''t1'', sale_amount = 7, sale_block = 1\<rparr>]"]
    sample_cfg(2,3)
  by (simp add: sample_sales_def sample_nworld_def suppressed_def mails_of_def)

lemma refused_alert_is_lost_witness:
  "let w = sample_nworld\<lparr>smtp_fails := [True]\<rparr>;
       w1 = snd (watchValidators sample_notifier (Inr [sample_validator]) w);
       w2 = snd (watch_one sample_notifier sample_validator (w1\<lparr>nclock := 31000\<rparr>));
       w3 = snd (watch_one sample_notifier sample_validator (w2\<lparr>nclock := 99999999\<rparr>))
   in mails w3 = [] \<and> map_of (seen_validators w2) ''op'' \<noteq> None"
proof -
  let ?w = "sample_nworld\<lparr>smtp_fails := [True]\<rparr>"
  have a: "map_of (seen_validators ?w) (v_operator sample_validator) = None"
    "\<not> suppressed (''val-new-'' @ v_operator sample_validator) ?w" "smtp_fails ?w = True # []"
    "alert_cooldown ?w = Fin (of_int 10800000)" "0 < nclock ?w" "nclock ?w \<le> 31000" "31000 < nclock ?w + 10800000"
    "mails ?w = []" "v_operator sample_validator = ''op''"
    by (simp_all add: sample_nworld_def sample_validator_def suppressed_def)
  show ?thesis
    using refused_alert_is_lost [where t' = 99999999 and vs = "[]", OF a(1,2) _ sample_cfg(3) a(3-7) _
        prod.collapse [symmetric] prod.collapse [symmetric] prod.collapse [symmetric]]
    unfolding Let_def a(8,9) sample_cfg(2) by simp
qed

lemma mainnet_endpoints_probed_as_pages_witness:
  "watch_url sample_notifier (\<lambda>_. HttpStatus 404 False) ''https://gmb1.gembascan.io'' sample_nworld =
    (Inr (), sample_nworld\<lparr>uptime_ok := [(''https://gmb1.gembascan.io'', True)]\<rparr>)"
proof -
  have u: "sample_notifier_env ''UPTIME_URLS'' = None" "uptime_ok sample_nworld = []"
    by (simp_all add: sample_notifier_env_def sample_nworld_def)
  have "''https://gmb1.gembascan.io'' \<in> set (uptime_urls sample_notifier)" by code_simp
  from mainnet_endpoints_probed_as_pages [OF sample_cfg(1,4) u(1) this, of "\<lambda>_. HttpStatus 404 False" sample_nworld]
  show ?thesis by (simp add: u(2))
qed

lemma zero_bonded_raises_no_alarm_witness:
  "watchBondedRatio sample_notifier (Inr (fetchBondedRatio 0 100 (\<lambda>_. Inl ''down'') sample_notifier)) sample_nworld =
    (Inr (), sample_nworld)"
  by (rule zero_bonded_raises_no_alarm) simp

end
