(* ===== verification/Workloads.thy ===== *)
theory Workloads
  imports Gemba_Prelude
begin

text \<open>
  The workloads of the endurance run, endurance/config/workloads.js: per operation a builder that
  reads and changes the generator's bookkeeping and gives a transaction, or nothing when the operation
  is not ready. What an operation adds to the bookkeeping is an effect that the engine runs when the
  transaction has succeeded.

  The random draws, the clock, the addresses, and what ethers computes (addresses of new contracts,
  signatures) are arguments. A draw for a list of \<open>n\<close> is a number modulo \<open>n\<close>; the list of wallets is not
  empty.
\<close>

section \<open>Transactions and effects\<close>

datatype call_arg = Addr string | Num int | Text string | Addrs "string list" | Nums "int list"

datatype call_data = NoData | Raw string | Call string string "call_arg list"

record tx_request =
  rq_to :: "string option"
  rq_data :: call_data
  rq_value :: int
  rq_gas :: int

datatype account_kind = Wgmb | Nlp | Eco | Vault | Stake | Rwd

datatype owned_kind = Nft | MktNft | RoyNft | AucNft | BatchNft | StakedNft

datatype child_kind = EoaChild | FactoryChild

datatype effect =
    NoEffect
  | PushOwned owned_kind string int
  | PushBatch string int nat
  | CreditTo account_kind string int
  | Has1155 string
  | LpCredit string string
  | PushEoaChild string
  | PushFactoryChild string string
  | PushClone string string
  | MktListing int string
  | RoyListing int string
  | NewAuction bool int string
  | NewProposal int
  | CountVote int
  | MarkQueued int
  | Permit string string

record listing =
  ls_id :: int
  ls_seller :: string
  ls_price :: int
  ls_taken :: bool

record auction =
  au_english :: bool
  au_id :: int
  au_seller :: string
  au_ts :: int
  bidBuilt :: bool
  settleBuilt :: bool

record proposal =
  pr_pid :: int
  pr_ts :: int
  voters :: "string list"
  confVotes :: nat
  queueBuilt :: bool
  queued :: bool
  qts :: int
  execBuilt :: bool

record wl_ctx =
  credits :: "account_kind \<Rightarrow> string \<Rightarrow> int"
  owned :: "owned_kind \<Rightarrow> string \<Rightarrow> int list"
  children :: "child_kind \<Rightarrow> string \<Rightarrow> string list"
  clones :: "string \<Rightarrow> (string \<times> bool) list"
  lp :: "string \<Rightarrow> string \<Rightarrow> int"
  has1155 :: "string \<Rightarrow> bool"
  nftSeq :: int
  mktSeq :: int
  roySeq :: int
  aucSeq :: int
  batchSeq :: int
  salt :: int
  cloneSalt :: int
  govPid :: int
  voucherId :: int
  mktListed :: "listing list"
  mktCursor :: nat
  royListed :: "listing list"
  royCursor :: nat
  auctions :: "auction list"
  proposals :: "proposal list"
  permitNonce :: "string \<Rightarrow> int option"
  permitsBySpender :: "string \<Rightarrow> (string \<times> int) list"
  permitInFlight :: "string \<Rightarrow> bool"

record wl_env =
  wl_addr :: "string \<Rightarrow> string"
  wl_pool :: "string list"
  wl_index :: "string \<Rightarrow> int"
  wl_pairs :: "(string \<times> string \<times> string) list"
  childBytecode :: string
  createAddr :: "string \<Rightarrow> int \<Rightarrow> string"
  create2Addr :: "int \<Rightarrow> string"
  salt32 :: "int \<Rightarrow> string"
  cloneAddr :: "string \<Rightarrow> string"
  permit_sig :: "string \<Rightarrow> string \<Rightarrow> int \<Rightarrow> call_arg list"
  voucher_sig :: "string \<Rightarrow> int \<Rightarrow> call_arg list"

section \<open>Amounts\<close>

text \<open>What an account operation adds on success and takes when it is built.\<close>

fun credit_amount :: "account_kind \<Rightarrow> int" where
  "credit_amount Wgmb = 10 ^ 15"
| "credit_amount Nlp = 10 ^ 13"
| "credit_amount Eco = 10 ^ 9"
| "credit_amount Vault = 10 ^ 18"
| "credit_amount Stake = 10 ^ 18"
| "credit_amount Rwd = 10 ^ 18"

fun debit_amount :: "account_kind \<Rightarrow> int" where
  "debit_amount Wgmb = 10 ^ 14"
| "debit_amount Nlp = 10 ^ 13"
| "debit_amount Eco = 4 * 10 ^ 8"
| "debit_amount Vault = 4 * 10 ^ 17"
| "debit_amount Stake = 4 * 10 ^ 17"
| "debit_amount Rwd = 4 * 10 ^ 17"

definition SWAP_IN :: int where "SWAP_IN = 10 ^ 18"
definition ADD_LIQ :: int where "ADD_LIQ = 10 ^ 18"
definition LP_REMOVE :: int where "LP_REMOVE = 10 ^ 16"
definition LP_CREDIT :: int where "LP_CREDIT = ADD_LIQ div 4"
definition NSWAP_IN :: int where "NSWAP_IN = 10 ^ 15"
definition NADD_TOK :: int where "NADD_TOK = 10 ^ 18"
definition NADD_NATIVE :: int where "NADD_NATIVE = 10 ^ 15"
definition NFT_PRICE :: int where "NFT_PRICE = 10 ^ 9"
definition PERMIT_VALUE :: int where "PERMIT_VALUE = 10 ^ 20"
definition PERMIT_XFER :: int where "PERMIT_XFER = 10 ^ 15"
definition VOUCHER_AMT :: int where "VOUCHER_AMT = 10 ^ 18"
definition DEADLINE :: int where "DEADLINE = 19999999999"
definition QCAP :: nat where "QCAP = 300"

definition cap :: "'a list \<Rightarrow> 'a list" where
  "cap q = (if QCAP < length q then tl q else q)"

section \<open>Draws and searches\<close>

type_synonym draws = "nat \<Rightarrow> nat"

definition draw :: "draws \<Rightarrow> nat \<Rightarrow> nat \<Rightarrow> nat" where
  "draw rnd k n = rnd k mod n"

definition randOf :: "draws \<Rightarrow> nat \<Rightarrow> 'a list \<Rightarrow> 'a" where
  "randOf rnd k xs = xs ! draw rnd k (length xs)"

lemma randOf_in: "xs \<noteq> [] \<Longrightarrow> randOf rnd k xs \<in> set xs"
  by (simp add: randOf_def draw_def)

lemma randOf_two: "randOf rnd k [x, y] = x \<or> randOf rnd k [x, y] = y"
  using randOf_in [of "[x, y]" rnd k] by simp

definition others :: "wl_env \<Rightarrow> draws \<Rightarrow> nat \<Rightarrow> string \<Rightarrow> string" where
  "others e rnd k f = (let a = randOf rnd k (wl_pool e) in if a = f then randOf rnd (Suc k) (wl_pool e) else a)"

definition first_index :: "('a \<Rightarrow> bool) \<Rightarrow> 'a list \<Rightarrow> nat \<Rightarrow> nat \<Rightarrow> nat option" where
  "first_index P xs start n = find (\<lambda>i. P (xs ! i)) [start..<min (start + n) (length xs)]"

definition skip_taken :: "listing list \<Rightarrow> nat \<Rightarrow> nat" where
  "skip_taken L k = k + length (takeWhile ls_taken (drop k L))"

definition add_listing :: "listing \<Rightarrow> listing list \<Rightarrow> nat \<Rightarrow> listing list \<times> nat" where
  "add_listing l L k = (let L' = L @ [l] in
     if 6000 < length L' then (drop (length L' - 3000) L', 0) else (L', k))"

section \<open>Effects\<close>

definition push_owned :: "owned_kind \<Rightarrow> string \<Rightarrow> int \<Rightarrow> wl_ctx \<Rightarrow> wl_ctx" where
  "push_owned q f i c = c\<lparr>owned := (owned c)(q := (owned c q)(f := cap (owned c q f @ [i])))\<rparr>"

text \<open>The effect of a transaction with nonce \<open>n\<close> that succeeded, at the time \<open>now\<close> of its receipt.\<close>

fun apply_effect :: "wl_env \<Rightarrow> int \<Rightarrow> int \<Rightarrow> effect \<Rightarrow> wl_ctx \<Rightarrow> wl_ctx" where
  "apply_effect e n now NoEffect c = c"
| "apply_effect e n now (PushOwned q f i) c = push_owned q f i c"
| "apply_effect e n now (PushBatch f i k) c = c\<lparr>owned := (owned c)(BatchNft := (owned c BatchNft)
     (f := cap (owned c BatchNft f @ map (\<lambda>j. i + int j) [0..<k])))\<rparr>"
| "apply_effect e n now (CreditTo k f amt) c = c\<lparr>credits := (credits c)(k := (credits c k)(f := credits c k f + amt))\<rparr>"
| "apply_effect e n now (Has1155 f) c = c\<lparr>has1155 := (has1155 c)(f := True)\<rparr>"
| "apply_effect e n now (LpCredit f p) c = c\<lparr>lp := (lp c)(f := (lp c f)(p := lp c f p + LP_CREDIT))\<rparr>"
| "apply_effect e n now (PushEoaChild f) c = c\<lparr>children := (children c)(EoaChild := (children c EoaChild)
     (f := cap (children c EoaChild f @ [createAddr e f n])))\<rparr>"
| "apply_effect e n now (PushFactoryChild f a) c = c\<lparr>children := (children c)(FactoryChild := (children c FactoryChild)
     (f := cap (children c FactoryChild f @ [a])))\<rparr>"
| "apply_effect e n now (PushClone f a) c = c\<lparr>clones := (clones c)(f := cap (clones c f @ [(a, False)]))\<rparr>"
| "apply_effect e n now (MktListing i f) c = (case add_listing \<lparr>ls_id = i, ls_seller = f, ls_price = NFT_PRICE, ls_taken = False\<rparr>
     (mktListed c) (mktCursor c) of (L, k) \<Rightarrow> c\<lparr>mktListed := L, mktCursor := k\<rparr>)"
| "apply_effect e n now (RoyListing i f) c = (case add_listing \<lparr>ls_id = i, ls_seller = f, ls_price = NFT_PRICE, ls_taken = False\<rparr>
     (royListed c) (royCursor c) of (L, k) \<Rightarrow> c\<lparr>royListed := L, royCursor := k\<rparr>)"
| "apply_effect e n now (NewAuction eng i f) c = c\<lparr>auctions := auctions c @
     [\<lparr>au_english = eng, au_id = i, au_seller = f, au_ts = now, bidBuilt = False, settleBuilt = False\<rparr>]\<rparr>"
| "apply_effect e n now (NewProposal p) c = c\<lparr>proposals := proposals c @
     [\<lparr>pr_pid = p, pr_ts = now, voters = [], confVotes = 0, queueBuilt = False, queued = False, qts = 0, execBuilt = False\<rparr>]\<rparr>"
| "apply_effect e n now (CountVote p) c = c\<lparr>proposals :=
     map (\<lambda>x. if pr_pid x = p then x\<lparr>confVotes := Suc (confVotes x)\<rparr> else x) (proposals c)\<rparr>"
| "apply_effect e n now (MarkQueued p) c = c\<lparr>proposals :=
     map (\<lambda>x. if pr_pid x = p then x\<lparr>queued := True, qts := now\<rparr> else x) (proposals c)\<rparr>"
| "apply_effect e n now (Permit f s) c = c\<lparr>permitsBySpender := (permitsBySpender c)(s := permitsBySpender c s @ [(f, PERMIT_VALUE)])\<rparr>"

text \<open>\<open>onResolve\<close> of a permit frees its owner; a failure also starts a read of the owner's nonce.\<close>

definition resolve_effect :: "wl_env \<Rightarrow> int \<Rightarrow> int \<Rightarrow> bool \<Rightarrow> effect \<Rightarrow> wl_ctx \<Rightarrow> wl_ctx" where
  "resolve_effect e n now ok eff c = (let c1 = (case eff of Permit f s \<Rightarrow> c\<lparr>permitInFlight := (permitInFlight c)(f := False)\<rparr> | _ \<Rightarrow> c) in
     if ok then apply_effect e n now eff c1 else c1)"

definition resyncPermitNonce :: "string \<Rightarrow> int option \<Rightarrow> wl_ctx \<Rightarrow> wl_ctx" where
  "resyncPermitNonce f answer c = (case answer of None \<Rightarrow> c
     | Some n \<Rightarrow> c\<lparr>permitNonce := (permitNonce c)(f := Some n), permitInFlight := (permitInFlight c)(f := False)\<rparr>)"

end
