(* ===== verification/Workload_Build.thy ===== *)
theory Workload_Build
  imports Workloads
begin

text \<open>
  The builders of endurance/config/workloads.js, one equation per operation, in the order of the file,
  and the weighted choice among them.
\<close>

datatype (plugins only: code) workload =
    NativeTransfer | Erc20Mint | Erc20Transfer | Erc20Approve | NftMint | NftTransfer
  | Erc1155Mint | Erc1155Transfer | WrapGMB | UnwrapGMB
  | DexSwap | DexAddLiq | DexRemoveLiq | FeeSwap | RebaseSwap | RebaseUp
  | NativeSwapIn | NativeSwapOut | NativeAddLiq | NativeRemoveLiq | EcoDeposit | EcoWithdraw
  | DiamondBump | DiamondSet | DeployChild | CallDeployedChild | FactoryDeploy | FactoryCallChild
  | CloneAndInit | CloneDeterministic | CloneInit | CloneCall
  | MktMint | MktList | MktBuy | RoyaltyMint | RoyaltyList | RoyaltyBuy | RoyaltyCancel
  | BatchMint | NftStakeStake | NftStakeUnstake | VaultDeposit | VaultMint | VaultWithdraw
  | StakeDeposit | StakeWithdraw | RwdStake | RwdClaim | RwdUnstake
  | AuctionMint | CreateEnglish | BidEnglish | SettleEnglish | CreateDutch | BuyDutch
  | GovPropose | GovVote | GovQueue | GovExecute | DeepChainRun | DeepCallback
  | DisperseMany | EventsBurst | BatchMulticall | WorkbenchSet | WorkbenchLoop
  | PermitOp | PermitTransferFrom | VoucherRedeem

type_synonym built = "(tx_request \<times> effect) option \<times> wl_ctx"

definition tx :: "string \<Rightarrow> call_data \<Rightarrow> int \<Rightarrow> int \<Rightarrow> tx_request" where
  "tx t d v g = \<lparr>rq_to = Some t, rq_data = d, rq_value = v, rq_gas = g\<rparr>"

definition ready :: "tx_request \<Rightarrow> effect \<Rightarrow> wl_ctx \<Rightarrow> built" where
  "ready r eff c = (Some (r, eff), c)"

text \<open>Operations that take from a balance, from the front of an owner's queue, or look at its first child.\<close>

definition debit :: "account_kind \<Rightarrow> string \<Rightarrow> tx_request \<Rightarrow> wl_ctx \<Rightarrow> built" where
  "debit k f r c = (if credits c k f < debit_amount k then (None, c)
     else (Some (r, NoEffect), c\<lparr>credits := (credits c)(k := (credits c k)(f := credits c k f - debit_amount k))\<rparr>))"

definition take_owned :: "owned_kind \<Rightarrow> string \<Rightarrow> (int \<Rightarrow> tx_request \<times> effect) \<Rightarrow> wl_ctx \<Rightarrow> built" where
  "take_owned q f r c = (case owned c q f of [] \<Rightarrow> (None, c)
     | i # rest \<Rightarrow> (Some (r i), c\<lparr>owned := (owned c)(q := (owned c q)(f := rest))\<rparr>))"

definition call_child :: "child_kind \<Rightarrow> string \<Rightarrow> call_data \<Rightarrow> wl_ctx \<Rightarrow> built" where
  "call_child k f d c = (case children c k f of [] \<Rightarrow> (None, c) | a # as \<Rightarrow> ready (tx a d 0 95000) NoEffect c)"

text \<open>Operations on the first auction or proposal that is ready for them.\<close>

definition on_auction :: "(auction \<Rightarrow> bool) \<Rightarrow> (auction \<Rightarrow> auction) \<Rightarrow> (auction \<Rightarrow> tx_request) \<Rightarrow> wl_ctx \<Rightarrow> built" where
  "on_auction P upd r c = (case first_index P (auctions c) 0 (length (auctions c)) of None \<Rightarrow> (None, c)
     | Some i \<Rightarrow> (Some (r (auctions c ! i), NoEffect), c\<lparr>auctions := (auctions c)[i := upd (auctions c ! i)]\<rparr>))"

definition on_proposal :: "(proposal \<Rightarrow> bool) \<Rightarrow> (proposal \<Rightarrow> proposal) \<Rightarrow> (proposal \<Rightarrow> tx_request \<times> effect) \<Rightarrow> wl_ctx \<Rightarrow> built" where
  "on_proposal P upd r c = (case first_index P (proposals c) 0 (length (proposals c)) of None \<Rightarrow> (None, c)
     | Some i \<Rightarrow> (Some (r (proposals c ! i)), c\<lparr>proposals := (proposals c)[i := upd (proposals c ! i)]\<rparr>))"

definition call0 :: "string \<Rightarrow> string \<Rightarrow> call_data" where
  "call0 i fn = Call i fn []"

primrec build :: "wl_env \<Rightarrow> draws \<Rightarrow> int \<Rightarrow> workload \<Rightarrow> string \<Rightarrow> wl_ctx \<Rightarrow> built" where
  "build e rnd now NativeTransfer f c = ready (tx (others e rnd 0 f) NoData 1 21000) NoEffect c"
| "build e rnd now Erc20Mint f c = ready (tx (wl_addr e ''tka'') (Call ''erc20'' ''mint'' [Addr f, Num (10 ^ 24)]) 0 75000) NoEffect c"
| "build e rnd now Erc20Transfer f c = ready (tx (randOf rnd 0 [wl_addr e ''tka'', wl_addr e ''tkb''])
     (Call ''erc20'' ''transfer'' [Addr (others e rnd 1 f), Num 1]) 0 70000) NoEffect c"
| "build e rnd now Erc20Approve f c = ready (tx (randOf rnd 0 [wl_addr e ''tka'', wl_addr e ''tkb'', wl_addr e ''tkc''])
     (Call ''erc20'' ''approve'' [Addr (wl_addr e ''router''), Num (2 ^ 255)]) 0 60000) NoEffect c"
| "build e rnd now NftMint f c = ready (tx (wl_addr e ''nft'') (Call ''erc721'' ''mint'' [Addr f, Num (nftSeq c)]) 0 120000)
     (PushOwned Nft f (nftSeq c)) (c\<lparr>nftSeq := nftSeq c + 1\<rparr>)"
| "build e rnd now NftTransfer f c = take_owned Nft f (\<lambda>i. (tx (wl_addr e ''nft'')
     (Call ''erc721'' ''transferFrom'' [Addr f, Addr (others e rnd 0 f), Num i]) 0 90000, NoEffect)) c"
| "build e rnd now Erc1155Mint f c = ready (tx (wl_addr e ''erc1155'')
     (Call ''erc1155'' ''mint'' [Addr f, Num (wl_index e f), Num 1000000]) 0 75000) (Has1155 f) c"
| "build e rnd now Erc1155Transfer f c = (if \<not> has1155 c f then (None, c)
     else ready (tx (wl_addr e ''erc1155'') (Call ''erc1155'' ''safeTransferFrom''
       [Addr f, Addr (others e rnd 0 f), Num (wl_index e f), Num 1, Text ''0x'']) 0 75000) NoEffect c)"
| "build e rnd now WrapGMB f c = ready (tx (wl_addr e ''wgmb'') (call0 ''wgmb'' ''deposit'') (10 ^ 15) 70000)
     (CreditTo Wgmb f (credit_amount Wgmb)) c"
| "build e rnd now UnwrapGMB f c = debit Wgmb f (tx (wl_addr e ''wgmb'') (Call ''wgmb'' ''withdraw'' [Num (debit_amount Wgmb)]) 0 70000) c"
| "build e rnd now DexSwap f c = (case randOf rnd 0 (wl_pairs e) of (a, b, l) \<Rightarrow>
     ready (tx (wl_addr e ''router'') (Call ''router'' ''swapExactTokensForTokens''
       [Num SWAP_IN, Num 0, Addrs (if draw rnd 1 2 = 0 then [a, b] else [b, a]), Addr f, Num DEADLINE]) 0 240000) NoEffect c)"
| "build e rnd now DexAddLiq f c = (case randOf rnd 0 (wl_pairs e) of (a, b, l) \<Rightarrow>
     ready (tx (wl_addr e ''router'') (Call ''router'' ''addLiquidity''
       [Addr a, Addr b, Num ADD_LIQ, Num ADD_LIQ, Num 0, Num 0, Addr f, Num DEADLINE]) 0 280000) (LpCredit f l) c)"
| "build e rnd now DexRemoveLiq f c = (case find (\<lambda>(a, b, l). LP_REMOVE \<le> lp c f l) (wl_pairs e) of None \<Rightarrow> (None, c)
     | Some (a, b, l) \<Rightarrow> (Some (tx (wl_addr e ''router'') (Call ''router'' ''removeLiquidity''
         [Addr a, Addr b, Num LP_REMOVE, Num 0, Num 0, Addr f, Num DEADLINE]) 0 260000, NoEffect),
       c\<lparr>lp := (lp c)(f := (lp c f)(l := lp c f l - LP_REMOVE))\<rparr>))"
| "build e rnd now FeeSwap f c = ready (tx (wl_addr e ''router'') (Call ''router'' ''swapExactTokensForTokensSupportingFeeOnTransferTokens''
     [Num SWAP_IN, Num 0, Addrs [wl_addr e ''feeToken'', wl_addr e ''tka''], Addr f, Num DEADLINE]) 0 260000) NoEffect c"
| "build e rnd now RebaseSwap f c = ready (tx (wl_addr e ''router'') (Call ''router'' ''swapExactTokensForTokensSupportingFeeOnTransferTokens''
     [Num SWAP_IN, Num 0, Addrs [wl_addr e ''rebaseToken'', wl_addr e ''tka''], Addr f, Num DEADLINE]) 0 260000) NoEffect c"
| "build e rnd now RebaseUp f c = ready (tx (wl_addr e ''rebaseToken'') (Call ''rebase'' ''rebase'' [Num 10]) 0 80000) NoEffect c"
| "build e rnd now NativeSwapIn f c = ready (tx (wl_addr e ''nativePool'')
     (Call ''nativePool'' ''swapExactNativeForTokens'' [Num 0, Addr f, Num DEADLINE]) NSWAP_IN 230000) NoEffect c"
| "build e rnd now NativeSwapOut f c = ready (tx (wl_addr e ''nativePool'')
     (Call ''nativePool'' ''swapExactTokensForNative'' [Num NSWAP_IN, Num 0, Addr f, Num DEADLINE]) 0 230000) NoEffect c"
| "build e rnd now NativeAddLiq f c = ready (tx (wl_addr e ''nativePool'')
     (Call ''nativePool'' ''addLiquidity'' [Num NADD_TOK, Num 0, Num 0, Addr f, Num DEADLINE]) NADD_NATIVE 320000)
     (CreditTo Nlp f (credit_amount Nlp)) c"
| "build e rnd now NativeRemoveLiq f c = debit Nlp f (tx (wl_addr e ''nativePool'')
     (Call ''nativePool'' ''removeLiquidity'' [Num (debit_amount Nlp), Num 0, Num 0, Addr f, Num DEADLINE]) 0 260000) c"
| "build e rnd now EcoDeposit f c = ready (tx (wl_addr e ''ecoBank'') (call0 ''ecoBank'' ''deposit'') (10 ^ 9) 280000)
     (CreditTo Eco f (credit_amount Eco)) c"
| "build e rnd now EcoWithdraw f c = debit Eco f (tx (wl_addr e ''ecoBank'') (Call ''ecoBank'' ''withdraw'' [Num (debit_amount Eco)]) 0 130000) c"
| "build e rnd now DiamondBump f c = ready (tx (wl_addr e ''diamond'') (call0 ''counter'' ''increment'') 0 110000) NoEffect c"
| "build e rnd now DiamondSet f c = ready (tx (wl_addr e ''diamond'') (Call ''registry'' ''setEntry'' [Num (int (draw rnd 0 1000000000))]) 0 180000) NoEffect c"
| "build e rnd now DeployChild f c = ready \<lparr>rq_to = None, rq_data = Raw (childBytecode e), rq_value = 0, rq_gas = 280000\<rparr> (PushEoaChild f) c"
| "build e rnd now CallDeployedChild f c = call_child EoaChild f (call0 ''child'' ''bump'') c"
| "build e rnd now FactoryDeploy f c = ready (tx (wl_addr e ''miniFactory'') (Call ''factory'' ''createChild'' [Num (salt c)]) 0 240000)
     (PushFactoryChild f (create2Addr e (salt c))) (c\<lparr>salt := salt c + 1\<rparr>)"
| "build e rnd now FactoryCallChild f c = call_child FactoryChild f (Call ''child'' ''setValue'' [Num (int (draw rnd 0 1000000))]) c"
| "build e rnd now CloneAndInit f c = ready (tx (wl_addr e ''cloneFactory'')
     (Call ''cloneFactory'' ''cloneAndInit'' [Num (int (draw rnd 0 1000000))]) 0 260000) NoEffect c"
| "build e rnd now CloneDeterministic f c = ready (tx (wl_addr e ''cloneFactory'')
     (Call ''cloneFactory'' ''cloneDeterministic'' [Text (salt32 e (cloneSalt c))]) 0 220000)
     (PushClone f (cloneAddr e (salt32 e (cloneSalt c)))) (c\<lparr>cloneSalt := cloneSalt c + 1\<rparr>)"
| "build e rnd now CloneInit f c = (case first_index (\<lambda>x. \<not> snd x) (clones c f) 0 (length (clones c f)) of None \<Rightarrow> (None, c)
     | Some i \<Rightarrow> ready (tx (fst (clones c f ! i)) (Call ''cloneTarget'' ''init'' [Addr f, Num (int (draw rnd 0 1000000))]) 0 120000) NoEffect
         (c\<lparr>clones := (clones c)(f := (clones c f)[i := (fst (clones c f ! i), True)])\<rparr>))"
| "build e rnd now CloneCall f c = (case clones c f of [] \<Rightarrow> (None, c)
     | x # xs \<Rightarrow> ready (tx (fst x) (call0 ''cloneTarget'' ''ping'') 0 90000) NoEffect c)"
| "build e rnd now MktMint f c = ready (tx (wl_addr e ''marketNft'') (Call ''erc721'' ''mint'' [Addr f, Num (mktSeq c)]) 0 120000)
     (PushOwned MktNft f (mktSeq c)) (c\<lparr>mktSeq := mktSeq c + 1\<rparr>)"
| "build e rnd now MktList f c = take_owned MktNft f (\<lambda>i. (tx (wl_addr e ''market'')
     (Call ''market'' ''list'' [Num i, Num NFT_PRICE]) 0 220000, MktListing i f)) c"
| "build e rnd now MktBuy f c = (let k = skip_taken (mktListed c) (mktCursor c); c1 = c\<lparr>mktCursor := k\<rparr> in
     case first_index (\<lambda>l. \<not> ls_taken l \<and> ls_seller l \<noteq> f) (mktListed c) k 400 of None \<Rightarrow> (None, c1)
     | Some i \<Rightarrow> (let l = mktListed c ! i in
         ready (tx (wl_addr e ''market'') (Call ''market'' ''buy'' [Num (ls_id l)]) (ls_price l) 200000) NoEffect
           (c1\<lparr>mktListed := (mktListed c)[i := l\<lparr>ls_taken := True\<rparr>]\<rparr>)))"
| "build e rnd now RoyaltyMint f c = ready (tx (wl_addr e ''royaltyNft'') (Call ''royaltyNft'' ''mint'' [Addr f, Num (roySeq c)]) 0 120000)
     (PushOwned RoyNft f (roySeq c)) (c\<lparr>roySeq := roySeq c + 1\<rparr>)"
| "build e rnd now RoyaltyList f c = take_owned RoyNft f (\<lambda>i. (tx (wl_addr e ''royaltyMarket'')
     (Call ''royaltyMarket'' ''list'' [Num i, Num NFT_PRICE]) 0 220000, RoyListing i f)) c"
| "build e rnd now RoyaltyBuy f c = (let k = skip_taken (royListed c) (royCursor c); c1 = c\<lparr>royCursor := k\<rparr> in
     case first_index (\<lambda>l. \<not> ls_taken l \<and> ls_seller l \<noteq> f) (royListed c) k 400 of None \<Rightarrow> (None, c1)
     | Some i \<Rightarrow> (let l = royListed c ! i in
         ready (tx (wl_addr e ''royaltyMarket'') (Call ''royaltyMarket'' ''buy'' [Num (ls_id l)]) (ls_price l) 230000) NoEffect
           (c1\<lparr>royListed := (royListed c)[i := l\<lparr>ls_taken := True\<rparr>]\<rparr>)))"
| "build e rnd now RoyaltyCancel f c = (
     case first_index (\<lambda>l. \<not> ls_taken l \<and> ls_seller l = f) (royListed c) 0 200 of None \<Rightarrow> (None, c)
     | Some i \<Rightarrow> (let l = royListed c ! i in
         ready (tx (wl_addr e ''royaltyMarket'') (Call ''royaltyMarket'' ''cancel'' [Num (ls_id l)]) 0 160000) NoEffect
           (c\<lparr>royListed := (royListed c)[i := l\<lparr>ls_taken := True\<rparr>]\<rparr>)))"
| "build e rnd now BatchMint f c = (let n = 3 + draw rnd 0 6 in
     ready (tx (wl_addr e ''batchNft'') (Call ''batchNft'' ''mintBatch'' [Addr f, Num (batchSeq c), Num (int n)]) 0 (120000 + 30000 * int n))
       (PushBatch f (batchSeq c) n) (c\<lparr>batchSeq := batchSeq c + int n\<rparr>))"
| "build e rnd now NftStakeStake f c = take_owned BatchNft f (\<lambda>i. (tx (wl_addr e ''nftStaking'')
     (Call ''nftStaking'' ''stake'' [Num i]) 0 200000, PushOwned StakedNft f i)) c"
| "build e rnd now NftStakeUnstake f c = take_owned StakedNft f (\<lambda>i. (tx (wl_addr e ''nftStaking'')
     (Call ''nftStaking'' ''unstake'' [Num i]) 0 220000, NoEffect)) c"
| "build e rnd now VaultDeposit f c = ready (tx (wl_addr e ''vault'') (Call ''vault'' ''deposit'' [Num (credit_amount Vault)]) 0 200000)
     (CreditTo Vault f (credit_amount Vault)) c"
| "build e rnd now VaultMint f c = ready (tx (wl_addr e ''vault'') (Call ''vault'' ''mint'' [Num (credit_amount Vault)]) 0 200000)
     (CreditTo Vault f (credit_amount Vault)) c"
| "build e rnd now VaultWithdraw f c = debit Vault f (tx (wl_addr e ''vault'')
     (Call ''vault'' (if draw rnd 0 2 = 0 then ''withdraw'' else ''redeem'') [Num (debit_amount Vault)]) 0 160000) c"
| "build e rnd now StakeDeposit f c = ready (tx (wl_addr e ''staking'') (Call ''staking'' ''stake'' [Num (credit_amount Stake)]) 0 220000)
     (CreditTo Stake f (credit_amount Stake)) c"
| "build e rnd now StakeWithdraw f c = debit Stake f (tx (wl_addr e ''staking'') (Call ''staking'' ''withdraw'' [Num (debit_amount Stake)]) 0 160000) c"
| "build e rnd now RwdStake f c = ready (tx (wl_addr e ''rewardStaking'') (Call ''rewardStaking'' ''stake'' [Num (credit_amount Rwd)]) 0 260000)
     (CreditTo Rwd f (credit_amount Rwd)) c"
| "build e rnd now RwdClaim f c = (if \<not> 0 < credits c Rwd f then (None, c)
     else ready (tx (wl_addr e ''rewardStaking'') (call0 ''rewardStaking'' ''claim'') 0 180000) NoEffect c)"
| "build e rnd now RwdUnstake f c = debit Rwd f (tx (wl_addr e ''rewardStaking'') (Call ''rewardStaking'' ''unstake'' [Num (debit_amount Rwd)]) 0 220000) c"
| "build e rnd now AuctionMint f c = ready (tx (wl_addr e ''auctionNft'') (Call ''erc721'' ''mint'' [Addr f, Num (aucSeq c)]) 0 120000)
     (PushOwned AucNft f (aucSeq c)) (c\<lparr>aucSeq := aucSeq c + 1\<rparr>)"
| "build e rnd now CreateEnglish f c = take_owned AucNft f (\<lambda>i. (tx (wl_addr e ''auctionHouse'')
     (Call ''auctionHouse'' ''createEnglish'' [Num i, Num (10 ^ 9), Num 180]) 0 220000, NewAuction True i f)) c"
| "build e rnd now BidEnglish f c = on_auction
     (\<lambda>a. au_english a \<and> \<not> bidBuilt a \<and> au_seller a \<noteq> f \<and> 3000 < now - au_ts a \<and> now - au_ts a < 110000) (\<lambda>a. a\<lparr>bidBuilt := True\<rparr>)
     (\<lambda>a. tx (wl_addr e ''auctionHouse'') (Call ''auctionHouse'' ''bidEnglish'' [Num (au_id a)]) (10 ^ 9) 130000) c"
| "build e rnd now SettleEnglish f c = on_auction (\<lambda>a. au_english a \<and> \<not> settleBuilt a \<and> 200000 < now - au_ts a) (\<lambda>a. a\<lparr>settleBuilt := True\<rparr>)
     (\<lambda>a. tx (wl_addr e ''auctionHouse'') (Call ''auctionHouse'' ''settleEnglish'' [Num (au_id a)]) 0 230000) c"
| "build e rnd now CreateDutch f c = take_owned AucNft f (\<lambda>i. (tx (wl_addr e ''auctionHouse'')
     (Call ''auctionHouse'' ''createDutch'' [Num i, Num (2 * 10 ^ 9), Num (10 ^ 8), Num 1000000]) 0 220000, NewAuction False i f)) c"
| "build e rnd now BuyDutch f c = on_auction
     (\<lambda>a. \<not> au_english a \<and> \<not> bidBuilt a \<and> au_seller a \<noteq> f \<and> 3000 < now - au_ts a) (\<lambda>a. a\<lparr>bidBuilt := True\<rparr>)
     (\<lambda>a. tx (wl_addr e ''auctionHouse'') (Call ''auctionHouse'' ''buyDutch'' [Num (au_id a)]) (2 * 10 ^ 9) 230000) c"
| "build e rnd now GovPropose f c = ready (tx (wl_addr e ''miniGov'') (Call ''miniGov'' ''propose'' [Num (govPid c), Addr (wl_addr e ''govTarget'')]) 0 120000)
     (NewProposal (govPid c)) (c\<lparr>govPid := govPid c + 1\<rparr>)"
| "build e rnd now GovVote f c = on_proposal (\<lambda>p. f \<notin> set (voters p) \<and> 3000 < now - pr_ts p \<and> now - pr_ts p < 30000) (\<lambda>p. p\<lparr>voters := f # voters p\<rparr>)
     (\<lambda>p. (tx (wl_addr e ''miniGov'') (Call ''miniGov'' ''vote'' [Num (pr_pid p)]) 0 90000, CountVote (pr_pid p))) c"
| "build e rnd now GovQueue f c = on_proposal (\<lambda>p. \<not> queueBuilt p \<and> 1 \<le> confVotes p \<and> 50000 < now - pr_ts p) (\<lambda>p. p\<lparr>queueBuilt := True\<rparr>)
     (\<lambda>p. (tx (wl_addr e ''miniGov'') (Call ''miniGov'' ''queue'' [Num (pr_pid p)]) 0 100000, MarkQueued (pr_pid p))) c"
| "build e rnd now GovExecute f c = on_proposal (\<lambda>p. queued p \<and> \<not> execBuilt p \<and> 50000 < now - qts p) (\<lambda>p. p\<lparr>execBuilt := True\<rparr>)
     (\<lambda>p. (tx (wl_addr e ''miniGov'') (Call ''miniGov'' ''execute'' [Num (pr_pid p)]) 0 140000, NoEffect)) c"
| "build e rnd now DeepChainRun f c = ready (tx (wl_addr e ''hopA'') (call0 ''hopA'' ''run'') 0 220000) NoEffect c"
| "build e rnd now DeepCallback f c = ready (tx (wl_addr e ''hopA'') (call0 ''hopA'' ''runWithCallback'') 0 130000) NoEffect c"
| "build e rnd now DisperseMany f c = (let n = 4 + draw rnd 0 5 in
     ready (tx (wl_addr e ''disperse'') (Call ''disperse'' ''disperseNative''
       [Addrs (map (\<lambda>i. others e rnd (1 + 2 * i) f) [0..<n]), Nums (replicate n 1)]) (int n) (60000 + 40000 * int n)) NoEffect c)"
| "build e rnd now EventsBurst f c = (let n = 8 + draw rnd 0 24 in
     ready (tx (wl_addr e ''eventsHeavy'') (Call ''eventsHeavy'' ''emitMany'' [Num (int n)]) 0 (40000 + 6000 * int n)) NoEffect c)"
| "build e rnd now BatchMulticall f c = (let n = 2 + draw rnd 0 7 in
     ready (tx (wl_addr e ''batch'') (Call ''batch'' ''pingMany'' [Addr (wl_addr e ''pinger''), Num (int n)]) 0 (90000 + 45000 * int n)) NoEffect c)"
| "build e rnd now WorkbenchSet f c = ready (tx (wl_addr e ''workbench'')
     (Call ''workbench'' ''set'' [Num (int (draw rnd 0 1000000000)), Num (int (draw rnd 1 1000000000))]) 0 55000) NoEffect c"
| "build e rnd now WorkbenchLoop f c = ready (tx (wl_addr e ''workbench'') (Call ''workbench'' ''loop'' [Num 50]) 0 450000) NoEffect c"
| "build e rnd now PermitOp f c = (if permitInFlight c f then (None, c) else
     (let spender = others e rnd 0 f; n = (case permitNonce c f of None \<Rightarrow> 0 | Some n \<Rightarrow> n) in
     ready (tx (wl_addr e ''permitToken'') (Call ''permit'' ''permit''
         ([Addr f, Addr spender, Num PERMIT_VALUE, Num DEADLINE] @ permit_sig e f spender n)) 0 110000) (Permit f spender)
       (c\<lparr>permitNonce := (permitNonce c)(f := Some (n + 1)), permitInFlight := (permitInFlight c)(f := True)\<rparr>)))"
| "build e rnd now PermitTransferFrom f c = (case permitsBySpender c f of [] \<Rightarrow> (None, c)
     | (own, rem) # q \<Rightarrow> if rem < PERMIT_XFER then (None, c\<lparr>permitsBySpender := (permitsBySpender c)(f := q)\<rparr>)
         else ready (tx (wl_addr e ''permitToken'') (Call ''permit'' ''transferFrom'' [Addr own, Addr f, Num PERMIT_XFER]) 0 80000) NoEffect
           (c\<lparr>permitsBySpender := (permitsBySpender c)(f := (own, rem - PERMIT_XFER) # q)\<rparr>))"
| "build e rnd now VoucherRedeem f c = ready (tx (wl_addr e ''voucherMinter'') (Call ''voucher'' ''redeem''
     ([Addr f, Num (voucherId c), Num VOUCHER_AMT, Num DEADLINE] @ voucher_sig e f (voucherId c))) 0 120000) NoEffect
     (c\<lparr>voucherId := voucherId c + 1\<rparr>)"

section \<open>The weighted choice\<close>

definition endurance_set :: "(workload \<times> nat) list" where
  "endurance_set = [(NativeTransfer, 10), (Erc20Mint, 3), (Erc20Transfer, 7), (Erc20Approve, 2), (NftMint, 4), (NftTransfer, 3),
     (Erc1155Mint, 3), (Erc1155Transfer, 3), (WrapGMB, 3), (UnwrapGMB, 2),
     (DexSwap, 7), (DexAddLiq, 3), (DexRemoveLiq, 2), (FeeSwap, 3), (RebaseSwap, 3), (RebaseUp, 1),
     (NativeSwapIn, 3), (NativeSwapOut, 3), (NativeAddLiq, 2), (NativeRemoveLiq, 1), (EcoDeposit, 3), (EcoWithdraw, 2),
     (DiamondBump, 3), (DiamondSet, 2), (DeployChild, 1), (CallDeployedChild, 2), (FactoryDeploy, 1), (FactoryCallChild, 2),
     (CloneAndInit, 2), (CloneDeterministic, 2), (CloneInit, 2), (CloneCall, 2), (MktMint, 4), (MktList, 3), (MktBuy, 3),
     (RoyaltyMint, 3), (RoyaltyList, 2), (RoyaltyBuy, 2), (RoyaltyCancel, 1), (BatchMint, 3), (NftStakeStake, 2), (NftStakeUnstake, 2),
     (VaultDeposit, 3), (VaultMint, 2), (VaultWithdraw, 3), (StakeDeposit, 3), (StakeWithdraw, 2), (RwdStake, 3), (RwdClaim, 2), (RwdUnstake, 2),
     (AuctionMint, 3), (CreateEnglish, 2), (BidEnglish, 2), (SettleEnglish, 2), (CreateDutch, 2), (BuyDutch, 2),
     (GovPropose, 2), (GovVote, 3), (GovQueue, 1), (GovExecute, 1), (DeepChainRun, 3), (DeepCallback, 2),
     (DisperseMany, 3), (EventsBurst, 3), (BatchMulticall, 3), (WorkbenchSet, 3), (WorkbenchLoop, 1),
     (PermitOp, 3), (PermitTransferFrom, 3), (VoucherRedeem, 3)]"

text \<open>\<open>pick\<close>: the draw \<open>r\<close> is \<open>Math.random() * total\<close>, each weight is subtracted in turn.\<close>

fun pick_loop :: "jsnum \<Rightarrow> ('a \<times> nat) list \<Rightarrow> 'a option" where
  "pick_loop r [] = None"
| "pick_loop r ((x, n) # xs) = (let r' = js_sub r (js_of_int (int n)) in if js_le r' (Fin 0) then Some x else pick_loop r' xs)"

definition pick :: "jsnum \<Rightarrow> ('a \<times> nat) list \<Rightarrow> 'a" where
  "pick u items = (case pick_loop (js_mul u (js_of_int (int (sum_list (map snd items))))) items of
     Some x \<Rightarrow> x | None \<Rightarrow> fst (hd items))"

end
