(* ===== verification/Nonces.thy ===== *)
theory Nonces
  imports Gemba_Prelude
begin

text \<open>
  The nonce pipeline of the load generators, endurance/lib/nonceManager.js (stress/lib has the same
  file): the next nonce of every wallet, the count of its transactions in flight, and the account on
  the chain, which executes a transaction only when its nonce is the account's own.
\<close>

section \<open>The manager\<close>

record nonce_mgr =
  next_nonce :: "(string, int) jsmap"
  in_flight :: "(string, int) jsmap"

definition nonce_mgr_new :: nonce_mgr where
  "nonce_mgr_new = \<lparr>next_nonce = [], in_flight = []\<rparr>"

text \<open>The provider's count of the account's transactions is an argument; it may fail.\<close>

definition nm_init :: "string \<Rightarrow> string + int \<Rightarrow> nonce_mgr \<Rightarrow> (string + int) \<times> nonce_mgr" where
  "nm_init a answer nm = (case answer of Inl e \<Rightarrow> (Inl e, nm)
     | Inr n \<Rightarrow> (Inr n, nm\<lparr>next_nonce := AList.update a n (next_nonce nm),
         in_flight := AList.update a 0 (in_flight nm)\<rparr>))"

definition flying :: "nonce_mgr \<Rightarrow> string \<Rightarrow> int" where
  "flying nm a = (case map_of (in_flight nm) a of None \<Rightarrow> 0 | Some k \<Rightarrow> k)"

definition canSend :: "nonce_mgr \<Rightarrow> string \<Rightarrow> jsnum \<Rightarrow> bool" where
  "canSend nm a cap = js_lt (js_of_int (flying nm a)) cap"

definition next_of :: "nonce_mgr \<Rightarrow> string \<Rightarrow> int" where
  "next_of nm a = (case map_of (next_nonce nm) a of None \<Rightarrow> 0 | Some n \<Rightarrow> n)"

definition nm_take :: "string \<Rightarrow> nonce_mgr \<Rightarrow> int \<times> nonce_mgr" where
  "nm_take a nm = (let n = next_of nm a in
     (n, nm\<lparr>next_nonce := AList.update a (n + 1) (next_nonce nm),
            in_flight := AList.update a (flying nm a + 1) (in_flight nm)\<rparr>))"

definition nm_settle :: "string \<Rightarrow> nonce_mgr \<Rightarrow> nonce_mgr" where
  "nm_settle a nm = nm\<lparr>in_flight := AList.update a (max 0 (flying nm a - 1)) (in_flight nm)\<rparr>"

definition nm_resync :: "string \<Rightarrow> string + int \<Rightarrow> nonce_mgr \<Rightarrow> (string + int) \<times> nonce_mgr" where
  "nm_resync a answer nm = (case answer of Inl e \<Rightarrow> (Inl e, nm)
     | Inr mined \<Rightarrow> (let cur = (case map_of (next_nonce nm) a of None \<Rightarrow> mined | Some n \<Rightarrow> n); next = max cur mined in
         (Inr next, nm\<lparr>next_nonce := AList.update a next (next_nonce nm),
            in_flight := AList.update a (max 0 (next - mined)) (in_flight nm)\<rparr>)))"

section \<open>What the operations do to the nonces\<close>

lemma next_of_update:
  "next_of (nm\<lparr>next_nonce := AList.update a n (next_nonce nm), in_flight := f\<rparr>) b = (if a = b then n else next_of nm b)"
  by (simp add: next_of_def js_map.get_put)

lemma flying_update:
  "flying (nm\<lparr>in_flight := AList.update a n (in_flight nm)\<rparr>) b = (if a = b then n else flying nm b)"
  "flying (nm\<lparr>next_nonce := g, in_flight := AList.update a n (in_flight nm)\<rparr>) b = (if a = b then n else flying nm b)"
  by (simp_all add: flying_def js_map.get_put)

lemma next_of_settle [simp]: "next_of (nm_settle a nm) b = next_of nm b"
  by (simp add: nm_settle_def next_of_def)

lemma nm_take_fst [simp]: "fst (nm_take a nm) = next_of nm a"
  by (simp add: nm_take_def Let_def)

lemma next_of_take: "next_of (snd (nm_take a nm)) b = (if a = b then next_of nm a + 1 else next_of nm b)"
  by (simp add: nm_take_def Let_def next_of_update)

text \<open>A resynchronisation never goes back behind a nonce that was given out.\<close>

lemma next_of_resync:
  assumes "map_of (next_nonce nm) a \<noteq> None"
  shows "next_of nm b \<le> next_of (snd (nm_resync a r nm)) b"
    "\<forall>m. r = Inr m \<longrightarrow> next_of (snd (nm_resync a r nm)) a = max (next_of nm a) m"
  using assms by (auto simp: nm_resync_def Let_def next_of_update next_of_def js_map.get_put split: sum.splits)

lemma known_settle: "map_of (next_nonce nm) b \<noteq> None \<Longrightarrow> map_of (next_nonce (nm_settle a nm)) b \<noteq> None"
  by (simp add: nm_settle_def)

lemma known_take: "map_of (next_nonce nm) b \<noteq> None \<Longrightarrow> map_of (next_nonce (snd (nm_take a nm))) b \<noteq> None"
  by (auto simp: nm_take_def Let_def js_map.get_put)

lemma known_resync: "map_of (next_nonce nm) b \<noteq> None \<Longrightarrow> map_of (next_nonce (snd (nm_resync a r nm))) b \<noteq> None"
  by (auto simp: nm_resync_def Let_def js_map.get_put split: sum.splits)

lemmas known_rules = known_settle known_take known_resync

lemma flying_nonneg:
  "0 \<le> flying nm a \<Longrightarrow> 0 \<le> flying (nm_settle b nm) a"
  "0 \<le> flying nm a \<Longrightarrow> 0 \<le> flying (snd (nm_take b nm)) a"
  "0 \<le> flying nm a \<Longrightarrow> 0 \<le> flying (snd (nm_resync b r nm)) a"
  by (auto simp: nm_settle_def nm_take_def nm_resync_def Let_def flying_update split: sum.splits)

end
