(* ===== verification/Send_Raw.thy ===== *)
theory Send_Raw
  imports Nonces
begin

text \<open>
  Signing and broadcasting of a transaction with a manual nonce, endurance/lib/tx.js, the older version
  of stress/lib/tx.js, and the fee poller of run.js; then a wallet's account on the chain, and what a
  submission that fails does to it.
\<close>

section \<open>Fees\<close>

record fee_bid =
  maxFeePerGas :: int
  maxPriorityFeePerGas :: int
  floorWei :: int
  priorityWei :: int

text \<open>\<open>parseUnits(s, gwei)\<close> is a parameter.\<close>

definition feeOverrides :: "(string \<Rightarrow> string + int) \<Rightarrow> env \<Rightarrow> string + fee_bid" where
  "feeOverrides parse_gwei env = (case parse_gwei (env_or env ''PRIORITY_FEE_GWEI'' ''2'') of Inl e \<Rightarrow> Inl e
    | Inr prio \<Rightarrow> (case parse_gwei (env_or env ''MAX_FEE_GWEI'' ''15'') of Inl e \<Rightarrow> Inl e
      | Inr fl \<Rightarrow> Inr \<lparr>maxFeePerGas = fl, maxPriorityFeePerGas = prio, floorWei = fl, priorityWei = prio\<rparr>))"

text \<open>One poll: the base fee of the latest block, if the block was fetched and has one.\<close>

definition poll_fee :: "int option \<Rightarrow> fee_bid \<Rightarrow> fee_bid" where
  "poll_fee base f = (case base of None \<Rightarrow> f
    | Some b \<Rightarrow> if b = 0 then f
        else (let bid = b * 2 + priorityWei f;
                  bid1 = (if bid < floorWei f then floorWei f else bid);
                  bid2 = (if floorWei f * 200 < bid1 then floorWei f * 200 else bid1) in f\<lparr>maxFeePerGas := bid2\<rparr>))"

section \<open>Errors of a submission\<close>

definition isBenign :: "string \<Rightarrow> bool" where
  "isBenign m = list_ex (str_includes m) [''already known'', ''already in'', ''replacement'', ''underpriced'', ''coalesce'']"

definition isTransient :: "string \<Rightarrow> bool" where
  "isTransient m = list_ex (str_includes m) [''timeout'', ''econn'', ''socket'', ''reset'', ''fetch'', ''429'', ''500'',
     ''502'', ''503'', ''504'', ''server error'', ''server response 5'', ''txpool'', ''mempool is full'']"

datatype submission = SentOk int | SentSoft int string | SentDropped int string | SendThrew string

text \<open>
  The retry loop: \<open>answers k\<close> is the error message of attempt \<open>k\<close>, \<open>None\<close> when it is accepted. Attempts 0
  to 3 are made at most.
\<close>

function broadcast :: "(nat \<Rightarrow> string option) \<Rightarrow> nat \<Rightarrow> int \<Rightarrow> submission" where
  "broadcast answers attempt n = (case answers attempt of None \<Rightarrow> SentOk n
    | Some e \<Rightarrow> (let m = to_lower e in
        if isBenign m then SentSoft n m
        else if str_includes m ''nonce'' then SentDropped n m
        else if isTransient m \<and> attempt < 3 then broadcast answers (Suc attempt) n
        else SendThrew e))"
  by pat_completeness auto
termination
  by (relation "measure (\<lambda>(answers, attempt, n). 3 - attempt)") auto

declare broadcast.simps [simp del]

text \<open>The signer may throw; the nonce is taken before it signs.\<close>

definition sendRaw :: "string \<Rightarrow> string option \<Rightarrow> (nat \<Rightarrow> string option) \<Rightarrow> string + int \<Rightarrow> nonce_mgr \<Rightarrow> submission \<times> nonce_mgr" where
  "sendRaw a sign_error answers count nm = (case nm_take a nm of (n, nm1) \<Rightarrow>
     (case sign_error of Some e \<Rightarrow> (SendThrew e, nm1)
      | None \<Rightarrow> (case broadcast answers 0 n of
           SentDropped k m \<Rightarrow> (SentDropped k m, snd (nm_resync a count nm1))
         | r \<Rightarrow> (r, nm1))))"

text \<open>The version of the stress tests makes one attempt.\<close>

definition stress_sendRaw :: "string \<Rightarrow> string option \<Rightarrow> string option \<Rightarrow> string + int \<Rightarrow> nonce_mgr \<Rightarrow> submission \<times> nonce_mgr" where
  "stress_sendRaw a sign_error answer count nm = (case nm_take a nm of (n, nm1) \<Rightarrow>
     (case sign_error of Some e \<Rightarrow> (SendThrew e, nm1)
      | None \<Rightarrow> (case answer of None \<Rightarrow> (SentOk n, nm1)
         | Some e \<Rightarrow> (let m = to_lower e in
             if isBenign m then (SentSoft n m, nm1)
             else if str_includes m ''nonce'' then (SentDropped n m, snd (nm_resync a count nm1))
             else (SendThrew e, nm1)))))"

lemma broadcast_nonce: "broadcast answers k n = SentOk j \<or> broadcast answers k n = SentSoft j m \<or> broadcast answers k n = SentDropped j m \<Longrightarrow> j = n"
proof (induction answers k n rule: broadcast.induct)
  case (1 answers k n)
  show ?case using "1.prems" "1.IH" unfolding broadcast.simps [of answers k n]
    by (auto simp: Let_def split: option.splits if_splits)
qed

text \<open>The nonces after a submission: the one given out, and never a smaller one again.\<close>

lemma sendRaw_next:
  assumes "map_of (next_nonce nm) a \<noteq> None" "sendRaw a se answers count nm = (r, nm')"
  shows "next_of nm a < next_of nm' a" "map_of (next_nonce nm') a \<noteq> None"
proof -
  obtain n nm1 where t: "nm_take a nm = (n, nm1)" by fastforce
  then have n1: "next_of nm1 a = next_of nm a + 1" "map_of (next_nonce nm1) a \<noteq> None"
    using next_of_take [of a nm a] known_take [OF assms(1), of a] by simp_all
  have "nm' = nm1 \<or> nm' = snd (nm_resync a count nm1)"
    using assms(2) by (auto simp: sendRaw_def t split: option.splits submission.splits)
  then show "next_of nm a < next_of nm' a" "map_of (next_nonce nm') a \<noteq> None"
    using n1 next_of_resync(1) [OF n1(2), of a count] known_resync [OF n1(2), of a count] by auto
qed

section \<open>A wallet and its account\<close>

text \<open>
  The account executes a transaction when its nonce is the account's count, so the count goes up only
  when the pool has that nonce. A provider answers with the count, perhaps a stale one.
\<close>

record wallet_run =
  wr_nm :: nonce_mgr
  wr_pool :: "int list"
  wr_count :: int

datatype wallet_event =
    WSend "string option" "nat \<Rightarrow> string option" "string + nat" bool
  | WSettle
  | WResync "string + nat"
  | WMine

definition stale_count :: "string + nat \<Rightarrow> wallet_run \<Rightarrow> string + int" where
  "stale_count lag s = (case lag of Inl e \<Rightarrow> Inl e | Inr d \<Rightarrow> Inr (wr_count s - int d))"

text \<open>A refused submission may have reached the pool all the same: the last argument of \<open>WSend\<close>.\<close>

fun wallet_step :: "string \<Rightarrow> wallet_event \<Rightarrow> wallet_run \<Rightarrow> wallet_run" where
  "wallet_step a (WSend se answers lag reached) s = (case sendRaw a se answers (stale_count lag s) (wr_nm s) of (r, nm) \<Rightarrow>
     s\<lparr>wr_nm := nm, wr_pool := (case r of SentOk n \<Rightarrow> wr_pool s @ [n] | SentSoft n m \<Rightarrow> wr_pool s @ [n]
        | _ \<Rightarrow> if reached then wr_pool s @ [next_of (wr_nm s) a] else wr_pool s)\<rparr>)"
| "wallet_step a WSettle s = s\<lparr>wr_nm := nm_settle a (wr_nm s)\<rparr>"
| "wallet_step a (WResync lag) s = s\<lparr>wr_nm := snd (nm_resync a (stale_count lag s) (wr_nm s))\<rparr>"
| "wallet_step a WMine s = (if wr_count s \<in> set (wr_pool s) then s\<lparr>wr_count := wr_count s + 1\<rparr> else s)"

fun wallet_steps :: "string \<Rightarrow> wallet_event list \<Rightarrow> wallet_run \<Rightarrow> wallet_run" where
  "wallet_steps a [] s = s"
| "wallet_steps a (ev # evs) s = wallet_steps a evs (wallet_step a ev s)"

text \<open>The wallet is stuck at \<open>g\<close>: no pool has that nonce and the manager is past it.\<close>

definition stuck_at :: "string \<Rightarrow> int \<Rightarrow> wallet_run \<Rightarrow> bool" where
  "stuck_at a g s = (map_of (next_nonce (wr_nm s)) a \<noteq> None \<and> g < next_of (wr_nm s) a \<and> g \<notin> set (wr_pool s) \<and> wr_count s \<le> g)"

lemma send_pool:
  assumes "sendRaw a se answers count nm = (r, nm')"
  shows "(case r of SentOk n \<Rightarrow> n = next_of nm a | SentSoft n m \<Rightarrow> n = next_of nm a | SentDropped n m \<Rightarrow> n = next_of nm a | SendThrew e \<Rightarrow> True)"
proof -
  obtain nm1 where t: "nm_take a nm = (next_of nm a, nm1)" by (metis nm_take_fst prod.collapse)
  show ?thesis
    using assms broadcast_nonce [of answers 0 "next_of nm a"]
    by (auto simp: sendRaw_def t split: option.splits submission.splits)
qed

lemma stuck_step:
  assumes "stuck_at a g s"
  shows "stuck_at a g (wallet_step a ev s) \<and> (\<forall>n \<in> set (wr_pool (wallet_step a ev s)). n \<in> set (wr_pool s) \<or> g < n)"
proof (cases ev)
  case (WSend se answers lag reached)
  obtain r nm where r: "sendRaw a se answers (stale_count lag s) (wr_nm s) = (r, nm)" by fastforce
  have k: "map_of (next_nonce (wr_nm s)) a \<noteq> None" using assms by (simp add: stuck_at_def)
  note n = sendRaw_next [OF k r] send_pool [OF r]
  show ?thesis using assms n by (auto simp: WSend r stuck_at_def split: submission.splits)
next
  case (WResync lag)
  have "map_of (next_nonce (wr_nm s)) a \<noteq> None" using assms by (simp add: stuck_at_def)
  then show ?thesis using assms next_of_resync(1) [of "wr_nm s" a a "stale_count lag s"] known_resync [of "wr_nm s" a a "stale_count lag s"]
    by (auto simp: WResync stuck_at_def)
next
  case WMine
  have "wr_count s \<in> set (wr_pool s) \<Longrightarrow> wr_count s < g"
    using assms by (metis order.not_eq_order_implies_strict stuck_at_def)
  then show ?thesis using assms by (auto simp: WMine stuck_at_def)
qed (use assms in \<open>auto simp: stuck_at_def known_settle\<close>)

lemma stuck_steps:
  assumes "stuck_at a g s"
  shows "stuck_at a g (wallet_steps a evs s) \<and> (\<forall>n \<in> set (wr_pool (wallet_steps a evs s)). n \<in> set (wr_pool s) \<or> g < n)"
  using assms
proof (induction evs arbitrary: s)
  case (Cons ev evs)
  show ?case using Cons.IH [of "wallet_step a ev s"] stuck_step [OF Cons.prems, of ev] by auto
qed simp

text \<open>
  C32. A submission that fails for good stops its wallet: its nonce is never given out again, so
  whatever is sent, settled, resynchronised or mined afterwards, the account never gets past that nonce,
  and everything the wallet broadcasts later waits behind the gap.
\<close>

theorem failed_submission_stops_wallet:
  assumes "map_of (next_nonce (wr_nm s)) a = Some g" "wr_count s \<le> g" "g \<notin> set (wr_pool s)"
    and "fst (sendRaw a se answers (stale_count lag s) (wr_nm s)) = SendThrew e"
    and "s' = wallet_steps a evs (wallet_step a (WSend se answers lag False) s)"
  shows "wr_count s' \<le> g \<and> (\<forall>n \<in> set (wr_pool s'). n \<in> set (wr_pool s) \<or> g < n)"
proof -
  obtain nm where r: "sendRaw a se answers (stale_count lag s) (wr_nm s) = (SendThrew e, nm)"
    using assms(4) by (metis prod.collapse)
  have g: "next_of (wr_nm s) a = g" using assms(1) by (simp add: next_of_def)
  have k: "map_of (next_nonce (wr_nm s)) a \<noteq> None" using assms(1) by simp
  have "stuck_at a g (wallet_step a (WSend se answers lag False) s)"
    using sendRaw_next [OF k r] assms(2,3) g by (simp add: r stuck_at_def)
  from stuck_steps [OF this, of evs] show ?thesis
    unfolding assms(5) by (simp add: r stuck_at_def)
qed

lemma failed_submission_stops_wallet_witness:
  "let s = \<lparr>wr_nm = snd (nm_init ''w'' (Inr 7) nonce_mgr_new), wr_pool = [], wr_count = 7\<rparr>;
       s' = wallet_steps ''w'' [WSend None (\<lambda>_. None) (Inr 0) True, WMine, WResync (Inr 0), WSend None (\<lambda>_. None) (Inr 0) True, WMine]
              (wallet_step ''w'' (WSend None (\<lambda>_. Some ''insufficient funds'') (Inr 0) False) s)
   in wr_count s' \<le> 7 \<and> wr_pool s' = [8, 9]"
proof -
  let ?s = "\<lparr>wr_nm = snd (nm_init ''w'' (Inr 7) nonce_mgr_new), wr_pool = [], wr_count = 7\<rparr>"
  let ?evs = "[WSend None (\<lambda>_. None) (Inr 0) True, WMine, WResync (Inr 0), WSend None (\<lambda>_. None) (Inr 0) True, WMine]"
  have "map_of (next_nonce (wr_nm ?s)) ''w'' = Some 7" "wr_count ?s \<le> 7" "7 \<notin> set (wr_pool ?s)"
    by (simp_all add: nm_init_def)
  moreover have "fst (sendRaw ''w'' None (\<lambda>_. Some ''insufficient funds'') (stale_count (Inr 0) ?s) (wr_nm ?s)) =
      SendThrew ''insufficient funds''" by code_simp
  moreover have "wr_pool (wallet_steps ''w'' ?evs (wallet_step ''w'' (WSend None (\<lambda>_. Some ''insufficient funds'') (Inr 0) False) ?s)) = [8, 9]"
    by code_simp
  ultimately show ?thesis
    using failed_submission_stops_wallet [of ?s "''w''" 7 None "\<lambda>_. Some ''insufficient funds''" "Inr 0" "''insufficient funds''" _ ?evs]
    unfolding Let_def by blast
qed

end
