(* ===== verification/Load_Metrics.thy ===== *)
theory Load_Metrics
  imports Gemba_Prelude
begin

text \<open>
  The counters of the load generators and the classes of submit errors, endurance/lib/metrics.js
  (stress/lib has the same file). Times are readings of the clock.
\<close>

section \<open>Classes of errors\<close>

definition classify :: "string \<Rightarrow> string" where
  "classify msg = (let m = to_lower msg; has = str_includes m in
     if has ''replacement'' \<or> has ''underpriced'' then ''replacement''
     else if has ''coalesce'' then ''coalesce''
     else if has ''nonce'' then ''nonce''
     else if has ''mempool is full'' \<or> has ''txpool'' \<or> has ''mempool'' then ''mempool_full''
     else if has ''tx too large'' \<or> has ''too large'' then ''tx_too_large''
     else if has ''insufficient funds'' then ''insufficient_funds''
     else if has ''intrinsic gas'' then ''intrinsic_gas''
     else if has ''fee'' \<and> has ''low'' then ''fee_too_low''
     else if has ''already known'' \<or> has ''already in'' then ''already_known''
     else if has ''timeout'' \<or> has ''timed out'' then ''rpc_timeout''
     else if has ''429'' \<or> has ''rate'' then ''rate_limited''
     else if has ''connection'' \<or> has ''econn'' \<or> has ''socket'' then ''connection''
     else ''other'')"

section \<open>Counters\<close>

type_synonym tally = "(string, nat) jsmap"

definition tally_of :: "tally \<Rightarrow> string \<Rightarrow> nat" where
  "tally_of m k = (case map_of m k of None \<Rightarrow> 0 | Some n \<Rightarrow> n)"

definition tally_add :: "string \<Rightarrow> tally \<Rightarrow> tally" where
  "tally_add k m = AList.update k (Suc (tally_of m k)) m"

record metrics =
  submitted :: nat
  mined :: nat
  failedSubmit :: nat
  reverted :: nat
  timedOut :: nat
  softSubmit :: nat
  byType :: tally
  submit_errors :: tally
  softErrors :: tally
  subWindow :: "int list"
  minWindow :: "int list"
  latencies :: "int list"

definition new_metrics :: metrics where
  "new_metrics = \<lparr>submitted = 0, mined = 0, failedSubmit = 0, reverted = 0, timedOut = 0, softSubmit = 0,
     byType = [], submit_errors = [], softErrors = [], subWindow = [], minWindow = [], latencies = []\<rparr>"

definition onSubmit :: "string \<Rightarrow> int \<Rightarrow> metrics \<Rightarrow> metrics" where
  "onSubmit type now m = m\<lparr>submitted := Suc (submitted m), byType := tally_add type (byType m),
     subWindow := subWindow m @ [now]\<rparr>"

definition onSubmitFail :: "string \<Rightarrow> metrics \<Rightarrow> metrics" where
  "onSubmitFail msg m = m\<lparr>failedSubmit := Suc (failedSubmit m), submit_errors := tally_add (classify msg) (submit_errors m)\<rparr>"

definition onSoft :: "string \<Rightarrow> metrics \<Rightarrow> metrics" where
  "onSoft msg m = m\<lparr>softSubmit := Suc (softSubmit m), softErrors := tally_add (classify msg) (softErrors m)\<rparr>"

definition onMined :: "int \<Rightarrow> int \<Rightarrow> metrics \<Rightarrow> metrics" where
  "onMined latency now m = (let ls = latencies m @ [latency] in
     m\<lparr>mined := Suc (mined m), minWindow := minWindow m @ [now],
       latencies := (if 5000 < length ls then tl ls else ls)\<rparr>)"

definition onRevert :: "metrics \<Rightarrow> metrics" where
  "onRevert m = m\<lparr>reverted := Suc (reverted m)\<rparr>"

definition onTimeout :: "metrics \<Rightarrow> metrics" where
  "onTimeout m = m\<lparr>timedOut := Suc (timedOut m)\<rparr>"

section \<open>Snapshots\<close>

text \<open>\<open>_tps\<close> drops what is older than the window and divides by its five seconds; the quotient has one
  decimal, which \<open>toFixed(1)\<close> keeps.\<close>

definition in_window :: "int \<Rightarrow> int list \<Rightarrow> int list" where
  "in_window now ts = dropWhile (\<lambda>t. t < now - 5000) ts"

definition window_tps :: "int list \<Rightarrow> jsnum" where
  "window_tps ts = js_div (js_of_int (int (length ts))) (Fin 5)"

definition pct_index :: "rat \<Rightarrow> nat \<Rightarrow> nat" where
  "pct_index p n = min (n - 1) (nat \<lfloor>dbl (dbl p * of_nat n)\<rfloor>)"

definition pct :: "rat \<Rightarrow> int list \<Rightarrow> int" where
  "pct p ls = (if ls = [] then 0 else sort ls ! pct_index p (length ls))"

record snapshot =
  sn_submitted :: nat
  sn_mined :: nat
  sn_failed :: nat
  sn_inflight :: nat
  submitTps :: jsnum
  minedTps :: jsnum
  sn_p50 :: int
  sn_p95 :: int
  sn_p99 :: int

definition take_snapshot :: "nat \<Rightarrow> int \<Rightarrow> metrics \<Rightarrow> snapshot \<times> metrics" where
  "take_snapshot inflight now m = (let m' = m\<lparr>subWindow := in_window now (subWindow m), minWindow := in_window now (minWindow m)\<rparr> in
     (\<lparr>sn_submitted = submitted m, sn_mined = mined m, sn_failed = failedSubmit m, sn_inflight = inflight,
       submitTps = window_tps (subWindow m'), minedTps = window_tps (minWindow m'),
       sn_p50 = pct (1 / 2) (latencies m), sn_p95 = pct (95 / 100) (latencies m), sn_p99 = pct (99 / 100) (latencies m)\<rparr>, m'))"

lemma tally_add_of: "tally_of (tally_add k m) k' = (if k = k' then Suc (tally_of m k) else tally_of m k')"
  by (simp add: tally_add_def tally_of_def js_map.get_put)

lemma pct_index_less: "ls \<noteq> [] \<Longrightarrow> pct_index p (length ls) < length ls"
  by (cases ls) (auto simp: pct_index_def min_def)

lemma pct_in: "ls \<noteq> [] \<Longrightarrow> pct p ls \<in> set ls"
  using nth_mem [of "pct_index p (length ls)" "sort ls"] by (simp add: pct_def pct_index_less)

lemma pct_mono:
  assumes "p \<le> q"
  shows "pct p ls \<le> pct q ls"
proof (cases "ls = []")
  case False
  have "dbl (dbl p * of_nat (length ls)) \<le> dbl (dbl q * of_nat (length ls))"
    using assms by (intro dbl_mono mult_right_mono) simp_all
  then have "pct_index p (length ls) \<le> pct_index q (length ls)"
    unfolding pct_index_def by (intro min.mono order_refl nat_mono floor_mono)
  moreover have "pct_index q (length ls) < length (sort ls)"
    using False by (simp add: pct_index_less)
  ultimately show ?thesis using False by (simp add: pct_def sorted_nth_mono)
qed (simp add: pct_def)

text \<open>The percentiles of a snapshot are latencies that were observed, in order.\<close>

lemma snapshot_percentiles:
  assumes "take_snapshot k now m = (s, m')"
  shows "sn_p50 s \<le> sn_p95 s \<and> sn_p95 s \<le> sn_p99 s \<and> (latencies m \<noteq> [] \<longrightarrow> {sn_p50 s, sn_p95 s, sn_p99 s} \<subseteq> set (latencies m))"
proof -
  have "sn_p50 s = pct (1 / 2) (latencies m)" "sn_p95 s = pct (95 / 100) (latencies m)"
    "sn_p99 s = pct (99 / 100) (latencies m)"
    using assms by (auto simp: take_snapshot_def Let_def)
  moreover have "pct (1 / 2) (latencies m) \<le> pct (95 / 100) (latencies m)" by (rule pct_mono) simp
  moreover have "pct (95 / 100) (latencies m) \<le> pct (99 / 100) (latencies m)" by (rule pct_mono) simp
  ultimately show ?thesis using pct_in by simp
qed

end
