(* ===== verification/Receipt_Collector.thy ===== *)
theory Receipt_Collector
  imports Load_Metrics
begin

text \<open>
  The receipt collector of the load generators: endurance/lib/receiptCollector.js and the older one of
  stress/lib. A collector holds the transactions in flight; a loop scans the blocks for their hashes, a
  second one times them out (and re-broadcasts them once, in the newer collector), and workers fetch
  the receipts. What the providers answer and what the clock reads are arguments; the calls of
  \<open>onSettle\<close> and \<open>onResolve\<close> and the rows of the log are collected in the state.
\<close>

section \<open>State\<close>

record flight =
  fl_submit :: int
  fl_signed :: "string option"
  fl_deadline :: jsnum
  fl_rebroadcast :: bool
  fl_from :: string
  fl_type :: string

record receipt_job =
  jb_hash :: string
  jb_type :: string
  jb_block :: int
  jb_tries :: nat

text \<open>A row of the tx stream: a mined row has no status field, a timed-out one has status timeout.\<close>

record tx_row =
  row_hash :: string
  row_type :: string
  row_status :: "string option"
  row_latency :: int

datatype err_row = RevertRow string string | RebroadcastRow string | TimeoutRow string | SubmitRow string string

datatype callback = Settle string bool | Resolve string bool

record collector =
  flights :: "(string, flight) jsmap"
  receiptQ :: "receipt_job list"
  lastBlock :: int
  rebroadcasts :: nat
  rc_metrics :: metrics
  tx_rows :: "tx_row list"
  err_rows :: "err_row list"
  block_rows :: "int list"
  callbacks :: "callback list"
  sent_again :: "string list"

definition new_collector :: collector where
  "new_collector = \<lparr>flights = [], receiptQ = [], lastBlock = 0, rebroadcasts = 0, rc_metrics = new_metrics,
     tx_rows = [], err_rows = [], block_rows = [], callbacks = [], sent_again = []\<rparr>"

definition rc_track :: "jsnum \<Rightarrow> int \<Rightarrow> string \<Rightarrow> flight \<Rightarrow> collector \<Rightarrow> collector" where
  "rc_track timeoutMs now h m c = c\<lparr>flights := AList.update h
     (m\<lparr>fl_deadline := js_add (js_of_int (if fl_submit m \<noteq> 0 then fl_submit m else now)) timeoutMs,
        fl_rebroadcast := False\<rparr>) (flights c)\<rparr>"

section \<open>The scan of the blocks\<close>

text \<open>The hashes of a block: one in flight is mined, settled, and queued for its receipt.\<close>

definition rc_mine :: "int \<Rightarrow> int \<Rightarrow> string \<Rightarrow> collector \<Rightarrow> collector" where
  "rc_mine now n h c = (case map_of (flights c) h of None \<Rightarrow> c
    | Some m \<Rightarrow> c\<lparr>flights := AList.delete h (flights c),
        rc_metrics := onMined (now - fl_submit m) now (rc_metrics c),
        tx_rows := tx_rows c @ [\<lparr>row_hash = h, row_type = fl_type m, row_status = None, row_latency = now - fl_submit m\<rparr>],
        callbacks := callbacks c @ [Settle (fl_from m) True],
        receiptQ := receiptQ c @ [\<lparr>jb_hash = h, jb_type = fl_type m, jb_block = n, jb_tries = 0\<rparr>]\<rparr>)"

fun rc_mines :: "int \<Rightarrow> int \<Rightarrow> string list \<Rightarrow> collector \<Rightarrow> collector" where
  "rc_mines now n [] c = c"
| "rc_mines now n (h # hs) c = rc_mines now n hs (rc_mine now n h c)"

text \<open>The answers of the providers for a block, in their order: the first that has it is taken.\<close>

fun first_answer :: "'a option list \<Rightarrow> 'a option" where
  "first_answer [] = None"
| "first_answer (None # as) = first_answer as"
| "first_answer (Some a # as) = Some a"

definition rc_block :: "int \<Rightarrow> int \<Rightarrow> string list option list \<Rightarrow> collector \<Rightarrow> bool \<times> collector" where
  "rc_block now n answers c = (case first_answer answers of None \<Rightarrow> (False, c)
     | Some hs \<Rightarrow> (True, rc_mines now n hs (c\<lparr>block_rows := block_rows c @ [n]\<rparr>)))"

text \<open>The inner loop: one block at a time, and only past a block that was fetched.\<close>

definition rc_advance :: "int \<Rightarrow> string list option list \<Rightarrow> collector \<Rightarrow> bool \<times> collector" where
  "rc_advance now answers c = (case rc_block now (lastBlock c + 1) answers c of
      (ok, c') \<Rightarrow> (ok, if ok then c'\<lparr>lastBlock := lastBlock c + 1\<rparr> else c'))"

lemma rc_advance_last: "rc_advance now answers c = (True, c') \<Longrightarrow> lastBlock c' = lastBlock c + 1"
  by (auto simp: rc_advance_def split: prod.splits)

function rc_scan :: "(int \<Rightarrow> bool) \<Rightarrow> (int \<Rightarrow> int) \<Rightarrow> (int \<Rightarrow> string list option list) \<Rightarrow> int \<Rightarrow> collector \<Rightarrow> collector" where
  "rc_scan running clock answers bn c = (if running (lastBlock c) \<and> lastBlock c < bn
     then (case rc_advance (clock (lastBlock c + 1)) (answers (lastBlock c + 1)) c of
         (False, c') \<Rightarrow> c'
       | (True, c') \<Rightarrow> rc_scan running clock answers bn c')
     else c)"
  by pat_completeness auto
termination
  by (relation "measure (\<lambda>(running, clock, answers, bn, c). nat (bn - lastBlock c))")
    (auto dest!: rc_advance_last [OF sym])

declare rc_scan.simps [simp del]

definition rc_tip :: "int \<Rightarrow> collector \<Rightarrow> collector" where
  "rc_tip bn c = (if lastBlock c = 0 then c\<lparr>lastBlock := bn - 1\<rparr> else c)"

definition rc_block_loop :: "(int \<Rightarrow> bool) \<Rightarrow> (int \<Rightarrow> int) \<Rightarrow> (int \<Rightarrow> string list option list) \<Rightarrow> string + int \<Rightarrow> collector \<Rightarrow> collector" where
  "rc_block_loop running clock answers number c = (case number of Inl e \<Rightarrow> c
     | Inr bn \<Rightarrow> rc_scan running clock answers bn (rc_tip bn c))"

section \<open>Receipts\<close>

text \<open>
  One job of a receipt worker: the receipt's status, if a provider has one. A missing receipt is tried
  four more times; a revert is logged with the reason that a replay gives.
\<close>

definition rc_receipt :: "int option list \<Rightarrow> string \<Rightarrow> collector \<Rightarrow> collector" where
  "rc_receipt answers reason c = (case receiptQ c of [] \<Rightarrow> c
    | job # q \<Rightarrow> (let c1 = c\<lparr>receiptQ := q\<rparr> in
      (case first_answer answers of
         None \<Rightarrow> (if jb_tries job < 4 then c1\<lparr>receiptQ := q @ [job\<lparr>jb_tries := Suc (jb_tries job)\<rparr>]\<rparr>
           else c1\<lparr>callbacks := callbacks c @ [Resolve (jb_hash job) False]\<rparr>)
       | Some status \<Rightarrow> (let ok = (status = 1);
           c2 = (if ok then c1 else c1\<lparr>rc_metrics := onRevert (rc_metrics c),
             err_rows := err_rows c @ [RevertRow (jb_hash job) reason]\<rparr>) in
           c2\<lparr>callbacks := callbacks c @ [Resolve (jb_hash job) ok]\<rparr>))))"

section \<open>Timeouts\<close>

definition rc_give_up :: "int \<Rightarrow> string \<Rightarrow> flight \<Rightarrow> collector \<Rightarrow> collector" where
  "rc_give_up now h m c = c\<lparr>flights := AList.delete h (flights c), rc_metrics := onTimeout (rc_metrics c),
     tx_rows := tx_rows c @ [\<lparr>row_hash = h, row_type = fl_type m, row_status = Some ''timeout'', row_latency = now - fl_submit m\<rparr>],
     err_rows := err_rows c @ [TimeoutRow h],
     callbacks := callbacks c @ [Settle (fl_from m) False, Resolve h False]\<rparr>"

definition rc_expire :: "jsnum \<Rightarrow> int \<Rightarrow> string \<times> flight \<Rightarrow> collector \<Rightarrow> collector" where
  "rc_expire timeoutMs now hm c = (case hm of (h, m) \<Rightarrow>
     if js_le (js_of_int now) (fl_deadline m) then c
     else (case fl_signed m of
        None \<Rightarrow> rc_give_up now h m c
      | Some blob \<Rightarrow> if fl_rebroadcast m \<or> blob = [] then rc_give_up now h m c
          else c\<lparr>flights := AList.update h (m\<lparr>fl_rebroadcast := True,
                   fl_deadline := js_add (js_of_int now) timeoutMs\<rparr>) (flights c),
                 rebroadcasts := Suc (rebroadcasts c), sent_again := sent_again c @ [blob],
                 err_rows := err_rows c @ [RebroadcastRow h]\<rparr>))"

definition rc_sweep :: "jsnum \<Rightarrow> int \<Rightarrow> collector \<Rightarrow> collector" where
  "rc_sweep timeoutMs now c = foldl (\<lambda>c hm. rc_expire timeoutMs now hm c) c (flights c)"

section \<open>The older collector\<close>

text \<open>
  stress/lib/receiptCollector.js: no re-broadcast and no \<open>onResolve\<close>, a queue of at most 100000
  receipts, one provider per block, and \<open>lastBlock\<close> set to the tip whatever was fetched.
\<close>

definition sc_track :: "string \<Rightarrow> flight \<Rightarrow> collector \<Rightarrow> collector" where
  "sc_track h m c = c\<lparr>flights := AList.update h m (flights c)\<rparr>"

definition sc_mine :: "int \<Rightarrow> int \<Rightarrow> string \<Rightarrow> collector \<Rightarrow> collector" where
  "sc_mine now n h c = (case map_of (flights c) h of None \<Rightarrow> c
    | Some m \<Rightarrow> c\<lparr>flights := AList.delete h (flights c),
        rc_metrics := onMined (now - fl_submit m) now (rc_metrics c),
        tx_rows := tx_rows c @ [\<lparr>row_hash = h, row_type = fl_type m, row_status = None, row_latency = now - fl_submit m\<rparr>],
        callbacks := callbacks c @ [Settle (fl_from m) True],
        receiptQ := (if length (receiptQ c) < 100000
          then receiptQ c @ [\<lparr>jb_hash = h, jb_type = fl_type m, jb_block = n, jb_tries = 0\<rparr>] else receiptQ c)\<rparr>)"

fun sc_mines :: "int \<Rightarrow> int \<Rightarrow> string list \<Rightarrow> collector \<Rightarrow> collector" where
  "sc_mines now n [] c = c"
| "sc_mines now n (h # hs) c = sc_mines now n hs (sc_mine now n h c)"

definition sc_block :: "int \<Rightarrow> int \<Rightarrow> string list option \<Rightarrow> collector \<Rightarrow> collector" where
  "sc_block now n answer c = (case answer of None \<Rightarrow> c
     | Some hs \<Rightarrow> sc_mines now n hs (c\<lparr>block_rows := block_rows c @ [n]\<rparr>))"

definition sc_block_loop :: "(int \<Rightarrow> int) \<Rightarrow> (int \<Rightarrow> string list option) \<Rightarrow> string + int \<Rightarrow> collector \<Rightarrow> collector" where
  "sc_block_loop clock answers number c = (case number of Inl e \<Rightarrow> c
     | Inr bn \<Rightarrow> if lastBlock c < bn
        then (foldl (\<lambda>c n. sc_block (clock n) n (answers n) c) c [if lastBlock c = 0 then bn else lastBlock c + 1..bn])
               \<lparr>lastBlock := bn\<rparr>
        else c)"

definition sc_receipt :: "int option \<Rightarrow> collector \<Rightarrow> collector" where
  "sc_receipt answer c = (case receiptQ c of [] \<Rightarrow> c
    | job # q \<Rightarrow> if answer = Some 0
        then c\<lparr>receiptQ := q, rc_metrics := onRevert (rc_metrics c), err_rows := err_rows c @ [RevertRow (jb_hash job) []]\<rparr>
        else c\<lparr>receiptQ := q\<rparr>)"

definition sc_expire :: "jsnum \<Rightarrow> int \<Rightarrow> string \<times> flight \<Rightarrow> collector \<Rightarrow> collector" where
  "sc_expire timeoutMs now hm c = (case hm of (h, m) \<Rightarrow>
     if js_lt timeoutMs (js_of_int (now - fl_submit m))
     then c\<lparr>flights := AList.delete h (flights c), rc_metrics := onTimeout (rc_metrics c),
            tx_rows := tx_rows c @ [\<lparr>row_hash = h, row_type = fl_type m, row_status = Some ''timeout'', row_latency = now - fl_submit m\<rparr>],
            err_rows := err_rows c @ [TimeoutRow h],
            callbacks := callbacks c @ [Settle (fl_from m) False]\<rparr>
     else c)"

definition sc_sweep :: "jsnum \<Rightarrow> int \<Rightarrow> collector \<Rightarrow> collector" where
  "sc_sweep timeoutMs now c = foldl (\<lambda>c hm. sc_expire timeoutMs now hm c) c (flights c)"

end
