(* ===== verification/Load_Limits.thy ===== *)
theory Load_Limits
  imports Gemba_Prelude
begin

text \<open>
  The two throttles of the load generators, endurance/lib/rateLimiter.js: a token bucket whose rate can
  be changed at any time, and a counting semaphore. The bucket computes in doubles and reads the clock;
  the clock's readings are arguments.
\<close>

section \<open>The token bucket\<close>

record RateLimiter =
  rl_tps :: jsnum
  rl_capacity :: jsnum
  rl_tokens :: jsnum
  rl_last :: int

definition setRate :: "jsnum \<Rightarrow> RateLimiter \<Rightarrow> RateLimiter" where
  "setRate tps l = l\<lparr>rl_tps := js_max (Fin 0) tps, rl_capacity := js_max (Fin 1) tps\<rparr>"

definition new_rate_limiter :: "jsnum \<Rightarrow> int \<Rightarrow> RateLimiter" where
  "new_rate_limiter tps now = \<lparr>rl_tps = js_max (Fin 0) tps, rl_capacity = js_max (Fin 1) tps, rl_tokens = Fin 0, rl_last = now\<rparr>"

definition refill :: "int \<Rightarrow> RateLimiter \<Rightarrow> RateLimiter" where
  "refill now l = l\<lparr>
     rl_tokens := js_min (rl_capacity l) (js_add (rl_tokens l)
       (js_mul (js_div (js_sub (js_of_int now) (js_of_int (rl_last l))) (Fin 1000)) (rl_tps l))),
     rl_last := now\<rparr>"

text \<open>One turn of the loop of \<open>take\<close>: a token is taken, or the time to wait before the next turn.\<close>

definition take_turn :: "int \<Rightarrow> RateLimiter \<Rightarrow> jsnum option \<times> RateLimiter" where
  "take_turn now l = (let r = refill now l in
     if js_le (Fin 1) (rl_tokens r) then (None, r\<lparr>rl_tokens := js_sub (rl_tokens r) (Fin 1)\<rparr>)
     else (let need = (if js_lt (Fin 0) (rl_tps r)
             then js_mul (js_div (js_sub (Fin 1) (rl_tokens r)) (rl_tps r)) (Fin 1000) else Fin 50) in
       (Some (js_min (Fin 100) (js_max (Fin 2) need)), r)))"

text \<open>The loop over the clock's readings at its turns; \<open>None\<close> when they end before a token is there.\<close>

fun rl_take :: "int list \<Rightarrow> RateLimiter \<Rightarrow> (nat \<times> RateLimiter) option" where
  "rl_take [] l = None"
| "rl_take (now # ts) l = (case take_turn now l of
      (None, l') \<Rightarrow> Some (1, l')
    | (Some w, l') \<Rightarrow> (case rl_take ts l' of None \<Rightarrow> None | Some (n, l'') \<Rightarrow> Some (Suc n, l'')))"

section \<open>The loop of take returns\<close>

lemma dbl_error_low:
  assumes "0 < x" "2 powi (-1022) \<le> x"
  shows "x - x / 9007199254740992 \<le> dbl x"
proof -
  have "\<bar>dbl x - x\<bar> \<le> x * 2 powi (-53)" by (rule dbl_error [OF assms])
  moreover have "x * 2 powi (-53) = x / 9007199254740992" by (simp add: power_int_def power_one_over)
  ultimately show ?thesis unfolding abs_le_iff by linarith
qed

lemma dbl_gain:
  assumes "0 \<le> x" "1 / 600 \<le> y" "x \<le> 1" "y \<le> 1"
  shows "x + 1 / 1000 \<le> dbl (x + y)"
proof -
  have "(2 :: rat) powi (-1022) \<le> 1 / 600"
  proof -
    have "(2 :: rat) powi (-1022) \<le> 2 powi (-10)" by (rule power_int_increasing) auto
    also have "(2 :: rat) powi (-10) \<le> 1 / 600" by (simp add: power_int_def power_one_over)
    finally show ?thesis .
  qed
  then have "x + y - (x + y) / 9007199254740992 \<le> dbl (x + y)"
    using assms by (intro dbl_error_low) auto
  moreover have "(x + y) / 9007199254740992 \<le> 1 / 2000" using assms by (simp add: divide_simps)
  moreover have "(1 / 1000 :: rat) + 1 / 2000 \<le> 1 / 600" by simp
  ultimately show ?thesis using assms(2) by linarith
qed

text \<open>The state of a bucket of at least one token per second, with less than a token in it.\<close>

definition filling :: "rat \<Rightarrow> rat \<Rightarrow> RateLimiter \<Rightarrow> bool" where
  "filling r x l = (rl_tps l = Fin r \<and> rl_capacity l = Fin r \<and> 1 \<le> r \<and> rl_tokens l = Fin x \<and> 0 \<le> x \<and> x < 1)"

lemma js_of_rat_cases: "js_of_rat q = Fin (dbl q) \<or> js_of_rat q = JInf \<or> js_of_rat q = JNegInf"
  by (simp add: js_of_rat_def Let_def)

lemma js_of_rat_nonneg: "0 \<le> q \<Longrightarrow> js_of_rat q = Fin (dbl q) \<or> js_of_rat q = JInf"
  using dbl_nonneg [of q] by (auto simp: js_of_rat_def dbl_limit_def Let_def)

text \<open>What a wait of at least two milliseconds brings.\<close>

definition bucket_gain :: "int \<Rightarrow> RateLimiter \<Rightarrow> jsnum" where
  "bucket_gain now l = js_mul (js_div (js_sub (js_of_int now) (js_of_int (rl_last l))) (Fin 1000)) (rl_tps l)"

lemma bucket_gain_least:
  assumes "rl_tps l = Fin r" "1 \<le> r" "0 \<le> rl_last l" "rl_last l + 2 \<le> now" "now \<le> 2 ^ 53"
  shows "(\<exists>y. bucket_gain now l = Fin y \<and> 1 / 600 \<le> y) \<or> bucket_gain now l = JInf"
proof -
  define d where "d = now - rl_last l"
  have d: "2 \<le> d" "d \<le> 2 ^ 53" using assms(3-5) by (simp_all add: d_def)
  have d': "(2 :: rat) \<le> of_int d" using d(1) by (metis of_int_le_iff of_int_numeral)
  have tiny: "(2 :: rat) powi (-1022) \<le> 1 / 600"
  proof -
    have "(2 :: rat) powi (-1022) \<le> 2 powi (-10)" by (rule power_int_increasing) auto
    also have "(2 :: rat) powi (-10) \<le> 1 / 600" by (simp add: power_int_def power_one_over)
    finally show ?thesis .
  qed
  have sub: "js_sub (js_of_int now) (js_of_int (rl_last l)) = Fin (of_int d)"
    using assms(3-5) by (simp add: js_of_int_small js_sub_int d_def del: of_int_diff)
  have q: "1 / 510 \<le> dbl (of_int d / 1000)"
  proof -
    have "(1 / 500 :: rat) - 1 / 500 / 9007199254740992 \<le> dbl (1 / 500)"
      by (rule dbl_error_low) (use tiny in auto)
    also have "dbl (1 / 500) \<le> dbl (of_int d / 1000)" using d' by (intro dbl_mono) simp
    finally show ?thesis by simp
  qed
  have div: "js_div (Fin (of_int d)) (Fin 1000) = Fin (dbl (of_int d / 1000)) \<or> js_div (Fin (of_int d)) (Fin 1000) = JInf"
    using d' js_of_rat_nonneg [of "of_int d / 1000"] by simp
  have fin: "1 / 600 \<le> dbl (dbl (of_int d / 1000) * r)"
  proof -
    have "(1 / 510 :: rat) - 1 / 510 / 9007199254740992 \<le> dbl (1 / 510)"
      by (rule dbl_error_low) (use tiny in auto)
    also have "dbl (1 / 510) \<le> dbl (dbl (of_int d / 1000) * r)"
      using q assms(2) mult_mono [OF q assms(2)] by (intro dbl_mono) simp
    finally show ?thesis by simp
  qed
  have nn: "0 \<le> dbl (of_int d / 1000) * r" using q assms(2) by simp
  show ?thesis
    using div fin js_of_rat_nonneg [OF nn] assms(1,2)
    by (auto simp: bucket_gain_def sub js_inf_sign_def)
qed

lemma take_turn_fills:
  assumes "filling r x l" "0 \<le> rl_last l" "rl_last l + 2 \<le> now" "now \<le> 2 ^ 53" "take_turn now l = (w, l')"
  shows "w = None \<or> (\<exists>x'. x + 1 / 1000 \<le> x' \<and> filling r x' l' \<and> rl_last l' = now)"
proof -
  have f: "rl_tps l = Fin r" "rl_capacity l = Fin r" "1 \<le> r" "rl_tokens l = Fin x" "0 \<le> x" "x < 1"
    using assms(1) by (simp_all add: filling_def)
  define t where "t = js_min (Fin r) (js_add (Fin x) (bucket_gain now l))"
  have r: "refill now l = l\<lparr>rl_tokens := t, rl_last := now\<rparr>"
    by (simp add: refill_def t_def bucket_gain_def f)
  have "js_le (Fin 1) t \<or> (\<exists>x'. t = Fin x' \<and> x + 1 / 1000 \<le> x' \<and> x' < 1)"
    using bucket_gain_least [OF f(1,3) assms(2-4)]
  proof (elim disjE exE conjE)
    fix y assume y: "bucket_gain now l = Fin y" "1 / 600 \<le> y"
    have nn: "0 \<le> x + y" using f(5) y(2) by simp
    have "x + 1 / 1000 \<le> dbl (x + y)" if "dbl (x + y) < 1"
    proof -
      have "x + y < 1" using that dbl_mono [of 1 "x + y"] by fastforce
      then show ?thesis using f y by (intro dbl_gain) auto
    qed
    then show ?thesis using js_of_rat_nonneg [OF nn] f(3)
      by (auto simp: t_def y(1) js_min_def)
  next
    assume "bucket_gain now l = JInf"
    then show ?thesis using f(3) by (simp add: t_def js_min_def)
  qed
  then show ?thesis
  proof (elim disjE exE conjE)
    assume "js_le (Fin 1) t"
    then show ?thesis using assms(5) by (simp add: take_turn_def Let_def r)
  next
    fix x' assume x': "t = Fin x'" "x + 1 / 1000 \<le> x'" "x' < 1"
    then have "l' = l\<lparr>rl_tokens := Fin x', rl_last := now\<rparr>" using assms(5)
      by (auto simp: take_turn_def Let_def r)
    then show ?thesis using x' f by (auto simp: filling_def)
  qed
qed

text \<open>Clock readings that are at least two milliseconds apart, the first after \<open>t\<close>.\<close>

fun spaced_readings :: "int \<Rightarrow> int list \<Rightarrow> bool" where
  "spaced_readings t [] = True"
| "spaced_readings t (u # us) = (t + 2 \<le> u \<and> u \<le> 2 ^ 53 \<and> spaced_readings u us)"

lemma rl_take_within:
  assumes "filling r x l" "0 \<le> rl_last l" "spaced_readings (rl_last l) ts"
    "1000 * (1 - x) < of_nat (length ts)"
  shows "\<exists>n l'. rl_take ts l = Some (n, l') \<and> n \<le> length ts"
  using assms
proof (induction ts arbitrary: x l)
  case Nil
  then show ?case by (simp add: filling_def)
next
  case (Cons now ts)
  obtain w l' where t: "take_turn now l = (w, l')" by fastforce
  show ?case
  proof (cases w)
    case None
    then show ?thesis by (simp add: t)
  next
    case (Some a)
    then obtain x' where x': "x + 1 / 1000 \<le> x'" "filling r x' l'" "rl_last l' = now"
      using take_turn_fills [OF Cons.prems(1,2) _ _ t] Cons.prems(3) by auto
    have "1000 * (1 - x') < of_nat (length ts)" using x'(1) Cons.prems(4) by simp
    moreover have "0 \<le> rl_last l'" using x'(3) Cons.prems(2,3) by simp
    ultimately obtain n l'' where "rl_take ts l' = Some (n, l'')" "n \<le> length ts"
      using Cons.IH [OF x'(2)] Cons.prems(3) x'(3) by auto
    then show ?thesis by (simp add: t Some)
  qed
qed

text \<open>At a rate of zero, which \<open>setRate\<close> allows, the bucket never fills and \<open>take\<close> never returns.\<close>

lemma refill_at_rate_zero:
  assumes "rl_tps l = Fin 0" "rl_capacity l = Fin 1" "rl_tokens l = Fin x" "dbl x = x" "x < 1" "0 \<le> x"
    and "0 \<le> rl_last l" "rl_last l + 2 \<le> now" "now \<le> 2 ^ 53"
  shows "refill now l = l\<lparr>rl_last := now\<rparr>"
proof -
  define d where "d = now - rl_last l"
  have d: "0 \<le> d" "d \<le> 2 ^ 53" using assms(7-9) by (simp_all add: d_def)
  have sub: "js_sub (js_of_int now) (js_of_int (rl_last l)) = Fin (of_int d)"
    using assms(7-9) by (simp add: js_of_int_small js_sub_int d_def del: of_int_diff)
  have "dbl (of_int d / 1000) \<le> dbl (of_int (2 ^ 53))" using d by (intro dbl_mono) (simp add: divide_simps)
  also have "dbl (of_int (2 ^ 53)) = of_int (2 ^ 53)" by (rule dbl_of_int) simp
  also have "(of_int (2 ^ 53) :: rat) < 2 ^ 1024" by simp
  finally have "\<bar>dbl (of_int d / 1000)\<bar> < 2 ^ 1024" using dbl_nonneg [of "of_int d / 1000"] d(1) by simp
  then have q: "js_of_rat (of_int d / 1000) = Fin (dbl (of_int d / 1000))" by (rule js_of_rat_small)
  have one: "(1 :: rat) < 2 ^ 1024" by (rule one_less_power) auto
  have x: "js_of_rat x = Fin x" using assms(4-6) one js_of_rat_small [of x] by simp
  have z: "js_of_rat 0 = Fin 0" using js_of_rat_small [of 0] by simp
  show ?thesis using assms(1-3,5) by (simp add: refill_def sub q x z js_min_def)
qed

lemma take_waits_at_rate_zero:
  assumes "rl_tps l = Fin 0" "rl_capacity l = Fin 1" "rl_tokens l = Fin x" "dbl x = x" "x < 1" "0 \<le> x"
    and "0 \<le> rl_last l" "spaced_readings (rl_last l) ts"
  shows "rl_take ts l = None"
  using assms
proof (induction ts arbitrary: l)
  case (Cons now ts)
  have r: "refill now l = l\<lparr>rl_last := now\<rparr>" using Cons.prems by (intro refill_at_rate_zero) auto
  have "rl_take ts (l\<lparr>rl_last := now\<rparr>) = None" using Cons.prems by (intro Cons.IH) auto
  then show ?case using Cons.prems(1,3,5) by (simp add: take_turn_def Let_def r)
qed simp

text \<open>
  C30. As long as the rate stays the same and is at least one per second, and the clock's readings at successive turns are
  at least two milliseconds apart (the shortest time a turn waits), the loop of \<open>take\<close> ends: it returns a token within 1001
  turns, whatever fraction of a token the bucket holds, although the fraction is kept in doubles. At a rate of zero it
  never ends (\<open>take_waits_at_rate_zero\<close>).
\<close>

theorem take_returns:
  assumes "rl_tps l = Fin r" "rl_capacity l = Fin r" "1 \<le> r" "rl_tokens l = Fin x" "0 \<le> x" "x < 1"
    and "0 \<le> rl_last l" "spaced_readings (rl_last l) ts" "1001 \<le> length ts"
  shows "\<exists>n l'. rl_take ts l = Some (n, l') \<and> n \<le> length ts"
proof (rule rl_take_within)
  show "filling r x l" using assms by (simp add: filling_def)
  have "(1001 :: rat) \<le> of_nat (length ts)" using assms(9) by (metis of_nat_le_iff of_nat_numeral)
  then show "1000 * (1 - x) < of_nat (length ts)" using assms(5) by simp
qed (use assms in auto)

fun ticks :: "int \<Rightarrow> nat \<Rightarrow> int list" where
  "ticks t 0 = []"
| "ticks t (Suc n) = (t + 2) # ticks (t + 2) n"

lemma ticks_spaced: "t + 2 * int n \<le> 2 ^ 53 \<Longrightarrow> spaced_readings t (ticks t n) \<and> length (ticks t n) = n"
  by (induction t n rule: ticks.induct) auto

lemma take_returns_witness:
  "\<exists>n l'. rl_take (ticks 0 1001) (new_rate_limiter (Fin 4) 0) = Some (n, l') \<and> n \<le> 1001"
proof -
  have "spaced_readings 0 (ticks 0 1001)" "length (ticks 0 1001) = 1001"
    using ticks_spaced [of 0 1001] by simp_all
  then show ?thesis
    using take_returns [of "new_rate_limiter (Fin 4) 0" 4 0 "ticks 0 1001"]
    by (simp add: new_rate_limiter_def js_max_def)
qed

section \<open>The semaphore\<close>

text \<open>
  \<open>release\<close> resolves the first promise of the queue; the waiter resumes, and counts itself, in a later
  microtask, so that other code may run in between. \<open>sm_woken\<close> are the waiters that were resolved and
  have not resumed.
\<close>

record semaphore =
  sm_max :: jsnum
  sm_cur :: int
  sm_queue :: nat
  sm_woken :: nat

definition new_semaphore :: "jsnum \<Rightarrow> semaphore" where
  "new_semaphore m = \<lparr>sm_max = m, sm_cur = 0, sm_queue = 0, sm_woken = 0\<rparr>"

definition sem_acquire :: "semaphore \<Rightarrow> bool \<times> semaphore" where
  "sem_acquire s = (if js_lt (js_of_int (sm_cur s)) (sm_max s) then (True, s\<lparr>sm_cur := sm_cur s + 1\<rparr>)
     else (False, s\<lparr>sm_queue := Suc (sm_queue s)\<rparr>))"

definition sem_resume :: "semaphore \<Rightarrow> semaphore" where
  "sem_resume s = s\<lparr>sm_woken := sm_woken s - 1, sm_cur := sm_cur s + 1\<rparr>"

definition sem_release :: "semaphore \<Rightarrow> semaphore" where
  "sem_release s = (let s1 = s\<lparr>sm_cur := sm_cur s - 1\<rparr> in
     if sm_queue s1 = 0 then s1 else s1\<lparr>sm_queue := sm_queue s1 - 1, sm_woken := Suc (sm_woken s1)\<rparr>)"

text \<open>
  The runs of a semaphore: a caller acquires when it is allowed to, a holder releases, a woken waiter
  resumes. The pump of run.js waits for its own acquire before the next one, so it acquires only when
  nobody waits; \<open>patient\<close> says that all callers do so.
\<close>

inductive sem_run :: "bool \<Rightarrow> jsnum \<Rightarrow> semaphore \<Rightarrow> bool" for patient m where
  start: "sem_run patient m (new_semaphore m)"
| acquire: "sem_run patient m s \<Longrightarrow> (patient \<Longrightarrow> sm_queue s = 0 \<and> sm_woken s = 0) \<Longrightarrow> sem_run patient m (snd (sem_acquire s))"
| releases: "sem_run patient m s \<Longrightarrow> 0 < sm_cur s \<Longrightarrow> sem_run patient m (sem_release s)"
| resume: "sem_run patient m s \<Longrightarrow> 0 < sm_woken s \<Longrightarrow> sem_run patient m (sem_resume s)"

lemma sem_run_bound:
  assumes "sem_run True (Fin (of_int m)) s" "0 \<le> m" "m \<le> 2 ^ 53"
  shows "sm_max s = Fin (of_int m) \<and> 0 \<le> sm_cur s \<and> sm_cur s + int (sm_woken s) \<le> m"
  using assms
proof (induction rule: sem_run.induct)
  case (acquire s)
  then have "js_of_int (sm_cur s) = Fin (of_int (sm_cur s))" by (intro js_of_int_small) auto
  then show ?case using acquire by (auto simp: sem_acquire_def)
qed (auto simp: new_semaphore_def sem_release_def sem_resume_def Let_def)

text \<open>
  The generator never has more submissions under way than its concurrency, because its pump is the
  only caller and waits for each acquire. The semaphore by itself does not promise that: with a second
  caller that comes between a release and the resumption of the waiter, the count exceeds the maximum.
\<close>

theorem pump_within_concurrency:
  assumes "sem_run True (Fin (of_int m)) s" "0 \<le> m" "m \<le> 2 ^ 53"
  shows "sm_cur s \<le> m \<and> (\<exists>s'. sem_run False (Fin 1) s' \<and> sm_cur s' = 2)"
proof -
  let ?s1 = "snd (sem_acquire (new_semaphore (Fin 1)))"
  let ?s2 = "snd (sem_acquire ?s1)"
  let ?s4 = "snd (sem_acquire (sem_release ?s2))"
  have "sem_run False (Fin 1) ?s2" by (intro sem_run.acquire sem_run.start) simp_all
  moreover have "0 < sm_cur ?s2" "0 < sm_woken ?s4" "sm_cur (sem_resume ?s4) = 2" by code_simp+
  ultimately have "sem_run False (Fin 1) (sem_resume ?s4) \<and> sm_cur (sem_resume ?s4) = 2"
    by (auto intro: sem_run.intros)
  then show ?thesis using sem_run_bound [OF assms] by auto
qed

lemma pump_within_concurrency_witness:
  "\<exists>s. sem_run True (Fin (of_int 20)) s \<and> sm_cur s = 1 \<and> sm_cur s \<le> 20"
proof -
  let ?s = "snd (sem_acquire (new_semaphore (Fin (of_int 20))))"
  have r: "sem_run True (Fin (of_int 20)) ?s"
    by (rule sem_run.acquire [OF sem_run.start]) (simp add: new_semaphore_def)
  have "sm_cur ?s = 1" by code_simp
  with pump_within_concurrency [OF r] r show ?thesis by auto
qed

end
