(* ===== verification/Load_Engine.thy ===== *)
theory Load_Engine
  imports Workload_Build Send_Raw Receipt_Collector Load_Limits
begin

text \<open>
  The engine of the endurance run, endurance/scripts/run.js and endurance/config/profiles.js: it picks
  a wallet, builds and sends a transaction, gives it to the collector, and applies its effect when the
  collector reports success. The schedules and the monitor, and the ramp of stress/scripts/run.js and
  stress/config/profiles.js.
\<close>

section \<open>State\<close>

record engine =
  en_ctx :: wl_ctx
  en_nm :: nonce_mgr
  en_rc :: collector
  en_pending :: "(string, int \<times> effect) jsmap"
  en_rr :: nat

definition en_metric :: "(metrics \<Rightarrow> metrics) \<Rightarrow> engine \<Rightarrow> engine" where
  "en_metric g en = en\<lparr>en_rc := (en_rc en)\<lparr>rc_metrics := g (rc_metrics (en_rc en))\<rparr>\<rparr>"

section \<open>Sending\<close>

text \<open>Up to eight operations are picked, until one is ready.\<close>

fun try_build :: "wl_env \<Rightarrow> int \<Rightarrow> string \<Rightarrow> (workload \<times> draws) list \<Rightarrow> wl_ctx \<Rightarrow> (workload \<times> tx_request \<times> effect) option \<times> wl_ctx" where
  "try_build e now f [] c = (None, c)"
| "try_build e now f ((w, rnd) # ws) c = (case build e rnd now w f c of
      (Some (r, eff), c') \<Rightarrow> (Some (w, r, eff), c')
    | (None, c') \<Rightarrow> try_build e now f ws c')"

definition free_permit :: "workload \<Rightarrow> string \<Rightarrow> engine \<Rightarrow> engine" where
  "free_permit w a en = (if w = PermitOp
     then en\<lparr>en_ctx := (en_ctx en)\<lparr>permitInFlight := (permitInFlight (en_ctx en))(a := False)\<rparr>\<rparr> else en)"

text \<open>
  What the world answers to one submission: the operations picked, the time, a failure of the signer, the
  answers to the broadcasts, the account's count (asked for after a nonce error), the signed text and its
  hash.
\<close>

record shot =
  sh_picks :: "(workload \<times> draws) list"
  sh_now :: int
  sh_sign_error :: "string option"
  sh_answers :: "nat \<Rightarrow> string option"
  sh_count :: "string + int"
  sh_signed :: string
  sh_hash :: string

definition fireOne :: "wl_env \<Rightarrow> (workload \<Rightarrow> string) \<Rightarrow> jsnum \<Rightarrow> string \<Rightarrow> shot \<Rightarrow> engine \<Rightarrow> engine" where
  "fireOne e name tmo a sh en = (case try_build e (sh_now sh) a (take 8 (sh_picks sh)) (en_ctx en) of
      (None, c) \<Rightarrow> en\<lparr>en_ctx := c\<rparr>
    | (Some (w, r, eff), c) \<Rightarrow> (case sendRaw a (sh_sign_error sh) (sh_answers sh) (sh_count sh) (en_nm en) of (res, nm) \<Rightarrow>
        (let en1 = en\<lparr>en_ctx := c, en_nm := nm\<rparr>;
             fl = \<lparr>fl_submit = sh_now sh, fl_signed = Some (sh_signed sh), fl_deadline = JNaN, fl_rebroadcast = False,
                   fl_from = a, fl_type = name w\<rparr>;
             keep = (\<lambda>n x. (if eff = NoEffect then x
                else x\<lparr>en_pending := AList.update (sh_hash sh) (n, eff) (en_pending x)\<rparr>));
             follow = (\<lambda>x. x\<lparr>en_rc := rc_track tmo (sh_now sh) (sh_hash sh) fl (en_rc x)\<rparr>) in
         case res of
           SentDropped n m \<Rightarrow> free_permit w a ((en_metric (onSoft m) en1)\<lparr>en_nm := nm_settle a nm\<rparr>)
         | SentOk n \<Rightarrow> keep n (follow (en_metric (onSubmit (name w) (sh_now sh)) en1))
         | SentSoft n m \<Rightarrow> keep n (follow (en_metric (\<lambda>x. onSoft m (onSubmit (name w) (sh_now sh) x)) en1))
         | SendThrew msg \<Rightarrow> (let en2 = free_permit w a (en_metric (onSubmitFail msg) (en1\<lparr>en_nm := nm_settle a nm\<rparr>)) in
             en2\<lparr>en_rc := (en_rc en2)\<lparr>err_rows := err_rows (en_rc en2) @ [SubmitRow (name w) msg]\<rparr>\<rparr>))))"

text \<open>The next wallet in turn that is below its cap; the list of wallets is not empty.\<close>

fun next_signer :: "string list \<Rightarrow> jsnum \<Rightarrow> nonce_mgr \<Rightarrow> nat \<Rightarrow> nat \<Rightarrow> string option \<times> nat" where
  "next_signer ws capn nm 0 rr = (None, rr)"
| "next_signer ws capn nm (Suc k) rr = (let s = ws ! (rr mod length ws) in
     if canSend nm s capn then (Some s, Suc rr) else next_signer ws capn nm k (Suc rr))"

definition nextSigner :: "string list \<Rightarrow> jsnum \<Rightarrow> engine \<Rightarrow> string option \<times> engine" where
  "nextSigner ws capn en = (case next_signer ws capn (en_nm en) (length ws) (en_rr en) of (s, rr) \<Rightarrow> (s, en\<lparr>en_rr := rr\<rparr>))"

section \<open>What the collector reports\<close>

text \<open>
  \<open>onSettle\<close> settles the wallet's nonces (its resynchronisation after a timeout is an event of its own);
  \<open>onResolve\<close> takes the pending effect of the hash and runs it on success.
\<close>

definition on_callback :: "wl_env \<Rightarrow> int \<Rightarrow> callback \<Rightarrow> engine \<Rightarrow> engine" where
  "on_callback e now cb en = (case cb of
      Settle a b \<Rightarrow> en\<lparr>en_nm := nm_settle a (en_nm en)\<rparr>
    | Resolve h ok \<Rightarrow> (case map_of (en_pending en) h of None \<Rightarrow> en
        | Some (n, eff) \<Rightarrow> en\<lparr>en_pending := AList.delete h (en_pending en),
            en_ctx := resolve_effect e n now ok eff (en_ctx en)\<rparr>))"

text \<open>A step of the collector, with the callbacks it makes.\<close>

definition with_collector :: "wl_env \<Rightarrow> int \<Rightarrow> (collector \<Rightarrow> collector) \<Rightarrow> engine \<Rightarrow> engine" where
  "with_collector e now step en = (let c = step (en_rc en) in
     foldl (\<lambda>x cb. on_callback e now cb x) (en\<lparr>en_rc := c\<rparr>) (drop (length (callbacks (en_rc en))) (callbacks c)))"

section \<open>Profiles and schedules\<close>

datatype phase = Ramp string jsnum jsnum jsnum | Steady string jsnum jsnum

record endurance_profile =
  ep_concurrency :: jsnum
  ep_phases :: "phase list"

definition concurrency_of :: "env \<Rightarrow> jsnum \<Rightarrow> jsnum" where
  "concurrency_of env d = (case env ''CONCURRENCY'' of None \<Rightarrow> d
     | Some s \<Rightarrow> let n = string_to_number s in if n = JNaN \<or> n = Fin 0 then d else n)"

definition buildProfile :: "string \<Rightarrow> env \<Rightarrow> string + endurance_profile" where
  "buildProfile name env = (let tps = env_num env ''TARGET_TPS'' (Fin 4) in
     if name = ''ENDURANCE'' then Inr \<lparr>ep_concurrency = concurrency_of env (Fin 20),
       ep_phases = [Ramp ''ramp'' (env_num env ''START_TPS'' (Fin 1)) tps (env_num env ''RAMP_SEC'' (Fin 300)),
                    Steady ''steady'' tps (env_num env ''STEADY_SEC'' (Fin 86400))]\<rparr>
     else Inl (''unknown profile '' @ name @ '' (use ENDURANCE)''))"

text \<open>The rate of a phase, a given number of milliseconds after its start; \<open>None\<close> when it is over.\<close>

definition phase_rate :: "phase \<Rightarrow> int \<Rightarrow> jsnum option" where
  "phase_rate ph elapsed = (case ph of
      Ramp nm a b sec \<Rightarrow> (let dur = js_mul sec (Fin 1000) in
        if js_lt (js_of_int elapsed) dur
        then Some (js_add a (js_mul (js_sub b a) (js_div (js_of_int elapsed) dur))) else None)
    | Steady nm r sec \<Rightarrow> if js_lt (js_of_int elapsed) (js_mul sec (Fin 1000)) then Some r else None)"

text \<open>The error rate the monitor shows: failures over submissions since the last snapshot.\<close>

definition error_rate :: "snapshot \<Rightarrow> snapshot \<Rightarrow> jsnum" where
  "error_rate prev s = (let dSub = int (sn_submitted s) - int (sn_submitted prev); dErr = int (sn_failed s) - int (sn_failed prev) in
     if 0 < dSub then js_div (js_of_int dErr) (js_of_int dSub) else Fin 0)"

section \<open>The ramp of the stress runs\<close>

record knee_limits =
  kn_p95Ms :: jsnum
  kn_errRate :: jsnum
  kn_plateau :: jsnum

record ramp_profile =
  startTps :: int
  stepTps :: int
  rp_knee :: knee_limits

definition ramp_profile_A :: "env \<Rightarrow> ramp_profile" where
  "ramp_profile_A env = \<lparr>startTps = 15, stepTps = 30, rp_knee =
     \<lparr>kn_p95Ms = js_mul (Fin 4) (env_num env ''BLOCK_MS'' (Fin 5200)), kn_errRate = Fin (dbl (15 / 100)), kn_plateau = Fin (dbl (7 / 10))\<rparr>\<rparr>"

text \<open>What is measured in one step: the rates over it, the last 95th percentile and the last error rate.\<close>

record ramp_step =
  rs_mined :: jsnum
  rs_submitted :: jsnum
  rs_p95 :: jsnum
  rs_errRate :: jsnum

datatype knee_reason = KneeP95 | KneePlateau | KneeErrors | MaxDuration

definition plateau :: "knee_limits \<Rightarrow> int \<Rightarrow> ramp_step \<Rightarrow> bool" where
  "plateau k target s = (js_le (js_mul (js_of_int target) (Fin (dbl (8 / 10)))) (rs_submitted s) \<and>
     js_lt (rs_mined s) (js_mul (rs_submitted s) (kn_plateau k)))"

definition pressure :: "knee_limits \<Rightarrow> int \<Rightarrow> ramp_step \<Rightarrow> bool" where
  "pressure k target s = (js_lt (kn_p95Ms k) (rs_p95 s) \<or> js_lt (kn_errRate k) (rs_errRate s) \<or> plateau k target s)"

definition knee_reason :: "knee_limits \<Rightarrow> int \<Rightarrow> ramp_step \<Rightarrow> knee_reason" where
  "knee_reason k target s = (if js_lt (kn_p95Ms k) (rs_p95 s) then KneeP95
     else if plateau k target s then KneePlateau else KneeErrors)"

text \<open>
  The ramp over the steps made until its time is up: the target of the knee, why, and the rates. The
  second step under pressure in a row is the knee.
\<close>

fun run_ramp :: "ramp_profile \<Rightarrow> int \<Rightarrow> nat \<Rightarrow> jsnum \<Rightarrow> ramp_step list \<Rightarrow> int \<times> knee_reason \<times> jsnum \<times> jsnum" where
  "run_ramp p target bad best [] = (target, MaxDuration, best, best)"
| "run_ramp p target bad best (s # ss) = (let t = target + stepTps p; b = js_max best (rs_mined s) in
     if pressure (rp_knee p) t s
     then (if 2 \<le> Suc bad then (t, knee_reason (rp_knee p) t s, rs_mined s, b) else run_ramp p t (Suc bad) b ss)
     else run_ramp p t 0 b ss)"

definition runRamp :: "ramp_profile \<Rightarrow> ramp_step list \<Rightarrow> int \<times> knee_reason \<times> jsnum \<times> jsnum" where
  "runRamp p ss = run_ramp p (startTps p) 0 (Fin 0) ss"

end
