(* ===== verification/Collector_Properties.thy ===== *)
theory Collector_Properties
  imports Receipt_Collector
begin

text \<open>
  The receipt collector of the endurance run over all interleavings of its loops: every tracked transaction
  is accounted for exactly once, and every block is scanned.
\<close>

section \<open>Runs\<close>

text \<open>The loops interleave between their steps: a run is any sequence of them.\<close>

datatype collector_event =
    CTrack int string flight
  | CTip int
  | CBlock int "string list option list"
  | CReceipt "int option list" string
  | CSweep int

fun collect :: "jsnum \<Rightarrow> collector_event \<Rightarrow> collector \<Rightarrow> collector" where
  "collect tmo (CTrack now h m) c = rc_track tmo now h m c"
| "collect tmo (CTip bn) c = rc_tip bn c"
| "collect tmo (CBlock now answers) c = snd (rc_advance now answers c)"
| "collect tmo (CReceipt answers reason) c = rc_receipt answers reason c"
| "collect tmo (CSweep now) c = rc_sweep tmo now c"

fun collector_run :: "jsnum \<Rightarrow> collector_event list \<Rightarrow> collector \<Rightarrow> collector" where
  "collector_run tmo [] c = c"
| "collector_run tmo (ev # evs) c = collector_run tmo evs (collect tmo ev c)"

fun tracked :: "collector_event list \<Rightarrow> string list" where
  "tracked [] = []"
| "tracked (CTrack now h m # evs) = h # tracked evs"
| "tracked (_ # evs) = tracked evs"

section \<open>Accounts\<close>

definition settles :: "collector \<Rightarrow> nat" where
  "settles c = length (filter (\<lambda>e. case e of Settle a b \<Rightarrow> True | Resolve h b \<Rightarrow> False) (callbacks c))"

definition accounts :: "string set \<Rightarrow> collector \<Rightarrow> bool" where
  "accounts ts c = (distinct (map fst (flights c)) \<and> distinct (map row_hash (tx_rows c)) \<and>
     set (map row_hash (tx_rows c)) \<inter> set (map fst (flights c)) = {} \<and>
     set (map row_hash (tx_rows c)) \<union> set (map fst (flights c)) = ts \<and>
     mined (rc_metrics c) = length (filter (\<lambda>r. row_status r = None) (tx_rows c)) \<and>
     mined (rc_metrics c) + timedOut (rc_metrics c) = length (tx_rows c) \<and> settles c = length (tx_rows c))"

lemma accounts_track:
  assumes "accounts ts c" "h \<notin> ts"
  shows "accounts (insert h ts) (rc_track tmo now h m c)"
  using assms by (auto simp: accounts_def rc_track_def settles_def distinct_update dom_update)

text \<open>A flight that ends with a row and one settlement keeps the accounts.\<close>

lemma accounts_finish:
  assumes "accounts ts c" "h \<in> set (map fst (flights c))"
    "flights c' = AList.delete h (flights c)" "tx_rows c' = tx_rows c @ [r]" "row_hash r = h"
    "settles c' = Suc (settles c)"
    "mined (rc_metrics c') = mined (rc_metrics c) + (if row_status r = None then 1 else 0)"
    "timedOut (rc_metrics c') = timedOut (rc_metrics c) + (if row_status r = None then 0 else 1)"
  shows "accounts ts c'"
proof -
  have d: "distinct (map fst (AList.delete h (flights c)))"
    using assms(1) by (simp add: accounts_def distinct_delete)
  have "h \<notin> set (map row_hash (tx_rows c))" "h \<in> ts"
    using assms(1,2) unfolding accounts_def by blast+
  then show ?thesis
    using assms d unfolding accounts_def assms(3,4) set_map keys_delete by auto
qed

lemma in_flight_key: "map_of (flights c) h = Some m \<Longrightarrow> h \<in> set (map fst (flights c))"
  by (auto dest: map_of_SomeD intro: rev_image_eqI)

lemma accounts_mine: "accounts ts c \<Longrightarrow> accounts ts (rc_mine now n h c)"
proof (cases "map_of (flights c) h")
  case (Some m)
  assume a: "accounts ts c"
  show ?thesis
    by (rule accounts_finish [OF a in_flight_key [OF Some], where r =
        "\<lparr>row_hash = h, row_type = fl_type m, row_status = None, row_latency = now - fl_submit m\<rparr>"])
      (simp_all add: rc_mine_def Some settles_def onMined_def Let_def)
qed (simp add: rc_mine_def)

lemma accounts_mines: "accounts ts c \<Longrightarrow> accounts ts (rc_mines now n hs c)"
  by (induction hs arbitrary: c) (auto simp: accounts_mine)

lemma accounts_frame:
  "accounts ts c \<Longrightarrow> flights c' = flights c \<Longrightarrow> tx_rows c' = tx_rows c \<Longrightarrow> settles c' = settles c \<Longrightarrow>
     mined (rc_metrics c') = mined (rc_metrics c) \<Longrightarrow> timedOut (rc_metrics c') = timedOut (rc_metrics c) \<Longrightarrow> accounts ts c'"
  by (simp add: accounts_def)

lemma accounts_advance: "accounts ts c \<Longrightarrow> accounts ts (snd (rc_advance now answers c))"
proof (cases "first_answer answers")
  case (Some hs)
  assume "accounts ts c"
  then have "accounts ts (c\<lparr>block_rows := block_rows c @ [lastBlock c + 1]\<rparr>)"
    by (rule accounts_frame) (simp_all add: settles_def)
  then have "accounts ts (rc_mines now (lastBlock c + 1) hs (c\<lparr>block_rows := block_rows c @ [lastBlock c + 1]\<rparr>))"
    by (rule accounts_mines)
  then show ?thesis
    by (rule accounts_frame) (simp_all add: rc_advance_def rc_block_def Some settles_def)
qed (simp add: rc_advance_def rc_block_def)

lemma accounts_receipt: "accounts ts c \<Longrightarrow> accounts ts (rc_receipt answers reason c)"
  by (erule accounts_frame)
    (auto simp: rc_receipt_def settles_def onRevert_def Let_def split: list.split option.split)

lemma accounts_expire:
  assumes "accounts ts c" "h \<in> set (map fst (flights c))"
  shows "accounts ts (rc_expire tmo now (h, m) c)"
proof -
  have up: "accounts ts (rc_give_up now h m c)"
    by (rule accounts_finish [OF assms, where r =
        "\<lparr>row_hash = h, row_type = fl_type m, row_status = Some ''timeout'', row_latency = now - fl_submit m\<rparr>"]) (simp_all add: rc_give_up_def settles_def onTimeout_def)
  have "accounts ts (c\<lparr>flights := AList.update h m' (flights c), rebroadcasts := r, sent_again := s, err_rows := e\<rparr>)" for m' r s e
    using assms by (auto simp: accounts_def settles_def distinct_update dom_update)
  with up assms show ?thesis by (auto simp: rc_expire_def split: option.split)
qed

lemma expire_keys: "set (map fst (flights c)) - {h} \<subseteq> set (map fst (flights (rc_expire tmo now (h, m) c)))"
  unfolding rc_expire_def rc_give_up_def
  by (auto split: option.split simp: keys_delete dom_update)

lemma accounts_sweeps:
  assumes "accounts ts c" "distinct (map fst hms)" "set (map fst hms) \<subseteq> set (map fst (flights c))"
  shows "accounts ts (foldl (\<lambda>c hm. rc_expire tmo now hm c) c hms)"
  using assms
proof (induction hms arbitrary: c)
  case (Cons hm hms)
  obtain h m where hm: "hm = (h, m)" by (cases hm)
  have "accounts ts (rc_expire tmo now (h, m) c)"
    using Cons.prems by (intro accounts_expire) (auto simp: hm)
  moreover have "set (map fst hms) \<subseteq> set (map fst (flights (rc_expire tmo now (h, m) c)))"
  proof -
    have "h \<notin> set (map fst hms)" "set (map fst hms) \<subseteq> set (map fst (flights c))"
      using Cons.prems(2,3) by (simp_all add: hm)
    then have "set (map fst hms) \<subseteq> set (map fst (flights c)) - {h}" by blast
    then show ?thesis using expire_keys by (rule subset_trans)
  qed
  ultimately show ?case using Cons.IH Cons.prems(2) by (simp add: hm)
qed simp

lemma accounts_event:
  assumes "accounts ts c" "\<And>now h m. ev = CTrack now h m \<Longrightarrow> h \<notin> ts"
  shows "accounts (set (tracked [ev]) \<union> ts) (collect tmo ev c)"
proof (cases ev)
  case (CTrack now h m)
  then show ?thesis using accounts_track assms by simp
next
  case (CTip bn)
  have "accounts ts (rc_tip bn c)" using assms(1) by (rule accounts_frame) (simp_all add: rc_tip_def settles_def)
  then show ?thesis by (simp add: CTip)
next
  case (CSweep now)
  have "accounts ts (rc_sweep tmo now c)" unfolding rc_sweep_def
    by (rule accounts_sweeps [OF assms(1)]) (use assms(1) in \<open>auto simp: accounts_def\<close>)
  then show ?thesis by (simp add: CSweep)
qed (use assms(1) in \<open>simp_all add: accounts_advance accounts_receipt\<close>)

lemma tracked_Cons: "tracked (ev # evs) = tracked [ev] @ tracked evs"
  by (cases ev) simp_all

lemma accounts_run:
  assumes "accounts ts c" "distinct (tracked evs)" "set (tracked evs) \<inter> ts = {}"
  shows "accounts (set (tracked evs) \<union> ts) (collector_run tmo evs c)"
  using assms
proof (induction evs arbitrary: c ts)
  case (Cons ev evs)
  have tr: "set (tracked (ev # evs)) = set (tracked [ev]) \<union> set (tracked evs)"
      "set (tracked [ev]) \<inter> set (tracked evs) = {}" "distinct (tracked evs)"
    using Cons.prems(2) by (simp_all add: tracked_Cons [of ev evs])
  have "accounts (set (tracked [ev]) \<union> ts) (collect tmo ev c)"
    using Cons.prems(3) tr(1) by (intro accounts_event [OF Cons.prems(1)]) auto
  then have "accounts (set (tracked evs) \<union> (set (tracked [ev]) \<union> ts)) (collector_run tmo evs (collect tmo ev c))"
    using Cons.prems(3) tr by (intro Cons.IH) auto
  then show ?case by (simp add: tr(1) Un_ac)
qed simp

text \<open>
  C11. Every tracked transaction is accounted for exactly once: in every interleaving of the loops,
  whatever the providers answer, it is still in flight or has one row of the log, mined or timed out, and
  one settlement; the counters are the numbers of those rows.
\<close>

theorem collector_accounts_for_all:
  assumes "distinct (tracked evs)" "collector_run tmo evs new_collector = c"
  shows "distinct (map row_hash (tx_rows c) @ map fst (flights c)) \<and>
    set (map row_hash (tx_rows c) @ map fst (flights c)) = set (tracked evs) \<and>
    mined (rc_metrics c) + timedOut (rc_metrics c) + length (flights c) = length (tracked evs) \<and>
    mined (rc_metrics c) = length (filter (\<lambda>r. row_status r = None) (tx_rows c)) \<and>
    settles c = length (tx_rows c)"
proof -
  have "accounts {} new_collector" by (simp add: accounts_def new_collector_def new_metrics_def settles_def)
  then have a: "accounts (set (tracked evs)) c"
    using accounts_run [of "{}" new_collector evs tmo] assms by simp
  then have d: "distinct (map row_hash (tx_rows c) @ map fst (flights c))"
    and s: "set (map row_hash (tx_rows c) @ map fst (flights c)) = set (tracked evs)"
    by (auto simp: accounts_def)
  have "length (tx_rows c) + length (flights c) = length (tracked evs)"
    using distinct_card [OF d] distinct_card [OF assms(1)] s by simp
  with a d s show ?thesis by (simp add: accounts_def)
qed

definition sample_flight :: flight where
  "sample_flight = \<lparr>fl_submit = 1000, fl_signed = Some ''blob'', fl_deadline = JNaN, fl_rebroadcast = False,
     fl_from = ''w'', fl_type = ''nativeTransfer''\<rparr>"

definition sample_collection :: "collector_event list" where
  "sample_collection = [CTip 8, CTrack 1000 ''h1'' sample_flight, CTrack 1000 ''h2'' sample_flight, CTrack 1000 ''h3'' sample_flight,
     CBlock 3000 [None, Some [''h1'', ''x'']], CReceipt [Some 1] [], CSweep 5000, CBlock 5500 [None], CBlock 6000 [Some [''h2'']]]"

lemma sample_collection_result:
  "let c = collector_run (Fin 2000) sample_collection new_collector in
     (mined (rc_metrics c), timedOut (rc_metrics c), block_rows c, lastBlock c) = (2, 0, [8, 9], 9)"
  by code_simp

lemma collector_accounts_for_all_witness:
  "mined (rc_metrics (collector_run (Fin 2000) sample_collection new_collector)) = 2 \<and>
   timedOut (rc_metrics (collector_run (Fin 2000) sample_collection new_collector)) = 0 \<and>
   length (flights (collector_run (Fin 2000) sample_collection new_collector)) = 1"
proof -
  have t: "distinct (tracked sample_collection)" "length (tracked sample_collection) = 3" by code_simp+
  have "mined (rc_metrics (collector_run (Fin 2000) sample_collection new_collector)) = 2"
    "timedOut (rc_metrics (collector_run (Fin 2000) sample_collection new_collector)) = 0"
    using sample_collection_result by (simp_all add: Let_def)
  with collector_accounts_for_all [OF t(1) refl, of "Fin 2000"] t(2) show ?thesis by simp
qed

section \<open>The blocks that are scanned\<close>

text \<open>The blocks scanned so far are the ones up to \<open>lastBlock\<close>, without a gap.\<close>

definition scan_inv :: "collector \<Rightarrow> bool" where
  "scan_inv c = (0 \<le> lastBlock c \<and> (lastBlock c = 0 \<longrightarrow> block_rows c = []) \<and>
     (\<exists>b. b \<le> lastBlock c \<and> block_rows c = [b + 1..lastBlock c]))"

lemma mines_blocks: "block_rows (rc_mines now n hs c) = block_rows c \<and> lastBlock (rc_mines now n hs c) = lastBlock c"
  by (induction hs arbitrary: c) (auto simp: rc_mine_def split: option.split)

lemma scan_inv_frame: "scan_inv c \<Longrightarrow> block_rows c' = block_rows c \<Longrightarrow> lastBlock c' = lastBlock c \<Longrightarrow> scan_inv c'"
  by (simp add: scan_inv_def)

lemma expire_blocks: "block_rows (rc_expire tmo now hm c) = block_rows c \<and> lastBlock (rc_expire tmo now hm c) = lastBlock c"
  by (auto simp: rc_expire_def rc_give_up_def split: prod.split option.split)

lemma sweep_blocks: "block_rows (rc_sweep tmo now c) = block_rows c \<and> lastBlock (rc_sweep tmo now c) = lastBlock c"
proof -
  have "block_rows (foldl (\<lambda>c hm. rc_expire tmo now hm c) c hms) = block_rows c \<and>
      lastBlock (foldl (\<lambda>c hm. rc_expire tmo now hm c) c hms) = lastBlock c" for hms
    by (induction hms arbitrary: c) (simp_all add: expire_blocks)
  then show ?thesis by (simp add: rc_sweep_def)
qed

lemma receipt_blocks: "block_rows (rc_receipt a r c) = block_rows c \<and> lastBlock (rc_receipt a r c) = lastBlock c"
  by (auto simp: rc_receipt_def Let_def split: list.split option.split)

lemma scan_inv_advance:
  assumes "scan_inv c"
  shows "scan_inv (snd (rc_advance now answers c))"
proof (cases "first_answer answers")
  case (Some hs)
  obtain b where b: "b \<le> lastBlock c" "block_rows c = [b + 1..lastBlock c]" "0 \<le> lastBlock c"
    using assms by (auto simp: scan_inv_def)
  have "[b + 1..lastBlock c + 1] = [b + 1..lastBlock c] @ [lastBlock c + 1]"
    using b(1) upto_rec2 [of "b + 1" "lastBlock c + 1"] by simp
  then show ?thesis using b
    by (auto simp: scan_inv_def rc_advance_def rc_block_def Some mines_blocks intro!: exI [of _ b])
qed (use assms in \<open>simp add: rc_advance_def rc_block_def\<close>)

lemma scan_inv_tip: "scan_inv c \<Longrightarrow> 1 \<le> bn \<Longrightarrow> scan_inv (rc_tip bn c)"
  by (auto simp: scan_inv_def rc_tip_def intro: exI [of _ "bn - 1"])

text \<open>
  C20. The newer collector scans every block: in every interleaving, with fetches failing anywhere, the
  blocks it has scanned are consecutive and end with the last one it counts as done.
\<close>

theorem blocks_scanned_without_gaps:
  assumes "\<forall>bn. CTip bn \<in> set evs \<longrightarrow> 1 \<le> bn" "block_rows (collector_run tmo evs new_collector) \<noteq> []"
  shows "block_rows (collector_run tmo evs new_collector) =
    [hd (block_rows (collector_run tmo evs new_collector))..lastBlock (collector_run tmo evs new_collector)]"
proof -
  have "scan_inv c \<Longrightarrow> scan_inv (collector_run tmo evs c)" for c
    using assms(1)
  proof (induction evs arbitrary: c)
    case (Cons ev evs)
    have "scan_inv (collect tmo ev c)"
      by (cases ev)
        (use Cons.prems in \<open>auto intro: scan_inv_advance scan_inv_tip scan_inv_frame
           simp: sweep_blocks receipt_blocks rc_track_def\<close>)
    then show ?case using Cons by simp
  qed simp
  moreover have "scan_inv new_collector" by (auto simp: scan_inv_def new_collector_def)
  ultimately have "scan_inv (collector_run tmo evs new_collector)" .
  then obtain b where b: "block_rows (collector_run tmo evs new_collector) = [b + 1..lastBlock (collector_run tmo evs new_collector)]"
    by (auto simp: scan_inv_def)
  have "b + 1 \<le> lastBlock (collector_run tmo evs new_collector)" using assms(2) b by auto
  then show ?thesis using b by (simp add: upto_rec1)
qed

lemma blocks_scanned_without_gaps_witness:
  "block_rows (collector_run (Fin 2000) sample_collection new_collector) = [8..lastBlock (collector_run (Fin 2000) sample_collection new_collector)] \<and>
   lastBlock (collector_run (Fin 2000) sample_collection new_collector) = 9"
proof -
  have b: "block_rows (collector_run (Fin 2000) sample_collection new_collector) = [8, 9]"
    "lastBlock (collector_run (Fin 2000) sample_collection new_collector) = 9"
    using sample_collection_result by (simp_all add: Let_def)
  have "\<forall>bn. CTip bn \<in> set sample_collection \<longrightarrow> 1 \<le> bn" by (auto simp: sample_collection_def)
  with blocks_scanned_without_gaps [of sample_collection "Fin 2000"] b show ?thesis by simp
qed

end
