(* ===== verification/Gating.thy ===== *)
theory Gating
  imports Load_Engine Collector_Properties
begin

text \<open>
  The confirmation gate of the endurance engine: an operation that takes from a balance is built only
  against amounts whose deposits are known to have succeeded, so it cannot fail for want of balance.
\<close>

section \<open>Accounts in the bookkeeping\<close>

fun debits :: "workload \<Rightarrow> account_kind option" where
  "debits UnwrapGMB = Some Wgmb"
| "debits NativeRemoveLiq = Some Nlp"
| "debits EcoWithdraw = Some Eco"
| "debits VaultWithdraw = Some Vault"
| "debits StakeWithdraw = Some Stake"
| "debits RwdUnstake = Some Rwd"
| "debits _ = None"

fun deposits :: "workload \<Rightarrow> account_kind option" where
  "deposits WrapGMB = Some Wgmb"
| "deposits NativeAddLiq = Some Nlp"
| "deposits EcoDeposit = Some Eco"
| "deposits VaultDeposit = Some Vault"
| "deposits VaultMint = Some Vault"
| "deposits StakeDeposit = Some Stake"
| "deposits RwdStake = Some Rwd"
| "deposits _ = None"

definition upd_credit :: "account_kind \<Rightarrow> string \<Rightarrow> int \<Rightarrow> (account_kind \<Rightarrow> string \<Rightarrow> int) \<Rightarrow> account_kind \<Rightarrow> string \<Rightarrow> int" where
  "upd_credit k f d cr = cr(k := (cr k)(f := cr k f + d))"

lemma upd_credit_apply: "upd_credit k f d cr k' f' = cr k' f' + (if k = k' \<and> f = f' then d else 0)"
  by (simp add: upd_credit_def)

lemma debit_credits:
  "debit k f r c = (x, c') \<Longrightarrow> (case x of None \<Rightarrow> c' = c
     | Some (r', eff) \<Rightarrow> r' = r \<and> eff = NoEffect \<and> debit_amount k \<le> credits c k f \<and> credits c' = upd_credit k f (- debit_amount k) (credits c))"
  by (auto simp: debit_def upd_credit_def split: if_splits)

lemma take_owned_credits: "credits (snd (take_owned q f r c)) = credits c"
  by (simp add: take_owned_def split: list.split)

lemma call_child_credits: "credits (snd (call_child k f d c)) = credits c"
  by (simp add: call_child_def ready_def split: list.split)

lemma on_auction_credits: "credits (snd (on_auction P u r c)) = credits c"
  by (simp add: on_auction_def split: option.split)

lemma on_proposal_credits: "credits (snd (on_proposal P u r c)) = credits c"
  by (simp add: on_proposal_def split: option.split)

lemmas helper_credits = take_owned_credits call_child_credits on_auction_credits on_proposal_credits

text \<open>Every operation but the six withdrawals leaves the balances alone.\<close>

lemma build_credits_same:
  assumes "debits w = None"
  shows "credits (snd (build e rnd now w f c)) = credits c"
  using assms
  by (cases w) (simp_all add: helper_credits ready_def Let_def split: prod.split option.split list.split)

lemma build_credits_debit:
  assumes "debits w = Some k" "build e rnd now w f c = (x, c')"
  shows "case x of None \<Rightarrow> credits c' = credits c
    | Some (r, eff) \<Rightarrow> eff = NoEffect \<and> debit_amount k \<le> credits c k f \<and> credits c' = upd_credit k f (- debit_amount k) (credits c)"
proof -
  obtain r where "build e rnd now w f c = debit k f r c"
    using assms(1) by (cases w) auto
  then show ?thesis using debit_credits [of k f r c x c'] assms(2) by (auto split: option.splits prod.splits)
qed

text \<open>The effects that add to a balance come from the deposits, with their amount and wallet.\<close>

lemmas helper_defs = take_owned_def call_child_def on_auction_def on_proposal_def debit_def ready_def

lemma build_effect:
  assumes "build e rnd now w f c = (Some (r, CreditTo k f' amt), c')"
  shows "f' = f \<and> deposits w = Some k \<and> amt = credit_amount k"
  using assms
  by (cases w) (auto simp: helper_defs Let_def split: prod.splits option.splits list.splits if_splits)

lemma try_build_account:
  assumes "try_build e now f ws c = (x, c')"
  shows "case x of None \<Rightarrow> credits c' = credits c
    | Some (w, r, eff) \<Rightarrow> (case debits w of None \<Rightarrow> credits c' = credits c
        | Some k \<Rightarrow> debit_amount k \<le> credits c k f \<and> credits c' = upd_credit k f (- debit_amount k) (credits c)) \<and>
        (\<forall>k f' amt. eff = CreditTo k f' amt \<longrightarrow> f' = f \<and> deposits w = Some k \<and> amt = credit_amount k)"
  using assms
proof (induction e now f ws c rule: try_build.induct)
  case (2 e now f w rnd ws c)
  obtain y c1 where b: "build e rnd now w f c = (y, c1)" by fastforce
  show ?case
  proof (cases y)
    case None
    have eq: "credits c1 = credits c"
      using build_credits_same [of w e rnd now f c] build_credits_debit [of w _ e rnd now f c None c1] b None
      by (cases "debits w") auto
    show ?thesis using "2.IH" [OF b [symmetric] None] "2.prems" b None unfolding eq by simp
  next
    case (Some reff)
    obtain r eff where re: "reff = (r, eff)" by fastforce
    have x: "x = Some (w, r, eff)" "c' = c1" using "2.prems" b Some re by auto
    have b': "build e rnd now w f c = (Some (r, eff), c1)" using b Some re by simp
    have "case debits w of None \<Rightarrow> credits c1 = credits c
        | Some k \<Rightarrow> debit_amount k \<le> credits c k f \<and> credits c1 = upd_credit k f (- debit_amount k) (credits c)"
      using build_credits_same [of w e rnd now f c] build_credits_debit [OF _ b'] b'
      by (cases "debits w") auto
    then show ?thesis using build_effect [of e rnd now w f c r] b' unfolding x by auto
  qed
qed simp

lemma apply_credits:
  "credits (apply_effect e n now eff c) = (case eff of CreditTo k f amt \<Rightarrow> upd_credit k f amt (credits c) | _ \<Rightarrow> credits c)"
  by (cases eff) (simp_all add: push_owned_def upd_credit_def split: prod.split)

lemma resolve_credits:
  "credits (resolve_effect e n now ok eff c) = (case eff of CreditTo k f amt \<Rightarrow>
     if ok then upd_credit k f amt (credits c) else credits c | _ \<Rightarrow> credits c)"
  by (cases eff) (simp_all add: resolve_effect_def Let_def push_owned_def upd_credit_def split: prod.split)

section \<open>The engine and the chain\<close>

text \<open>
  A run of the engine beside the chain: \<open>g_sent\<close> are the transactions that were signed, whatever became
  of them, and \<open>g_done\<close> those the chain has executed with success, in any order and at any time. A
  receipt with status 1 is one of those. Hashes of different transactions differ.
\<close>

record gate =
  g_en :: engine
  g_sent :: "(string \<times> string \<times> workload) list"
  g_done :: "string list"

definition gate_start :: "wl_ctx \<Rightarrow> nonce_mgr \<Rightarrow> gate" where
  "gate_start c nm = \<lparr>g_en = \<lparr>en_ctx = c, en_nm = nm, en_rc = new_collector, en_pending = [], en_rr = 0\<rparr>, g_sent = [], g_done = []\<rparr>"

definition truthful :: "gate \<Rightarrow> (collector \<Rightarrow> collector) \<Rightarrow> bool" where
  "truthful g step = (\<forall>h. Resolve h True \<in> set (drop (length (callbacks (en_rc (g_en g)))) (callbacks (step (en_rc (g_en g))))) \<longrightarrow> h \<in> set (g_done g))"

definition sent_by :: "wl_env \<Rightarrow> string \<Rightarrow> shot \<Rightarrow> engine \<Rightarrow> (string \<times> string \<times> workload) list" where
  "sent_by e a sh en = (case fst (try_build e (sh_now sh) a (take 8 (sh_picks sh)) (en_ctx en)) of
     None \<Rightarrow> [] | Some (w, r, eff) \<Rightarrow> [(sh_hash sh, a, w)])"

inductive gate_run :: "wl_env \<Rightarrow> (workload \<Rightarrow> string) \<Rightarrow> jsnum \<Rightarrow> gate \<Rightarrow> bool" for e name tmo where
  start: "credits c = (\<lambda>k f. 0) \<Longrightarrow> gate_run e name tmo (gate_start c nm)"
| fire: "gate_run e name tmo g \<Longrightarrow> sh_hash sh \<notin> fst ` set (g_sent g) \<Longrightarrow>
    gate_run e name tmo (g\<lparr>g_en := fireOne e name tmo a sh (g_en g), g_sent := g_sent g @ sent_by e a sh (g_en g)\<rparr>)"
| execute: "gate_run e name tmo g \<Longrightarrow> h \<in> fst ` set (g_sent g) \<Longrightarrow> gate_run e name tmo (g\<lparr>g_done := h # g_done g\<rparr>)"
| collector: "gate_run e name tmo g \<Longrightarrow> truthful g (collect tmo ev) \<Longrightarrow>
    gate_run e name tmo (g\<lparr>g_en := with_collector e now (collect tmo ev) (g_en g)\<rparr>)"
| resync: "gate_run e name tmo g \<Longrightarrow>
    gate_run e name tmo (g\<lparr>g_en := (g_en g)\<lparr>en_nm := snd (nm_resync a r (en_nm (g_en g)))\<rparr>\<rparr>)"
| permit: "gate_run e name tmo g \<Longrightarrow>
    gate_run e name tmo (g\<lparr>g_en := (g_en g)\<lparr>en_ctx := resyncPermitNonce a ans (en_ctx (g_en g))\<rparr>\<rparr>)"

text \<open>What the chain has added to a wallet's balance and taken from it.\<close>

definition deposited :: "account_kind \<Rightarrow> string \<Rightarrow> string set \<Rightarrow> (string \<times> string \<times> workload) list \<Rightarrow> int" where
  "deposited k f D sent = credit_amount k * int (length (filter (\<lambda>(h, a, w). a = f \<and> deposits w = Some k \<and> h \<in> D) sent))"

definition withdrawn :: "account_kind \<Rightarrow> string \<Rightarrow> string set \<Rightarrow> (string \<times> string \<times> workload) list \<Rightarrow> int" where
  "withdrawn k f D sent = debit_amount k * int (length (filter (\<lambda>(h, a, w). a = f \<and> debits w = Some k \<and> h \<in> D) sent))"

definition chain_balance :: "account_kind \<Rightarrow> string \<Rightarrow> gate \<Rightarrow> int" where
  "chain_balance k f g = deposited k f (set (g_done g)) (g_sent g) - withdrawn k f (set (g_done g)) (g_sent g)"

text \<open>
  The invariant: \<open>A\<close> are the deposits whose effect was applied, \<open>D\<close> the transactions executed. An effect
  that is pending was not applied, and one that adds to a balance belongs to a deposit that was sent; what
  a balance shows and what was taken from it is covered by the applied deposits.
\<close>

definition pending_inv :: "string set \<Rightarrow> string set \<Rightarrow> (string \<times> string \<times> workload) list \<Rightarrow> (string, int \<times> effect) jsmap \<Rightarrow> bool" where
  "pending_inv A D sent p = (distinct (map fst sent) \<and> A \<subseteq> D \<and> D \<subseteq> fst ` set sent \<and>
     (\<forall>h \<in> A. map_of p h = None) \<and>
     (\<forall>h n k f' amt. map_of p h = Some (n, CreditTo k f' amt) \<longrightarrow>
        (\<exists>w. (h, f', w) \<in> set sent \<and> deposits w = Some k \<and> amt = credit_amount k)))"

definition balance_inv :: "string set \<Rightarrow> (string \<times> string \<times> workload) list \<Rightarrow> (account_kind \<Rightarrow> string \<Rightarrow> int) \<Rightarrow> bool" where
  "balance_inv A sent cr = (\<forall>k f. 0 \<le> cr k f \<and> cr k f + withdrawn k f UNIV sent \<le> deposited k f A sent)"

definition gate_inv :: "string set \<Rightarrow> string set \<Rightarrow> (string \<times> string \<times> workload) list \<Rightarrow> engine \<Rightarrow> bool" where
  "gate_inv A D sent en = (pending_inv A D sent (en_pending en) \<and> balance_inv A sent (credits (en_ctx en)))"

lemma deposited_mono: "A \<subseteq> D \<Longrightarrow> deposited k f A sent \<le> deposited k f D sent"
proof -
  assume "A \<subseteq> D"
  then have "length (filter (\<lambda>(h, a, w). a = f \<and> deposits w = Some k \<and> h \<in> A) sent) \<le>
      length (filter (\<lambda>(h, a, w). a = f \<and> deposits w = Some k \<and> h \<in> D) sent)"
    by (induction sent) auto
  then show ?thesis by (cases k) (simp_all add: deposited_def)
qed

lemma deposited_insert:
  assumes "distinct (map fst sent)" "(h, f, w) \<in> set sent" "deposits w = Some k" "h \<notin> A"
  shows "deposited k' f' (insert h A) sent = deposited k' f' A sent + (if k' = k \<and> f' = f then credit_amount k else 0)"
proof -
  have other: "h \<notin> fst ` set xs \<Longrightarrow> filter (\<lambda>(j, a, w). a = f' \<and> deposits w = Some k' \<and> j \<in> insert h A) xs =
      filter (\<lambda>(j, a, w). a = f' \<and> deposits w = Some k' \<and> j \<in> A) xs" for xs :: "(string \<times> string \<times> workload) list"
    by (intro filter_cong) (auto simp: image_iff)
  obtain xs ys where s: "sent = xs @ (h, f, w) # ys" using assms(2) by (meson split_list)
  have "h \<notin> fst ` set xs" "h \<notin> fst ` set ys" using assms(1) by (auto simp: s)
  note fs = other [OF this(1)] other [OF this(2)]
  show ?thesis unfolding deposited_def s filter_append filter.simps fs
    using assms(3,4) by (simp add: algebra_simps)
qed

lemma withdrawn_append: "withdrawn k f D (xs @ ys) = withdrawn k f D xs + withdrawn k f D ys"
  by (simp add: withdrawn_def algebra_simps)

lemma deposited_append: "deposited k f D (xs @ ys) = deposited k f D xs + deposited k f D ys"
  by (simp add: deposited_def algebra_simps)

text \<open>One callback of the collector.\<close>

lemma pending_delete: "pending_inv A D sent p \<Longrightarrow> pending_inv A D sent (AList.delete h p)"
  by (simp add: pending_inv_def js_map.get_del)

lemma pending_apply: "pending_inv A D sent p \<Longrightarrow> h \<in> D \<Longrightarrow> pending_inv (insert h A) D sent (AList.delete h p)"
  by (simp add: pending_inv_def js_map.get_del)

lemma credit_nonneg: "0 \<le> credit_amount k" "0 < debit_amount k"
  by (cases k; simp)+

lemma balance_apply:
  assumes "balance_inv A sent cr" "distinct (map fst sent)" "(h, f, w) \<in> set sent" "deposits w = Some k" "h \<notin> A"
  shows "balance_inv (insert h A) sent (upd_credit k f (credit_amount k) cr)"
  unfolding balance_inv_def
proof (intro allI)
  fix k' f'
  have "0 \<le> cr k' f'" "cr k' f' + withdrawn k' f' UNIV sent \<le> deposited k' f' A sent"
    using assms(1) by (simp_all add: balance_inv_def)
  then show "0 \<le> upd_credit k f (credit_amount k) cr k' f' \<and>
      upd_credit k f (credit_amount k) cr k' f' + withdrawn k' f' UNIV sent \<le> deposited k' f' (insert h A) sent"
    using credit_nonneg(1) [of k] unfolding upd_credit_apply deposited_insert [OF assms(2-5)] by auto
qed

lemma gate_inv_callback:
  assumes "gate_inv A D sent en" "\<And>h. cb = Resolve h True \<Longrightarrow> h \<in> D"
  shows "\<exists>A'. gate_inv A' D sent (on_callback e now cb en)"
proof (cases cb)
  case (Settle a b)
  then show ?thesis using assms(1) by (auto simp: on_callback_def gate_inv_def)
next
  case (Resolve h ok)
  have i: "pending_inv A D sent (en_pending en)" "balance_inv A sent (credits (en_ctx en))"
    using assms(1) by (simp_all add: gate_inv_def)
  show ?thesis
  proof (cases "map_of (en_pending en) h")
    case None
    then show ?thesis using assms(1) by (auto simp: on_callback_def Resolve)
  next
    case (Some p)
    obtain n eff where p: "p = (n, eff)" by fastforce
    have en: "gate_inv A' D sent (on_callback e now cb en) \<longleftrightarrow> pending_inv A' D sent (AList.delete h (en_pending en)) \<and>
        balance_inv A' sent (credits (resolve_effect e n now ok eff (en_ctx en)))" for A'
      by (simp add: on_callback_def Resolve Some p gate_inv_def)
    show ?thesis
    proof (cases "\<exists>k f amt. eff = CreditTo k f amt \<and> ok")
      case False
      then have "credits (resolve_effect e n now ok eff (en_ctx en)) = credits (en_ctx en)"
        by (auto simp: resolve_credits split: effect.split)
      then show ?thesis using pending_delete [OF i(1)] i(2) unfolding en by auto
    next
      case True
      then obtain k f amt where eff: "eff = CreditTo k f amt" "ok" by blast
      then obtain w where w: "(h, f, w) \<in> set sent" "deposits w = Some k" "amt = credit_amount k"
        using i(1) Some unfolding pending_inv_def p by blast
      have hA: "h \<notin> A" "distinct (map fst sent)" using i(1) Some by (auto simp: pending_inv_def)
      have "h \<in> D" using assms(2) Resolve eff(2) by simp
      then show ?thesis
        using pending_apply [OF i(1)] balance_apply [OF i(2) hA(2) w(1,2) hA(1)] eff w(3)
        unfolding en resolve_credits by auto
    qed
  qed
qed

lemma gate_inv_callbacks:
  assumes "gate_inv A D sent en" "\<And>h. Resolve h True \<in> set cbs \<Longrightarrow> h \<in> D"
  shows "\<exists>A'. gate_inv A' D sent (foldl (\<lambda>x cb. on_callback e now cb x) en cbs)"
  using assms
proof (induction cbs arbitrary: A en)
  case (Cons cb cbs)
  obtain A' where "gate_inv A' D sent (on_callback e now cb en)"
    using gate_inv_callback [OF Cons.prems(1), of cb e now] Cons.prems(2) by auto
  with Cons show ?case by simp
qed auto

text \<open>A submission.\<close>

lemma fireOne_parts:
  assumes "try_build e (sh_now sh) a (take 8 (sh_picks sh)) (en_ctx en) = (x, c)"
  shows "credits (en_ctx (fireOne e name tmo a sh en)) = credits c \<and>
    (en_pending (fireOne e name tmo a sh en) = en_pending en \<or>
     (\<exists>w r eff n. x = Some (w, r, eff) \<and> en_pending (fireOne e name tmo a sh en) = AList.update (sh_hash sh) (n, eff) (en_pending en)))"
  using assms
  by (auto simp: fireOne_def Let_def en_metric_def free_permit_def split: option.split prod.split submission.split)

lemma pending_sent:
  assumes "pending_inv A D sent p" "h \<notin> fst ` set sent"
  shows "pending_inv A D (sent @ [(h, a, w)]) p"
    "\<forall>k f' amt. eff = CreditTo k f' amt \<longrightarrow> f' = a \<and> deposits w = Some k \<and> amt = credit_amount k \<Longrightarrow>
       pending_inv A D (sent @ [(h, a, w)]) (AList.update h (n, eff) p)"
proof -
  have hA: "h \<notin> A" using assms by (auto simp: pending_inv_def)
  show "pending_inv A D (sent @ [(h, a, w)]) p" using assms unfolding pending_inv_def by fastforce
  then show "pending_inv A D (sent @ [(h, a, w)]) (AList.update h (n, eff) p)"
    if "\<forall>k f' amt. eff = CreditTo k f' amt \<longrightarrow> f' = a \<and> deposits w = Some k \<and> amt = credit_amount k"
    using that hA assms unfolding pending_inv_def js_map.get_put by auto
qed

lemma balance_sent:
  assumes "balance_inv A sent cr" "h \<notin> A"
    "case debits w of None \<Rightarrow> cr' = cr | Some k \<Rightarrow> debit_amount k \<le> cr k a \<and> cr' = upd_credit k a (- debit_amount k) cr"
  shows "balance_inv A (sent @ [(h, a, w)]) cr'"
  unfolding balance_inv_def
proof (intro allI)
  fix k f
  have "0 \<le> cr k f" "cr k f + withdrawn k f UNIV sent \<le> deposited k f A sent"
    using assms(1) by (simp_all add: balance_inv_def)
  moreover have "deposited k f A [(h, a, w)] = 0" using assms(2) by (simp add: deposited_def)
  moreover have "withdrawn k f UNIV [(h, a, w)] = (if a = f \<and> debits w = Some k then debit_amount k else 0)"
    by (simp add: withdrawn_def)
  ultimately show "0 \<le> cr' k f \<and> cr' k f + withdrawn k f UNIV (sent @ [(h, a, w)]) \<le> deposited k f A (sent @ [(h, a, w)])"
    using assms(3) unfolding withdrawn_append deposited_append
    by (cases "debits w") (auto simp: upd_credit_apply)
qed

lemma gate_inv_fire:
  assumes "gate_inv A D sent en" "sh_hash sh \<notin> fst ` set sent"
  shows "gate_inv A D (sent @ sent_by e a sh en) (fireOne e name tmo a sh en)"
proof -
  obtain x c where b: "try_build e (sh_now sh) a (take 8 (sh_picks sh)) (en_ctx en) = (x, c)" by fastforce
  have i: "pending_inv A D sent (en_pending en)" "balance_inv A sent (credits (en_ctx en))"
    using assms(1) by (simp_all add: gate_inv_def)
  have hA: "sh_hash sh \<notin> A" using i(1) assms(2) by (auto simp: pending_inv_def)
  note acc = try_build_account [OF b] and parts = fireOne_parts [OF b, of name tmo]
  show ?thesis
  proof (cases x)
    case None
    then show ?thesis using acc parts i by (auto simp: sent_by_def b gate_inv_def)
  next
    case (Some wre)
    obtain w r eff where x: "x = Some (w, r, eff)" using Some by (cases wre) auto
    have s: "sent_by e a sh en = [(sh_hash sh, a, w)]" by (simp add: sent_by_def b x)
    have "balance_inv A (sent @ [(sh_hash sh, a, w)]) (credits c)"
      using acc by (intro balance_sent [OF i(2) hA]) (simp add: x)
    moreover have "pending_inv A D (sent @ [(sh_hash sh, a, w)]) (en_pending (fireOne e name tmo a sh en))"
      using parts acc pending_sent [OF i(1) assms(2)] by (auto simp: x)
    ultimately show ?thesis using parts by (simp add: gate_inv_def s)
  qed
qed

lemma gate_inv_run: "gate_run e name tmo g \<Longrightarrow> \<exists>A. gate_inv A (set (g_done g)) (g_sent g) (g_en g)"
proof (induction rule: gate_run.induct)
  case (start c nm)
  then have "gate_inv {} (set (g_done (gate_start c nm))) (g_sent (gate_start c nm)) (g_en (gate_start c nm))"
    by (simp add: gate_start_def gate_inv_def pending_inv_def balance_inv_def deposited_def withdrawn_def)
  then show ?case ..
next
  case (fire g sh a)
  then show ?case using gate_inv_fire by fastforce
next
  case (execute g h)
  then obtain A where "gate_inv A (set (g_done g)) (g_sent g) (g_en g)" by blast
  then have "gate_inv A (set (h # g_done g)) (g_sent g) (g_en g)"
    using execute.hyps(2) by (auto simp: gate_inv_def pending_inv_def)
  then show ?case by auto
next
  case (collector g ev now)
  then obtain A where A: "gate_inv A (set (g_done g)) (g_sent g) (g_en g)" by blast
  then have "gate_inv A (set (g_done g)) (g_sent g) ((g_en g)\<lparr>en_rc := collect tmo ev (en_rc (g_en g))\<rparr>)"
    by (simp add: gate_inv_def)
  from gate_inv_callbacks [OF this] show ?case
    using collector.hyps(2) by (simp add: with_collector_def Let_def truthful_def)
next
  case (permit g a ans)
  then show ?case by (auto simp: gate_inv_def resyncPermitNonce_def split: option.split)
qed (auto simp: gate_inv_def)

text \<open>A collector whose receipts are those of the chain is truthful.\<close>

lemma mine_callbacks: "\<exists>xs. callbacks (rc_mines now n hs c) = callbacks c @ xs \<and> (\<forall>h. Resolve h True \<notin> set xs)"
proof (induction hs arbitrary: c)
  case (Cons h hs)
  obtain xs where xs: "callbacks (rc_mines now n hs (rc_mine now n h c)) = callbacks (rc_mine now n h c) @ xs"
    "\<forall>h. Resolve h True \<notin> set xs" using Cons by blast
  have "\<exists>ys. callbacks (rc_mine now n h c) = callbacks c @ ys \<and> (\<forall>h. Resolve h True \<notin> set ys)"
    by (auto simp: rc_mine_def split: option.split)
  then show ?case using xs by auto
qed simp

lemma sweep_callbacks: "\<exists>xs. callbacks (rc_sweep tmo now c) = callbacks c @ xs \<and> (\<forall>h. Resolve h True \<notin> set xs)"
proof -
  have "\<exists>xs. callbacks (foldl (\<lambda>c hm. rc_expire tmo now hm c) c hms) = callbacks c @ xs \<and> (\<forall>h. Resolve h True \<notin> set xs)" for hms
  proof (induction hms arbitrary: c)
    case (Cons hm hms)
    obtain xs where "callbacks (foldl (\<lambda>c hm. rc_expire tmo now hm c) (rc_expire tmo now hm c) hms) =
        callbacks (rc_expire tmo now hm c) @ xs" "\<forall>h. Resolve h True \<notin> set xs" using Cons by blast
    moreover have "\<exists>ys. callbacks (rc_expire tmo now hm c) = callbacks c @ ys \<and> (\<forall>h. Resolve h True \<notin> set ys)"
      by (auto simp: rc_expire_def rc_give_up_def split: prod.split option.split)
    ultimately show ?case by auto
  qed simp
  then show ?thesis by (simp add: rc_sweep_def)
qed

lemma collect_truthful:
  assumes "\<And>answers reason job q. ev = CReceipt answers reason \<Longrightarrow> receiptQ (en_rc (g_en g)) = job # q \<Longrightarrow>
      first_answer answers = Some 1 \<Longrightarrow> jb_hash job \<in> set (g_done g)"
  shows "truthful g (collect tmo ev)"
proof (cases ev)
  case (CBlock now answers)
  show ?thesis
  proof (cases "first_answer answers")
    case (Some hs)
    then show ?thesis
      using mine_callbacks [of now "lastBlock (en_rc (g_en g)) + 1" hs
        "(en_rc (g_en g))\<lparr>block_rows := block_rows (en_rc (g_en g)) @ [lastBlock (en_rc (g_en g)) + 1]\<rparr>"]
      by (auto simp: CBlock truthful_def rc_advance_def rc_block_def)
  qed (simp add: CBlock truthful_def rc_advance_def rc_block_def)
next
  case (CReceipt answers reason)
  then show ?thesis using assms [OF CReceipt]
    by (auto simp: truthful_def rc_receipt_def Let_def split: list.splits option.splits if_splits)
next
  case (CSweep now)
  then show ?thesis using sweep_callbacks [of tmo now "en_rc (g_en g)"] by (auto simp: truthful_def)
qed (simp_all add: truthful_def rc_track_def rc_tip_def)


definition gate_env :: wl_env where
  "gate_env = \<lparr>wl_addr = id, wl_pool = [''w'', ''v''], wl_index = (\<lambda>_. 0), wl_pairs = [(''a'', ''b'', ''l'')], childBytecode = [],
     createAddr = (\<lambda>a n. a), create2Addr = (\<lambda>_. []), salt32 = (\<lambda>_. []), cloneAddr = id,
     permit_sig = (\<lambda>a b n. []), voucher_sig = (\<lambda>a n. [])\<rparr>"

definition gate_ctx :: wl_ctx where
  "gate_ctx = \<lparr>credits = (\<lambda>k f. 0), owned = (\<lambda>k f. []), children = (\<lambda>k f. []), clones = (\<lambda>f. []), lp = (\<lambda>f p. 0),
     has1155 = (\<lambda>f. False), nftSeq = 1, mktSeq = 1, roySeq = 1, aucSeq = 1, batchSeq = 1, salt = 1, cloneSalt = 1, govPid = 1,
     voucherId = 1, mktListed = [], mktCursor = 0, royListed = [], royCursor = 0, auctions = [], proposals = [],
     permitNonce = (\<lambda>_. None), permitsBySpender = (\<lambda>_. []), permitInFlight = (\<lambda>_. False)\<rparr>"

definition gate_shot :: "workload \<Rightarrow> string \<Rightarrow> int \<Rightarrow> shot" where
  "gate_shot w h now = \<lparr>sh_picks = [(w, \<lambda>_. 0)], sh_now = now, sh_sign_error = None, sh_answers = (\<lambda>_. None),
     sh_count = Inr 0, sh_signed = ''s'', sh_hash = h\<rparr>"

definition gate_fire :: "workload \<Rightarrow> string \<Rightarrow> int \<Rightarrow> gate \<Rightarrow> gate" where
  "gate_fire w h now g = g\<lparr>g_en := fireOne gate_env (\<lambda>_. []) (Fin 100000) ''w'' (gate_shot w h now) (g_en g),
     g_sent := g_sent g @ sent_by gate_env ''w'' (gate_shot w h now) (g_en g)\<rparr>"

definition gate_collect :: "collector_event \<Rightarrow> gate \<Rightarrow> gate" where
  "gate_collect ev g = g\<lparr>g_en := with_collector gate_env 9000 (collect (Fin 100000) ev) (g_en g)\<rparr>"


end
