(* ===== verification/Ramp.thy ===== *)
theory Ramp
  imports Load_Engine
begin

text \<open>
  The knee that the calibration ramp of stress/scripts/run.js reports: the first step that is the second
  under pressure in a row, and none at all when the node refuses everything.
\<close>

text \<open>Step \<open>i\<close> of a ramp that starts at a target is under pressure.\<close>

definition pressed :: "ramp_profile \<Rightarrow> int \<Rightarrow> ramp_step list \<Rightarrow> nat \<Rightarrow> bool" where
  "pressed p target ss i = pressure (rp_knee p) (target + int (Suc i) * stepTps p) (ss ! i)"

definition knee_at :: "ramp_profile \<Rightarrow> int \<Rightarrow> bool \<Rightarrow> ramp_step list \<Rightarrow> nat \<Rightarrow> bool" where
  "knee_at p target before ss i = (pressed p target ss i \<and> (if i = 0 then before else pressed p target ss (i - 1)))"

lemma pressed_Suc: "pressed p target (s # ss) (Suc i) = pressed p (target + stepTps p) ss i"
  by (simp add: pressed_def algebra_simps)

lemma knee_at_Suc: "knee_at p target b (s # ss) (Suc i) = knee_at p (target + stepTps p) (pressed p target (s # ss) 0) ss i"
  by (cases i) (simp_all add: knee_at_def pressed_Suc)

lemma knee_reason_not_max: "knee_reason k t s \<noteq> MaxDuration"
  by (simp add: knee_reason_def)

lemma run_ramp_knee:
  assumes "run_ramp p target bad best ss = (t, r, m, b)" "bad \<le> 1"
  shows "if r = MaxDuration then (\<forall>i < length ss. \<not> knee_at p target (bad = 1) ss i) \<and> t = target + int (length ss) * stepTps p
    else (\<exists>i < length ss. knee_at p target (bad = 1) ss i \<and> (\<forall>j < i. \<not> knee_at p target (bad = 1) ss j) \<and>
      t = target + int (Suc i) * stepTps p \<and> m = rs_mined (ss ! i))"
  using assms
proof (induction ss arbitrary: target bad best)
  case (Cons s ss)
  define bad' where "bad' = (if pressed p target (s # ss) 0 then Suc bad else 0)"
  show ?case
  proof (cases "pressed p target (s # ss) 0 \<and> bad = 1")
    case True
    then have "knee_at p target (bad = 1) (s # ss) 0" by (simp add: knee_at_def)
    moreover have "t = target + stepTps p" "r \<noteq> MaxDuration" "m = rs_mined s"
      using Cons.prems True by (auto simp: pressed_def Let_def knee_reason_not_max)
    ultimately show ?thesis by (auto intro!: exI [of _ 0])
  next
    case False
    then have no: "\<not> knee_at p target (bad = 1) (s # ss) 0" by (simp add: knee_at_def)
    have b': "bad' \<le> 1" "(bad' = 1) = pressed p target (s # ss) 0" using False Cons.prems(2) by (auto simp: bad'_def)
    have "run_ramp p (target + stepTps p) bad' (js_max best (rs_mined s)) ss = (t, r, m, b)"
      using Cons.prems False by (auto simp: pressed_def bad'_def Let_def)
    note IH = Cons.IH [OF this b'(1), unfolded b'(2)]
    show ?thesis
    proof (cases "r = MaxDuration")
      case True
      have "\<not> knee_at p target (bad = 1) (s # ss) i" if "i < Suc (length ss)" for i
        using that IH True no by (cases i) (simp_all add: knee_at_Suc)
      then show ?thesis using IH True by (simp add: algebra_simps)
    next
      case False
      then obtain i where i: "i < length ss" "knee_at p (target + stepTps p) (pressed p target (s # ss) 0) ss i"
          "\<forall>j < i. \<not> knee_at p (target + stepTps p) (pressed p target (s # ss) 0) ss j"
          "t = target + stepTps p + int (Suc i) * stepTps p" "m = rs_mined (ss ! i)"
        using IH by auto
      have "\<not> knee_at p target (bad = 1) (s # ss) j" if "j < Suc i" for j
        using that i(3) no by (cases j) (simp_all add: knee_at_Suc)
      then show ?thesis using i False
        by (auto simp: knee_at_Suc algebra_simps intro!: exI [of _ "Suc i"])
    qed
  qed
qed simp

text \<open>
  C39. The ramp reports the first step that is the second in a row under pressure, with the target and the
  mined rate of that step; it reports that its time was up exactly when no two steps in a row were.
\<close>

theorem ramp_reports_first_sustained_pressure:
  assumes "runRamp p ss = (t, r, m, b)"
  shows "if r = MaxDuration
    then (\<forall>i. Suc i < length ss \<longrightarrow> \<not> (pressed p (startTps p) ss i \<and> pressed p (startTps p) ss (Suc i)))
    else (\<exists>i. Suc i < length ss \<and> pressed p (startTps p) ss i \<and> pressed p (startTps p) ss (Suc i) \<and>
      (\<forall>j < i. \<not> (pressed p (startTps p) ss j \<and> pressed p (startTps p) ss (Suc j))) \<and>
      t = startTps p + int (i + 2) * stepTps p \<and> m = rs_mined (ss ! Suc i))"
proof (cases "r = MaxDuration")
  case True
  note all = run_ramp_knee [OF assms [unfolded runRamp_def], simplified True, simplified]
  have "\<not> (pressed p (startTps p) ss i \<and> pressed p (startTps p) ss (Suc i))" if "Suc i < length ss" for i
    using all that by (fastforce simp: knee_at_def)
  then show ?thesis using True by simp
next
  case False
  then obtain i where i: "i < length ss" "knee_at p (startTps p) False ss i" "\<forall>j < i. \<not> knee_at p (startTps p) False ss j"
      "t = startTps p + int (Suc i) * stepTps p" "m = rs_mined (ss ! i)"
    using run_ramp_knee [OF assms [unfolded runRamp_def]] by auto
  then obtain k where k: "i = Suc k" by (cases i) (auto simp: knee_at_def)
  have "\<not> (pressed p (startTps p) ss j \<and> pressed p (startTps p) ss (Suc j))" if "j < k" for j
    using i(3) that k by (fastforce simp: knee_at_def)
  then show ?thesis using i False unfolding k by (auto simp: knee_at_def intro!: exI [of _ k])
qed

definition calm :: ramp_step where
  "calm = \<lparr>rs_mined = Fin 40, rs_submitted = Fin 40, rs_p95 = Fin 6000, rs_errRate = Fin 0\<rparr>"

lemma ramp_reports_first_sustained_pressure_witness:
  "let p = ramp_profile_A (\<lambda>_. None); slow = calm\<lparr>rs_p95 := Fin 30000, rs_mined := Fin 70\<rparr>
   in fst (runRamp p [calm, slow, calm, slow, slow, calm]) = 165 \<and>
      (\<exists>i. Suc i < 6 \<and> pressed p 15 [calm, slow, calm, slow, slow, calm] i)"
proof -
  let ?p = "ramp_profile_A (\<lambda>_. None)" and ?slow = "calm\<lparr>rs_p95 := Fin 30000, rs_mined := Fin 70\<rparr>"
  let ?r = "runRamp ?p [calm, ?slow, calm, ?slow, ?slow, calm]"
  have "let r = ?r in fst r = 165 \<and> fst (snd r) = KneeP95" by code_simp
  then have r: "fst ?r = 165" "fst (snd ?r) = KneeP95" by (simp_all add: Let_def)
  obtain t rn m b where e: "?r = (t, rn, m, b)" by (cases ?r) auto
  have "startTps ?p = 15" by (simp add: ramp_profile_A_def)
  then obtain i where "Suc i < length [calm, ?slow, calm, ?slow, ?slow, calm]"
      "pressed ?p 15 [calm, ?slow, calm, ?slow, ?slow, calm] i"
    using ramp_reports_first_sustained_pressure [OF e] r e by auto
  then have "\<exists>i. Suc i < 6 \<and> pressed ?p 15 [calm, ?slow, calm, ?slow, ?slow, calm] i"
    by (intro exI [of _ i]) simp
  with r(1) show ?thesis unfolding Let_def by blast
qed

section \<open>A node that refuses everything\<close>

lemma no_pressure_without_submissions:
  assumes "rs_submitted s = Fin 0" "rs_p95 s = Fin 0" "rs_errRate s = Fin 0" "1 \<le> t" "t \<le> 2 ^ 53" "env ''BLOCK_MS'' = None"
  shows "\<not> pressure (rp_knee (ramp_profile_A env)) t s"
proof -
  have "0 \<le> dbl (15 / 100)" by (rule dbl_nonneg) simp
  moreover have "js_mul (Fin 4) (Fin 5200) = Fin 20800" by code_simp
  moreover have "\<not> js_le (js_mul (js_of_int t) (Fin (dbl (8 / 10)))) (Fin 0)"
  proof -
    have "(1 / 2 :: rat) \<le> dbl (1 / 2)" by code_simp
    also have "dbl (1 / 2) \<le> dbl (8 / 10)" by (rule dbl_mono) simp
    finally have h: "1 / 2 \<le> dbl (8 / 10)" .
    have "(1 :: rat) \<le> of_int t" using assms(4) by (metis of_int_1 of_int_le_iff)
    then have x: "1 / 2 \<le> of_int t * dbl (8 / 10)" using mult_mono [OF _ h, of 1 "of_int t"] by simp
    have "(1 / 2 :: rat) \<le> dbl (1 / 2)" by code_simp
    also have "dbl (1 / 2) \<le> dbl (of_int t * dbl (8 / 10))" by (rule dbl_mono [OF x])
    finally have "0 < dbl (of_int t * dbl (8 / 10))" by simp
    moreover have "0 \<le> of_int t * dbl (8 / 10)" using x by simp
    ultimately show ?thesis
      using js_of_rat_nonneg [of "of_int t * dbl (8 / 10)"] assms(4,5) by (auto simp: js_of_int_small)
  qed
  ultimately show ?thesis
    using assms(1-3,6) by (simp add: pressure_def plateau_def ramp_profile_A_def env_num_def)
qed

text \<open>
  A node that refuses every submission shows no knee: the error rate is a quotient by the submissions
  that were accepted, and is zero when there were none, so the ramp climbs to the end of its time.
\<close>

theorem refusing_node_shows_no_knee:
  assumes "\<forall>s \<in> set ss. rs_submitted s = Fin 0 \<and> rs_p95 s = Fin 0 \<and>
      (\<exists>prev sn. rs_errRate s = error_rate prev sn \<and> sn_submitted sn = sn_submitted prev)"
    and "env ''BLOCK_MS'' = None" "length ss \<le> 1000000"
  shows "fst (snd (runRamp (ramp_profile_A env) ss)) = MaxDuration"
proof (rule ccontr)
  let ?p = "ramp_profile_A env"
  assume "fst (snd (runRamp ?p ss)) \<noteq> MaxDuration"
  moreover obtain t r m b where e: "run_ramp ?p (startTps ?p) 0 (Fin 0) ss = (t, r, m, b)"
    by (cases "run_ramp ?p (startTps ?p) 0 (Fin 0) ss") auto
  ultimately obtain i where i: "i < length ss" "knee_at ?p (startTps ?p) False ss i"
    using run_ramp_knee [OF e] by (auto simp: runRamp_def)
  have s: "ss ! i \<in> set ss" using i(1) by simp
  then have "rs_errRate (ss ! i) = Fin 0" using assms(1) by (fastforce simp: error_rate_def)
  moreover have "startTps ?p = 15" "stepTps ?p = 30" by (simp_all add: ramp_profile_A_def)
  moreover have "15 + int (Suc i) * 30 \<le> 2 ^ 53" using i(1) assms(3) by simp
  ultimately have "\<not> pressed ?p (startTps ?p) ss i"
    using assms(1,2) s unfolding pressed_def by (intro no_pressure_without_submissions) simp_all
  then show False using i(2) by (simp add: knee_at_def)
qed

lemma refusing_node_shows_no_knee_witness:
  "fst (snd (runRamp (ramp_profile_A (\<lambda>_. None)) (replicate 40
     \<lparr>rs_mined = Fin 0, rs_submitted = Fin 0, rs_p95 = Fin 0, rs_errRate = Fin 0\<rparr>))) = MaxDuration"
proof (rule refusing_node_shows_no_knee)
  let ?s = "\<lparr>sn_submitted = 0, sn_mined = 0, sn_failed = 9, sn_inflight = 0, submitTps = Fin 0, minedTps = Fin 0,
     sn_p50 = 0, sn_p95 = 0, sn_p99 = 0\<rparr>"
  have "error_rate ?s ?s = Fin 0" by (simp add: error_rate_def)
  then show "\<forall>s \<in> set (replicate 40 \<lparr>rs_mined = Fin 0, rs_submitted = Fin 0, rs_p95 = Fin 0, rs_errRate = Fin 0\<rparr>).
      rs_submitted s = Fin 0 \<and> rs_p95 s = Fin 0 \<and> (\<exists>prev sn. rs_errRate s = error_rate prev sn \<and> sn_submitted sn = sn_submitted prev)"
    by (auto intro!: exI [of _ ?s])
qed simp_all

end
