(* ===== verification/Run_Log.thy ===== *)
theory Run_Log
  imports Gemba_Prelude "HOL-Library.Char_ord" "HOL-Library.List_Lexorder"
begin

text \<open>
  The log files of a run, stress/lib/txLogger.js and its copy endurance/lib/txLogger.js, and how
  stress/scripts/analyze.js reads them back.

  A directory is a map from file names to rows. The writes of a stream, the rename and the compression
  are taken to be complete when the next row is written; a compressed file has the rows of the file it
  was made from.
\<close>

section \<open>The logger\<close>

type_synonym 'r directory = "(string, 'r list) jsmap"

record 'r run_logger =
  lg_dir :: "'r directory"
  lg_rotate :: jsnum
  lg_streams :: "string \<Rightarrow> bool"
  lg_counts :: "string \<Rightarrow> nat"
  lg_seq :: "string \<Rightarrow> nat"

definition new_run_logger :: "'r directory \<Rightarrow> jsnum \<Rightarrow> 'r run_logger" where
  "new_run_logger d n = \<lparr>lg_dir = d, lg_rotate = n, lg_streams = (\<lambda>s. False), lg_counts = (\<lambda>s. 0), lg_seq = (\<lambda>s. 0)\<rparr>"

definition current_file :: "string \<Rightarrow> string" where
  "current_file name = name @ ''.jsonl''"

definition rolled_file :: "string \<Rightarrow> nat \<Rightarrow> string" where
  "rolled_file name n = name @ ''.'' @ dec_string n @ ''.jsonl''"

text \<open>A new write stream appends to the file, which it creates when it is not there.\<close>

definition lg_stream :: "string \<Rightarrow> 'r run_logger \<Rightarrow> 'r run_logger" where
  "lg_stream name lg = (if lg_streams lg name then lg else
     lg\<lparr>lg_streams := (lg_streams lg)(name := True), lg_counts := (lg_counts lg)(name := 0), lg_seq := (lg_seq lg)(name := 0),
        lg_dir := (case map_of (lg_dir lg) (current_file name) of None \<Rightarrow> AList.update (current_file name) [] (lg_dir lg)
          | Some rows \<Rightarrow> lg_dir lg)\<rparr>)"

text \<open>The current file becomes a numbered one, which is compressed and removed.\<close>

definition lg_rotate_file :: "string \<Rightarrow> 'r run_logger \<Rightarrow> 'r run_logger" where
  "lg_rotate_file name lg = (let rolled = rolled_file name (lg_seq lg name) in
     lg\<lparr>lg_seq := (lg_seq lg)(name := Suc (lg_seq lg name)),
        lg_dir := (case map_of (lg_dir lg) (current_file name) of None \<Rightarrow> lg_dir lg
          | Some rows \<Rightarrow> AList.delete rolled (AList.update (rolled @ ''.gz'') rows (AList.delete (current_file name) (lg_dir lg)))),
        lg_streams := (lg_streams lg)(name := False), lg_counts := (lg_counts lg)(name := 0)\<rparr>)"

definition lg_write :: "string \<Rightarrow> 'r \<Rightarrow> 'r run_logger \<Rightarrow> 'r run_logger" where
  "lg_write name r lg = (let lg1 = lg_stream name lg; n = Suc (lg_counts lg1 name);
       rows = (case map_of (lg_dir lg1) (current_file name) of None \<Rightarrow> [] | Some rs \<Rightarrow> rs);
       lg2 = lg1\<lparr>lg_dir := AList.update (current_file name) (rows @ [r]) (lg_dir lg1), lg_counts := (lg_counts lg1)(name := n)\<rparr> in
     if js_le (lg_rotate lg) (js_of_int (int n)) then lg_rotate_file name lg2 else lg2)"

section \<open>Reading the files back\<close>

definition starts_with :: "string \<Rightarrow> string \<Rightarrow> bool" where
  "starts_with p s = (take (length p) s = p)"

definition ends_with :: "string \<Rightarrow> string \<Rightarrow> bool" where
  "ends_with p s = (length p \<le> length s \<and> drop (length s - length p) s = p)"

definition stream_files :: "string \<Rightarrow> 'r directory \<Rightarrow> string list" where
  "stream_files name d = sort (filter (\<lambda>f. starts_with (name @ ''.'') f \<and> (ends_with ''.jsonl'' f \<or> ends_with ''.jsonl.gz'' f)) (map fst d))"

definition readStream :: "string \<Rightarrow> 'r directory \<Rightarrow> 'r list" where
  "readStream name d = concat (map (\<lambda>f. case map_of d f of None \<Rightarrow> [] | Some rs \<Rightarrow> rs) (stream_files name d))"

section \<open>What is left of a stream\<close>

fun log_rows :: "(string \<times> 'r) list \<Rightarrow> 'r run_logger \<Rightarrow> 'r run_logger" where
  "log_rows [] lg = lg"
| "log_rows ((name, r) # ws) lg = log_rows ws (lg_write name r lg)"

lemma log_rows_append: "log_rows (xs @ ys) lg = log_rows ys (log_rows xs lg)"
  by (induction xs lg rule: log_rows.induct) auto

definition rows_of :: "string \<Rightarrow> (string \<times> 'r) list \<Rightarrow> 'r list" where
  "rows_of name ws = map snd (filter (\<lambda>w. fst w = name) ws)"

text \<open>
  What one stream keeps: the rows of the last rotated file and those of the current file. The number of
  a stream starts again at 0 when the stream is opened after a rotation.
\<close>

definition keep_row :: "nat \<Rightarrow> 'r list \<times> 'r list \<Rightarrow> 'r \<Rightarrow> 'r list \<times> 'r list" where
  "keep_row n p r = (if n \<le> Suc (length (snd p)) then (snd p @ [r], []) else (fst p, snd p @ [r]))"

definition kept :: "nat \<Rightarrow> 'r list \<Rightarrow> 'r list \<times> 'r list" where
  "kept n rs = foldl (keep_row n) ([], []) rs"

lemma kept_snoc [simp]: "kept n (rs @ [r]) = keep_row n (kept n rs) r"
  by (simp add: kept_def)

lemma kept_Nil [simp]: "kept n [] = ([], [])"
  by (simp add: kept_def)

lemma kept_parts:
  assumes "0 < n"
  obtains q m where "length rs = q * n + m" "m < n" "snd (kept n rs) = drop (q * n) rs"
    "fst (kept n rs) @ snd (kept n rs) = drop ((q - 1) * n) rs"
proof -
  have "\<exists>q m. length rs = q * n + m \<and> m < n \<and> snd (kept n rs) = drop (q * n) rs \<and>
      fst (kept n rs) @ snd (kept n rs) = drop ((q - 1) * n) rs"
  proof (induction rs rule: rev_induct)
    case Nil
    show ?case using assms by (intro exI [of _ 0]) simp
  next
    case (snoc r rs)
    then obtain q m where q: "length rs = q * n + m" "m < n" and c: "snd (kept n rs) = drop (q * n) rs"
      and k: "fst (kept n rs) @ snd (kept n rs) = drop ((q - 1) * n) rs" by blast
    have le: "(q - 1) * n \<le> length rs" using q by (cases q) auto
    show ?case
    proof (cases "Suc m = n")
      case True
      have "fst (kept n (rs @ [r])) = drop (q * n) (rs @ [r])" "snd (kept n (rs @ [r])) = []"
        using True q c by (simp_all add: keep_row_def)
      with True q show ?thesis by (intro exI [of _ "Suc q"] exI [of _ 0]) auto
    next
      case False
      have "kept n (rs @ [r]) = (fst (kept n rs), snd (kept n rs) @ [r])"
        using False q c by (simp add: keep_row_def)
      with False q c k le show ?thesis
        by (intro exI [of _ q] exI [of _ "Suc m"]) (simp flip: append_assoc)
    qed
  qed
  with that show ?thesis by blast
qed

lemma kept_drop:
  assumes "0 < n"
  shows "fst (kept n rs) @ snd (kept n rs) = drop ((length rs div n - 1) * n) rs"
proof -
  from assms obtain q m where "length rs = q * n + m" "m < n"
    "fst (kept n rs) @ snd (kept n rs) = drop ((q - 1) * n) rs" by (rule kept_parts [where rs = rs]) auto
  then show ?thesis by simp
qed

subsection \<open>File names\<close>

abbreviation gz_file :: "string \<Rightarrow> string" where
  "gz_file name \<equiv> name @ ''.0.jsonl.gz''"

definition dotless :: "string \<Rightarrow> bool" where
  "dotless s = (CHR ''.'' \<notin> set s)"

definition stem :: "string \<Rightarrow> string" where
  "stem f = takeWhile (\<lambda>c. c \<noteq> CHR ''.'') f"

lemma stem_dot [simp]: "dotless s \<Longrightarrow> stem (s @ CHR ''.'' # t) = s"
  by (auto simp: stem_def dotless_def takeWhile_tail takeWhile_append)

lemma stem_files [simp]: "dotless s \<Longrightarrow> stem (current_file s) = s" "dotless s \<Longrightarrow> stem (gz_file s) = s"
  by (simp_all add: current_file_def)

lemma file_names [simp]:
  "current_file a = current_file b \<longleftrightarrow> a = b" "current_file a \<noteq> gz_file a" "gz_file a \<noteq> current_file a"
  by (simp_all add: current_file_def)

lemma file_names_other [simp]:
  assumes "dotless a" "dotless b" "a \<noteq> b"
  shows "current_file a \<noteq> gz_file b" "gz_file b \<noteq> current_file a"
  using stem_files [OF assms(1)] stem_files [OF assms(2)] assms(3) by metis+

lemma rolled_0: "rolled_file s 0 @ ''.gz'' = gz_file s"
proof -
  have "char_of (48::nat) = CHR ''0''" by code_simp
  then show ?thesis by (simp add: rolled_file_def dec_string.simps)
qed

lemma stem_rolled [simp]: "dotless s \<Longrightarrow> stem (rolled_file s n) = s" "dotless s \<Longrightarrow> stem (rolled_file s n @ t) = s"
  by (simp_all add: rolled_file_def)

lemma rolled_fresh [simp]: "rolled_file s n \<noteq> gz_file t" "rolled_file s n \<noteq> current_file s"
proof -
  have "last (rolled_file s n) = CHR ''l''" "last (gz_file t) = CHR ''z''" by (simp_all add: rolled_file_def)
  then show "rolled_file s n \<noteq> gz_file t" by force
  show "rolled_file s n \<noteq> current_file s" by (simp add: rolled_file_def current_file_def)
qed

subsection \<open>The logger keeps what is kept\<close>

abbreviation file_rows :: "'r run_logger \<Rightarrow> string \<Rightarrow> 'r list" where
  "file_rows lg f \<equiv> (case map_of (lg_dir lg) f of None \<Rightarrow> [] | Some rs \<Rightarrow> rs)"

text \<open>The state of one stream that has written \<open>rs\<close>.\<close>

definition stream_inv :: "nat \<Rightarrow> string \<Rightarrow> 'r list \<Rightarrow> 'r run_logger \<Rightarrow> bool" where
  "stream_inv n s rs lg = (case kept n rs of (old, cur) \<Rightarrow>
     (lg_streams lg s \<longleftrightarrow> cur \<noteq> []) \<and> (lg_streams lg s \<longrightarrow> lg_counts lg s = length cur \<and> lg_seq lg s = 0) \<and>
     map_of (lg_dir lg) (current_file s) = (if cur = [] then None else Some cur) \<and>
     map_of (lg_dir lg) (gz_file s) = (if old = [] then None else Some old))"

definition log_names :: "string set" where
  "log_names = {f. \<exists>s. dotless s \<and> (f = current_file s \<or> f = gz_file s)}"

lemma log_names [simp]: "dotless s \<Longrightarrow> current_file s \<in> log_names" "dotless s \<Longrightarrow> gz_file s \<in> log_names"
  by (auto simp: log_names_def)

definition log_files :: "'r run_logger \<Rightarrow> bool" where
  "log_files lg = (distinct (map fst (lg_dir lg)) \<and> fst ` set (lg_dir lg) \<subseteq> log_names)"

lemma write_stream_inv:
  assumes s: "dotless s" and n: "0 < n" and r: "lg_rotate lg = js_of_int (int n)" "n \<le> 2 ^ 53"
    and i: "stream_inv n s rs lg" and c: "length (snd (kept n rs)) < n"
  shows "stream_inv n s (rs @ [r]) (lg_write s r lg)"
proof -
  obtain old cur where k: "kept n rs = (old, cur)" by fastforce
  have le: "js_le (js_of_int (int n)) (js_of_int (int m)) \<longleftrightarrow> n \<le> m" if "m \<le> n" for m
    using r(2) that by (simp add: js_of_int_small)
  show ?thesis
  proof (cases "cur = []")
    case True
    then show ?thesis
      using i k n c le [of 1] le [of "Suc 0"] r
      by (auto simp: stream_inv_def lg_write_def lg_stream_def lg_rotate_file_def keep_row_def Let_def rolled_0
        js_map.get_put js_map.get_del)
  next
    case False
    then show ?thesis
      using i k n c le [of "Suc (length cur)"] r
      by (auto simp: stream_inv_def lg_write_def lg_stream_def lg_rotate_file_def keep_row_def Let_def rolled_0
        js_map.get_put js_map.get_del)
  qed
qed

lemma write_other:
  assumes "dotless s"
  shows "t \<noteq> s \<Longrightarrow> lg_streams (lg_write s r lg) t = lg_streams lg t" "t \<noteq> s \<Longrightarrow> lg_counts (lg_write s r lg) t = lg_counts lg t"
    "t \<noteq> s \<Longrightarrow> lg_seq (lg_write s r lg) t = lg_seq lg t"
    "stem f \<noteq> s \<Longrightarrow> map_of (lg_dir (lg_write s r lg)) f = map_of (lg_dir lg) f"
    "lg_rotate (lg_write s r lg) = lg_rotate lg"
proof -
  have f: "current_file s \<noteq> f" "rolled_file s k \<noteq> f" "rolled_file s k @ ''.gz'' \<noteq> f" if "stem f \<noteq> s" for k
    using that assms by auto
  show "lg_streams (lg_write s r lg) t = lg_streams lg t" "lg_counts (lg_write s r lg) t = lg_counts lg t"
    "lg_seq (lg_write s r lg) t = lg_seq lg t" if "t \<noteq> s"
    using that by (simp_all add: lg_write_def lg_stream_def lg_rotate_file_def Let_def)
  show "map_of (lg_dir (lg_write s r lg)) f = map_of (lg_dir lg) f" if "stem f \<noteq> s"
    using f [OF that] that
    by (simp add: lg_write_def lg_stream_def lg_rotate_file_def Let_def js_map.get_put js_map.get_del split: option.split)
  show "lg_rotate (lg_write s r lg) = lg_rotate lg"
    by (simp add: lg_write_def lg_stream_def lg_rotate_file_def Let_def)
qed

lemma write_other_stream:
  assumes "dotless s" "dotless t" "t \<noteq> s" "stream_inv n t rs lg"
  shows "stream_inv n t rs (lg_write s r lg)"
  using assms by (simp add: stream_inv_def write_other)

lemma write_log_files:
  assumes "dotless s" "stream_inv n s rs lg" "log_files lg"
  shows "log_files (lg_write s r lg)"
proof -
  let ?lg = "lg_stream s lg"
  have 1: "log_files ?lg" "lg_seq ?lg s = 0"
    using assms by (auto simp: log_files_def lg_stream_def stream_inv_def dom_update distinct_update split: prod.splits option.split)
  then have 2: "log_files (?lg\<lparr>lg_dir := AList.update (current_file s) x (lg_dir ?lg), lg_counts := c\<rparr>)" for x c
    using assms(1) by (auto simp: log_files_def dom_update distinct_update)
  have 3: "log_files (lg_rotate_file s x)" if "log_files x" "lg_seq x s = 0" for x :: "'a run_logger"
    using that assms(1)
    by (auto simp: log_files_def lg_rotate_file_def Let_def rolled_0 keys_delete dom_update distinct_update distinct_delete
      split: option.split)
  show ?thesis using 2 3 1(2) by (simp add: lg_write_def Let_def)
qed

lemma log_rows_inv:
  assumes "list_all (\<lambda>w. dotless (fst w)) ws" and n: "0 < n" "n \<le> 2 ^ 53"
  defines "lg \<equiv> log_rows ws (new_run_logger [] (js_of_int (int n)))"
  shows "log_files lg \<and> lg_rotate lg = js_of_int (int n) \<and> (\<forall>s. dotless s \<longrightarrow> stream_inv n s (rows_of s ws) lg)"
  using assms(1) unfolding lg_def
proof (induction ws rule: rev_induct)
  case Nil
  show ?case by (simp add: log_files_def new_run_logger_def stream_inv_def rows_of_def)
next
  case (snoc w ws)
  obtain s r where w: "w = (s, r)" by fastforce
  let ?lg = "log_rows ws (new_run_logger [] (js_of_int (int n)))"
  have s: "dotless s" and IH: "log_files ?lg" "lg_rotate ?lg = js_of_int (int n)"
    "\<And>t. dotless t \<Longrightarrow> stream_inv n t (rows_of t ws) ?lg"
    using snoc by (simp_all add: w)
  have "stream_inv n t (rows_of t (ws @ [w])) (lg_write s r ?lg)" if "dotless t" for t
  proof (cases "t = s")
    case True
    have "length (snd (kept n (rows_of s ws))) < n"
      using n(1) by (rule kept_parts [where rs = "rows_of s ws"]) auto
    with True s n IH show ?thesis by (simp add: write_stream_inv w rows_of_def)
  next
    case False
    with s that IH show ?thesis by (simp add: write_other_stream w rows_of_def)
  qed
  then show ?case
    using s IH write_log_files [OF s IH(3) IH(1)] by (simp add: log_rows_append w write_other)
qed

subsection \<open>What the report reads\<close>

lemma starts_with_stem: "dotless s \<Longrightarrow> starts_with (s @ ''.'') f \<Longrightarrow> stem f = s"
proof -
  assume s: "dotless s" and "starts_with (s @ ''.'') f"
  then have "f = (s @ ''.'') @ drop (Suc (length s)) f"
    by (metis append_take_drop_id length_append_singleton starts_with_def)
  then have "f = s @ CHR ''.'' # drop (Suc (length s)) f" by simp
  with s show "stem f = s" by (metis stem_dot)
qed

lemma stream_file_names:
  assumes "dotless s" "dotless t"
  shows "starts_with (s @ ''.'') (current_file t) \<longleftrightarrow> s = t" "starts_with (s @ ''.'') (gz_file t) \<longleftrightarrow> s = t"
    "ends_with ''.jsonl'' (current_file t)" "ends_with ''.jsonl.gz'' (gz_file t)"
proof -
  have "starts_with (t @ ''.'') (current_file t)" "starts_with (t @ ''.'') (gz_file t)"
    by (simp_all add: starts_with_def current_file_def)
  then show "starts_with (s @ ''.'') (current_file t) \<longleftrightarrow> s = t" "starts_with (s @ ''.'') (gz_file t) \<longleftrightarrow> s = t"
    using starts_with_stem [OF assms(1), of "current_file t"] starts_with_stem [OF assms(1), of "gz_file t"] assms by auto
qed (simp_all add: ends_with_def current_file_def)

lemma stream_files_kept:
  assumes s: "dotless s" and f: "log_files lg"
  shows "set (stream_files s (lg_dir lg)) = {f \<in> {current_file s, gz_file s}. map_of (lg_dir lg) f \<noteq> None}"
    and "distinct (stream_files s (lg_dir lg))" "sorted (stream_files s (lg_dir lg))"
proof -
  have "f \<in> {current_file s, gz_file s}" if "starts_with (s @ ''.'') f" "f \<in> log_names" for f
    using that s stream_file_names(1,2) by (auto simp: log_names_def)
  then show "set (stream_files s (lg_dir lg)) = {f \<in> {current_file s, gz_file s}. map_of (lg_dir lg) f \<noteq> None}"
    using f stream_file_names [OF s s] by (auto simp: stream_files_def log_files_def map_of_eq_None_iff)
  show "distinct (stream_files s (lg_dir lg))" "sorted (stream_files s (lg_dir lg))"
    using f by (simp_all add: stream_files_def log_files_def)
qed

lemma gz_first: "gz_file s < current_file s"
proof -
  have "CHR ''0'' < CHR ''j''" by (simp add: less_char_def)
  then show ?thesis by (simp add: current_file_def list_less_def lexord_same_pref_iff)
qed

text \<open>
  C37. A report reads only the last rotated part of a stream and what came after it: each rotation
  replaces the file of the one before, because the number of the stream starts again at 0. With a
  rotation every \<open>n\<close> rows it reads all rows but the first \<open>(k div n - 1) * n\<close> of the \<open>k\<close> written.
\<close>

theorem rotation_keeps_only_last_part:
  assumes "list_all (\<lambda>w. dotless (fst w)) ws" "dotless s" "0 < n" "n \<le> 2 ^ 53"
  shows "readStream s (lg_dir (log_rows ws (new_run_logger [] (js_of_int (int n))))) =
    drop ((length (rows_of s ws) div n - 1) * n) (rows_of s ws)"
proof -
  let ?lg = "log_rows ws (new_run_logger [] (js_of_int (int n)))"
  obtain old cur where k: "kept n (rows_of s ws) = (old, cur)" by fastforce
  have f: "log_files ?lg" and i: "stream_inv n s (rows_of s ws) ?lg"
    using log_rows_inv [OF assms(1,3,4)] assms(2) by auto
  have rows: "map_of (lg_dir ?lg) (current_file s) = (if cur = [] then None else Some cur)"
    "map_of (lg_dir ?lg) (gz_file s) = (if old = [] then None else Some old)"
    using i k by (simp_all add: stream_inv_def)
  define fs where "fs = (if old = [] then [] else [gz_file s]) @ (if cur = [] then [] else [current_file s])"
  have "stream_files s (lg_dir ?lg) = fs"
  proof (rule sorted_distinct_set_unique)
    show "set (stream_files s (lg_dir ?lg)) = set fs"
      using stream_files_kept(1) [OF assms(2) f] rows by (auto simp: fs_def)
  qed (use stream_files_kept(2,3) [OF assms(2) f] gz_first [of s] in \<open>auto simp: fs_def\<close>)
  then have "readStream s (lg_dir ?lg) = old @ cur" by (simp add: readStream_def fs_def rows)
  then show ?thesis using kept_drop [OF assms(3), of "rows_of s ws"] k by simp
qed

theorem rotation_keeps_only_last_part_witness:
  "readStream ''tx'' (lg_dir (log_rows (map (\<lambda>i. (''tx'', i)) [0..<7] @ [(''node'', 9)])
     (new_run_logger [] (js_of_int (int 2))))) = [4, 5, 6::nat]"
  using rotation_keeps_only_last_part [of "map (\<lambda>i. (''tx'', i)) [0..<7] @ [(''node'', 9)]" "''tx''" 2]
  by (simp add: dotless_def rows_of_def upt_rec)

end
