(* ===== verification/Run_Report.thy ===== *)
theory Run_Report
  imports Collector_Properties
begin

text \<open>
  The report of a stress run, stress/scripts/analyze.js, over the rows that the collector of
  stress/lib/receiptCollector.js writes: what the report says of reverts, and what the older
  collector does with a block it could not fetch.
\<close>

section \<open>The analysis\<close>

record tx_tally =
  txTotal :: nat
  tx_ok :: nat
  tx_reverted :: nat
  tx_timeout :: nat
  tx_byType :: tally
  byTypeRevert :: tally
  tx_lat :: "int list"

definition tally_start :: tx_tally where
  "tally_start = \<lparr>txTotal = 0, tx_ok = 0, tx_reverted = 0, tx_timeout = 0, tx_byType = [], byTypeRevert = [], tx_lat = []\<rparr>"

text \<open>\<open>Number(t.status)\<close>: a row without a status gives \<open>Number(undefined)\<close>, which is NaN.\<close>

definition status_number :: "tx_row \<Rightarrow> jsnum" where
  "status_number t = (case row_status t of None \<Rightarrow> JNaN | Some s \<Rightarrow> string_to_number s)"

definition tally_row :: "tx_tally \<Rightarrow> tx_row \<Rightarrow> tx_tally" where
  "tally_row a t = (let b = a\<lparr>txTotal := Suc (txTotal a), tx_byType := tally_add (row_type t) (tx_byType a)\<rparr>;
     d = (if row_status t = Some ''timeout'' then b\<lparr>tx_timeout := Suc (tx_timeout b)\<rparr>
       else if status_number t = Fin 0
       then b\<lparr>tx_reverted := Suc (tx_reverted b), byTypeRevert := tally_add (row_type t) (byTypeRevert b)\<rparr>
       else b\<lparr>tx_ok := Suc (tx_ok b)\<rparr>) in
     if row_status t \<noteq> Some ''timeout'' \<and> length (tx_lat d) < 300000
     then d\<lparr>tx_lat := tx_lat d @ [row_latency t]\<rparr> else d)"

definition analyze_tx :: "tx_row list \<Rightarrow> tx_tally" where
  "analyze_tx rows = foldl tally_row tally_start rows"

definition err_kind :: "err_row \<Rightarrow> string" where
  "err_kind e = (case e of SubmitRow k msg \<Rightarrow> classify msg | RevertRow h r \<Rightarrow> ''revert''
     | RebroadcastRow h \<Rightarrow> ''rebroadcast'' | TimeoutRow h \<Rightarrow> ''timeout'')"

definition analyze_errors :: "err_row list \<Rightarrow> tally" where
  "analyze_errors es = foldl (\<lambda>m e. tally_add (err_kind e) m) [] es"

record node_row =
  nd_disk :: "jsnum option"
  nd_mempool :: "jsnum option"
  nd_block_ms :: "jsnum option"
  nd_catching :: bool

record node_tally =
  diskStart :: "jsnum option"
  diskEnd :: "jsnum option"
  memPeak :: jsnum
  btMax :: jsnum
  btSum :: jsnum
  btN :: nat
  caughtUp :: bool

definition node_tally_row :: "node_tally \<Rightarrow> node_row \<Rightarrow> node_tally" where
  "node_tally_row a n = (let
     a1 = (case nd_disk n of None \<Rightarrow> a
       | Some d \<Rightarrow> a\<lparr>diskStart := (if diskStart a = None then Some d else diskStart a), diskEnd := Some d\<rparr>);
     a2 = (case nd_mempool n of None \<Rightarrow> a1 | Some x \<Rightarrow> a1\<lparr>memPeak := js_max (memPeak a1) x\<rparr>);
     a3 = (case nd_block_ms n of None \<Rightarrow> a2
       | Some x \<Rightarrow> if x = JNaN \<or> x = Fin 0 then a2
           else a2\<lparr>btMax := js_max (btMax a2) x, btSum := js_add (btSum a2) x, btN := Suc (btN a2)\<rparr>) in
     if nd_catching n then a3\<lparr>caughtUp := True\<rparr> else a3)"

definition analyze_node :: "node_row list \<Rightarrow> node_tally" where
  "analyze_node rows = foldl node_tally_row
     \<lparr>diskStart = None, diskEnd = None, memPeak = Fin 0, btMax = Fin 0, btSum = Fin 0, btN = 0, caughtUp = False\<rparr> rows"

datatype problem =
    HighRevertRate int nat
  | SubmitErrors string nat
  | NeverMined nat
  | BlockTimeDrift
  | BlocksFull
  | NodeCatchingUp
  | DiskGrew
  | StillInFlight nat
  | NoRedFlags

definition unintendedReverts :: "tx_tally \<Rightarrow> int" where
  "unintendedReverts t = int (tx_reverted t) - int (tally_of (byTypeRevert t) ''revertOp'')
     - int (tally_of (byTypeRevert t) ''dexRemoveLiq'') - int (tally_of (byTypeRevert t) ''dexSwap'')"

definition problems :: "tx_tally \<Rightarrow> tally \<Rightarrow> node_tally \<Rightarrow> int \<Rightarrow> nat \<Rightarrow> problem list" where
  "problems t errs nd fillPct pendingAtEnd = (let
     avgBt = (if btN nd \<noteq> 0 then js_div (btSum nd) (js_of_int (int (btN nd))) else Fin 0);
     ps = (if txTotal t \<noteq> 0 \<and> js_lt (Fin (dbl (5 / 100))) (js_div (js_of_int (unintendedReverts t)) (js_of_int (int (txTotal t))))
           then [HighRevertRate (unintendedReverts t) (txTotal t)] else [])
       @ map (\<lambda>k. SubmitErrors k (tally_of errs k)) (filter (\<lambda>k. tally_of errs k \<noteq> 0)
           [''mempool_full'', ''nonce'', ''rpc_timeout'', ''rate_limited'', ''tx_too_large'', ''fee_too_low'', ''connection''])
       @ (if tx_timeout t \<noteq> 0 then [NeverMined (tx_timeout t)] else [])
       @ (if js_lt (Fin 6500) avgBt then [BlockTimeDrift] else [])
       @ (if 90 < fillPct then [BlocksFull] else [])
       @ (if caughtUp nd then [NodeCatchingUp] else [])
       @ (case (diskStart nd, diskEnd nd) of (Some a, Some b) \<Rightarrow> if js_lt (Fin 5) (js_sub a b) then [DiskGrew] else [] | _ \<Rightarrow> [])
       @ (if pendingAtEnd \<noteq> 0 then [StillInFlight pendingAtEnd] else [])
     in if ps = [] then [NoRedFlags] else ps)"

section \<open>Runs of the older collector\<close>

datatype stress_event =
    STrack string flight
  | SBlocks "int \<Rightarrow> int" "int \<Rightarrow> string list option" "string + int"
  | SReceipt "int option"
  | SSweep int

fun stress_collect :: "jsnum \<Rightarrow> stress_event \<Rightarrow> collector \<Rightarrow> collector" where
  "stress_collect tmo (STrack h m) c = sc_track h m c"
| "stress_collect tmo (SBlocks clock answers number) c = sc_block_loop clock answers number c"
| "stress_collect tmo (SReceipt answer) c = sc_receipt answer c"
| "stress_collect tmo (SSweep now) c = sc_sweep tmo now c"

fun stress_run :: "jsnum \<Rightarrow> stress_event list \<Rightarrow> collector \<Rightarrow> collector" where
  "stress_run tmo [] c = c"
| "stress_run tmo (ev # evs) c = stress_run tmo evs (stress_collect tmo ev c)"

section \<open>The report and the rows\<close>

text \<open>What the analysis makes of the rows so far agrees with the counters, reverts aside.\<close>

definition row_ok :: "tx_row \<Rightarrow> bool" where
  "row_ok r = (row_status r = None \<or> row_status r = Some ''timeout'')"

definition reported :: "collector \<Rightarrow> bool" where
  "reported c = (list_all row_ok (tx_rows c) \<and> tx_reverted (analyze_tx (tx_rows c)) = 0 \<and>
     byTypeRevert (analyze_tx (tx_rows c)) = [] \<and>
     tx_ok (analyze_tx (tx_rows c)) = mined (rc_metrics c) \<and> tx_timeout (analyze_tx (tx_rows c)) = timedOut (rc_metrics c))"

lemma analyze_snoc: "analyze_tx (rows @ [r]) = tally_row (analyze_tx rows) r"
  by (simp add: analyze_tx_def)

lemma reported_mine:
  assumes "reported c"
  shows "reported (sc_mine now n h c)"
proof (cases "map_of (flights c) h")
  case (Some m)
  then show ?thesis using assms
    by (simp add: sc_mine_def reported_def row_ok_def analyze_snoc tally_row_def status_number_def onMined_def Let_def)
qed (use assms in \<open>simp add: sc_mine_def\<close>)

lemma reported_mines: "reported c \<Longrightarrow> reported (sc_mines now n hs c)"
  by (induction hs arbitrary: c) (auto simp: reported_mine)

lemma reported_frame:
  "reported c \<Longrightarrow> tx_rows c' = tx_rows c \<Longrightarrow> mined (rc_metrics c') = mined (rc_metrics c) \<Longrightarrow>
     timedOut (rc_metrics c') = timedOut (rc_metrics c) \<Longrightarrow> reported c'"
  by (simp add: reported_def)

lemma reported_last [simp]: "reported (c\<lparr>lastBlock := b\<rparr>) = reported c"
  by (simp add: reported_def)

lemma reported_block: "reported c \<Longrightarrow> reported (sc_block now n answer c)"
  by (auto simp: sc_block_def intro!: reported_mines intro: reported_frame split: option.split)

lemma reported_expire: "reported c \<Longrightarrow> reported (sc_expire tmo now hm c)"
  by (cases hm) (simp add: sc_expire_def reported_def row_ok_def analyze_snoc tally_row_def onTimeout_def Let_def)

lemma reported_foldl: "(\<And>c x. reported c \<Longrightarrow> reported (f c x)) \<Longrightarrow> reported c \<Longrightarrow> reported (foldl f c xs)"
  by (induction xs arbitrary: c) auto

lemma reported_collect: "reported c \<Longrightarrow> reported (stress_collect tmo ev c)"
proof (cases ev)
  case (SBlocks clock answers number)
  assume r: "reported c"
  have "reported (foldl (\<lambda>c n. sc_block (clock n) n (answers n) c) c ns)" for ns
    by (rule reported_foldl [OF reported_block r])
  then show ?thesis using r
    by (auto simp: SBlocks sc_block_loop_def intro: reported_block split: sum.split)
next
  case (SSweep now)
  assume "reported c"
  then show ?thesis by (auto simp: SSweep sc_sweep_def intro: reported_foldl reported_expire)
qed (auto simp: sc_track_def sc_receipt_def onRevert_def intro: reported_frame split: list.split)

text \<open>
  The report of a stress run never shows a revert: whatever the receipts say, the rows that the
  analysis reads carry no status of a mined transaction, so every one counts as mined and fine, and the
  red flag for an unexpected revert rate cannot be raised. The counter of the run itself does see them.
\<close>

theorem report_never_shows_reverts:
  "tx_reverted (analyze_tx (tx_rows (stress_run tmo evs new_collector))) = 0 \<and>
   tx_ok (analyze_tx (tx_rows (stress_run tmo evs new_collector))) = mined (rc_metrics (stress_run tmo evs new_collector)) \<and>
   (\<forall>u n. HighRevertRate u n \<notin> set (problems (analyze_tx (tx_rows (stress_run tmo evs new_collector))) errs nd fillPct pending)) \<and>
   (\<exists>evs'. reverted (rc_metrics (stress_run tmo evs' new_collector)) = 1 \<and> length (tx_rows (stress_run tmo evs' new_collector)) = 1)"
proof -
  have "reported c \<Longrightarrow> reported (stress_run tmo evs c)" for c
    by (induction evs arbitrary: c) (simp_all add: reported_collect)
  moreover have "reported new_collector"
    by (simp add: reported_def new_collector_def new_metrics_def analyze_tx_def tally_start_def)
  ultimately have r: "reported (stress_run tmo evs new_collector)" .
  define t where "t = analyze_tx (tx_rows (stress_run tmo evs new_collector))"
  have rev: "tx_reverted t = 0" "byTypeRevert t = []" "tx_ok t = mined (rc_metrics (stress_run tmo evs new_collector))"
    using r by (simp_all add: reported_def t_def)
  then have "unintendedReverts t = 0" by (simp add: unintendedReverts_def tally_of_def)
  moreover have "\<not> js_lt (Fin (dbl (5 / 100))) (js_div (js_of_int 0) (js_of_int n))" for n
  proof -
    have z: "js_of_int 0 = Fin 0" by (simp add: js_of_int_def js_of_rat_def dbl_limit_def)
    have "0 \<le> dbl (5 / 100)" by (rule dbl_nonneg) simp
    then show ?thesis unfolding z
      by (cases "js_of_int n") (auto simp: js_of_rat_def dbl_limit_def)
  qed
  ultimately have "HighRevertRate u n \<notin> set (problems t errs nd fillPct pending)" for u n
    by (auto simp: problems_def Let_def split: option.splits)
  moreover have "reverted (rc_metrics (stress_run tmo [STrack ''h'' sample_flight,
        SBlocks (\<lambda>_. 9) (\<lambda>_. Some [''h'']) (Inr 5), SReceipt (Some 0)] new_collector)) = 1 \<and>
      length (tx_rows (stress_run tmo [STrack ''h'' sample_flight,
        SBlocks (\<lambda>_. 9) (\<lambda>_. Some [''h'']) (Inr 5), SReceipt (Some 0)] new_collector)) = 1"
    by (simp add: sc_track_def sc_block_loop_def sc_block_def sc_mine_def sc_receipt_def
        new_collector_def new_metrics_def onMined_def onRevert_def Let_def)
  ultimately show ?thesis using rev unfolding t_def by blast
qed

section \<open>A block that was not fetched\<close>

lemma mines_keep_flight:
  "h \<notin> set hs \<Longrightarrow> map_of (flights (sc_mines now n hs c)) h = map_of (flights c) h"
  by (induction hs arbitrary: c) (auto simp: sc_mine_def js_map.get_del split: option.split)

lemma blocks_keep_flight:
  assumes "\<forall>k \<in> set ns. \<forall>hs. answers k = Some hs \<longrightarrow> h \<notin> set hs"
  shows "map_of (flights (foldl (\<lambda>c n. sc_block (clock n) n (answers n) c) c ns)) h = map_of (flights c) h"
  using assms
proof (induction ns arbitrary: c)
  case (Cons n ns)
  have "map_of (flights (sc_block (clock n) n (answers n) c)) h = map_of (flights c) h"
    using Cons.prems by (auto simp: sc_block_def mines_keep_flight split: option.split)
  then show ?case using Cons by simp
qed simp

lemma sweep_times_out:
  assumes "map_of (flights c) h = Some m" "js_lt tmo (js_of_int (now - fl_submit m))"
  shows "\<exists>r \<in> set (tx_rows (sc_sweep tmo now c)). row_hash r = h \<and> row_status r = Some ''timeout''"
proof -
  have keep: "r \<in> set (tx_rows c) \<Longrightarrow> r \<in> set (tx_rows (foldl (\<lambda>c hm. sc_expire tmo now hm c) c hms))" for r c hms
    by (induction hms arbitrary: c) (auto simp: sc_expire_def split: prod.split)
  have "(h, m) \<in> set hms \<Longrightarrow> \<exists>r \<in> set (tx_rows (foldl (\<lambda>c hm. sc_expire tmo now hm c) c hms)).
      row_hash r = h \<and> row_status r = Some ''timeout''" for hms c
  proof (induction hms arbitrary: c)
    case (Cons hm hms)
    show ?case
    proof (cases "hm = (h, m)")
      case True
      let ?r = "\<lparr>row_hash = h, row_type = fl_type m, row_status = Some ''timeout'', row_latency = now - fl_submit m\<rparr>"
      have "?r \<in> set (tx_rows (sc_expire tmo now hm c))" using assms(2) by (simp add: True sc_expire_def)
      from keep [OF this] show ?thesis by force
    next
      case False
      then show ?thesis using Cons by simp
    qed
  qed simp
  then show ?thesis using map_of_SomeD [OF assms(1)] by (simp add: sc_sweep_def)
qed

text \<open>
  The older collector loses a block it could not fetch: it counts the block as done, never asks for
  it again, and a transaction mined in that block is reported as timed out, even when every later
  answer has it.
\<close>

theorem stress_unfetched_block_times_out:
  assumes "map_of (flights c) h = Some m" "lastBlock c \<noteq> 0" "lastBlock c < n" "n \<le> bn" "bn < bn'"
    and "answers n = None" "\<forall>k hs. k \<noteq> n \<longrightarrow> answers k = Some hs \<longrightarrow> h \<notin> set hs"
    and "\<forall>k hs. k \<noteq> n \<longrightarrow> answers' k = Some hs \<longrightarrow> h \<notin> set hs"
    and "js_lt tmo (js_of_int (now - fl_submit m))" "0 < bn"
  shows "\<exists>r \<in> set (tx_rows (sc_sweep tmo now (sc_block_loop clock' answers' (Inr bn')
      (sc_block_loop clock answers (Inr bn) c)))). row_hash r = h \<and> row_status r = Some ''timeout''"
proof -
  let ?c1 = "sc_block_loop clock answers (Inr bn) c"
  have "map_of (flights ?c1) h = Some m"
    using assms(1-4,6,7) blocks_keep_flight [of "[lastBlock c + 1..bn]" answers h clock c]
    by (simp add: sc_block_loop_def) (metis option.distinct(1))
  moreover have "lastBlock ?c1 = bn" using assms(3,4) by (simp add: sc_block_loop_def)
  moreover have "\<forall>k \<in> set [bn + 1..bn']. \<forall>hs. answers' k = Some hs \<longrightarrow> h \<notin> set hs"
  proof (intro ballI allI impI)
    fix k hs
    assume "k \<in> set [bn + 1..bn']" "answers' k = Some hs"
    moreover from this have "k \<noteq> n" using assms(4) by auto
    ultimately show "h \<notin> set hs" using assms(8) by blast
  qed
  ultimately have "map_of (flights (sc_block_loop clock' answers' (Inr bn') ?c1)) h = Some m"
    using assms(5,10) blocks_keep_flight [of "[bn + 1..bn']" answers' h clock' ?c1]
    by (simp add: sc_block_loop_def [of clock' answers'])
  then show ?thesis using assms(9) by (rule sweep_times_out)
qed

lemma stress_unfetched_block_times_out_witness:
  "let c = (sc_track ''h'' sample_flight new_collector)\<lparr>lastBlock := 4\<rparr>;
       none = \<lambda>k. if k = 5 then None else Some [];
       late = \<lambda>k. if k = 5 then Some [''h''] else Some []
   in \<exists>r \<in> set (tx_rows (sc_sweep (Fin 100) 2000 (sc_block_loop (\<lambda>_. 1100) late (Inr 7)
        (sc_block_loop (\<lambda>_. 1100) none (Inr 6) c)))). row_hash r = ''h'' \<and> row_status r = Some ''timeout''"
proof -
  let ?c = "(sc_track ''h'' sample_flight new_collector)\<lparr>lastBlock := 4\<rparr>"
  have "map_of (flights ?c) ''h'' = Some sample_flight" by (simp add: sc_track_def)
  moreover have "js_lt (Fin 100) (js_of_int (2000 - fl_submit sample_flight))" by code_simp
  ultimately show ?thesis unfolding Let_def
    by (intro stress_unfetched_block_times_out [where n = 5 and m = sample_flight]) auto
qed

end
