(* ===== verification/Run_Probe.thy ===== *)
theory Run_Probe
  imports Gemba_Prelude
begin

text \<open>
  The health probe of a node, endurance/lib/nodeProbe.js (stress/lib has the same file), which may stop a
  run, and the statistics of the blocks in stress/scripts/analyze.js. The bodies that the node answers and
  the free space are arguments; \<open>None\<close> is a read that fails.
\<close>

section \<open>The probe\<close>

datatype abort_reason = NodeCatchesUp | DiskLow

record node_probe =
  minFreeGb :: jsnum
  np_aborted :: "abort_reason option"
  lastHeight :: jsnum
  lastTs :: jsnum

definition new_node_probe :: "jsnum \<Rightarrow> node_probe" where
  "new_node_probe free = \<lparr>minFreeGb = free, np_aborted = None, lastHeight = Fin 0, lastTs = Fin 0\<rparr>"

record probe_row =
  pw_height :: "jsnum option"
  pw_catching :: bool
  pw_block_ms :: "jsnum option"
  pw_mempool :: "jsnum option"
  pw_disk :: "jsnum option"

text \<open>\<open>v?.name\<close>, and the truth of a number.\<close>

definition opt_member :: "jsval \<Rightarrow> string \<Rightarrow> jsval" where
  "opt_member v name = (case v of JObj ps \<Rightarrow> get_prop ps name | _ \<Rightarrow> JUndef)"

definition num_truthy :: "jsnum \<Rightarrow> bool" where
  "num_truthy x = (x \<noteq> JNaN \<and> x \<noteq> Fin 0)"

text \<open>The first reason stays.\<close>

definition np_abort :: "abort_reason \<Rightarrow> node_probe \<Rightarrow> node_probe" where
  "np_abort r p = (if np_aborted p = None then p\<lparr>np_aborted := Some r\<rparr> else p)"

definition sample_status :: "(jsval \<Rightarrow> jsnum) \<Rightarrow> jsval \<Rightarrow> probe_row \<Rightarrow> node_probe \<Rightarrow> probe_row \<times> node_probe" where
  "sample_status date_parse s row p = (let
       si = opt_member (opt_member s ''result'') ''sync_info'';
       height = to_number (opt_member si ''latest_block_height'');
       catching = truthy (opt_member si ''catching_up'');
       t = (if truthy (opt_member si ''latest_block_time'') then date_parse (opt_member si ''latest_block_time'') else Fin 0);
       ms = (if num_truthy (lastHeight p) \<and> js_lt (lastHeight p) height \<and> num_truthy (lastTs p)
             then Some (js_round (js_div (js_sub t (lastTs p)) (js_sub height (lastHeight p)))) else None);
       p1 = p\<lparr>lastHeight := height, lastTs := t\<rparr> in
     (row\<lparr>pw_height := Some height, pw_catching := catching, pw_block_ms := ms\<rparr>, if catching then np_abort NodeCatchesUp p1 else p1))"

text \<open>\<open>+x.toFixed(2)\<close>, for the numbers a disk can give.\<close>

definition to_fixed_2 :: "jsnum \<Rightarrow> jsnum" where
  "to_fixed_2 x = (case x of Fin q \<Rightarrow> js_of_rat (of_int \<lfloor>q * 100 + 1 / 2\<rfloor> / 100) | _ \<Rightarrow> x)"

definition sample_disk :: "jsnum \<times> jsnum \<Rightarrow> probe_row \<Rightarrow> node_probe \<Rightarrow> probe_row \<times> node_probe" where
  "sample_disk st row p = (let freeGb = js_div (js_mul (fst st) (snd st)) (Fin 1000000000) in
     (row\<lparr>pw_disk := Some (to_fixed_2 freeGb)\<rparr>, if js_lt freeGb (minFreeGb p) then np_abort DiskLow p else p))"

text \<open>One sample: the status, the number of unconfirmed transactions, the blocks free and their size.\<close>

definition np_sample :: "(jsval \<Rightarrow> jsnum) \<Rightarrow> jsval option \<Rightarrow> jsval option \<Rightarrow> (jsnum \<times> jsnum) option \<Rightarrow> node_probe \<Rightarrow> probe_row \<times> node_probe" where
  "np_sample date_parse status mempool disk p = (let
       row0 = \<lparr>pw_height = None, pw_catching = False, pw_block_ms = None, pw_mempool = None, pw_disk = None\<rparr>;
       (row1, p1) = (case status of None \<Rightarrow> (row0, p) | Some s \<Rightarrow> sample_status date_parse s row0 p);
       row2 = (case mempool of None \<Rightarrow> row1
         | Some u \<Rightarrow> row1\<lparr>pw_mempool := Some (to_number (opt_member (opt_member u ''result'') ''total''))\<rparr>) in
     (case disk of None \<Rightarrow> (row2, p1) | Some st \<Rightarrow> sample_disk st row2 p1))"

text \<open>A run is stopped only by a node that says it is behind or by a full disk, and the first reason stays.\<close>

lemma np_abort_aborted: "np_aborted (np_abort r p) = (if np_aborted p = None then Some r else np_aborted p)" "minFreeGb (np_abort r p) = minFreeGb p"
  by (simp_all add: np_abort_def)

lemma sample_status_abort:
  "np_aborted (snd (sample_status dp s row p)) = (if np_aborted p = None \<and> pw_catching (fst (sample_status dp s row p)) then Some NodeCatchesUp else np_aborted p)"
  "minFreeGb (snd (sample_status dp s row p)) = minFreeGb p"
  by (simp_all add: sample_status_def Let_def np_abort_aborted)

lemma sample_disk_abort:
  "np_aborted (snd (sample_disk st row p)) = (if np_aborted p = None \<and>
     js_lt (js_div (js_mul (fst st) (snd st)) (Fin 1000000000)) (minFreeGb p) then Some DiskLow else np_aborted p)"
  "pw_catching (fst (sample_disk st row p)) = pw_catching row"
  by (simp_all add: sample_disk_def Let_def np_abort_aborted)

lemma sample_abort:
  assumes "np_sample dp status mempool disk p = (row, p')" "np_aborted p = None" "np_aborted p' = Some r"
  shows "(\<exists>s. status = Some s \<and> r = NodeCatchesUp \<and> pw_catching row) \<or>
    (\<exists>st. disk = Some st \<and> r = DiskLow \<and> js_lt (js_div (js_mul (fst st) (snd st)) (Fin 1000000000)) (minFreeGb p))"
proof -
  have "row = fst (np_sample dp status mempool disk p)" "p' = snd (np_sample dp status mempool disk p)" using assms(1) by simp_all
  with assms(2,3) show ?thesis
    by (cases status; cases mempool; cases disk)
      (simp_all add: np_sample_def Let_def case_prod_beta sample_status_abort sample_disk_abort split: if_splits)
qed

lemma sample_latched: "np_aborted p = Some r \<Longrightarrow> np_aborted (snd (np_sample dp status mempool disk p)) = Some r"
  by (cases status; cases mempool; cases disk) (simp_all add: np_sample_def Let_def case_prod_beta sample_status_abort sample_disk_abort)

section \<open>The blocks of a report\<close>

text \<open>A row of the block log; amounts that are missing count as nothing.\<close>

record block_row =
  bk_ts :: int
  bk_txCount :: nat
  bk_gasUsed :: "int option"
  bk_gasLimit :: "int option"
  bk_baseFee :: "int option"

record block_tally =
  blkN :: nat
  gasUsedSum :: int
  bt_gasLimit :: int
  maxTx :: nat
  maxGas :: int
  baseMin :: "int option"
  baseMax :: "int option"
  blkTs :: "int list"

definition block_tally_row :: "block_tally \<Rightarrow> block_row \<Rightarrow> block_tally" where
  "block_tally_row a b = (let used = (case bk_gasUsed b of None \<Rightarrow> 0 | Some g \<Rightarrow> g) in
     a\<lparr>blkN := Suc (blkN a), gasUsedSum := gasUsedSum a + used,
       bt_gasLimit := (case bk_gasLimit b of None \<Rightarrow> bt_gasLimit a | Some l \<Rightarrow> l),
       maxTx := max (maxTx a) (bk_txCount b), maxGas := (if maxGas a < used then used else maxGas a),
       baseMin := (case bk_baseFee b of None \<Rightarrow> baseMin a
         | Some v \<Rightarrow> Some (case baseMin a of None \<Rightarrow> v | Some m \<Rightarrow> if v < m then v else m)),
       baseMax := (case bk_baseFee b of None \<Rightarrow> baseMax a
         | Some v \<Rightarrow> Some (case baseMax a of None \<Rightarrow> v | Some m \<Rightarrow> if m < v then v else m)),
       blkTs := (if bk_ts b \<noteq> 0 then blkTs a @ [bk_ts b] else blkTs a)\<rparr>)"

definition analyze_blocks :: "block_row list \<Rightarrow> block_tally" where
  "analyze_blocks rows = foldl block_tally_row \<lparr>blkN = 0, gasUsedSum = 0, bt_gasLimit = 0, maxTx = 0, maxGas = 0,
     baseMin = None, baseMax = None, blkTs = []\<rparr> rows"

definition fill_pct :: "block_tally \<Rightarrow> int" where
  "fill_pct a = (if 0 < bt_gasLimit a
     then big_div (big_div (gasUsedSum a) (int (max 1 (blkN a))) * 100) (bt_gasLimit a) else 0)"

text \<open>With a constant limit no block exceeds, the blocks are at most full.\<close>

lemma fill_pct_at_most_100:
  assumes "list_all (\<lambda>b. bk_gasLimit b = Some l \<and> (\<exists>u. bk_gasUsed b = Some u \<and> 0 \<le> u \<and> u \<le> l)) rows"
  shows "0 \<le> fill_pct (analyze_blocks rows) \<and> fill_pct (analyze_blocks rows) \<le> 100"
proof -
  have "0 \<le> gasUsedSum (analyze_blocks rows) \<and> gasUsedSum (analyze_blocks rows) \<le> l * int (length rows) \<and>
    blkN (analyze_blocks rows) = length rows \<and> (rows \<noteq> [] \<longrightarrow> bt_gasLimit (analyze_blocks rows) = l)"
    using assms
  proof (induction rows rule: rev_induct)
    case (snoc b rows)
    then show ?case by (auto simp: analyze_blocks_def block_tally_row_def Let_def algebra_simps)
  qed (simp add: analyze_blocks_def)
  then have s: "0 \<le> gasUsedSum (analyze_blocks rows)" "gasUsedSum (analyze_blocks rows) \<le> l * int (length rows)"
    "blkN (analyze_blocks rows) = length rows" "rows \<noteq> [] \<Longrightarrow> bt_gasLimit (analyze_blocks rows) = l" by auto
  show ?thesis
  proof (cases "rows = [] \<or> l \<le> 0")
    case True
    then have "\<not> 0 < bt_gasLimit (analyze_blocks rows)"
      using s(4) by (cases "rows = []") (simp_all add: analyze_blocks_def)
    then show ?thesis by (simp add: fill_pct_def)
  next
    case False
    then have l: "0 < l" "bt_gasLimit (analyze_blocks rows) = l" "0 < int (length rows)" "max 1 (length rows) = length rows"
      using s(4) by (auto simp: Suc_leI)
    let ?a = "gasUsedSum (analyze_blocks rows) div int (length rows)"
    have a: "0 \<le> ?a" "?a \<le> l"
      using s l zdiv_mono1 [OF s(2), of "int (length rows)"] by (auto simp: pos_imp_zdiv_nonneg_iff)
    then have "?a * 100 div l \<le> l * 100 div l" using l by (intro zdiv_mono1) auto
    then show ?thesis using l a s(1,3) by (simp add: fill_pct_def big_div_nonneg pos_imp_zdiv_nonneg_iff)
  qed
qed

end
