(* ===== verification/Checked_Nat.thy ===== *)
theory Checked_Nat
  imports Main "HOL-Library.Monad_Syntax"
begin

text \<open>
  The numbers of the Solidity contracts: \<open>nat\<close> below \<open>2^256\<close>, with operations that revert, as \<open>None\<close>, when the
  result is not one.
\<close>

definition chk :: "nat \<Rightarrow> nat option" where
  "chk n = (if n < 2 ^ 256 then Some n else None)"

definition chk_sub :: "nat \<Rightarrow> nat \<Rightarrow> nat option" where
  "chk_sub a b = (if b \<le> a then Some (a - b) else None)"

definition guard :: "bool \<Rightarrow> unit option" where
  "guard b = (if b then Some () else None)"

lemma chk_Some [simp]: "chk n = Some m \<longleftrightarrow> n < 2 ^ 256 \<and> m = n"
  by (auto simp: chk_def)

lemma chk_sub_Some [simp]: "chk_sub a b = Some m \<longleftrightarrow> b \<le> a \<and> m = a - b"
  by (auto simp: chk_sub_def)

lemma guard_Some [simp]: "guard b = Some u \<longleftrightarrow> b"
  by (simp add: guard_def)

lemma chk_value: "chk n = Some m \<Longrightarrow> m = n"
  by simp

end
