(* ===== verification/Rebase_Pair.thy ===== *)
theory Rebase_Pair
  imports Workload_Build Checked_Nat
begin

text \<open>
  The contracts behind the operations \<open>RebaseUp\<close> and \<open>RebaseSwap\<close> of the endurance run: RebasingToken of
  endurance/contracts/src/EdgeTokens.sol, and the pair and router of contracts/src/dex/gembaswap that swap
  it for the token TKA. Nothing in the bookkeeping of the generator bounds the number of rebases, but the
  pair keeps its reserves in 112 bits.

  Numbers are \<open>nat\<close> with checked operations: \<open>None\<close> is a revert, by the checks of Solidity 0.8 in the token
  and by SafeMath in the exchange. A reverted transaction leaves the state as it is.
\<close>

section \<open>The token\<close>

record rebasing =
  totalSupply :: nat
  totalShares :: nat
  rb_shares :: "string \<Rightarrow> nat"
  rb_allowance :: "string \<Rightarrow> string \<Rightarrow> nat"

definition toTokens :: "rebasing \<Rightarrow> nat \<Rightarrow> nat option" where
  "toTokens r s = (if totalShares r = 0 then Some s else map_option (\<lambda>x. x div totalShares r) (chk (s * totalSupply r)))"

definition toShares :: "rebasing \<Rightarrow> nat \<Rightarrow> nat option" where
  "toShares r t = (if totalSupply r = 0 then Some t else map_option (\<lambda>x. x div totalSupply r) (chk (t * totalShares r)))"

definition rb_balanceOf :: "rebasing \<Rightarrow> string \<Rightarrow> nat option" where
  "rb_balanceOf r a = toTokens r (rb_shares r a)"

definition rb_mint :: "string \<Rightarrow> nat \<Rightarrow> rebasing \<Rightarrow> rebasing option" where
  "rb_mint a t r = do {
     s \<leftarrow> toShares r t; v \<leftarrow> chk (rb_shares r a + s); ts \<leftarrow> chk (totalShares r + s); sup \<leftarrow> chk (totalSupply r + t);
     Some (r\<lparr>rb_shares := (rb_shares r)(a := v), totalShares := ts, totalSupply := sup\<rparr>) }"

definition rb_t :: "string \<Rightarrow> string \<Rightarrow> nat \<Rightarrow> rebasing \<Rightarrow> rebasing option" where
  "rb_t f a t r = do {
     s \<leftarrow> toShares r t; v \<leftarrow> chk_sub (rb_shares r f) s;
     let sh = (rb_shares r)(f := v); w \<leftarrow> chk (sh a + s);
     Some (r\<lparr>rb_shares := sh(a := w)\<rparr>) }"

definition rb_transferFrom :: "string \<Rightarrow> string \<Rightarrow> string \<Rightarrow> nat \<Rightarrow> rebasing \<Rightarrow> rebasing option" where
  "rb_transferFrom sender f a t r = (let al = rb_allowance r f sender in
     if al \<noteq> 2 ^ 256 - 1 then do {
       v \<leftarrow> chk_sub al t; rb_t f a t (r\<lparr>rb_allowance := (rb_allowance r)(f := (rb_allowance r f)(sender := v))\<rparr>) }
     else rb_t f a t r)"

definition rebase :: "nat \<Rightarrow> rebasing \<Rightarrow> rebasing option" where
  "rebase addBps r = do {
     x \<leftarrow> chk (totalSupply r * addBps); sup \<leftarrow> chk (totalSupply r + x div 10000);
     Some (r\<lparr>totalSupply := sup\<rparr>) }"

section \<open>The pair and the router\<close>

text \<open>
  The pair of the rebasing token with TKA, each side by its role; the code sorts the two by address. The
  balances of TKA are a map, its own allowances play no part.
\<close>

record rebase_world =
  rw_token :: rebasing
  rw_tka :: "string \<Rightarrow> nat"
  rw_pair :: string
  rw_router :: string
  rw_tokens :: "string set"
  reserveIn :: nat
  reserveOut :: nat

definition getAmountOut :: "nat \<Rightarrow> nat \<Rightarrow> nat \<Rightarrow> nat option" where
  "getAmountOut amountIn rIn rOut = do {
     guard (0 < amountIn); guard (0 < rIn \<and> 0 < rOut);
     fee \<leftarrow> chk (amountIn * 997); num \<leftarrow> chk (fee * rOut); d \<leftarrow> chk (rIn * 1000); den \<leftarrow> chk (d + fee);
     Some (num div den) }"

definition pair_update :: "nat \<Rightarrow> nat \<Rightarrow> rebase_world \<Rightarrow> rebase_world option" where
  "pair_update b0 b1 w = do { guard (b0 \<le> 2 ^ 112 - 1 \<and> b1 \<le> 2 ^ 112 - 1); Some (w\<lparr>reserveIn := b0, reserveOut := b1\<rparr>) }"

definition tka_transfer :: "string \<Rightarrow> string \<Rightarrow> nat \<Rightarrow> rebase_world \<Rightarrow> rebase_world option" where
  "tka_transfer f a n w = do {
     v \<leftarrow> chk_sub (rw_tka w f) n; let m = (rw_tka w)(f := v); x \<leftarrow> chk (m a + n); Some (w\<lparr>rw_tka := m(a := x)\<rparr>) }"

definition pair_swap :: "nat \<Rightarrow> string \<Rightarrow> rebase_world \<Rightarrow> rebase_world option" where
  "pair_swap out a w = do {
     guard (0 < out); guard (0 < reserveIn w \<and> out < reserveOut w); guard (a \<notin> rw_tokens w);
     w1 \<leftarrow> tka_transfer (rw_pair w) a out w;
     b0 \<leftarrow> rb_balanceOf (rw_token w1) (rw_pair w1);
     let b1 = rw_tka w1 (rw_pair w1);
     let in0 = (if reserveIn w < b0 then b0 - reserveIn w else 0);
     let in1 = (if reserveOut w - out < b1 then b1 - (reserveOut w - out) else 0);
     guard (0 < in0 \<or> 0 < in1);
     p0 \<leftarrow> chk (b0 * 1000); q0 \<leftarrow> chk (in0 * 3); adj0 \<leftarrow> chk_sub p0 q0;
     p1 \<leftarrow> chk (b1 * 1000); q1 \<leftarrow> chk (in1 * 3); adj1 \<leftarrow> chk_sub p1 q1;
     k \<leftarrow> chk (adj0 * adj1); k0 \<leftarrow> chk (reserveIn w * reserveOut w); k1 \<leftarrow> chk (k0 * 1000 ^ 2);
     guard (k1 \<le> k);
     pair_update b0 b1 w1 }"

text \<open>\<open>swapExactTokensForTokensSupportingFeeOnTransferTokens\<close> along the path from the rebasing token to TKA.\<close>

definition rebase_swap :: "int \<Rightarrow> string \<Rightarrow> nat \<Rightarrow> nat \<Rightarrow> string \<Rightarrow> int \<Rightarrow> rebase_world \<Rightarrow> rebase_world option" where
  "rebase_swap now sender amountIn outMin a deadline w = do {
     guard (now \<le> deadline);
     t \<leftarrow> rb_transferFrom (rw_router w) sender (rw_pair w) amountIn (rw_token w);
     let w1 = w\<lparr>rw_token := t\<rparr>;
     let before = rw_tka w1 a;
     b \<leftarrow> rb_balanceOf t (rw_pair w1); amountInput \<leftarrow> chk_sub b (reserveIn w1);
     out \<leftarrow> getAmountOut amountInput (reserveIn w1) (reserveOut w1);
     w2 \<leftarrow> pair_swap out a w1;
     d \<leftarrow> chk_sub (rw_tka w2 a) before; guard (outMin \<le> d);
     Some w2 }"

section \<open>Runs\<close>

text \<open>
  What happens to the two contracts in a run, in any order: rebases by the 10 basis points of the
  generator, which are counted, open mints of the token, swaps with any arguments, and transfers of TKA
  between other accounts.
\<close>

inductive rebase_run :: "rebase_world \<Rightarrow> nat \<Rightarrow> rebase_world \<Rightarrow> bool" for w0 where
  rr_start: "rebase_run w0 0 w0"
| rr_rebase: "rebase_run w0 k w \<Longrightarrow> rebase 10 (rw_token w) = Some t \<Longrightarrow> rebase_run w0 (Suc k) (w\<lparr>rw_token := t\<rparr>)"
| rr_mint: "rebase_run w0 k w \<Longrightarrow> rb_mint a n (rw_token w) = Some t \<Longrightarrow> rebase_run w0 k (w\<lparr>rw_token := t\<rparr>)"
| rr_swap: "rebase_run w0 k w \<Longrightarrow> rebase_swap now f x m a d w = Some w' \<Longrightarrow> rebase_run w0 k w'"
| rr_tka: "rebase_run w0 k w \<Longrightarrow> f \<noteq> rw_pair w \<Longrightarrow> tka_transfer f a n w = Some w' \<Longrightarrow> rebase_run w0 k w'"

text \<open>The exact balance of the pair, before it is rounded down.\<close>

definition pair_worth :: "rebase_world \<Rightarrow> rat" where
  "pair_worth w = of_nat (rb_shares (rw_token w) (rw_pair w)) * of_nat (totalSupply (rw_token w)) / of_nat (totalShares (rw_token w))"

definition pair_at_least :: "rat \<Rightarrow> rebase_world \<Rightarrow> bool" where
  "pair_at_least q w = (q \<le> pair_worth w \<and> 10000 \<le> totalSupply (rw_token w) \<and> 0 < totalShares (rw_token w))"

lemma rebase_worth:
  assumes "rebase 10 r = Some r'" "10000 \<le> totalSupply r"
  shows "rb_shares r' = rb_shares r" "totalShares r' = totalShares r" "10009 * totalSupply r \<le> 10000 * totalSupply r'" "totalSupply r \<le> totalSupply r'"
proof -
  have r': "r' = r\<lparr>totalSupply := totalSupply r + totalSupply r * 10 div 10000\<rparr>"
    using assms(1) by (auto simp: rebase_def bind_eq_Some_conv)
  then show "rb_shares r' = rb_shares r" "totalShares r' = totalShares r" "totalSupply r \<le> totalSupply r'" by simp_all
  have "totalSupply r * 10 div 10000 * 10000 + 9999 \<ge> totalSupply r * 10" by simp
  then show "10009 * totalSupply r \<le> 10000 * totalSupply r'" using assms(2) r' by simp
qed

lemma rb_mint_worth:
  assumes "rb_mint a n r = Some r'" "0 < totalSupply r"
  shows "rb_shares r x \<le> rb_shares r' x" "totalShares r \<le> totalShares r'" "totalSupply r \<le> totalSupply r'"
    "totalSupply r * totalShares r' \<le> totalSupply r' * totalShares r"
proof -
  let ?s = "n * totalShares r div totalSupply r"
  have r': "r' = r\<lparr>rb_shares := (rb_shares r)(a := rb_shares r a + ?s), totalShares := totalShares r + ?s, totalSupply := totalSupply r + n\<rparr>"
    using assms by (auto simp: rb_mint_def toShares_def bind_eq_Some_conv)
  then show "rb_shares r x \<le> rb_shares r' x" "totalShares r \<le> totalShares r'" "totalSupply r \<le> totalSupply r'" by simp_all
  have "totalSupply r * ?s \<le> n * totalShares r" by (rule times_div_less_eq_dividend)
  then show "totalSupply r * totalShares r' \<le> totalSupply r' * totalShares r" using r' by (simp add: algebra_simps)
qed

lemma rb_t_worth:
  assumes "rb_t f a n r = Some r'"
  shows "totalSupply r' = totalSupply r" "totalShares r' = totalShares r" "rb_shares r a \<le> rb_shares r' a"
  using assms by (auto simp: rb_t_def Let_def bind_eq_Some_conv)

lemma rb_transferFrom_worth:
  assumes "rb_transferFrom s f a n r = Some r'"
  shows "totalSupply r' = totalSupply r" "totalShares r' = totalShares r" "rb_shares r a \<le> rb_shares r' a"
proof -
  obtain al where "rb_t f a n (r\<lparr>rb_allowance := al\<rparr>) = Some r'"
  proof (cases "rb_allowance r f s = 2 ^ 256 - 1")
    case True
    with assms that [of "rb_allowance r"] show ?thesis by (simp add: rb_transferFrom_def)
  next
    case False
    with assms that show ?thesis unfolding rb_transferFrom_def Let_def by (auto simp only: bind_eq_Some_conv if_True not_False_eq_True)
  qed
  from rb_t_worth [OF this] show "totalSupply r' = totalSupply r" "totalShares r' = totalShares r" "rb_shares r a \<le> rb_shares r' a"
    by simp_all
qed

lemma tka_transfer_token: "tka_transfer f a n w = Some w' \<Longrightarrow> rw_token w' = rw_token w \<and> rw_pair w' = rw_pair w"
  by (auto simp: tka_transfer_def Let_def bind_eq_Some_conv)

lemma pair_update_Some: "pair_update b0 b1 w = Some w' \<Longrightarrow> w' = w\<lparr>reserveIn := b0, reserveOut := b1\<rparr> \<and> b0 \<le> 2 ^ 112 - 1"
  unfolding pair_update_def by (auto simp only: bind_eq_Some_conv guard_Some option.inject)

lemma pair_swap_parts:
  assumes "pair_swap out a w = Some w'"
  obtains w1 b0 b1 where "tka_transfer (rw_pair w) a out w = Some w1" "rb_balanceOf (rw_token w1) (rw_pair w1) = Some b0"
    "pair_update b0 b1 w1 = Some w'"
  using assms unfolding pair_swap_def Let_def by (auto simp only: bind_eq_Some_conv)

lemma pair_swap_token:
  assumes "pair_swap out a w = Some w'"
  shows "rw_token w' = rw_token w" "rw_pair w' = rw_pair w" "\<exists>b. rb_balanceOf (rw_token w') (rw_pair w') = Some b \<and> b \<le> 2 ^ 112 - 1"
proof -
  obtain w1 b0 b1 where w1: "tka_transfer (rw_pair w) a out w = Some w1" "rb_balanceOf (rw_token w1) (rw_pair w1) = Some b0"
    "pair_update b0 b1 w1 = Some w'"
    using assms by (rule pair_swap_parts)
  note t = tka_transfer_token [OF w1(1)] and u = pair_update_Some [OF w1(3)]
  from t u show "rw_token w' = rw_token w" "rw_pair w' = rw_pair w" by simp_all
  from t u w1(2) have "rb_balanceOf (rw_token w') (rw_pair w') = Some b0" by simp
  with u show "\<exists>b. rb_balanceOf (rw_token w') (rw_pair w') = Some b \<and> b \<le> 2 ^ 112 - 1" by blast
qed

lemma rebase_swap_token:
  assumes "rebase_swap now f x m a d w = Some w'"
  shows "rw_pair w' = rw_pair w" "rb_transferFrom (rw_router w) f (rw_pair w) x (rw_token w) = Some (rw_token w')"
    "\<exists>b. rb_balanceOf (rw_token w') (rw_pair w') = Some b \<and> b \<le> 2 ^ 112 - 1"
proof -
  obtain t out where t: "rb_transferFrom (rw_router w) f (rw_pair w) x (rw_token w) = Some t" "pair_swap out a (w\<lparr>rw_token := t\<rparr>) = Some w'"
    using assms unfolding rebase_swap_def Let_def by (auto simp only: bind_eq_Some_conv option.inject)
  note p = pair_swap_token [OF t(2)]
  from p(1,2) t(1) show "rw_pair w' = rw_pair w" "rb_transferFrom (rw_router w) f (rw_pair w) x (rw_token w) = Some (rw_token w')" by simp_all
  from p(3) show "\<exists>b. rb_balanceOf (rw_token w') (rw_pair w') = Some b \<and> b \<le> 2 ^ 112 - 1" .
qed

text \<open>No step lowers the worth of the pair, and a rebase raises it by nine tenths of the ten basis points at least.\<close>

lemma pair_at_least_mono:
  assumes "pair_at_least q w" "rw_pair w' = rw_pair w" "rb_shares (rw_token w) (rw_pair w) \<le> rb_shares (rw_token w') (rw_pair w)"
    "totalSupply (rw_token w) \<le> totalSupply (rw_token w')" "0 < totalShares (rw_token w')"
    "totalSupply (rw_token w) * totalShares (rw_token w') \<le> totalSupply (rw_token w') * totalShares (rw_token w)"
  shows "pair_at_least q w'"
proof -
  let ?r = "rw_token w" let ?r' = "rw_token w'" let ?p = "rw_pair w"
  have pos: "(0::rat) < of_nat (totalShares ?r)" "(0::rat) < of_nat (totalShares ?r')"
    using assms(1,5) by (simp_all add: pair_at_least_def)
  have "(of_nat (totalSupply ?r) :: rat) / of_nat (totalShares ?r) \<le> of_nat (totalSupply ?r') / of_nat (totalShares ?r')"
    using assms(6) pos by (simp add: le_divide_eq divide_le_eq flip: of_nat_mult)
  moreover have "(of_nat (rb_shares ?r ?p) :: rat) \<le> of_nat (rb_shares ?r' ?p)" using assms(3) by simp
  ultimately have "(of_nat (rb_shares ?r ?p) :: rat) * (of_nat (totalSupply ?r) / of_nat (totalShares ?r)) \<le>
      of_nat (rb_shares ?r' ?p) * (of_nat (totalSupply ?r') / of_nat (totalShares ?r'))"
    by (intro mult_mono) simp_all
  with assms show ?thesis by (simp add: pair_at_least_def pair_worth_def)
qed

lemma pair_at_least_rebase:
  assumes "pair_at_least q w" "0 \<le> q" "rebase 10 (rw_token w) = Some t"
  shows "pair_at_least (q * (10009 / 10000)) (w\<lparr>rw_token := t\<rparr>)"
proof -
  let ?r = "rw_token w" let ?p = "of_nat (rb_shares ?r (rw_pair w)) :: rat"
  have r: "10000 \<le> totalSupply ?r" "0 < totalShares ?r" "q \<le> ?p * of_nat (totalSupply ?r) / of_nat (totalShares ?r)"
    using assms(1) by (simp_all add: pair_at_least_def pair_worth_def)
  note t = rebase_worth [OF assms(3) r(1)]
  have "(of_nat (10009 * totalSupply ?r) :: rat) \<le> of_nat (10000 * totalSupply t)" using t(3) by (simp only: of_nat_le_iff)
  then have s: "(of_nat (totalSupply ?r) :: rat) * (10009 / 10000) \<le> of_nat (totalSupply t)" by simp
  have "q * (10009 / 10000) \<le> ?p * of_nat (totalSupply ?r) / of_nat (totalShares ?r) * (10009 / 10000)"
    using r(3) by (intro mult_right_mono) simp_all
  also have "\<dots> = ?p * (of_nat (totalSupply ?r) * (10009 / 10000)) / of_nat (totalShares ?r)" by simp
  also have "\<dots> \<le> ?p * of_nat (totalSupply t) / of_nat (totalShares ?r)"
    using s by (intro divide_right_mono mult_left_mono) simp_all
  finally show ?thesis using r t by (simp add: pair_at_least_def pair_worth_def)
qed

lemma run_keeps_worth:
  assumes "rebase_run w0 k w" "pair_at_least q w0" "0 \<le> q"
  shows "pair_at_least (q * (10009 / 10000) ^ k) w"
  using assms(1)
proof induction
  case rr_start
  then show ?case using assms(2) by simp
next
  case (rr_rebase k w t)
  then show ?case using pair_at_least_rebase [of "q * (10009 / 10000) ^ k" w t] assms(3) by (simp only: power_Suc2 mult.assoc) simp
next
  case (rr_mint k w a n t)
  then have "0 < totalSupply (rw_token w)" by (simp add: pair_at_least_def)
  note m = rb_mint_worth [OF rr_mint(2) this]
  have "0 < totalShares (rw_token w)" using rr_mint by (simp add: pair_at_least_def)
  then show ?case using m rr_mint(3) by (intro pair_at_least_mono [OF rr_mint(3)]) auto
next
  case (rr_swap k w now f x m a d w')
  note s = rebase_swap_token [OF rr_swap(2)]
  have "0 < totalShares (rw_token w)" using rr_swap by (simp add: pair_at_least_def)
  then show ?case using s(1) rb_transferFrom_worth [OF s(2)] by (intro pair_at_least_mono [OF rr_swap(3)]) auto
next
  case (rr_tka k w f a n w')
  then show ?case using tka_transfer_token [OF rr_tka(3)] by (simp add: pair_at_least_def pair_worth_def)
qed

section \<open>The overflow\<close>

lemma growth: "(53 * 10 ^ 6 :: rat) \<le> (10009 / 10000) ^ 20000"
proof -
  have "(547 / 500 :: rat) \<le> (10009 / 10000) ^ 100" by (simp add: power_divide)
  then have "(547 / 500 :: rat) ^ 200 \<le> ((10009 / 10000) ^ 100) ^ 200" by (rule power_mono) simp
  moreover have "(491 / 200 :: rat) \<le> (547 / 500) ^ 10" by (simp add: power_divide)
  then have "(491 / 200 :: rat) ^ 20 \<le> ((547 / 500) ^ 10) ^ 20" by (rule power_mono) simp
  moreover have "(53 * 10 ^ 6 :: rat) \<le> (491 / 200) ^ 20" by (simp add: power_divide)
  ultimately show ?thesis by (simp flip: power_mult)
qed

lemma full_pair_reverts:
  assumes "pair_at_least (2 ^ 112) w"
  shows "rebase_swap now f x m a d w = None"
proof (rule ccontr)
  assume "rebase_swap now f x m a d w \<noteq> None"
  then obtain w' where w': "rebase_swap now f x m a d w = Some w'" by auto
  note s = rebase_swap_token [OF w']
  have "0 < totalShares (rw_token w)" using assms by (simp add: pair_at_least_def)
  then have "pair_at_least (2 ^ 112) w'"
    using s(1) rb_transferFrom_worth [OF s(2)] by (intro pair_at_least_mono [OF assms]) auto
  then have big: "(2 ^ 112 :: rat) \<le> of_nat (rb_shares (rw_token w') (rw_pair w') * totalSupply (rw_token w')) / of_nat (totalShares (rw_token w'))"
    "0 < totalShares (rw_token w')" by (simp_all add: pair_at_least_def pair_worth_def)
  then have "(of_nat (2 ^ 112 * totalShares (rw_token w')) :: rat) \<le> of_nat (rb_shares (rw_token w') (rw_pair w') * totalSupply (rw_token w'))"
    by (simp add: le_divide_eq)
  then have "2 ^ 112 * totalShares (rw_token w') \<le> rb_shares (rw_token w') (rw_pair w') * totalSupply (rw_token w')"
    by (simp only: of_nat_le_iff)
  then have "2 ^ 112 \<le> rb_shares (rw_token w') (rw_pair w') * totalSupply (rw_token w') div totalShares (rw_token w')"
    using big(2) by (simp only: less_eq_div_iff_mult_less_eq)
  moreover obtain b where "rb_balanceOf (rw_token w') (rw_pair w') = Some b" "b \<le> 2 ^ 112 - 1" using s(3) by blast
  ultimately show False using big(2) by (auto simp: rb_balanceOf_def toTokens_def simp del: chk_Some dest!: chk_value)
qed

text \<open>
  C35. When the pair was seeded with \<open>10 ^ 26\<close> tokens, then after 20000 rebases, in any order with swaps and
  mints, every further swap of the rebasing token reverts, while the generator goes on building it, and
  further rebases, in every state of its bookkeeping.
\<close>

theorem rebasing_pair_overflows:
  assumes "rebase_run w0 k w" "pair_at_least (10 ^ 26) w0" "20000 \<le> k"
  shows "rebase_swap now f x m a d w = None \<and>
    fst (build e rnd t RebaseSwap v c) \<noteq> None \<and> fst (build e rnd t RebaseUp v c) \<noteq> None"
proof -
  have "pair_at_least (10 ^ 26 * (10009 / 10000) ^ k) w" by (rule run_keeps_worth [OF assms(1,2)]) simp
  moreover have "(10009 / 10000 :: rat) ^ 20000 \<le> (10009 / 10000) ^ k" by (rule power_increasing [OF assms(3)]) simp
  then have "(53 * 10 ^ 6 :: rat) \<le> (10009 / 10000) ^ k" by (rule order_trans [OF growth])
  then have "(2 ^ 112 :: rat) \<le> 10 ^ 26 * (10009 / 10000) ^ k" by simp
  ultimately have "pair_at_least (2 ^ 112) w" by (simp add: pair_at_least_def)
  then show ?thesis by (simp add: full_pair_reverts ready_def)
qed

text \<open>Such runs exist: the supply is still far from 256 bits.\<close>

lemma rebases_possible:
  assumes "of_nat (totalSupply (rw_token w0)) * (1001 / 1000) ^ n < (10 ^ 75 :: rat)" "k \<le> n"
  shows "\<exists>w. rebase_run w0 k w \<and> of_nat (totalSupply (rw_token w)) \<le> (of_nat (totalSupply (rw_token w0)) * (1001 / 1000) ^ k :: rat)"
  using assms(2)
proof (induction k)
  case 0
  show ?case by (rule exI [of _ w0]) (simp add: rebase_run.rr_start)
next
  case (Suc k)
  then obtain w where w: "rebase_run w0 k w" "of_nat (totalSupply (rw_token w)) \<le> (of_nat (totalSupply (rw_token w0)) * (1001 / 1000) ^ k :: rat)" by auto
  let ?s = "totalSupply (rw_token w)" let ?t = "rw_token w\<lparr>totalSupply := ?s + ?s * 10 div 10000\<rparr>"
  have "(1001 / 1000 :: rat) ^ k \<le> (1001 / 1000) ^ n" using Suc.prems by (intro power_increasing) simp_all
  then have "(of_nat (totalSupply (rw_token w0)) * (1001 / 1000) ^ k :: rat) \<le> of_nat (totalSupply (rw_token w0)) * (1001 / 1000) ^ n"
    by (rule mult_left_mono) simp
  with w(2) assms(1) have "(of_nat ?s :: rat) < of_nat (10 ^ 75)" by simp
  then have s: "?s < 10 ^ 75" by (simp only: of_nat_less_iff)
  have "rebase 10 (rw_token w) = Some ?t"
    unfolding rebase_def by (simp add: chk_def) (use s in simp)
  with w(1) have run: "rebase_run w0 (Suc k) (w\<lparr>rw_token := ?t\<rparr>)" by (rule rebase_run.rr_rebase)
  have "1000 * (?s + ?s * 10 div 10000) \<le> 1001 * ?s" by simp
  then have "(of_nat (1000 * (?s + ?s * 10 div 10000)) :: rat) \<le> of_nat (1001 * ?s)" by (simp only: of_nat_le_iff)
  then have "(of_nat (?s + ?s * 10 div 10000) :: rat) \<le> of_nat ?s * (1001 / 1000)" by simp
  also have "\<dots> \<le> of_nat (totalSupply (rw_token w0)) * (1001 / 1000) ^ k * (1001 / 1000)"
    using w(2) by (intro mult_right_mono) simp_all
  finally show ?case using run by (intro exI [of _ "w\<lparr>rw_token := ?t\<rparr>"]) (simp add: mult.assoc mult.commute)
qed

text \<open>The pair as the deployment leaves it, and 100 wallets seeded with \<open>10 ^ 28\<close> tokens each.\<close>

definition seeded_pair :: rebase_world where
  "seeded_pair = \<lparr>rw_token = \<lparr>totalSupply = 10 ^ 30, totalShares = 10 ^ 30, rb_shares = (\<lambda>a. if a = ''pair'' then 10 ^ 26 else 0)(''w'' := 10 ^ 28),
     rb_allowance = (\<lambda>f s. 2 ^ 255)\<rparr>, rw_tka = (\<lambda>a. 10 ^ 26), rw_pair = ''pair'', rw_router = ''router'', rw_tokens = {''rbt'', ''tka''},
     reserveIn = 10 ^ 26, reserveOut = 10 ^ 26\<rparr>"

text \<open>The first swap goes through.\<close>

lemma seeded_pair_swaps: "rebase_swap 0 ''w'' (10 ^ 18) 0 ''w'' 19999999999 seeded_pair \<noteq> None"
  by (simp add: rebase_swap_def rb_transferFrom_def rb_t_def toShares_def chk_def chk_sub_def guard_def seeded_pair_def rb_balanceOf_def toTokens_def
    getAmountOut_def pair_swap_def tka_transfer_def pair_update_def Let_def)

theorem rebasing_pair_overflows_witness:
  "\<exists>w. rebase_run seeded_pair 20000 w \<and> rebase_swap 0 ''w'' (10 ^ 18) 0 ''w'' 19999999999 w = None"
proof -
  have "(1001 / 1000 :: rat) ^ 100 \<le> 553 / 500" by (simp add: power_divide)
  then have "((1001 / 1000 :: rat) ^ 100) ^ 200 \<le> (553 / 500) ^ 200" by (rule power_mono) simp
  moreover have "(553 / 500 :: rat) ^ 10 \<le> 137 / 50" by (simp add: power_divide)
  then have "((553 / 500 :: rat) ^ 10) ^ 20 \<le> (137 / 50) ^ 20" by (rule power_mono) simp
  moreover have "(137 / 50 :: rat) ^ 20 \<le> 10 ^ 9" by (simp add: power_divide)
  ultimately have "(1001 / 1000 :: rat) ^ 20000 \<le> 10 ^ 9" by (simp flip: power_mult)
  then have "(10 ^ 30 * (1001 / 1000) ^ 20000 :: rat) \<le> 10 ^ 30 * 10 ^ 9" by (rule mult_left_mono) simp
  then have "of_nat (totalSupply (rw_token seeded_pair)) * (1001 / 1000) ^ 20000 < (10 ^ 75 :: rat)" by (simp add: seeded_pair_def)
  from rebases_possible [OF this order_refl] obtain w where w: "rebase_run seeded_pair 20000 w" by blast
  moreover have "pair_at_least (10 ^ 26) seeded_pair" by (simp add: pair_at_least_def pair_worth_def seeded_pair_def)
  ultimately show ?thesis using rebasing_pair_overflows [OF w] by blast
qed

end
