(* ===== verification/Seeding.thy ===== *)
theory Seeding
  imports Workload_Build
begin

text \<open>
  Preparing the wallets of the endurance run, endurance/scripts/02-seed-wallets.mjs and lib/wallets.js:
  native coins up to a target, mints of the test tokens, and the approvals; and what the contracts of
  endurance/contracts/src and contracts/src/dex take from a wallet when it sends a request of the
  workloads. The property is that the seeding prepares everything the workloads need.

  Reads and submissions are arguments: \<open>None\<close> is a read that fails, and \<open>ok\<close> says which submissions the
  node accepts. The script ends with an error at the first failure, which is \<open>None\<close>; what it has sent by
  then is not modelled.
\<close>

section \<open>Wallets and providers\<close>

record seed_wallet =
  sw_index :: nat
  sw_addr :: string

definition provFor :: "nat \<Rightarrow> nat \<Rightarrow> nat" where
  "provFor n i = i mod n"

text \<open>\<open>asSigners\<close> of the endurance run gives each wallet one provider for good; that of the stress run asks
  the rotation of \<open>makeProviders\<close> at each use.\<close>

definition asSigners :: "seed_wallet list \<Rightarrow> 'p list \<Rightarrow> (nat \<times> string \<times> 'p) list" where
  "asSigners rs ps = map (\<lambda>r. (sw_index r, sw_addr r, ps ! (sw_index r mod length ps))) rs"

definition next_provider :: "'p list \<Rightarrow> nat \<Rightarrow> 'p \<times> nat" where
  "next_provider ps i = (ps ! (i mod length ps), Suc i)"

text \<open>A loop with a step of zero would not end; the script calls it with 25 and 6.\<close>

function chunks :: "'a list \<Rightarrow> nat \<Rightarrow> 'a list list" where
  "chunks a n = (if a = [] \<or> n = 0 then [] else take n a # chunks (drop n a) n)"
  by pat_completeness auto

termination by (relation "measure (\<lambda>(a, n). length a)") auto

declare chunks.simps [simp del]

section \<open>What is submitted\<close>

datatype seed_tx =
    SeedFund string int int
  | SeedMint string string int
  | SeedApprove string string string int
  | SeedApproveAll string string string int

definition seed_tokens :: int where "seed_tokens = 10 ^ 28"
definition MAXU :: int where "MAXU = 2 ^ 255"

definition MINT_TOKENS :: "string list" where
  "MINT_TOKENS = [''tka'', ''tkb'', ''tkc'', ''npToken'', ''feeToken'', ''rebaseToken'', ''permitToken'']"

definition ERC20_APPROVALS :: "(string \<times> string) list" where
  "ERC20_APPROVALS = [(''tka'', ''router''), (''tkb'', ''router''), (''tkc'', ''router''),
     (''pairAB'', ''router''), (''pairBC'', ''router''), (''pairAC'', ''router''),
     (''tka'', ''staking''), (''tkb'', ''vault''), (''tkc'', ''rewardStaking''),
     (''npToken'', ''nativePool''), (''feeToken'', ''router''), (''rebaseToken'', ''router'')]"

definition NFT_APPROVALS :: "(string \<times> string) list" where
  "NFT_APPROVALS = [(''marketNft'', ''market''), (''batchNft'', ''nftStaking''), (''royaltyNft'', ''royaltyMarket''), (''auctionNft'', ''auctionHouse'')]"

fun seed_gas :: "seed_tx \<Rightarrow> int" where
  "seed_gas (SeedFund a v n) = 21000"
| "seed_gas (SeedMint t a n) = 75000"
| "seed_gas (SeedApprove f t s n) = 60000"
| "seed_gas (SeedApproveAll f t s n) = 70000"

section \<open>The phases\<close>

text \<open>Transactions get their nonces in order before any is sent; only wallets below the target are topped up.\<close>

fun fund_ops :: "int \<Rightarrow> int \<Rightarrow> (seed_wallet \<times> int) list \<Rightarrow> seed_tx list" where
  "fund_ops target n [] = []"
| "fund_ops target n ((w, b) # ws) = (if b < target then SeedFund (sw_addr w) (target - b) n # fund_ops target (n + 1) ws
     else fund_ops target n ws)"

definition mint_ops :: "wl_env \<Rightarrow> int \<Rightarrow> seed_wallet list \<Rightarrow> seed_tx list" where
  "mint_ops e n ws = map (\<lambda>(i, t, a). SeedMint t a (n + int i))
     (enumerate 0 (concat (map (\<lambda>w. map (\<lambda>t. (wl_addr e t, sw_addr w)) MINT_TOKENS) ws)))"

definition approve_ops :: "wl_env \<Rightarrow> int \<Rightarrow> string \<Rightarrow> seed_tx list" where
  "approve_ops e n f = map (\<lambda>(i, t, s). SeedApprove f (wl_addr e t) (wl_addr e s) (n + int i)) (enumerate 0 ERC20_APPROVALS) @
     map (\<lambda>(i, t, s). SeedApproveAll f (wl_addr e t) (wl_addr e s) (n + int i)) (enumerate (length ERC20_APPROVALS) NFT_APPROVALS)"

text \<open>\<open>Promise.all\<close> of a chunk fails when one submission does, and the next chunk is not sent.\<close>

fun send_chunks :: "(seed_tx \<Rightarrow> bool) \<Rightarrow> seed_tx list list \<Rightarrow> seed_tx list option" where
  "send_chunks ok [] = Some []"
| "send_chunks ok (c # cs) = (if list_all ok c then map_option ((@) c) (send_chunks ok cs) else None)"

text \<open>The founder's phases end with waiting for the last transaction, which fails when it has reverted.\<close>

definition founder_phase :: "(seed_tx \<Rightarrow> bool) \<Rightarrow> (seed_tx \<Rightarrow> bool) \<Rightarrow> seed_tx list \<Rightarrow> seed_tx list option" where
  "founder_phase ok mined ops = (case send_chunks ok (chunks ops 25) of None \<Rightarrow> None
     | Some sent \<Rightarrow> if sent = [] \<or> mined (last sent) then Some sent else None)"

record seed_io =
  io_providers :: nat
  io_target :: int
  io_balance :: "nat \<Rightarrow> string \<Rightarrow> int option"
  io_founder :: "nat \<Rightarrow> int option"
  io_count :: "nat \<Rightarrow> string \<Rightarrow> int option"
  io_ok :: "seed_tx \<Rightarrow> bool"
  io_mined :: "seed_tx \<Rightarrow> bool"

definition seed_phase1 :: "seed_io \<Rightarrow> seed_wallet list \<Rightarrow> seed_tx list option" where
  "seed_phase1 io ws = (case those (map (\<lambda>w. io_balance io (provFor (io_providers io) (sw_index w)) (sw_addr w)) ws) of None \<Rightarrow> None
     | Some bals \<Rightarrow> (case io_founder io 1 of None \<Rightarrow> None
       | Some n \<Rightarrow> founder_phase (io_ok io) (io_mined io) (fund_ops (io_target io) n (zip ws bals))))"

definition seed_phase2 :: "wl_env \<Rightarrow> seed_io \<Rightarrow> seed_wallet list \<Rightarrow> seed_tx list option" where
  "seed_phase2 e io ws = (case io_founder io 2 of None \<Rightarrow> None
     | Some n \<Rightarrow> founder_phase (io_ok io) (io_mined io) (mint_ops e n ws))"

definition seed_wallet_approvals :: "wl_env \<Rightarrow> seed_io \<Rightarrow> seed_wallet \<Rightarrow> seed_tx list option" where
  "seed_wallet_approvals e io w = (case io_count io (provFor (io_providers io) (sw_index w)) (sw_addr w) of None \<Rightarrow> None
     | Some n \<Rightarrow> (let ops = approve_ops e n (sw_addr w) in if list_all (io_ok io) ops then Some ops else None))"

fun seed_phase3 :: "wl_env \<Rightarrow> seed_io \<Rightarrow> seed_wallet list list \<Rightarrow> seed_tx list option" where
  "seed_phase3 e io [] = Some []"
| "seed_phase3 e io (c # cs) = (case those (map (seed_wallet_approvals e io) c) of None \<Rightarrow> None
     | Some txs \<Rightarrow> map_option ((@) (concat txs)) (seed_phase3 e io cs))"

definition seed_run :: "wl_env \<Rightarrow> seed_io \<Rightarrow> seed_wallet list \<Rightarrow> seed_tx list option" where
  "seed_run e io ws = (case seed_phase1 io ws of None \<Rightarrow> None | Some a \<Rightarrow>
     (case seed_phase2 e io ws of None \<Rightarrow> None | Some b \<Rightarrow>
     (case seed_phase3 e io (chunks ws 6) of None \<Rightarrow> None | Some c \<Rightarrow> Some (a @ b @ c))))"

section \<open>What the chain makes of it\<close>

record seed_state =
  native_of :: "string \<Rightarrow> int"
  minted_to :: "string \<Rightarrow> string \<Rightarrow> int"
  allowance_of :: "string \<Rightarrow> string \<Rightarrow> string \<Rightarrow> int"
  operator_of :: "string \<Rightarrow> string \<Rightarrow> string \<Rightarrow> bool"

text \<open>
  What the chain adds to a transaction: the fee it took, whether it succeeded, and who the founder is. The sender pays
  the fee in any case: the founder for the coins and the mints, a wallet for its own approvals. A transaction that
  reverts does nothing else.
\<close>

record seed_block =
  sx_founder :: string
  sx_fee :: "seed_tx \<Rightarrow> int"
  sx_ok :: "seed_tx \<Rightarrow> bool"

fun seed_sender :: "seed_block \<Rightarrow> seed_tx \<Rightarrow> string" where
  "seed_sender B (SeedFund a v n) = sx_founder B"
| "seed_sender B (SeedMint t a n) = sx_founder B"
| "seed_sender B (SeedApprove f t p n) = f"
| "seed_sender B (SeedApproveAll f t p n) = f"

definition add_native :: "string \<Rightarrow> int \<Rightarrow> seed_state \<Rightarrow> seed_state" where
  "add_native a v s = s\<lparr>native_of := (native_of s)(a := native_of s a + v)\<rparr>"

fun seed_effect :: "seed_block \<Rightarrow> seed_state \<Rightarrow> seed_tx \<Rightarrow> seed_state" where
  "seed_effect B s (SeedFund a v n) = add_native a v (add_native (sx_founder B) (- v) s)"
| "seed_effect B s (SeedMint t a n) = s\<lparr>minted_to := (minted_to s)(t := (minted_to s t)(a := minted_to s t a + seed_tokens))\<rparr>"
| "seed_effect B s (SeedApprove f t p n) = s\<lparr>allowance_of := (allowance_of s)(f := (allowance_of s f)(t := (allowance_of s f t)(p := MAXU)))\<rparr>"
| "seed_effect B s (SeedApproveAll f t p n) = s\<lparr>operator_of := (operator_of s)(f := (operator_of s f)(t := (operator_of s f t)(p := True)))\<rparr>"

definition seed_exec :: "seed_block \<Rightarrow> seed_state \<Rightarrow> seed_tx \<Rightarrow> seed_state" where
  "seed_exec B s x = (let s1 = add_native (seed_sender B x) (- sx_fee B x) s in if sx_ok B x then seed_effect B s1 x else s1)"

definition seed_chain :: "seed_block \<Rightarrow> seed_state \<Rightarrow> seed_tx list \<Rightarrow> seed_state" where
  "seed_chain B = foldl (seed_exec B)"

text \<open>The fee of a transaction is at most its gas limit at the maximum price, \<open>MAXFEE\<close> of the script.\<close>

definition fees_within :: "seed_block \<Rightarrow> int \<Rightarrow> seed_tx list \<Rightarrow> bool" where
  "fees_within B maxfee = list_all (\<lambda>x. 0 \<le> sx_fee B x \<and> sx_fee B x \<le> seed_gas x * maxfee)"

section \<open>What the contracts take from the sender\<close>

text \<open>
  A pull is a \<open>transferFrom\<close> of the sender's tokens, or of a token of the sender, by the contract that is
  called. The amounts that the router takes of an addition are those desired at most, and a share of the
  vault is one token.
\<close>

datatype pull = PullToken string string int | PullNft string string int

text \<open>The router; \<open>pair_of\<close> finds the pair of two tokens.\<close>

definition pair_of :: "wl_env \<Rightarrow> string \<Rightarrow> string \<Rightarrow> string option" where
  "pair_of e a b = map_option (\<lambda>(x, y, l). l) (find (\<lambda>(x, y, l). x = a \<and> y = b) (wl_pairs e))"

definition router_swap_pulls :: "string \<Rightarrow> call_arg list \<Rightarrow> pull list" where
  "router_swap_pulls me as = (case as of Num amountIn # _ # Addrs (t # _) # _ \<Rightarrow> [PullToken t me amountIn] | _ \<Rightarrow> [])"

definition router_fee_swap_pulls :: "string \<Rightarrow> call_arg list \<Rightarrow> pull list" where
  "router_fee_swap_pulls me as = (case as of Num amountIn # _ # Addrs (t # _) # _ \<Rightarrow> [PullToken t me amountIn] | _ \<Rightarrow> [])"

definition router_add_pulls :: "string \<Rightarrow> call_arg list \<Rightarrow> pull list" where
  "router_add_pulls me as = (case as of Addr a # Addr b # Num x # Num y # _ \<Rightarrow> [PullToken a me x, PullToken b me y] | _ \<Rightarrow> [])"

definition router_remove_pulls :: "wl_env \<Rightarrow> string \<Rightarrow> call_arg list \<Rightarrow> pull list" where
  "router_remove_pulls e me as = (case as of Addr a # Addr b # Num l # _ \<Rightarrow>
     (case pair_of e a b of None \<Rightarrow> [] | Some p \<Rightarrow> [PullToken p me l]) | _ \<Rightarrow> [])"

definition first_amount_pull :: "string \<Rightarrow> string \<Rightarrow> call_arg list \<Rightarrow> pull list" where
  "first_amount_pull t me as = (case as of Num n # _ \<Rightarrow> [PullToken t me n] | _ \<Rightarrow> [])"

definition first_nft_pull :: "string \<Rightarrow> string \<Rightarrow> call_arg list \<Rightarrow> pull list" where
  "first_nft_pull t me as = (case as of Num i # _ \<Rightarrow> [PullNft t me i] | _ \<Rightarrow> [])"

text \<open>The token a contract of the suite was deployed over.\<close>

definition asset_of :: "string \<Rightarrow> string" where
  "asset_of c = (if c = ''vault'' then ''tkb'' else if c = ''staking'' then ''tka'' else if c = ''rewardStaking'' then ''tkc''
     else if c = ''nativePool'' then ''npToken'' else if c = ''market'' then ''marketNft'' else if c = ''royaltyMarket'' then ''royaltyNft''
     else if c = ''nftStaking'' then ''batchNft'' else if c = ''auctionHouse'' then ''auctionNft'' else [])"

text \<open>The functions that pull, by the interface the call is encoded with; the contract is the target of the request.\<close>

definition pulls_tokens :: "(string \<times> string) list" where
  "pulls_tokens = [(''nativePool'', ''swapExactTokensForNative''), (''nativePool'', ''addLiquidity''), (''vault'', ''deposit''), (''vault'', ''mint''),
     (''staking'', ''stake''), (''rewardStaking'', ''stake'')]"

definition pulls_nfts :: "(string \<times> string) list" where
  "pulls_nfts = [(''market'', ''list''), (''royaltyMarket'', ''list''), (''nftStaking'', ''stake''), (''auctionHouse'', ''createEnglish''), (''auctionHouse'', ''createDutch'')]"

definition pulls :: "wl_env \<Rightarrow> tx_request \<Rightarrow> pull list" where
  "pulls e r = (case (rq_to r, rq_data r) of (Some me, Call c g as) \<Rightarrow> (
       if c = ''router'' then
         (if g = ''swapExactTokensForTokens'' then router_swap_pulls me as
          else if g = ''swapExactTokensForTokensSupportingFeeOnTransferTokens'' then router_fee_swap_pulls me as
          else if g = ''addLiquidity'' then router_add_pulls me as
          else if g = ''removeLiquidity'' then router_remove_pulls e me as else [])
       else if (c, g) \<in> set pulls_tokens then first_amount_pull (wl_addr e (asset_of c)) me as
       else if (c, g) \<in> set pulls_nfts then first_nft_pull (wl_addr e (asset_of c)) me as else [])
     | _ \<Rightarrow> [])"

text \<open>The pairs of the engine.\<close>

definition endurance_pairs :: "wl_env \<Rightarrow> (string \<times> string \<times> string) list" where
  "endurance_pairs e = [(wl_addr e ''tka'', wl_addr e ''tkb'', wl_addr e ''pairAB''), (wl_addr e ''tkb'', wl_addr e ''tkc'', wl_addr e ''pairBC''),
     (wl_addr e ''tka'', wl_addr e ''tkc'', wl_addr e ''pairAC'')]"

section \<open>The seeding is complete\<close>

lemma concat_chunks: "0 < n \<Longrightarrow> concat (chunks a n) = a"
  by (induction a n rule: chunks.induct) (subst chunks.simps, simp)

lemma send_chunks_Some: "send_chunks ok cs = Some sent \<Longrightarrow> sent = concat cs \<and> list_all ok sent"
  by (induction cs arbitrary: sent) (auto split: if_splits)

lemma founder_phase_Some: "founder_phase ok mined ops = Some sent \<Longrightarrow> sent = ops"
  using send_chunks_Some [of ok "chunks ops 25"]
  by (auto simp: founder_phase_def concat_chunks split: option.splits if_splits)

lemma those_map_Some: "those (map f xs) = Some ys \<Longrightarrow> length ys = length xs \<and> (\<forall>i < length xs. f (xs ! i) = Some (ys ! i))"
proof (induction xs arbitrary: ys)
  case (Cons x xs)
  then obtain y zs where "f x = Some y" "those (map f xs) = Some zs" "ys = y # zs" by (auto split: option.splits)
  with Cons.IH show ?case by (auto simp: nth_Cons split: nat.split)
qed simp

lemma those_map_in: "those (map f xs) = Some ys \<Longrightarrow> x \<in> set xs \<Longrightarrow> \<exists>y \<in> set ys. f x = Some y"
  using those_map_Some [of f xs ys] by (metis in_set_conv_nth)

lemma seed_phase3_has:
  assumes "seed_phase3 e io cs = Some sent" "w \<in> set c" "c \<in> set cs"
  shows "\<exists>n. set (approve_ops e n (sw_addr w)) \<subseteq> set sent"
  using assms
proof (induction cs arbitrary: sent)
  case (Cons d cs)
  then obtain txs rest where txs: "those (map (seed_wallet_approvals e io) d) = Some txs" "seed_phase3 e io cs = Some rest" "sent = concat txs @ rest"
    by (auto split: option.splits)
  show ?case
  proof (cases "c = d")
    case True
    with Cons.prems(2) those_map_in [OF txs(1)] obtain ops where "ops \<in> set txs" "seed_wallet_approvals e io w = Some ops" by blast
    moreover from this obtain n where "ops = approve_ops e n (sw_addr w)"
      by (auto simp: seed_wallet_approvals_def Let_def split: option.split_asm if_split_asm)
    ultimately have "set (approve_ops e n (sw_addr w)) \<subseteq> set sent" using txs(3) by fastforce
    then show ?thesis by blast
  next
    case False
    with Cons.prems have "c \<in> set cs" by simp
    from Cons.IH [OF txs(2) Cons.prems(2) this] show ?thesis using txs(3) by auto
  qed
qed simp

lemma seed_run_parts:
  assumes "seed_run e io ws = Some txs"
  obtains bals n1 n2 c where "those (map (\<lambda>w. io_balance io (provFor (io_providers io) (sw_index w)) (sw_addr w)) ws) = Some bals"
    "seed_phase3 e io (chunks ws 6) = Some c" "txs = fund_ops (io_target io) n1 (zip ws bals) @ mint_ops e n2 ws @ c"
  using assms
  by (auto simp: seed_run_def seed_phase1_def seed_phase2_def split: option.splits dest!: founder_phase_Some)

text \<open>Every transaction of the seeding only adds tokens and approvals, and one that succeeds adds its own.\<close>

lemma add_native_simps [simp]:
  "minted_to (add_native a v s) = minted_to s" "allowance_of (add_native a v s) = allowance_of s"
  "operator_of (add_native a v s) = operator_of s"
  by (simp_all add: add_native_def)

lemma seed_exec_grows:
  "minted_to s t a \<le> minted_to (seed_exec B s x) t a \<and> (operator_of s f t p \<longrightarrow> operator_of (seed_exec B s x) f t p) \<and>
   (allowance_of s f t p = MAXU \<longrightarrow> allowance_of (seed_exec B s x) f t p = MAXU)"
  by (cases x) (auto simp: seed_exec_def Let_def seed_tokens_def)

lemma seed_chain_grows:
  shows "minted_to s t a \<le> minted_to (seed_chain B s txs) t a" "operator_of s f t p \<Longrightarrow> operator_of (seed_chain B s txs) f t p"
    "allowance_of s f t p = MAXU \<Longrightarrow> allowance_of (seed_chain B s txs) f t p = MAXU"
proof -
  have "minted_to s t a \<le> minted_to (foldl (seed_exec B) s txs) t a \<and> (operator_of s f t p \<longrightarrow> operator_of (foldl (seed_exec B) s txs) f t p) \<and>
    (allowance_of s f t p = MAXU \<longrightarrow> allowance_of (foldl (seed_exec B) s txs) f t p = MAXU)"
  proof (induction txs arbitrary: s)
    case (Cons x txs)
    from Cons.IH [of "seed_exec B s x"] seed_exec_grows [of s t a B x f p] show ?case by (auto intro: order_trans)
  qed simp
  then show "minted_to s t a \<le> minted_to (seed_chain B s txs) t a" "operator_of s f t p \<Longrightarrow> operator_of (seed_chain B s txs) f t p"
    "allowance_of s f t p = MAXU \<Longrightarrow> allowance_of (seed_chain B s txs) f t p = MAXU"
    by (auto simp: seed_chain_def)
qed

lemma seed_chain_split:
  assumes "x \<in> set txs" "sx_ok B x"
  obtains s1 ys where "\<And>t a. minted_to s t a \<le> minted_to s1 t a"
    "seed_chain B s txs = seed_chain B (seed_effect B (add_native (seed_sender B x) (- sx_fee B x) s1) x) ys"
proof -
  obtain xs ys where "txs = xs @ x # ys" using assms(1) by (auto simp: in_set_conv_decomp)
  then have "seed_chain B s txs = seed_chain B (seed_exec B (seed_chain B s xs) x) ys" by (simp add: seed_chain_def)
  then show ?thesis using that [of "seed_chain B s xs" ys] seed_chain_grows(1) [of s _ _ B xs] assms(2)
    by (simp add: seed_exec_def Let_def)
qed

lemma seed_chain_has:
  assumes ok: "list_all (sx_ok B) txs"
  shows "SeedMint t a n \<in> set txs \<Longrightarrow> minted_to s t a + seed_tokens \<le> minted_to (seed_chain B s txs) t a"
    "SeedApproveAll f t p n \<in> set txs \<Longrightarrow> operator_of (seed_chain B s txs) f t p"
    "SeedApprove f t p n \<in> set txs \<Longrightarrow> allowance_of (seed_chain B s txs) f t p = MAXU"
proof -
  have ok: "sx_ok B x" if "x \<in> set txs" for x using ok that by (simp add: list_all_iff)
  show "minted_to s t a + seed_tokens \<le> minted_to (seed_chain B s txs) t a" if x: "SeedMint t a n \<in> set txs"
  proof (rule seed_chain_split [OF x ok [OF x], of s])
    fix s1 ys
    assume "\<And>t a. minted_to s t a \<le> minted_to s1 t a" and c: "seed_chain B s txs =
      seed_chain B (seed_effect B (add_native (seed_sender B (SeedMint t a n)) (- sx_fee B (SeedMint t a n)) s1) (SeedMint t a n)) ys"
    then show ?thesis unfolding c
      by (intro order_trans [OF _ seed_chain_grows(1)]) simp
  qed
  show "operator_of (seed_chain B s txs) f t p" if x: "SeedApproveAll f t p n \<in> set txs"
    by (rule seed_chain_split [OF x ok [OF x], of s]) (simp add: seed_chain_grows(2))
  show "allowance_of (seed_chain B s txs) f t p = MAXU" if x: "SeedApprove f t p n \<in> set txs"
    by (rule seed_chain_split [OF x ok [OF x], of s]) (simp add: seed_chain_grows(3))
qed

text \<open>A pull that one of the approvals is for, of at most one token.\<close>

definition pull_listed :: "wl_env \<Rightarrow> pull \<Rightarrow> bool" where
  "pull_listed e q = (case q of
     PullToken t p n \<Rightarrow> 0 \<le> n \<and> n \<le> 10 ^ 18 \<and> list_ex (\<lambda>(a, b). t = wl_addr e a \<and> p = wl_addr e b \<and>
       a \<in> set (MINT_TOKENS @ [''pairAB'', ''pairBC'', ''pairAC''])) ERC20_APPROVALS
   | PullNft t p i \<Rightarrow> list_ex (\<lambda>(a, b). t = wl_addr e a \<and> p = wl_addr e b) NFT_APPROVALS)"

lemma build_pulls_none:
  assumes "fst (build e rnd now op f c) = Some (r, eff)"
    "op \<notin> {DexSwap, DexAddLiq, DexRemoveLiq, FeeSwap, RebaseSwap, NativeSwapOut, NativeAddLiq, VaultDeposit, VaultMint, StakeDeposit, RwdStake,
      MktList, RoyaltyList, NftStakeStake, CreateEnglish, CreateDutch}"
  shows "pulls e r = []"
  using assms
  by (cases op) (auto simp: ready_def tx_def debit_def take_owned_def call_child_def on_auction_def on_proposal_def call0_def Let_def
    pulls_def pulls_tokens_def pulls_nfts_def split: if_splits option.splits list.splits)

lemmas pull_simps = pulls_def pulls_tokens_def pulls_nfts_def pull_listed_def first_amount_pull_def first_nft_pull_def asset_of_def
  ERC20_APPROVALS_def NFT_APPROVALS_def MINT_TOKENS_def

lemma build_pulls_plain:
  assumes "fst (build e rnd now op f c) = Some (r, eff)" "q \<in> set (pulls e r)"
    "op \<in> {FeeSwap, RebaseSwap, NativeSwapOut, NativeAddLiq, VaultDeposit, VaultMint, StakeDeposit, RwdStake}"
  shows "pull_listed e q"
  using assms
  by (auto simp: ready_def tx_def pull_simps router_fee_swap_pulls_def SWAP_IN_def NSWAP_IN_def NADD_TOK_def)

lemma build_pulls_owned:
  assumes "fst (build e rnd now op f c) = Some (r, eff)" "q \<in> set (pulls e r)"
    "op \<in> {MktList, RoyaltyList, NftStakeStake, CreateEnglish, CreateDutch}"
  shows "pull_listed e q"
  using assms
  by (auto simp: take_owned_def tx_def pull_simps split: list.splits)

text \<open>The pairs the engine draws from, and their shares.\<close>

lemma pair_parts:
  assumes "(a, b, l) \<in> set (endurance_pairs e)"
  shows "pull_listed e (PullToken a (wl_addr e ''router'') (10 ^ 18))" "pull_listed e (PullToken b (wl_addr e ''router'') (10 ^ 18))"
    "pull_listed e (PullToken l (wl_addr e ''router'') (10 ^ 16))"
  using assms by (auto simp: endurance_pairs_def pull_simps)

lemma drawn_pair: "wl_pairs e = endurance_pairs e \<Longrightarrow> randOf rnd k (wl_pairs e) \<in> set (endurance_pairs e)"
  unfolding randOf_def draw_def by (metis endurance_pairs_def length_greater_0_conv list.distinct(1) mod_less_divisor nth_mem)

lemma pair_of_in: "pair_of e a b = Some l \<Longrightarrow> \<exists>x y. (x, y, l) \<in> set (wl_pairs e)"
  by (auto simp: pair_of_def find_Some_iff) (metis nth_mem)

lemma build_pulls_pairs:
  assumes "fst (build e rnd now op f c) = Some (r, eff)" "q \<in> set (pulls e r)" "wl_pairs e = endurance_pairs e"
    "op \<in> {DexSwap, DexAddLiq, DexRemoveLiq}"
  shows "pull_listed e q"
proof -
  obtain a b l where p: "randOf rnd 0 (wl_pairs e) = (a, b, l)" by (cases "randOf rnd 0 (wl_pairs e)")
  with drawn_pair [OF assms(3), of rnd 0] have "(a, b, l) \<in> set (endurance_pairs e)" by simp
  note parts = pair_parts [OF this]
  consider "op = DexSwap" | "op = DexAddLiq" | "op = DexRemoveLiq" using assms(4) by auto
  then show ?thesis
  proof cases
    case 1
    then show ?thesis using assms(1,2) p parts
      by (auto simp: ready_def tx_def pulls_def router_swap_pulls_def SWAP_IN_def split: if_splits)
  next
    case 2
    then show ?thesis using assms(1,2) p parts
      by (auto simp: ready_def tx_def pulls_def router_add_pulls_def ADD_LIQ_def)
  next
    case 3
    then obtain x y k where "q = PullToken k (wl_addr e ''router'') (10 ^ 16)" "pair_of e x y = Some k"
      using assms(1,2) by (auto simp: tx_def pulls_def router_remove_pulls_def LP_REMOVE_def split: option.splits)
    then show ?thesis using pair_of_in [of e x y k] pair_parts(3) [of _ _ k e] assms(3) by auto
  qed
qed

lemma build_pulls_listed:
  assumes "fst (build e rnd now op f c) = Some (r, eff)" "q \<in> set (pulls e r)" "wl_pairs e = endurance_pairs e"
  shows "pull_listed e q"
proof -
  consider "op \<in> {DexSwap, DexAddLiq, DexRemoveLiq}"
    | "op \<in> {FeeSwap, RebaseSwap, NativeSwapOut, NativeAddLiq, VaultDeposit, VaultMint, StakeDeposit, RwdStake}"
    | "op \<in> {MktList, RoyaltyList, NftStakeStake, CreateEnglish, CreateDutch}"
    | "op \<notin> {DexSwap, DexAddLiq, DexRemoveLiq, FeeSwap, RebaseSwap, NativeSwapOut, NativeAddLiq, VaultDeposit, VaultMint, StakeDeposit, RwdStake,
        MktList, RoyaltyList, NftStakeStake, CreateEnglish, CreateDutch}"
    by blast
  then show ?thesis
  proof cases
    case 1
    from build_pulls_pairs [OF assms 1] show ?thesis .
  next
    case 2
    from build_pulls_plain [OF assms(1,2) 2] show ?thesis .
  next
    case 3
    from build_pulls_owned [OF assms(1,2) 3] show ?thesis .
  next
    case 4
    from build_pulls_none [OF assms(1) 4] assms(2) show ?thesis by simp
  qed
qed

text \<open>What a finished seeding has sent for a wallet.\<close>

lemma set_enumerate_snd: "x \<in> set xs \<Longrightarrow> \<exists>i. (i, x) \<in> set (enumerate n xs)"
  by (metis in_set_conv_nth in_set_enumerate_eq add.commute diff_add_inverse2 le_add2 nat_add_left_cancel_less fst_conv snd_conv)

lemma seed_run_has:
  assumes "seed_run e io ws = Some txs" "w \<in> set ws"
  shows "(a, b) \<in> set ERC20_APPROVALS \<Longrightarrow> \<exists>n. SeedApprove (sw_addr w) (wl_addr e a) (wl_addr e b) n \<in> set txs"
    "(a, b) \<in> set NFT_APPROVALS \<Longrightarrow> \<exists>n. SeedApproveAll (sw_addr w) (wl_addr e a) (wl_addr e b) n \<in> set txs"
    "a \<in> set MINT_TOKENS \<Longrightarrow> \<exists>n. SeedMint (wl_addr e a) (sw_addr w) n \<in> set txs"
proof -
  obtain bals n1 n2 c where c: "seed_phase3 e io (chunks ws 6) = Some c" "txs = fund_ops (io_target io) n1 (zip ws bals) @ mint_ops e n2 ws @ c"
    using assms(1) by (rule seed_run_parts)
  have "w \<in> set (concat (chunks ws 6))" using assms(2) concat_chunks [of 6 ws] by simp
  then obtain d where "d \<in> set (chunks ws 6)" "w \<in> set d" by auto
  from seed_phase3_has [OF c(1) this(2,1)] obtain n where n: "set (approve_ops e n (sw_addr w)) \<subseteq> set c" ..
  show "\<exists>n. SeedApprove (sw_addr w) (wl_addr e a) (wl_addr e b) n \<in> set txs" if "(a, b) \<in> set ERC20_APPROVALS"
  proof -
    from set_enumerate_snd [OF that, of 0] obtain i where i: "(i, a, b) \<in> set (enumerate 0 ERC20_APPROVALS)" ..
    have "SeedApprove (sw_addr w) (wl_addr e a) (wl_addr e b) (n + int i) \<in> set (approve_ops e n (sw_addr w))"
      using imageI [OF i, of "\<lambda>(i, t, s). SeedApprove (sw_addr w) (wl_addr e t) (wl_addr e s) (n + int i)"] by (simp add: approve_ops_def)
    with n c(2) show ?thesis by auto
  qed
  show "\<exists>n. SeedApproveAll (sw_addr w) (wl_addr e a) (wl_addr e b) n \<in> set txs" if "(a, b) \<in> set NFT_APPROVALS"
  proof -
    from set_enumerate_snd [OF that, of "length ERC20_APPROVALS"] obtain i where i: "(i, a, b) \<in> set (enumerate (length ERC20_APPROVALS) NFT_APPROVALS)" ..
    have "SeedApproveAll (sw_addr w) (wl_addr e a) (wl_addr e b) (n + int i) \<in> set (approve_ops e n (sw_addr w))"
      using imageI [OF i, of "\<lambda>(i, t, s). SeedApproveAll (sw_addr w) (wl_addr e t) (wl_addr e s) (n + int i)"] by (simp add: approve_ops_def)
    with n c(2) show ?thesis by auto
  qed
  show "\<exists>n. SeedMint (wl_addr e a) (sw_addr w) n \<in> set txs" if "a \<in> set MINT_TOKENS"
  proof -
    have "(wl_addr e a, sw_addr w) \<in> set (concat (map (\<lambda>w. map (\<lambda>t. (wl_addr e t, sw_addr w)) MINT_TOKENS) ws))"
      using that assms(2) by auto
    from set_enumerate_snd [OF this, of 0] obtain i where
      i: "(i, wl_addr e a, sw_addr w) \<in> set (enumerate 0 (concat (map (\<lambda>w. map (\<lambda>t. (wl_addr e t, sw_addr w)) MINT_TOKENS) ws)))" ..
    have "SeedMint (wl_addr e a) (sw_addr w) (n2 + int i) \<in> set (mint_ops e n2 ws)"
      using imageI [OF i, of "\<lambda>(i, t, a). SeedMint t a (n2 + int i)"] by (simp add: mint_ops_def)
    with c(2) show ?thesis by auto
  qed
qed

text \<open>The native coins: what the transactions add to a wallet, and the gas it pays for itself.\<close>

fun fund_of :: "string \<Rightarrow> seed_tx \<Rightarrow> int" where
  "fund_of a (SeedFund b v n) = (if a = b then v else 0)"
| "fund_of a _ = 0"

fun gas_paid :: "string \<Rightarrow> seed_tx \<Rightarrow> int" where
  "gas_paid a (SeedApprove f t p n) = (if a = f then 60000 else 0)"
| "gas_paid a (SeedApproveAll f t p n) = (if a = f then 70000 else 0)"
| "gas_paid a _ = 0"

lemma native_seed_chain:
  assumes "a \<noteq> sx_founder B" "list_all (sx_ok B) txs" "fees_within B maxfee txs"
  shows "native_of s a + sum_list (map (fund_of a) txs) - maxfee * sum_list (map (gas_paid a) txs) \<le> native_of (seed_chain B s txs) a"
  using assms(2,3)
proof (induction txs rule: rev_induct)
  case (snoc x xs)
  have n: "native_of (seed_chain B s (xs @ [x])) a = native_of (seed_chain B s xs) a + fund_of a x - (if seed_sender B x = a then sx_fee B x else 0)"
    using snoc.prems assms(1) by (cases x) (auto simp: seed_chain_def seed_exec_def add_native_def Let_def)
  have "(if seed_sender B x = a then sx_fee B x else 0) \<le> maxfee * gas_paid a x"
    using snoc.prems assms(1) by (cases x) (auto simp: fees_within_def mult.commute)
  with n snoc show ?case by (simp add: fees_within_def distrib_left)
qed (simp add: seed_chain_def)

lemma no_gas: "(\<And>x. x \<in> set txs \<Longrightarrow> gas_paid a x = 0) \<Longrightarrow> sum_list (map (gas_paid a) txs) = 0"
  by (induction txs) auto

lemma fund_ops_no_gas: "sum_list (map (gas_paid a) (fund_ops target n wbs)) = 0"
  by (induction target n wbs rule: fund_ops.induct) auto

lemma mint_ops_no_gas: "sum_list (map (gas_paid a) (mint_ops e n ws)) = 0"
  by (rule no_gas) (auto simp: mint_ops_def)

lemma approve_ops_gas: "sum_list (map (gas_paid a) (approve_ops e n f)) = (if a = f then 1000000 else 0)"
  by (simp add: approve_ops_def ERC20_APPROVALS_def NFT_APPROVALS_def)

lemma approvals_gas:
  "those (map (seed_wallet_approvals e io) d) = Some txs \<Longrightarrow>
     sum_list (map (gas_paid a) (concat txs)) = 1000000 * int (length (filter (\<lambda>w. sw_addr w = a) d))"
proof (induction d arbitrary: txs)
  case (Cons w d)
  then obtain ops rest where o: "seed_wallet_approvals e io w = Some ops" and r: "those (map (seed_wallet_approvals e io) d) = Some rest"
    and t: "txs = ops # rest"
    by (auto split: option.splits)
  from o obtain n where "ops = approve_ops e n (sw_addr w)"
    by (auto simp: seed_wallet_approvals_def Let_def split: option.splits if_splits)
  with Cons.IH [OF r] show ?case by (simp add: t approve_ops_gas)
qed simp

lemma seed_phase3_gas:
  "seed_phase3 e io cs = Some c \<Longrightarrow> sum_list (map (gas_paid a) c) = 1000000 * int (length (filter (\<lambda>w. sw_addr w = a) (concat cs)))"
proof (induction cs arbitrary: c)
  case (Cons d cs)
  then obtain txs rest where "those (map (seed_wallet_approvals e io) d) = Some txs" "seed_phase3 e io cs = Some rest" "c = concat txs @ rest"
    by (auto split: option.splits)
  with Cons.IH approvals_gas show ?case by auto
qed simp

lemma one_wallet: "distinct (map sw_addr ws) \<Longrightarrow> w \<in> set ws \<Longrightarrow> length (filter (\<lambda>v. sw_addr v = sw_addr w) ws) = 1"
  by (induction ws) (auto simp: filter_empty_conv image_iff)

lemma no_funds: "(\<And>x. x \<in> set txs \<Longrightarrow> fund_of a x = 0) \<Longrightarrow> sum_list (map (fund_of a) txs) = 0"
  by (induction txs) auto

lemma fund_ops_nonneg: "0 \<le> sum_list (map (fund_of a) (fund_ops target n wbs))"
  by (induction target n wbs rule: fund_ops.induct) auto

lemma fund_ops_raises: "(w, b) \<in> set wbs \<Longrightarrow> target - b \<le> sum_list (map (fund_of (sw_addr w)) (fund_ops target n wbs))"
proof (induction target n wbs rule: fund_ops.induct)
  case (2 target n w' b' ws)
  show ?case
  proof (cases "b' < target")
    case True
    with 2 fund_ops_nonneg [of "sw_addr w" target "n + 1" ws] show ?thesis by auto
  next
    case False
    with 2 fund_ops_nonneg [of "sw_addr w" target n ws] show ?thesis by auto
  qed
qed simp

lemma approve_ops_no_fund: "sum_list (map (fund_of a) (approve_ops e n f)) = 0"
  by (rule no_funds) (auto simp: approve_ops_def)

lemma mint_ops_no_fund: "sum_list (map (fund_of a) (mint_ops e n ws)) = 0"
  by (rule no_funds) (auto simp: mint_ops_def)

lemma seed_phase3_no_fund: "seed_phase3 e io cs = Some c \<Longrightarrow> x \<in> set c \<Longrightarrow> fund_of a x = 0"
proof (induction cs arbitrary: c)
  case (Cons d cs)
  then obtain txs rest where txs: "those (map (seed_wallet_approvals e io) d) = Some txs" "seed_phase3 e io cs = Some rest" "c = concat txs @ rest"
    by (auto split: option.splits)
  show ?case
  proof (cases "x \<in> set rest")
    case True
    with Cons.IH txs(2) show ?thesis by blast
  next
    case False
    with Cons.prems(2) txs(3) obtain ops where ops: "ops \<in> set txs" "x \<in> set ops" by auto
    with those_map_Some [OF txs(1)] obtain w where "seed_wallet_approvals e io w = Some ops" by (metis in_set_conv_nth)
    with ops(2) show ?thesis
      by (auto simp: seed_wallet_approvals_def approve_ops_def Let_def split: option.split_asm if_split_asm)
  qed
qed simp

lemma seeding_tops_up:
  assumes "seed_run e io ws = Some txs" "w \<in> set ws" "distinct (map sw_addr ws)" "sw_addr w \<noteq> sx_founder B"
    and ok: "list_all (sx_ok B) txs" "fees_within B maxfee txs"
    and "\<And>w. w \<in> set ws \<Longrightarrow> io_balance io (provFor (io_providers io) (sw_index w)) (sw_addr w) = Some (native_of s (sw_addr w))"
  shows "io_target io - 1000000 * maxfee \<le> native_of (seed_chain B s txs) (sw_addr w)"
proof -
  obtain bals n1 n2 c where b: "those (map (\<lambda>w. io_balance io (provFor (io_providers io) (sw_index w)) (sw_addr w)) ws) = Some bals"
    and c: "seed_phase3 e io (chunks ws 6) = Some c" "txs = fund_ops (io_target io) n1 (zip ws bals) @ mint_ops e n2 ws @ c"
    using assms(1) by (rule seed_run_parts)
  obtain i where i: "i < length ws" "ws ! i = w" using assms(2) by (auto simp: in_set_conv_nth)
  with those_map_Some [OF b] assms(7) [OF assms(2)] have "bals ! i = native_of s (sw_addr w)" "length bals = length ws" by auto
  with i have "(w, native_of s (sw_addr w)) \<in> set (zip ws bals)" by (force simp: set_zip)
  from fund_ops_raises [OF this, of "io_target io" n1] c(2) mint_ops_no_fund [of "sw_addr w" e n2 ws]
    no_funds [of c "sw_addr w"] seed_phase3_no_fund [OF c(1)]
  have "io_target io \<le> native_of s (sw_addr w) + sum_list (map (fund_of (sw_addr w)) txs)" by simp
  moreover have "sum_list (map (gas_paid (sw_addr w)) txs) = 1000000"
    using seed_phase3_gas [OF c(1), of "sw_addr w"] one_wallet [OF assms(3,2)] concat_chunks [of 6 ws]
    by (simp add: c(2) fund_ops_no_gas mint_ops_no_gas)
  ultimately show ?thesis
    using native_seed_chain [OF assms(4) ok, of s] by (simp add: mult.commute)
qed

section \<open>The property\<close>

text \<open>What a pull needs to go through: an allowance or the rights of an operator, and the tokens, which
  for a share of a pair are those of an earlier addition.\<close>

definition pull_prepared :: "wl_env \<Rightarrow> seed_state \<Rightarrow> string \<Rightarrow> pull \<Rightarrow> bool" where
  "pull_prepared e s f q = (case q of
     PullToken t p n \<Rightarrow> n \<le> allowance_of s f t p \<and>
       (n \<le> minted_to s t f \<or> list_ex (\<lambda>l. t = wl_addr e l) [''pairAB'', ''pairBC'', ''pairAC''])
   | PullNft t p i \<Rightarrow> operator_of s f t p)"

text \<open>
  C23. When the seeding has ended and all its transactions have succeeded, every wallet has its native target but for
  the gas of its own sixteen approvals, 1,000,000 units at most at the maximum price, and whatever the workloads build for
  it at any time, every token and every NFT that the called contract takes from it is approved for that
  contract, and one mint covers it; only shares of a pair are left to an earlier addition.
\<close>

theorem seeding_covers_workloads:
  assumes "seed_run e io ws = Some txs" "w \<in> set ws" "wl_pairs e = endurance_pairs e"
    and "distinct (map sw_addr ws)" "sw_addr w \<noteq> sx_founder B" "list_all (sx_ok B) txs" "fees_within B maxfee txs"
    and "\<And>w. w \<in> set ws \<Longrightarrow> io_balance io (provFor (io_providers io) (sw_index w)) (sw_addr w) = Some (native_of s (sw_addr w))"
    and "\<And>t a. 0 \<le> minted_to s t a"
  shows "io_target io - 1000000 * maxfee \<le> native_of (seed_chain B s txs) (sw_addr w) \<and>
    (fst (build e rnd now op (sw_addr w) c) = Some (r, eff) \<longrightarrow> list_all (pull_prepared e (seed_chain B s txs) (sw_addr w)) (pulls e r))"
proof (intro conjI impI)
  show "io_target io - 1000000 * maxfee \<le> native_of (seed_chain B s txs) (sw_addr w)"
    using assms(1,2,4-8) by (rule seeding_tops_up)
next
  assume b: "fst (build e rnd now op (sw_addr w) c) = Some (r, eff)"
  note has = seed_run_has [OF assms(1,2)]
  have "pull_prepared e (seed_chain B s txs) (sw_addr w) q" if "q \<in> set (pulls e r)" for q
  proof (cases q)
    case (PullNft t p i)
    with build_pulls_listed [OF b that assms(3)] obtain x y where "(x, y) \<in> set NFT_APPROVALS" "t = wl_addr e x" "p = wl_addr e y"
      by (auto simp: pull_listed_def list_ex_iff)
    then show ?thesis using has(2) seed_chain_has(2) [OF assms(6)] PullNft by (fastforce simp: pull_prepared_def)
  next
    case (PullToken t p n)
    with build_pulls_listed [OF b that assms(3)] obtain x y where l: "(x, y) \<in> set ERC20_APPROVALS" "t = wl_addr e x" "p = wl_addr e y"
      "n \<le> 10 ^ 18" "x \<in> set (MINT_TOKENS @ [''pairAB'', ''pairBC'', ''pairAC''])" by (auto simp: pull_listed_def list_ex_iff)
    obtain k where "SeedApprove (sw_addr w) t p k \<in> set txs" using has(1) [OF l(1)] l(2,3) by blast
    then have al: "allowance_of (seed_chain B s txs) (sw_addr w) t p = MAXU" by (rule seed_chain_has(3) [OF assms(6)])
    have "n \<le> minted_to (seed_chain B s txs) t (sw_addr w)" if m: "x \<in> set MINT_TOKENS"
    proof -
      obtain k where "SeedMint t (sw_addr w) k \<in> set txs" using has(3) [OF m] l(2) by blast
      from seed_chain_has(1) [OF assms(6) this, of s] show ?thesis using l(4) assms(9) [of t "sw_addr w"] by (simp add: seed_tokens_def)
    qed
    moreover have "n \<le> MAXU" using l(4) by (simp add: MAXU_def)
    ultimately show ?thesis using al PullToken l(2,5) by (auto simp: pull_prepared_def)
  qed
  then show "list_all (pull_prepared e (seed_chain B s txs) (sw_addr w)) (pulls e r)" by (simp add: list_all_iff)
qed

definition seed_demo_env :: wl_env where
  "seed_demo_env = \<lparr>wl_addr = (\<lambda>s. s), wl_pool = [''0xa'', ''0xb''], wl_index = (\<lambda>_. 0),
     wl_pairs = [(''tka'', ''tkb'', ''pairAB''), (''tkb'', ''tkc'', ''pairBC''), (''tka'', ''tkc'', ''pairAC'')], childBytecode = [],
     createAddr = (\<lambda>f n. f), create2Addr = (\<lambda>n. []), salt32 = (\<lambda>n. []), cloneAddr = (\<lambda>s. []), permit_sig = (\<lambda>p s n. []), voucher_sig = (\<lambda>f i. [])\<rparr>"

definition seed_demo_io :: seed_io where
  "seed_demo_io = \<lparr>io_providers = 3, io_target = 15 * 10 ^ 18, io_balance = (\<lambda>i a. Some (if a = ''0xa'' then 10 ^ 18 else 20 * 10 ^ 18)),
     io_founder = (\<lambda>k. Some (int k)), io_count = (\<lambda>i a. Some 0), io_ok = (\<lambda>t. True), io_mined = (\<lambda>t. True)\<rparr>"

definition seed_demo_wallets :: "seed_wallet list" where
  "seed_demo_wallets = [\<lparr>sw_index = 0, sw_addr = ''0xa''\<rparr>, \<lparr>sw_index = 1, sw_addr = ''0xb''\<rparr>]"

definition seed_demo_state :: seed_state where
  "seed_demo_state = \<lparr>native_of = (\<lambda>a. if a = ''0xa'' then 10 ^ 18 else 20 * 10 ^ 18), minted_to = (\<lambda>t a. 0), allowance_of = (\<lambda>f t p. 0), operator_of = (\<lambda>f t p. False)\<rparr>"

definition seed_demo_block :: seed_block where
  "seed_demo_block = \<lparr>sx_founder = ''0xf'', sx_fee = (\<lambda>x. seed_gas x * 1000000000), sx_ok = (\<lambda>x. True)\<rparr>"

theorem seeding_covers_workloads_witness:
  "\<exists>txs. seed_run seed_demo_env seed_demo_io seed_demo_wallets = Some txs \<and>
    15 * 10 ^ 18 - 10 ^ 15 \<le> native_of (seed_chain seed_demo_block seed_demo_state txs) ''0xa'' \<and>
    pull_prepared seed_demo_env (seed_chain seed_demo_block seed_demo_state txs) ''0xa'' (PullToken ''tkb'' ''vault'' (10 ^ 18))"
proof -
  let ?w = "\<lparr>sw_index = 0, sw_addr = ''0xa''\<rparr>"
  let ?r = "tx ''vault'' (Call ''vault'' ''deposit'' [Num (10 ^ 18)]) 0 200000"
  have "seed_run seed_demo_env seed_demo_io seed_demo_wallets \<noteq> None" by code_simp
  then obtain txs where txs: "seed_run seed_demo_env seed_demo_io seed_demo_wallets = Some txs" by auto
  have b: "fst (build seed_demo_env (\<lambda>_. 0) 0 VaultDeposit (sw_addr ?w) c) = Some (?r, CreditTo Vault ''0xa'' (10 ^ 18))" for c
    by (simp add: ready_def seed_demo_env_def)
  have p: "pulls seed_demo_env ?r = [PullToken ''tkb'' ''vault'' (10 ^ 18)]"
    by (simp add: tx_def pull_simps seed_demo_env_def)
  have w: "?w \<in> set seed_demo_wallets" "wl_pairs seed_demo_env = endurance_pairs seed_demo_env"
    "distinct (map sw_addr seed_demo_wallets)" "sw_addr ?w \<noteq> sx_founder seed_demo_block"
    by (simp_all add: seed_demo_wallets_def seed_demo_env_def endurance_pairs_def seed_demo_block_def)
  have "0 \<le> seed_gas x" for x by (cases x) simp_all
  then have ok: "list_all (sx_ok seed_demo_block) txs" "fees_within seed_demo_block 1000000000 txs"
    by (simp_all add: seed_demo_block_def fees_within_def list_all_iff)
  have s: "io_balance seed_demo_io i a = Some (native_of seed_demo_state a)" "0 \<le> minted_to seed_demo_state t a" for i t a
    by (simp_all add: seed_demo_io_def seed_demo_state_def)
  have "io_target seed_demo_io - 1000000 * 1000000000 \<le> native_of (seed_chain seed_demo_block seed_demo_state txs) (sw_addr ?w) \<and>
    (fst (build seed_demo_env (\<lambda>_. 0) 0 VaultDeposit (sw_addr ?w) undefined) = Some (?r, CreditTo Vault ''0xa'' (10 ^ 18)) \<longrightarrow>
      list_all (pull_prepared seed_demo_env (seed_chain seed_demo_block seed_demo_state txs) (sw_addr ?w)) (pulls seed_demo_env ?r))"
    by (rule seeding_covers_workloads [OF txs w ok s])
  with b p txs show ?thesis by (auto simp: seed_demo_io_def)
qed

text \<open>
  Without the success of all: the script waits for the last approval of each wallet and reads the status of none, so it
  ends as complete although an approval has reverted, and the vault then refuses the wallet.
\<close>

definition seed_revert_block :: seed_block where
  "seed_revert_block = seed_demo_block\<lparr>sx_ok := \<lambda>x. case x of SeedApprove f t p n \<Rightarrow> p \<noteq> ''vault'' | _ \<Rightarrow> True\<rparr>"

theorem reverted_approval_unnoticed:
  "\<exists>txs. seed_run seed_demo_env seed_demo_io seed_demo_wallets = Some txs \<and>
    \<not> pull_prepared seed_demo_env (seed_chain seed_revert_block seed_demo_state txs) ''0xa'' (PullToken ''tkb'' ''vault'' (10 ^ 18))"
proof -
  have "case seed_run seed_demo_env seed_demo_io seed_demo_wallets of None \<Rightarrow> False
    | Some txs \<Rightarrow> allowance_of (seed_chain seed_revert_block seed_demo_state txs) ''0xa'' ''tkb'' ''vault'' = 0"
    by code_simp
  then show ?thesis by (auto simp: pull_prepared_def split: option.splits)
qed

end
