(* ===== verification/Stress_Run.thy ===== *)
theory Stress_Run
  imports Load_Engine
begin

text \<open>
  The stress run where it differs from the endurance run: the workloads of stress/config/workloads.js,
  the profiles of stress/config/profiles.js, and how stress/scripts/run.js fires one transaction and
  follows the phases. Its bookkeeping changes when a transaction is built, not when it is mined.
\<close>

section \<open>Workloads\<close>

datatype stress_op = SNativeTransfer | SErc20Mint | SErc20Transfer | SErc20Approve | SErc1155Mint | SErc1155Transfer
  | SErc721Mint | SNftMint | SNftTransfer | SWrapGMB | SUnwrapGMB | SStorageSet | SDexSwap | SDexAddLiq | SDexRemoveLiq
  | SStorageLoop | SDeploy | SGasBomb | SBigCalldata | SRevertOp

record stress_ctx =
  nft_count :: int
  maxNft :: jsnum
  st_nftSeq :: int
  st_nftOwned :: "string \<Rightarrow> int list"
  st_wrapped :: "string list"
  liqProviders :: "string list"

definition stress_ctx_start :: "env \<Rightarrow> stress_ctx" where
  "stress_ctx_start env = \<lparr>nft_count = 0, maxNft = env_num env ''MAX_NFT_SUPPLY'' (Fin 200000), st_nftSeq = 1,
     st_nftOwned = (\<lambda>f. []), st_wrapped = [], liqProviders = []\<rparr>"

definition bigBytes :: string where
  "bigBytes = ''0x'' @ concat (replicate 50000 ''ab'')"

text \<open>
  The draws are those of the endurance workloads; \<open>childBytecode\<close> of the environment is the bytecode the
  run deploys.
\<close>

fun stress_build :: "wl_env \<Rightarrow> draws \<Rightarrow> stress_op \<Rightarrow> string \<Rightarrow> stress_ctx \<Rightarrow> tx_request option \<times> stress_ctx" where
  "stress_build e rnd SNativeTransfer f c = (Some (tx (randOf rnd 0 (wl_pool e)) NoData 1 21000), c)"
| "stress_build e rnd SErc20Mint f c = (Some (tx (wl_addr e ''t0'') (Call ''erc20'' ''mint'' [Addr f, Num (10 ^ 24)]) 0 70000), c)"
| "stress_build e rnd SErc20Transfer f c = (Some (tx (randOf rnd 0 [wl_addr e ''t0'', wl_addr e ''t1''])
     (Call ''erc20'' ''transfer'' [Addr (randOf rnd 1 (wl_pool e)), Num 1]) 0 65000), c)"
| "stress_build e rnd SErc20Approve f c = (Some (tx (randOf rnd 0 [wl_addr e ''t0'', wl_addr e ''t1''])
     (Call ''erc20'' ''approve'' [Addr (wl_addr e ''dex''), Num (2 ^ 255)]) 0 60000), c)"
| "stress_build e rnd SErc1155Mint f c = (Some (tx (wl_addr e ''erc1155'')
     (Call ''erc1155'' ''mint'' [Addr f, Num (wl_index e f), Num 1000000]) 0 70000), c)"
| "stress_build e rnd SErc1155Transfer f c = (Some (tx (wl_addr e ''erc1155'')
     (Call ''erc1155'' ''safeTransferFrom'' [Addr f, Addr (randOf rnd 0 (wl_pool e)), Num (wl_index e f), Num 1, Text ''0x'']) 0 70000), c)"
| "stress_build e rnd SErc721Mint f c = (let c' = c\<lparr>nft_count := nft_count c + 1\<rparr> in
     if js_lt (js_of_int (nft_count c)) (maxNft c)
     then (Some (tx (wl_addr e ''erc721'') (Call ''erc721'' ''mint'' [Addr (randOf rnd 0 (wl_pool e))]) 0 120000), c') else (None, c'))"
| "stress_build e rnd SNftMint f c = (Some (tx (wl_addr e ''nft2'') (Call ''nft2'' ''mint'' [Addr f, Num (st_nftSeq c)]) 0 110000),
     c\<lparr>st_nftSeq := st_nftSeq c + 1, st_nftOwned := (st_nftOwned c)(f := st_nftOwned c f @ [st_nftSeq c])\<rparr>)"
| "stress_build e rnd SNftTransfer f c = (if length (st_nftOwned c f) < 3 then (None, c)
     else (Some (tx (wl_addr e ''nft2'') (Call ''nft2'' ''transferFrom'' [Addr f, Addr (randOf rnd 0 (wl_pool e)), Num (hd (st_nftOwned c f))]) 0 90000),
       c\<lparr>st_nftOwned := (st_nftOwned c)(f := tl (st_nftOwned c f))\<rparr>))"
| "stress_build e rnd SWrapGMB f c = (Some (tx (wl_addr e ''wgmb'') (Call ''wgmb'' ''deposit'' []) 1000000000000000 55000),
     c\<lparr>st_wrapped := List.insert f (st_wrapped c)\<rparr>)"
| "stress_build e rnd SUnwrapGMB f c = (if f \<in> set (st_wrapped c)
     then (Some (tx (wl_addr e ''wgmb'') (Call ''wgmb'' ''withdraw'' [Num 100000000000000]) 0 55000), c) else (None, c))"
| "stress_build e rnd SStorageSet f c = (Some (tx (wl_addr e ''storage'')
     (Call ''storage'' ''set'' [Num (int (draw rnd 0 1000000000)), Num (int (draw rnd 1 1000000000))]) 0 50000), c)"
| "stress_build e rnd SDexSwap f c = (Some (tx (wl_addr e ''dex'')
     (Call ''dex'' ''swap'' [Addr (wl_addr e ''t0''), Addr (wl_addr e ''t1''), Num 1000, Num 0]) 0 160000), c)"
| "stress_build e rnd SDexAddLiq f c = (Some (tx (wl_addr e ''dex'')
     (Call ''dex'' ''addLiquidity'' [Addr (wl_addr e ''t0''), Addr (wl_addr e ''t1''), Num 100000, Num 100000]) 0 220000),
     c\<lparr>liqProviders := List.insert f (liqProviders c)\<rparr>)"
| "stress_build e rnd SDexRemoveLiq f c = (if f \<in> set (liqProviders c)
     then (Some (tx (wl_addr e ''dex'') (Call ''dex'' ''removeLiquidity'' [Addr (wl_addr e ''t0''), Addr (wl_addr e ''t1''), Num 1000]) 0 180000), c)
     else (None, c))"
| "stress_build e rnd SStorageLoop f c = (Some (tx (wl_addr e ''storage'') (Call ''storage'' ''loop'' [Num 50]) 0 450000), c)"
| "stress_build e rnd SDeploy f c = (Some \<lparr>rq_to = None, rq_data = Raw (childBytecode e), rq_value = 0, rq_gas = 700000\<rparr>, c)"
| "stress_build e rnd SGasBomb f c = (Some (tx (wl_addr e ''gasbomb'') (Call ''gasbomb'' ''burn'' [Num 2000]) 0 5000000), c)"
| "stress_build e rnd SBigCalldata f c = (Some (tx (wl_addr e ''storage'') (Call ''storage'' ''sink'' [Text bigBytes]) 0 2600000), c)"
| "stress_build e rnd SRevertOp f c = (Some (tx (wl_addr e ''storage'') (Call ''storage'' ''boom'' []) 0 60000), c)"

text \<open>The weights of a set; an unknown name gives all.\<close>

definition stress_set :: "string \<Rightarrow> (stress_op \<times> nat) list" where
  "stress_set name = (
     if name = ''core'' then [(SNativeTransfer, 38), (SErc20Mint, 8), (SErc20Transfer, 25), (SErc20Approve, 5), (SErc1155Mint, 4),
       (SErc1155Transfer, 10), (SErc721Mint, 5), (SStorageSet, 5)]
     else if name = ''soak'' then [(SNativeTransfer, 24), (SErc20Mint, 5), (SErc20Transfer, 18), (SErc20Approve, 3), (SNftMint, 12),
       (SNftTransfer, 8), (SErc1155Mint, 3), (SErc1155Transfer, 8), (SWrapGMB, 6), (SUnwrapGMB, 4), (SDexSwap, 5), (SDexAddLiq, 2), (SStorageSet, 2)]
     else [(SNativeTransfer, 28), (SErc20Mint, 6), (SErc20Transfer, 18), (SErc20Approve, 5), (SErc1155Mint, 3), (SErc1155Transfer, 8),
       (SErc721Mint, 6), (SStorageSet, 5), (SDexSwap, 12), (SDexAddLiq, 4), (SDexRemoveLiq, 2), (SStorageLoop, 4), (SDeploy, 2),
       (SGasBomb, 2), (SBigCalldata, 2), (SRevertOp, 3)])"

section \<open>Profiles\<close>

datatype stress_plan = RampPlan ramp_profile jsnum jsnum | PhasePlan "phase list"

record stress_profile =
  sp_weights :: string
  sp_concurrency :: jsnum
  sp_plan :: stress_plan

text \<open>\<open>RampPlan\<close> carries the seconds of a step and of the whole ramp.\<close>

definition target_tps :: "env \<Rightarrow> jsnum" where
  "target_tps env = env_num env ''TARGET_TPS'' (Fin 50)"

definition soak_tps :: "env \<Rightarrow> jsnum" where
  "soak_tps env = env_num env ''SOAK_TPS'' (js_max (Fin 5) (js_round (js_mul (target_tps env) (Fin (dbl (4 / 10))))))"

definition stress_buildProfile :: "string \<Rightarrow> env \<Rightarrow> string + stress_profile" where
  "stress_buildProfile name env = (let t = target_tps env; s = soak_tps env in
     if name = ''A'' then Inr \<lparr>sp_weights = ''all'', sp_concurrency = concurrency_of env (Fin 600),
       sp_plan = RampPlan (ramp_profile_A env) (Fin 45) (Fin 1800)\<rparr>
     else if name = ''B'' then Inr \<lparr>sp_weights = ''all'', sp_concurrency = concurrency_of env (Fin 350),
       sp_plan = PhasePlan [Ramp ''ramp'' (Fin 5) t (Fin 300), Steady ''hold'' (js_round (js_mul t (Fin (dbl (8 / 10))))) (Fin 6660),
         Steady ''spike'' (js_round (js_mul t (Fin (dbl (15 / 10))))) (Fin 120), Steady ''cooldown'' (js_round (js_mul t (Fin (dbl (5 / 10))))) (Fin 120)]\<rparr>
     else if name = ''C'' then Inr \<lparr>sp_weights = ''soak'', sp_concurrency = concurrency_of env (Fin 200),
       sp_plan = PhasePlan [Ramp ''ramp'' (Fin 5) s (Fin 300), Steady ''soak'' s (Fin 14100)]\<rparr>
     else Inl (''unknown profile '' @ name @ '' (use A|B|C)''))"

text \<open>The stress run rounds the rate of a ramp.\<close>

definition stress_phase_rate :: "phase \<Rightarrow> int \<Rightarrow> jsnum option" where
  "stress_phase_rate ph elapsed = (case ph of
      Ramp nm a b sec \<Rightarrow> map_option js_round (phase_rate ph elapsed)
    | Steady nm r sec \<Rightarrow> phase_rate ph elapsed)"

section \<open>Firing\<close>

record stress_engine =
  se_ctx :: stress_ctx
  se_nm :: nonce_mgr
  se_rc :: collector

definition stress_fireOne :: "wl_env \<Rightarrow> (stress_op \<Rightarrow> string) \<Rightarrow> string \<Rightarrow> stress_op \<times> draws \<Rightarrow> shot \<Rightarrow> stress_engine \<Rightarrow> stress_engine" where
  "stress_fireOne e name a it sh en = (case stress_build e (snd it) (fst it) a (se_ctx en) of
      (None, c) \<Rightarrow> en\<lparr>se_ctx := c\<rparr>
    | (Some r, c) \<Rightarrow> (case stress_sendRaw a (sh_sign_error sh) (sh_answers sh 0) (sh_count sh) (se_nm en) of (res, nm) \<Rightarrow>
        (let en1 = en\<lparr>se_ctx := c, se_nm := nm\<rparr>; ty = name (fst it);
             metric = (\<lambda>g x. x\<lparr>se_rc := (se_rc x)\<lparr>rc_metrics := g (rc_metrics (se_rc x))\<rparr>\<rparr>);
             fl = \<lparr>fl_submit = sh_now sh, fl_signed = None, fl_deadline = JNaN, fl_rebroadcast = False, fl_from = a, fl_type = ty\<rparr>;
             follow = (\<lambda>x. x\<lparr>se_rc := sc_track (sh_hash sh) fl (se_rc x)\<rparr>) in
         case res of
           SentDropped n m \<Rightarrow> (metric (onSoft m) en1)\<lparr>se_nm := nm_settle a nm\<rparr>
         | SentOk n \<Rightarrow> follow (metric (onSubmit ty (sh_now sh)) en1)
         | SentSoft n m \<Rightarrow> follow (metric (\<lambda>x. onSoft m (onSubmit ty (sh_now sh) x)) en1)
         | SendThrew msg \<Rightarrow> (let en2 = metric (onSubmitFail msg) (en1\<lparr>se_nm := nm_settle a nm\<rparr>) in
             en2\<lparr>se_rc := (se_rc en2)\<lparr>err_rows := err_rows (se_rc en2) @ [SubmitRow ty msg]\<rparr>\<rparr>))))"

end
