(* ===== verification/Reclaim.thy ===== *)
theory Reclaim
  imports Gemba_Prelude
begin

text \<open>
  Returning the funds of a run, endurance/scripts/reclaim-locked.mjs and drain-to-founder.mjs: gas for the
  wallets that must act, removal of the pool shares, unwrapping, and the final sweep to the founder.

  Amounts are base units. Which submissions are accepted is an argument of the passes; the order within
  a chunk of parallel submissions is that of the list.
\<close>

section \<open>Configuration\<close>

definition FOUNDER :: string where
  "FOUNDER = ''0x5578c75F22dE0bf1caA4BdD46BA28406C696a5dC''"

text \<open>The script does not start when one of its targets is the faucet.\<close>

definition check_targets :: "string \<Rightarrow> string \<Rightarrow> string \<Rightarrow> string + unit" where
  "check_targets pool wgmb faucet = (
     case find (\<lambda>(n, a). to_lower a = to_lower faucet) [(''nativePool'', pool), (''wgmb'', wgmb), (''founder'', FOUNDER)] of
       None \<Rightarrow> Inr () | Some (n, a) \<Rightarrow> Inl (''refusing to run: '' @ n @ '' == faucet''))"

record reclaim_fees =
  rf_base :: int
  rf_tip :: int
  rf_topup :: int
  rf_topup_min :: int

definition maxFee :: "reclaim_fees \<Rightarrow> int" where
  "maxFee f = rf_base f * 3 + rf_tip f"

definition gasResv :: "reclaim_fees \<Rightarrow> int" where
  "gasResv f = 21000 * maxFee f"

text \<open>A holder with the balances of the snapshot; the founder has index \<open>-1\<close>.\<close>

record holder =
  ho_index :: int
  ho_addr :: string
  ho_lp :: int
  ho_wgmb :: int
  ho_native :: int

text \<open>What is submitted, with the nonce when the script chooses it.\<close>

datatype reclaim_tx =
    TopUp string int int
  | RemoveLp string int string
  | Unwrap string int
  | Sweep string int string

section \<open>The passes\<close>

definition needs_gas :: "string \<Rightarrow> reclaim_fees \<Rightarrow> holder \<Rightarrow> bool" where
  "needs_gas faucet f h = (0 \<le> ho_index h \<and> (0 < ho_lp h \<or> 0 < ho_wgmb h) \<and> ho_native h < rf_topup_min f
     \<and> to_lower (ho_addr h) \<noteq> to_lower faucet)"

text \<open>The founder's transactions take consecutive nonces from its count, before any is sent.\<close>

definition top_up_ops :: "string \<Rightarrow> reclaim_fees \<Rightarrow> int \<Rightarrow> holder list \<Rightarrow> reclaim_tx list" where
  "top_up_ops faucet f count hs = (let need = filter (needs_gas faucet f) hs in
     map (\<lambda>(i, h). TopUp (ho_addr h) (rf_topup f) (count + int i)) (zip [0..<length need] need))"

definition accepted :: "(reclaim_tx \<Rightarrow> bool) \<Rightarrow> reclaim_tx list \<Rightarrow> reclaim_tx list" where
  "accepted ok ops = filter ok ops"

text \<open>The transaction the pass waits for: the last one accepted.\<close>

definition waited_for :: "(reclaim_tx \<Rightarrow> bool) \<Rightarrow> reclaim_tx list \<Rightarrow> reclaim_tx option" where
  "waited_for ok ops = (case rev (accepted ok ops) of [] \<Rightarrow> None | x # xs \<Rightarrow> Some x)"

definition remove_ops :: "holder list \<Rightarrow> reclaim_tx list" where
  "remove_ops hs = map (\<lambda>h. RemoveLp (ho_addr h) (ho_lp h) FOUNDER) (filter (\<lambda>h. 0 < ho_lp h) hs)"

definition unwrap_ops :: "holder list \<Rightarrow> reclaim_tx list" where
  "unwrap_ops hs = map (\<lambda>h. Unwrap (ho_addr h) (ho_wgmb h)) (filter (\<lambda>h. 0 < ho_wgmb h) hs)"

text \<open>The sweep reads each balance again; a balance that cannot be read is skipped.\<close>

definition sweep_op :: "string \<Rightarrow> reclaim_fees \<Rightarrow> (string \<Rightarrow> int option) \<Rightarrow> string \<Rightarrow> reclaim_tx option" where
  "sweep_op faucet f bal a = (if to_lower a = to_lower faucet then None else case bal a of None \<Rightarrow> None
     | Some b \<Rightarrow> if gasResv f < b then Some (Sweep a (b - gasResv f) FOUNDER) else None)"

definition sweep_ops :: "string \<Rightarrow> reclaim_fees \<Rightarrow> (string \<Rightarrow> int option) \<Rightarrow> string list \<Rightarrow> reclaim_tx list" where
  "sweep_ops faucet f bal ws = List.map_filter (sweep_op faucet f bal) ws"

text \<open>
  \<open>drain-to-founder\<close> sweeps without the check of the faucet; a balance that cannot be read ends the
  script, which is \<open>None\<close>. The second result is the sum it reports.
\<close>

fun drain :: "reclaim_fees \<Rightarrow> (string \<Rightarrow> int option) \<Rightarrow> (reclaim_tx \<Rightarrow> bool) \<Rightarrow> string list \<Rightarrow> (reclaim_tx list \<times> int) option" where
  "drain f bal ok [] = Some ([], 0)"
| "drain f bal ok (a # ws) = (case bal a of None \<Rightarrow> None
     | Some b \<Rightarrow> (case drain f bal ok ws of None \<Rightarrow> None
       | Some (txs, returned) \<Rightarrow> (let t = Sweep a (b - gasResv f) FOUNDER in
           if gasResv f < b \<and> ok t then Some (t # txs, (b - gasResv f) + returned) else Some (txs, returned))))"

section \<open>Properties\<close>

text \<open>A pool executes the founder's transactions in the order of their nonces, from its count, without a gap.\<close>

definition executable :: "int \<Rightarrow> int set \<Rightarrow> int set" where
  "executable count nonces = {n \<in> nonces. \<forall>m. count \<le> m \<longrightarrow> m < n \<longrightarrow> m \<in> nonces}"

fun nonce_of :: "reclaim_tx \<Rightarrow> int" where
  "nonce_of (TopUp a v n) = n"
| "nonce_of _ = -1"

lemma top_up_nth:
  assumes "i < length (filter (needs_gas faucet f) hs)"
  shows "top_up_ops faucet f count hs ! i = TopUp (ho_addr (filter (needs_gas faucet f) hs ! i)) (rf_topup f) (count + int i)"
  using assms by (simp add: top_up_ops_def Let_def)

lemma top_up_length: "length (top_up_ops faucet f count hs) = length (filter (needs_gas faucet f) hs)"
  by (simp add: top_up_ops_def Let_def)

lemma top_up_nonces: "i < length (top_up_ops faucet f count hs) \<Longrightarrow> nonce_of (top_up_ops faucet f count hs ! i) = count + int i"
  by (simp add: top_up_nth top_up_length)

lemma waited_for_last: "waited_for ok ops = Some t \<Longrightarrow> t \<in> set ops \<and> ok t \<and>
    (\<exists>j < length ops. ops ! j = t \<and> (\<forall>k. j < k \<longrightarrow> k < length ops \<longrightarrow> \<not> ok (ops ! k)))"
proof (induction ops rule: rev_induct)
  case Nil then show ?case by (simp add: waited_for_def accepted_def)
next
  case (snoc x ops)
  show ?case
  proof (cases "ok x")
    case True
    with snoc.prems have "t = x" by (simp add: waited_for_def accepted_def)
    with True show ?thesis by (auto intro!: exI [of _ "length ops"])
  next
    case False
    with snoc.prems have "waited_for ok ops = Some t" by (simp add: waited_for_def accepted_def)
    with snoc.IH obtain j where "t \<in> set ops" "ok t" "j < length ops" "ops ! j = t"
      "\<forall>k. j < k \<longrightarrow> k < length ops \<longrightarrow> \<not> ok (ops ! k)" by blast
    with False show ?thesis by (auto simp: nth_append less_Suc_eq intro!: exI [of _ j])
  qed
qed

text \<open>
  When one top-up is refused and a later one is accepted, the later one can never be executed, and it
  is the one the script waits for: the pass does not end.
\<close>

theorem refused_top_up_hangs:
  assumes "i < j" "j < length (top_up_ops faucet f count hs)"
    and "\<not> ok (top_up_ops faucet f count hs ! i)" "ok (top_up_ops faucet f count hs ! j)"
  shows "\<exists>t. waited_for ok (top_up_ops faucet f count hs) = Some t \<and>
    nonce_of t \<notin> executable count (nonce_of ` set (accepted ok (top_up_ops faucet f count hs)))"
proof -
  let ?ops = "top_up_ops faucet f count hs"
  have "?ops ! j \<in> set (accepted ok ?ops)" using assms by (simp add: accepted_def)
  then obtain t where t: "waited_for ok ?ops = Some t"
    by (cases "rev (accepted ok ?ops)") (auto simp: waited_for_def)
  then obtain k where k: "k < length ?ops" "?ops ! k = t" "\<forall>l. k < l \<longrightarrow> l < length ?ops \<longrightarrow> \<not> ok (?ops ! l)"
    using waited_for_last by blast
  with assms have "j \<le> k" by (meson not_le)
  with assms(1) have i: "i < k" by simp
  have "count + int i \<notin> nonce_of ` set (accepted ok ?ops)"
  proof
    assume "count + int i \<in> nonce_of ` set (accepted ok ?ops)"
    then obtain x where x: "x \<in> set ?ops" "ok x" "nonce_of x = count + int i" by (auto simp: accepted_def)
    then obtain l where l: "l < length ?ops" "?ops ! l = x" by (auto simp: in_set_conv_nth)
    then have "nonce_of x = count + int l" using top_up_nonces [OF l(1)] by simp
    with x(3) have "l = i" by simp
    with l x(2) assms(3) show False by simp
  qed
  moreover have "nonce_of t = count + int k" using k(1,2) top_up_nonces by blast
  ultimately show ?thesis using t i by (auto simp: executable_def intro!: exI [of _ "count + int i"])
qed

text \<open>A sweep and the most its gas can cost are exactly the balance, and it never comes from the faucet.\<close>

lemma sweep_exact:
  assumes "Sweep a v t \<in> set (sweep_ops faucet f bal ws)"
  shows "bal a = Some (v + 21000 * maxFee f)" "0 < v" "t = FOUNDER" "to_lower a \<noteq> to_lower faucet" "a \<in> set ws"
  using assms by (auto simp: sweep_ops_def List.map_filter_def sweep_op_def gasResv_def split: if_splits option.splits)

lemma drain_reports_sum:
  "drain f bal ok ws = Some (txs, s) \<Longrightarrow> s = sum_list (map (\<lambda>t. case t of Sweep a v u \<Rightarrow> v | _ \<Rightarrow> 0) txs)"
  by (induction ws arbitrary: txs s) (auto simp: Let_def split: option.splits if_splits)

definition sample_holder :: "int \<Rightarrow> string \<Rightarrow> holder" where
  "sample_holder i a = \<lparr>ho_index = i, ho_addr = a, ho_lp = 5, ho_wgmb = 0, ho_native = 0\<rparr>"

definition sample_fees :: reclaim_fees where
  "sample_fees = \<lparr>rf_base = 5000000000, rf_tip = 2000000000, rf_topup = 5 * 10 ^ 16, rf_topup_min = 2 * 10 ^ 16\<rparr>"

theorem refused_top_up_hangs_witness:
  "\<exists>t. waited_for (\<lambda>t. nonce_of t \<noteq> 41) (top_up_ops ''0xF'' sample_fees 40 [sample_holder (-1) FOUNDER, sample_holder 0 ''0xa'',
      sample_holder 1 ''0xb'', sample_holder 2 ''0xc'']) = Some t \<and>
    nonce_of t \<notin> executable 40 (nonce_of ` set (accepted (\<lambda>t. nonce_of t \<noteq> 41) (top_up_ops ''0xF'' sample_fees 40
      [sample_holder (-1) FOUNDER, sample_holder 0 ''0xa'', sample_holder 1 ''0xb'', sample_holder 2 ''0xc''])))"
proof -
  let ?hs = "[sample_holder (-1) FOUNDER, sample_holder 0 ''0xa'', sample_holder 1 ''0xb'', sample_holder 2 ''0xc'']"
  have "top_up_ops ''0xF'' sample_fees 40 ?hs = [TopUp ''0xa'' (5 * 10 ^ 16) 40, TopUp ''0xb'' (5 * 10 ^ 16) 41, TopUp ''0xc'' (5 * 10 ^ 16) 42]"
    by code_simp
  then show ?thesis
    by (intro refused_top_up_hangs [of 1 2]) simp_all
qed

end
