(* ===== verification/Reclaim_Chain.thy ===== *)
theory Reclaim_Chain
  imports Reclaim Checked_Nat
begin

text \<open>
  What the reclaiming script makes the chain do: the contracts it acts on (removeLiquidity of
  contracts/src/dex/GembaNativePool.sol, withdraw of contracts/src/dex/WGMB.sol), the transactions with their fees, and
  endurance/scripts/reclaim-locked.mjs from the snapshot to the report, over them.

  Amounts on the chain are \<open>nat\<close> with the checks of Solidity. The order in which the transactions of a pass are mined,
  and the fee each one pays, are arguments.
\<close>

section \<open>The contracts\<close>

record funds =
  fn_native :: "string \<Rightarrow> nat"
  fn_token :: "string \<Rightarrow> nat"
  fn_lp :: "string \<Rightarrow> nat"
  fn_supply :: nat
  fn_reserveToken :: nat
  fn_reserveNative :: nat
  fn_wgmb :: "string \<Rightarrow> nat"

definition ZERO_ADDRESS :: string where
  "ZERO_ADDRESS = ''0x'' @ replicate 40 CHR ''0''"

definition pay :: "string \<Rightarrow> string \<Rightarrow> nat \<Rightarrow> funds \<Rightarrow> funds option" where
  "pay a b v w = do {
     rest \<leftarrow> chk_sub (fn_native w a) v;
     let n = (fn_native w)(a := rest);
     Some (w\<lparr>fn_native := n(b := n b + v)\<rparr>)
   }"

definition np_removeLiquidity :: "string \<Rightarrow> int \<Rightarrow> string \<Rightarrow> nat \<Rightarrow> nat \<Rightarrow> nat \<Rightarrow> string \<Rightarrow> int \<Rightarrow> funds \<Rightarrow> funds option" where
  "np_removeLiquidity pool now sender liquidity tokenMin nativeMin to deadline w = do {
     guard (now \<le> deadline);
     guard (to \<noteq> ZERO_ADDRESS);
     guard (liquidity \<noteq> 0);
     let supply = fn_supply w;
     guard (supply \<noteq> 0);
     t \<leftarrow> chk (liquidity * fn_reserveToken w);
     n \<leftarrow> chk (liquidity * fn_reserveNative w);
     let amountToken = t div supply;
     let amountNative = n div supply;
     guard (amountToken \<noteq> 0 \<and> amountNative \<noteq> 0);
     guard (tokenMin \<le> amountToken);
     guard (nativeMin \<le> amountNative);
     l \<leftarrow> chk_sub (fn_lp w sender) liquidity;
     rT \<leftarrow> chk_sub (fn_reserveToken w) amountToken;
     rN \<leftarrow> chk_sub (fn_reserveNative w) amountNative;
     rest \<leftarrow> chk_sub (fn_token w pool) amountToken;
     let tk = (fn_token w)(pool := rest);
     pay pool to amountNative (w\<lparr>fn_lp := (fn_lp w)(sender := l), fn_supply := supply - liquidity, fn_reserveToken := rT, fn_reserveNative := rN,
       fn_token := tk(to := tk to + amountToken)\<rparr>)
   }"

definition wgmb_withdraw :: "string \<Rightarrow> string \<Rightarrow> nat \<Rightarrow> funds \<Rightarrow> funds option" where
  "wgmb_withdraw wgmb sender wad w = do {
     rest \<leftarrow> chk_sub (fn_wgmb w sender) wad;
     pay wgmb sender wad (w\<lparr>fn_wgmb := (fn_wgmb w)(sender := rest)\<rparr>)
   }"

section \<open>The transactions\<close>

fun gas_of :: "reclaim_tx \<Rightarrow> nat" where
  "gas_of (TopUp a v n) = 21000"
| "gas_of (RemoveLp a l to) = 320000"
| "gas_of (Unwrap a n) = 90000"
| "gas_of (Sweep a v to) = 21000"

fun sender_of :: "reclaim_tx \<Rightarrow> string" where
  "sender_of (TopUp a v n) = FOUNDER"
| "sender_of (RemoveLp a l to) = a"
| "sender_of (Unwrap a n) = a"
| "sender_of (Sweep a v to) = a"

fun value_of :: "reclaim_tx \<Rightarrow> nat" where
  "value_of (TopUp a v n) = nat v"
| "value_of (Sweep a v to) = nat v"
| "value_of _ = 0"

definition DEADLINE_TIME :: int where "DEADLINE_TIME = 19999999999"

record reclaim_env =
  re_pool :: string
  re_wgmb :: string
  re_faucet :: string
  re_now :: int
  re_fees :: reclaim_fees
  re_paid :: "reclaim_tx \<Rightarrow> nat"

fun effect_of :: "reclaim_env \<Rightarrow> reclaim_tx \<Rightarrow> funds \<Rightarrow> funds option" where
  "effect_of e (TopUp a v n) w = pay FOUNDER a (nat v) w"
| "effect_of e (RemoveLp a l to) w = np_removeLiquidity (re_pool e) (re_now e) a (nat l) 0 0 to DEADLINE_TIME w"
| "effect_of e (Unwrap a n) w = wgmb_withdraw (re_wgmb e) a (nat n) w"
| "effect_of e (Sweep a v to) w = pay a to (nat v) w"

text \<open>A transaction needs its value and the most its gas can cost; it pays its fee also when it reverts.\<close>

definition affordable :: "reclaim_env \<Rightarrow> reclaim_tx \<Rightarrow> funds \<Rightarrow> bool" where
  "affordable e t w = (value_of t + gas_of t * nat (maxFee (re_fees e)) \<le> fn_native w (sender_of t))"

definition exec_tx :: "reclaim_env \<Rightarrow> reclaim_tx \<Rightarrow> funds \<Rightarrow> funds" where
  "exec_tx e t w = (if affordable e t w then
       (let w1 = w\<lparr>fn_native := (fn_native w)(sender_of t := fn_native w (sender_of t) - re_paid e t)\<rparr> in
        case effect_of e t w1 of None \<Rightarrow> w1 | Some w2 \<Rightarrow> w2) else w)"

definition exec_all :: "reclaim_env \<Rightarrow> reclaim_tx list \<Rightarrow> funds \<Rightarrow> funds" where
  "exec_all e ts w = fold (exec_tx e) ts w"

section \<open>The script\<close>

text \<open>The founder first, with index \<open>-1\<close>, then the wallets.\<close>

definition holder_now :: "funds \<Rightarrow> int \<Rightarrow> string \<Rightarrow> holder" where
  "holder_now w i a = \<lparr>ho_index = i, ho_addr = a, ho_lp = int (fn_lp w a), ho_wgmb = int (fn_wgmb w a), ho_native = int (fn_native w a)\<rparr>"

definition reclaim_snapshot :: "funds \<Rightarrow> string list \<Rightarrow> holder list" where
  "reclaim_snapshot w ws = holder_now w (-1) FOUNDER # map (\<lambda>(i, a). holder_now w (int i) a) (zip [0..<length ws] ws)"

record reclaim_report =
  rp_poolN :: nat
  rp_wgmbN :: nat
  rp_fnd :: nat

definition reclaim_report_now :: "reclaim_env \<Rightarrow> funds \<Rightarrow> reclaim_report" where
  "reclaim_report_now e w = \<lparr>rp_poolN = fn_native w (re_pool e), rp_wgmbN = fn_native w (re_wgmb e), rp_fnd = fn_native w FOUNDER\<rparr>"

text \<open>\<open>recoveredFromContracts\<close>.\<close>

definition recovered :: "reclaim_report \<Rightarrow> reclaim_report \<Rightarrow> int" where
  "recovered b a = (int (rp_poolN b) - int (rp_poolN a)) + (int (rp_wgmbN b) - int (rp_wgmbN a))"

text \<open>\<open>mined\<close> gives the transactions of a pass that are mined before the next one, in the order of the blocks.\<close>

definition reclaim_locked :: "reclaim_env \<Rightarrow> int \<Rightarrow> (reclaim_tx list \<Rightarrow> reclaim_tx list) \<Rightarrow> string list \<Rightarrow> funds \<Rightarrow> funds \<times> int" where
  "reclaim_locked e count mined ws w = (let
     before = reclaim_report_now e w;
     holders = reclaim_snapshot w ws;
     wa = exec_all e (mined (top_up_ops (re_faucet e) (re_fees e) count holders)) w;
     wb = exec_all e (mined (remove_ops holders)) wa;
     wc = exec_all e (mined (unwrap_ops holders)) wb;
     wd = exec_all e (mined (sweep_ops (re_faucet e) (re_fees e) (\<lambda>a. Some (int (fn_native wc a))) ws)) wc in
     (wd, recovered before (reclaim_report_now e wd)))"

section \<open>The pool\<close>

definition pool_ok :: "reclaim_env \<Rightarrow> string set \<Rightarrow> funds \<Rightarrow> bool" where
  "pool_ok e A w = ((\<Sum>a \<in> A. fn_lp w a) + 1000 \<le> fn_supply w \<and> fn_reserveNative w \<le> fn_native w (re_pool e) \<and>
     fn_reserveToken w \<le> fn_token w (re_pool e) \<and> (\<Sum>a \<in> A. fn_wgmb w a) \<le> fn_native w (re_wgmb e) \<and>
     fn_supply w < 2 ^ 128 \<and> fn_reserveNative w < 2 ^ 128 \<and> fn_reserveToken w < 2 ^ 128)"

lemma sum_upd:
  fixes f :: "'a \<Rightarrow> nat"
  assumes "finite A" "a \<in> A"
  shows "sum (f(a := v)) A + f a = sum f A + v"
proof -
  have "sum (f(a := v)) A = v + sum (f(a := v)) (A - {a})" using sum.remove [OF assms, of "f(a := v)"] by simp
  moreover have "sum (f(a := v)) (A - {a}) = sum f (A - {a})" by (rule sum.cong) auto
  ultimately show ?thesis using sum.remove [OF assms, of f] by simp
qed

lemma share_le: "0 < S \<Longrightarrow> l \<le> S \<Longrightarrow> l * r div S \<le> (r::nat)"
  using div_le_mono [OF mult_le_mono1 [of l S r], of S] by simp

lemma mult_128: "a < 2 ^ 128 \<Longrightarrow> b < 2 ^ 128 \<Longrightarrow> a * b < (2 ^ 256 :: nat)"
  using mult_strict_mono [of a "2 ^ 128" b "2 ^ 128 :: nat"] by simp

text \<open>A removal pays out the share, rounded down, unless one of the amounts is zero.\<close>

definition too_small :: "nat \<Rightarrow> funds \<Rightarrow> bool" where
  "too_small l w = (l * fn_reserveToken w < fn_supply w \<or> l * fn_reserveNative w < fn_supply w)"

definition after_removal :: "reclaim_env \<Rightarrow> string \<Rightarrow> funds \<Rightarrow> funds" where
  "after_removal e a w = (let l = fn_lp w a; S = fn_supply w; t = l * fn_reserveToken w div S; n = l * fn_reserveNative w div S;
       tk = (fn_token w)(re_pool e := fn_token w (re_pool e) - t); nt = (fn_native w)(re_pool e := fn_native w (re_pool e) - n) in
     w\<lparr>fn_lp := (fn_lp w)(a := 0), fn_supply := S - l, fn_reserveToken := fn_reserveToken w - t, fn_reserveNative := fn_reserveNative w - n,
       fn_token := tk(FOUNDER := tk FOUNDER + t), fn_native := nt(FOUNDER := nt FOUNDER + n)\<rparr>)"

lemma founder_not_zero: "FOUNDER \<noteq> ZERO_ADDRESS"
  by code_simp

lemma remove_result:
  assumes "pool_ok e A w" "finite A" "a \<in> A" "0 < fn_lp w a" "re_now e \<le> DEADLINE_TIME"
  shows "np_removeLiquidity (re_pool e) (re_now e) a (fn_lp w a) 0 0 FOUNDER DEADLINE_TIME w =
    (if too_small (fn_lp w a) w then None else Some (after_removal e a w))"
proof -
  let ?l = "fn_lp w a" and ?S = "fn_supply w"
  have "?l \<le> (\<Sum>a \<in> A. fn_lp w a)" using member_le_sum [OF assms(3) _ assms(2), of "fn_lp w"] by simp
  then have l: "?l \<le> ?S" "0 < ?S" using assms(1) by (auto simp: pool_ok_def)
  have "?l < 2 ^ 128" using l(1) assms(1) by (simp add: pool_ok_def)
  then have m: "?l * fn_reserveToken w < 2 ^ 256" "?l * fn_reserveNative w < 2 ^ 256"
    using assms(1) mult_128 by (auto simp only: pool_ok_def)
  have s: "?l * fn_reserveToken w div ?S \<le> fn_reserveToken w" "?l * fn_reserveNative w div ?S \<le> fn_reserveNative w"
    by (rule share_le [OF l(2,1)])+
  then have p: "?l * fn_reserveToken w div ?S \<le> fn_token w (re_pool e)" "?l * fn_reserveNative w div ?S \<le> fn_native w (re_pool e)"
    using assms(1) by (auto simp: pool_ok_def)
  have z: "too_small ?l w \<longleftrightarrow> ?l * fn_reserveToken w div ?S = 0 \<or> ?l * fn_reserveNative w div ?S = 0"
    using l(2) by (simp add: too_small_def div_eq_0_iff)
  show ?thesis
    using assms(4,5) founder_not_zero l m s p unfolding z
    by (simp add: np_removeLiquidity_def pay_def chk_def chk_sub_def guard_def after_removal_def Let_def)
qed

lemma removal_rates:
  fixes l S r :: nat
  assumes "l \<le> S" "0 < S"
  shows "(r - l * r div S) * S \<le> (S - l) * r + S" "(S - l) * r \<le> S * (r - l * r div S)"
proof -
  have d: "l * r div S * S \<le> l * r" "l * r < l * r div S * S + S"
    using div_mult_mod_eq [of "l * r" S] mod_less_divisor [OF assms(2), of "l * r"] by linarith+
  show "(r - l * r div S) * S \<le> (S - l) * r + S"
    unfolding diff_mult_distrib mult.commute [of r S] using d by linarith
  show "(S - l) * r \<le> S * (r - l * r div S)"
    unfolding diff_mult_distrib diff_mult_distrib2 using d(1) by (intro diff_le_mono2) (simp add: mult.commute)
qed

text \<open>The addresses the script acts on, and what the transactions pay at most.\<close>

definition reclaim_env_ok :: "reclaim_env \<Rightarrow> string list \<Rightarrow> bool" where
  "reclaim_env_ok e ws = (distinct (FOUNDER # ws) \<and> re_pool e \<notin> set (FOUNDER # ws) \<and> re_wgmb e \<notin> set (FOUNDER # ws) \<and>
     re_pool e \<noteq> re_wgmb e \<and> (\<forall>a \<in> set ws. to_lower a \<noteq> to_lower (re_faucet e)) \<and> re_now e \<le> DEADLINE_TIME \<and>
     0 \<le> maxFee (re_fees e) \<and> (\<forall>t. re_paid e t \<le> gas_of t * nat (maxFee (re_fees e))))"

definition held :: "string set \<Rightarrow> funds \<Rightarrow> nat" where
  "held X w = (\<Sum>a \<in> X. fn_native w a)"

definition charge :: "reclaim_env \<Rightarrow> reclaim_tx \<Rightarrow> funds \<Rightarrow> funds" where
  "charge e t w = w\<lparr>fn_native := (fn_native w)(sender_of t := fn_native w (sender_of t) - re_paid e t)\<rparr>"

lemma exec_affordable: "affordable e t w \<Longrightarrow> exec_tx e t w = (case effect_of e t (charge e t w) of None \<Rightarrow> charge e t w | Some w2 \<Rightarrow> w2)"
  unfolding exec_tx_def charge_def Let_def by simp

lemma charge_simps [simp]:
  "fn_native (charge e t w) x = (if x = sender_of t then fn_native w x - re_paid e t else fn_native w x)"
  "fn_token (charge e t w) = fn_token w" "fn_lp (charge e t w) = fn_lp w" "fn_supply (charge e t w) = fn_supply w"
  "fn_reserveToken (charge e t w) = fn_reserveToken w" "fn_reserveNative (charge e t w) = fn_reserveNative w"
  "fn_wgmb (charge e t w) = fn_wgmb w"
  by (simp_all add: charge_def)

lemma charge_held:
  assumes "finite X" "sender_of t \<in> X" "re_paid e t \<le> fn_native w (sender_of t)"
  shows "held X (charge e t w) + re_paid e t = held X w"
  using sum_upd [OF assms(1,2), of "fn_native w" "fn_native w (sender_of t) - re_paid e t"] assms(3)
  by (simp add: held_def charge_def)

lemma paid_within: "affordable e t w \<Longrightarrow> reclaim_env_ok e ws \<Longrightarrow> re_paid e t \<le> fn_native w (sender_of t)"
  unfolding affordable_def reclaim_env_ok_def by (meson add_leD2 order_trans)

lemma pay_result:
  assumes "pay a b v w = Some w'" "a \<noteq> b"
  shows "v \<le> fn_native w a" "w' = w\<lparr>fn_native := (fn_native w)(a := fn_native w a - v, b := fn_native w b + v)\<rparr>"
  using assms by (auto simp: pay_def Let_def split: bind_splits)

lemma move_held:
  assumes "finite X" "a \<in> X" "b \<in> X" "a \<noteq> b" "v \<le> fn_native w a"
  shows "(\<Sum>x \<in> X. ((fn_native w)(a := fn_native w a - v, b := fn_native w b + v)) x) = held X w"
  using sum_upd [OF assms(1,2), of "fn_native w" "fn_native w a - v"] assms(4,5)
    sum_upd [OF assms(1,3), of "(fn_native w)(a := fn_native w a - v)" "fn_native w b + v"]
  by (simp add: held_def)

section \<open>Removal of the shares\<close>

lemma rate_above:
  fixes R R0 R1 S S0 S1 k :: nat
  assumes "R1 * S \<le> S1 * R + S" "R * S0 \<le> S * R0 + k * S0" "S1 \<le> S" "0 < S"
  shows "R1 * S0 \<le> S1 * R0 + Suc k * S0"
proof -
  have "(R1 * S0) * S = (R1 * S) * S0" by simp
  also have "\<dots> \<le> (S1 * R + S) * S0" by (rule mult_le_mono1 [OF assms(1)])
  also have "\<dots> = S1 * (R * S0) + S * S0" by (simp add: algebra_simps)
  also have "\<dots> \<le> S1 * (S * R0 + k * S0) + S * S0" using mult_le_mono2 [OF assms(2), of S1] by simp
  also have "\<dots> = S * (S1 * R0) + S1 * (k * S0) + S * S0" by (simp add: algebra_simps)
  also have "\<dots> \<le> S * (S1 * R0) + S * (k * S0) + S * S0" using mult_le_mono1 [OF assms(3), of "k * S0"] by simp
  also have "\<dots> = (S1 * R0 + Suc k * S0) * S" by (simp add: algebra_simps)
  finally show ?thesis using assms(4) by simp
qed

lemma rate_below:
  fixes R R0 R1 S S0 S1 :: nat
  assumes "S1 * R \<le> S * R1" "S * R0 \<le> S0 * R" "0 < S"
  shows "S1 * R0 \<le> S0 * R1"
proof -
  have "(S1 * R0) * S = S1 * (S * R0)" by simp
  also have "\<dots> \<le> S1 * (S0 * R)" by (rule mult_le_mono2 [OF assms(2)])
  also have "\<dots> = S0 * (S1 * R)" by simp
  also have "\<dots> \<le> S0 * (S * R1)" by (rule mult_le_mono2 [OF assms(1)])
  also have "\<dots> = (S0 * R1) * S" by simp
  finally show ?thesis using assms(3) by simp
qed

lemma share_small_before:
  fixes L R R0 S S0 :: nat
  assumes "L * R < S" "S * R0 \<le> S0 * R" "0 < S0"
  shows "L * R0 < S0"
proof -
  have "(L * R0) * S = L * (S * R0)" by simp
  also have "\<dots> \<le> L * (S0 * R)" by (rule mult_le_mono2 [OF assms(2)])
  also have "\<dots> = S0 * (L * R)" by simp
  also have "\<dots> < S0 * S" using assms(1,3) by simp
  finally show ?thesis by simp
qed

lemma pool_ok_charge:
  "sender_of t \<noteq> re_pool e \<Longrightarrow> sender_of t \<noteq> re_wgmb e \<Longrightarrow> pool_ok e A (charge e t w) = pool_ok e A w"
  by (simp add: pool_ok_def)

lemma after_removal_simps:
  assumes "FOUNDER \<noteq> re_pool e"
  shows "fn_lp (after_removal e a w) = (fn_lp w)(a := 0)" "fn_supply (after_removal e a w) = fn_supply w - fn_lp w a"
    "fn_reserveToken (after_removal e a w) = fn_reserveToken w - fn_lp w a * fn_reserveToken w div fn_supply w"
    "fn_reserveNative (after_removal e a w) = fn_reserveNative w - fn_lp w a * fn_reserveNative w div fn_supply w"
    "fn_wgmb (after_removal e a w) = fn_wgmb w"
    "fn_token (after_removal e a w) (re_pool e) = fn_token w (re_pool e) - fn_lp w a * fn_reserveToken w div fn_supply w"
    "fn_native (after_removal e a w) = (fn_native w)(re_pool e := fn_native w (re_pool e) - fn_lp w a * fn_reserveNative w div fn_supply w,
       FOUNDER := fn_native w FOUNDER + fn_lp w a * fn_reserveNative w div fn_supply w)"
  using assms by (simp_all add: after_removal_def Let_def)

lemma lp_le_supply:
  assumes "pool_ok e A w" "finite A" "a \<in> A"
  shows "fn_lp w a + 1000 \<le> fn_supply w"
  using member_le_sum [OF assms(3) _ assms(2), of "fn_lp w"] assms(1) by (simp add: pool_ok_def)

lemma pool_ok_removal:
  assumes "pool_ok e A w" "finite A" "a \<in> A" "FOUNDER \<noteq> re_pool e" "FOUNDER \<noteq> re_wgmb e" "re_pool e \<noteq> re_wgmb e"
  shows "pool_ok e A (after_removal e a w)"
proof -
  note l = lp_le_supply [OF assms(1-3)]
  have "sum ((fn_lp w)(a := 0)) A + fn_lp w a = sum (fn_lp w) A" using sum_upd [OF assms(2,3), of "fn_lp w" 0] by simp
  moreover have "sum (fn_lp w) A + 1000 \<le> fn_supply w" using assms(1) by (simp add: pool_ok_def)
  ultimately have "sum ((fn_lp w)(a := 0)) A + 1000 \<le> fn_supply w - fn_lp w a" using l by linarith
  then show ?thesis
    using assms(1,4-6) unfolding pool_ok_def after_removal_simps [OF assms(4)] by (simp add: diff_le_mono less_imp_diff_less)
qed

definition removal_of :: "funds \<Rightarrow> string \<Rightarrow> reclaim_tx" where
  "removal_of w a = RemoveLp a (int (fn_lp w a)) FOUNDER"

lemma exec_removal:
  assumes "reclaim_env_ok e ws" "pool_ok e (set (FOUNDER # ws)) w" "a \<in> set (FOUNDER # ws)" "0 < fn_lp w a" "affordable e (removal_of w a) w"
  shows "exec_tx e (removal_of w a) w = (if too_small (fn_lp w a) w then charge e (removal_of w a) w else after_removal e a (charge e (removal_of w a) w))"
proof -
  let ?t = "removal_of w a"
  have s: "sender_of ?t = a" by (simp add: removal_of_def)
  have "sender_of ?t \<noteq> re_pool e" "sender_of ?t \<noteq> re_wgmb e" using assms(1,3) unfolding s by (auto simp: reclaim_env_ok_def)
  then have "pool_ok e (set (FOUNDER # ws)) (charge e ?t w)" using assms(2) by (rule pool_ok_charge [THEN iffD2])
  moreover have "re_now e \<le> DEADLINE_TIME" using assms(1) by (simp add: reclaim_env_ok_def)
  ultimately show ?thesis
    using remove_result [of e "set (FOUNDER # ws)" "charge e ?t w" a] assms(3,4)
    unfolding exec_affordable [OF assms(5)] by (simp add: removal_of_def too_small_def)
qed

text \<open>What holds after some of the removals, against the state before the first one.\<close>

definition removal_inv :: "reclaim_env \<Rightarrow> string list \<Rightarrow> string set \<Rightarrow> funds \<Rightarrow> reclaim_tx list \<Rightarrow> funds \<Rightarrow> bool" where
  "removal_inv e ws X w0 ts w = (pool_ok e (set (FOUNDER # ws)) w \<and> fn_supply w \<le> fn_supply w0 \<and>
     fn_reserveNative w * fn_supply w0 \<le> fn_supply w * fn_reserveNative w0 + length ts * fn_supply w0 \<and>
     fn_supply w * fn_reserveNative w0 \<le> fn_supply w0 * fn_reserveNative w \<and>
     fn_supply w * fn_reserveToken w0 \<le> fn_supply w0 * fn_reserveToken w \<and>
     fn_native w (re_pool e) + fn_reserveNative w0 = fn_native w0 (re_pool e) + fn_reserveNative w \<and>
     fn_wgmb w = fn_wgmb w0 \<and> fn_native w (re_wgmb e) = fn_native w0 (re_wgmb e) \<and>
     (\<forall>a. a \<notin> sender_of ` set ts \<longrightarrow> fn_lp w a = fn_lp w0 a) \<and>
     (\<forall>a \<in> sender_of ` set ts. fn_lp w a = 0 \<or> fn_lp w a = fn_lp w0 a \<and> too_small (fn_lp w0 a) w0) \<and>
     (\<forall>a \<in> set (FOUNDER # ws). fn_native w0 a \<le> fn_native w a + (if a \<in> sender_of ` set ts then 320000 * nat (maxFee (re_fees e)) else 0)) \<and>
     held X w + sum_list (map (re_paid e) ts) = held X w0)"

definition accounts_in :: "reclaim_env \<Rightarrow> string list \<Rightarrow> string set \<Rightarrow> bool" where
  "accounts_in e ws X = (finite X \<and> set (FOUNDER # ws) \<subseteq> X \<and> re_pool e \<in> X \<and> re_wgmb e \<in> X)"

lemma held_after_removal:
  assumes "pool_ok e A w" "finite A" "a \<in> A" "FOUNDER \<noteq> re_pool e" "finite X" "re_pool e \<in> X" "FOUNDER \<in> X"
  shows "held X (after_removal e a w) = held X w"
proof -
  have "fn_lp w a * fn_reserveNative w div fn_supply w \<le> fn_reserveNative w"
    using lp_le_supply [OF assms(1-3)] by (intro share_le) simp_all
  then have "fn_lp w a * fn_reserveNative w div fn_supply w \<le> fn_native w (re_pool e)" using assms(1) by (simp add: pool_ok_def)
  from move_held [OF assms(5,6,7) assms(4) [symmetric] this] show ?thesis
    by (simp add: held_def after_removal_simps [OF assms(4)])
qed

lemma removal_step:
  assumes env: "reclaim_env_ok e ws" "accounts_in e ws X"
    and inv: "removal_inv e ws X w0 ts w"
    and a: "a \<in> set (FOUNDER # ws)" "a \<notin> sender_of ` set ts" "0 < fn_lp w0 a" "320000 * nat (maxFee (re_fees e)) \<le> fn_native w0 a"
    and pos: "0 < fn_supply w0"
  shows "removal_inv e ws X w0 (ts @ [removal_of w0 a]) (exec_tx e (removal_of w0 a) w)"
proof -
  let ?A = "set (FOUNDER # ws)" and ?mf = "nat (maxFee (re_fees e))" and ?t = "removal_of w a" and ?c = "charge e (removal_of w a) w"
  have lp: "fn_lp w a = fn_lp w0 a" using inv a(2) by (simp add: removal_inv_def)
  then have t: "removal_of w0 a = ?t" by (simp add: removal_of_def)
  have s: "sender_of ?t = a" "gas_of ?t = 320000" "value_of ?t = 0" by (simp_all add: removal_of_def)
  have ne: "a \<noteq> re_pool e" "a \<noteq> re_wgmb e" "FOUNDER \<noteq> re_pool e" "FOUNDER \<noteq> re_wgmb e" "re_pool e \<noteq> re_wgmb e"
    using env(1) a(1) by (auto simp: reclaim_env_ok_def)
  have ok: "pool_ok e ?A w" using inv by (simp add: removal_inv_def)
  have aff: "affordable e ?t w" using inv a by (auto simp: affordable_def s removal_inv_def split: if_splits dest: bspec)
  have paid: "re_paid e ?t \<le> 320000 * ?mf" "re_paid e ?t \<le> fn_native w a"
    using env(1) paid_within [OF aff env(1)] s by (auto simp: reclaim_env_ok_def dest: spec [of _ ?t])
  have okc: "pool_ok e ?A ?c" using ok ne by (intro pool_ok_charge [THEN iffD2]) (simp_all add: s)
  have hc: "held X ?c + re_paid e ?t = held X w"
    using charge_held [of X ?t e w] env(2) a(1) paid(2) unfolding s accounts_in_def by auto
  have S: "0 < fn_supply w" using lp_le_supply [OF ok _ a(1)] by simp
  show ?thesis
  proof (cases "too_small (fn_lp w a) w")
    case True
    have small: "too_small (fn_lp w0 a) w0"
      using True inv share_small_before [OF _ _ pos] unfolding too_small_def lp by (auto simp: removal_inv_def)
    have x: "exec_tx e ?t w = ?c" using exec_removal [OF env(1) ok a(1) _ aff] True a(3) lp by simp
    have n: "fn_native w0 b \<le> fn_native ?c b + (if b \<in> sender_of ` set (ts @ [?t]) then 320000 * ?mf else 0)" if "b \<in> ?A" for b
    proof -
      have "fn_native w0 b \<le> fn_native w b + (if b \<in> sender_of ` set ts then 320000 * ?mf else 0)" using inv that unfolding removal_inv_def by blast
      then show ?thesis using a(2) paid by (cases "b = a") (auto simp: s)
    qed
    show ?thesis unfolding t x
      using inv okc hc n small lp ne by (auto simp: removal_inv_def s)
  next
    case False
    have x: "exec_tx e ?t w = after_removal e a ?c" using exec_removal [OF env(1) ok a(1) _ aff] False a(3) lp by simp
    note sim = after_removal_simps [OF ne(3), of a ?c, unfolded charge_simps]
    note l = lp_le_supply [OF ok _ a(1)]
    have ls: "fn_lp w a \<le> fn_supply w" using l by simp
    note rn = removal_rates [OF ls S, of "fn_reserveNative w"] and rt = removal_rates [OF ls S, of "fn_reserveToken w"]
    have "pool_ok e ?A (after_removal e a ?c)" using pool_ok_removal [OF okc _ a(1) ne(3,4,5)] by simp
    moreover have "held X (after_removal e a ?c) = held X ?c"
      using held_after_removal [OF okc _ a(1) ne(3)] env(2) by (auto simp: accounts_in_def)
    moreover have "fn_reserveNative (after_removal e a ?c) * fn_supply w0 \<le>
        fn_supply (after_removal e a ?c) * fn_reserveNative w0 + Suc (length ts) * fn_supply w0"
      unfolding sim by (rule rate_above [OF rn(1) _ _ S]) (use inv in \<open>simp_all add: removal_inv_def\<close>)
    moreover have "fn_supply (after_removal e a ?c) * fn_reserveNative w0 \<le> fn_supply w0 * fn_reserveNative (after_removal e a ?c)"
      unfolding sim by (rule rate_below [OF rn(2) _ S]) (use inv in \<open>simp add: removal_inv_def\<close>)
    moreover have "fn_supply (after_removal e a ?c) * fn_reserveToken w0 \<le> fn_supply w0 * fn_reserveToken (after_removal e a ?c)"
      unfolding sim by (rule rate_below [OF rt(2) _ S]) (use inv in \<open>simp add: removal_inv_def\<close>)
    moreover have "fn_native (after_removal e a ?c) (re_pool e) + fn_reserveNative w0 = fn_native w0 (re_pool e) + fn_reserveNative (after_removal e a ?c)"
    proof -
      have "fn_lp w a * fn_reserveNative w div fn_supply w \<le> fn_reserveNative w" by (rule share_le [OF S ls])
      moreover have "fn_reserveNative w \<le> fn_native w (re_pool e)" using ok by (simp add: pool_ok_def)
      moreover have "fn_native w (re_pool e) + fn_reserveNative w0 = fn_native w0 (re_pool e) + fn_reserveNative w" using inv by (simp add: removal_inv_def)
      ultimately show ?thesis unfolding sim using ne by (simp add: s)
    qed
    moreover have "fn_native w0 b \<le> fn_native (after_removal e a ?c) b + (if b \<in> sender_of ` set (ts @ [?t]) then 320000 * ?mf else 0)" if "b \<in> ?A" for b
    proof -
      have b: "b \<noteq> re_pool e" using that env(1) by (auto simp: reclaim_env_ok_def)
      have "fn_native w0 b \<le> fn_native w b + (if b \<in> sender_of ` set ts then 320000 * ?mf else 0)" using inv that unfolding removal_inv_def by blast
      then show ?thesis using a(2) paid b unfolding sim by (cases "b = a") (auto simp: s)
    qed
    ultimately show ?thesis unfolding t x
      using inv hc lp ne by (simp add: removal_inv_def sim s) (meson diff_le_self order_trans)
  qed
qed

lemma exec_all_snoc: "exec_all e (ts @ [t]) w = exec_tx e t (exec_all e ts w)"
  by (simp add: exec_all_def)

lemma removal_inv_start:
  "pool_ok e (set (FOUNDER # ws)) w0 \<Longrightarrow> removal_inv e ws X w0 [] w0"
  by (simp add: removal_inv_def mult.commute)

lemma removals:
  assumes env: "reclaim_env_ok e ws" "accounts_in e ws X" and ok: "pool_ok e (set (FOUNDER # ws)) w0"
    and d: "distinct (map sender_of ts)"
    and ts: "\<And>t. t \<in> set ts \<Longrightarrow> \<exists>a \<in> set (FOUNDER # ws). t = removal_of w0 a \<and> 0 < fn_lp w0 a \<and> 320000 * nat (maxFee (re_fees e)) \<le> fn_native w0 a"
  shows "removal_inv e ws X w0 ts (exec_all e ts w0)"
  using d ts
proof (induction ts rule: rev_induct)
  case Nil
  then show ?case using removal_inv_start [OF ok] by (simp add: exec_all_def)
next
  case (snoc t ts)
  then obtain a where a: "a \<in> set (FOUNDER # ws)" "t = removal_of w0 a" "0 < fn_lp w0 a" "320000 * nat (maxFee (re_fees e)) \<le> fn_native w0 a"
    by (meson in_set_conv_decomp)
  have "sender_of t = a" using a(2) by (simp add: removal_of_def)
  then have new: "a \<notin> sender_of ` set ts" using snoc.prems(1) by auto
  have S: "0 < fn_supply w0" using lp_le_supply [OF ok _ a(1)] by simp
  have "removal_inv e ws X w0 ts (exec_all e ts w0)" using snoc by simp
  from removal_step [OF env this a(1) new a(3,4) S] show ?case unfolding exec_all_snoc a(2) .
qed

section \<open>Payments: the top-ups and the sweeps\<close>

lemma exec_payment:
  assumes "reclaim_env_ok e ws" "affordable e t w" "a \<noteq> b" "sender_of t = a" "value_of t = v" "\<And>u. effect_of e t u = pay a b v u"
  shows "exec_tx e t w = w\<lparr>fn_native := (fn_native w)(a := fn_native w a - re_paid e t - v, b := fn_native w b + v)\<rparr>"
    "re_paid e t + v \<le> fn_native w a"
proof -
  have "re_paid e t \<le> gas_of t * nat (maxFee (re_fees e))" using assms(1) by (simp add: reclaim_env_ok_def)
  then show p: "re_paid e t + v \<le> fn_native w a" using assms(2,4,5) by (simp add: affordable_def)
  then show "exec_tx e t w = w\<lparr>fn_native := (fn_native w)(a := fn_native w a - re_paid e t - v, b := fn_native w b + v)\<rparr>"
    using assms(3) by (simp add: exec_affordable [OF assms(2)] assms(4,6) pay_def chk_sub_def Let_def charge_def)
qed

lemma payment_held:
  assumes "finite X" "a \<in> X" "b \<in> X" "a \<noteq> b" "p + v \<le> fn_native w a"
  shows "held X (w\<lparr>fn_native := (fn_native w)(a := fn_native w a - p - v, b := fn_native w b + v)\<rparr>) + p = held X w"
  using sum_upd [OF assms(1,2), of "fn_native w" "fn_native w a - p - v"] assms(4,5)
    sum_upd [OF assms(1,3), of "(fn_native w)(a := fn_native w a - p - v)" "fn_native w b + v"]
  by (simp add: held_def)

text \<open>Only the coins of the founder and of the wallets move.\<close>

definition coins_only :: "reclaim_env \<Rightarrow> funds \<Rightarrow> funds \<Rightarrow> bool" where
  "coins_only e w0 w = (fn_lp w = fn_lp w0 \<and> fn_supply w = fn_supply w0 \<and> fn_reserveToken w = fn_reserveToken w0 \<and>
     fn_reserveNative w = fn_reserveNative w0 \<and> fn_token w = fn_token w0 \<and> fn_wgmb w = fn_wgmb w0 \<and>
     fn_native w (re_pool e) = fn_native w0 (re_pool e) \<and> fn_native w (re_wgmb e) = fn_native w0 (re_wgmb e))"

lemma coins_only_pool: "coins_only e w0 w \<Longrightarrow> pool_ok e A w = pool_ok e A w0"
  by (simp add: coins_only_def pool_ok_def)

fun receiver_of :: "reclaim_tx \<Rightarrow> string" where
  "receiver_of (TopUp a v n) = a"
| "receiver_of (RemoveLp a l to) = to"
| "receiver_of (Unwrap a n) = a"
| "receiver_of (Sweep a v to) = to"

definition top_up_inv :: "reclaim_env \<Rightarrow> string list \<Rightarrow> string set \<Rightarrow> funds \<Rightarrow> reclaim_tx list \<Rightarrow> funds \<Rightarrow> bool" where
  "top_up_inv e ws X w0 ts w = (coins_only e w0 w \<and>
     (\<forall>a \<in> set ws. fn_native w a = fn_native w0 a + (if a \<in> receiver_of ` set ts then nat (rf_topup (re_fees e)) else 0)) \<and>
     fn_native w0 FOUNDER \<le> fn_native w FOUNDER + length ts * (nat (rf_topup (re_fees e)) + 21000 * nat (maxFee (re_fees e))) \<and>
     held X w + sum_list (map (re_paid e) ts) = held X w0)"

lemma top_up_step:
  assumes env: "reclaim_env_ok e ws" "accounts_in e ws X" and inv: "top_up_inv e ws X w0 ts w"
    and a: "a \<in> set ws" "a \<notin> receiver_of ` set ts"
    and rich: "Suc (length ts) * (nat (rf_topup (re_fees e)) + 21000 * nat (maxFee (re_fees e))) \<le> fn_native w0 FOUNDER"
  shows "top_up_inv e ws X w0 (ts @ [TopUp a (rf_topup (re_fees e)) n]) (exec_tx e (TopUp a (rf_topup (re_fees e)) n) w)"
proof -
  let ?t = "TopUp a (rf_topup (re_fees e)) n" and ?v = "nat (rf_topup (re_fees e))"
  have ne: "FOUNDER \<noteq> a" "a \<noteq> re_pool e" "a \<noteq> re_wgmb e" "FOUNDER \<noteq> re_pool e" "FOUNDER \<noteq> re_wgmb e" "FOUNDER \<notin> set ws"
    using env(1) a(1) by (auto simp: reclaim_env_ok_def)
  have aff: "affordable e ?t w" using inv rich by (auto simp: affordable_def top_up_inv_def)
  have paid: "re_paid e ?t \<le> 21000 * nat (maxFee (re_fees e))" using env(1) by (auto simp: reclaim_env_ok_def dest: spec [of _ ?t])
  note x = exec_payment [OF env(1) aff ne(1), of ?v]
  have x1: "exec_tx e ?t w = w\<lparr>fn_native := (fn_native w)(FOUNDER := fn_native w FOUNDER - re_paid e ?t - ?v, a := fn_native w a + ?v)\<rparr>"
    and x2: "re_paid e ?t + ?v \<le> fn_native w FOUNDER" by (rule x; simp)+
  have h: "held X (exec_tx e ?t w) + re_paid e ?t = held X w"
    unfolding x1 using env(2) a(1) by (intro payment_held x2 ne(1)) (auto simp: accounts_in_def)
  show ?thesis
    using inv h ne a paid x2 unfolding x1 by (auto simp: top_up_inv_def coins_only_def)
qed

lemma top_ups:
  assumes env: "reclaim_env_ok e ws" "accounts_in e ws X" and d: "distinct (map receiver_of ts)"
    and ts: "\<And>t. t \<in> set ts \<Longrightarrow> \<exists>a \<in> set ws. \<exists>n. t = TopUp a (rf_topup (re_fees e)) n"
    and rich: "length ts * (nat (rf_topup (re_fees e)) + 21000 * nat (maxFee (re_fees e))) \<le> fn_native w0 FOUNDER"
  shows "top_up_inv e ws X w0 ts (exec_all e ts w0)"
  using d ts rich
proof (induction ts rule: rev_induct)
  case Nil
  then show ?case by (simp add: exec_all_def top_up_inv_def coins_only_def)
next
  case (snoc t ts)
  then obtain a n where a: "a \<in> set ws" "t = TopUp a (rf_topup (re_fees e)) n" by (meson in_set_conv_decomp)
  have new: "a \<notin> receiver_of ` set ts" using snoc.prems(1) a(2) by auto
  have "top_up_inv e ws X w0 ts (exec_all e ts w0)" using snoc by simp
  from top_up_step [OF env this a(1) new] snoc.prems(3) show ?case unfolding exec_all_snoc a(2) by simp
qed

definition sweep_inv :: "reclaim_env \<Rightarrow> string list \<Rightarrow> string set \<Rightarrow> funds \<Rightarrow> reclaim_tx list \<Rightarrow> funds \<Rightarrow> bool" where
  "sweep_inv e ws X w0 ts w = (coins_only e w0 w \<and>
     (\<forall>a \<in> set ws. if a \<in> sender_of ` set ts then fn_native w a \<le> 21000 * nat (maxFee (re_fees e)) else fn_native w a = fn_native w0 a) \<and>
     held X w + sum_list (map (re_paid e) ts) = held X w0)"

lemma sweep_step:
  assumes env: "reclaim_env_ok e ws" "accounts_in e ws X" and inv: "sweep_inv e ws X w0 ts w"
    and a: "a \<in> set ws" "a \<notin> sender_of ` set ts" and v: "nat v + 21000 * nat (maxFee (re_fees e)) = fn_native w0 a"
  shows "sweep_inv e ws X w0 (ts @ [Sweep a v FOUNDER]) (exec_tx e (Sweep a v FOUNDER) w)"
proof -
  let ?t = "Sweep a v FOUNDER"
  have ne: "a \<noteq> FOUNDER" "a \<noteq> re_pool e" "a \<noteq> re_wgmb e" "FOUNDER \<noteq> re_pool e" "FOUNDER \<noteq> re_wgmb e" "FOUNDER \<notin> set ws"
    using env(1) a(1) by (auto simp: reclaim_env_ok_def)
  have w: "fn_native w a = fn_native w0 a" using inv a by (auto simp: sweep_inv_def dest: bspec)
  have aff: "affordable e ?t w" using v by (simp add: affordable_def w)
  note x = exec_payment [OF env(1) aff ne(1), of "nat v"]
  have x1: "exec_tx e ?t w = w\<lparr>fn_native := (fn_native w)(a := fn_native w a - re_paid e ?t - nat v, FOUNDER := fn_native w FOUNDER + nat v)\<rparr>"
    and x2: "re_paid e ?t + nat v \<le> fn_native w a" by (rule x; simp)+
  have h: "held X (exec_tx e ?t w) + re_paid e ?t = held X w"
    unfolding x1 using env(2) a(1) by (intro payment_held x2 ne(1)) (auto simp: accounts_in_def)
  have "fn_native w a - re_paid e ?t - nat v \<le> 21000 * nat (maxFee (re_fees e))" using v w by simp
  then show ?thesis
    using inv h ne a unfolding x1 by (auto simp: sweep_inv_def coins_only_def)
qed

lemma sweeps:
  assumes env: "reclaim_env_ok e ws" "accounts_in e ws X" and d: "distinct (map sender_of ts)"
    and ts: "\<And>t. t \<in> set ts \<Longrightarrow> \<exists>a \<in> set ws. \<exists>v. t = Sweep a v FOUNDER \<and> nat v + 21000 * nat (maxFee (re_fees e)) = fn_native w0 a"
  shows "sweep_inv e ws X w0 ts (exec_all e ts w0)"
  using d ts
proof (induction ts rule: rev_induct)
  case Nil
  then show ?case by (simp add: exec_all_def sweep_inv_def coins_only_def)
next
  case (snoc t ts)
  then obtain a v where a: "a \<in> set ws" "t = Sweep a v FOUNDER" "nat v + 21000 * nat (maxFee (re_fees e)) = fn_native w0 a"
    by (meson in_set_conv_decomp)
  have new: "a \<notin> sender_of ` set ts" using snoc.prems(1) a(2) by auto
  have "sweep_inv e ws X w0 ts (exec_all e ts w0)" using snoc by simp
  from sweep_step [OF env this a(1) new a(3)] show ?case unfolding exec_all_snoc a(2) .
qed

section \<open>Unwrapping\<close>

definition unwrap_of :: "funds \<Rightarrow> string \<Rightarrow> reclaim_tx" where
  "unwrap_of w a = Unwrap a (int (fn_wgmb w a))"

definition unwrap_inv :: "reclaim_env \<Rightarrow> string list \<Rightarrow> string set \<Rightarrow> funds \<Rightarrow> reclaim_tx list \<Rightarrow> funds \<Rightarrow> bool" where
  "unwrap_inv e ws X w0 ts w = (fn_lp w = fn_lp w0 \<and> fn_supply w = fn_supply w0 \<and> fn_reserveNative w = fn_reserveNative w0 \<and>
     fn_native w (re_pool e) = fn_native w0 (re_pool e) \<and>
     (\<forall>a. fn_wgmb w a = (if a \<in> sender_of ` set ts then 0 else fn_wgmb w0 a)) \<and>
     (\<Sum>a \<in> set (FOUNDER # ws). fn_wgmb w a) \<le> fn_native w (re_wgmb e) \<and>
     fn_native w (re_wgmb e) + sum (fn_wgmb w0) (set (FOUNDER # ws)) = fn_native w0 (re_wgmb e) + sum (fn_wgmb w) (set (FOUNDER # ws)) \<and>
     (\<forall>a \<in> set (FOUNDER # ws). fn_native w0 a \<le> fn_native w a + (if a \<in> sender_of ` set ts then 90000 * nat (maxFee (re_fees e)) else 0)) \<and>
     held X w + sum_list (map (re_paid e) ts) = held X w0)"

lemma unwrap_step:
  assumes env: "reclaim_env_ok e ws" "accounts_in e ws X" and inv: "unwrap_inv e ws X w0 ts w"
    and a: "a \<in> set (FOUNDER # ws)" "a \<notin> sender_of ` set ts" "90000 * nat (maxFee (re_fees e)) \<le> fn_native w0 a"
  shows "unwrap_inv e ws X w0 (ts @ [unwrap_of w0 a]) (exec_tx e (unwrap_of w0 a) w)"
proof -
  let ?t = "unwrap_of w0 a" and ?n = "fn_wgmb w0 a" and ?W = "re_wgmb e"
  have n: "fn_wgmb w a = ?n" using inv a(2) by (simp add: unwrap_inv_def)
  have s: "sender_of ?t = a" "gas_of ?t = 90000" "value_of ?t = 0" by (simp_all add: unwrap_of_def)
  have ne: "a \<noteq> ?W" "a \<noteq> re_pool e" "?W \<noteq> re_pool e" "?W \<notin> set (FOUNDER # ws)" using env(1) a(1) by (auto simp: reclaim_env_ok_def)
  have low: "fn_native w0 b \<le> fn_native w b + (if b \<in> sender_of ` set ts then 90000 * nat (maxFee (re_fees e)) else 0)" if "b \<in> set (FOUNDER # ws)" for b
    using inv that unfolding unwrap_inv_def by blast
  have aff: "affordable e ?t w" using low [OF a(1)] a(2,3) by (simp add: affordable_def s)
  have paid: "re_paid e ?t \<le> 90000 * nat (maxFee (re_fees e))" "re_paid e ?t \<le> fn_native w a"
    using env(1) paid_within [OF aff env(1)] s by (auto simp: reclaim_env_ok_def dest: spec [of _ ?t])
  have "?n \<le> sum (fn_wgmb w) (set (FOUNDER # ws))" using member_le_sum [of a "set (FOUNDER # ws)" "fn_wgmb w"] a(1) n by simp
  also have le: "\<dots> \<le> fn_native w ?W" using inv by (simp only: unwrap_inv_def)
  finally have nW: "?n \<le> fn_native w ?W" .
  let ?f = "(fn_native w)(a := fn_native w a - re_paid e ?t)"
  have x: "exec_tx e ?t w = w\<lparr>fn_wgmb := (fn_wgmb w)(a := 0), fn_native := ?f(?W := fn_native w ?W - ?n, a := fn_native w a - re_paid e ?t + ?n)\<rparr>"
    using nW ne n s(1) unfolding exec_affordable [OF aff]
    by (simp add: unwrap_of_def wgmb_withdraw_def pay_def chk_sub_def Let_def charge_def)
  have "held X (charge e ?t w) + re_paid e ?t = held X w"
    using env(2) a(1) by (intro charge_held) (auto simp: accounts_in_def s paid(2))
  moreover have "held X (exec_tx e ?t w) = held X (charge e ?t w)"
    using move_held [of X ?W a ?n "charge e ?t w"] env(2) a(1) ne nW unfolding x by (auto simp: held_def accounts_in_def charge_def s)
  ultimately have h: "held X (exec_tx e ?t w) + re_paid e ?t = held X w" by simp
  have "sum ((fn_wgmb w)(a := 0)) (set (FOUNDER # ws)) + ?n = sum (fn_wgmb w) (set (FOUNDER # ws))"
    using sum_upd [of "set (FOUNDER # ws)" a "fn_wgmb w" 0] a(1) n by simp
  with le have sm: "sum ((fn_wgmb w)(a := 0)) (set (FOUNDER # ws)) \<le> fn_native w ?W - ?n" by linarith
  have "fn_native w ?W + sum (fn_wgmb w0) (set (FOUNDER # ws)) = fn_native w0 ?W + sum (fn_wgmb w) (set (FOUNDER # ws))"
    using inv by (simp only: unwrap_inv_def)
  with \<open>sum ((fn_wgmb w)(a := 0)) (set (FOUNDER # ws)) + ?n = sum (fn_wgmb w) (set (FOUNDER # ws))\<close> nW
  have eq: "fn_native w ?W - ?n + sum (fn_wgmb w0) (set (FOUNDER # ws)) = fn_native w0 ?W + sum ((fn_wgmb w)(a := 0)) (set (FOUNDER # ws))"
    by linarith
  have lw: "fn_native w0 b \<le> fn_native (exec_tx e ?t w) b + (if b \<in> sender_of ` set (ts @ [?t]) then 90000 * nat (maxFee (re_fees e)) else 0)"
    if "b \<in> set (FOUNDER # ws)" for b
    using low [OF that] a(2) paid ne(4) that unfolding x by (cases "b = a") (auto simp: s)
  show ?thesis
    using inv h sm eq lw ne unfolding x by (auto simp: unwrap_inv_def s)
qed

lemma unwraps:
  assumes env: "reclaim_env_ok e ws" "accounts_in e ws X" and d: "distinct (map sender_of ts)"
    and le: "(\<Sum>a \<in> set (FOUNDER # ws). fn_wgmb w0 a) \<le> fn_native w0 (re_wgmb e)"
    and ts: "\<And>t. t \<in> set ts \<Longrightarrow> \<exists>a \<in> set (FOUNDER # ws). t = unwrap_of w0 a \<and> 90000 * nat (maxFee (re_fees e)) \<le> fn_native w0 a"
  shows "unwrap_inv e ws X w0 ts (exec_all e ts w0)"
  using d ts
proof (induction ts rule: rev_induct)
  case Nil
  then show ?case using le by (simp add: exec_all_def unwrap_inv_def)
next
  case (snoc t ts)
  then obtain a where a: "a \<in> set (FOUNDER # ws)" "t = unwrap_of w0 a" "90000 * nat (maxFee (re_fees e)) \<le> fn_native w0 a"
    by (meson in_set_conv_decomp)
  have "sender_of t = a" using a(2) by (simp add: unwrap_of_def)
  then have new: "a \<notin> sender_of ` set ts" using snoc.prems(1) by auto
  have "unwrap_inv e ws X w0 ts (exec_all e ts w0)" using snoc by simp
  from unwrap_step [OF env this a(1) new a(3)] show ?case unfolding exec_all_snoc a(2) .
qed

end
