(* ===== verification/Reclaim_Properties.thy ===== *)
theory Reclaim_Properties
  imports Reclaim_Chain "HOL-Library.Multiset"
begin

text \<open>
  The reclaiming script as a whole: which transactions it builds from the snapshot, that every one of them can be paid
  for, and what is left in the contracts and the wallets when all are mined, in any order.
\<close>

section \<open>The transactions of the script\<close>

lemma zip_index_map: "map (\<lambda>x. g (snd x)) (filter (\<lambda>x. Q (snd x)) (zip [k..<k + length ws] ws)) = map g (filter Q ws)"
proof (induction ws arbitrary: k)
  case (Cons a ws)
  have "[k..<k + length (a # ws)] = k # [Suc k..<Suc k + length ws]" by (simp add: upt_rec)
  then show ?case using Cons [of "Suc k"] by simp
qed simp

lemma remove_ops_snapshot:
  "remove_ops (reclaim_snapshot w ws) = map (removal_of w) (filter (\<lambda>a. 0 < fn_lp w a) (FOUNDER # ws))"
  using zip_index_map [of "removal_of w" "\<lambda>a. 0 < fn_lp w a" 0 ws]
  by (simp add: remove_ops_def reclaim_snapshot_def holder_now_def removal_of_def filter_map comp_def case_prod_beta)

lemma unwrap_ops_snapshot:
  "unwrap_ops (reclaim_snapshot w ws) = map (unwrap_of w) (filter (\<lambda>a. 0 < fn_wgmb w a) (FOUNDER # ws))"
  using zip_index_map [of "unwrap_of w" "\<lambda>a. 0 < fn_wgmb w a" 0 ws]
  by (simp add: unwrap_ops_def reclaim_snapshot_def holder_now_def unwrap_of_def filter_map comp_def case_prod_beta)

text \<open>The wallets that get gas.\<close>

definition needy :: "reclaim_env \<Rightarrow> funds \<Rightarrow> string \<Rightarrow> bool" where
  "needy e w a = ((0 < fn_lp w a \<or> 0 < fn_wgmb w a) \<and> int (fn_native w a) < rf_topup_min (re_fees e) \<and> to_lower a \<noteq> to_lower (re_faucet e))"

lemma needs_gas_snapshot:
  "map ho_addr (filter (needs_gas (re_faucet e) (re_fees e)) (reclaim_snapshot w ws)) = filter (needy e w) ws"
  using zip_index_map [of id "needy e w" 0 ws]
  by (simp add: reclaim_snapshot_def needs_gas_def holder_now_def needy_def filter_map comp_def case_prod_beta)

lemma top_up_receivers: "map receiver_of (top_up_ops (re_faucet e) (re_fees e) cnt (reclaim_snapshot w ws)) = filter (needy e w) ws"
proof -
  let ?need = "filter (needs_gas (re_faucet e) (re_fees e)) (reclaim_snapshot w ws)"
  have "map receiver_of (top_up_ops (re_faucet e) (re_fees e) cnt (reclaim_snapshot w ws)) = map (\<lambda>x. ho_addr (snd x)) (zip [0..<length ?need] ?need)"
    by (simp add: top_up_ops_def Let_def comp_def case_prod_beta)
  also have "\<dots> = map ho_addr (map snd (zip [0..<length ?need] ?need))" by (simp only: map_map comp_def)
  finally show ?thesis by (simp only: map_snd_zip length_upt needs_gas_snapshot)
qed

lemma top_up_form:
  "t \<in> set (top_up_ops (re_faucet e) (re_fees e) cnt hs) \<Longrightarrow> \<exists>a n. t = TopUp a (rf_topup (re_fees e)) n"
  by (auto simp: top_up_ops_def Let_def)

lemma sweep_form:
  assumes "t \<in> set (sweep_ops f fees (\<lambda>a. Some (int (fn_native w a))) ws)"
  shows "\<exists>a \<in> set ws. \<exists>v. t = Sweep a v FOUNDER \<and> v + gasResv fees = int (fn_native w a) \<and> gasResv fees < int (fn_native w a)"
  using assms by (auto simp: sweep_ops_def sweep_op_def List.map_filter_def split: if_splits)

lemma sweep_senders:
  "map sender_of (sweep_ops f fees (\<lambda>a. Some (int (fn_native w a))) ws) =
     filter (\<lambda>a. to_lower a \<noteq> to_lower f \<and> gasResv fees < int (fn_native w a)) ws"
  by (induction ws) (simp_all add: sweep_ops_def List.map_filter_simps sweep_op_def)

lemma permuted:
  assumes "mset ts = mset us"
  shows "set ts = set us" "distinct (map f ts) = distinct (map f us)" "length ts = length us"
proof -
  show "set ts = set us" using assms by (metis set_mset_mset)
  have "mset (map f ts) = mset (map f us)" using assms by simp
  then show "distinct (map f ts) = distinct (map f us)" by (rule mset_eq_imp_distinct_iff)
  show "length ts = length us" using assms by (metis size_mset)
qed

section \<open>The passes\<close>

text \<open>A wallet that must act can pay for a removal and an unwrapping after the top-ups, and so can the founder.\<close>

definition reclaim_funded :: "reclaim_env \<Rightarrow> string list \<Rightarrow> funds \<Rightarrow> bool" where
  "reclaim_funded e ws w = (410000 * maxFee (re_fees e) \<le> rf_topup_min (re_fees e) \<and> rf_topup_min (re_fees e) \<le> rf_topup (re_fees e) \<and>
     length ws * (nat (rf_topup (re_fees e)) + 21000 * nat (maxFee (re_fees e))) + 410000 * nat (maxFee (re_fees e)) \<le> fn_native w FOUNDER)"

definition gas_ready :: "reclaim_env \<Rightarrow> string list \<Rightarrow> funds \<Rightarrow> funds \<Rightarrow> bool" where
  "gas_ready e ws w wa = (\<forall>a \<in> set (FOUNDER # ws). 0 < fn_lp w a \<or> 0 < fn_wgmb w a \<longrightarrow> 410000 * nat (maxFee (re_fees e)) \<le> fn_native wa a)"

lemma pass_A:
  assumes env: "reclaim_env_ok e ws" "accounts_in e ws X" and f: "reclaim_funded e ws w"
    and m: "mset ts = mset (top_up_ops (re_faucet e) (re_fees e) cnt (reclaim_snapshot w ws))"
  shows "top_up_inv e ws X w ts (exec_all e ts w)" "length ts \<le> length ws"
    "gas_ready e ws w (exec_all e ts w)"
proof -
  let ?ops = "top_up_ops (re_faucet e) (re_fees e) cnt (reclaim_snapshot w ws)" and ?mf = "nat (maxFee (re_fees e))"
  have r: "receiver_of ` set ts = set (filter (needy e w) ws)"
    using permuted(1) [OF m] arg_cong [OF top_up_receivers, of set] by simp
  have d: "distinct (map receiver_of ts)"
    unfolding permuted(2) [OF m] top_up_receivers using env(1) by (simp add: reclaim_env_ok_def)
  have "length ?ops = length (filter (needy e w) ws)" using arg_cong [OF top_up_receivers, of length] by simp
  then show l: "length ts \<le> length ws" using permuted(3) [OF m] by simp
  have form: "\<exists>a \<in> set ws. \<exists>n. t = TopUp a (rf_topup (re_fees e)) n" if t: "t \<in> set ts" for t
  proof -
    obtain a n where "t = TopUp a (rf_topup (re_fees e)) n" using top_up_form [OF t [unfolded permuted(1) [OF m]]] by blast
    moreover have "receiver_of t \<in> set ws" using r t by auto
    ultimately show ?thesis by auto
  qed
  have "length ts * (nat (rf_topup (re_fees e)) + 21000 * ?mf) \<le> length ws * (nat (rf_topup (re_fees e)) + 21000 * ?mf)"
    using l by simp
  then have rich: "length ts * (nat (rf_topup (re_fees e)) + 21000 * ?mf) + 410000 * ?mf \<le> fn_native w FOUNDER"
    using f unfolding reclaim_funded_def by linarith
  show inv: "top_up_inv e ws X w ts (exec_all e ts w)" using rich by (intro top_ups [OF env d form]) simp_all
  have "410000 * ?mf \<le> fn_native (exec_all e ts w) a" if a: "a \<in> set (FOUNDER # ws)" "0 < fn_lp w a \<or> 0 < fn_wgmb w a" for a
  proof (cases "a = FOUNDER")
    case True
    with inv rich show ?thesis by (simp add: top_up_inv_def)
  next
    case False
    then have w: "a \<in> set ws" using a(1) by simp
    then have n: "fn_native (exec_all e ts w) a = fn_native w a + (if a \<in> set (filter (needy e w) ws) then nat (rf_topup (re_fees e)) else 0)"
      using inv unfolding top_up_inv_def r by blast
    have "needy e w a \<or> rf_topup_min (re_fees e) \<le> int (fn_native w a)"
      using env(1) w a(2) by (auto simp: needy_def reclaim_env_ok_def)
    with n w f show ?thesis unfolding reclaim_funded_def by auto
  qed
  then show "gas_ready e ws w (exec_all e ts w)" unfolding gas_ready_def by blast
qed

lemma pass_B:
  assumes env: "reclaim_env_ok e ws" "accounts_in e ws X" and ok: "pool_ok e (set (FOUNDER # ws)) w" and c: "coins_only e w wa"
    and gas: "gas_ready e ws w wa"
    and m: "mset ts = mset (remove_ops (reclaim_snapshot w ws))"
  shows "removal_inv e ws X wa ts (exec_all e ts wa)" "sender_of ` set ts = {a \<in> set (FOUNDER # ws). 0 < fn_lp w a}" "length ts \<le> Suc (length ws)"
proof -
  let ?L = "filter (\<lambda>a. 0 < fn_lp w a) (FOUNDER # ws)"
  have lp: "removal_of w = removal_of wa" "fn_lp wa = fn_lp w" using c by (auto simp: coins_only_def removal_of_def)
  have s: "map sender_of (remove_ops (reclaim_snapshot w ws)) = ?L" by (simp add: remove_ops_snapshot comp_def removal_of_def)
  show "sender_of ` set ts = {a \<in> set (FOUNDER # ws). 0 < fn_lp w a}"
    using permuted(1) [OF m] arg_cong [OF s, of set] by auto
  have "length (remove_ops (reclaim_snapshot w ws)) = length ?L" unfolding remove_ops_snapshot by simp
  then show "length ts \<le> Suc (length ws)" using permuted(3) [OF m] length_filter_le [of "\<lambda>a. 0 < fn_lp w a" "FOUNDER # ws"] by simp
  have d: "distinct (map sender_of ts)" unfolding permuted(2) [OF m] s using env(1) by (simp add: reclaim_env_ok_def)
  have "\<exists>a \<in> set (FOUNDER # ws). t = removal_of wa a \<and> 0 < fn_lp wa a \<and> 320000 * nat (maxFee (re_fees e)) \<le> fn_native wa a" if "t \<in> set ts" for t
  proof -
    have "t \<in> set (map (removal_of w) ?L)" using that permuted(1) [OF m] by (simp only: remove_ops_snapshot)
    then obtain a where "a \<in> set (FOUNDER # ws)" "0 < fn_lp w a" "t = removal_of w a" unfolding set_map set_filter by blast
    with gas lp show ?thesis unfolding gas_ready_def by (intro bexI [of _ a]) auto
  qed
  then show "removal_inv e ws X wa ts (exec_all e ts wa)"
    using ok d by (intro removals [OF env]) (simp_all only: coins_only_pool [OF c])
qed

lemma pass_C:
  assumes env: "reclaim_env_ok e ws" "accounts_in e ws X" and b: "removal_inv e ws X wa tb wb" and wg: "fn_wgmb wa = fn_wgmb w"
    and gas: "gas_ready e ws w wa"
    and m: "mset ts = mset (unwrap_ops (reclaim_snapshot w ws))"
  shows "unwrap_inv e ws X wb ts (exec_all e ts wb)" "sender_of ` set ts = {a \<in> set (FOUNDER # ws). 0 < fn_wgmb w a}" "length ts \<le> Suc (length ws)"
proof -
  let ?L = "filter (\<lambda>a. 0 < fn_wgmb w a) (FOUNDER # ws)"
  have wb: "fn_wgmb wb = fn_wgmb w" "pool_ok e (set (FOUNDER # ws)) wb" using b wg by (simp_all add: removal_inv_def)
  then have un: "unwrap_of w = unwrap_of wb" by (auto simp: unwrap_of_def)
  have s: "map sender_of (unwrap_ops (reclaim_snapshot w ws)) = ?L" by (simp add: unwrap_ops_snapshot comp_def unwrap_of_def)
  show "sender_of ` set ts = {a \<in> set (FOUNDER # ws). 0 < fn_wgmb w a}"
    using permuted(1) [OF m] arg_cong [OF s, of set] by auto
  have "length (unwrap_ops (reclaim_snapshot w ws)) = length ?L" unfolding unwrap_ops_snapshot by simp
  then show "length ts \<le> Suc (length ws)" using permuted(3) [OF m] length_filter_le [of "\<lambda>a. 0 < fn_wgmb w a" "FOUNDER # ws"] by simp
  have d: "distinct (map sender_of ts)" unfolding permuted(2) [OF m] s using env(1) by (simp add: reclaim_env_ok_def)
  have "\<exists>a \<in> set (FOUNDER # ws). t = unwrap_of wb a \<and> 90000 * nat (maxFee (re_fees e)) \<le> fn_native wb a" if "t \<in> set ts" for t
  proof -
    have "t \<in> set (map (unwrap_of w) ?L)" using that permuted(1) [OF m] by (simp only: unwrap_ops_snapshot)
    then obtain a where a: "a \<in> set (FOUNDER # ws)" "0 < fn_wgmb w a" "t = unwrap_of w a" unfolding set_map set_filter by blast
    have "fn_native wa a \<le> fn_native wb a + (if a \<in> sender_of ` set tb then 320000 * nat (maxFee (re_fees e)) else 0)"
      using b a(1) unfolding removal_inv_def by blast
    also have "\<dots> \<le> fn_native wb a + 320000 * nat (maxFee (re_fees e))" by simp
    finally show ?thesis using gas a un unfolding gas_ready_def by (intro bexI [of _ a]) auto
  qed
  then show "unwrap_inv e ws X wb ts (exec_all e ts wb)"
    using wb(2) d by (intro unwraps [OF env]) (simp_all add: pool_ok_def)
qed

lemma pass_D:
  assumes env: "reclaim_env_ok e ws" "accounts_in e ws X"
    and m: "mset ts = mset (sweep_ops (re_faucet e) (re_fees e) (\<lambda>a. Some (int (fn_native w a))) ws)"
  shows "sweep_inv e ws X w ts (exec_all e ts w)" "length ts \<le> length ws"
    "a \<in> set ws \<Longrightarrow> fn_native (exec_all e ts w) a \<le> 21000 * nat (maxFee (re_fees e))"
proof -
  let ?mf = "nat (maxFee (re_fees e))"
  let ?L = "filter (\<lambda>a. to_lower a \<noteq> to_lower (re_faucet e) \<and> gasResv (re_fees e) < int (fn_native w a)) ws"
  let ?ops = "sweep_ops (re_faucet e) (re_fees e) (\<lambda>a. Some (int (fn_native w a))) ws"
  have g: "gasResv (re_fees e) = int (21000 * ?mf)" using env(1) by (simp add: gasResv_def reclaim_env_ok_def)
  have "length ?ops = length ?L" using arg_cong [OF sweep_senders, of length] by simp
  then show "length ts \<le> length ws" using permuted(3) [OF m] by simp
  have s: "sender_of ` set ts = set ?L" using permuted(1) [OF m] arg_cong [OF sweep_senders, of set] by simp
  have d: "distinct (map sender_of ts)"
    unfolding permuted(2) [OF m] sweep_senders using env(1) by (simp add: reclaim_env_ok_def)
  have "\<exists>a \<in> set ws. \<exists>v. t = Sweep a v FOUNDER \<and> nat v + 21000 * ?mf = fn_native w a" if "t \<in> set ts" for t
    using sweep_form [OF that [unfolded permuted(1) [OF m]]] g by (metis nat_int of_nat_0_le_iff add_diff_cancel_right' nat_diff_distrib' le_add_diff_inverse2 order_less_imp_le of_nat_less_iff)
  then show inv: "sweep_inv e ws X w ts (exec_all e ts w)" by (intro sweeps [OF env d])
  show "fn_native (exec_all e ts w) a \<le> 21000 * ?mf" if a: "a \<in> set ws" for a
  proof (cases "a \<in> set ?L")
    case True
    then show ?thesis using inv a unfolding sweep_inv_def s [symmetric] by (auto dest: bspec)
  next
    case False
    then have "fn_native w a \<le> 21000 * ?mf" using env(1) a g by (auto simp: reclaim_env_ok_def)
    moreover have "fn_native (exec_all e ts w) a = fn_native w a" using inv a False unfolding sweep_inv_def s by (auto dest: bspec)
    ultimately show ?thesis by simp
  qed
qed

section \<open>What is left\<close>

lemma fees_within:
  assumes "reclaim_env_ok e ws" "\<And>t. t \<in> set ts \<Longrightarrow> gas_of t \<le> G" "length ts \<le> n"
  shows "sum_list (map (re_paid e) ts) \<le> n * (G * nat (maxFee (re_fees e)))"
proof -
  have p: "re_paid e t \<le> G * nat (maxFee (re_fees e))" if "t \<in> set ts" for t
  proof -
    have "re_paid e t \<le> gas_of t * nat (maxFee (re_fees e))" using assms(1) by (simp add: reclaim_env_ok_def)
    also have "\<dots> \<le> G * nat (maxFee (re_fees e))" using assms(2) [OF that] by (rule mult_le_mono1)
    finally show ?thesis .
  qed
  have "sum_list (map (re_paid e) ts) \<le> length ts * (G * nat (maxFee (re_fees e)))"
    using p by (induction ts) (auto simp: add_mono)
  also have "\<dots> \<le> n * (G * nat (maxFee (re_fees e)))" using assms(3) by (rule mult_le_mono1)
  finally show ?thesis .
qed

lemma pass_gas:
  "t \<in> set (top_up_ops f fees cnt hs) \<Longrightarrow> gas_of t \<le> 21000" "t \<in> set (remove_ops hs) \<Longrightarrow> gas_of t \<le> 320000"
  "t \<in> set (unwrap_ops hs) \<Longrightarrow> gas_of t \<le> 90000" "t \<in> set (sweep_ops f fees bal ws) \<Longrightarrow> gas_of t \<le> 21000"
  by (auto simp: top_up_ops_def remove_ops_def unwrap_ops_def sweep_ops_def sweep_op_def List.map_filter_def Let_def split: if_splits option.splits)

definition reclaim_accounts :: "reclaim_env \<Rightarrow> string list \<Rightarrow> string set" where
  "reclaim_accounts e ws = insert (re_pool e) (insert (re_wgmb e) (set (FOUNDER # ws)))"

text \<open>
  C24. After the reclaiming script, with every transaction of a pass mined in any order: the pool keeps of its coins the part
  of the shares that remain, and less than one base unit for each removal; no holder has wrapped coins or, unless it is
  worth nothing, a share; no wallet has more than the gas of its sweep; the amount reported as recovered is what left the
  pool and the wrapped coins; and what is missing from the sum of all balances is at most the gas. The founder needs the
  top-ups and their gas, and the threshold of a top-up must pay for a removal and an unwrapping.
\<close>

theorem reclaim_leaves_dust:
  assumes "reclaim_env_ok e ws" "pool_ok e (set (FOUNDER # ws)) w" "reclaim_funded e ws w"
    and mined: "\<And>ts. mset (mined ts) = mset ts"
    and run: "reclaim_locked e cnt mined ws w = (w', r)"
  shows "fn_reserveNative w' * fn_supply w \<le> fn_supply w' * fn_reserveNative w + Suc (length ws) * fn_supply w \<and>
    (\<forall>a \<in> set (FOUNDER # ws). fn_wgmb w' a = 0 \<and> (fn_lp w' a = 0 \<or> fn_lp w' a = fn_lp w a \<and> too_small (fn_lp w a) w)) \<and>
    (\<forall>a \<in> set ws. fn_native w' a \<le> 21000 * nat (maxFee (re_fees e))) \<and>
    r = int (fn_reserveNative w) - int (fn_reserveNative w') + int (\<Sum>a \<in> set (FOUNDER # ws). fn_wgmb w a) \<and>
    held (reclaim_accounts e ws) w \<le> held (reclaim_accounts e ws) w' + Suc (length ws) * (452000 * nat (maxFee (re_fees e)))"
proof -
  let ?X = "reclaim_accounts e ws" and ?mf = "nat (maxFee (re_fees e))" and ?A = "set (FOUNDER # ws)" and ?n = "length ws"
  have X: "accounts_in e ws ?X" by (auto simp: accounts_in_def reclaim_accounts_def)
  define ta where "ta = mined (top_up_ops (re_faucet e) (re_fees e) cnt (reclaim_snapshot w ws))"
  define wa where "wa = exec_all e ta w"
  define tb where "tb = mined (remove_ops (reclaim_snapshot w ws))"
  define wb where "wb = exec_all e tb wa"
  define tc where "tc = mined (unwrap_ops (reclaim_snapshot w ws))"
  define wc where "wc = exec_all e tc wb"
  define td where "td = mined (sweep_ops (re_faucet e) (re_fees e) (\<lambda>a. Some (int (fn_native wc a))) ws)"
  have w': "w' = exec_all e td wc" and r: "r = recovered (reclaim_report_now e w) (reclaim_report_now e w')"
    using run by (auto simp: reclaim_locked_def Let_def ta_def wa_def tb_def wb_def tc_def wc_def td_def)
  note a = pass_A [where cnt = cnt, OF assms(1) X assms(3) mined, folded ta_def, folded wa_def]
  have ca: "coins_only e w wa" using a(1) by (simp add: top_up_inv_def)
  note b = pass_B [OF assms(1) X assms(2) ca a(3) mined, folded tb_def, folded wb_def]
  have wg: "fn_wgmb wa = fn_wgmb w" using ca by (simp add: coins_only_def)
  note c = pass_C [OF assms(1) X b(1) wg a(3) mined, folded tc_def, folded wc_def]
  note d = pass_D [where w = wc, OF assms(1) X mined, folded td_def, folded w']
  have cd: "coins_only e wc w'" using d(1) by (simp add: sweep_inv_def)
  have lp: "fn_lp w' = fn_lp wb" "fn_supply w' = fn_supply wb" "fn_reserveNative w' = fn_reserveNative wb" "fn_wgmb w' = fn_wgmb wc"
    using cd c(1) by (simp_all add: coins_only_def unwrap_inv_def)
  have small: "too_small l wa = too_small l w" for l using ca by (simp add: too_small_def coins_only_def)
  have bs1: "\<forall>x. x \<notin> sender_of ` set tb \<longrightarrow> fn_lp wb x = fn_lp wa x"
    using b(1) unfolding removal_inv_def by (elim conjE) assumption
  have bs2: "\<forall>x \<in> sender_of ` set tb. fn_lp wb x = 0 \<or> fn_lp wb x = fn_lp wa x \<and> too_small (fn_lp wa x) wa"
    using b(1) unfolding removal_inv_def by (elim conjE) assumption
  have lpa: "fn_lp wa = fn_lp w" using ca by (simp add: coins_only_def)
  have shares: "fn_lp w' x = 0 \<or> fn_lp w' x = fn_lp w x \<and> too_small (fn_lp w x) w" if x: "x \<in> ?A" for x
  proof (cases "0 < fn_lp w x")
    case True
    then have "x \<in> sender_of ` set tb" using x unfolding b(2) by blast
    with bs2 show ?thesis unfolding lp lpa small by (rule bspec)
  next
    case False
    then have "x \<notin> sender_of ` set tb" unfolding b(2) by blast
    with bs1 False show ?thesis unfolding lp lpa by simp
  qed
  have wrapped: "fn_wgmb w' x = 0" if "x \<in> ?A" for x
    using c(1) that b(1) wg unfolding unwrap_inv_def c(2) lp removal_inv_def by auto
  have "(\<Sum>x \<in> ?A. fn_wgmb wc x) = 0" using wrapped lp by simp
  then have wm: "fn_native w' (re_wgmb e) + (\<Sum>x \<in> ?A. fn_wgmb w x) = fn_native w (re_wgmb e)"
    using c(1) b(1) wg ca cd by (simp add: unwrap_inv_def removal_inv_def coins_only_def)
  have pm: "fn_native w' (re_pool e) + fn_reserveNative w = fn_native w (re_pool e) + fn_reserveNative w'"
    using c(1) b(1) ca cd by (simp add: unwrap_inv_def removal_inv_def coins_only_def)
  have "r = int (fn_reserveNative w) - int (fn_reserveNative w') + int (\<Sum>x \<in> ?A. fn_wgmb w x)"
    using wm pm unfolding r recovered_def reclaim_report_now_def by (simp del: of_nat_sum)
  moreover have "fn_reserveNative w' * fn_supply w \<le> fn_supply w' * fn_reserveNative w + Suc ?n * fn_supply w"
  proof -
    have "fn_reserveNative w' * fn_supply w \<le> fn_supply w' * fn_reserveNative w + length tb * fn_supply w"
      using b(1) ca unfolding lp by (simp add: removal_inv_def coins_only_def)
    also have "\<dots> \<le> fn_supply w' * fn_reserveNative w + Suc ?n * fn_supply w" using b(3) by (intro add_left_mono mult_le_mono1)
    finally show ?thesis .
  qed
  moreover have "held ?X w \<le> held ?X w' + Suc ?n * (452000 * ?mf)"
  proof -
    note g = permuted(1) [OF mined]
    have fees: "sum_list (map (re_paid e) ta) \<le> ?n * (21000 * ?mf)" "sum_list (map (re_paid e) tb) \<le> Suc ?n * (320000 * ?mf)"
      "sum_list (map (re_paid e) tc) \<le> Suc ?n * (90000 * ?mf)" "sum_list (map (re_paid e) td) \<le> ?n * (21000 * ?mf)"
      by (rule fees_within [OF assms(1) _ a(2)], use pass_gas(1) in \<open>simp add: ta_def g\<close>)
        (rule fees_within [OF assms(1) _ b(3)], use pass_gas(2) in \<open>simp add: tb_def g\<close>,
         rule fees_within [OF assms(1) _ c(3)], use pass_gas(3) in \<open>simp add: tc_def g\<close>,
         rule fees_within [OF assms(1) _ d(2)], use pass_gas(4) in \<open>simp add: td_def g\<close>)
    have "held ?X w = held ?X w' + sum_list (map (re_paid e) ta) + sum_list (map (re_paid e) tb) + sum_list (map (re_paid e) tc) + sum_list (map (re_paid e) td)"
      using a(1) b(1) c(1) d(1) by (simp add: top_up_inv_def removal_inv_def unwrap_inv_def sweep_inv_def)
    also have "\<dots> \<le> held ?X w' + Suc ?n * (452000 * ?mf)" using fees by (simp add: algebra_simps)
    finally show ?thesis .
  qed
  ultimately show ?thesis using shares wrapped d(3) by blast
qed

definition sample_reclaim :: reclaim_env where
  "sample_reclaim = \<lparr>re_pool = ''0xpool'', re_wgmb = ''0xwgmb'', re_faucet = ''0xfaucet'', re_now = 1700000000, re_fees = sample_fees,
     re_paid = (\<lambda>t. gas_of t * 7000000000)\<rparr>"

definition sample_funds :: funds where
  "sample_funds = \<lparr>fn_native = (\<lambda>a. 10 ^ 15)(FOUNDER := 10 ^ 24, ''0xpool'' := 10 ^ 21 + 7, ''0xwgmb'' := 3 * 10 ^ 15), fn_token = (\<lambda>a. 10 ^ 22),
     fn_lp = (\<lambda>a. 0)(FOUNDER := 10 ^ 20, ''0xa'' := 5 * 10 ^ 15), fn_supply = 10 ^ 20 + 5 * 10 ^ 15 + 1000, fn_reserveToken = 10 ^ 22,
     fn_reserveNative = 10 ^ 21 + 7, fn_wgmb = (\<lambda>a. 0)(''0xa'' := 10 ^ 15, ''0xb'' := 2 * 10 ^ 15)\<rparr>"

lemma sample_reclaim_ready:
  "reclaim_env_ok sample_reclaim [''0xa'', ''0xb'']" "pool_ok sample_reclaim (set [FOUNDER, ''0xa'', ''0xb'']) sample_funds"
  "reclaim_funded sample_reclaim [''0xa'', ''0xb''] sample_funds"
proof -
  have mf: "maxFee sample_fees = 17000000000" by (simp add: maxFee_def sample_fees_def)
  have ne: "FOUNDER \<noteq> ''0xa'' \<and> FOUNDER \<noteq> ''0xb'' \<and> FOUNDER \<noteq> ''0xpool'' \<and> FOUNDER \<noteq> ''0xwgmb''"
    "to_lower ''0xa'' \<noteq> to_lower ''0xfaucet'' \<and> to_lower ''0xb'' \<noteq> to_lower ''0xfaucet''" by code_simp+
  show "reclaim_env_ok sample_reclaim [''0xa'', ''0xb'']"
    using ne by (auto simp: reclaim_env_ok_def sample_reclaim_def mf DEADLINE_TIME_def)
  show "pool_ok sample_reclaim (set [FOUNDER, ''0xa'', ''0xb'']) sample_funds"
    by (simp add: pool_ok_def sample_reclaim_def sample_funds_def ne)
  show "reclaim_funded sample_reclaim [''0xa'', ''0xb''] sample_funds"
    unfolding reclaim_funded_def by (simp add: sample_reclaim_def mf) (simp add: sample_funds_def sample_fees_def ne)
qed

theorem reclaim_leaves_dust_witness:
  "\<exists>w' r. reclaim_locked sample_reclaim 7 rev [''0xa'', ''0xb''] sample_funds = (w', r) \<and> fn_wgmb w' ''0xb'' = 0 \<and>
     fn_native w' ''0xb'' \<le> 21000 * 17000000000 \<and> r = int (10 ^ 21 + 7) - int (fn_reserveNative w') + int (\<Sum>a \<in> set [FOUNDER, ''0xa'', ''0xb'']. fn_wgmb sample_funds a)"
proof -
  have mf: "maxFee (re_fees sample_reclaim) = 17000000000" by (simp add: maxFee_def sample_fees_def sample_reclaim_def)
  have R: "fn_reserveNative sample_funds = 10 ^ 21 + 7" by (simp add: sample_funds_def)
  obtain w' r where run: "reclaim_locked sample_reclaim 7 rev [''0xa'', ''0xb''] sample_funds = (w', r)" by (cases "reclaim_locked sample_reclaim 7 rev [''0xa'', ''0xb''] sample_funds")
  note d = reclaim_leaves_dust [OF sample_reclaim_ready mset_rev run, unfolded mf R]
  show ?thesis using run d by (intro exI [of _ w'] exI [of _ r]) simp
qed

end
