(* ===== verification/Request_Types.thy ===== *)
theory Request_Types
  imports Workload_Build
begin

text \<open>
  Types of the requests that the endurance workloads build: every number in a call, the value and the gas
  are \<open>uint256\<close>, for as long as the ids the run counts up have not left that range. An encoder that is
  given any other number throws, and the engine would drop the operation.
\<close>

section \<open>Well-typed requests\<close>

definition uint :: "int \<Rightarrow> bool" where
  "uint n = (0 \<le> n \<and> n < 2 ^ 256)"

fun arg_typed :: "call_arg \<Rightarrow> bool" where
  "arg_typed (Num n) = uint n"
| "arg_typed (Nums ns) = list_all uint ns"
| "arg_typed _ = True"

fun data_typed :: "call_data \<Rightarrow> bool" where
  "data_typed (Call i f as) = list_all arg_typed as"
| "data_typed _ = True"

definition request_typed :: "tx_request \<Rightarrow> bool" where
  "request_typed r = (data_typed (rq_data r) \<and> uint (rq_value r) \<and> 21000 \<le> rq_gas r \<and> rq_gas r \<le> 500000)"

text \<open>The ids that the bookkeeping holds are at most \<open>b\<close>.\<close>

definition below :: "int \<Rightarrow> int \<Rightarrow> bool" where
  "below b n = (0 \<le> n \<and> n \<le> b)"

definition ids_below :: "int \<Rightarrow> wl_ctx \<Rightarrow> bool" where
  "ids_below b c = (list_all (below b) [nftSeq c, mktSeq c, roySeq c, aucSeq c, batchSeq c, salt c, cloneSalt c, govPid c, voucherId c] \<and>
     (\<forall>q f. list_all (below b) (owned c q f)) \<and>
     list_all (\<lambda>l. below b (ls_id l) \<and> ls_price l = NFT_PRICE) (mktListed c) \<and>
     list_all (\<lambda>l. below b (ls_id l) \<and> ls_price l = NFT_PRICE) (royListed c) \<and>
     list_all (\<lambda>a. below b (au_id a)) (auctions c) \<and> list_all (\<lambda>p. below b (pr_pid p)) (proposals c))"

fun effect_below :: "int \<Rightarrow> effect \<Rightarrow> bool" where
  "effect_below b (PushOwned q f i) = below b i"
| "effect_below b (PushBatch f i k) = (0 \<le> i \<and> i + int k \<le> b)"
| "effect_below b (MktListing i f) = below b i"
| "effect_below b (RoyListing i f) = below b i"
| "effect_below b (NewAuction g i f) = below b i"
| "effect_below b (NewProposal p) = below b p"
| "effect_below b _ = True"

text \<open>The index of a wallet and the parts of a signature are numbers the encoder takes.\<close>

definition env_typed :: "wl_env \<Rightarrow> bool" where
  "env_typed e = ((\<forall>f. uint (wl_index e f)) \<and> (\<forall>f s n. list_all arg_typed (permit_sig e f s n)) \<and>
     (\<forall>f n. list_all arg_typed (voucher_sig e f n)))"

lemma below_mono: "below b n \<Longrightarrow> b \<le> b' \<Longrightarrow> below b' n"
  by (simp add: below_def)

lemma below_uint: "below b n \<Longrightarrow> b < 2 ^ 256 \<Longrightarrow> uint n"
  by (simp add: below_def uint_def)

lemma effect_below_mono: "effect_below b x \<Longrightarrow> b \<le> b' \<Longrightarrow> effect_below b' x"
  by (cases x) (auto intro: below_mono)

lemma ids_below_mono: "ids_below b c \<Longrightarrow> b \<le> b' \<Longrightarrow> ids_below b' c"
  by (auto simp: ids_below_def list_all_iff intro: below_mono)

section \<open>Effects keep the ids\<close>

lemma list_all_cap: "list_all P q \<Longrightarrow> list_all P (cap q)"
  by (cases q) (simp_all add: cap_def)

lemma list_all_drop: "list_all P q \<Longrightarrow> list_all P (drop k q)"
  by (auto simp: list_all_iff dest: in_set_dropD)

lemma list_all_listing: "list_all P L \<Longrightarrow> P l \<Longrightarrow> list_all P (fst (add_listing l L k))"
  by (auto simp: add_listing_def Let_def simp del: drop_append intro: list_all_drop)

lemma list_all_map_id: "list_all P xs \<Longrightarrow> (\<And>x. P (f x) = P x) \<Longrightarrow> list_all P (map f xs)"
  by (simp add: list_all_iff)

lemma apply_effect_below:
  assumes "ids_below b c" "effect_below b eff"
  shows "ids_below b (apply_effect e n now eff c)"
proof (cases eff)
  case (PushOwned q f i)
  with assms show ?thesis by (simp add: ids_below_def push_owned_def list_all_cap)
next
  case (PushBatch f i k)
  have "list_all (below b) (map (\<lambda>j. i + int j) [0..<k])" using assms(2) PushBatch by (auto simp: list_all_iff below_def)
  with assms PushBatch show ?thesis by (simp add: ids_below_def list_all_cap)
next
  case (MktListing i f)
  with assms show ?thesis
    using list_all_listing [of "\<lambda>l. below b (ls_id l) \<and> ls_price l = NFT_PRICE" "mktListed c"]
    by (simp add: ids_below_def split: prod.split) (metis fst_conv listing.select_convs(1,3))
next
  case (RoyListing i f)
  with assms show ?thesis
    using list_all_listing [of "\<lambda>l. below b (ls_id l) \<and> ls_price l = NFT_PRICE" "royListed c"]
    by (simp add: ids_below_def split: prod.split) (metis fst_conv listing.select_convs(1,3))
qed (use assms in \<open>simp_all add: ids_below_def list_all_map_id\<close>)

section \<open>Builders\<close>

text \<open>What a builder may do with a context whose ids are at most \<open>b\<close>.\<close>

definition built_typed :: "int \<Rightarrow> built \<Rightarrow> bool" where
  "built_typed b x = (ids_below (b + 8) (snd x) \<and>
     (case fst x of None \<Rightarrow> True | Some y \<Rightarrow> request_typed (fst y) \<and> effect_below (b + 8) (snd y)))"

lemma built_typed_ready:
  "ids_below (b + 8) c \<Longrightarrow> request_typed r \<Longrightarrow> effect_below (b + 8) eff \<Longrightarrow> built_typed b (ready r eff c)"
  by (simp add: built_typed_def ready_def)

lemma built_typed_None: "ids_below b c \<Longrightarrow> built_typed b (None, c)"
  by (simp add: built_typed_def ids_below_mono)

lemma built_typed_debit: "ids_below b c \<Longrightarrow> request_typed r \<Longrightarrow> built_typed b (debit k f r c)"
  using ids_below_mono [of b c "b + 8"] by (auto simp: built_typed_def debit_def ids_below_def)

lemma owned_below: "ids_below b c \<Longrightarrow> list_all (below b) (owned c q f)"
  by (simp add: ids_below_def)

lemma built_typed_owned:
  assumes "ids_below b c" "\<And>i. below b i \<Longrightarrow> request_typed (fst (r i)) \<and> effect_below (b + 8) (snd (r i))"
  shows "built_typed b (take_owned q f r c)"
proof (cases "owned c q f")
  case Nil
  with assms(1) show ?thesis by (simp add: take_owned_def built_typed_None)
next
  case (Cons i rest)
  then have i: "below b i" "list_all (below b) rest" using owned_below [OF assms(1), of q f] by simp_all
  then have "ids_below b (c\<lparr>owned := (owned c)(q := (owned c q)(f := rest))\<rparr>)" using assms(1) by (simp add: ids_below_def)
  with assms(2) [OF i(1)] Cons show ?thesis
    by (simp add: take_owned_def built_typed_def ids_below_mono split: prod.split)
qed

lemma built_typed_child:
  "ids_below b c \<Longrightarrow> data_typed d \<Longrightarrow> built_typed b (call_child k f d c)"
  by (auto simp: call_child_def built_typed_def ready_def tx_def request_typed_def uint_def ids_below_mono split: list.split)

lemma first_index_in: "first_index P xs s n = Some i \<Longrightarrow> i < length xs"
  using find_Some_iff [of "\<lambda>i. P (xs ! i)" "[s..<min (s + n) (length xs)]" i]
  by (metis atLeastLessThan_iff first_index_def min_less_iff_conj nth_mem set_upt)

lemma list_all_update: "list_all P xs \<Longrightarrow> i < length xs \<Longrightarrow> P x \<Longrightarrow> list_all P (xs[i := x])"
  by (simp add: list_all_iff) (metis in_mono insert_iff set_update_subset_insert)

lemma built_typed_auction:
  assumes "ids_below b c" "\<And>a. below b (au_id a) \<Longrightarrow> request_typed (r a)" "\<And>a. au_id (u a) = au_id a"
  shows "built_typed b (on_auction P u r c)"
proof (cases "first_index P (auctions c) 0 (length (auctions c))")
  case None
  with assms(1) show ?thesis by (simp add: on_auction_def built_typed_None)
next
  case (Some i)
  then have i: "i < length (auctions c)" by (rule first_index_in)
  then have a: "below b (au_id (auctions c ! i))" using assms(1) by (simp add: ids_below_def list_all_length)
  have "ids_below b (c\<lparr>auctions := (auctions c)[i := u (auctions c ! i)]\<rparr>)"
    using assms(1,3) a i by (simp add: ids_below_def list_all_update)
  with assms(2) a Some show ?thesis by (simp add: on_auction_def built_typed_def ids_below_mono)
qed

lemma built_typed_proposal:
  assumes "ids_below b c" "\<And>p. below b (pr_pid p) \<Longrightarrow> request_typed (fst (r p)) \<and> effect_below (b + 8) (snd (r p))" "\<And>p. pr_pid (u p) = pr_pid p"
  shows "built_typed b (on_proposal P u r c)"
proof (cases "first_index P (proposals c) 0 (length (proposals c))")
  case None
  with assms(1) show ?thesis by (simp add: on_proposal_def built_typed_None)
next
  case (Some i)
  then have i: "i < length (proposals c)" by (rule first_index_in)
  then have a: "below b (pr_pid (proposals c ! i))" using assms(1) by (simp add: ids_below_def list_all_length)
  have "ids_below b (c\<lparr>proposals := (proposals c)[i := u (proposals c ! i)]\<rparr>)"
    using assms(1,3) a i by (simp add: ids_below_def list_all_update)
  with assms(2) [OF a] Some show ?thesis by (simp add: on_proposal_def built_typed_def ids_below_mono split: prod.split)
qed

lemma taken_listing:
  assumes "list_all (\<lambda>l. below b (ls_id l) \<and> ls_price l = NFT_PRICE) L" "first_index P L s n = Some i"
  shows "below b (ls_id (L ! i))" "ls_price (L ! i) = NFT_PRICE"
    "list_all (\<lambda>l. below b (ls_id l) \<and> ls_price l = NFT_PRICE) (L[i := (L ! i)\<lparr>ls_taken := True\<rparr>])"
proof -
  have i: "i < length L" using assms(2) by (rule first_index_in)
  then show l: "below b (ls_id (L ! i))" "ls_price (L ! i) = NFT_PRICE" using assms(1) by (simp_all add: list_all_length)
  show "list_all (\<lambda>l. below b (ls_id l) \<and> ls_price l = NFT_PRICE) (L[i := (L ! i)\<lparr>ls_taken := True\<rparr>])"
    using assms(1) i l by (simp add: list_all_update)
qed

lemma request_typed_tx: "request_typed (tx t (Call i g as) v gas) \<longleftrightarrow> list_all arg_typed as \<and> uint v \<and> 21000 \<le> gas \<and> gas \<le> 500000"
  by (simp add: request_typed_def tx_def)

lemma draw_less: "0 < n \<Longrightarrow> draw rnd k n < n"
  by (simp add: draw_def)

lemma uint_draw: "0 < n \<Longrightarrow> n \<le> 2 ^ 255 \<Longrightarrow> uint (int (draw rnd k n))"
  using draw_less [of n rnd k] by (simp add: uint_def)

lemmas amounts = SWAP_IN_def ADD_LIQ_def LP_REMOVE_def NSWAP_IN_def NADD_TOK_def NADD_NATIVE_def NFT_PRICE_def PERMIT_VALUE_def
  PERMIT_XFER_def VOUCHER_AMT_def DEADLINE_def

lemma ids_below_grow:
  assumes "ids_below b c" "0 \<le> d" "d \<le> 8"
  shows "ids_below (b + 8) (c\<lparr>nftSeq := nftSeq c + d\<rparr>)" "ids_below (b + 8) (c\<lparr>mktSeq := mktSeq c + d\<rparr>)"
    "ids_below (b + 8) (c\<lparr>roySeq := roySeq c + d\<rparr>)" "ids_below (b + 8) (c\<lparr>aucSeq := aucSeq c + d\<rparr>)"
    "ids_below (b + 8) (c\<lparr>batchSeq := batchSeq c + d\<rparr>)" "ids_below (b + 8) (c\<lparr>salt := salt c + d\<rparr>)"
    "ids_below (b + 8) (c\<lparr>cloneSalt := cloneSalt c + d\<rparr>)" "ids_below (b + 8) (c\<lparr>govPid := govPid c + d\<rparr>)"
    "ids_below (b + 8) (c\<lparr>voucherId := voucherId c + d\<rparr>)"
proof -
  have "ids_below (b + 8) c" by (rule ids_below_mono [OF assms(1)]) simp
  then show "ids_below (b + 8) (c\<lparr>nftSeq := nftSeq c + d\<rparr>)" "ids_below (b + 8) (c\<lparr>mktSeq := mktSeq c + d\<rparr>)"
    "ids_below (b + 8) (c\<lparr>roySeq := roySeq c + d\<rparr>)" "ids_below (b + 8) (c\<lparr>aucSeq := aucSeq c + d\<rparr>)"
    "ids_below (b + 8) (c\<lparr>batchSeq := batchSeq c + d\<rparr>)" "ids_below (b + 8) (c\<lparr>salt := salt c + d\<rparr>)"
    "ids_below (b + 8) (c\<lparr>cloneSalt := cloneSalt c + d\<rparr>)" "ids_below (b + 8) (c\<lparr>govPid := govPid c + d\<rparr>)"
    "ids_below (b + 8) (c\<lparr>voucherId := voucherId c + d\<rparr>)"
    using assms by (simp_all add: ids_below_def below_def)
qed

lemma build_typed_counting:
  assumes c: "ids_below b c" and b: "b + 8 < 2 ^ 256" and e: "env_typed e"
    and w: "w \<in> {NftMint, FactoryDeploy, CloneDeterministic, MktMint, RoyaltyMint, AuctionMint, GovPropose, VoucherRedeem, BatchMint}"
  shows "built_typed b (build e rnd now w f c)"
proof -
  have n: "3 \<le> 3 + draw rnd 0 6" "3 + draw rnd 0 6 \<le> 8" using draw_less [of 6 rnd 0] by auto
  have seqs: "list_all (below b) [nftSeq c, mktSeq c, roySeq c, aucSeq c, batchSeq c, salt c, cloneSalt c, govPid c, voucherId c]"
    using c by (simp add: ids_below_def)
  have sig: "list_all arg_typed (voucher_sig e f n)" for n using e by (simp add: env_typed_def)
  show ?thesis
    using w seqs b n ids_below_grow [OF c, of 1] ids_below_grow(5) [OF c, of "int (3 + draw rnd 0 6)"] sig
    by (auto simp: built_typed_ready request_typed_tx below_def uint_def Let_def VOUCHER_AMT_def DEADLINE_def)
qed

lemma build_typed_owned:
  assumes c: "ids_below b c" and b: "b + 8 < 2 ^ 256"
    and w: "w \<in> {NftTransfer, MktList, RoyaltyList, NftStakeStake, NftStakeUnstake, CreateEnglish, CreateDutch}"
  shows "built_typed b (build e rnd now w f c)"
proof -
  have "below b i \<Longrightarrow> below (b + 8) i" "below b i \<Longrightarrow> uint i" for i using b by (auto simp: below_def uint_def)
  moreover have "uint 180" "uint (10 ^ 9)" "uint (2 * 10 ^ 9)" "uint (10 ^ 8)" "uint 1000000" "uint NFT_PRICE" "uint 0"
    by (simp_all add: uint_def NFT_PRICE_def)
  ultimately show ?thesis using w by (auto intro!: built_typed_owned [OF c] simp: request_typed_tx)
qed

lemma build_typed_phases:
  assumes c: "ids_below b c" and b: "b + 8 < 2 ^ 256"
    and w: "w \<in> {BidEnglish, SettleEnglish, BuyDutch, GovVote, GovQueue, GovExecute}"
  shows "built_typed b (build e rnd now w f c)"
proof -
  have "below b i \<Longrightarrow> uint i" for i using b by (auto simp: below_def uint_def)
  moreover have "uint (10 ^ 9)" "uint (2 * 10 ^ 9)" "uint 0" by (simp_all add: uint_def)
  ultimately show ?thesis
    using w by (auto intro!: built_typed_auction [OF c] built_typed_proposal [OF c] simp: request_typed_tx)
qed

lemma build_typed_market:
  assumes c: "ids_below b c" and b: "b + 8 < 2 ^ 256" and w: "w \<in> {MktBuy, RoyaltyBuy, RoyaltyCancel}"
  shows "built_typed b (build e rnd now w f c)"
proof -
  have u: "below b i \<Longrightarrow> uint i" for i using b by (auto simp: below_def uint_def)
  have p: "uint NFT_PRICE" "uint 0" by (simp_all add: uint_def NFT_PRICE_def)
  have c8: "ids_below (b + 8) c" using c by (rule ids_below_mono) simp
  have L: "list_all (\<lambda>l. below b (ls_id l) \<and> ls_price l = NFT_PRICE) (mktListed c)"
    "list_all (\<lambda>l. below b (ls_id l) \<and> ls_price l = NFT_PRICE) (royListed c)" using c by (simp_all add: ids_below_def)
  have "ids_below b (c\<lparr>mktCursor := k\<rparr>)" "ids_below b (c\<lparr>royCursor := k\<rparr>)"
    "list_all (\<lambda>l. below b (ls_id l) \<and> ls_price l = NFT_PRICE) L' \<Longrightarrow> ids_below b (c\<lparr>mktCursor := k, mktListed := L'\<rparr>)"
    "list_all (\<lambda>l. below b (ls_id l) \<and> ls_price l = NFT_PRICE) L' \<Longrightarrow> ids_below b (c\<lparr>royCursor := k, royListed := L'\<rparr>)"
    "list_all (\<lambda>l. below b (ls_id l) \<and> ls_price l = NFT_PRICE) L' \<Longrightarrow> ids_below b (c\<lparr>royListed := L'\<rparr>)" for k L'
    using c by (simp_all add: ids_below_def)
  moreover have "b \<le> b + 8" by simp
  ultimately have m: "ids_below (b + 8) (c\<lparr>mktCursor := k\<rparr>)" "ids_below (b + 8) (c\<lparr>royCursor := k\<rparr>)"
    "list_all (\<lambda>l. below b (ls_id l) \<and> ls_price l = NFT_PRICE) L' \<Longrightarrow> ids_below (b + 8) (c\<lparr>mktCursor := k, mktListed := L'\<rparr>)"
    "list_all (\<lambda>l. below b (ls_id l) \<and> ls_price l = NFT_PRICE) L' \<Longrightarrow> ids_below (b + 8) (c\<lparr>royCursor := k, royListed := L'\<rparr>)"
    "list_all (\<lambda>l. below b (ls_id l) \<and> ls_price l = NFT_PRICE) L' \<Longrightarrow> ids_below (b + 8) (c\<lparr>royListed := L'\<rparr>)" for k L'
    by (blast intro: ids_below_mono)+
  have none: "built_typed b (None, c)" "built_typed b (None, c\<lparr>mktCursor := k\<rparr>)" "built_typed b (None, c\<lparr>royCursor := k\<rparr>)" for k
    using c8 m by (simp_all add: built_typed_def)
  show ?thesis
    using w c8 m u p none taken_listing [OF L(1)] taken_listing [OF L(2)]
    by (auto simp: Let_def request_typed_tx built_typed_ready split: option.split)
qed

lemma build_typed_plain:
  assumes c: "ids_below b c" and e: "env_typed e"
    and w: "w \<notin> {NftMint, FactoryDeploy, CloneDeterministic, MktMint, RoyaltyMint, AuctionMint, GovPropose, VoucherRedeem, BatchMint}"
      "w \<notin> {NftTransfer, MktList, RoyaltyList, NftStakeStake, NftStakeUnstake, CreateEnglish, CreateDutch}"
      "w \<notin> {BidEnglish, SettleEnglish, BuyDutch, GovVote, GovQueue, GovExecute}" "w \<notin> {MktBuy, RoyaltyBuy, RoyaltyCancel}"
  shows "built_typed b (build e rnd now w f c)"
proof -
  have c8: "ids_below (b + 8) c" using c by (rule ids_below_mono) simp
  have x: "ids_below (b + 8) (c\<lparr>lp := l\<rparr>)" "ids_below (b + 8) (c\<lparr>clones := k\<rparr>)" "ids_below (b + 8) (c\<lparr>permitsBySpender := q\<rparr>)"
    "ids_below (b + 8) (c\<lparr>permitNonce := p, permitInFlight := g\<rparr>)" for l k q p g
    using c8 by (simp_all add: ids_below_def)
  have i: "uint (wl_index e f)" "list_all arg_typed (permit_sig e f' s n)" for f' s n using e by (simp_all add: env_typed_def)
  have none: "built_typed b (None, c)" "built_typed b (None, c\<lparr>permitsBySpender := q\<rparr>)" for q
    using c8 x by (simp_all add: built_typed_def)
  have r: "uint (int (draw rnd k 1000000000))" "uint (int (draw rnd k 1000000))" for k by (simp_all add: uint_draw)
  have n: "draw rnd 0 5 \<le> 4" "draw rnd 0 24 \<le> 23" "draw rnd 0 7 \<le> 6"
    using draw_less [of 5 rnd 0] draw_less [of 24 rnd 0] draw_less [of 7 rnd 0] by auto
  note [simp] = built_typed_ready built_typed_debit [OF c] built_typed_child [OF c] request_typed_tx call0_def
  show ?thesis
  proof (cases w)
    case DexRemoveLiq
    then show ?thesis using c8 x none by (auto simp: built_typed_def request_typed_tx uint_def amounts split: option.split)
  next
    case PermitOp
    then show ?thesis using c8 x none i by (auto simp: Let_def uint_def amounts)
  next
    case DisperseMany
    then show ?thesis using c8 n by (auto simp: Let_def uint_def list_all_iff)
  qed (use w c8 x none i r n in \<open>auto simp: Let_def uint_def amounts request_typed_def tx_def split: prod.split option.split list.split\<close>)
qed

lemma build_typed:
  assumes "ids_below b c" "b + 8 < 2 ^ 256" "env_typed e"
  shows "built_typed b (build e rnd now w f c)"
proof -
  consider "w \<in> {NftMint, FactoryDeploy, CloneDeterministic, MktMint, RoyaltyMint, AuctionMint, GovPropose, VoucherRedeem, BatchMint}"
    | "w \<in> {NftTransfer, MktList, RoyaltyList, NftStakeStake, NftStakeUnstake, CreateEnglish, CreateDutch}"
    | "w \<in> {BidEnglish, SettleEnglish, BuyDutch, GovVote, GovQueue, GovExecute}" | "w \<in> {MktBuy, RoyaltyBuy, RoyaltyCancel}"
    | "w \<notin> {NftMint, FactoryDeploy, CloneDeterministic, MktMint, RoyaltyMint, AuctionMint, GovPropose, VoucherRedeem, BatchMint}"
      "w \<notin> {NftTransfer, MktList, RoyaltyList, NftStakeStake, NftStakeUnstake, CreateEnglish, CreateDutch}"
      "w \<notin> {BidEnglish, SettleEnglish, BuyDutch, GovVote, GovQueue, GovExecute}" "w \<notin> {MktBuy, RoyaltyBuy, RoyaltyCancel}"
    by blast
  then show ?thesis
    by cases (use assms in \<open>auto intro: build_typed_counting build_typed_owned build_typed_phases build_typed_market build_typed_plain\<close>)
qed

section \<open>Runs\<close>

text \<open>
  A run builds operations and applies the effects of what it has built, at any time and in any order:
  the number of builds, the context, the effects and the requests.
\<close>

inductive build_run :: "wl_env \<Rightarrow> wl_ctx \<Rightarrow> nat \<Rightarrow> wl_ctx \<Rightarrow> effect set \<Rightarrow> tx_request set \<Rightarrow> bool" for e c0 where
  run_start: "build_run e c0 0 c0 {} {}"
| run_skip: "build_run e c0 k c E R \<Longrightarrow> build e rnd now w f c = (None, c') \<Longrightarrow> build_run e c0 (Suc k) c' E R"
| run_build: "build_run e c0 k c E R \<Longrightarrow> build e rnd now w f c = (Some (r, eff), c') \<Longrightarrow>
    build_run e c0 (Suc k) c' (insert eff E) (insert r R)"
| run_effect: "build_run e c0 k c E R \<Longrightarrow> eff \<in> E \<Longrightarrow> build_run e c0 k (apply_effect e n t eff c) E R"

text \<open>
  C19. Every request of a run of \<open>k\<close> builds is well typed: its numbers are \<open>uint256\<close> and its gas is between
  21000 and 500000, as long as the ids the run started with leave room for eight more per build.
\<close>

theorem requests_well_typed:
  assumes "build_run e c0 k c E R" "ids_below b c0" "b + 8 * int k < 2 ^ 256" "env_typed e"
  shows "\<forall>r \<in> R. request_typed r"
proof -
  have "b + 8 * int k < 2 ^ 256 \<Longrightarrow> ids_below (b + 8 * int k) c \<and> (\<forall>x \<in> E. effect_below (b + 8 * int k) x) \<and> (\<forall>r \<in> R. request_typed r)"
    using assms(1)
  proof induction
    case run_start
    then show ?case using assms(2) by simp
  next
    case (run_skip k c E R rnd now w f c')
    then have IH: "ids_below (b + 8 * int k) c" "\<forall>x \<in> E. effect_below (b + 8 * int k) x" "\<forall>r \<in> R. request_typed r" by auto
    have "built_typed (b + 8 * int k) (None, c')"
      using build_typed [OF IH(1), of e rnd now w f] run_skip assms(4) by simp
    with IH show ?case by (auto simp: built_typed_def algebra_simps intro: effect_below_mono)
  next
    case (run_build k c E R rnd now w f r eff c')
    then have IH: "ids_below (b + 8 * int k) c" "\<forall>x \<in> E. effect_below (b + 8 * int k) x" "\<forall>r \<in> R. request_typed r" by auto
    have "built_typed (b + 8 * int k) (Some (r, eff), c')"
      using build_typed [OF IH(1), of e rnd now w f] run_build assms(4) by simp
    with IH show ?case by (auto simp: built_typed_def algebra_simps intro: effect_below_mono)
  next
    case (run_effect k c E R eff n t)
    then show ?case by (auto intro: apply_effect_below)
  qed
  with assms(3) show ?thesis by blast
qed

definition typed_env :: wl_env where
  "typed_env = \<lparr>wl_addr = (\<lambda>s. s), wl_pool = [''a'', ''b''], wl_index = (\<lambda>s. 0), wl_pairs = [(''x'', ''y'', ''p'')], childBytecode = ''0x'',
     createAddr = (\<lambda>f n. f), create2Addr = (\<lambda>n. ''d''), salt32 = (\<lambda>n. ''s''), cloneAddr = (\<lambda>s. ''k''),
     permit_sig = (\<lambda>p s n. []), voucher_sig = (\<lambda>f i. [])\<rparr>"

definition typed_ctx :: wl_ctx where
  "typed_ctx = \<lparr>credits = (\<lambda>k f. 0), owned = (\<lambda>q f. []), children = (\<lambda>k f. []), clones = (\<lambda>f. []), lp = (\<lambda>f p. 0), has1155 = (\<lambda>f. False),
     nftSeq = 5, mktSeq = 0, roySeq = 0, aucSeq = 0, batchSeq = 0, salt = 0, cloneSalt = 0, govPid = 0, voucherId = 0,
     mktListed = [], mktCursor = 0, royListed = [], royCursor = 0, auctions = [], proposals = [],
     permitNonce = (\<lambda>f. None), permitsBySpender = (\<lambda>f. []), permitInFlight = (\<lambda>f. False)\<rparr>"

theorem requests_well_typed_witness:
  "request_typed (tx ''nft'' (Call ''erc721'' ''transferFrom'' [Addr ''a'', Addr ''b'', Num 5]) 0 90000)"
proof -
  let ?c1 = "snd (build typed_env (\<lambda>k. 1) 0 NftMint ''a'' typed_ctx)" let ?c2 = "apply_effect typed_env 0 0 (PushOwned Nft ''a'' 5) ?c1"
  have 1: "build typed_env (\<lambda>k. 1) 0 NftMint ''a'' typed_ctx =
      (Some (tx ''nft'' (Call ''erc721'' ''mint'' [Addr ''a'', Num 5]) 0 120000, PushOwned Nft ''a'' 5), ?c1)"
    by (simp add: ready_def typed_env_def typed_ctx_def)
  have 2: "build typed_env (\<lambda>k. 1) 0 NftTransfer ''a'' ?c2 =
      (Some (tx ''nft'' (Call ''erc721'' ''transferFrom'' [Addr ''a'', Addr ''b'', Num 5]) 0 90000, NoEffect),
       snd (build typed_env (\<lambda>k. 1) 0 NftTransfer ''a'' ?c2))"
    by (simp add: ready_def typed_env_def typed_ctx_def take_owned_def push_owned_def cap_def QCAP_def others_def randOf_def draw_def)
  have run: "build_run typed_env typed_ctx (Suc (Suc 0)) (snd (build typed_env (\<lambda>k. 1) 0 NftTransfer ''a'' ?c2)) {NoEffect, PushOwned Nft ''a'' 5}
      {tx ''nft'' (Call ''erc721'' ''transferFrom'' [Addr ''a'', Addr ''b'', Num 5]) 0 90000, tx ''nft'' (Call ''erc721'' ''mint'' [Addr ''a'', Num 5]) 0 120000}"
    using build_run.run_build [OF build_run.run_effect [OF build_run.run_build [OF build_run.run_start 1] insertI1] 2] .
  have ids: "ids_below 5 typed_ctx" "env_typed typed_env"
    by (simp_all add: ids_below_def typed_ctx_def below_def env_typed_def typed_env_def uint_def)
  have "\<forall>r \<in> {tx ''nft'' (Call ''erc721'' ''transferFrom'' [Addr ''a'', Addr ''b'', Num 5]) 0 90000,
      tx ''nft'' (Call ''erc721'' ''mint'' [Addr ''a'', Num 5]) 0 120000}. request_typed r"
    by (rule requests_well_typed [OF run ids(1) _ ids(2)]) simp
  then show ?thesis by simp
qed

end
