(* ===== verification/Swap_Common.thy ===== *)
theory Swap_Common
  imports Gemba_Prelude
begin

text \<open>
  What the forms of the exchange share: the addresses of frontend/swap/src/config/chains.js, amounts,
  slippage, and the calls a form asks the wallet for.

  The functions of viem that read amounts and addresses are arguments; \<open>None\<close> is an exception.
\<close>

section \<open>Addresses\<close>

record dex_config =
  dx_router :: string
  dx_factory :: string
  dx_wgmb :: string
  dx_locker :: string

definition DEFAULT_CHAIN_ID :: int where
  "DEFAULT_CHAIN_ID = 821207"

definition DEX :: "int \<Rightarrow> dex_config option" where
  "DEX chain = (if chain = 821207 then Some \<lparr>
       dx_router = ''0x49Da581bf5C09aE24312574D4835d416EE5eEfd5'', dx_factory = ''0x15752A99d2e06d001F5d228AA158EbD687276DB4'',
       dx_wgmb = ''0x4A74DB9c9cE285960d01B53a626945DDd100e8d8'', dx_locker = ''0xa2bf89D6FDAA3d72310DD82A9da40032abd398c6''\<rparr>
     else if chain = 821206 then Some \<lparr>dx_router = '''', dx_factory = '''', dx_wgmb = '''', dx_locker = ''''\<rparr>
     else None)"

definition dex_of :: "int \<Rightarrow> dex_config" where
  "dex_of chain = (case DEX chain of Some d \<Rightarrow> d | None \<Rightarrow> the (DEX DEFAULT_CHAIN_ID))"

record viem =
  parseUnits :: "string \<Rightarrow> nat \<Rightarrow> int option"
  isAddress :: "string \<Rightarrow> bool"
  getAddress :: "string \<Rightarrow> string option"

section \<open>Amounts\<close>

definition parse_amount :: "viem \<Rightarrow> string \<Rightarrow> nat \<Rightarrow> int" where
  "parse_amount v a d = (if a = '''' then 0 else case parseUnits v a d of None \<Rightarrow> 0 | Some n \<Rightarrow> n)"

text \<open>The amount and slippage fields keep digits and dots only.\<close>

definition decimal_input :: "string \<Rightarrow> string" where
  "decimal_input s = filter (\<lambda>c. is_digit c \<or> c = CHR ''.'') s"

text \<open>\<open>BigInt(Math.round(Number(slip || "0.5") * 100))\<close>; \<open>None\<close> is the exception of \<open>BigInt\<close>.\<close>

definition slip_bps :: "string \<Rightarrow> int option" where
  "slip_bps slip = big_of_number (js_round (js_mul (string_to_number (if slip = '''' then ''0.5'' else slip)) (Fin 100)))"

definition minus_bps :: "int \<Rightarrow> int \<Rightarrow> int" where
  "minus_bps v bps = v - big_div (v * bps) 10000"

section \<open>Calls\<close>

datatype ui_arg = UInt int | Address string | Path "string list"

record ui_call =
  uc_to :: string
  uc_fn :: string
  uc_args :: "ui_arg list"
  uc_value :: int

definition approve_call :: "string \<Rightarrow> string \<Rightarrow> int \<Rightarrow> ui_call" where
  "approve_call token spender amt = \<lparr>uc_to = token, uc_fn = ''approve'', uc_args = [Address spender, UInt amt], uc_value = 0\<rparr>"

datatype ui_error = NoError | InvalidAddress | NotAToken | ApprovalFailed | ActionFailed

section \<open>Facts about amounts\<close>

lemma minus_bps_bounds:
  assumes "0 \<le> v" "0 \<le> bps" "bps \<le> 10000"
  shows "0 \<le> minus_bps v bps" "minus_bps v bps \<le> v" "v * (10000 - bps) \<le> minus_bps v bps * 10000"
    "minus_bps v bps * 10000 < v * (10000 - bps) + 10000"
proof -
  have d: "big_div (v * bps) 10000 = v * bps div 10000" using assms by (simp add: big_div_nonneg)
  have m: "v * bps div 10000 * 10000 + v * bps mod 10000 = v * bps" by simp
  have r: "0 \<le> v * bps mod 10000" "v * bps mod 10000 < 10000" by simp_all
  have "v * bps div 10000 \<le> v * 10000 div 10000"
    by (rule zdiv_mono1) (use assms in \<open>auto intro: mult_left_mono\<close>)
  then show "0 \<le> minus_bps v bps" by (simp add: minus_bps_def d)
  have "0 \<le> v * bps div 10000" using assms by (simp add: pos_imp_zdiv_nonneg_iff)
  then show "minus_bps v bps \<le> v" by (simp add: minus_bps_def d)
  have e: "v * (10000 - bps) = v * 10000 - v * bps" by (simp add: algebra_simps)
  show "v * (10000 - bps) \<le> minus_bps v bps * 10000" "minus_bps v bps * 10000 < v * (10000 - bps) + 10000"
    unfolding minus_bps_def d e left_diff_distrib using m r by linarith+
qed

lemma minus_bps_negative:
  assumes "10000 \<le> v" "10000 < bps"
  shows "minus_bps v bps < 0"
proof -
  have "big_div (v * bps) 10000 = v * bps div 10000" using assms by (simp add: big_div_nonneg)
  moreover have "v * 10001 div 10000 \<le> v * bps div 10000"
    by (rule zdiv_mono1) (use assms in \<open>auto intro: mult_left_mono\<close>)
  moreover have "v < v * 10001 div 10000" using assms by simp
  ultimately show ?thesis by (simp add: minus_bps_def)
qed

end
