(* ===== verification/Swap_Form.thy ===== *)
theory Swap_Form
  imports Swap_Common
begin

text \<open>
  The swap form, frontend/swap/src/components/SwapForm.jsx: the state of the component, what it computes
  at each rendering from the answers of the chain, the button it shows, and its handlers.

  A rendering is \<open>None\<close> when it throws. The answers of the hooks are a record of the chain as the form
  sees it; a hook that is not enabled has no answer. The wallet is an argument of the handlers: it gives
  the hash of the transaction, or nothing when it refuses.
\<close>

section \<open>State\<close>

record token =
  tk_addr :: string
  tk_symbol :: string
  tk_name :: string
  tk_decimals :: nat
  tk_native :: bool

definition NATIVE :: token where
  "NATIVE = \<lparr>tk_addr = ''native'', tk_symbol = ''GMB'', tk_name = ''Gemba'', tk_decimals = 18, tk_native = True\<rparr>"

definition wgmb_token :: "dex_config \<Rightarrow> token" where
  "wgmb_token dex = \<lparr>tk_addr = dx_wgmb dex, tk_symbol = ''WGMB'', tk_name = ''Wrapped GMB'', tk_decimals = 18, tk_native = False\<rparr>"

datatype side = SideIn | SideOut

record swap_form =
  sf_tokens :: "token list"
  sf_in :: token
  sf_out :: token
  sf_amount :: string
  sf_slip :: string
  sf_picking :: "side option"
  sf_err :: ui_error
  sf_tx :: "string option"

definition swap_form_start :: "dex_config \<Rightarrow> swap_form" where
  "swap_form_start dex = \<lparr>sf_tokens = [NATIVE, wgmb_token dex], sf_in = NATIVE, sf_out = wgmb_token dex, sf_amount = '''',
     sf_slip = ''0.5'', sf_picking = None, sf_err = NoError, sf_tx = None\<rparr>"

text \<open>The quote of the router is the last amount it returns.\<close>

record swap_chain =
  sc_account :: "string option"
  sc_connected :: bool
  sc_chain :: int
  sc_quote :: "int \<Rightarrow> string list \<Rightarrow> int option"
  sc_quote_err :: bool
  sc_native :: "int option"
  sc_balance :: "string \<Rightarrow> int option"
  sc_allowance :: "string \<Rightarrow> int option"
  sc_pending :: bool
  sc_mining :: bool

section \<open>Rendering\<close>

definition wrapAddr :: "viem \<Rightarrow> dex_config \<Rightarrow> token \<Rightarrow> string option" where
  "wrapAddr v dex t = (if tk_native t then getAddress v (dx_wgmb dex) else getAddress v (tk_addr t))"

definition swap_path :: "viem \<Rightarrow> dex_config \<Rightarrow> token \<Rightarrow> token \<Rightarrow> string list option" where
  "swap_path v dex a b = (
     let wg = getAddress v (dx_wgmb dex) in
     if tk_native a then Option.bind wg (\<lambda>x. Option.bind (wrapAddr v dex b) (\<lambda>y. Some [x, y]))
     else if tk_native b then Option.bind (wrapAddr v dex a) (\<lambda>x. Option.bind wg (\<lambda>y. Some [x, y]))
     else Option.bind (wrapAddr v dex a) (\<lambda>x. Option.bind (wrapAddr v dex b) (\<lambda>y. Some [x, y])))"

definition isWrap :: "dex_config \<Rightarrow> token \<Rightarrow> token \<Rightarrow> bool" where
  "isWrap dex a b = (tk_native a \<and> \<not> tk_native b \<and> to_lower (tk_addr b) = to_lower (dx_wgmb dex))"

definition isUnwrap :: "dex_config \<Rightarrow> token \<Rightarrow> token \<Rightarrow> bool" where
  "isUnwrap dex a b = (\<not> tk_native a \<and> to_lower (tk_addr a) = to_lower (dx_wgmb dex) \<and> tk_native b)"

definition samePair :: "token \<Rightarrow> token \<Rightarrow> bool" where
  "samePair a b = ((tk_native a \<and> tk_native b) \<or>
     (\<not> tk_native a \<and> \<not> tk_native b \<and> to_lower (tk_addr a) = to_lower (tk_addr b)))"

definition isUnverified :: "dex_config \<Rightarrow> token \<Rightarrow> bool" where
  "isUnverified dex t = (\<not> tk_native t \<and> to_lower (tk_addr t) \<noteq> to_lower (dx_wgmb dex))"

record swap_view =
  vw_dex :: dex_config
  vw_amount :: int
  vw_path :: "string list"
  vw_wrap :: bool
  vw_unwrap :: bool
  vw_same :: bool
  vw_out :: int
  vw_min :: int
  vw_balance :: int
  vw_need :: bool
  vw_warning :: bool

definition or_zero :: "int option \<Rightarrow> int" where
  "or_zero x = (case x of None \<Rightarrow> 0 | Some n \<Rightarrow> n)"

definition swap_render :: "viem \<Rightarrow> swap_chain \<Rightarrow> swap_form \<Rightarrow> swap_view option" where
  "swap_render v c st = (
     let dex = dex_of (sc_chain c); a = sf_in st; b = sf_out st; n = parse_amount v (sf_amount st) (tk_decimals a);
         wrap = isWrap dex a b; unwrap = isUnwrap dex a b; same = samePair a b; on = (sc_account c \<noteq> None) in
     Option.bind (swap_path v dex a b) (\<lambda>path. Option.bind (slip_bps (sf_slip st)) (\<lambda>bps.
       (let routerOut = (if on \<and> 0 < n \<and> \<not> same \<and> \<not> (wrap \<or> unwrap) then or_zero (sc_quote c n path) else 0);
            bal = (if \<not> on then 0 else if tk_native a then or_zero (sc_native c) else or_zero (sc_balance c (tk_addr a)));
            allowance = (if on \<and> \<not> tk_native a then or_zero (sc_allowance c (tk_addr a)) else 0) in
        Some \<lparr>vw_dex = dex, vw_amount = n, vw_path = path, vw_wrap = wrap, vw_unwrap = unwrap, vw_same = same,
          vw_out = (if wrap \<or> unwrap then n else routerOut),
          vw_min = (if wrap \<or> unwrap then n else minus_bps routerOut bps),
          vw_balance = bal, vw_need = (\<not> tk_native a \<and> \<not> unwrap \<and> 0 < n \<and> allowance < n),
          vw_warning = (isUnverified dex a \<or> isUnverified dex b)\<rparr>))))"

text \<open>The button; the last two carry whether they can be pressed.\<close>

datatype swap_button = ConnectWallet | SelectTwoTokens | InsufficientFunds | EnterAmount | NoLiquidity
  | ApproveButton bool | SwapButton bool

definition swap_button_of :: "swap_chain \<Rightarrow> swap_view \<Rightarrow> swap_button" where
  "swap_button_of c w = (let idle = (\<not> (sc_pending c \<or> sc_mining c)) in
     if \<not> sc_connected c then ConnectWallet
     else if sc_connected c \<and> sc_chain c \<noteq> DEFAULT_CHAIN_ID then ConnectWallet
     else if vw_same w then SelectTwoTokens
     else if vw_balance w < vw_amount w then InsufficientFunds
     else if vw_amount w = 0 then EnterAmount
     else if \<not> (vw_wrap w \<or> vw_unwrap w) \<and> (sc_quote_err c \<or> vw_out w = 0) then NoLiquidity
     else if vw_need w then ApproveButton idle
     else SwapButton idle)"

section \<open>Handlers\<close>

definition type_amount :: "string \<Rightarrow> swap_form \<Rightarrow> swap_form" where
  "type_amount s st = st\<lparr>sf_amount := decimal_input s\<rparr>"

definition type_slip :: "string \<Rightarrow> swap_form \<Rightarrow> swap_form" where
  "type_slip s st = st\<lparr>sf_slip := decimal_input s\<rparr>"

definition flip_form :: "swap_form \<Rightarrow> swap_form" where
  "flip_form st = st\<lparr>sf_in := sf_out st, sf_out := sf_in st, sf_amount := ''''\<rparr>"

definition choose_token :: "token \<Rightarrow> swap_form \<Rightarrow> swap_form" where
  "choose_token t st = (if sf_picking st = Some SideIn then st\<lparr>sf_in := t, sf_picking := None\<rparr>
     else st\<lparr>sf_out := t, sf_picking := None\<rparr>)"

text \<open>
  \<open>read\<close> is \<open>readContracts\<close> for the symbol and the decimals of a contract: \<open>None\<close> when the whole read
  fails, and no result in place of a single call that fails.
\<close>

definition import_token :: "viem \<Rightarrow> (string \<Rightarrow> (string option \<times> nat option) option) \<Rightarrow> string \<Rightarrow> swap_form \<Rightarrow> swap_form" where
  "import_token v read input st = (let addr = trim input; st1 = st\<lparr>sf_err := NoError\<rparr> in
     if \<not> isAddress v addr then st1\<lparr>sf_err := InvalidAddress\<rparr>
     else case getAddress v addr of None \<Rightarrow> st1\<lparr>sf_err := NotAToken\<rparr>
     | Some a \<Rightarrow> (case read a of None \<Rightarrow> st1\<lparr>sf_err := NotAToken\<rparr>
       | Some (sy, dec) \<Rightarrow> (let
             t = \<lparr>tk_addr = a, tk_symbol = (case sy of None \<Rightarrow> ''TOKEN'' | Some [] \<Rightarrow> ''TOKEN'' | Some s \<Rightarrow> s),
                  tk_name = (case sy of None \<Rightarrow> ''Token'' | Some [] \<Rightarrow> ''Token'' | Some s \<Rightarrow> s),
                  tk_decimals = (case dec of None \<Rightarrow> 18 | Some d \<Rightarrow> d), tk_native = False\<rparr>;
             known = (\<exists>x \<in> set (sf_tokens st1). \<not> tk_native x \<and> to_lower (tk_addr x) = to_lower a) in
           choose_token t (if known then st1 else st1\<lparr>sf_tokens := sf_tokens st1 @ [t]\<rparr>))))"

definition do_approve :: "(ui_call \<Rightarrow> string option) \<Rightarrow> swap_view \<Rightarrow> swap_form \<Rightarrow> swap_form" where
  "do_approve wallet w st = (let st1 = st\<lparr>sf_err := NoError\<rparr> in
     case wallet (approve_call (tk_addr (sf_in st)) (dx_router (vw_dex w)) (vw_amount w)) of
       Some h \<Rightarrow> st1\<lparr>sf_tx := Some h\<rparr> | None \<Rightarrow> st1\<lparr>sf_err := ApprovalFailed\<rparr>)"

definition swap_call :: "int \<Rightarrow> string \<Rightarrow> swap_form \<Rightarrow> swap_view \<Rightarrow> ui_call" where
  "swap_call now account st w = (let deadline = now div 1000 + 1200; dex = vw_dex w in
     if vw_wrap w then \<lparr>uc_to = dx_wgmb dex, uc_fn = ''deposit'', uc_args = [], uc_value = vw_amount w\<rparr>
     else if vw_unwrap w then \<lparr>uc_to = dx_wgmb dex, uc_fn = ''withdraw'', uc_args = [UInt (vw_amount w)], uc_value = 0\<rparr>
     else if tk_native (sf_in st) then \<lparr>uc_to = dx_router dex, uc_fn = ''swapExactETHForTokens'',
       uc_args = [UInt (vw_min w), Path (vw_path w), Address account, UInt deadline], uc_value = vw_amount w\<rparr>
     else \<lparr>uc_to = dx_router dex, uc_fn = (if tk_native (sf_out st) then ''swapExactTokensForETH'' else ''swapExactTokensForTokens''),
       uc_args = [UInt (vw_amount w), UInt (vw_min w), Path (vw_path w), Address account, UInt deadline], uc_value = 0\<rparr>)"

text \<open>Without an account the call has an undefined argument, which the wallet library refuses.\<close>

definition do_swap :: "int \<Rightarrow> (ui_call \<Rightarrow> string option) \<Rightarrow> swap_chain \<Rightarrow> swap_view \<Rightarrow> swap_form \<Rightarrow> swap_form" where
  "do_swap now wallet c w st = (let st1 = st\<lparr>sf_err := NoError, sf_tx := None\<rparr> in
     case (case sc_account c of Some a \<Rightarrow> wallet (swap_call now a st w)
         | None \<Rightarrow> if vw_wrap w \<or> vw_unwrap w then wallet (swap_call now '''' st w) else None) of
       Some h \<Rightarrow> st1\<lparr>sf_tx := Some h, sf_amount := ''''\<rparr> | None \<Rightarrow> st1\<lparr>sf_err := ActionFailed\<rparr>)"

end
