(* ===== verification/Liquidity_Form.thy ===== *)
theory Liquidity_Form
  imports Swap_Common
begin

text \<open>
  The liquidity form, frontend/swap/src/components/LiquidityForm.jsx: adding a token and GMB to its pool
  and removing a share of it. As in the swap form, a rendering is \<open>None\<close> when it throws, and the answers
  of the hooks are a record of the chain.
\<close>

section \<open>State\<close>

datatype liq_mode = AddMode | RemoveMode

record liq_form =
  lf_mode :: liq_mode
  lf_token :: string
  lf_fot :: bool
  lf_slip :: string
  lf_amount :: string
  lf_manual :: string
  lf_lp :: string
  lf_err :: ui_error
  lf_tx :: "string option"

definition liq_form_start :: liq_form where
  "liq_form_start = \<lparr>lf_mode = AddMode, lf_token = '''', lf_fot = False, lf_slip = ''0.5'', lf_amount = '''',
     lf_manual = '''', lf_lp = '''', lf_err = NoError, lf_tx = None\<rparr>"

text \<open>What is read of a pair: reserves, first token, supply, and the account's balance and allowance.\<close>

record pool_read =
  pr_reserves :: "(int \<times> int) option"
  pr_token0 :: "string option"
  pr_supply :: "int option"
  pr_balance :: "int option"
  pr_allowance :: "int option"

record liq_chain =
  lc_account :: "string option"
  lc_connected :: bool
  lc_chain :: int
  lc_decimals :: "string \<Rightarrow> nat option"
  lc_allowance :: "string \<Rightarrow> int option"
  lc_pair :: "string \<Rightarrow> string option"
  lc_pool :: "string \<Rightarrow> pool_read"
  lc_pending :: bool
  lc_mining :: bool

definition no_read :: pool_read where
  "no_read = \<lparr>pr_reserves = None, pr_token0 = None, pr_supply = None, pr_balance = None, pr_allowance = None\<rparr>"

definition zeroAddress :: string where
  "zeroAddress = ''0x0000000000000000000000000000000000000000''"

section \<open>Rendering\<close>

record liq_view =
  lv_dex :: dex_config
  lv_token :: "string option"
  lv_pair :: "string option"
  lv_has_pair :: bool
  lv_pooled :: bool
  lv_tok :: int
  lv_gmb :: int
  lv_lp :: int
  lv_out_tok :: int
  lv_out_gmb :: int
  lv_min_add :: "int \<times> int"
  lv_min_remove :: "int \<times> int"
  lv_need_token :: bool
  lv_need_lp :: bool

text \<open>The reserves of the token and of GMB.\<close>

definition pool_sides :: "string option \<Rightarrow> pool_read \<Rightarrow> int \<times> int" where
  "pool_sides token p = (case (pr_reserves p, pr_token0 p) of
     (Some (r0, r1), Some t0) \<Rightarrow> if map_option to_lower token = Some (to_lower t0) then (r0, r1) else (r1, r0)
   | _ \<Rightarrow> (0, 0))"

definition gmb_for :: "int \<Rightarrow> int \<Rightarrow> int \<Rightarrow> int" where
  "gmb_for amt rToken rGmb = (if 0 < rToken then big_div (amt * rGmb) rToken else 0)"

definition share_of :: "int \<Rightarrow> int \<Rightarrow> int \<Rightarrow> int" where
  "share_of lp reserve supply = (if 0 < supply then big_div (lp * reserve) supply else 0)"

definition some_or :: "'a option \<Rightarrow> 'a \<Rightarrow> 'a" where
  "some_or x d = (case x of None \<Rightarrow> d | Some y \<Rightarrow> y)"

text \<open>What the handlers pass as minimum, nothing at all for a token that takes a fee.\<close>

definition minimums :: "bool \<Rightarrow> int \<Rightarrow> int \<Rightarrow> int \<Rightarrow> int \<times> int" where
  "minimums fot bps a b = (if fot then (0, 0) else (minus_bps a bps, minus_bps b bps))"

definition liq_view_of :: "viem \<Rightarrow> liq_chain \<Rightarrow> liq_form \<Rightarrow> string option \<Rightarrow> int \<Rightarrow> liq_view" where
  "liq_view_of v c st token bps = (let
       dex = dex_of (lc_chain c);
       on = (lc_account c \<noteq> None);
       asked = (if on then token else None);
       dec = some_or (Option.bind asked (lc_decimals c)) 18;
       pair = Option.bind token (lc_pair c);
       hasPair = (case pair of None \<Rightarrow> False | Some p \<Rightarrow> p \<noteq> '''' \<and> p \<noteq> zeroAddress);
       pd = (if hasPair \<and> on then lc_pool c (the pair) else no_read);
       supply = some_or (pr_supply pd) 0;
       rToken = fst (pool_sides token pd);
       rGmb = snd (pool_sides token pd);
       pooled = (hasPair \<and> 0 < rToken \<and> 0 < rGmb);
       tok = parse_amount v (lf_amount st) dec;
       gmb = (if pooled then gmb_for tok rToken rGmb else parse_amount v (lf_manual st) 18);
       lp = parse_amount v (lf_lp st) 18;
       outToken = share_of lp rToken supply;
       outGmb = share_of lp rGmb supply in
     \<lparr>lv_dex = dex, lv_token = token, lv_pair = pair, lv_has_pair = hasPair, lv_pooled = pooled, lv_tok = tok, lv_gmb = gmb,
       lv_lp = lp, lv_out_tok = outToken, lv_out_gmb = outGmb,
       lv_min_add = minimums (lf_fot st) bps tok gmb, lv_min_remove = minimums (lf_fot st) bps outToken outGmb,
       lv_need_token = (lf_mode st = AddMode \<and> some_or (Option.bind asked (lc_allowance c)) 0 < tok \<and> 0 < tok),
       lv_need_lp = (lf_mode st = RemoveMode \<and> some_or (pr_allowance pd) 0 < lp \<and> 0 < lp)\<rparr>)"

definition liq_render :: "viem \<Rightarrow> liq_chain \<Rightarrow> liq_form \<Rightarrow> liq_view option" where
  "liq_render v c st = Option.bind (getAddress v (dx_wgmb (dex_of (lc_chain c)))) (\<lambda>wgmb.
     Option.bind (if isAddress v (lf_token st) then map_option Some (getAddress v (lf_token st)) else Some None) (\<lambda>token.
     Option.bind (slip_bps (lf_slip st)) (\<lambda>bps. Some (liq_view_of v c st token bps))))"

datatype liq_button = LiqConnect | EnterToken | EnterAmounts | ApproveToken bool | AddLiquidity bool
  | EnterLp | ApproveLp bool | RemoveLiquidity bool

definition liq_button_of :: "liq_chain \<Rightarrow> liq_form \<Rightarrow> liq_view \<Rightarrow> liq_button" where
  "liq_button_of c st w = (let idle = (\<not> (lc_pending c \<or> lc_mining c)) in
     if \<not> lc_connected c \<or> (lc_connected c \<and> lc_chain c \<noteq> DEFAULT_CHAIN_ID) then LiqConnect
     else if lv_token w = None then EnterToken
     else if lf_mode st = AddMode then
       (if lv_tok w = 0 \<or> lv_gmb w = 0 then EnterAmounts
        else if lv_need_token w then ApproveToken idle else AddLiquidity idle)
     else (if \<not> lv_has_pair w \<or> lv_lp w = 0 then EnterLp
        else if lv_need_lp w then ApproveLp idle else RemoveLiquidity idle))"

section \<open>Handlers\<close>

text \<open>\<open>approve\<close> takes the address to approve: the pair's is approved for the share, any other for the token amount.\<close>

definition liq_approve_call :: "string \<Rightarrow> liq_view \<Rightarrow> ui_call" where
  "liq_approve_call a w = approve_call a (dx_router (lv_dex w)) (if Some a = lv_pair w then lv_lp w else lv_tok w)"

definition liq_approve :: "(ui_call \<Rightarrow> string option) \<Rightarrow> string \<Rightarrow> liq_view \<Rightarrow> liq_form \<Rightarrow> liq_form" where
  "liq_approve wallet a w st = (let st1 = st\<lparr>lf_err := NoError\<rparr> in
     case wallet (liq_approve_call a w) of Some h \<Rightarrow> st1\<lparr>lf_tx := Some h\<rparr> | None \<Rightarrow> st1\<lparr>lf_err := ApprovalFailed\<rparr>)"

definition add_call :: "int \<Rightarrow> string \<Rightarrow> liq_view \<Rightarrow> ui_call" where
  "add_call now account w = \<lparr>uc_to = dx_router (lv_dex w), uc_fn = ''addLiquidityETH'',
     uc_args = [Address (some_or (lv_token w) ''''), UInt (lv_tok w), UInt (fst (lv_min_add w)), UInt (snd (lv_min_add w)),
       Address account, UInt (now div 1000 + 1200)], uc_value = lv_gmb w\<rparr>"

definition remove_call :: "int \<Rightarrow> string \<Rightarrow> liq_form \<Rightarrow> liq_view \<Rightarrow> ui_call" where
  "remove_call now account st w = \<lparr>uc_to = dx_router (lv_dex w),
     uc_fn = (if lf_fot st then ''removeLiquidityETHSupportingFeeOnTransferTokens'' else ''removeLiquidityETH''),
     uc_args = [Address (some_or (lv_token w) ''''), UInt (lv_lp w), UInt (fst (lv_min_remove w)), UInt (snd (lv_min_remove w)),
       Address account, UInt (now div 1000 + 1200)], uc_value = 0\<rparr>"

definition do_add :: "int \<Rightarrow> (ui_call \<Rightarrow> string option) \<Rightarrow> liq_chain \<Rightarrow> liq_view \<Rightarrow> liq_form \<Rightarrow> liq_form" where
  "do_add now wallet c w st = (let st1 = st\<lparr>lf_err := NoError, lf_tx := None\<rparr> in
     case Option.bind (lc_account c) (\<lambda>a. wallet (add_call now a w)) of
       Some h \<Rightarrow> st1\<lparr>lf_tx := Some h, lf_amount := '''', lf_manual := ''''\<rparr> | None \<Rightarrow> st1\<lparr>lf_err := ActionFailed\<rparr>)"

definition do_remove :: "int \<Rightarrow> (ui_call \<Rightarrow> string option) \<Rightarrow> liq_chain \<Rightarrow> liq_view \<Rightarrow> liq_form \<Rightarrow> liq_form" where
  "do_remove now wallet c w st = (let st1 = st\<lparr>lf_err := NoError, lf_tx := None\<rparr> in
     case Option.bind (lc_account c) (\<lambda>a. wallet (remove_call now a st w)) of
       Some h \<Rightarrow> st1\<lparr>lf_tx := Some h, lf_lp := ''''\<rparr> | None \<Rightarrow> st1\<lparr>lf_err := ActionFailed\<rparr>)"

end
