(* ===== verification/Lock_Form.thy ===== *)
theory Lock_Form
  imports Swap_Common
begin

text \<open>
  The lock form, frontend/swap/src/components/LockForm.jsx: locking a token in the locker until a chosen
  time, the list of the account's locks, and withdrawing them.
\<close>

section \<open>State\<close>

record lock_form =
  kf_token :: string
  kf_amount :: string
  kf_unlock :: string
  kf_err :: ui_error
  kf_tx :: "string option"

definition lock_form_start :: lock_form where
  "lock_form_start = \<lparr>kf_token = '''', kf_amount = '''', kf_unlock = '''', kf_err = NoError, kf_tx = None\<rparr>"

record lock_entry =
  le_owner :: string
  le_token :: string
  le_amount :: int
  le_unlock :: int
  le_withdrawn :: bool

text \<open>\<open>kc_time\<close> is \<open>new Date(s).getTime()\<close>, which depends on the time zone.\<close>

record lock_chain =
  kc_account :: "string option"
  kc_connected :: bool
  kc_chain :: int
  kc_decimals :: "string \<Rightarrow> nat option"
  kc_allowance :: "string \<Rightarrow> int option"
  kc_ids :: "int list option"
  kc_lock :: "int \<Rightarrow> lock_entry option"
  kc_time :: "string \<Rightarrow> jsnum"
  kc_pending :: bool
  kc_mining :: bool

section \<open>Rendering\<close>

record lock_view =
  kv_locker :: string
  kv_token :: "string option"
  kv_amount :: int
  kv_unlock :: jsnum
  kv_need :: bool

definition unlock_unix :: "lock_chain \<Rightarrow> string \<Rightarrow> jsnum" where
  "unlock_unix c s = (if s = '''' then Fin 0 else js_floor (js_div (kc_time c s) (Fin 1000)))"

definition lock_render :: "viem \<Rightarrow> lock_chain \<Rightarrow> lock_form \<Rightarrow> lock_view option" where
  "lock_render v c st = (let valid = isAddress v (kf_token st); on = (kc_account c \<noteq> None) in
     Option.bind (if valid then map_option Some (getAddress v (kf_token st)) else Some None) (\<lambda>token. (let
       asked = (if on then token else None);
       dec = (case Option.bind asked (kc_decimals c) of None \<Rightarrow> 18 | Some d \<Rightarrow> d);
       allow = (case Option.bind asked (kc_allowance c) of None \<Rightarrow> 0 | Some n \<Rightarrow> n);
       amt = parse_amount v (kf_amount st) dec in
     Some \<lparr>kv_locker = dx_locker (dex_of (kc_chain c)), kv_token = token, kv_amount = amt,
       kv_unlock = unlock_unix c (kf_unlock st), kv_need = (valid \<and> 0 < amt \<and> allow < amt)\<rparr>)))"

datatype lock_button = LockConnect | LockEnterToken | LockEnterAmount | PickFutureTime | LockApprove bool | LockTokens bool

definition lock_button_of :: "int \<Rightarrow> lock_chain \<Rightarrow> lock_view \<Rightarrow> lock_button" where
  "lock_button_of now c w = (let idle = (\<not> (kc_pending c \<or> kc_mining c)) in
     if \<not> kc_connected c \<or> (kc_connected c \<and> kc_chain c \<noteq> DEFAULT_CHAIN_ID) then LockConnect
     else if kv_token w = None then LockEnterToken
     else if kv_amount w = 0 then LockEnterAmount
     else if \<not> js_lt (js_of_int (now div 1000)) (kv_unlock w) then PickFutureTime
     else if kv_need w then LockApprove idle
     else LockTokens idle)"

text \<open>The account's locks, with their ids; a lock that could not be read is left out.\<close>

definition myLocks :: "lock_chain \<Rightarrow> (int \<times> lock_entry) list" where
  "myLocks c = (case kc_ids c of None \<Rightarrow> [] | Some ids \<Rightarrow>
     filter (\<lambda>(i, l). le_owner l \<noteq> '''' \<and> Some (to_lower (le_owner l)) = map_option to_lower (kc_account c))
       (concat (map (\<lambda>i. case kc_lock c i of None \<Rightarrow> [] | Some l \<Rightarrow> [(i, l)]) ids)))"

text \<open>The decimals of the locked tokens, one read for each, entered under the token's address in lower case.\<close>

definition lock_tokens :: "lock_chain \<Rightarrow> string list" where
  "lock_tokens c = foldl (\<lambda>ts t. if t \<in> set ts then ts else ts @ [t]) [] (filter (\<lambda>t. t \<noteq> '''') (map (\<lambda>(i, l). le_token l) (myLocks c)))"

definition lockDecimals :: "viem \<Rightarrow> lock_chain \<Rightarrow> string \<Rightarrow> nat option" where
  "lockDecimals v c = foldl (\<lambda>m t. m(to_lower t \<mapsto> (case Option.bind (getAddress v t) (kc_decimals c) of None \<Rightarrow> 18 | Some d \<Rightarrow> d)))
     (\<lambda>k. None) (lock_tokens c)"

text \<open>A row of the list: the decimals its amount is shown with, and the withdraw button when there is one.\<close>

definition shown_decimals :: "viem \<Rightarrow> lock_chain \<Rightarrow> lock_entry \<Rightarrow> nat" where
  "shown_decimals v c l = (case lockDecimals v c (to_lower (le_token l)) of None \<Rightarrow> 18 | Some d \<Rightarrow> d)"

definition withdraw_button :: "int \<Rightarrow> lock_chain \<Rightarrow> lock_entry \<Rightarrow> bool option" where
  "withdraw_button now c l = (if le_withdrawn l then None
     else Some (js_le (js_of_int (le_unlock l)) (js_of_int (now div 1000)) \<and> \<not> (kc_pending c \<or> kc_mining c)))"

section \<open>Handlers\<close>

definition lock_approve :: "(ui_call \<Rightarrow> string option) \<Rightarrow> lock_view \<Rightarrow> lock_form \<Rightarrow> lock_form" where
  "lock_approve wallet w st = (let st1 = st\<lparr>kf_err := NoError\<rparr> in
     case Option.bind (kv_token w) (\<lambda>t. wallet (approve_call t (kv_locker w) (kv_amount w))) of
       Some h \<Rightarrow> st1\<lparr>kf_tx := Some h\<rparr> | None \<Rightarrow> st1\<lparr>kf_err := ApprovalFailed\<rparr>)"

text \<open>\<open>BigInt(unlockUnix)\<close> is inside the \<open>try\<close>, so its exception ends like a refusal.\<close>

definition lock_call :: "lock_view \<Rightarrow> ui_call option" where
  "lock_call w = Option.bind (kv_token w) (\<lambda>t. Option.bind (big_of_number (kv_unlock w)) (\<lambda>u.
     Some \<lparr>uc_to = kv_locker w, uc_fn = ''lock'', uc_args = [Address t, UInt (kv_amount w), UInt u], uc_value = 0\<rparr>))"

definition do_lock :: "(ui_call \<Rightarrow> string option) \<Rightarrow> lock_view \<Rightarrow> lock_form \<Rightarrow> lock_form" where
  "do_lock wallet w st = (let st1 = st\<lparr>kf_err := NoError, kf_tx := None\<rparr> in
     case Option.bind (lock_call w) wallet of
       Some h \<Rightarrow> st1\<lparr>kf_tx := Some h, kf_amount := ''''\<rparr> | None \<Rightarrow> st1\<lparr>kf_err := ActionFailed\<rparr>)"

definition do_withdraw :: "(ui_call \<Rightarrow> string option) \<Rightarrow> string \<Rightarrow> int \<Rightarrow> lock_form \<Rightarrow> lock_form" where
  "do_withdraw wallet locker i st = (let st1 = st\<lparr>kf_err := NoError, kf_tx := None\<rparr> in
     case wallet \<lparr>uc_to = locker, uc_fn = ''withdraw'', uc_args = [UInt i], uc_value = 0\<rparr> of
       Some h \<Rightarrow> st1\<lparr>kf_tx := Some h\<rparr> | None \<Rightarrow> st1\<lparr>kf_err := ActionFailed\<rparr>)"

end
