(* ===== verification/Swap_Properties.thy ===== *)
theory Swap_Properties
  imports Swap_Form Liquidity_Form Lock_Form
begin

text \<open>
  Properties of the swap form: how the text of the slippage field is read, what a call takes from the user
  and guarantees in return, and when the user is warned.
\<close>

section \<open>The slippage field\<close>

lemma length_split_on: "length (split_on d s) = Suc (length (filter (\<lambda>c. c = d) s))"
  by (induction d s rule: split_on.induct) (auto split: list.split)

definition decimal_text :: "string \<Rightarrow> bool" where
  "decimal_text s = list_all (\<lambda>c. is_digit c \<or> c = CHR ''.'') s"

lemma decimal_input_text [simp]: "decimal_text (decimal_input s)"
  by (auto simp: decimal_text_def decimal_input_def list_all_iff)

lemma digit_or_dot: "is_digit c \<or> c = CHR ''.'' \<Longrightarrow>
    \<not> is_ws c \<and> c \<notin> {CHR ''x'', CHR ''X'', CHR ''o'', CHR ''O'', CHR ''b'', CHR ''B'', CHR ''-'', CHR ''+'', CHR ''e'', CHR ''E'', CHR ''I''}"
  by (auto simp: is_digit_def is_ws_def code_unit_def Let_def)

lemma number_of_decimal_text:
  assumes "decimal_text s" "s \<noteq> []"
  shows "string_to_number s = (case dec_mantissa s of None \<Rightarrow> JNaN | Some q \<Rightarrow> js_of_rat q)"
proof -
  have all: "\<not> is_ws c \<and> c \<notin> {CHR ''x'', CHR ''X'', CHR ''o'', CHR ''O'', CHR ''b'', CHR ''B'', CHR ''-'', CHR ''+'', CHR ''e'', CHR ''E'', CHR ''I''}"
    if "c \<in> set s" for c
    using that assms(1) digit_or_dot by (auto simp: decimal_text_def list_all_iff)
  have t: "trim s = s" using all [of "hd s"] all [of "last s"] assms(2) by (simp add: trim_fix)
  have r: "radix_literal s = None" using all by (auto simp: radix_literal_def split: list.split)
  have h: "hd s \<noteq> CHR ''-''" "hd s \<noteq> CHR ''+''" "s \<noteq> ''Infinity''" using all [of "hd s"] assms(2) by auto
  have e: "takeWhile (\<lambda>c. c \<noteq> CHR ''e'' \<and> c \<noteq> CHR ''E'') s = s" using all by (auto simp: takeWhile_eq_all_conv)
  have "dec_literal s = dec_mantissa s" unfolding dec_literal_def e by simp
  then show ?thesis using t r h assms(2) by (simp add: string_to_number_def Let_def split: option.split)
qed

lemma odd_text_is_NaN:
  assumes "decimal_text s" "s = ''.'' \<or> 2 \<le> length (filter (\<lambda>c. c = CHR ''.'') s)"
  shows "string_to_number s = JNaN"
proof -
  from assms(2) have "s \<noteq> []" by auto
  moreover have "dec_mantissa s = None"
  proof (cases "s = ''.''")
    case True then show ?thesis by (simp add: dec_mantissa_def)
  next
    case False
    then have "3 \<le> length (split_on CHR ''.'' s)" using assms(2) by (simp add: length_split_on)
    then show ?thesis by (auto simp: dec_mantissa_def split: list.split)
  qed
  ultimately show ?thesis using assms(1) by (simp add: number_of_decimal_text)
qed

text \<open>
  A slippage field with a single dot or with two dots, which the field lets through, makes the form
  throw at its next rendering, and every later one, whatever the chain answers.
\<close>

theorem odd_slippage_breaks_form:
  assumes "sf_slip st = decimal_input typed"
    and "sf_slip st = ''.'' \<or> 2 \<le> length (filter (\<lambda>c. c = CHR ''.'') (sf_slip st))"
  shows "swap_render v c st = None"
proof -
  have "string_to_number (sf_slip st) = JNaN" using odd_text_is_NaN [of "sf_slip st"] assms by simp
  moreover have "sf_slip st \<noteq> ''''" using assms(2) by auto
  ultimately have "slip_bps (sf_slip st) = None" by (simp add: slip_bps_def big_of_number_def js_round_def)
  then show ?thesis by (auto simp: swap_render_def Let_def bind_eq_None_conv)
qed

lemma relative_bounds:
  assumes "\<bar>a - x\<bar> \<le> x * (d :: rat)"
  shows "x * (1 - d) \<le> a" "a \<le> x * (1 + d)"
  using abs_le_D1 [OF assms] abs_le_D2 [OF assms] by (simp_all add: right_diff_distrib distrib_left)

lemma twice_rounded:
  assumes "0 \<le> k" "k \<le> (1000000::int)"
  shows "js_mul (js_of_rat (of_int k / 100)) (Fin 100) = js_of_rat (dbl (of_int k / 100) * 100)"
    and "\<exists>b. js_of_rat (dbl (of_int k / 100) * 100) = Fin b \<and> \<bar>b - of_int k\<bar> < 1 / 2"
proof -
  let ?x = "of_int k / 100 :: rat" let ?a = "dbl ?x" let ?b = "dbl (?a * 100)"
  have e: "(2::rat) powi (-53) = 1 / 9007199254740992" by (simp add: power_int_minus)
  have k: "(of_int k :: rat) \<le> 1000000" using assms(2) by (metis of_int_le_iff of_int_numeral)
  have tiny: "(2::rat) powi (-1022) \<le> 1 / 1000"
  proof -
    have "(2::rat) powi (-1022) \<le> 2 powi (-10)" by (rule power_int_increasing) auto
    also have "\<dots> \<le> 1 / 1000" by (simp add: power_int_minus)
    finally show ?thesis .
  qed
  have big: "(10000000::rat) < 2 ^ 1024"
  proof -
    have "(10000000::rat) < 2 ^ 24" by simp
    also have "\<dots> < 2 ^ 1024" by (rule power_strict_increasing) auto
    finally show ?thesis .
  qed
  have "?a \<le> 10001 \<and> 0 \<le> ?a \<and> \<bar>?b - of_int k\<bar> < 1 / 2"
  proof (cases "k = 0")
    case False
    then have k1: "1 \<le> (of_int k :: rat)" using assms(1) by simp
    have a: "\<bar>?a - ?x\<bar> \<le> ?x * 2 powi (-53)" by (rule dbl_error) (use k1 tiny in auto)
    then have a1: "?x * (1 - 1 / 9007199254740992) \<le> ?a" "?a \<le> ?x * (1 + 1 / 9007199254740992)"
      unfolding e by (rule relative_bounds)+
    then have a2: "1 / 1000 \<le> ?a" "?a \<le> 10001" using k1 k by auto
    have "\<bar>?b - ?a * 100\<bar> \<le> ?a * 100 * 2 powi (-53)" by (rule dbl_error) (use a2 tiny in auto)
    then have b: "\<bar>?b - ?a * 100\<bar> < 1 / 4" unfolding e using a2 by auto
    have "\<bar>?a * 100 - of_int k\<bar> < 1 / 4"
    proof -
      have "of_int k * 9007199254740991 \<le> ?a * 900719925474099200" "?a * 900719925474099200 \<le> of_int k * 9007199254740993"
        using a1 by simp_all
      then show ?thesis unfolding abs_less_iff using k by linarith
    qed
    with b have "\<bar>?b - of_int k\<bar> < 1 / 2" unfolding abs_less_iff by linarith
    with a2 show ?thesis by simp
  qed simp
  then have a: "?a \<le> 10001" "0 \<le> ?a" and b: "\<bar>?b - of_int k\<bar> < 1 / 2" by auto
  have "js_of_rat ?x = Fin ?a" by (rule js_of_rat_small) (use a big in linarith)
  then show "js_mul (js_of_rat ?x) (Fin 100) = js_of_rat (?a * 100)" by simp
  have "\<bar>?b\<bar> < 10000000" using b k of_int_nonneg [OF assms(1), where 'a = rat] unfolding abs_less_iff by linarith
  with big have "\<bar>?b\<bar> < 2 ^ 1024" by linarith
  then have "js_of_rat (?a * 100) = Fin ?b" by (rule js_of_rat_small)
  with b show "\<exists>b. js_of_rat (?a * 100) = Fin b \<and> \<bar>b - of_int k\<bar> < 1 / 2" by blast
qed

text \<open>A slippage typed with at most two decimals is read exactly, although it passes through two roundings.\<close>

lemma typed_slippage:
  assumes "decimal_text s" "s \<noteq> []" "dec_mantissa s = Some (of_int k / 100)" "0 \<le> k" "k \<le> 1000000"
  shows "slip_bps s = Some k"
proof -
  obtain b where b: "js_of_rat (dbl (of_int k / 100) * 100) = Fin b" "\<bar>b - of_int k\<bar> < 1 / 2"
    using twice_rounded(2) [OF assms(4,5)] by blast
  have "\<lfloor>b + 1 / 2\<rfloor> = k" using b(2) by (intro floor_unique; linarith)
  with b(1) show ?thesis
    using assms twice_rounded(1) [OF assms(4,5)]
    by (simp add: slip_bps_def number_of_decimal_text js_round_def big_of_number_def)
qed

section \<open>Swapping\<close>

text \<open>The wallet library reads an amount as a number of base units; it is not negative for the text the field holds.\<close>

definition amounts_not_negative :: "viem \<Rightarrow> bool" where
  "amounts_not_negative v = (\<forall>s d n. decimal_text s \<longrightarrow> parseUnits v s d = Some n \<longrightarrow> 0 \<le> n)"

lemma parse_amount_nonneg: "amounts_not_negative v \<Longrightarrow> decimal_text s \<Longrightarrow> 0 \<le> parse_amount v s d"
  by (auto simp: amounts_not_negative_def parse_amount_def split: option.split)

text \<open>What a call takes out of the wallet: GMB, and units of the token paid with; and the least it gives.\<close>

definition takes_native :: "ui_call \<Rightarrow> int" where
  "takes_native k = uc_value k"

definition uint_arg :: "nat \<Rightarrow> ui_call \<Rightarrow> int" where
  "uint_arg i k = (case uc_args k ! i of UInt n \<Rightarrow> n | _ \<Rightarrow> 0)"

definition takes_token :: "ui_call \<Rightarrow> int" where
  "takes_token k = (if uc_fn k \<in> {''withdraw'', ''swapExactTokensForETH'', ''swapExactTokensForTokens''} then uint_arg 0 k else 0)"

definition gives_least :: "ui_call \<Rightarrow> int" where
  "gives_least k = (if uc_fn k = ''deposit'' then uc_value k else if uc_fn k = ''withdraw'' then uint_arg 0 k
     else if uc_fn k = ''swapExactETHForTokens'' then uint_arg 0 k else uint_arg 1 k)"

text \<open>
  C7. A swap that can be pressed takes exactly the amount typed, in the coin shown, which is positive,
  within the balance and, for a token the router takes, within its allowance; and a router swap sends its
  result to the connected account.
\<close>

theorem swap_takes_what_is_shown:
  assumes "swap_render v c st = Some w" "swap_button_of c w = SwapButton b" "sc_account c = Some a"
    and "amounts_not_negative v" "sf_amount st = decimal_input typed" "k = swap_call now a st w"
  shows "(if tk_native (sf_in st) then takes_native k = vw_amount w \<and> takes_token k = 0
          else takes_native k = 0 \<and> takes_token k = vw_amount w)
    \<and> 0 < vw_amount w \<and> vw_amount w \<le> vw_balance w
    \<and> (tk_native (sf_in st) \<or> vw_unwrap w \<or> vw_amount w \<le> or_zero (sc_allowance c (tk_addr (sf_in st))))
    \<and> (uc_to k = dx_wgmb (vw_dex w) \<or> Address a \<in> set (uc_args k))"
proof -
  have n: "vw_amount w = parse_amount v (sf_amount st) (tk_decimals (sf_in st))" "0 \<le> vw_amount w"
    using assms(1) parse_amount_nonneg [OF assms(4), of "sf_amount st"] assms(5)
    by (auto simp: swap_render_def Let_def bind_eq_Some_conv)
  have d: "vw_wrap w = isWrap (dex_of (sc_chain c)) (sf_in st) (sf_out st)"
    "vw_unwrap w = isUnwrap (dex_of (sc_chain c)) (sf_in st) (sf_out st)"
    "vw_need w = (\<not> tk_native (sf_in st) \<and> \<not> vw_unwrap w \<and> 0 < vw_amount w \<and>
       (if \<not> tk_native (sf_in st) then or_zero (sc_allowance c (tk_addr (sf_in st))) else 0) < vw_amount w)"
    using assms(1,3) by (auto simp: swap_render_def Let_def bind_eq_Some_conv)
  have b: "vw_amount w \<noteq> 0" "vw_amount w \<le> vw_balance w" "\<not> vw_need w"
    using assms(2) by (auto simp: swap_button_of_def Let_def split: if_splits)
  have u: "vw_wrap w \<Longrightarrow> tk_native (sf_in st)" "vw_unwrap w \<Longrightarrow> \<not> tk_native (sf_in st)"
    by (auto simp: d isWrap_def isUnwrap_def)
  show ?thesis
    using n(2) b d(3) u
    by (auto simp: assms(6) swap_call_def Let_def takes_native_def takes_token_def uint_arg_def)
qed

text \<open>
  C8. A slippage typed with at most two decimals is kept exactly: the least the router may give for
  \<open>k\<close> hundredths of a percent is the quote times \<open>1 - k / 10000\<close>, rounded up.
\<close>

theorem swap_gives_typed_tolerance:
  assumes "swap_render v c st = Some w" "\<not> vw_wrap w" "\<not> vw_unwrap w"
    and "sf_slip st = decimal_input typed" "sf_slip st \<noteq> []" "dec_mantissa (sf_slip st) = Some (of_int k / 100)"
    and "0 \<le> k" "k \<le> 10000" "0 \<le> vw_out w"
  shows "gives_least (swap_call now a st w) = \<lceil>rat_of_int (vw_out w * (10000 - k)) / 10000\<rceil>"
proof -
  have s: "slip_bps (sf_slip st) = Some k" using typed_slippage [of "sf_slip st" k] assms by simp
  have m: "vw_min w = minus_bps (vw_out w) k"
    using assms(1,2,3) s by (auto simp: swap_render_def Let_def bind_eq_Some_conv)
  have "\<lceil>rat_of_int (vw_out w * (10000 - k)) / 10000\<rceil> = vw_min w"
  proof (rule ceiling_unique)
    have "rat_of_int (vw_out w * (10000 - k)) \<le> of_int (vw_min w * 10000)"
      "rat_of_int (vw_min w * 10000) < of_int (vw_out w * (10000 - k) + 10000)"
      using minus_bps_bounds(3,4) [OF assms(9,7,8)] by (simp_all only: m of_int_le_iff of_int_less_iff)
    then show "rat_of_int (vw_out w * (10000 - k)) / 10000 \<le> of_int (vw_min w)"
      "rat_of_int (vw_min w) - 1 < rat_of_int (vw_out w * (10000 - k)) / 10000" by simp_all
  qed
  then show ?thesis
    using assms(2,3) by (simp add: gives_least_def swap_call_def Let_def uint_arg_def)
qed

text \<open>
  Every trade through the router is shown with the warning of an unverified token: without the
  warning the form only wraps or unwraps.
\<close>

theorem router_swap_is_warned:
  assumes "swap_render v c st = Some w" "swap_button_of c w \<in> {SwapButton b, ApproveButton b}"
  shows "vw_warning w \<or> vw_wrap w \<or> vw_unwrap w"
proof -
  have "vw_same w = samePair (sf_in st) (sf_out st)" "vw_wrap w = isWrap (dex_of (sc_chain c)) (sf_in st) (sf_out st)"
    "vw_unwrap w = isUnwrap (dex_of (sc_chain c)) (sf_in st) (sf_out st)"
    "vw_warning w = (isUnverified (dex_of (sc_chain c)) (sf_in st) \<or> isUnverified (dex_of (sc_chain c)) (sf_out st))"
    using assms(1) by (auto simp: swap_render_def Let_def bind_eq_Some_conv)
  moreover have "\<not> vw_same w" using assms(2) by (auto simp: swap_button_of_def Let_def split: if_splits)
  ultimately show ?thesis by (auto simp: samePair_def isWrap_def isUnwrap_def isUnverified_def)
qed

section \<open>Samples\<close>

text \<open>A reader of whole amounts, and a chain with a pool that gives two for one.\<close>

definition sample_viem :: viem where
  "sample_viem = \<lparr>parseUnits = (\<lambda>s d. if list_all is_digit s then Some (digits_val 10 s * 10 ^ d) else None),
     isAddress = (\<lambda>s. take 2 s = ''0x''), getAddress = (\<lambda>s. if take 2 s = ''0x'' then Some s else None)\<rparr>"

lemma digits_val_nonneg: "list_all is_digit s \<Longrightarrow> 0 \<le> digits_val 10 s"
proof -
  have "0 \<le> acc \<Longrightarrow> list_all is_digit s \<Longrightarrow> 0 \<le> foldl (\<lambda>acc c. acc * 10 + digit_val c) acc s" for acc :: int
    by (induction s arbitrary: acc) (auto simp: digit_val_def is_digit_def Let_def)
  then show "list_all is_digit s \<Longrightarrow> 0 \<le> digits_val 10 s" by (simp add: digits_val_def)
qed

lemma sample_viem_not_negative: "amounts_not_negative sample_viem"
  by (auto simp: amounts_not_negative_def sample_viem_def digits_val_nonneg)

definition sample_token :: token where
  "sample_token = \<lparr>tk_addr = ''0xT'', tk_symbol = ''T'', tk_name = ''T'', tk_decimals = 6, tk_native = False\<rparr>"

definition sample_chain :: swap_chain where
  "sample_chain = \<lparr>sc_account = Some ''0xA'', sc_connected = True, sc_chain = 821207, sc_quote = (\<lambda>n p. Some (2 * n)), sc_quote_err = False,
     sc_native = Some (5 * 10 ^ 18), sc_balance = (\<lambda>t. Some 8000000), sc_allowance = (\<lambda>t. Some 3000000), sc_pending = False, sc_mining = False\<rparr>"

definition sample_form :: swap_form where
  "sample_form = (swap_form_start (dex_of 821207))\<lparr>sf_in := sample_token, sf_out := NATIVE, sf_amount := decimal_input ''3'', sf_slip := decimal_input ''0.29''\<rparr>"

definition sample_view :: swap_view where
  "sample_view = \<lparr>vw_dex = dex_of 821207, vw_amount = 3000000, vw_path = [''0xT'', dx_wgmb (dex_of 821207)], vw_wrap = False,
     vw_unwrap = False, vw_same = False, vw_out = 6000000, vw_min = 5982600, vw_balance = 8000000, vw_need = False, vw_warning = True\<rparr>"

lemma sample_render: "swap_render sample_viem sample_chain sample_form = Some sample_view"
  by code_simp

lemma sample_button: "swap_button_of sample_chain sample_view = SwapButton True"
  by (simp add: sample_view_def sample_chain_def swap_button_of_def DEFAULT_CHAIN_ID_def)

theorem odd_slippage_breaks_form_witness:
  "swap_render sample_viem sample_chain (sample_form\<lparr>sf_slip := decimal_input ''1.2.3%''\<rparr>) = None"
  by (rule odd_slippage_breaks_form [where typed = "''1.2.3%''"]) (simp_all add: decimal_input_def is_digit_def code_unit_def)

theorem swap_takes_what_is_shown_witness:
  "takes_token (swap_call 0 ''0xA'' sample_form sample_view) = 3000000"
  using swap_takes_what_is_shown [OF sample_render sample_button, of "''0xA''" "''3''" "swap_call 0 ''0xA'' sample_form sample_view" 0]
    sample_viem_not_negative
  by (simp add: sample_chain_def sample_form_def sample_token_def sample_view_def)

theorem swap_gives_typed_tolerance_witness:
  "gives_least (swap_call 0 ''0xA'' sample_form sample_view) = \<lceil>rat_of_int (6000000 * (10000 - 29)) / 10000\<rceil>"
proof -
  have d: "decimal_input ''0.29'' = ''0.29''" by code_simp
  have "dec_mantissa ''0.29'' = Some (of_int 29 / 100)" by code_simp
  then show ?thesis
    using swap_gives_typed_tolerance [OF sample_render, of "''0.29''" 29 0 "''0xA''"]
    by (simp add: sample_form_def sample_view_def d)
qed

theorem router_swap_is_warned_witness:
  "vw_warning sample_view \<and> \<not> vw_wrap sample_view"
  using router_swap_is_warned [OF sample_render, of True] sample_button by (simp add: sample_view_def)

end
