(* ===== verification/Liquidity_Properties.thy ===== *)
theory Liquidity_Properties
  imports Swap_Properties
begin

text \<open>
  The liquidity form against the router it calls, and the lock form. The router's part is
  contracts/src/dex/gembaswap/periphery: what it takes for a pair that exists.
\<close>

section \<open>The router\<close>

text \<open>Amounts are \<open>uint256\<close>; a product that does not fit reverts.\<close>

definition gs_mul :: "int \<Rightarrow> int \<Rightarrow> string + int" where
  "gs_mul a b = (if a * b < 2 ^ 256 then Inr (a * b) else Inl ''ds-math-mul-overflow'')"

definition gs_quote :: "int \<Rightarrow> int \<Rightarrow> int \<Rightarrow> string + int" where
  "gs_quote amountA reserveA reserveB = (
     if \<not> 0 < amountA then Inl ''GembaSwapLibrary: INSUFFICIENT_AMOUNT''
     else if \<not> (0 < reserveA \<and> 0 < reserveB) then Inl ''GembaSwapLibrary: INSUFFICIENT_LIQUIDITY''
     else case gs_mul amountA reserveB of Inl e \<Rightarrow> Inl e | Inr p \<Rightarrow> Inr (p div reserveA))"

definition gs_add :: "int \<Rightarrow> int \<Rightarrow> int \<Rightarrow> int \<Rightarrow> int \<Rightarrow> int \<Rightarrow> string + (int \<times> int)" where
  "gs_add reserveA reserveB aDesired bDesired aMin bMin = (
     if reserveA = 0 \<and> reserveB = 0 then Inr (aDesired, bDesired)
     else case gs_quote aDesired reserveA reserveB of Inl e \<Rightarrow> Inl e
     | Inr bOptimal \<Rightarrow> if bOptimal \<le> bDesired
         then (if bMin \<le> bOptimal then Inr (aDesired, bOptimal) else Inl ''GembaSwapRouter: INSUFFICIENT_B_AMOUNT'')
         else (case gs_quote bDesired reserveB reserveA of Inl e \<Rightarrow> Inl e
           | Inr aOptimal \<Rightarrow> if \<not> aOptimal \<le> aDesired then Inl ''assert''
               else if aMin \<le> aOptimal then Inr (aOptimal, bDesired) else Inl ''GembaSwapRouter: INSUFFICIENT_A_AMOUNT''))"

section \<open>Adding liquidity\<close>

text \<open>
  C22. With the reserves the form saw, the router takes exactly the two amounts of an addition that can be
  pressed, whatever tolerance up to everything is typed; the GMB does not exceed the price of the pool,
  and the token amount is approved.
\<close>

theorem addition_taken_in_full:
  assumes "liq_render v c st = Some w" "liq_button_of c st w = AddLiquidity b" "lv_pooled w"
    and "amounts_not_negative v" "lf_amount st = decimal_input typed"
    and "slip_bps (lf_slip st) = Some bps" "0 \<le> bps" "bps \<le> 10000"
    and "lc_account c = Some a" "lv_token w = Some t" "lv_pair w = Some p"
    and "pool_sides (Some t) (lc_pool c p) = (rT, rG)" "lv_tok w * rG < 2 ^ 256" "k = add_call now a w"
  shows "gs_add rT rG (uint_arg 1 k) (takes_native k) (uint_arg 2 k) (uint_arg 3 k) = Inr (uint_arg 1 k, takes_native k)
    \<and> takes_native k * rT \<le> uint_arg 1 k * rG \<and> uint_arg 1 k \<le> some_or (lc_allowance c t) 0"
proof -
  obtain token where w: "w = liq_view_of v c st token bps"
    using assms(1,6) by (auto simp: liq_render_def bind_eq_Some_conv)
  have token: "token = Some t" using assms(10) by (simp add: w liq_view_of_def Let_def)
  have pair: "lc_pair c t = Some p" using assms(11) by (simp add: w token liq_view_of_def Let_def)
  have pd: "0 < rT" "0 < rG" and g: "lv_gmb w = gmb_for (lv_tok w) rT rG"
    and n: "lv_tok w = parse_amount v (lf_amount st) (some_or (lc_decimals c t) 18)"
    and m: "lv_min_add w = minimums (lf_fot st) bps (lv_tok w) (lv_gmb w)"
    and need: "lv_need_token w = (lf_mode st = AddMode \<and> some_or (lc_allowance c t) 0 < lv_tok w \<and> 0 < lv_tok w)"
    using assms(3,9,12) by (auto simp: w token pair liq_view_of_def Let_def split: if_splits)
  have tok: "0 \<le> lv_tok w" using parse_amount_nonneg [OF assms(4), of "lf_amount st"] assms(5) by (simp add: n)
  have btn: "lv_tok w \<noteq> 0" "\<not> lv_need_token w" "lf_mode st = AddMode"
    using assms(2) by (auto simp: liq_button_of_def Let_def split: if_splits)
  have gmb: "lv_gmb w = lv_tok w * rG div rT" using tok pd by (simp add: g gmb_for_def big_div_nonneg)
  then have gmb0: "0 \<le> lv_gmb w" using tok pd by (simp add: pos_imp_zdiv_nonneg_iff)
  have mins: "snd (lv_min_add w) \<le> lv_gmb w" using minus_bps_bounds(2) [OF gmb0 assms(7,8)] gmb0 by (simp add: m minimums_def)
  have "lv_gmb w * rT \<le> lv_tok w * rG" unfolding gmb using pd by (simp add: le_div_iff [symmetric])
  moreover have "gs_quote (lv_tok w) rT rG = Inr (lv_gmb w)"
    using tok btn pd assms(13) by (simp add: gs_quote_def gs_mul_def gmb)
  ultimately show ?thesis
    using pd mins btn need tok by (simp add: assms(14) gs_add_def add_call_def takes_native_def uint_arg_def)
qed

section \<open>Locking\<close>

text \<open>The time of a date is a whole number of milliseconds within 100 million days of 1970, or NaN.\<close>

definition date_times :: "lock_chain \<Rightarrow> bool" where
  "date_times c = (\<forall>s. kc_time c s = JNaN \<or> (\<exists>m. kc_time c s = Fin (of_int m) \<and> \<bar>m\<bar> \<le> 8640000000000000))"

lemma unlock_unix_small:
  assumes "date_times c"
  shows "unlock_unix c s = JNaN \<or> (\<exists>u. unlock_unix c s = Fin (of_int u) \<and> u < 2 ^ 64)"
proof (cases "s = '''' \<or> kc_time c s = JNaN")
  case True
  then show ?thesis by (auto simp: unlock_unix_def js_floor_def intro: exI [of _ 0])
next
  case False
  then obtain m where m: "kc_time c s = Fin (of_int m)" "\<bar>m\<bar> \<le> 8640000000000000" using assms by (auto simp: date_times_def)
  let ?x = "of_int m / 1000 :: rat"
  have p: "dbl (2 ^ 44) = 2 ^ 44" using dbl_of_int [of "2 ^ 44"] by simp
  have "(of_int \<bar>m\<bar> :: rat) \<le> of_int 8640000000000000" using m(2) by (rule of_int_le_iff [THEN iffD2])
  then have "\<bar>?x\<bar> \<le> 2 ^ 44" by simp
  then have "?x \<le> 2 ^ 44" "- (2 ^ 44) \<le> ?x" by (auto dest: abs_le_D1 abs_le_D2)
  then have d: "dbl ?x \<le> 2 ^ 44" "- (2 ^ 44) \<le> dbl ?x"
    using dbl_mono [of ?x "2 ^ 44"] dbl_mono [of "- (2 ^ 44)" ?x] p by (simp_all add: dbl_minus)
  have "(2::rat) ^ 44 < 2 ^ 1024" by (rule power_strict_increasing) auto
  with d have "\<bar>dbl ?x\<bar> < 2 ^ 1024" unfolding abs_less_iff by linarith
  then have "unlock_unix c s = Fin (of_int \<lfloor>dbl ?x\<rfloor>)"
    using False m(1) by (simp add: unlock_unix_def js_floor_def js_of_rat_small)
  moreover have "\<lfloor>dbl ?x\<rfloor> < 2 ^ 64" using d(1) by (simp add: floor_less_iff)
  ultimately show ?thesis by blast
qed

text \<open>
  A lock that can be pressed asks the locker for a positive amount within the allowance, until a whole
  second that is after the second it was shown in and fits the 64 bits of the contract.
\<close>

theorem lock_is_in_future:
  assumes "lock_render v c st = Some w" "lock_button_of now c w = LockTokens b" "kc_account c = Some a"
    and "amounts_not_negative v" "kf_amount st = decimal_input typed" "date_times c" "0 \<le> now" "now \<le> 8640000000000000"
  shows "\<exists>t u. lock_call w = Some \<lparr>uc_to = kv_locker w, uc_fn = ''lock'', uc_args = [Address t, UInt (kv_amount w), UInt u], uc_value = 0\<rparr>
    \<and> now div 1000 < u \<and> u < 2 ^ 64 \<and> 0 < kv_amount w \<and> kv_amount w \<le> some_or (kc_allowance c t) 0"
proof -
  have btn: "kv_amount w \<noteq> 0" "\<not> kv_need w" "js_lt (js_of_int (now div 1000)) (kv_unlock w)" "kv_token w \<noteq> None"
    using assms(2) by (auto simp: lock_button_of_def Let_def split: if_splits)
  then obtain t where t: "kv_token w = Some t" by blast
  have tok: "isAddress v (kf_token st)" and u: "kv_unlock w = unlock_unix c (kf_unlock st)"
    and n: "\<exists>d. kv_amount w = parse_amount v (kf_amount st) d"
    and need: "kv_need w = (isAddress v (kf_token st) \<and> 0 < kv_amount w \<and> some_or (kc_allowance c t) 0 < kv_amount w)"
    using assms(1,3) t by (auto simp: lock_render_def Let_def bind_eq_Some_conv some_or_def split: if_splits)
  have "0 \<le> kv_amount w" using n parse_amount_nonneg [OF assms(4), of "kf_amount st"] assms(5) by auto
  moreover obtain x where x: "kv_unlock w = Fin (of_int x)" "x < 2 ^ 64"
    using unlock_unix_small [OF assms(6), of "kf_unlock st"] btn(3) u by auto
  moreover have "js_of_int (now div 1000) = Fin (of_int (now div 1000))" using assms(7,8) by (intro js_of_int_small) simp
  ultimately show ?thesis using btn t need tok by (auto simp: lock_call_def big_of_number_def)
qed

section \<open>The list of locks\<close>

lemma add_once_set: "set (foldl (\<lambda>ts t. if t \<in> set ts then ts else ts @ [t]) acc xs) = set acc \<union> set xs"
  by (induction xs arbitrary: acc) auto

lemma foldl_map_upd:
  assumes "\<And>x y. to_lower x = to_lower y \<Longrightarrow> f x = f y"
  shows "foldl (\<lambda>m t. m(to_lower t \<mapsto> f t)) m0 ts (to_lower x) = (if to_lower x \<in> to_lower ` set ts then Some (f x) else m0 (to_lower x))"
proof (induction ts arbitrary: m0)
  case (Cons t ts)
  then show ?case using assms [of t x] by (auto simp: image_iff)
qed simp

text \<open>Each lock of the list is the account's, and its amount is shown with the decimals of its own token.\<close>

lemma lock_rows_right:
  assumes "\<And>x y. to_lower x = to_lower y \<Longrightarrow> getAddress v x = getAddress v y"
    and "(i, l) \<in> set (myLocks c)" "le_token l \<noteq> ''''"
  shows "shown_decimals v c l = some_or (Option.bind (getAddress v (le_token l)) (kc_decimals c)) 18"
    and "kc_lock c i = Some l" "Some (to_lower (le_owner l)) = map_option to_lower (kc_account c)"
proof -
  show "kc_lock c i = Some l" "Some (to_lower (le_owner l)) = map_option to_lower (kc_account c)"
    using assms(2) by (auto simp: myLocks_def split: option.splits)
  have "le_token l \<in> set (lock_tokens c)" using assms(2,3) by (force simp: lock_tokens_def add_once_set)
  moreover have "lockDecimals v c (to_lower (le_token l)) = (if to_lower (le_token l) \<in> to_lower ` set (lock_tokens c)
      then Some (case Option.bind (getAddress v (le_token l)) (kc_decimals c) of None \<Rightarrow> 18 | Some d \<Rightarrow> d) else None)"
    unfolding lockDecimals_def by (rule foldl_map_upd) (use assms(1) in metis)
  ultimately show "shown_decimals v c l = some_or (Option.bind (getAddress v (le_token l)) (kc_decimals c)) 18"
    by (simp add: shown_decimals_def some_or_def)
qed

section \<open>Samples\<close>

definition sample_liq_chain :: liq_chain where
  "sample_liq_chain = \<lparr>lc_account = Some ''0xA'', lc_connected = True, lc_chain = 821207, lc_decimals = (\<lambda>t. Some 6),
     lc_allowance = (\<lambda>t. Some 9000000), lc_pair = (\<lambda>t. Some ''0xP''),
     lc_pool = (\<lambda>p. \<lparr>pr_reserves = Some (10 ^ 18, 3000000), pr_token0 = Some ''0xW'', pr_supply = Some 1000, pr_balance = Some 10, pr_allowance = Some 0\<rparr>),
     lc_pending = False, lc_mining = False\<rparr>"

definition sample_liq_form :: liq_form where
  "sample_liq_form = liq_form_start\<lparr>lf_token := ''0xT'', lf_amount := decimal_input ''7''\<rparr>"

definition sample_liq_view :: liq_view where
  "sample_liq_view = liq_view_of sample_viem sample_liq_chain sample_liq_form (Some ''0xT'') 50"

lemma sample_liq_render: "liq_render sample_viem sample_liq_chain sample_liq_form = Some sample_liq_view"
proof -
  have "slip_bps ''0.5'' = Some 50" by code_simp
  then show ?thesis
    by (simp add: liq_render_def sample_liq_view_def sample_liq_form_def sample_liq_chain_def liq_form_start_def sample_viem_def dex_of_def DEX_def)
qed

lemma sample_liq_facts: "lv_tok sample_liq_view = 7000000 \<and> lv_gmb sample_liq_view = 2333333333333333333 \<and> lv_pooled sample_liq_view
    \<and> liq_button_of sample_liq_chain sample_liq_form sample_liq_view = AddLiquidity True
    \<and> lv_token sample_liq_view = Some ''0xT'' \<and> lv_pair sample_liq_view = Some ''0xP''
    \<and> pool_sides (Some ''0xT'') (lc_pool sample_liq_chain ''0xP'') = (3000000, 10 ^ 18)"
  by code_simp

theorem addition_taken_in_full_witness:
  "gs_add 3000000 (10 ^ 18) 7000000 2333333333333333333 (uint_arg 2 (add_call 0 ''0xA'' sample_liq_view)) (uint_arg 3 (add_call 0 ''0xA'' sample_liq_view))
    = Inr (7000000, 2333333333333333333)"
proof -
  have s: "slip_bps (lf_slip sample_liq_form) = Some 50" by code_simp
  show ?thesis
    using addition_taken_in_full [OF sample_liq_render, of True "''7''" 50 "''0xA''" "''0xT''" "''0xP''" 3000000 "10 ^ 18" "add_call 0 ''0xA'' sample_liq_view" 0]
      sample_liq_facts s sample_viem_not_negative
    by (simp add: sample_liq_chain_def sample_liq_form_def add_call_def takes_native_def uint_arg_def)
qed

definition sample_lock_chain :: lock_chain where
  "sample_lock_chain = \<lparr>kc_account = Some ''0xA'', kc_connected = True, kc_chain = 821207, kc_decimals = (\<lambda>t. Some 0),
     kc_allowance = (\<lambda>t. Some 9), kc_ids = None, kc_lock = (\<lambda>i. None), kc_time = (\<lambda>s. Fin 1800000000000),
     kc_pending = False, kc_mining = False\<rparr>"

definition sample_lock_form :: lock_form where
  "sample_lock_form = lock_form_start\<lparr>kf_token := ''0xT'', kf_amount := decimal_input ''5'', kf_unlock := ''2027-01-15T08:00''\<rparr>"

theorem lock_is_in_future_witness:
  "\<exists>w t u. lock_render sample_viem sample_lock_chain sample_lock_form = Some w \<and>
     lock_call w = Some \<lparr>uc_to = kv_locker w, uc_fn = ''lock'', uc_args = [Address t, UInt 5, UInt u], uc_value = 0\<rparr> \<and> 1700000000 < u"
proof -
  obtain w where w: "lock_render sample_viem sample_lock_chain sample_lock_form = Some w"
    "kv_amount w = 5" "lock_button_of 1700000000000 sample_lock_chain w = LockTokens True"
  proof -
    have "map_option (\<lambda>w. (kv_amount w, lock_button_of 1700000000000 sample_lock_chain w))
      (lock_render sample_viem sample_lock_chain sample_lock_form) = Some (5, LockTokens True)" by code_simp
    then show ?thesis using that by auto
  qed
  have "date_times sample_lock_chain" by (auto simp: date_times_def sample_lock_chain_def intro!: exI [of _ 1800000000000])
  then show ?thesis
    using lock_is_in_future [OF w(1,3), of "''0xA''" "''5''"] w(1,2) sample_viem_not_negative
    by (auto simp: sample_lock_chain_def sample_lock_form_def)
qed

end
