(* ===== verification/Web_Faucet.thy ===== *)
theory Web_Faucet
  imports Gemba_Prelude
begin

text \<open>
  The faucet contract that the landing page claims from, contracts/src/faucet/GembaFaucet.sol: the two
  claims and the two views. The calls of its owner are left out, so drip and cap are constants of a run.
  Addresses are numbers; the balance is the native balance of the contract; \<open>ok\<close> says whether the
  call out of the contract (the send, the mint) succeeds. An error is a revert.
\<close>

section \<open>The contract\<close>

record gemba_faucet =
  gmbDripAmount :: nat
  gmbDailyCap :: nat
  windowDispensed :: nat
  windowStart :: nat
  gf_tokens :: "nat \<Rightarrow> bool \<times> nat"
  lastGmbClaim :: "nat \<Rightarrow> nat"
  lastTokenClaim :: "nat \<Rightarrow> nat \<Rightarrow> nat"
  gf_balance :: nat
  gf_paused :: bool

datatype claim_error = EnforcedPause | CooldownActive nat | FaucetEmpty | DailyCapReached | TokenNotSupported | ArithmeticPanic | CallFailed

definition COOLDOWN :: nat where "COOLDOWN = 86400"

text \<open>The check that both claims begin with.\<close>

definition cooldown_check :: "nat \<Rightarrow> nat \<Rightarrow> claim_error option" where
  "cooldown_check now prev = (if prev = 0 then None else if 2 ^ 256 \<le> prev + COOLDOWN then Some ArithmeticPanic
     else if now < prev + COOLDOWN then Some (CooldownActive (prev + COOLDOWN)) else None)"

definition claimGMB :: "nat \<Rightarrow> nat \<Rightarrow> bool \<Rightarrow> gemba_faucet \<Rightarrow> claim_error + gemba_faucet" where
  "claimGMB now user ok f = (if gf_paused f then Inl EnforcedPause else
     case cooldown_check now (lastGmbClaim f user) of Some e \<Rightarrow> Inl e | None \<Rightarrow>
     (let amount = gmbDripAmount f in
      if gf_balance f < amount then Inl FaucetEmpty
      else if 2 ^ 256 \<le> windowStart f + 86400 then Inl ArithmeticPanic
      else let renew = windowStart f + 86400 \<le> now;
          start = (if renew then now else windowStart f);
          dispensed = (if renew then 0 else windowDispensed f) in
        if 2 ^ 256 \<le> dispensed + amount then Inl ArithmeticPanic
        else if gmbDailyCap f < dispensed + amount then Inl DailyCapReached
        else if \<not> ok then Inl CallFailed
        else Inr (f\<lparr>windowStart := start, lastGmbClaim := (lastGmbClaim f)(user := now), windowDispensed := dispensed + amount,
          gf_balance := gf_balance f - amount\<rparr>)))"

definition claimToken :: "nat \<Rightarrow> nat \<Rightarrow> nat \<Rightarrow> bool \<Rightarrow> gemba_faucet \<Rightarrow> claim_error + gemba_faucet" where
  "claimToken now user token ok f = (if gf_paused f then Inl EnforcedPause
     else if \<not> fst (gf_tokens f token) then Inl TokenNotSupported
     else case cooldown_check now (lastTokenClaim f user token) of Some e \<Rightarrow> Inl e | None \<Rightarrow>
       if \<not> ok then Inl CallFailed
       else Inr (f\<lparr>lastTokenClaim := (lastTokenClaim f)(user := (lastTokenClaim f user)(token := now))\<rparr>))"

text \<open>The views; \<open>None\<close> is the panic of an overflow.\<close>

definition available_at :: "nat \<Rightarrow> nat option" where
  "available_at prev = (if prev = 0 then Some 0 else if 2 ^ 256 \<le> prev + COOLDOWN then None else Some (prev + COOLDOWN))"

definition gmbAvailableAt :: "gemba_faucet \<Rightarrow> nat \<Rightarrow> nat option" where
  "gmbAvailableAt f user = available_at (lastGmbClaim f user)"

definition tokenAvailableAt :: "gemba_faucet \<Rightarrow> nat \<Rightarrow> nat \<Rightarrow> nat option" where
  "tokenAvailableAt f user token = available_at (lastTokenClaim f user token)"

text \<open>The check refuses exactly until the time of the view.\<close>

lemma cooldown_until_available:
  "available_at prev = Some a \<Longrightarrow> cooldown_check now prev = (if now < a then Some (CooldownActive a) else None)"
  by (auto simp: available_at_def cooldown_check_def split: if_splits)

lemma claimGMB_cooldown:
  assumes "gmbAvailableAt f user = Some a" "\<not> gf_paused f"
  shows "(\<exists>x. claimGMB now user ok f = Inl (CooldownActive x)) \<longleftrightarrow> now < a"
  using assms cooldown_until_available [of "lastGmbClaim f user" a now]
  by (auto simp: claimGMB_def gmbAvailableAt_def Let_def)

lemma claimToken_cooldown:
  assumes "tokenAvailableAt f user token = Some a" "\<not> gf_paused f" "fst (gf_tokens f token)"
  shows "(\<exists>x. claimToken now user token ok f = Inl (CooldownActive x)) \<longleftrightarrow> now < a"
  using assms cooldown_until_available [of "lastTokenClaim f user token" a now]
  by (auto simp: claimToken_def tokenAvailableAt_def)

section \<open>The cap of a day\<close>

text \<open>
  A run of claims at times that do not go back; a claim of coins is logged with its time, the start of
  its window and its amount. Refused claims and claims of tokens do not change the window.
\<close>

inductive faucet_run :: "gemba_faucet \<Rightarrow> gemba_faucet \<Rightarrow> nat \<Rightarrow> (nat \<times> nat \<times> nat) list \<Rightarrow> bool" for f0 where
  fr_start: "faucet_run f0 f0 (windowStart f0) []"
| fr_gmb: "faucet_run f0 f t es \<Longrightarrow> t \<le> now \<Longrightarrow> claimGMB now user ok f = Inr f' \<Longrightarrow>
    faucet_run f0 f' now ((now, windowStart f', gmbDripAmount f) # es)"
| fr_token: "faucet_run f0 f t es \<Longrightarrow> t \<le> now \<Longrightarrow> claimToken now user token ok f = Inr f' \<Longrightarrow> faucet_run f0 f' now es"
| fr_fund: "faucet_run f0 f t es \<Longrightarrow> faucet_run f0 (f\<lparr>gf_balance := gf_balance f + v\<rparr>) t es"

definition window_sum :: "nat \<Rightarrow> (nat \<times> nat \<times> nat) list \<Rightarrow> nat" where
  "window_sum w es = sum_list (map (\<lambda>(t, s, a). if s = w then a else 0) es)"

definition paid_between :: "nat \<Rightarrow> nat \<Rightarrow> (nat \<times> nat \<times> nat) list \<Rightarrow> nat" where
  "paid_between lo hi es = sum_list (map (\<lambda>(t, s, a). if lo \<le> t \<and> t < hi then a else 0) es)"

definition windows_ok :: "nat \<Rightarrow> gemba_faucet \<Rightarrow> nat \<Rightarrow> (nat \<times> nat \<times> nat) list \<Rightarrow> bool" where
  "windows_ok cap f t es = (gmbDailyCap f = cap \<and> windowStart f \<le> t \<and>
     (\<forall>(u, s, a) \<in> set es. s \<le> u \<and> u < s + 86400 \<and> s \<le> windowStart f) \<and>
     (\<forall>w \<in> (fst \<circ> snd) ` set es \<union> {windowStart f}. \<forall>w' \<in> (fst \<circ> snd) ` set es \<union> {windowStart f}. w < w' \<longrightarrow> w + 86400 \<le> w') \<and>
     (\<forall>w. w \<noteq> windowStart f \<longrightarrow> window_sum w es \<le> cap) \<and> window_sum (windowStart f) es \<le> windowDispensed f \<and> windowDispensed f \<le> cap)"

lemma claimGMB_cases:
  assumes "claimGMB now user ok f = Inr f'"
  obtains "now < windowStart f + 86400" "windowStart f' = windowStart f" "windowDispensed f' = windowDispensed f + gmbDripAmount f"
      "windowDispensed f' \<le> gmbDailyCap f" "gmbDailyCap f' = gmbDailyCap f"
    | "windowStart f + 86400 \<le> now" "windowStart f' = now" "windowDispensed f' = gmbDripAmount f" "windowDispensed f' \<le> gmbDailyCap f" "gmbDailyCap f' = gmbDailyCap f"
  using assms by (cases "windowStart f + 86400 \<le> now") (auto simp: claimGMB_def Let_def not_le split: if_splits option.splits)

lemma windows_ok_gmb:
  assumes "windows_ok cap f t es" "t \<le> now" "claimGMB now user ok f = Inr f'"
  shows "windows_ok cap f' now ((now, windowStart f', gmbDripAmount f) # es)"
  using assms(3)
proof (cases rule: claimGMB_cases)
  case 1
  then show ?thesis using assms(1,2) by (auto simp: windows_ok_def window_sum_def)
next
  case 2
  have old: "(u, s, a) \<in> set es \<Longrightarrow> s \<le> windowStart f" for u s a using assms(1) by (auto simp: windows_ok_def)
  have none: "window_sum now es = 0"
    using old 2(1) by (force simp: window_sum_def sum_list_eq_0_iff)
  have "window_sum w es \<le> cap" for w using assms(1) by (cases "w = windowStart f") (auto simp: windows_ok_def)
  moreover have "w \<le> windowStart f" if "w \<in> (fst \<circ> snd) ` set es" for w using that old by auto
  ultimately show ?thesis using assms(1) 2 none
    by (auto simp: windows_ok_def window_sum_def)
qed

lemma faucet_run_windows:
  assumes "faucet_run f0 f t es" "windowDispensed f0 \<le> gmbDailyCap f0"
  shows "windows_ok (gmbDailyCap f0) f t es"
  using assms(1)
proof induction
  case fr_start
  then show ?case using assms(2) by (simp add: windows_ok_def window_sum_def)
next
  case (fr_gmb f t es now user ok f')
  then show ?case by (intro windows_ok_gmb)
next
  case (fr_token f t es now user token ok f')
  then have "windowStart f' = windowStart f" "windowDispensed f' = windowDispensed f" "gmbDailyCap f' = gmbDailyCap f"
    by (auto simp: claimToken_def split: if_splits option.splits)
  with fr_token show ?case by (auto simp: windows_ok_def)
next
  case (fr_fund f t es v)
  then show ?case by (simp add: windows_ok_def)
qed

lemma sum_two_windows:
  assumes "\<And>u s a. (u, s, a) \<in> set es \<Longrightarrow> lo \<le> u \<Longrightarrow> u < hi \<Longrightarrow> s = w1 \<or> s = w2"
  shows "paid_between lo hi es \<le> window_sum w1 es + window_sum w2 es"
  using assms
proof (induction es)
  case (Cons x es)
  obtain u s a where x: "x = (u, s, a)" by (cases x)
  have "paid_between lo hi es \<le> window_sum w1 es + window_sum w2 es" using Cons by auto
  moreover have "lo \<le> u \<Longrightarrow> u < hi \<Longrightarrow> s = w1 \<or> s = w2" using Cons.prems [of u s a] x by simp
  ultimately show ?case using x by (auto simp: paid_between_def window_sum_def)
qed (simp add: paid_between_def window_sum_def)

text \<open>
  Within any 24 hours the contract pays at most twice the daily cap, whoever claims and however often,
  as long as the owner leaves cap and drip alone.
\<close>

theorem day_pays_twice_the_cap:
  assumes "faucet_run f0 f t es" "windowDispensed f0 \<le> gmbDailyCap f0"
  shows "paid_between lo (lo + 86400) es \<le> 2 * gmbDailyCap f0"
proof -
  let ?cap = "gmbDailyCap f0"
  have w: "windows_ok ?cap f t es" by (rule faucet_run_windows [OF assms])
  have sum: "window_sum s es \<le> ?cap" for s using w by (cases "s = windowStart f") (auto simp: windows_ok_def)
  have tag: "s \<le> u \<and> u < s + 86400" if "(u, s, a) \<in> set es" for u s a using w that by (auto simp: windows_ok_def)
  have apart: "s + 86400 \<le> s'" if "(u, s, a) \<in> set es" "(u', s', a') \<in> set es" "s < s'" for u s a u' s' a'
    using w that by (force simp: windows_ok_def)
  define S where "S = {s. \<exists>u a. (u, s, a) \<in> set es \<and> lo \<le> u \<and> u < lo + 86400}"
  have inS: "\<exists>u a. (u, s, a) \<in> set es \<and> lo \<le> u \<and> u < lo + 86400" if "s \<in> S" for s using that by (simp add: S_def)
  have fin: "finite S" by (rule finite_subset [of _ "(fst \<circ> snd) ` set es"]) (force simp: S_def)+
  have "\<exists>w1 w2. \<forall>s \<in> S. s = w1 \<or> s = w2"
  proof (cases "S = {}")
    case False
    have "s = Min S \<or> s = Max S" if s: "s \<in> S" for s
    proof (rule ccontr)
      assume n: "\<not> (s = Min S \<or> s = Max S)"
      have lt: "Min S < s" "s < Max S" using n Min_le [OF fin s] Max_ge [OF fin s] by auto
      obtain u1 a1 where m1: "(u1, Min S, a1) \<in> set es" "lo \<le> u1" "u1 < lo + 86400" using inS [OF Min_in [OF fin False]] by auto
      obtain u2 a2 where m2: "(u2, Max S, a2) \<in> set es" "lo \<le> u2" "u2 < lo + 86400" using inS [OF Max_in [OF fin False]] by auto
      obtain u a where m: "(u, s, a) \<in> set es" using inS [OF s] by auto
      from apart [OF m1(1) m lt(1)] apart [OF m m2(1) lt(2)] tag [OF m1(1)] tag [OF m2(1)] m1(2) m2(3) show False by linarith
    qed
    then show ?thesis by blast
  qed simp
  then obtain w1 w2 where "\<And>s. s \<in> S \<Longrightarrow> s = w1 \<or> s = w2" by blast
  then have "paid_between lo (lo + 86400) es \<le> window_sum w1 es + window_sum w2 es"
    by (intro sum_two_windows) (auto simp: S_def)
  with sum [of w1] sum [of w2] show ?thesis by linarith
qed

text \<open>Twice the cap is reached, in two seconds: the last claim of a window and the first of the next.\<close>

definition demo_faucet :: gemba_faucet where
  "demo_faucet = \<lparr>gmbDripAmount = 10, gmbDailyCap = 10, windowDispensed = 0, windowStart = 1000, gf_tokens = (\<lambda>t. (t = 7, 5)),
     lastGmbClaim = (\<lambda>u. 0), lastTokenClaim = (\<lambda>u t. 0), gf_balance = 100, gf_paused = False\<rparr>"

lemma two_claims_in_two_seconds:
  "\<exists>f. faucet_run demo_faucet f 87400 [(87400, 87400, 10), (87399, 1000, 10)]"
proof -
  let ?f1 = "demo_faucet\<lparr>lastGmbClaim := (lastGmbClaim demo_faucet)(1 := 87399), windowDispensed := 10, gf_balance := 90\<rparr>"
  let ?f2 = "?f1\<lparr>windowStart := 87400, lastGmbClaim := (lastGmbClaim ?f1)(2 := 87400), windowDispensed := 10, gf_balance := 80\<rparr>"
  have 1: "claimGMB 87399 1 True demo_faucet = Inr ?f1" by (simp add: claimGMB_def demo_faucet_def cooldown_check_def)
  have 2: "claimGMB 87400 2 True ?f1 = Inr ?f2" by (simp add: claimGMB_def demo_faucet_def cooldown_check_def)
  show ?thesis
    using faucet_run.fr_gmb [OF faucet_run.fr_gmb [OF faucet_run.fr_start _ 1] _ 2] by (intro exI [of _ ?f2]) (simp add: demo_faucet_def)
qed

theorem day_pays_twice_the_cap_witness:
  "\<exists>f es. faucet_run demo_faucet f 87400 es \<and> paid_between 87000 173400 es = 20 \<and> paid_between 87000 173400 es \<le> 2 * gmbDailyCap demo_faucet"
proof -
  obtain f where f: "faucet_run demo_faucet f 87400 [(87400, 87400, 10), (87399, 1000, 10)]" using two_claims_in_two_seconds by blast
  from day_pays_twice_the_cap [OF f, of 87000]
  have "paid_between 87000 173400 [(87400, 87400, 10), (87399, 1000, 10)] \<le> 2 * gmbDailyCap demo_faucet" by (simp add: demo_faucet_def)
  with f show ?thesis by (intro exI conjI) (assumption, simp add: paid_between_def, assumption)
qed

end
