(* ===== verification/Landing.thy ===== *)
theory Landing
  imports Web_Faucet Contact
begin

text \<open>
  What the landing page does besides showing itself, frontend/landing/src/App.jsx: the buttons that claim
  from the faucet contract, the requests to the wallet, and the contact form. The wallet, the captcha and
  the server of the form are arguments; \<open>None\<close> is a request that fails. The texts of the page use a middle
  dot and an ellipsis where the model has a hyphen and dots.
\<close>

section \<open>Constants and encoding\<close>

record web_token =
  wt_symbol :: string
  wt_address :: string
  wt_decimals :: nat

definition chainIdHex :: string where "chainIdHex = ''0xc87d7''"

definition FAUCET :: string where "FAUCET = ''0x0147581e2351dD182edD651DFEfD955CB353f8aA''"

definition TOKENS :: "web_token list" where
  "TOKENS = [\<lparr>wt_symbol = ''USDT'', wt_address = ''0xF61647866ad7be8137230Ad688092D2f3F4A1666'', wt_decimals = 6\<rparr>,
     \<lparr>wt_symbol = ''USDC'', wt_address = ''0xc9af98AD8ae78086620821F9Ceb05842Dd7950CF'', wt_decimals = 6\<rparr>,
     \<lparr>wt_symbol = ''EURC'', wt_address = ''0x7Ff43282d7939418a3f0A308E2d48Dd93536044e'', wt_decimals = 6\<rparr>]"

definition sel_claimGMB :: string where "sel_claimGMB = ''0xc89830b0''"
definition sel_claimToken :: string where "sel_claimToken = ''0x32f289cf''"
definition sel_gmbAvailableAt :: string where "sel_gmbAvailableAt = ''0x4a1303cb''"
definition sel_tokenAvailableAt :: string where "sel_tokenAvailableAt = ''0x9de4bd3d''"

text \<open>\<open>replace("0x", "")\<close> removes the first occurrence; \<open>padStart\<close> leaves a long text as it is.\<close>

fun remove_first :: "string \<Rightarrow> string \<Rightarrow> string" where
  "remove_first w [] = []"
| "remove_first w (c # s) = (if prefix w (c # s) then drop (length w) (c # s) else c # remove_first w s)"

definition pad_start :: "nat \<Rightarrow> char \<Rightarrow> string \<Rightarrow> string" where
  "pad_start n c s = replicate (n - length s) c @ s"

definition pad32 :: "string \<Rightarrow> string" where
  "pad32 a = pad_start 64 CHR ''0'' (remove_first ''0x'' (to_lower a))"

definition claim_token_data :: "string \<Rightarrow> string" where
  "claim_token_data a = sel_claimToken @ pad32 a"

text \<open>\<open>parseInt(r, 16) || 0\<close>.\<close>

definition parseInt16 :: "string \<Rightarrow> jsnum" where
  "parseInt16 r = (let s = trim_left r;
     (neg, s1) = (if prefix ''-'' s then (True, tl s) else if prefix ''+'' s then (False, tl s) else (False, s));
     s2 = (if prefix ''0x'' s1 \<or> prefix ''0X'' s1 then drop 2 s1 else s1); ds = takeWhile is_hex s2 in
     if ds = [] then JNaN else js_of_int (if neg then - digits_val 16 ds else digits_val 16 ds))"

definition number_or_0 :: "jsnum \<Rightarrow> jsnum" where
  "number_or_0 x = (if x = JNaN then Fin 0 else x)"

section \<open>The claim buttons\<close>

text \<open>The state of the buttons; \<open>wp_avail\<close> is the object of the times the contract reported.\<close>

record web_page =
  wp_avail :: "(string, jsnum) jsmap"
  wp_now :: int
  wp_busy :: string

text \<open>What the wallet answers to \<open>eth_accounts\<close>, \<open>eth_chainId\<close> and \<open>eth_call\<close>.\<close>

record wallet_reads =
  wr_accounts :: "string list option"
  wr_chain :: "string option"
  wr_call :: "string \<Rightarrow> string option"

definition view_call :: "wallet_reads \<Rightarrow> string \<Rightarrow> jsnum option" where
  "view_call r data = map_option (\<lambda>s. number_or_0 (parseInt16 s)) (wr_call r data)"

fun read_tokens :: "wallet_reads \<Rightarrow> string \<Rightarrow> web_token list \<Rightarrow> (string, jsnum) jsmap \<Rightarrow> (string, jsnum) jsmap option" where
  "read_tokens r acct [] m = Some m"
| "read_tokens r acct (t # ts) m = (case view_call r (sel_tokenAvailableAt @ pad32 acct @ pad32 (wt_address t)) of None \<Rightarrow> None
     | Some x \<Rightarrow> read_tokens r acct ts (AList.update (wt_symbol t) x m))"

text \<open>\<open>None\<close> for the reads is a browser without a wallet. A failure leaves the state as it is.\<close>

definition refresh :: "wallet_reads option \<Rightarrow> web_page \<Rightarrow> web_page" where
  "refresh io p = (case io of None \<Rightarrow> p | Some r \<Rightarrow>
     (case wr_accounts r of None \<Rightarrow> p | Some accs \<Rightarrow>
     (case wr_chain r of None \<Rightarrow> p | Some chain \<Rightarrow>
     (if accs = [] \<or> hd accs = [] \<or> chain \<noteq> chainIdHex then p\<lparr>wp_avail := []\<rparr>
      else case view_call r (sel_gmbAvailableAt @ pad32 (hd accs)) of None \<Rightarrow> p
        | Some g \<Rightarrow> (case read_tokens r (hd accs) TOKENS [(''GMB'', g)] of None \<Rightarrow> p
          | Some m \<Rightarrow> p\<lparr>wp_avail := m\<rparr>)))))"

text \<open>The remainder of two numbers that are not negative.\<close>

definition js_mod_pos :: "jsnum \<Rightarrow> rat \<Rightarrow> jsnum" where
  "js_mod_pos x d = (case x of Fin q \<Rightarrow> Fin (q - d * of_int \<lfloor>q / d\<rfloor>) | _ \<Rightarrow> JNaN)"

definition countdown :: "(jsnum \<Rightarrow> string) \<Rightarrow> int \<Rightarrow> jsnum option \<Rightarrow> string option" where
  "countdown num now ts = (case ts of None \<Rightarrow> None | Some x \<Rightarrow>
     (if x = JNaN \<or> x = Fin 0 \<or> js_le x (js_of_int now) then None
      else let s = js_sub x (js_of_int now); h = js_floor (js_div s (Fin 3600)); m = js_floor (js_div (js_mod_pos s 3600) (Fin 60)); sec = js_mod_pos s 60 in
        Some (if js_lt (Fin 0) h then num h @ ''h '' @ num m @ ''m'' else if js_lt (Fin 0) m then num m @ ''m '' @ num sec @ ''s'' else num sec @ ''s'')))"

record web_button =
  wb_disabled :: bool
  wb_text :: string

definition claim_button :: "(jsnum \<Rightarrow> string) \<Rightarrow> web_page \<Rightarrow> string \<Rightarrow> string \<Rightarrow> web_button" where
  "claim_button num p key amount = (let cd = countdown num (wp_now p) (map_of (wp_avail p) key) in
     \<lparr>wb_disabled = (wp_busy p = key \<or> cd \<noteq> None),
      wb_text = (if wp_busy p = key then ''...'' else case cd of Some t \<Rightarrow> amount @ '' '' @ key @ '' - '' @ t | None \<Rightarrow> ''Claim '' @ amount @ '' '' @ key)\<rparr>)"

definition claim_buttons :: "(jsnum \<Rightarrow> string) \<Rightarrow> web_page \<Rightarrow> (string \<times> web_button) list" where
  "claim_buttons num p = (''GMB'', claim_button num p ''GMB'' ''0.1'') # map (\<lambda>t. (wt_symbol t, claim_button num p (wt_symbol t) ''10,000'')) TOKENS"

definition claim_started :: "string \<Rightarrow> web_page \<Rightarrow> web_page" where
  "claim_started key p = p\<lparr>wp_busy := key\<rparr>"

definition claim_ended :: "web_page \<Rightarrow> web_page" where
  "claim_ended p = p\<lparr>wp_busy := []\<rparr>"

section \<open>Requests to the wallet\<close>

datatype wallet_request =
    OpenDownload
  | RequestAccounts
  | SwitchChain string
  | AddChain string
  | SendTransaction "string option" string string
  | WatchAsset string string nat

text \<open>
  The answers: the accounts; the error code of the switch, if it fails; whether the other requests
  succeed. \<open>None\<close> is a browser without a wallet.
\<close>

record wallet_answers =
  wa_accounts :: "string list option"
  wa_switch :: "int option"
  wa_add :: bool
  wa_send :: bool

text \<open>A failure of \<open>addToMetaMask\<close> is caught there, so for its caller it has always succeeded.\<close>

definition addToMetaMask :: "wallet_answers option \<Rightarrow> wallet_request list" where
  "addToMetaMask io = (case io of None \<Rightarrow> [OpenDownload] | Some a \<Rightarrow> [AddChain chainIdHex])"

text \<open>The requests made, and whether it returns rather than throws.\<close>

definition ensureGembaChain :: "wallet_answers \<Rightarrow> wallet_request list \<times> bool" where
  "ensureGembaChain a = (case wa_switch a of None \<Rightarrow> ([SwitchChain chainIdHex], True)
     | Some code \<Rightarrow> if code = 4902 then (SwitchChain chainIdHex # addToMetaMask (Some a), True) else ([SwitchChain chainIdHex], False))"

text \<open>The requests of a claim, and whether the page shows its alert.\<close>

definition sendFaucetTx :: "wallet_answers option \<Rightarrow> string \<Rightarrow> wallet_request list \<times> bool" where
  "sendFaucetTx io data = (case io of None \<Rightarrow> ([OpenDownload], False)
     | Some a \<Rightarrow> (case wa_accounts a of None \<Rightarrow> ([RequestAccounts], True)
       | Some accs \<Rightarrow> (let (rs, go) = ensureGembaChain a; from = (case accs of [] \<Rightarrow> None | x # xs \<Rightarrow> Some x) in
           if go then (RequestAccounts # rs @ [SendTransaction from FAUCET data], \<not> wa_send a) else (RequestAccounts # rs, True))))"

definition addToken :: "wallet_answers option \<Rightarrow> web_token \<Rightarrow> wallet_request list" where
  "addToken io t = (case io of None \<Rightarrow> [OpenDownload] | Some a \<Rightarrow> [WatchAsset (wt_address t) (wt_symbol t) (wt_decimals t)])"

section \<open>The contact form\<close>

datatype form_status = Idle | Sending | FormOk | FormError | FormInvalid | FormCaptcha

record contact_form =
  cf_name :: string
  cf_email :: string
  cf_subject :: string
  cf_message :: string
  cf_token :: string
  cf_status :: form_status

definition contact_form_start :: contact_form where
  "contact_form_start = \<lparr>cf_name = [], cf_email = [], cf_subject = [], cf_message = [], cf_token = [], cf_status = Idle\<rparr>"

datatype form_field = FName | FEmail | FSubject | FMessage

text \<open>The browser keeps what is typed within \<open>maxLength\<close>.\<close>

fun max_length :: "form_field \<Rightarrow> nat" where
  "max_length FName = 120"
| "max_length FEmail = 160"
| "max_length FSubject = 160"
| "max_length FMessage = 5000"

definition form_typed :: "form_field \<Rightarrow> string \<Rightarrow> contact_form \<Rightarrow> contact_form" where
  "form_typed fl s f = (let v = take (max_length fl) s in case fl of FName \<Rightarrow> f\<lparr>cf_name := v\<rparr> | FEmail \<Rightarrow> f\<lparr>cf_email := v\<rparr>
     | FSubject \<Rightarrow> f\<lparr>cf_subject := v\<rparr> | FMessage \<Rightarrow> f\<lparr>cf_message := v\<rparr>)"

definition captcha_solved :: "string \<Rightarrow> contact_form \<Rightarrow> contact_form" where
  "captcha_solved t f = f\<lparr>cf_token := t\<rparr>"

text \<open>\<open>submit\<close> up to the request: the new state, and the body that is posted, if any.\<close>

definition form_submit :: "contact_form \<Rightarrow> contact_form \<times> (string \<times> jsval) list option" where
  "form_submit f = (if trim (cf_name f) = [] \<or> \<not> isEmail (cf_email f) \<or> trim (cf_message f) = [] then (f\<lparr>cf_status := FormInvalid\<rparr>, None)
     else if cf_token f = [] then (f\<lparr>cf_status := FormCaptcha\<rparr>, None)
     else (f\<lparr>cf_status := Sending\<rparr>, Some [(''name'', JStr (cf_name f)), (''email'', JStr (cf_email f)), (''subject'', JStr (cf_subject f)),
       (''message'', JStr (cf_message f)), (''token'', JStr (cf_token f))]))"

text \<open>
  After the request: \<open>None\<close> when it failed, else whether the status is below 300 and the body has a true
  \<open>ok\<close>. The fields are emptied on success only, the captcha is reset in any case.
\<close>

definition form_answered :: "(bool \<times> bool) option \<Rightarrow> contact_form \<Rightarrow> contact_form" where
  "form_answered r f = (case r of Some (True, True) \<Rightarrow> contact_form_start\<lparr>cf_status := FormOk\<rparr>
     | _ \<Rightarrow> f\<lparr>cf_status := FormError, cf_token := []\<rparr>)"

text \<open>What the page sees of the server's reply.\<close>

definition seen_reply :: "contact_reply \<Rightarrow> bool \<times> bool" where
  "seen_reply r = (contact_status r < 300, r = ContactOk)"

end
