(* ===== verification/Landing_Properties.thy ===== *)
theory Landing_Properties
  imports Landing
begin

text \<open>
  The landing page against what it talks to: the claim buttons against the faucet contract, read through
  the wallet, and the contact form against the server that receives it.
\<close>

section \<open>The wallet as a reader of the contract\<close>

text \<open>The encoding of calls and results: words of 64 hexadecimal digits after a selector of eight.\<close>

definition hex_char :: "nat \<Rightarrow> char" where
  "hex_char n = (if n < 10 then char_of (48 + n) else char_of (87 + n))"

fun hex_digits :: "nat \<Rightarrow> nat \<Rightarrow> string" where
  "hex_digits 0 n = []"
| "hex_digits (Suc k) n = hex_digits k (n div 16) @ [hex_char (n mod 16)]"

definition arg_word :: "nat \<Rightarrow> string \<Rightarrow> nat" where
  "arg_word i data = nat (digits_val 16 (take 64 (drop (10 + 64 * i) data)))"

definition faucet_view :: "gemba_faucet \<Rightarrow> string \<Rightarrow> string option" where
  "faucet_view f data = map_option (\<lambda>n. ''0x'' @ hex_digits 64 n)
     (if take 10 data = sel_gmbAvailableAt then gmbAvailableAt f (arg_word 0 data)
      else if take 10 data = sel_tokenAvailableAt then tokenAvailableAt f (arg_word 0 data) (arg_word 1 data) else None)"

definition addr_num :: "string \<Rightarrow> nat" where
  "addr_num a = nat (digits_val 16 (remove_first ''0x'' (to_lower a)))"

definition web_address :: "string \<Rightarrow> bool" where
  "web_address a = (prefix ''0x'' a \<and> length a = 42 \<and> list_all is_hex (drop 2 a))"

definition connected_wallet :: "gemba_faucet \<Rightarrow> string \<Rightarrow> wallet_reads" where
  "connected_wallet f acct = \<lparr>wr_accounts = Some [acct], wr_chain = Some chainIdHex, wr_call = faucet_view f\<rparr>"

lemma hex_char_val: "n < 16 \<Longrightarrow> is_hex (hex_char n) \<and> digit_val (hex_char n) = int n"
proof -
  assume "n < 16"
  then have "n \<in> set [0..<16]" by simp
  moreover have "list_all (\<lambda>n. is_hex (hex_char n) \<and> digit_val (hex_char n) = int n) [0..<16]" by (simp add: upt_rec hex_char_def is_hex_def digit_val_def code_unit_def)
  ultimately show ?thesis unfolding list_all_iff by blast
qed

lemma digits_val_append: "digits_val b (s @ [c]) = digits_val b s * b + digit_val c"
  by (simp add: digits_val_def)

lemma hex_digits_val: "list_all is_hex (hex_digits k n) \<and> length (hex_digits k n) = k \<and> digits_val 16 (hex_digits k n) = int (n mod 16 ^ k)"
proof (induction k arbitrary: n)
  case 0 then show ?case by (simp add: digits_val_def)
next
  case (Suc k)
  have "int (n mod 16 ^ Suc k) = int (n div 16 mod 16 ^ k) * 16 + int (n mod 16)"
    by (simp add: mod_mult2_eq mult.commute flip: of_nat_mult of_nat_add)
  with Suc [of "n div 16"] hex_char_val [of "n mod 16"] show ?case by (simp add: digits_val_append)
qed

lemma parse_word:
  assumes "n < 2 ^ 53"
  shows "number_or_0 (parseInt16 (''0x'' @ hex_digits 64 n)) = Fin (of_nat n)"
proof -
  have h: "list_all is_hex (hex_digits 64 n)" "digits_val 16 (hex_digits 64 n) = int n" "hex_digits 64 n \<noteq> []"
    using hex_digits_val [of 64 n] assms by auto
  have t: "trim_left (''0x'' @ hex_digits 64 n) = ''0x'' @ hex_digits 64 n" by (simp add: trim_left_def is_ws_def code_unit_def)
  have w: "takeWhile is_hex (hex_digits 64 n) = hex_digits 64 n" using h(1) by (simp add: takeWhile_eq_all_conv list_all_iff)
  have "parseInt16 (''0x'' @ hex_digits 64 n) = js_of_int (int n)"
    unfolding parseInt16_def Let_def t by (simp add: w h)
  also have "\<dots> = Fin (of_nat n)" using assms by (simp add: js_of_int_small)
  finally show ?thesis by (simp add: number_or_0_def)
qed

lemma digits_val_zeros: "digits_val 16 (replicate k CHR ''0'' @ s) = digits_val 16 s"
proof (induction k)
  case (Suc k)
  have "digit_val CHR ''0'' = 0" by code_simp
  with Suc show ?case by (simp add: digits_val_def)
qed simp

lemma web_address_parts: "web_address a \<Longrightarrow> \<exists>h. a = ''0x'' @ h \<and> length h = 40"
  by (auto simp: web_address_def prefix_def)

lemma pad32_word: "web_address a \<Longrightarrow> length (pad32 a) = 64 \<and> nat (digits_val 16 (pad32 a)) = addr_num a"
proof -
  assume "web_address a"
  then obtain h where h: "a = ''0x'' @ h" "length h = 40" using web_address_parts by blast
  have "to_lower a = ''0x'' @ to_lower h" using h(1) by (simp add: to_lower_def lower_char_def code_unit_def)
  then have "remove_first ''0x'' (to_lower a) = to_lower h" by simp
  then show ?thesis using h(2) by (simp add: pad32_def pad_start_def addr_num_def digits_val_zeros) (simp add: to_lower_def)
qed

lemma token_addresses: "t \<in> set TOKENS \<Longrightarrow> web_address (wt_address t)"
proof -
  have "list_all (\<lambda>t. web_address (wt_address t)) TOKENS" by code_simp
  then show "t \<in> set TOKENS \<Longrightarrow> web_address (wt_address t)" by (simp add: list_all_iff)
qed

lemma view_gmb:
  assumes "web_address acct" "gmbAvailableAt f (addr_num acct) = Some a" "a < 2 ^ 53"
  shows "view_call (connected_wallet f acct) (sel_gmbAvailableAt @ pad32 acct) = Some (Fin (of_nat a))"
proof -
  note p = pad32_word [OF assms(1)]
  have "arg_word 0 (sel_gmbAvailableAt @ pad32 acct) = addr_num acct" "take 10 (sel_gmbAvailableAt @ pad32 acct) = sel_gmbAvailableAt"
    using p by (simp_all add: arg_word_def sel_gmbAvailableAt_def)
  with assms show ?thesis by (simp add: view_call_def connected_wallet_def faucet_view_def parse_word del: append.simps hex_digits.simps)
qed

lemma view_token:
  assumes "web_address acct" "web_address tok" "tokenAvailableAt f (addr_num acct) (addr_num tok) = Some a" "a < 2 ^ 53"
  shows "view_call (connected_wallet f acct) (sel_tokenAvailableAt @ pad32 acct @ pad32 tok) = Some (Fin (of_nat a))"
proof -
  note p = pad32_word [OF assms(1)] pad32_word [OF assms(2)]
  have "arg_word 0 (sel_tokenAvailableAt @ pad32 acct @ pad32 tok) = addr_num acct" "arg_word 1 (sel_tokenAvailableAt @ pad32 acct @ pad32 tok) = addr_num tok"
    "take 10 (sel_tokenAvailableAt @ pad32 acct @ pad32 tok) = sel_tokenAvailableAt" "sel_tokenAvailableAt \<noteq> sel_gmbAvailableAt"
    using p by (simp_all add: arg_word_def sel_tokenAvailableAt_def sel_gmbAvailableAt_def)
  with assms show ?thesis by (simp add: view_call_def connected_wallet_def faucet_view_def parse_word del: append.simps hex_digits.simps)
qed

section \<open>The claim buttons\<close>

definition button_disabled :: "(jsnum \<Rightarrow> string) \<Rightarrow> web_page \<Rightarrow> string \<Rightarrow> bool option" where
  "button_disabled num p key = map_option wb_disabled (map_of (claim_buttons num p) key)"

lemma countdown_iff:
  assumes "a < 2 ^ 53" "0 \<le> now" "now < 2 ^ 53"
  shows "countdown num now (Some (Fin (of_nat a))) = None \<longleftrightarrow> \<not> nat now < a"
proof -
  have n: "js_of_int now = Fin (of_int now)" using assms(2,3) by (intro js_of_int_small) simp
  have "(of_nat a \<le> (of_int now :: rat)) \<longleftrightarrow> int a \<le> now" by (metis of_int_le_iff of_int_of_nat_eq)
  with n show ?thesis using assms(2) by (auto simp: countdown_def Let_def)
qed

lemma countdown_some_iff:
  "a < 2 ^ 53 \<Longrightarrow> 0 \<le> now \<Longrightarrow> now < 2 ^ 53 \<Longrightarrow> (\<exists>y. countdown num now (Some (Fin (of_nat a))) = Some y) \<longleftrightarrow> nat now < a"
  using countdown_iff [of a now num] by (metis not_None_eq)

lemma read_tokens_all:
  "(\<And>t. t \<in> set ts \<Longrightarrow> view_call r (sel_tokenAvailableAt @ pad32 acct @ pad32 (wt_address t)) = Some (x t)) \<Longrightarrow>
    read_tokens r acct ts m = Some (fold (\<lambda>t. AList.update (wt_symbol t) (x t)) ts m)"
  by (induction ts arbitrary: m) auto

lemma refresh_avail:
  assumes "web_address acct" "gmbAvailableAt f (addr_num acct) = Some g" "g < 2 ^ 53"
    and "\<And>t. t \<in> set TOKENS \<Longrightarrow> tokenAvailableAt f (addr_num acct) (addr_num (wt_address t)) = Some (av t) \<and> av t < 2 ^ 53"
  shows "refresh (Some (connected_wallet f acct)) p = p\<lparr>wp_avail := (''GMB'', Fin (of_nat g)) # map (\<lambda>t. (wt_symbol t, Fin (of_nat (av t)))) TOKENS\<rparr>"
proof -
  have v: "view_call (connected_wallet f acct) (sel_tokenAvailableAt @ pad32 acct @ pad32 (wt_address t)) = Some (Fin (of_nat (av t)))"
    if "t \<in> set TOKENS" for t using view_token [OF assms(1) token_addresses [OF that]] assms(4) [OF that] by blast
  have "acct \<noteq> []" using web_address_parts [OF assms(1)] by auto
  then show ?thesis
    using view_gmb [OF assms(1-3)] read_tokens_all [of TOKENS "connected_wallet f acct" acct "\<lambda>t. Fin (of_nat (av t))"] v
    by (simp add: refresh_def connected_wallet_def) (simp add: TOKENS_def)
qed

text \<open>
  C33. After the page has read the contract for an address, the button of GMB or of a token is disabled by a
  countdown exactly when the contract would refuse a claim of that address at the displayed time because
  of its cooldown, and the claim it sends for a token names that token; times are below \<open>2 ^ 53\<close>.
\<close>

theorem claim_buttons_match_contract:
  assumes "web_address acct" "\<not> gf_paused f" "0 \<le> wp_now p" "wp_now p < 2 ^ 53" "t \<in> set TOKENS"
    and "gmbAvailableAt f (addr_num acct) = Some g" "g < 2 ^ 53"
    and "\<And>t. t \<in> set TOKENS \<Longrightarrow> fst (gf_tokens f (addr_num (wt_address t))) \<and>
      tokenAvailableAt f (addr_num acct) (addr_num (wt_address t)) = Some (av t) \<and> av t < 2 ^ 53"
    and "wp_busy p = []"
  shows "button_disabled num (refresh (Some (connected_wallet f acct)) p) ''GMB'' =
      Some (\<exists>x. claimGMB (nat (wp_now p)) (addr_num acct) ok f = Inl (CooldownActive x)) \<and>
    button_disabled num (refresh (Some (connected_wallet f acct)) p) (wt_symbol t) =
      Some (\<exists>x. claimToken (nat (wp_now p)) (addr_num acct) (arg_word 0 (claim_token_data (wt_address t))) ok f = Inl (CooldownActive x))"
proof -
  have p: "refresh (Some (connected_wallet f acct)) p = p\<lparr>wp_avail := (''GMB'', Fin (of_nat g)) # map (\<lambda>t. (wt_symbol t, Fin (of_nat (av t)))) TOKENS\<rparr>"
    using assms(8) by (intro refresh_avail [OF assms(1,6,7)]) blast
  have arg: "arg_word 0 (claim_token_data (wt_address t)) = addr_num (wt_address t)"
    using pad32_word [OF token_addresses [OF assms(5)]] by (simp add: arg_word_def claim_token_data_def sel_claimToken_def)
  note t = assms(8) [OF assms(5)]
  have "button_disabled num (refresh (Some (connected_wallet f acct)) p) ''GMB'' = Some (nat (wp_now p) < g)"
    using countdown_some_iff [OF assms(7,3,4), of num] assms(9) by (simp add: p button_disabled_def claim_buttons_def claim_button_def Let_def)
  moreover have "button_disabled num (refresh (Some (connected_wallet f acct)) p) (wt_symbol t) = Some (nat (wp_now p) < av t)"
    using countdown_some_iff [OF _ assms(3,4), of "av t" num] t assms(5,9)
    by (auto simp: p button_disabled_def claim_buttons_def claim_button_def Let_def TOKENS_def)
  ultimately show ?thesis
    using claimGMB_cooldown [OF assms(6,2)] claimToken_cooldown [OF conjunct1 [OF conjunct2 [OF t]] assms(2) conjunct1 [OF t]]
    by (simp add: arg)
qed

text \<open>A refused request to add the chain is taken for a success, and the claim is sent to whatever chain
  the wallet is on; a refused switch sends nothing.\<close>

lemma refused_chain_still_sends:
  "sendFaucetTx (Some \<lparr>wa_accounts = Some (x # xs), wa_switch = Some 4902, wa_add = False, wa_send = True\<rparr>) d =
    ([RequestAccounts, SwitchChain chainIdHex, AddChain chainIdHex, SendTransaction (Some x) FAUCET d], False)"
  by (simp add: sendFaucetTx_def ensureGembaChain_def addToMetaMask_def)

lemma refused_switch_sends_nothing:
  assumes "wa_switch a = Some code" "code \<noteq> 4902"
  shows "SendTransaction from to d \<notin> set (fst (sendFaucetTx (Some a) data))"
  using assms by (auto simp: sendFaucetTx_def ensureGembaChain_def Let_def split: option.splits)

definition web_demo_faucet :: gemba_faucet where
  "web_demo_faucet = demo_faucet\<lparr>gf_tokens := (\<lambda>t. (True, 5)), lastGmbClaim := (\<lambda>u. 1000)\<rparr>"

definition web_demo_page :: web_page where
  "web_demo_page = \<lparr>wp_avail = [], wp_now = 2000, wp_busy = []\<rparr>"

theorem claim_buttons_match_contract_witness:
  "button_disabled (\<lambda>x. []) (refresh (Some (connected_wallet web_demo_faucet ''0x1234567890abcdefABCDEF12345678901234abcd'')) web_demo_page) ''GMB'' = Some True \<and>
   button_disabled (\<lambda>x. []) (refresh (Some (connected_wallet web_demo_faucet ''0x1234567890abcdefABCDEF12345678901234abcd'')) web_demo_page) ''USDC'' = Some False"
proof -
  let ?a = "''0x1234567890abcdefABCDEF12345678901234abcd''" let ?t = "TOKENS ! 1"
  have a: "web_address ?a" by code_simp
  have t: "?t \<in> set TOKENS" "wt_symbol ?t = ''USDC''" by (simp_all add: TOKENS_def)
  have f: "\<not> gf_paused web_demo_faucet" "0 \<le> wp_now web_demo_page" "wp_now web_demo_page < 2 ^ 53" "wp_busy web_demo_page = []"
    "gmbAvailableAt web_demo_faucet (addr_num ?a) = Some 87400"
    "fst (gf_tokens web_demo_faucet b) \<and> tokenAvailableAt web_demo_faucet c b = Some 0 \<and> (0::nat) < 2 ^ 53" for b c
    by (simp_all add: web_demo_faucet_def demo_faucet_def web_demo_page_def gmbAvailableAt_def tokenAvailableAt_def available_at_def COOLDOWN_def)
  have "claimGMB 2000 (addr_num ?a) True web_demo_faucet = Inl (CooldownActive 87400)"
    "\<And>b c x. claimToken 2000 b c True web_demo_faucet \<noteq> Inl (CooldownActive x)"
    by (simp_all add: web_demo_faucet_def demo_faucet_def claimGMB_def claimToken_def cooldown_check_def COOLDOWN_def)
  moreover have "wp_now web_demo_page = 2000" by (simp add: web_demo_page_def)
  ultimately show ?thesis
    using claim_buttons_match_contract [OF a f(1-3) t(1) f(5) _ f(6) f(4), where num = "\<lambda>x. []" and ok = True] t(2) by auto
qed

section \<open>The contact form\<close>

text \<open>What a visitor can do with the form, in any order; the answers are arbitrary.\<close>

inductive form_reach :: "contact_form \<Rightarrow> bool" where
  "form_reach contact_form_start"
| "form_reach f \<Longrightarrow> form_reach (form_typed fl s f)"
| "form_reach f \<Longrightarrow> form_reach (captcha_solved t f)"
| "form_reach f \<Longrightarrow> form_reach (fst (form_submit f))"
| "form_reach f \<Longrightarrow> form_reach (form_answered r f)"

lemma form_reach_lengths:
  "form_reach f \<Longrightarrow> length (cf_name f) \<le> 120 \<and> length (cf_email f) \<le> 160 \<and> length (cf_subject f) \<le> 160 \<and> length (cf_message f) \<le> 5000"
proof (induction rule: form_reach.induct)
  case (2 f fl s)
  then show ?case by (cases fl) (simp_all add: form_typed_def)
qed (auto simp: contact_form_start_def captcha_solved_def form_submit_def form_answered_def split: option.split bool.split)

lemma clean_short: "length s \<le> n \<Longrightarrow> clean_field num (JStr s) n = trim s"
  using length_trim [of s] by (simp add: clean_field_def nullish_def)

lemma isEmail_trim: "isEmail s \<Longrightarrow> trim s = s"
  using isEmail_chars [of s] by (intro trim_fix) (metis hd_in_set last_in_set)

text \<open>
  C34. The server never refuses the input that the form lets through. It answers with success exactly when both mails
  were accepted: the inquiry for the mailbox and the copy for exactly the address typed; otherwise it sent nothing, or the
  inquiry alone. The form is emptied and says so exactly when that answer of success arrives; on any other answer, and when
  none arrives (also when both mails have gone out and the answer is lost), it reports an error, keeps what was typed and
  asks for the captcha again. (The form is left alone between the submission and the answer.)
\<close>

theorem contact_form_meets_server:
  assumes "form_reach f" "form_submit f = (f', Some body)" "contact_post cfg num siteverify sends1 sends2 cf xff body = (reply, mails)"
  shows "reply \<noteq> InvalidInput \<and>
    (if reply = ContactOk then map cm_to mails = [contact_to cfg, cf_email f] else mails = [] \<or> map cm_to mails = [contact_to cfg]) \<and>
    (\<forall>ans \<in> {Some (seen_reply reply), None}. form_answered ans f' =
       (if reply = ContactOk \<and> ans \<noteq> None then contact_form_start\<lparr>cf_status := FormOk\<rparr> else f\<lparr>cf_status := FormError, cf_token := []\<rparr>))"
proof -
  have ok: "trim (cf_name f) \<noteq> []" "isEmail (cf_email f)" "trim (cf_message f) \<noteq> []" "f' = f\<lparr>cf_status := Sending\<rparr>"
    "body = [(''name'', JStr (cf_name f)), (''email'', JStr (cf_email f)), (''subject'', JStr (cf_subject f)), (''message'', JStr (cf_message f)), (''token'', JStr (cf_token f))]"
    using assms(2) by (auto simp: form_submit_def split: if_splits)
  note len = form_reach_lengths [OF assms(1)]
  have c: "clean_field num (get_prop body ''name'') 120 = trim (cf_name f)" "clean_field num (get_prop body ''email'') 160 = cf_email f"
    "clean_field num (get_prop body ''message'') 5000 = trim (cf_message f)"
    using len isEmail_trim [OF ok(2)] by (simp_all add: ok(5) get_prop_def clean_short)
  have r: "reply \<noteq> InvalidInput" "reply = ContactOk \<Longrightarrow> map cm_to mails = [contact_to cfg, cf_email f]"
    "reply \<noteq> ContactOk \<Longrightarrow> mails = [] \<or> map cm_to mails = [contact_to cfg]"
    using assms(3) ok(1-3) unfolding contact_post_def Let_def c
    by (auto simp: inquiry_mail_def confirmation_mail_def split: sum.splits bool.splits if_splits)
  have "form_answered (Some (seen_reply reply)) f' = (if reply = ContactOk then contact_form_start\<lparr>cf_status := FormOk\<rparr> else f\<lparr>cf_status := FormError, cf_token := []\<rparr>)"
    by (cases reply) (simp_all add: form_answered_def seen_reply_def ok(4))
  moreover have "form_answered None f' = f\<lparr>cf_status := FormError, cf_token := []\<rparr>" by (simp add: form_answered_def ok(4))
  ultimately show ?thesis using r by auto
qed

theorem contact_form_meets_server_witness:
  "\<exists>f f' body reply mails. form_reach f \<and> form_submit f = (f', Some body) \<and>
    contact_post \<lparr>turnstile_secret = ''s'', contact_to = ''c@g.io''\<rparr> (\<lambda>_. []) (\<lambda>t i. Inr (t = ''tok'')) True True None None body = (reply, mails) \<and>
    reply = ContactOk \<and> map cm_to mails = [''c@g.io'', ''a@b.co''] \<and> form_answered (Some (seen_reply reply)) f' = contact_form_start\<lparr>cf_status := FormOk\<rparr>"
proof -
  let ?f = "captcha_solved ''tok'' (form_typed FMessage ''hi'' (form_typed FEmail ''a@b.co'' (form_typed FName ''Ana'' contact_form_start)))"
  let ?cfg = "\<lparr>turnstile_secret = ''s'', contact_to = ''c@g.io''\<rparr>"
  let ?body = "[(''name'', JStr ''Ana''), (''email'', JStr ''a@b.co''), (''subject'', JStr []), (''message'', JStr ''hi''), (''token'', JStr ''tok'')]"
  let ?p = "contact_post ?cfg (\<lambda>_. []) (\<lambda>t i. Inr (t = ''tok'')) True True None None ?body"
  have reach: "form_reach ?f" by (intro form_reach.intros)
  have sub: "form_submit ?f = (?f\<lparr>cf_status := Sending\<rparr>, Some ?body)" by code_simp
  obtain reply mails where p: "?p = (reply, mails)" by (cases ?p)
  have "fst ?p = ContactOk" by code_simp
  then have ok: "reply = ContactOk" using p by simp
  have e: "cf_email ?f = ''a@b.co''" by code_simp
  from contact_form_meets_server [OF reach sub p] ok e have
    "map cm_to mails = [''c@g.io'', ''a@b.co''] \<and> form_answered (Some (seen_reply reply)) (?f\<lparr>cf_status := Sending\<rparr>) = contact_form_start\<lparr>cf_status := FormOk\<rparr>"
    by simp
  with reach sub p ok show ?thesis
    by (intro exI [of _ ?f] exI [of _ "?f\<lparr>cf_status := Sending\<rparr>"] exI [of _ ?body] exI [of _ reply] exI [of _ mails]) simp
qed

end
