(* ===== verification/Permit_Nonces.thy ===== *)
theory Permit_Nonces
  imports Gating Request_Types
begin

text \<open>
  The start of a run, endurance/scripts/run.js, and the nonces of the signed permits: what the run believes
  (\<open>permitNonce\<close>, \<open>permitInFlight\<close>) beside the counter of the contract, endurance/contracts/src/SignedFlows.sol.
\<close>

section \<open>The start of a run\<close>

text \<open>The state of the workloads at the start; \<open>base\<close> is the time in milliseconds, \<open>r1\<close> and \<open>r2\<close> are draws below a million.\<close>

definition wl_ctx_start :: "int \<Rightarrow> int \<Rightarrow> int \<Rightarrow> wl_ctx" where
  "wl_ctx_start base r1 r2 = \<lparr>credits = (\<lambda>k f. 0), owned = (\<lambda>q f. []), children = (\<lambda>k f. []), clones = (\<lambda>f. []), lp = (\<lambda>f p. 0), has1155 = (\<lambda>f. False),
     nftSeq = base * 1000, mktSeq = base * 1000 + 100000000, roySeq = base * 1000 + 200000000,
     aucSeq = base * 1000 + 300000000, batchSeq = base * 1000 + 400000000,
     salt = base * 1000000 + r1, cloneSalt = base * 1000000 + 500000000 + r2,
     govPid = base * 1000 + 600000000, voucherId = base * 1000 + 700000000,
     mktListed = [], mktCursor = 0, royListed = [], royCursor = 0, auctions = [], proposals = [],
     permitNonce = (\<lambda>f. None), permitsBySpender = (\<lambda>f. []), permitInFlight = (\<lambda>f. False)\<rparr>"

text \<open>The providers are asked in turn, twice; the first answer counts.\<close>

definition readNonce :: "nat \<Rightarrow> (nat \<Rightarrow> nat \<Rightarrow> int option) \<Rightarrow> int option" where
  "readNonce k ans = (case find (\<lambda>x. x \<noteq> None) (concat (map (\<lambda>t. map (ans t) [0..<k]) [0..<2])) of None \<Rightarrow> None | Some x \<Rightarrow> x)"

text \<open>A wallet whose nonce could not be read may send no permit until a later read is answered.\<close>

definition init_permit :: "(string \<Rightarrow> int option) \<Rightarrow> string \<Rightarrow> wl_ctx \<Rightarrow> wl_ctx" where
  "init_permit read f c = (case read f of Some n \<Rightarrow> c\<lparr>permitNonce := (permitNonce c)(f := Some n)\<rparr>
     | None \<Rightarrow> c\<lparr>permitInFlight := (permitInFlight c)(f := True)\<rparr>)"

definition init_permits :: "(string \<Rightarrow> int option) \<Rightarrow> string list \<Rightarrow> wl_ctx \<Rightarrow> wl_ctx" where
  "init_permits read ws c = fold (init_permit read) ws c"

lemma readNonce_Some: "readNonce k ans = Some n \<Longrightarrow> \<exists>t < 2. \<exists>i < k. ans t i = Some n"
proof -
  assume "readNonce k ans = Some n"
  then have "find (\<lambda>x. x \<noteq> None) (concat (map (\<lambda>t. map (ans t) [0..<k]) [0..<2])) = Some (Some n)"
    by (simp add: readNonce_def split: option.splits)
  then have "Some n \<in> set (concat (map (\<lambda>t. map (ans t) [0..<k]) [0..<2]))" by (metis find_Some_iff nth_mem)
  then obtain t i where "t < 2" "i < k" "ans t i = Some n" by (auto simp del: upt.simps)
  then show ?thesis by blast
qed

lemma readNonce_None: "readNonce k ans = None \<Longrightarrow> t < 2 \<Longrightarrow> i < k \<Longrightarrow> ans t i = None"
proof -
  assume r: "readNonce k ans = None" and t: "t < 2" "i < k"
  have "find (\<lambda>x. x \<noteq> None) (concat (map (\<lambda>t. map (ans t) [0..<k]) [0..<2])) = None"
    using r by (auto simp: readNonce_def find_Some_iff split: option.splits)
  moreover have "ans t i \<in> set (concat (map (\<lambda>t. map (ans t) [0..<k]) [0..<2]))" using t by (simp del: upt.simps) fastforce
  ultimately show ?thesis unfolding find_None_iff by blast
qed

lemma init_permit_view:
  "permitNonce (init_permit read g c) f = (if f = g \<and> read g \<noteq> None then read g else permitNonce c f)"
  "permitInFlight (init_permit read g c) f \<longleftrightarrow> (f = g \<and> read g = None) \<or> permitInFlight c f"
  by (auto simp: init_permit_def split: option.split)

lemma init_permits_Cons: "init_permits read (g # ws) c = init_permits read ws (init_permit read g c)"
  by (simp add: init_permits_def)

lemma init_permits_nonce:
  "permitNonce (init_permits read ws c) f = (if f \<in> set ws \<and> read f \<noteq> None then read f else permitNonce c f)"
proof (induction ws arbitrary: c)
  case Nil
  show ?case by (simp add: init_permits_def)
next
  case (Cons g ws)
  show ?case unfolding init_permits_Cons Cons init_permit_view by (cases "f = g"; cases "f \<in> set ws") simp_all
qed

lemma init_permits_in_flight:
  "permitInFlight (init_permits read ws c) f \<longleftrightarrow> (f \<in> set ws \<and> read f = None) \<or> permitInFlight c f"
proof (induction ws arbitrary: c)
  case Nil
  show ?case by (simp add: init_permits_def)
next
  case (Cons g ws)
  show ?case unfolding init_permits_Cons Cons init_permit_view by auto
qed

text \<open>The ids a run starts with are far below the size of a word, so its requests are well typed.\<close>

lemma start_ids_below:
  assumes "0 \<le> base" "base < 2 ^ 53" "0 \<le> r1" "r1 < 1000000" "0 \<le> r2" "r2 < 1000000"
  shows "ids_below (2 ^ 80) (wl_ctx_start base r1 r2)"
  using assms by (simp add: ids_below_def wl_ctx_start_def below_def)

section \<open>The contract and the run beside it\<close>

text \<open>
  \<open>permit\<close> of the contract: the signature is over the nonce it was made for, so it recovers the owner only
  when that is the counter of the owner. \<open>None\<close> is the revert, which leaves the counter alone.
\<close>

definition permit_call :: "int \<Rightarrow> string \<Rightarrow> int \<Rightarrow> (string \<Rightarrow> int) \<Rightarrow> (string \<Rightarrow> int) option" where
  "permit_call now f signed nonces = (if DEADLINE < now then None
     else if nonces f = signed then Some (nonces(f := nonces f + 1)) else None)"

text \<open>The nonce that the builder of a permit signs.\<close>

definition signed_nonce :: "wl_ctx \<Rightarrow> string \<Rightarrow> int" where
  "signed_nonce c f = (case permitNonce c f of None \<Rightarrow> 0 | Some n \<Rightarrow> n)"

text \<open>
  The world: the state of the workloads, the counters of the contract, the permits under way (owner,
  spender, signed nonce), those that were given up but may still be mined, the owners whose counter has not been
  read again since a failure, the reads under way, whether the tracked permits were mined with a good nonce, and
  whether the run is orderly. It is as long as no permit is built for an owner in \<open>pw_stale\<close>, every read is
  answered with the counter of the moment it is answered and for an owner in \<open>pw_stale\<close> (no lagging node, no
  read left over from an earlier failure), and no given-up permit is mined for an owner outside of it.
\<close>

record permit_world =
  pw_ctx :: wl_ctx
  pw_nonces :: "string \<Rightarrow> int"
  pw_flying :: "(string \<times> string \<times> int) list"
  pw_late :: "(string \<times> string \<times> int) list"
  pw_stale :: "string set"
  pw_reads :: "string list"
  pw_log :: "bool list"
  pw_orderly :: bool

definition permit_start :: "wl_ctx \<Rightarrow> (string \<Rightarrow> int option) \<Rightarrow> string list \<Rightarrow> (string \<Rightarrow> int) \<Rightarrow> permit_world" where
  "permit_start c read ws nonces = \<lparr>pw_ctx = init_permits read ws c, pw_nonces = nonces, pw_flying = [], pw_late = [],
     pw_stale = {f \<in> set ws. read f = None}, pw_reads = filter (\<lambda>f. read f = None) ws, pw_log = [], pw_orderly = True\<rparr>"

text \<open>An owner is freed at once, and a read of the counter starts.\<close>

definition permit_failed :: "string \<Rightarrow> wl_ctx \<Rightarrow> permit_world \<Rightarrow> permit_world" where
  "permit_failed f c w = w\<lparr>pw_ctx := c, pw_stale := insert f (pw_stale w), pw_reads := f # pw_reads w\<rparr>"

text \<open>
  The events: another operation is built, another effect is applied; a permit is built and submitted, or
  built and refused; a permit is mined (with a good nonce, with a bad one, or it fails for another reason);
  it is given up and lost, or given up and mined later; a read of the counter is answered by no provider, or by
  one, with whatever number that node has. At the start the counters that could be read are those of the contract.
\<close>

inductive permit_run :: "wl_env \<Rightarrow> string list \<Rightarrow> permit_world \<Rightarrow> bool" for e ws where
  pr_start: "(\<And>f n. f \<in> set ws \<Longrightarrow> read f = Some n \<Longrightarrow> n = nonces f) \<Longrightarrow>
    permit_run e ws (permit_start (wl_ctx_start base r1 r2) read ws nonces)"
| pr_other: "permit_run e ws w \<Longrightarrow> k \<noteq> PermitOp \<Longrightarrow> permit_run e ws (w\<lparr>pw_ctx := snd (build e rnd now k f (pw_ctx w))\<rparr>)"
| pr_effect: "permit_run e ws w \<Longrightarrow> (\<And>f s. eff \<noteq> Permit f s) \<Longrightarrow> permit_run e ws (w\<lparr>pw_ctx := resolve_effect e n now ok eff (pw_ctx w)\<rparr>)"
| pr_sent: "permit_run e ws w \<Longrightarrow> f \<in> set ws \<Longrightarrow> build e rnd now PermitOp f (pw_ctx w) = (Some (r, Permit f s), c) \<Longrightarrow>
    permit_run e ws (w\<lparr>pw_ctx := c, pw_flying := (f, s, signed_nonce (pw_ctx w) f) # pw_flying w,
      pw_orderly := (pw_orderly w \<and> f \<notin> pw_stale w)\<rparr>)"
| pr_refused: "permit_run e ws w \<Longrightarrow> f \<in> set ws \<Longrightarrow> build e rnd now PermitOp f (pw_ctx w) = (Some (r, Permit f s), c) \<Longrightarrow>
    permit_run e ws (permit_failed f (c\<lparr>permitInFlight := (permitInFlight c)(f := False)\<rparr>) w\<lparr>pw_orderly := (pw_orderly w \<and> f \<notin> pw_stale w)\<rparr>)"
| pr_mined: "permit_run e ws w \<Longrightarrow> pw_flying w = xs @ (f, s, n) # ys \<Longrightarrow> permit_call t f n (pw_nonces w) = Some nonces \<Longrightarrow>
    permit_run e ws (w\<lparr>pw_ctx := resolve_effect e m now True (Permit f s) (pw_ctx w), pw_nonces := nonces,
      pw_flying := xs @ ys, pw_log := True # pw_log w\<rparr>)"
| pr_reverted: "permit_run e ws w \<Longrightarrow> pw_flying w = xs @ (f, s, n) # ys \<Longrightarrow>
    permit_run e ws (permit_failed f (resolve_effect e m now False (Permit f s) (pw_ctx w)) w
      \<lparr>pw_flying := xs @ ys, pw_log := (pw_nonces w f = n) # pw_log w\<rparr>)"
| pr_lost: "permit_run e ws w \<Longrightarrow> pw_flying w = xs @ (f, s, n) # ys \<Longrightarrow>
    permit_run e ws (permit_failed f (resolve_effect e m now False (Permit f s) (pw_ctx w)) w\<lparr>pw_flying := xs @ ys\<rparr>)"
| pr_given_up: "permit_run e ws w \<Longrightarrow> pw_flying w = xs @ (f, s, n) # ys \<Longrightarrow>
    permit_run e ws (permit_failed f (resolve_effect e m now False (Permit f s) (pw_ctx w)) w
      \<lparr>pw_flying := xs @ ys, pw_late := (f, s, n) # pw_late w\<rparr>)"
| pr_late: "permit_run e ws w \<Longrightarrow> pw_late w = xs @ (f, s, n) # ys \<Longrightarrow>
    permit_run e ws (w\<lparr>pw_late := xs @ ys,
      pw_nonces := (case permit_call t f n (pw_nonces w) of Some nonces \<Rightarrow> nonces | None \<Rightarrow> pw_nonces w),
      pw_orderly := (pw_orderly w \<and> f \<in> pw_stale w)\<rparr>)"
| pr_unanswered: "permit_run e ws w \<Longrightarrow> pw_reads w = xs @ f # ys \<Longrightarrow>
    permit_run e ws (w\<lparr>pw_ctx := resyncPermitNonce f None (pw_ctx w), pw_reads := xs @ ys\<rparr>)"
| pr_answer: "permit_run e ws w \<Longrightarrow> pw_reads w = xs @ f # ys \<Longrightarrow>
    permit_run e ws (w\<lparr>pw_ctx := resyncPermitNonce f (Some v) (pw_ctx w), pw_stale := pw_stale w - {f}, pw_reads := xs @ ys,
      pw_orderly := (pw_orderly w \<and> f \<in> pw_stale w \<and> v = pw_nonces w f)\<rparr>)"

section \<open>What leaves the nonces alone\<close>

definition permit_view :: "wl_ctx \<Rightarrow> (string \<Rightarrow> int option) \<times> (string \<Rightarrow> bool)" where
  "permit_view c = (permitNonce c, permitInFlight c)"

lemma helper_permit_view:
  "permit_view (snd (debit k f r c)) = permit_view c" "permit_view (snd (take_owned q f g c)) = permit_view c"
  "permit_view (snd (call_child j f d c)) = permit_view c" "permit_view (snd (on_auction P u h c)) = permit_view c"
  "permit_view (snd (on_proposal P' u' h' c)) = permit_view c" "permit_view (snd (ready r' eff c)) = permit_view c"
  by (auto simp: helper_defs permit_view_def split: list.split option.split)

lemmas helper_permit = helper_permit_view [unfolded permit_view_def prod.inject]

lemma build_permit_view:
  "k \<noteq> PermitOp \<Longrightarrow> permit_view (snd (build e rnd now k f c)) = permit_view c"
  by (cases k) (simp_all add: helper_permit ready_def Let_def permit_view_def split: prod.split option.split list.split)

lemma effect_permit_view:
  "(\<And>f s. eff \<noteq> Permit f s) \<Longrightarrow> permit_view (resolve_effect e n now ok eff c) = permit_view c"
  by (cases eff) (auto simp: resolve_effect_def push_owned_def permit_view_def split: prod.split)

lemma resolve_permit_view:
  "permit_view (resolve_effect e n now ok (Permit f s) c) = (permitNonce c, (permitInFlight c)(f := False))"
  by (simp add: resolve_effect_def permit_view_def Let_def)

lemma unanswered_permit_view: "resyncPermitNonce f None c = c"
  by (simp add: resyncPermitNonce_def)

lemma resync_permit_view:
  "permit_view (resyncPermitNonce f (Some n) c) = ((permitNonce c)(f := Some n), (permitInFlight c)(f := False))"
  by (simp add: resyncPermitNonce_def permit_view_def)

text \<open>A permit is built for a free owner, is signed with its \<open>signed_nonce\<close>, and takes the owner.\<close>

lemma build_permit:
  assumes "build e rnd now PermitOp f c = (Some (r, Permit f s), c')"
  shows "\<not> permitInFlight c f" "permit_view c' = ((permitNonce c)(f := Some (signed_nonce c f + 1)), (permitInFlight c)(f := True))"
    "rq_data r = Call ''permit'' ''permit'' ([Addr f, Addr s, Num PERMIT_VALUE, Num DEADLINE] @ permit_sig e f s (signed_nonce c f))"
  using assms by (auto simp: ready_def tx_def Let_def permit_view_def signed_nonce_def split: if_splits)

section \<open>Permits carry the counter of the contract\<close>

text \<open>The invariant of an orderly run, on what the run believes (\<open>pn\<close>, \<open>fl\<close>).\<close>

definition permits_ok :: "string list \<Rightarrow> (string \<Rightarrow> int option) \<times> (string \<Rightarrow> bool) \<Rightarrow> (string \<Rightarrow> int) \<Rightarrow> (string \<times> string \<times> int) list \<Rightarrow> string set \<Rightarrow> bool" where
  "permits_ok ws v nonces sent stale = (distinct (map fst sent) \<and>
     (\<forall>f s n. (f, s, n) \<in> set sent \<longrightarrow> f \<in> set ws \<and> f \<notin> stale \<and> n = nonces f \<and> snd v f \<and> fst v f = Some (n + 1)) \<and>
     (\<forall>f \<in> set ws. f \<notin> stale \<longrightarrow> f \<notin> fst ` set sent \<longrightarrow> \<not> snd v f \<and> fst v f = Some (nonces f)))"

definition permits_inv :: "string list \<Rightarrow> permit_world \<Rightarrow> bool" where
  "permits_inv ws w = (False \<notin> set (pw_log w) \<and>
     permits_ok ws (permit_view (pw_ctx w)) (pw_nonces w) (pw_flying w) (pw_stale w))"

text \<open>A permit leaves the list, and its owner is not in the rest of it.\<close>

lemma permits_ok_split:
  assumes "permits_ok ws v nonces (xs @ (f, s, n) # ys) stale"
  shows "nonces f = n" "f \<in> set ws" "f \<notin> stale" "fst v f = Some (n + 1)" "distinct (map fst (xs @ ys))" "f \<notin> fst ` set (xs @ ys)"
  using assms by (auto simp: permits_ok_def)

lemma permits_ok_rest:
  assumes "permits_ok ws v nonces (xs @ p # ys) stale" "(g, s, n) \<in> set (xs @ ys)"
  shows "g \<in> set ws" "g \<notin> stale" "n = nonces g" "snd v g" "fst v g = Some (n + 1)"
  using assms by (auto simp: permits_ok_def)

lemma permits_ok_idle:
  "permits_ok ws v nonces sent stale \<Longrightarrow> g \<in> set ws \<Longrightarrow> g \<notin> stale \<Longrightarrow> g \<notin> fst ` set sent \<Longrightarrow> \<not> snd v g \<and> fst v g = Some (nonces g)"
  by (simp add: permits_ok_def)

lemma permits_ok_failed:
  assumes "permits_ok ws (pn, fl) nonces (xs @ (f, s, n) # ys) stale"
  shows "permits_ok ws (pn, fl(f := False)) nonces (xs @ ys) (insert f stale)"
proof -
  have "g \<noteq> f" if "(g, s', n') \<in> set (xs @ ys)" for g s' n' using permits_ok_split(6) [OF assms] that by force
  then show ?thesis
    using permits_ok_split(5) [OF assms] permits_ok_rest [OF assms] permits_ok_idle [OF assms]
    unfolding permits_ok_def [of _ _ _ "xs @ ys"] by auto
qed

lemma permits_ok_mined:
  assumes "permits_ok ws (pn, fl) nonces (xs @ (f, s, n) # ys) stale"
  shows "permits_ok ws (pn, fl(f := False)) (nonces(f := nonces f + 1)) (xs @ ys) stale"
proof -
  have "g \<noteq> f" if "(g, s', n') \<in> set (xs @ ys)" for g s' n' using permits_ok_split(6) [OF assms] that by force
  then show ?thesis
    using permits_ok_split [OF assms] permits_ok_rest [OF assms] permits_ok_idle [OF assms]
    unfolding permits_ok_def [of _ _ _ "xs @ ys"] by auto
qed

lemma permits_ok_free:
  assumes "permits_ok ws (pn, fl) nonces sent stale" "f \<in> set ws" "f \<notin> stale" "\<not> fl f"
  shows "f \<notin> fst ` set sent" "pn f = Some (nonces f)"
proof -
  show idle: "f \<notin> fst ` set sent" using assms(1,4) unfolding permits_ok_def by auto
  show "pn f = Some (nonces f)" using permits_ok_idle [OF assms(1-3) idle] by simp
qed

lemma permits_ok_sent:
  assumes "permits_ok ws (pn, fl) nonces sent stale" "f \<in> set ws" "f \<notin> stale" "\<not> fl f"
  shows "permits_ok ws (pn(f := Some (nonces f + 1)), fl(f := True)) nonces ((f, s, nonces f) # sent) stale"
  using assms permits_ok_free [OF assms] unfolding permits_ok_def by auto

lemma permits_ok_stale:
  assumes "permits_ok ws (pn, fl) nonces sent stale" "f \<notin> fst ` set sent" "stale - {f} \<subseteq> stale'" "f \<in> stale' \<or> x = Some (nonces f)"
    "stale' \<subseteq> insert f stale"
  shows "permits_ok ws (pn(f := x), fl(f := False)) nonces sent stale'"
proof -
  have "g \<noteq> f \<and> g \<notin> stale" if "(g, s', n') \<in> set sent" for g s' n'
    using assms(1,2) that unfolding permits_ok_def by force
  then have "g \<noteq> f \<and> g \<notin> stale'" if "(g, s', n') \<in> set sent" for g s' n' using assms(5) that by blast
  with assms show ?thesis unfolding permits_ok_def by auto
qed

lemma permits_ok_answer:
  assumes "permits_ok ws (pn, fl) nonces sent stale" "f \<in> stale"
  shows "permits_ok ws (pn(f := Some (nonces f)), fl(f := False)) nonces sent (stale - {f})"
proof -
  have "f \<notin> fst ` set sent" using assms unfolding permits_ok_def by auto
  then show ?thesis by (intro permits_ok_stale [OF assms(1)]) auto
qed

text \<open>A late permit moves the counter of an owner that has to be read again.\<close>

lemma permits_ok_late:
  assumes "permits_ok ws v nonces sent stale" "f \<in> stale"
  shows "permits_ok ws v (nonces(f := k)) sent stale"
  using assms unfolding permits_ok_def by fastforce

lemma permits_invD:
  "permits_inv ws w \<Longrightarrow> permits_ok ws (permitNonce (pw_ctx w), permitInFlight (pw_ctx w)) (pw_nonces w) (pw_flying w) (pw_stale w)"
  by (simp add: permits_inv_def permit_view_def)

lemma permits_inv_run: "permit_run e ws w \<Longrightarrow> pw_orderly w \<Longrightarrow> permits_inv ws w"
proof (induction rule: permit_run.induct)
  case (pr_start read nonces base r1 r2)
  then have "permits_ok ws (permit_view (init_permits read ws (wl_ctx_start base r1 r2))) nonces [] {f \<in> set ws. read f = None}"
    by (auto simp: permits_ok_def permit_view_def init_permits_nonce init_permits_in_flight wl_ctx_start_def)
  then show ?case by (simp add: permits_inv_def permit_start_def)
next
  case (pr_sent w f rnd now r s c)
  note b = build_permit [OF pr_sent.hyps(3)]
  have i: "permits_inv ws w" "f \<notin> pw_stale w" using pr_sent by simp_all
  note free = permits_invD [OF i(1)] pr_sent.hyps(2) i(2) b(1)
  show ?case using i(1) b(2) permits_ok_sent [OF free] permits_ok_free [OF free]
    by (simp add: permits_inv_def signed_nonce_def)
next
  case (pr_refused w f rnd now r s c)
  note b = build_permit [OF pr_refused.hyps(3)]
  have i: "permits_inv ws w" "f \<notin> pw_stale w" using pr_refused by simp_all
  note free = permits_invD [OF i(1)] pr_refused.hyps(2) i(2) b(1)
  have "permits_ok ws ((permitNonce (pw_ctx w))(f := Some (signed_nonce (pw_ctx w) f + 1)), (permitInFlight (pw_ctx w))(f := False))
      (pw_nonces w) (pw_flying w) (insert f (pw_stale w))"
    by (rule permits_ok_stale [OF free(1) permits_ok_free(1) [OF free]]) auto
  then show ?case using i(1) b(2) by (simp add: permits_inv_def permit_failed_def permit_view_def)
next
  case (pr_mined w xs f s n ys t nonces m now)
  then have i: "permits_inv ws w" and n: "nonces = (pw_nonces w)(f := pw_nonces w f + 1)"
    by (auto simp: permit_call_def split: if_splits)
  from permits_ok_mined [OF permits_invD [OF i, unfolded pr_mined.hyps(2)]] i show ?case
    by (simp add: permits_inv_def resolve_permit_view n)
next
  case (pr_reverted w xs f s n ys m now)
  then have i: "permits_inv ws w" by (simp add: permit_failed_def)
  note d = permits_invD [OF i, unfolded pr_reverted.hyps(2)]
  from permits_ok_failed [OF d] permits_ok_split(1) [OF d] i show ?case
    by (simp add: permits_inv_def permit_failed_def resolve_permit_view)
next
  case (pr_lost w xs f s n ys m now)
  then have i: "permits_inv ws w" by (simp add: permit_failed_def)
  from permits_ok_failed [OF permits_invD [OF i, unfolded pr_lost.hyps(2)]] i show ?case
    by (simp add: permits_inv_def permit_failed_def resolve_permit_view)
next
  case (pr_given_up w xs f s n ys m now)
  then have i: "permits_inv ws w" by (simp add: permit_failed_def)
  from permits_ok_failed [OF permits_invD [OF i, unfolded pr_given_up.hyps(2)]] i show ?case
    by (simp add: permits_inv_def permit_failed_def resolve_permit_view)
next
  case (pr_late w xs f s n ys t)
  then have i: "permits_inv ws w" "f \<in> pw_stale w" by simp_all
  from permits_ok_late [OF permits_invD [OF i(1)] i(2)] i(1) show ?case
    by (auto simp: permits_inv_def permit_view_def permit_call_def)
next
  case (pr_answer w xs f ys v)
  then have i: "permits_inv ws w" "f \<in> pw_stale w" "v = pw_nonces w f" by simp_all
  from permits_ok_answer [OF permits_invD [OF i(1)] i(2)] i show ?case
    by (simp add: permits_inv_def resync_permit_view)
qed (simp_all add: permits_inv_def build_permit_view effect_permit_view unanswered_permit_view)

text \<open>
  C25. Every permit under way was signed with the counter of its owner, of which it is the only one, and every
  permit that was mined or reverted while the run waited for it had the right nonce, whatever failed in between, as
  long as (1) no permit is built for an owner between a failure and the answer of the read that follows it, (2) that
  answer is the counter of the contract at the time it comes, and (3) no permit that was given up is mined after it.
\<close>

theorem permits_carry_chain_nonce:
  assumes "permit_run e ws w" "pw_orderly w"
  shows "(\<forall>(f, s, n) \<in> set (pw_flying w). n = pw_nonces w f) \<and> distinct (map fst (pw_flying w)) \<and> False \<notin> set (pw_log w)"
  using permits_inv_run [OF assms] unfolding permits_inv_def permits_ok_def by auto

section \<open>Runs\<close>

lemma permit_built:
  "\<not> permitInFlight c f \<Longrightarrow> \<exists>r s. build e rnd now PermitOp f c = (Some (r, Permit f s),
    c\<lparr>permitNonce := (permitNonce c)(f := Some (signed_nonce c f + 1)), permitInFlight := (permitInFlight c)(f := True)\<rparr>)"
  by (simp add: ready_def Let_def signed_nonce_def)

text \<open>The events of one wallet whose counter could be read.\<close>

lemma permit_run_one:
  "permit_run e [f] (permit_start (wl_ctx_start base r1 r2) (\<lambda>_. Some (nonces f)) [f] nonces)"
  by (rule pr_start) simp

text \<open>
  An owner is freed before its counter is read again. A permit that is built in between is signed with the
  number after the refused one, and reverts.
\<close>

lemma permit_after_refusal_reverts:
  "\<exists>w. permit_run e [f] w \<and> pw_log w = [False]"
proof -
  let ?w0 = "permit_start (wl_ctx_start 0 0 0) (\<lambda>_. Some 0) [f] (\<lambda>_. 0)"
  have 0: "permit_run e [f] ?w0" using permit_run_one [of e f 0 0 0 "\<lambda>_. 0"] by simp
  have v0: "\<not> permitInFlight (pw_ctx ?w0) f" "permitNonce (pw_ctx ?w0) f = Some 0" "pw_nonces ?w0 = (\<lambda>_. 0)" "pw_flying ?w0 = []" "pw_log ?w0 = []"
    by (simp_all add: permit_start_def init_permits_nonce init_permits_in_flight wl_ctx_start_def)
  obtain r s where b0: "build e (\<lambda>_. 0) 0 PermitOp f (pw_ctx ?w0) = (Some (r, Permit f s), (pw_ctx ?w0)
      \<lparr>permitNonce := (permitNonce (pw_ctx ?w0))(f := Some 1), permitInFlight := (permitInFlight (pw_ctx ?w0))(f := True)\<rparr>)"
    using permit_built [OF v0(1), of e "\<lambda>_. 0" 0] v0(2) by (auto simp: signed_nonce_def)
  obtain w1 where 1: "permit_run e [f] w1" "\<not> permitInFlight (pw_ctx w1) f" "permitNonce (pw_ctx w1) f = Some 1" "pw_nonces w1 = (\<lambda>_. 0)"
      "pw_flying w1 = []" "pw_log w1 = []"
    using pr_refused [OF 0 _ b0] v0(3-5) by (auto simp: permit_failed_def)
  obtain r1 s1 where b1: "build e (\<lambda>_. 0) 0 PermitOp f (pw_ctx w1) = (Some (r1, Permit f s1), (pw_ctx w1)
      \<lparr>permitNonce := (permitNonce (pw_ctx w1))(f := Some 2), permitInFlight := (permitInFlight (pw_ctx w1))(f := True)\<rparr>)"
    using permit_built [OF 1(2), of e "\<lambda>_. 0" 0] 1(3) by (auto simp: signed_nonce_def)
  obtain w2 where 2: "permit_run e [f] w2" "pw_flying w2 = [] @ (f, s1, 1) # []" "pw_nonces w2 f = 0" "pw_log w2 = []"
    using pr_sent [OF 1(1) _ b1] 1(3-6) by (auto simp: signed_nonce_def)
  show ?thesis using pr_reverted [OF 2(1,2), of 0 0] 2(3,4) by (intro exI conjI) (assumption, simp add: permit_failed_def)
qed

text \<open>
  A permit that is given up and mined after the counter has been read again takes the nonce of the next one, which
  was signed with the same number and reverts.
\<close>

lemma late_permit_reverts_next:
  "\<exists>w. permit_run e [f] w \<and> pw_log w = [False] \<and> pw_nonces w f = 1"
proof -
  let ?w0 = "permit_start (wl_ctx_start 0 0 0) (\<lambda>_. Some 0) [f] (\<lambda>_. 0)"
  have 0: "permit_run e [f] ?w0" using permit_run_one [of e f 0 0 0 "\<lambda>_. 0"] by simp
  have v0: "\<not> permitInFlight (pw_ctx ?w0) f" "permitNonce (pw_ctx ?w0) f = Some 0" "pw_nonces ?w0 = (\<lambda>_. 0)" "pw_flying ?w0 = []"
      "pw_log ?w0 = []" "pw_late ?w0 = []" "pw_reads ?w0 = []"
    by (simp_all add: permit_start_def init_permits_nonce init_permits_in_flight wl_ctx_start_def)
  obtain r s c where b0: "build e (\<lambda>_. 0) 0 PermitOp f (pw_ctx ?w0) = (Some (r, Permit f s), c)"
    using permit_built [OF v0(1), of e "\<lambda>_. 0" 0] by blast
  obtain w1 where 1: "permit_run e [f] w1" "pw_flying w1 = [] @ (f, s, 0) # []" "pw_nonces w1 = (\<lambda>_. 0)" "pw_log w1 = []" "pw_late w1 = []"
      "pw_reads w1 = []"
    using pr_sent [OF 0 _ b0] v0 by (auto simp: signed_nonce_def)
  obtain w2 where 2: "permit_run e [f] w2" "pw_flying w2 = []" "pw_late w2 = [(f, s, 0)]" "pw_nonces w2 = (\<lambda>_. 0)" "pw_log w2 = []"
      "pw_reads w2 = [] @ f # []"
    using pr_given_up [OF 1(1,2), of 0 0] 1(3-6) by (auto simp: permit_failed_def)
  obtain w3 where 3: "permit_run e [f] w3" "pw_flying w3 = []" "pw_late w3 = [] @ (f, s, 0) # []" "pw_nonces w3 = (\<lambda>_. 0)" "pw_log w3 = []"
      "permitNonce (pw_ctx w3) f = Some 0" "\<not> permitInFlight (pw_ctx w3) f"
    using pr_answer [OF 2(1,6), of 0] 2(2-5) by (auto simp: resyncPermitNonce_def)
  obtain r' s' c' where b1: "build e (\<lambda>_. 0) 0 PermitOp f (pw_ctx w3) = (Some (r', Permit f s'), c')"
    using permit_built [OF 3(7), of e "\<lambda>_. 0" 0] by blast
  obtain w4 where 4: "permit_run e [f] w4" "pw_flying w4 = [] @ (f, s', 0) # []" "pw_late w4 = [] @ (f, s, 0) # []" "pw_nonces w4 = (\<lambda>_. 0)"
      "pw_log w4 = []"
    using pr_sent [OF 3(1) _ b1] 3(2-6) by (auto simp: signed_nonce_def)
  have "permit_call 0 f 0 (pw_nonces w4) = Some ((\<lambda>_. 0)(f := 1))" by (simp add: permit_call_def 4(4) DEADLINE_def)
  then obtain w5 where 5: "permit_run e [f] w5" "pw_flying w5 = [] @ (f, s', 0) # []" "pw_nonces w5 f = 1" "pw_log w5 = []"
    using pr_late [OF 4(1,3), of 0] 4(2,5) by auto
  show ?thesis using pr_reverted [OF 5(1,2), of 0 0] 5(3,4) by (intro exI conjI) (assumption, simp_all add: permit_failed_def)
qed

theorem permits_carry_chain_nonce_witness:
  "\<exists>w f s. permit_run typed_env [''a''] w \<and> pw_flying w = [(f, s, 7)] \<and> pw_nonces w f = 7"
proof -
  let ?w0 = "permit_start (wl_ctx_start 0 0 0) (\<lambda>_. Some 7) [''a''] (\<lambda>_. 7)"
  have 0: "permit_run typed_env [''a''] ?w0" using permit_run_one [of typed_env "''a''" 0 0 0 "\<lambda>_. 7"] by simp
  have v0: "\<not> permitInFlight (pw_ctx ?w0) ''a''" "permitNonce (pw_ctx ?w0) ''a'' = Some 7" "pw_flying ?w0 = []" "pw_orderly ?w0" "pw_stale ?w0 = {}"
    by (simp_all add: permit_start_def init_permits_nonce init_permits_in_flight wl_ctx_start_def)
  obtain r s c where b0: "build typed_env (\<lambda>_. 0) 0 PermitOp ''a'' (pw_ctx ?w0) = (Some (r, Permit ''a'' s), c)"
    using permit_built [OF v0(1), of typed_env "\<lambda>_. 0" 0] by auto
  let ?w1 = "?w0\<lparr>pw_ctx := c, pw_flying := [(''a'', s, 7)]\<rparr>"
  have 1: "permit_run typed_env [''a''] ?w1"
    using pr_sent [OF 0 _ b0] v0 by (simp add: signed_nonce_def permit_start_def)
  have "pw_nonces ?w1 ''a'' = 7" using permits_carry_chain_nonce [OF 1] v0(4) by simp
  with 1 show ?thesis by (intro exI [of _ ?w1] exI [of _ "''a''"] exI [of _ s]) simp
qed

end
