(* ===== verification/Deploy_Suite.thy ===== *)
theory Deploy_Suite
  imports Workload_Build
begin

text \<open>
  The deployment of the contracts of the endurance run, endurance/scripts/01-deploy-suite.mjs, with the artifacts of
  build-artifacts.mjs; the interfaces that scripts/run.js encodes calls with; and the functions of the contracts,
  endurance/contracts/src. The property is that every request of the workloads goes to a contract that was
  deployed with a function that takes it.
\<close>

section \<open>Artifacts and the suite\<close>

text \<open>The contracts that are compiled, with their files.\<close>

definition ARTIFACTS :: "(string \<times> string) list" where
  "ARTIFACTS = [(''EndERC20'', ''Tokens.sol''), (''EndERC721'', ''Tokens.sol''), (''EndERC1155'', ''Tokens.sol''), (''EcoRegistry'',
     ''Ecosystem.sol''), (''EcoToken'', ''Ecosystem.sol''), (''EcoBank'', ''Ecosystem.sol''), (''Diamond'', ''Diamond.sol''), (''CounterFacet'',
     ''Diamond.sol''), (''RegistryFacet'', ''Diamond.sol''), (''LoupeFacet'', ''Diamond.sol''), (''ChildCounter'', ''Factory.sol''),
     (''MiniFactory'', ''Factory.sol''), (''EnduranceMarket'', ''Market.sol''), (''EnduranceStaking'', ''Staking.sol''), (''Pinger'', ''Batch.sol''),
     (''Workbench'', ''Batch.sol''), (''BatchExecutor'', ''Batch.sol''), (''CloneTarget'', ''Clones.sol''), (''CloneFactory'', ''Clones.sol''),
     (''MiniVault'', ''DeFi.sol''), (''RewardStaking'', ''DeFi.sol''), (''AuctionHouse'', ''Auctions.sol''), (''BatchMintNFT'', ''NftExtras.sol''),
     (''NftStaking'', ''NftExtras.sol''), (''RoyaltyNFT'', ''NftExtras.sol''), (''RoyaltyMarket'', ''NftExtras.sol''), (''MiniGov'',
     ''Governance.sol''), (''GovTarget'', ''Governance.sol''), (''HopA'', ''Composite.sol''), (''HopB'', ''Composite.sol''), (''HopC'',
     ''Composite.sol''), (''HopD'', ''Composite.sol''), (''HopE'', ''Composite.sol''), (''Disperse'', ''Composite.sol''), (''EventsHeavy'',
     ''Composite.sol''), (''PermitToken'', ''SignedFlows.sol''), (''VoucherMinter'', ''SignedFlows.sol''), (''FeeOnTransferToken'',
     ''EdgeTokens.sol''), (''RebasingToken'', ''EdgeTokens.sol'')]"

text \<open>
  The arguments of a constructor: a text, the address of an earlier contract, the deployer, or the cuts of the
  diamond (a facet and functions of it).
\<close>

datatype deploy_arg = ArgText string | ArgVar string | ArgDeployer | ArgCuts "(string \<times> string list) list"

datatype suite_step = Deploy string string "deploy_arg list" | SetToken string string | ReadHash string

definition DIAMOND_CUTS :: "(string \<times> string list) list" where
  "DIAMOND_CUTS = [(''counterFacet'', [''increment'', ''counter'']),
     (''registryFacet'', [''setEntry'', ''entryOf'', ''pingsOf'', ''totalPings'']),
     (''loupeFacet'', [''facetForSelector'', ''allSelectors'', ''diamondOwner''])]"

definition SUITE :: "suite_step list" where

       "SUITE = [Deploy ''tka'' ''EndERC20'' [ArgText ''Endurance Token A'', ArgText ''ETKA''], Deploy ''tkb'' ''EndERC20'' [ArgText ''Endurance Token B'', ArgText ''ETKB''], Deploy ''tkc'' ''EndERC20'' [ArgText ''Endurance Token C'', ArgText ''ETKC''],

          Deploy ''erc1155'' ''EndERC1155'' [], Deploy ''nft'' ''EndERC721'' [ArgText ''Endurance NFT'', ArgText ''ENFT''], Deploy ''marketNft'' ''EndERC721'' [ArgText ''Endurance Market NFT'', ArgText ''EMKT''],
     Deploy ''ecoRegistry'' ''EcoRegistry'' [], Deploy ''ecoToken'' ''EcoToken'' [ArgVar ''ecoRegistry''], Deploy ''ecoBank'' ''EcoBank'' [ArgVar ''ecoToken''],
     SetToken ''ecoRegistry'' ''ecoToken'', Deploy ''counterFacet'' ''CounterFacet'' [], Deploy ''registryFacet'' ''RegistryFacet'' [],
     Deploy ''loupeFacet'' ''LoupeFacet'' [], Deploy ''diamond'' ''Diamond'' [ArgCuts DIAMOND_CUTS, ArgDeployer], Deploy ''miniFactory'' ''MiniFactory'' [],
     ReadHash ''miniFactory'', Deploy ''market'' ''EnduranceMarket'' [ArgVar ''marketNft''], Deploy ''staking'' ''EnduranceStaking'' [ArgVar ''tka''],
     Deploy ''pinger'' ''Pinger'' [], Deploy ''workbench'' ''Workbench'' [], Deploy ''batch'' ''BatchExecutor'' [],

          Deploy ''feeToken'' ''FeeOnTransferToken'' [], Deploy ''rebaseToken'' ''RebasingToken'' [], Deploy ''npToken'' ''EndERC20'' [ArgText ''Native Pool Token'', ArgText ''ENPT''],

          Deploy ''permitToken'' ''PermitToken'' [], Deploy ''voucherMinter'' ''VoucherMinter'' [ArgDeployer], Deploy ''rewardToken'' ''EndERC20'' [ArgText ''Endurance Reward'', ArgText ''ERWD''],

          Deploy ''vault'' ''MiniVault'' [ArgVar ''tkb''], Deploy ''rewardStaking'' ''RewardStaking'' [ArgVar ''tkc'', ArgVar ''rewardToken''], Deploy ''cloneImpl'' ''CloneTarget'' [],

          Deploy ''cloneFactory'' ''CloneFactory'' [ArgVar ''cloneImpl''], ReadHash ''cloneFactory'', Deploy ''auctionNft'' ''EndERC721'' [ArgText ''Endurance Auction NFT'', ArgText ''EAUC''],

          Deploy ''auctionHouse'' ''AuctionHouse'' [ArgVar ''auctionNft''], Deploy ''batchNft'' ''BatchMintNFT'' [], Deploy ''nftStaking'' ''NftStaking'' [ArgVar ''batchNft'', ArgVar ''rewardToken''],
     Deploy ''royaltyNft'' ''RoyaltyNFT'' [], Deploy ''royaltyMarket'' ''RoyaltyMarket'' [ArgVar ''royaltyNft''], Deploy ''miniGov'' ''MiniGov'' [],
     Deploy ''govTarget'' ''GovTarget'' [], Deploy ''hopE'' ''HopE'' [], Deploy ''hopD'' ''HopD'' [ArgVar ''hopE''],
     Deploy ''hopC'' ''HopC'' [ArgVar ''hopD''], Deploy ''hopB'' ''HopB'' [ArgVar ''hopC''], Deploy ''hopA'' ''HopA'' [ArgVar ''hopB''],
     Deploy ''disperse'' ''Disperse'' [], Deploy ''eventsHeavy'' ''EventsHeavy'' []]"

text \<open>The contracts deployed so far: their variables with addresses, and the artifacts at the addresses.\<close>

record suite_state =
  su_vars :: "(string \<times> string) list"
  su_kinds :: "(string \<times> string) list"

definition arg_known :: "(string \<times> 'a) list \<Rightarrow> deploy_arg \<Rightarrow> bool" where
  "arg_known vars a = (case a of ArgVar v \<Rightarrow> map_of vars v \<noteq> None | ArgCuts cs \<Rightarrow> list_all (\<lambda>(v, fs). map_of vars v \<noteq> None) cs | _ \<Rightarrow> True)"

text \<open>What the chain answers to step \<open>i\<close>: the address of the new contract, or anything on success; \<open>None\<close> ends the script.\<close>

fun run_suite :: "(nat \<Rightarrow> string option) \<Rightarrow> nat \<Rightarrow> suite_step list \<Rightarrow> suite_state \<Rightarrow> suite_state option" where
  "run_suite ans i [] s = Some s"
| "run_suite ans i (Deploy v k args # ss) s = (if \<not> list_all (arg_known (su_vars s)) args \<or> map_of ARTIFACTS k = None then None
     else case ans i of None \<Rightarrow> None
       | Some a \<Rightarrow> run_suite ans (Suc i) ss (s\<lparr>su_vars := (v, a) # su_vars s, su_kinds := (a, k) # su_kinds s\<rparr>))"
| "run_suite ans i (SetToken r t # ss) s = (if \<not> list_all (arg_known (su_vars s)) [ArgVar r, ArgVar t] \<or> ans i = None then None else run_suite ans (Suc i) ss s)"
| "run_suite ans i (ReadHash v # ss) s = (if \<not> arg_known (su_vars s) (ArgVar v) \<or> ans i = None then None else run_suite ans (Suc i) ss s)"

definition suite_start :: suite_state where "suite_start = \<lparr>su_vars = [], su_kinds = []\<rparr>"

section \<open>The addresses that are written\<close>

definition LIVE :: "(string \<times> string) list" where
  "LIVE = [(''router'', ''0x49Da581bf5C09aE24312574D4835d416EE5eEfd5''), (''dexFactory'', ''0x15752A99d2e06d001F5d228AA158EbD687276DB4''),
     (''wgmb'', ''0x4A74DB9c9cE285960d01B53a626945DDd100e8d8''), (''faucet'', ''0x0147581e2351dD182edD651DFEfD955CB353f8aA''),
     (''nativePoolFactory'', ''0x92F048fDF7fB98F800C4cF3c78F779681A208a99'')]"

definition OUT_VARS :: "string list" where
  "OUT_VARS = [''tka'', ''tkb'', ''tkc'', ''erc1155'', ''nft'', ''marketNft'', ''ecoRegistry'', ''ecoToken'', ''ecoBank'', ''diamond'',
     ''counterFacet'', ''registryFacet'', ''loupeFacet'', ''miniFactory'', ''market'', ''staking'', ''pinger'', ''workbench'', ''batch'',
     ''feeToken'', ''rebaseToken'', ''npToken'', ''permitToken'', ''voucherMinter'', ''rewardToken'', ''vault'', ''rewardStaking'', ''cloneImpl'',
     ''cloneFactory'', ''auctionNft'', ''auctionHouse'', ''batchNft'', ''nftStaking'', ''royaltyNft'', ''royaltyMarket'', ''miniGov'', ''govTarget'',
     ''hopA'', ''disperse'', ''eventsHeavy'']"
text \<open>\<open>pool\<close> and \<open>pairs\<close> are what the factories answer.\<close>

definition deploy_addresses :: "suite_state \<Rightarrow> string \<Rightarrow> (string \<times> string) list \<Rightarrow> (string \<times> string) list" where
  "deploy_addresses s pool pairs = filter (\<lambda>(v, a). v \<in> set OUT_VARS) (su_vars s) @ [(''nativePool'', pool)] @ LIVE @ pairs"

section \<open>Liquidity\<close>

text \<open>What the founder does for the exchange; \<open>missing\<close> says that the native pool is not there yet.\<close>

datatype liq_op =
    LiqMint string int
  | LiqApprove string string
  | LiqAdd string string int
  | CreatePool string
  | LiqNative string int int

definition SEED_R :: int where "SEED_R = 10 ^ 26"
definition NP_TOK :: int where "NP_TOK = 10 ^ 23"
definition NP_NATIVE :: int where "NP_NATIVE = 10 ^ 20"

definition DEPLOY_PAIRS :: "(string \<times> string) list" where
  "DEPLOY_PAIRS = [(''tka'', ''tkb''), (''tkb'', ''tkc''), (''tka'', ''tkc''), (''feeToken'', ''tka''), (''rebaseToken'', ''tka'')]"

definition liquidity_ops :: "bool \<Rightarrow> liq_op list" where
  "liquidity_ops missing = concat (map (\<lambda>t. [LiqMint t (SEED_R * 5), LiqApprove t ''router'']) [''tka'', ''tkb'', ''tkc'', ''feeToken'', ''rebaseToken'']) @
     map (\<lambda>(x, y). LiqAdd x y SEED_R) DEPLOY_PAIRS @ (if missing then [CreatePool ''npToken''] else []) @
     [LiqMint ''npToken'' (NP_TOK * 5), LiqApprove ''npToken'' ''nativePool'', LiqNative ''npToken'' NP_TOK NP_NATIVE]"

text \<open>The founder's balances and approvals; \<open>None\<close> is a transfer that reverts.\<close>

fun liq_exec :: "(string \<Rightarrow> int) \<times> (string \<times> string) list \<Rightarrow> liq_op \<Rightarrow> ((string \<Rightarrow> int) \<times> (string \<times> string) list) option" where
  "liq_exec (b, ap) (LiqMint t n) = Some (b(t := b t + n), ap)"
| "liq_exec (b, ap) (LiqApprove t s) = Some (b, (t, s) # ap)"
| "liq_exec (b, ap) (LiqAdd x y r) = (if b x < r \<or> b y < r \<or> (x, ''router'') \<notin> set ap \<or> (y, ''router'') \<notin> set ap then None
     else Some (b(x := b x - r, y := b y - r), ap))"
| "liq_exec (b, ap) (CreatePool t) = Some (b, ap)"
| "liq_exec (b, ap) (LiqNative t n v) = (if b t < n \<or> (t, ''nativePool'') \<notin> set ap then None else Some (b(t := b t - n), ap))"

fun liq_run :: "(string \<Rightarrow> int) \<times> (string \<times> string) list \<Rightarrow> liq_op list \<Rightarrow> ((string \<Rightarrow> int) \<times> (string \<times> string) list) option" where
  "liq_run s [] = Some s"
| "liq_run s (x # xs) = (case liq_exec s x of None \<Rightarrow> None | Some t \<Rightarrow> liq_run t xs)"

section \<open>Functions of the contracts\<close>

datatype sol_type = TAddr | TUint nat | TBytes32 | TBytes4 | TBytes | TAddrs | TUints

text \<open>A contract with its functions: the types of the arguments, and whether it takes native coins.\<close>

type_synonym sig_table = "(string \<times> (string \<times> sol_type list \<times> bool) list) list"

definition sigs_tokens :: sig_table where
  "sigs_tokens = [(''EndERC20'', [(''mint'', [TAddr, TUint 256], False), (''approve'', [TAddr, TUint 256], False),
     (''transfer'', [TAddr, TUint 256], False), (''transferFrom'', [TAddr, TAddr, TUint 256], False)]),
     (''EndERC721'', [(''mint'', [TAddr, TUint 256], False), (''transferFrom'', [TAddr, TAddr, TUint 256], False)]),
     (''EndERC1155'', [(''mint'', [TAddr, TUint 256, TUint 256], False), (''safeTransferFrom'', [TAddr, TAddr, TUint 256, TUint 256, TBytes], False)])]"

definition sigs_diamond :: sig_table where
  "sigs_diamond = [(''CounterFacet'', [(''increment'', [], False), (''counter'', [], False)]),
     (''RegistryFacet'', [(''setEntry'', [TUint 256], False), (''entryOf'', [TAddr], False), (''pingsOf'', [TAddr], False), (''totalPings'', [], False)]),
     (''LoupeFacet'', [(''facetForSelector'', [TBytes4], False), (''allSelectors'', [], False), (''diamondOwner'', [], False)])]"

definition sigs_ecosystem :: sig_table where
  "sigs_ecosystem = [(''EcoBank'', [(''deposit'', [], True), (''withdraw'', [TUint 256], False)])]"

definition sigs_market :: sig_table where
  "sigs_market = [(''EnduranceMarket'', [(''list'', [TUint 256, TUint 96], False), (''buy'', [TUint 256], True)])]"

definition sigs_staking :: sig_table where
  "sigs_staking = [(''EnduranceStaking'', [(''stake'', [TUint 256], False), (''withdraw'', [TUint 256], False)])]"

definition sigs_batch :: sig_table where
  "sigs_batch = [(''BatchExecutor'', [(''pingMany'', [TAddr, TUint 256], False)]),
     (''Workbench'', [(''set'', [TUint 256, TUint 256], False), (''loop'', [TUint 256], False)])]"

definition sigs_factory :: sig_table where
  "sigs_factory = [(''MiniFactory'', [(''createChild'', [TUint 256], False)]),
     (''ChildCounter'', [(''bump'', [], False), (''setValue'', [TUint 256], False)])]"

definition sigs_clones :: sig_table where
  "sigs_clones = [(''CloneFactory'', [(''cloneDeterministic'', [TBytes32], False), (''cloneAndInit'', [TUint 256], False)]),
     (''CloneTarget'', [(''init'', [TAddr, TUint 256], False), (''ping'', [], False)])]"

definition sigs_defi :: sig_table where
  "sigs_defi = [(''MiniVault'', [(''deposit'', [TUint 256], False), (''mint'', [TUint 256], False), (''withdraw'', [TUint 256], False),
     (''redeem'', [TUint 256], False)]),
     (''RewardStaking'', [(''stake'', [TUint 256], False), (''claim'', [], False), (''unstake'', [TUint 256], False)])]"

definition sigs_auctions :: sig_table where
  "sigs_auctions = [(''AuctionHouse'', [(''createEnglish'', [TUint 256, TUint 96, TUint 64], False), (''bidEnglish'', [TUint 256], True),
     (''settleEnglish'', [TUint 256], False), (''createDutch'', [TUint 256, TUint 96, TUint 96, TUint 64], False),
     (''buyDutch'', [TUint 256], True)])]"

definition sigs_nfts :: sig_table where
  "sigs_nfts = [(''BatchMintNFT'', [(''mintBatch'', [TAddr, TUint 256, TUint 256], False)]),
     (''NftStaking'', [(''stake'', [TUint 256], False), (''unstake'', [TUint 256], False)]),
     (''RoyaltyNFT'', [(''mint'', [TAddr, TUint 256], False)]),
     (''RoyaltyMarket'', [(''list'', [TUint 256, TUint 96], False), (''cancel'', [TUint 256], False), (''buy'', [TUint 256], True)])]"

definition sigs_governance :: sig_table where
  "sigs_governance = [(''MiniGov'', [(''propose'', [TUint 256, TAddr], False), (''vote'', [TUint 256], False), (''queue'', [TUint 256], False),
     (''execute'', [TUint 256], False)])]"

definition sigs_composite :: sig_table where
  "sigs_composite = [(''HopA'', [(''run'', [], False), (''runWithCallback'', [], False)]),
     (''Disperse'', [(''disperseNative'', [TAddrs, TUints], True)]),
     (''EventsHeavy'', [(''emitMany'', [TUint 256], False)])]"

definition sigs_signed :: sig_table where
  "sigs_signed = [(''PermitToken'', [(''transferFrom'', [TAddr, TAddr, TUint 256], False),
     (''permit'', [TAddr, TAddr, TUint 256, TUint 256, TUint 8, TBytes32, TBytes32], False)]),
     (''VoucherMinter'', [(''redeem'', [TAddr, TUint 256, TUint 256, TUint 256, TUint 8, TBytes32, TBytes32], False)])]"

definition sigs_rebase :: sig_table where
  "sigs_rebase = [(''RebasingToken'', [(''rebase'', [TUint 256], False)])]"

definition sigs_live :: sig_table where
  "sigs_live = [(''wgmb'', [(''deposit'', [], True), (''withdraw'', [TUint 256], False)]),
     (''router'', [(''swapExactTokensForTokens'', [TUint 256, TUint 256, TAddrs, TAddr, TUint 256], False),
     (''swapExactTokensForTokensSupportingFeeOnTransferTokens'', [TUint 256, TUint 256, TAddrs, TAddr, TUint 256], False),
     (''addLiquidity'', [TAddr, TAddr, TUint 256, TUint 256, TUint 256, TUint 256, TAddr, TUint 256], False),
     (''removeLiquidity'', [TAddr, TAddr, TUint 256, TUint 256, TUint 256, TAddr, TUint 256], False)]),
     (''nativePool'', [(''addLiquidity'', [TUint 256, TUint 256, TUint 256, TAddr, TUint 256], True),
     (''removeLiquidity'', [TUint 256, TUint 256, TUint 256, TAddr, TUint 256], False),
     (''swapExactNativeForTokens'', [TUint 256, TAddr, TUint 256], True),
     (''swapExactTokensForNative'', [TUint 256, TUint 256, TAddr, TUint 256], False)])]"

definition SIGS :: sig_table where

       "SIGS = sigs_tokens @ sigs_diamond @ sigs_ecosystem @ sigs_market @ sigs_staking @ sigs_batch @ sigs_factory @ sigs_clones @ sigs_defi @ sigs_auctions @ sigs_nfts @ sigs_governance @ sigs_composite @ sigs_signed @ sigs_rebase @ sigs_live"


section \<open>Interfaces of the run\<close>

text \<open>The interface of a call, by name, with the contract whose functions it has.\<close>

definition IFACES :: "(string \<times> string) list" where
  "IFACES = [(''erc20'', ''EndERC20''), (''erc721'', ''EndERC721''), (''erc1155'', ''EndERC1155''), (''counter'', ''CounterFacet''), (''registry'',
     ''RegistryFacet''), (''ecoBank'', ''EcoBank''), (''market'', ''EnduranceMarket''), (''staking'', ''EnduranceStaking''), (''batch'',
     ''BatchExecutor''), (''workbench'', ''Workbench''), (''factory'', ''MiniFactory''), (''child'', ''ChildCounter''), (''cloneFactory'',
     ''CloneFactory''), (''cloneTarget'', ''CloneTarget''), (''vault'', ''MiniVault''), (''rewardStaking'', ''RewardStaking''), (''auctionHouse'',
     ''AuctionHouse''), (''batchNft'', ''BatchMintNFT''), (''nftStaking'', ''NftStaking''), (''royaltyNft'', ''RoyaltyNFT''), (''royaltyMarket'',
     ''RoyaltyMarket''), (''miniGov'', ''MiniGov''), (''hopA'', ''HopA''), (''disperse'', ''Disperse''), (''eventsHeavy'', ''EventsHeavy''),
     (''permit'', ''PermitToken''), (''voucher'', ''VoucherMinter''), (''rebase'', ''RebasingToken''), (''wgmb'', ''wgmb''), (''router'',
     ''router''), (''nativePool'', ''nativePool'')]"

text \<open>The range of a \<open>uint256\<close> is the subject of \<open>requests_well_typed\<close>; narrower numbers are checked here.\<close>

definition arg_fits :: "sol_type \<Rightarrow> call_arg \<Rightarrow> bool" where
  "arg_fits t a = (case (t, a) of (TAddr, Addr s) \<Rightarrow> True | (TUint w, Num n) \<Rightarrow> w = 256 \<or> (0 \<le> n \<and> n < 2 ^ w)
     | (TBytes32, Text s) \<Rightarrow> True | (TBytes, Text s) \<Rightarrow> True | (TAddrs, Addrs ss) \<Rightarrow> True | (TUints, Nums ns) \<Rightarrow> True | _ \<Rightarrow> False)"

definition function_of :: "string \<Rightarrow> string \<Rightarrow> (string \<times> sol_type list \<times> bool) option" where
  "function_of i fn = (case map_of IFACES i of None \<Rightarrow> None | Some k \<Rightarrow>
     (case map_of SIGS k of None \<Rightarrow> None | Some fs \<Rightarrow> map_option (Pair k) (map_of fs fn)))"

text \<open>A contract answers the functions of its artifact; the diamond those of its cuts.\<close>

definition cut_facets :: "(string \<times> string list) list" where
  "cut_facets = concat (map (\<lambda>st. case st of Deploy v k args \<Rightarrow> (case map_of DIAMOND_CUTS v of None \<Rightarrow> [] | Some fs \<Rightarrow> [(k, fs)]) | _ \<Rightarrow> []) SUITE)"

definition answers_to :: "string \<Rightarrow> string \<Rightarrow> string \<Rightarrow> bool" where
  "answers_to K k fn = (K = k \<or> (K = ''Diamond'' \<and> (case map_of cut_facets k of None \<Rightarrow> False | Some fs \<Rightarrow> fn \<in> set fs)))"

end
