(* ===== verification/Deploy_Properties.thy ===== *)
theory Deploy_Properties
  imports Deploy_Suite
begin

text \<open>
  The suite is wired correctly and always completes when the chain accepts it, and every request of the workloads
  calls a contract of it with arguments that the called function takes.
\<close>

section \<open>Wiring\<close>

text \<open>What a constructor expects: a text, an address, a contract of one of the given artifacts, or cuts.\<close>

datatype ctor_param = CText | CAddr | CContract "string list" | CCuts

definition CTORS :: "(string \<times> ctor_param list) list" where
  "CTORS = [(''EndERC20'', [CText, CText]), (''EndERC721'', [CText, CText]), (''EcoToken'', [CContract [''EcoRegistry'']]),
     (''EcoBank'', [CContract [''EcoToken'']]), (''Diamond'', [CCuts, CAddr]), (''EnduranceMarket'', [CContract [''EndERC721'']]),
     (''EnduranceStaking'', [CContract [''EndERC20'']]), (''VoucherMinter'', [CAddr]), (''MiniVault'', [CContract [''EndERC20'']]),
     (''RewardStaking'', [CContract [''EndERC20''], CContract [''EndERC20'']]), (''CloneFactory'', [CContract [''CloneTarget'']]),
     (''AuctionHouse'', [CContract [''EndERC721'']]), (''NftStaking'', [CContract [''BatchMintNFT''], CContract [''EndERC20'']]),
     (''RoyaltyMarket'', [CContract [''RoyaltyNFT'']]), (''HopD'', [CContract [''HopE'']]), (''HopC'', [CContract [''HopD'']]),
     (''HopB'', [CContract [''HopC'']]), (''HopA'', [CContract [''HopB'']])]"

text \<open>\<open>known\<close> are the variables so far with their artifacts.\<close>

definition has_function :: "string \<Rightarrow> string \<Rightarrow> bool" where
  "has_function k fn = (case map_of SIGS k of None \<Rightarrow> False | Some fs \<Rightarrow> map_of fs fn \<noteq> None)"

definition ctor_arg_fits :: "(string \<times> string) list \<Rightarrow> ctor_param \<Rightarrow> deploy_arg \<Rightarrow> bool" where
  "ctor_arg_fits known p a = (case (p, a) of (CText, ArgText t) \<Rightarrow> True | (CAddr, ArgDeployer) \<Rightarrow> True
     | (CContract ks, ArgVar v) \<Rightarrow> (case map_of known v of None \<Rightarrow> False | Some k \<Rightarrow> k \<in> set ks)
     | (CCuts, ArgCuts cs) \<Rightarrow> distinct (concat (map snd cs)) \<and>
         list_all (\<lambda>(v, fs). case map_of known v of None \<Rightarrow> False | Some k \<Rightarrow> list_all (has_function k) fs) cs
     | _ \<Rightarrow> False)"

fun wired :: "(string \<times> string) list \<Rightarrow> suite_step list \<Rightarrow> bool" where
  "wired known [] = True"
| "wired known (Deploy v k args # ss) = (map_of known v = None \<and> map_of ARTIFACTS k \<noteq> None \<and>
     list_all2 (ctor_arg_fits known) (case map_of CTORS k of None \<Rightarrow> [] | Some ps \<Rightarrow> ps) args \<and> wired ((v, k) # known) ss)"
| "wired known (SetToken r t # ss) = (map_of known r = Some ''EcoRegistry'' \<and> map_of known t = Some ''EcoToken'' \<and> wired known ss)"
| "wired known (ReadHash v # ss) = (map_of known v \<noteq> None \<and> wired known ss)"

lemma suite_wired: "wired [] SUITE"
  by code_simp

text \<open>The artifact behind each variable.\<close>

definition suite_kinds :: "(string \<times> string) list" where
  "suite_kinds = concat (map (\<lambda>st. case st of Deploy v k args \<Rightarrow> [(v, k)] | _ \<Rightarrow> []) SUITE)"

definition knows :: "(string \<times> string) list \<Rightarrow> suite_state \<Rightarrow> bool" where
  "knows known s = (\<forall>v. rel_option (\<lambda>k a. (a, k) \<in> set (su_kinds s)) (map_of known v) (map_of (su_vars s) v))"

lemma knows_Some: "knows known s \<Longrightarrow> map_of known v = Some k \<Longrightarrow> \<exists>a. map_of (su_vars s) v = Some a \<and> (a, k) \<in> set (su_kinds s)"
proof -
  assume "knows known s" and k: "map_of known v = Some k"
  then have "rel_option (\<lambda>k a. (a, k) \<in> set (su_kinds s)) (Some k) (map_of (su_vars s) v)" unfolding knows_def k [symmetric] by blast
  then show ?thesis by (cases "map_of (su_vars s) v") auto
qed

lemma knows_args:
  assumes "knows known s" "list_all2 (ctor_arg_fits known) ps args"
  shows "list_all (arg_known (su_vars s)) args"
  using assms(2)
proof (induction rule: list_all2_induct)
  case (Cons p ps a as)
  have known: "map_of (su_vars s) v \<noteq> None" if "map_of known v = Some k" for v k using knows_Some [OF assms(1) that] by auto
  from Cons show ?case
    by (auto simp: ctor_arg_fits_def arg_known_def list_all_iff split: ctor_param.splits deploy_arg.splits option.splits dest: known)
qed simp

lemma knows_deploy: "knows known s \<Longrightarrow> knows ((v, k) # known) (s\<lparr>su_vars := (v, a) # su_vars s, su_kinds := (a, k) # su_kinds s\<rparr>)"
  unfolding knows_def by (auto intro: option.rel_mono_strong)

lemma run_suite_knows:
  "wired known ss \<Longrightarrow> knows known s \<Longrightarrow> (\<And>j. ans j \<noteq> None) \<Longrightarrow> \<exists>t. run_suite ans i ss s = Some t"
proof (induction known ss arbitrary: i s rule: wired.induct)
  case (2 known v k args ss)
  obtain a where a: "ans i = Some a" using "2.prems"(3) by blast
  have "list_all (arg_known (su_vars s)) args" using knows_args "2.prems"(1,2) by auto
  with 2 a knows_deploy show ?case by auto
next
  case (3 known r t ss)
  then show ?case using knows_Some [of known s] by (fastforce simp: arg_known_def)
next
  case (4 known v ss)
  then show ?case using knows_Some [of known s] by (fastforce simp: arg_known_def)
qed simp

lemma run_suite_result:
  "run_suite ans i ss s = Some t \<Longrightarrow> wired known ss \<Longrightarrow> knows known s \<Longrightarrow>
    knows (rev (concat (map (\<lambda>st. case st of Deploy v k args \<Rightarrow> [(v, k)] | _ \<Rightarrow> []) ss)) @ known) t"
proof (induction ans i ss s arbitrary: known rule: run_suite.induct)
  case (2 ans i v k args ss s)
  then show ?case using knows_deploy [of known s v k] by (auto split: option.splits if_splits)
qed (auto split: if_splits)


section \<open>Calls\<close>

text \<open>What is at an address: a contract of the suite, the live ones, or a child or clone of the wallet.\<close>

definition contract_at :: "suite_state \<Rightarrow> string \<Rightarrow> wl_ctx \<Rightarrow> string \<Rightarrow> string \<Rightarrow> string \<Rightarrow> bool" where
  "contract_at s pool c f a K = ((a, K) \<in> set (su_kinds s) \<or> (a = pool \<and> K = ''nativePool'') \<or>
     ((K = ''router'' \<or> K = ''wgmb'') \<and> map_of LIVE K = Some a) \<or>
     (K = ''ChildCounter'' \<and> (\<exists>k. a \<in> set (children c k f))) \<or> (K = ''CloneTarget'' \<and> a \<in> fst ` set (clones c f)))"

definition request_fits :: "suite_state \<Rightarrow> string \<Rightarrow> wl_ctx \<Rightarrow> string \<Rightarrow> tx_request \<Rightarrow> bool" where
  "request_fits s pool c f r = (case rq_data r of NoData \<Rightarrow> rq_to r \<noteq> None | Raw b \<Rightarrow> rq_to r = None \<and> rq_value r = 0
     | Call i fn args \<Rightarrow> (case function_of i fn of None \<Rightarrow> False | Some (k, ts, payable) \<Rightarrow>
         list_all2 arg_fits ts args \<and> (0 < rq_value r \<longrightarrow> payable) \<and>
         (\<exists>a K. rq_to r = Some a \<and> contract_at s pool c f a K \<and> answers_to K k fn)))"

text \<open>The run takes its addresses from what was written, and its signatures are three parts.\<close>

definition env_of :: "suite_state \<Rightarrow> string \<Rightarrow> (string \<times> string) list \<Rightarrow> wl_env \<Rightarrow> bool" where
  "env_of s pool pairs e = ((\<forall>n a. map_of (deploy_addresses s pool pairs) n = Some a \<longrightarrow> wl_addr e n = a) \<and>
     (\<forall>f p n. list_all2 arg_fits [TUint 8, TBytes32, TBytes32] (permit_sig e f p n)) \<and>
     (\<forall>f n. list_all2 arg_fits [TUint 8, TBytes32, TBytes32] (voucher_sig e f n)))"

definition kind_of :: "string \<Rightarrow> string option" where
  "kind_of n = (if n \<in> {''router'', ''wgmb'', ''nativePool''} then Some n
     else if n \<in> set OUT_VARS then map_of (rev suite_kinds) n else None)"

lemma function_of_calls_1:
  "function_of ''auctionHouse'' ''bidEnglish'' = Some (''AuctionHouse'', [TUint 256], True)"
  "function_of ''auctionHouse'' ''buyDutch'' = Some (''AuctionHouse'', [TUint 256], True)"
  "function_of ''auctionHouse'' ''createDutch'' = Some (''AuctionHouse'', [TUint 256, TUint 96, TUint 96, TUint 64], False)"
  "function_of ''auctionHouse'' ''createEnglish'' = Some (''AuctionHouse'', [TUint 256, TUint 96, TUint 64], False)"
  "function_of ''auctionHouse'' ''settleEnglish'' = Some (''AuctionHouse'', [TUint 256], False)"
  "function_of ''batch'' ''pingMany'' = Some (''BatchExecutor'', [TAddr, TUint 256], False)"
  "function_of ''batchNft'' ''mintBatch'' = Some (''BatchMintNFT'', [TAddr, TUint 256, TUint 256], False)"
  "function_of ''child'' ''bump'' = Some (''ChildCounter'', [], False)"
  "function_of ''child'' ''setValue'' = Some (''ChildCounter'', [TUint 256], False)"
  "function_of ''cloneFactory'' ''cloneAndInit'' = Some (''CloneFactory'', [TUint 256], False)"
  "function_of ''cloneFactory'' ''cloneDeterministic'' = Some (''CloneFactory'', [TBytes32], False)"
  "function_of ''cloneTarget'' ''init'' = Some (''CloneTarget'', [TAddr, TUint 256], False)"
  "function_of ''cloneTarget'' ''ping'' = Some (''CloneTarget'', [], False)"
  "function_of ''counter'' ''increment'' = Some (''CounterFacet'', [], False)"
  "function_of ''disperse'' ''disperseNative'' = Some (''Disperse'', [TAddrs, TUints], True)"
  "function_of ''ecoBank'' ''deposit'' = Some (''EcoBank'', [], True)"
  "function_of ''ecoBank'' ''withdraw'' = Some (''EcoBank'', [TUint 256], False)"
  by code_simp+

lemma function_of_calls_2:
  "function_of ''erc1155'' ''mint'' = Some (''EndERC1155'', [TAddr, TUint 256, TUint 256], False)"
  "function_of ''erc1155'' ''safeTransferFrom'' = Some (''EndERC1155'', [TAddr, TAddr, TUint 256, TUint 256, TBytes], False)"
  "function_of ''erc20'' ''approve'' = Some (''EndERC20'', [TAddr, TUint 256], False)"
  "function_of ''erc20'' ''mint'' = Some (''EndERC20'', [TAddr, TUint 256], False)"
  "function_of ''erc20'' ''transfer'' = Some (''EndERC20'', [TAddr, TUint 256], False)"
  "function_of ''erc721'' ''mint'' = Some (''EndERC721'', [TAddr, TUint 256], False)"
  "function_of ''erc721'' ''transferFrom'' = Some (''EndERC721'', [TAddr, TAddr, TUint 256], False)"
  "function_of ''eventsHeavy'' ''emitMany'' = Some (''EventsHeavy'', [TUint 256], False)"
  "function_of ''factory'' ''createChild'' = Some (''MiniFactory'', [TUint 256], False)"
  "function_of ''hopA'' ''run'' = Some (''HopA'', [], False)"
  "function_of ''hopA'' ''runWithCallback'' = Some (''HopA'', [], False)"
  "function_of ''market'' ''buy'' = Some (''EnduranceMarket'', [TUint 256], True)"
  "function_of ''market'' ''list'' = Some (''EnduranceMarket'', [TUint 256, TUint 96], False)"
  "function_of ''miniGov'' ''execute'' = Some (''MiniGov'', [TUint 256], False)"
  "function_of ''miniGov'' ''propose'' = Some (''MiniGov'', [TUint 256, TAddr], False)"
  "function_of ''miniGov'' ''queue'' = Some (''MiniGov'', [TUint 256], False)"
  "function_of ''miniGov'' ''vote'' = Some (''MiniGov'', [TUint 256], False)"
  by code_simp+

lemma function_of_calls_3:
  "function_of ''nativePool'' ''addLiquidity'' = Some (''nativePool'', [TUint 256, TUint 256, TUint 256, TAddr, TUint 256], True)"
  "function_of ''nativePool'' ''removeLiquidity'' = Some (''nativePool'', [TUint 256, TUint 256, TUint 256, TAddr, TUint 256], False)"
  "function_of ''nativePool'' ''swapExactNativeForTokens'' = Some (''nativePool'', [TUint 256, TAddr, TUint 256], True)"
  "function_of ''nativePool'' ''swapExactTokensForNative'' = Some (''nativePool'', [TUint 256, TUint 256, TAddr, TUint 256], False)"
  "function_of ''nftStaking'' ''stake'' = Some (''NftStaking'', [TUint 256], False)"
  "function_of ''nftStaking'' ''unstake'' = Some (''NftStaking'', [TUint 256], False)"
  "function_of ''permit'' ''permit'' = Some (''PermitToken'', [TAddr, TAddr, TUint 256, TUint 256, TUint 8, TBytes32, TBytes32], False)"
  "function_of ''permit'' ''transferFrom'' = Some (''PermitToken'', [TAddr, TAddr, TUint 256], False)"
  "function_of ''rebase'' ''rebase'' = Some (''RebasingToken'', [TUint 256], False)"
  "function_of ''registry'' ''setEntry'' = Some (''RegistryFacet'', [TUint 256], False)"
  "function_of ''rewardStaking'' ''claim'' = Some (''RewardStaking'', [], False)"
  "function_of ''rewardStaking'' ''stake'' = Some (''RewardStaking'', [TUint 256], False)"
  "function_of ''rewardStaking'' ''unstake'' = Some (''RewardStaking'', [TUint 256], False)"
  "function_of ''router'' ''addLiquidity'' = Some (''router'', [TAddr, TAddr, TUint 256, TUint 256, TUint 256, TUint 256, TAddr, TUint 256], False)"
  "function_of ''router'' ''removeLiquidity'' = Some (''router'', [TAddr, TAddr, TUint 256, TUint 256, TUint 256, TAddr, TUint 256], False)"
  "function_of ''router'' ''swapExactTokensForTokens'' = Some (''router'', [TUint 256, TUint 256, TAddrs, TAddr, TUint 256], False)"
  "function_of ''router'' ''swapExactTokensForTokensSupportingFeeOnTransferTokens'' = Some (''router'', [TUint 256, TUint 256, TAddrs, TAddr, TUint 256], False)"
  by code_simp+

lemma function_of_calls_4:
  "function_of ''royaltyMarket'' ''buy'' = Some (''RoyaltyMarket'', [TUint 256], True)"
  "function_of ''royaltyMarket'' ''cancel'' = Some (''RoyaltyMarket'', [TUint 256], False)"
  "function_of ''royaltyMarket'' ''list'' = Some (''RoyaltyMarket'', [TUint 256, TUint 96], False)"
  "function_of ''royaltyNft'' ''mint'' = Some (''RoyaltyNFT'', [TAddr, TUint 256], False)"
  "function_of ''staking'' ''stake'' = Some (''EnduranceStaking'', [TUint 256], False)"
  "function_of ''staking'' ''withdraw'' = Some (''EnduranceStaking'', [TUint 256], False)"
  "function_of ''vault'' ''deposit'' = Some (''MiniVault'', [TUint 256], False)"
  "function_of ''vault'' ''mint'' = Some (''MiniVault'', [TUint 256], False)"
  "function_of ''vault'' ''redeem'' = Some (''MiniVault'', [TUint 256], False)"
  "function_of ''vault'' ''withdraw'' = Some (''MiniVault'', [TUint 256], False)"
  "function_of ''voucher'' ''redeem'' = Some (''VoucherMinter'', [TAddr, TUint 256, TUint 256, TUint 256, TUint 8, TBytes32, TBytes32], False)"
  "function_of ''wgmb'' ''deposit'' = Some (''wgmb'', [], True)"
  "function_of ''wgmb'' ''withdraw'' = Some (''wgmb'', [TUint 256], False)"
  "function_of ''workbench'' ''loop'' = Some (''Workbench'', [TUint 256], False)"
  "function_of ''workbench'' ''set'' = Some (''Workbench'', [TUint 256, TUint 256], False)"
  by code_simp+

lemmas function_of_calls = function_of_calls_1 function_of_calls_2 function_of_calls_3 function_of_calls_4

lemma kind_of_names:
  "kind_of ''auctionHouse'' = Some ''AuctionHouse''" "kind_of ''auctionNft'' = Some ''EndERC721''" "kind_of ''batch'' = Some ''BatchExecutor''"
  "kind_of ''batchNft'' = Some ''BatchMintNFT''" "kind_of ''cloneFactory'' = Some ''CloneFactory''" "kind_of ''diamond'' = Some ''Diamond''"
  "kind_of ''disperse'' = Some ''Disperse''" "kind_of ''ecoBank'' = Some ''EcoBank''" "kind_of ''erc1155'' = Some ''EndERC1155''"
  "kind_of ''eventsHeavy'' = Some ''EventsHeavy''" "kind_of ''feeToken'' = Some ''FeeOnTransferToken''" "kind_of ''hopA'' = Some ''HopA''"
  "kind_of ''market'' = Some ''EnduranceMarket''" "kind_of ''marketNft'' = Some ''EndERC721''" "kind_of ''miniFactory'' = Some ''MiniFactory''"
  "kind_of ''miniGov'' = Some ''MiniGov''" "kind_of ''nativePool'' = Some ''nativePool''" "kind_of ''nft'' = Some ''EndERC721''"
  "kind_of ''nftStaking'' = Some ''NftStaking''" "kind_of ''permitToken'' = Some ''PermitToken''" "kind_of ''rebaseToken'' = Some ''RebasingToken''"
  "kind_of ''rewardStaking'' = Some ''RewardStaking''" "kind_of ''router'' = Some ''router''" "kind_of ''royaltyMarket'' = Some ''RoyaltyMarket''"
  "kind_of ''royaltyNft'' = Some ''RoyaltyNFT''" "kind_of ''staking'' = Some ''EnduranceStaking''" "kind_of ''tka'' = Some ''EndERC20''"
  "kind_of ''tkb'' = Some ''EndERC20''" "kind_of ''tkc'' = Some ''EndERC20''" "kind_of ''vault'' = Some ''MiniVault''"
  "kind_of ''voucherMinter'' = Some ''VoucherMinter''" "kind_of ''wgmb'' = Some ''wgmb''" "kind_of ''workbench'' = Some ''Workbench''"
  by code_simp+


lemma suite_kind_known:
  assumes "run_suite ans 0 SUITE suite_start = Some s" "map_of (rev suite_kinds) n = Some K"
  shows "\<exists>a. map_of (su_vars s) n = Some a \<and> (a, K) \<in> set (su_kinds s)"
proof -
  have "knows [] suite_start" by (simp add: knows_def suite_start_def)
  then have "knows (rev suite_kinds) s" using run_suite_result [OF assms(1) suite_wired] by (simp add: suite_kinds_def)
  then show ?thesis using knows_Some assms(2) by blast
qed

lemma map_of_filter_key: "map_of (filter (\<lambda>(v, a). P v) xs) n = (if P n then map_of xs n else None)"
  by (induction xs) auto

lemma kind_at_address:
  assumes "run_suite ans 0 SUITE suite_start = Some s" "env_of s pool pairs e" "kind_of n = Some K"
  shows "contract_at s pool c f (wl_addr e n) K"
proof -
  have live: "\<not> list_ex (\<lambda>v. v \<in> {''router'', ''wgmb'', ''nativePool''}) OUT_VARS" by code_simp
  have addr: "map_of (deploy_addresses s pool pairs) n = Some a \<Longrightarrow> wl_addr e n = a" for a using assms(2) by (simp add: env_of_def)
  show ?thesis
  proof (cases "n \<in> {''router'', ''wgmb'', ''nativePool''}")
    case True
    then have "n \<notin> set OUT_VARS" using live by (auto simp: list_ex_iff)
    then have "map_of (deploy_addresses s pool pairs) n = (if n = ''nativePool'' then Some pool else map_of (LIVE @ pairs) n)"
      by (simp add: deploy_addresses_def map_of_filter_key map_add_def)
    then have a: "map_of (deploy_addresses s pool pairs) n = (if n = ''nativePool'' then Some pool else map_of LIVE n)"
      using True by (auto simp: LIVE_def)
    have K: "K = n" using True assms(3) by (simp add: kind_of_def)
    consider "n = ''nativePool''" | x where "n \<noteq> ''nativePool''" "n = ''router'' \<or> n = ''wgmb''" "map_of LIVE n = Some x"
      using True by (auto simp: LIVE_def)
    then show ?thesis
    proof cases
      case 1
      then show ?thesis using addr [of pool] a K unfolding contract_at_def by simp
    next
      case (2 x)
      then show ?thesis using addr [of x] a K unfolding contract_at_def by simp
    qed
  next
    case False
    then have n: "n \<in> set OUT_VARS" "map_of (rev suite_kinds) n = Some K" using assms(3) by (auto simp: kind_of_def split: if_splits)
    obtain a where a: "map_of (su_vars s) n = Some a" "(a, K) \<in> set (su_kinds s)" using suite_kind_known [OF assms(1) n(2)] by blast
    then have "map_of (deploy_addresses s pool pairs) n = Some a"
      using n(1) by (simp add: deploy_addresses_def map_of_filter_key map_add_def split: option.split)
    with addr a(2) show ?thesis by (simp add: contract_at_def)
  qed
qed

text \<open>Whether a call of the contract with name \<open>n\<close> fits it.\<close>

definition call_ok :: "string \<Rightarrow> string \<Rightarrow> string \<Rightarrow> call_arg list \<Rightarrow> int \<Rightarrow> bool" where
  "call_ok n i fn args v = (case kind_of n of None \<Rightarrow> False | Some K \<Rightarrow> (case function_of i fn of None \<Rightarrow> False
     | Some (k, ts, payable) \<Rightarrow> list_all2 arg_fits ts args \<and> (0 < v \<longrightarrow> payable) \<and> answers_to K k fn))"

lemma fits_named:
  assumes "run_suite ans 0 SUITE suite_start = Some s" "env_of s pool pairs e" "call_ok n i fn args v"
  shows "request_fits s pool c f (tx (wl_addr e n) (Call i fn args) v g)"
proof -
  obtain K k ts payable where c: "kind_of n = Some K" "function_of i fn = Some (k, ts, payable)" "list_all2 arg_fits ts args"
    "0 < v \<longrightarrow> payable" "answers_to K k fn" using assms(3) by (auto simp: call_ok_def split: option.splits)
  from kind_at_address [OF assms(1,2) c(1)] c(2-) show ?thesis by (auto simp: request_fits_def tx_def)
qed

lemma fits_at:
  assumes "contract_at s pool c f a k" "function_of i fn = Some (k, ts, payable)" "list_all2 arg_fits ts args"
  shows "request_fits s pool c f (tx a (Call i fn args) 0 g)"
proof -
  have "answers_to k k fn" by (simp add: answers_to_def)
  with assms show ?thesis unfolding request_fits_def tx_def by (simp, blast)
qed

lemma child_at: "a \<in> set (children c k f) \<Longrightarrow> contract_at s pool c f a ''ChildCounter''"
  unfolding contract_at_def by (rule disjI2, rule disjI2, rule disjI2, rule disjI1, rule conjI, rule refl, rule exI)

lemma clone_at: "a \<in> fst ` set (clones c f) \<Longrightarrow> contract_at s pool c f a ''CloneTarget''"
  unfolding contract_at_def by (rule disjI2, rule disjI2, rule disjI2, rule disjI2, rule conjI, rule refl)

definition fits_built :: "suite_state \<Rightarrow> string \<Rightarrow> wl_ctx \<Rightarrow> string \<Rightarrow> built \<Rightarrow> bool" where
  "fits_built s pool c f b = (case fst b of None \<Rightarrow> True | Some (r, eff) \<Rightarrow> request_fits s pool c f r)"

lemma fits_built_helpers:
  "fits_built s pool c f (None, c')"
  "fits_built s pool c f (ready r eff c') \<longleftrightarrow> request_fits s pool c f r"
  "fits_built s pool c f (Some (r, eff), c') \<longleftrightarrow> request_fits s pool c f r"
  "request_fits s pool c f r \<Longrightarrow> fits_built s pool c f (debit k f r c)"
  "(\<And>i. request_fits s pool c f (fst (h i))) \<Longrightarrow> fits_built s pool c f (take_owned q f h c)"
  "(\<And>a. request_fits s pool c f (m a)) \<Longrightarrow> fits_built s pool c f (on_auction P u m c)"
  "(\<And>x. request_fits s pool c f (fst (mp x))) \<Longrightarrow> fits_built s pool c f (on_proposal P' u' mp c)"
  by (auto simp: fits_built_def take_owned_def on_auction_def on_proposal_def debit_def ready_def split: list.split option.split) (metis fst_conv)+

lemma fits_call_child:
  "(\<And>a. a \<in> set (children c k f) \<Longrightarrow> request_fits s pool c f (tx a d 0 95000)) \<Longrightarrow> fits_built s pool c f (call_child k f d c)"
  by (auto simp: fits_built_def call_child_def ready_def split: list.split)

text \<open>The calls of each operation, with the name of the contract they go to.\<close>

lemmas call_checks = call_ok_def kind_of_names function_of_calls arg_fits_def answers_to_def

lemma facet_functions: "map_of cut_facets ''CounterFacet'' = Some [''increment'', ''counter'']"
  "map_of cut_facets ''RegistryFacet'' = Some [''setEntry'', ''entryOf'', ''pingsOf'', ''totalPings'']"
  by code_simp+

lemma randOf_three: "randOf rnd k [x, y, z] = x \<or> randOf rnd k [x, y, z] = y \<or> randOf rnd k [x, y, z] = z"
  using randOf_in [of "[x, y, z]" rnd k] by simp

lemma fits_random:
  assumes "run_suite ans 0 SUITE suite_start = Some s" "env_of s pool pairs e"
  shows "fits_built s pool c f (build e rnd now Erc20Transfer f c)" "fits_built s pool c f (build e rnd now Erc20Approve f c)"
  using randOf_two [of rnd 0 "wl_addr e ''tka''" "wl_addr e ''tkb''"] randOf_three [of rnd 0 "wl_addr e ''tka''" "wl_addr e ''tkb''" "wl_addr e ''tkc''"]
  by (auto simp: fits_built_helpers fits_named [OF assms] call_checks)

lemma fits_signed:
  assumes "run_suite ans 0 SUITE suite_start = Some s" "env_of s pool pairs e"
  shows "fits_built s pool c f (build e rnd now PermitOp f c)" "fits_built s pool c f (build e rnd now VoucherRedeem f c)"
proof -
  have "list_all2 arg_fits [TUint 8, TBytes32, TBytes32] (permit_sig e f p n)" "list_all2 arg_fits [TUint 8, TBytes32, TBytes32] (voucher_sig e f n)" for p n
    using assms(2) by (simp_all add: env_of_def)
  moreover have "arg_fits TAddr (Addr a)" "arg_fits (TUint 256) (Num n)" for a n by (simp_all add: arg_fits_def)
  ultimately have ok: "call_ok ''permitToken'' ''permit'' ''permit'' ([Addr f, Addr a, Num PERMIT_VALUE, Num DEADLINE] @ permit_sig e f a n) 0"
      "call_ok ''voucherMinter'' ''voucher'' ''redeem'' ([Addr f, Num (voucherId c), Num VOUCHER_AMT, Num DEADLINE] @ voucher_sig e f (voucherId c)) 0" for a n
    by (simp_all add: call_ok_def kind_of_names function_of_calls answers_to_def)
  show "fits_built s pool c f (build e rnd now PermitOp f c)" "fits_built s pool c f (build e rnd now VoucherRedeem f c)"
    unfolding build.simps Let_def using fits_named [OF assms ok(1)] fits_named [OF assms ok(2)] by (auto simp: fits_built_helpers(1,2))
qed

lemma fits_children:
  "fits_built s pool c f (build e rnd now CallDeployedChild f c)" "fits_built s pool c f (build e rnd now FactoryCallChild f c)"
  "fits_built s pool c f (build e rnd now CloneInit f c)" "fits_built s pool c f (build e rnd now CloneCall f c)"
proof -
  note child = fits_at [OF child_at]
  have clone: "fst x \<in> fst ` set (clones c f)" if "x \<in> set (clones c f)" for x using that by simp
  show "fits_built s pool c f (build e rnd now CallDeployedChild f c)" "fits_built s pool c f (build e rnd now FactoryCallChild f c)"
    unfolding build.simps call0_def by (auto intro!: fits_call_child child simp: function_of_calls arg_fits_def)
  have call: "request_fits s pool c f (tx (fst x) (Call ''cloneTarget'' ''init'' [Addr f, Num n]) 0 g)"
    "request_fits s pool c f (tx (fst x) (Call ''cloneTarget'' ''ping'' []) 0 g)" if "x \<in> set (clones c f)" for x n g
    using clone [OF that] by (auto intro!: fits_at [OF clone_at] simp: function_of_calls arg_fits_def)
  show "fits_built s pool c f (build e rnd now CloneInit f c)"
    unfolding build.simps by (auto simp: fits_built_helpers(1,2) first_index_def find_Some_iff split: option.split intro!: call(1))
  show "fits_built s pool c f (build e rnd now CloneCall f c)"
  proof (cases "clones c f")
    case (Cons x xs)
    then have "x \<in> set (clones c f)" by simp
    from call(2) [OF this] Cons show ?thesis unfolding build.simps call0_def by (simp add: fits_built_helpers(2))
  qed (simp add: fits_built_helpers(1))
qed

lemma fits_plain:
  "request_fits s pool c f (tx a NoData v g)" "request_fits s pool c f \<lparr>rq_to = None, rq_data = Raw b, rq_value = 0, rq_gas = g\<rparr>"
  by (simp_all add: request_fits_def tx_def)

lemma build_fits:
  assumes "run_suite ans 0 SUITE suite_start = Some s" "env_of s pool pairs e"
  shows "fits_built s pool c f (build e rnd now w f c)"
proof (cases "w \<in> {Erc20Transfer, Erc20Approve, PermitOp, VoucherRedeem, CallDeployedChild, FactoryCallChild, CloneInit, CloneCall}")
  case True
  with fits_random [OF assms] fits_signed [OF assms] fits_children show ?thesis by (elim insertE) (simp_all only: empty_iff)
next
  case False
  then show ?thesis
    by (cases w) (simp_all add: fits_built_helpers fits_plain fits_named [OF assms] call_checks facet_functions NFT_PRICE_def call0_def Let_def
      split: option.split list.split prod.split)
qed

text \<open>Only two of the operations make a request without a call.\<close>

lemma build_without_call:
  assumes "fst (build e rnd now w f c) = Some (r, eff)" "rq_data r = NoData \<or> rq_data r = Raw b"
  shows "w = NativeTransfer \<and> rq_data r = NoData \<and> rq_value r = 1 \<or> w = DeployChild \<and> rq_data r = Raw (childBytecode e)"
  using assms
  by (cases w) (auto simp: ready_def tx_def debit_def take_owned_def call_child_def on_auction_def on_proposal_def call0_def Let_def
    split: if_splits option.splits list.splits prod.splits)

text \<open>
  C26. When the deployment has run to its end, the requests of the workloads fit it: apart from the plain transfer of
  one unit to another wallet and the creation of the child contract, which only those two operations make, every
  request is a call to a contract the deployment script created, to the live router or wrapped coin it names, to the
  liquidity pool it was given, or, for the operations on children and clones, to an address the builder has recorded as
  one of the wallet's own; the called function exists there, takes arguments of these types, and gets coins only
  if it takes them. That a recorded child or clone is there is not shown here: it is recorded when its creation has
  been confirmed.
\<close>

theorem calls_fit_deployment:
  assumes "run_suite ans 0 SUITE suite_start = Some s" "env_of s pool pairs e" "build e rnd now w f c = (Some (r, eff), c')"
  shows "request_fits s pool c f r \<and>
    (rq_data r = NoData \<longrightarrow> w = NativeTransfer \<and> rq_value r = 1) \<and> (\<forall>b. rq_data r = Raw b \<longrightarrow> w = DeployChild \<and> b = childBytecode e)"
  using build_fits [OF assms(1,2), of c f rnd now w] build_without_call [of e rnd now w f c r eff] assms(3)
  by (auto simp: fits_built_def)

section \<open>The deployment completes\<close>

lemma suite_completes:
  assumes "\<And>i. ans i \<noteq> None"
  shows "\<exists>s. run_suite ans 0 SUITE suite_start = Some s"
  by (rule run_suite_knows [OF suite_wired _ assms]) (simp add: knows_def suite_start_def)

text \<open>The founder mints enough of every token for all pairs and approves what takes it, whether the pool exists or not.\<close>

lemma liquidity_affordable: "\<exists>s. liq_run (\<lambda>t. 0, []) (liquidity_ops missing) = Some s"
  by (simp add: liquidity_ops_def DEPLOY_PAIRS_def SEED_R_def NP_TOK_def NP_NATIVE_def)

theorem calls_fit_deployment_witness:
  "\<forall>c. \<exists>s e. run_suite (\<lambda>i. Some (dec_string i)) 0 SUITE suite_start = Some s \<and> env_of s ''pool'' [] e \<and>
     request_fits s ''pool'' c ''a'' (tx (wl_addr e ''wgmb'') (Call ''wgmb'' ''deposit'' []) (10 ^ 15) 70000)"
proof (rule allI)
  fix c
  obtain s where s: "run_suite (\<lambda>i. Some (dec_string i)) 0 SUITE suite_start = Some s" using suite_completes [of "\<lambda>i. Some (dec_string i)"] by auto
  let ?sig = "[Num 27, Text ''r'', Text ''s'']"
  let ?e = "\<lparr>wl_addr = (\<lambda>n. case map_of (deploy_addresses s ''pool'' []) n of None \<Rightarrow> [] | Some a \<Rightarrow> a), wl_pool = [''a''], wl_index = (\<lambda>f. 0),
    wl_pairs = [], childBytecode = ''0x'', createAddr = (\<lambda>f n. f), create2Addr = (\<lambda>n. []), salt32 = (\<lambda>n. []), cloneAddr = (\<lambda>x. []),
    permit_sig = (\<lambda>f p n. ?sig), voucher_sig = (\<lambda>f n. ?sig)\<rparr>"
  have e: "env_of s ''pool'' [] ?e" by (simp add: env_of_def arg_fits_def)
  have b: "build ?e (\<lambda>_. 0) 0 WrapGMB ''a'' c = (Some (tx (wl_addr ?e ''wgmb'') (Call ''wgmb'' ''deposit'' []) (10 ^ 15) 70000, CreditTo Wgmb ''a'' (credit_amount Wgmb)), c)"
    by (simp only: build.simps ready_def call0_def)
  from calls_fit_deployment [OF s e b] s e show "\<exists>s e. run_suite (\<lambda>i. Some (dec_string i)) 0 SUITE suite_start = Some s \<and> env_of s ''pool'' [] e \<and>
     request_fits s ''pool'' c ''a'' (tx (wl_addr e ''wgmb'') (Call ''wgmb'' ''deposit'' []) (10 ^ 15) 70000)" by blast
qed

end
