(* ===== verification/Rpc_Fuzz.thy ===== *)
theory Rpc_Fuzz
  imports Gemba_Prelude
begin

text \<open>
  The fuzzing harness of the public endpoints, security/track3-rpc-infra/rpc-fuzz.js: the bodies it sends, the
  search for leaks, the verdict on a reply, and the exit code. The replies are arguments; \<open>JSON.stringify\<close> and
  \<open>JSON.parse\<close> are the functions \<open>stringify\<close> and \<open>parse\<close>.
\<close>

section \<open>The bodies\<close>

datatype fuzz_expect = JsonRpcError | AnyGraceful | BatchArray

record fuzz_case =
  fc_name :: string
  fc_body :: string
  fc_expect :: fuzz_expect

definition ENDPOINTS :: "(string \<times> string) list" where
  "ENDPOINTS = [(''rpc1'', ''https://rpc1.gembascan.io''), (''rpc2'', ''https://rpc2.gembascan.io''), (''rpc3'', ''https://rpc3.gembascan.io'')]"

definition rpc_call :: "nat \<Rightarrow> string \<Rightarrow> jsval list \<Rightarrow> jsval" where
  "rpc_call i meth ps = JObj [(''jsonrpc'', JStr ''2.0''), (''id'', JNum (Fin (of_nat i))), (''method'', JStr meth), (''params'', JArr ps)]"

definition batch_entry :: "nat \<Rightarrow> jsval" where
  "batch_entry i = (if i mod 10 = 0 then rpc_call i (''no_such_method_'' @ dec_string i) []
     else if i mod 7 = 0 then rpc_call i ''eth_getBalance'' [JNum (Fin 12345), JStr ''latest'']
     else rpc_call i ''eth_blockNumber'' [])"

text \<open>\<open>latest\<close> is the last block as the endpoint gave it.\<close>

definition buildCases :: "(jsval \<Rightarrow> string) \<Rightarrow> jsval \<Rightarrow> fuzz_case list" where
  "buildCases stringify latest = (let bigInt = ''0x'' @ replicate 100000 CHR ''f''; nested = replicate 1000 CHR ''['' @ ''0'' @ replicate 1000 CHR '']'' in
    [\<lparr>fc_name = ''invalid-json'', fc_body = ''{\"jsonrpc\":\"2.0\",\"id\":1,\"method\":\"eth_blockNumber\" PARAMS-BROKEN'', fc_expect = JsonRpcError\<rparr>,
     \<lparr>fc_name = ''missing-jsonrpc-field'', fc_body = stringify (JObj [(''id'', JNum (Fin 1)), (''method'', JStr ''eth_blockNumber''), (''params'', JArr [])]), fc_expect = AnyGraceful\<rparr>,
     \<lparr>fc_name = ''missing-id'', fc_body = stringify (JObj [(''jsonrpc'', JStr ''2.0''), (''method'', JStr ''eth_blockNumber''), (''params'', JArr [])]), fc_expect = AnyGraceful\<rparr>,
     \<lparr>fc_name = ''unknown-method'', fc_body = stringify (rpc_call 1 ''totally_made_up_method'' []), fc_expect = JsonRpcError\<rparr>,
     \<lparr>fc_name = ''wrong-param-type (getBalance int addr)'', fc_body = stringify (rpc_call 1 ''eth_getBalance'' [JNum (Fin 12345), JStr ''latest'']), fc_expect = JsonRpcError\<rparr>,
     \<lparr>fc_name = ''oversized-hex-param (~100k chars)'', fc_body = stringify (rpc_call 1 ''eth_getBalance'' [JStr bigInt, JStr ''latest'']), fc_expect = AnyGraceful\<rparr>,
     \<lparr>fc_name = ''deeply-nested-params (~1000 deep)'', fc_body = ''{\"jsonrpc\":\"2.0\",\"id\":1,\"method\":\"eth_getBalance\",\"params\":'' @ nested @ ''}'', fc_expect = AnyGraceful\<rparr>,
     \<lparr>fc_name = ''batch-50-mixed'', fc_body = stringify (JArr (map batch_entry [0..<50])), fc_expect = BatchArray\<rparr>,
     \<lparr>fc_name = ''eth_getLogs full-range (0..latest)'', fc_body = stringify (rpc_call 1 ''eth_getLogs'' [JObj [(''fromBlock'', JStr ''0x0''), (''toBlock'', or_else latest (JStr ''latest''))]]), fc_expect = AnyGraceful\<rparr>,
     \<lparr>fc_name = ''huge eth_call data (~100k hex)'', fc_body = stringify (rpc_call 1 ''eth_call'' [JObj [(''to'', JStr ''0x0000000000000000000000000000000000000000''), (''data'', JStr bigInt)], JStr ''latest'']), fc_expect = AnyGraceful\<rparr>])"

section \<open>Leaks\<close>

text \<open>A text in any letter case, given in lower case; and a pattern anywhere, at a boundary of a word, in a text.\<close>

fun rx_icase :: "string \<Rightarrow> rx" where
  "rx_icase [] = REps"
| "rx_icase (c # cs) = RSeq (RCls (\<lambda>x. lower_char x = c)) (rx_icase cs)"

definition rx_any :: rx where "rx_any = RStar (RCls (\<lambda>_. True))"

definition is_word :: "char \<Rightarrow> bool" where
  "is_word c = (is_digit c \<or> c = CHR ''_'' \<or> (let n = code_unit (lower_char c) in 97 \<le> n \<and> n \<le> 122))"

definition rx_within :: "rx \<Rightarrow> rx" where "rx_within r = RSeq rx_any (RSeq r rx_any)"

definition rx_at_word :: "rx \<Rightarrow> rx" where
  "rx_at_word r = RSeq (RAlt REps (RSeq rx_any (RCls (\<lambda>c. \<not> is_word c)))) (RSeq r rx_any)"

definition rx_digits :: rx where "rx_digits = rx_plus (RCls is_digit)"

text \<open>The second boundary of the version banner is the character after the name, which is not of a word.\<close>

definition LEAK_PATTERNS :: "(string \<times> rx) list" where
  "LEAK_PATTERNS = [(''goroutine'', rx_within (RSeq (rx_icase ''goroutine'') (RCls is_ws))),
     (''panic:'', rx_at_word (rx_icase ''panic:'')),
     (''runtime error'', rx_within (rx_icase ''runtime error'')),
     (''.go:'', rx_within (RSeq (rx_lit ''.go:'') rx_digits)),
     (''/home/'', rx_within (RSeq (rx_icase ''/home/'') (RCls (\<lambda>c. let n = code_unit (lower_char c) in 97 \<le> n \<and> n \<le> 122)))),
     (''/root/'', rx_within (rx_icase ''/root/'')),
     (''github.com/cosmos'', rx_within (rx_icase ''github.com/cosmos'')),
     (''nginx'', rx_at_word (RSeq (rx_icase ''nginx'') (RSeq (RCls (\<lambda>c. \<not> is_word c \<and> code_unit c \<noteq> 10 \<and> code_unit c \<noteq> 13))
        (RSeq (RStar (RCls (\<lambda>c. code_unit c \<noteq> 10 \<and> code_unit c \<noteq> 13))) (RSeq rx_digits (RSeq (rx_lit ''.'') (RSeq rx_digits (RSeq (rx_lit ''.'') rx_digits)))))))),
     (''traceback'', rx_within (rx_icase ''traceback (most recent''))]"

definition sniffLeak :: "string \<Rightarrow> string option" where
  "sniffLeak text = (if text = [] then None else map_option fst (find (\<lambda>(n, r). rx_full r text) LEAK_PATTERNS))"

section \<open>The verdict\<close>

datatype fuzz_note =
    ServerError nat | InternalLeak string | EmptyBody | ArrayOf nat | SingleError | NoBatch
  | ErrorCode jsval | TolerantResult | NoError | ResultNote | Unexpected | HangNote | DroppedNote string

text \<open>\<open>v.error\<close> and \<open>v.code\<close> of a value that is not null or undefined, and \<open>"result" in v\<close>, which throws unless \<open>v\<close> is an object.\<close>

definition member_of :: "string \<Rightarrow> jsval \<Rightarrow> jsval" where
  "member_of k v = (case v of JObj ps \<Rightarrow> get_prop ps k | _ \<Rightarrow> JUndef)"

definition has_result :: "jsval \<Rightarrow> bool option" where
  "has_result v = (case v of JObj ps \<Rightarrow> Some (''result'' \<in> set (map fst ps)) | JArr vs \<Rightarrow> Some False | _ \<Rightarrow> None)"

definition is_JArr :: "jsval \<Rightarrow> bool" where "is_JArr v = (case v of JArr vs \<Rightarrow> True | _ \<Rightarrow> False)"

definition is_JNum :: "jsval \<Rightarrow> bool" where "is_JNum v = (case v of JNum n \<Rightarrow> True | _ \<Rightarrow> False)"

definition arr_length :: "jsval \<Rightarrow> nat" where "arr_length v = (case v of JArr vs \<Rightarrow> length vs | _ \<Rightarrow> 0)"

text \<open>
  \<open>None\<close> is the \<open>TypeError\<close>: of \<open>in\<close> on a value that is not an object, and of the note of a tolerant case,
  which is a template literal with whatever the answer has for a code.
\<close>

definition fuzz_classify :: "fuzz_expect \<Rightarrow> nat \<Rightarrow> jsval \<Rightarrow> bool \<Rightarrow> string \<Rightarrow> (bool \<times> fuzz_note) option" where
  "fuzz_classify expect status parsed isArray rawText = (let leak = sniffLeak rawText; err = member_of ''error'' parsed; code = member_of ''code'' err in
     if 500 \<le> status then Some (False, ServerError status)
     else case leak of Some l \<Rightarrow> Some (False, InternalLeak l) | None \<Rightarrow>
     if expect = AnyGraceful \<and> 200 \<le> status \<and> status < 300 \<and> trim rawText = [] then Some (True, EmptyBody)
     else (case expect of
       BatchArray \<Rightarrow> Some (if isArray then (True, ArrayOf (arr_length parsed)) else if truthy parsed \<and> truthy err then (True, SingleError) else (False, NoBatch))
     | JsonRpcError \<Rightarrow> (if truthy parsed \<and> truthy err \<and> is_JNum code then Some (True, ErrorCode code)
         else if truthy parsed then (case has_result parsed of None \<Rightarrow> None | Some True \<Rightarrow> Some (True, TolerantResult) | Some False \<Rightarrow> Some (False, NoError))
         else Some (False, NoError))
     | AnyGraceful \<Rightarrow> (let rest = Some (if isArray then (True, ArrayOf (arr_length parsed)) else (False, Unexpected)) in
         if truthy parsed then (case has_result parsed of None \<Rightarrow> None
           | Some res \<Rightarrow> if truthy err then (if text_throws code then None else Some (True, ErrorCode code))
               else if res then Some (True, ResultNote) else rest)
         else rest)))"

text \<open>A request may hang, be cut off, or be answered.\<close>

datatype rpc_reply = Hung | Dropped string | Replied nat string

text \<open>What is not JSON counts as \<open>null\<close>.\<close>

definition fuzz_verdict :: "(string \<Rightarrow> jsval option) \<Rightarrow> fuzz_expect \<Rightarrow> rpc_reply \<Rightarrow> (bool \<times> fuzz_note) option" where
  "fuzz_verdict parse expect r = (case r of Hung \<Rightarrow> Some (False, HangNote) | Dropped e \<Rightarrow> Some (False, DroppedNote e)
     | Replied status text \<Rightarrow> (let parsed = (case parse text of None \<Rightarrow> JNull | Some v \<Rightarrow> v) in fuzz_classify expect status parsed (is_JArr parsed) text))"

definition getLatestHex :: "(string \<Rightarrow> jsval option) \<Rightarrow> rpc_reply \<Rightarrow> jsval" where
  "getLatestHex parse r = (case r of Replied status text \<Rightarrow> (case parse text of None \<Rightarrow> JNull | Some JNull \<Rightarrow> JNull | Some v \<Rightarrow> member_of ''result'' v) | _ \<Rightarrow> JNull)"

section \<open>The run\<close>

text \<open>The probes in order: the endpoint, the case and the reply; \<open>block\<close> and \<open>reply\<close> are what the endpoints answer.\<close>

definition fuzz_probes :: "(string \<Rightarrow> jsval option) \<Rightarrow> (jsval \<Rightarrow> string) \<Rightarrow> (string \<Rightarrow> rpc_reply) \<Rightarrow> (string \<Rightarrow> string \<Rightarrow> rpc_reply) \<Rightarrow>
    (string \<times> fuzz_case \<times> rpc_reply) list" where
  "fuzz_probes parse stringify block reply = concat (map (\<lambda>(name, url).
     map (\<lambda>c. (name, c, reply url (fc_body c))) (buildCases stringify (getLatestHex parse (block url)))) ENDPOINTS)"

fun fuzz_flags :: "(string \<Rightarrow> jsval option) \<Rightarrow> (string \<times> fuzz_case \<times> rpc_reply) list \<Rightarrow> (string \<times> string \<times> fuzz_note) list option" where
  "fuzz_flags parse [] = Some []"
| "fuzz_flags parse ((ep, c, r) # ps) = (case fuzz_verdict parse (fc_expect c) r of None \<Rightarrow> None
     | Some (ok, note) \<Rightarrow> map_option (\<lambda>fs. if ok then fs else (ep, fc_name c, note) # fs) (fuzz_flags parse ps))"

text \<open>The exit code; \<open>write_ok\<close> says whether the directory and the report could be written.\<close>

definition fuzz_exit :: "(string \<Rightarrow> jsval option) \<Rightarrow> bool \<Rightarrow> (string \<times> fuzz_case \<times> rpc_reply) list \<Rightarrow> nat" where
  "fuzz_exit parse write_ok probes = (case fuzz_flags parse probes of None \<Rightarrow> 2
     | Some fs \<Rightarrow> if \<not> write_ok then 2 else if fs = [] then 0 else 1)"

section \<open>What a passing run shows\<close>

text \<open>What the patterns look for, in plain terms.\<close>

definition at_word :: "(string \<Rightarrow> bool) \<Rightarrow> string \<Rightarrow> bool" where
  "at_word P t = (\<exists>a w b. t = a @ w @ b \<and> P w \<and> (a = [] \<or> \<not> is_word (last a)))"

definition version_number :: "string \<Rightarrow> bool" where
  "version_number v = (\<exists>x y z. v = x @ ''.'' @ y @ ''.'' @ z \<and> list_all is_digit (x @ y @ z) \<and> x \<noteq> [] \<and> y \<noteq> [] \<and> z \<noteq> [])"

definition leaks :: "string \<Rightarrow> bool" where
  "leaks t = ((\<exists>a w b. t = a @ w @ b \<and> to_lower w \<in> {''runtime error'', ''/root/'', ''github.com/cosmos'', ''traceback (most recent''}) \<or>
     (\<exists>a w c b. t = a @ w @ c # b \<and> to_lower w = ''goroutine'' \<and> is_ws c) \<or>
     (\<exists>a w c b. t = a @ w @ c # b \<and> to_lower w = ''/home/'' \<and> 97 \<le> code_unit (lower_char c) \<and> code_unit (lower_char c) \<le> 122) \<or>
     (\<exists>a ds b. t = a @ ''.go:'' @ ds @ b \<and> ds \<noteq> [] \<and> list_all is_digit ds) \<or>
     at_word (\<lambda>w. to_lower w = ''panic:'') t \<or>
     at_word (\<lambda>w. \<exists>n c m v. w = n @ c # m @ v \<and> to_lower n = ''nginx'' \<and> \<not> is_word c \<and>
       list_all (\<lambda>x. code_unit x \<noteq> 10 \<and> code_unit x \<noteq> 13) (c # m) \<and> version_number v) t)"

lemma matches_icase: "matches (rx_icase w) s \<longleftrightarrow> to_lower s = w"
  by (induction w arbitrary: s) (auto simp: matches_seq_cls to_lower_def Cons_eq_map_conv)

lemma matches_any: "matches rx_any s"
  by (simp add: rx_any_def matches_star_cls list_all_iff)

lemma matches_within: "matches (rx_within r) s \<longleftrightarrow> (\<exists>a w b. s = a @ w @ b \<and> matches r w)"
  by (auto simp: rx_within_def matches_seq matches_any)

lemma matches_seq_last: "matches (RSeq r (RCls p)) s \<longleftrightarrow> (\<exists>w c. s = w @ [c] \<and> matches r w \<and> p c)"
  by (auto simp: matches_seq)

lemma matches_before_word: "matches (RAlt REps (RSeq rx_any (RCls p))) a \<longleftrightarrow> a = [] \<or> p (last a)"
proof (cases a rule: rev_cases)
  case (snoc w c)
  then show ?thesis by (auto simp: matches_seq_last matches_any)
qed simp

lemma matches_at_word: "matches (rx_at_word r) s \<longleftrightarrow> at_word (matches r) s"
  by (simp add: rx_at_word_def at_word_def matches_seq [of _ "RSeq r rx_any"] matches_seq [of r] matches_any matches_before_word del: matches_alt) blast

lemma matches_version:
  "matches (RSeq rx_digits (RSeq (rx_lit ''.'') (RSeq rx_digits (RSeq (rx_lit ''.'') rx_digits)))) v \<longleftrightarrow> version_number v"
proof
  assume "version_number v"
  then obtain x y z where v: "v = x @ ''.'' @ y @ ''.'' @ z" "list_all is_digit x" "list_all is_digit y" "list_all is_digit z" "x \<noteq> []" "y \<noteq> []" "z \<noteq> []"
    by (auto simp: version_number_def)
  then have "matches rx_digits x" "matches rx_digits y" "matches rx_digits z" by (simp_all add: rx_digits_def matches_plus_cls)
  then show "matches (RSeq rx_digits (RSeq (rx_lit ''.'') (RSeq rx_digits (RSeq (rx_lit ''.'') rx_digits)))) v"
    unfolding v(1) by (intro matches.seq) (simp_all del: rx_lit.simps)
qed (auto simp: matches_seq rx_digits_def matches_plus_cls version_number_def simp del: rx_lit.simps)

lemma matches_banner:
  "matches (RSeq (rx_icase ''nginx'') (RSeq (RCls p) (RSeq (RStar (RCls q)) (RSeq rx_digits (RSeq (rx_lit ''.'') (RSeq rx_digits (RSeq (rx_lit ''.'') rx_digits)))))) ) w \<longleftrightarrow>
    (\<exists>n c m v. w = n @ c # m @ v \<and> to_lower n = ''nginx'' \<and> p c \<and> list_all q m \<and> version_number v)"
  unfolding matches_seq [of "rx_icase ''nginx''"] matches_seq_cls matches_seq [of "RStar (RCls q)"] matches_version matches_star_cls matches_icase
  by blast

lemma within_icase: "rx_full (rx_within (rx_icase u)) t \<longleftrightarrow> (\<exists>a w b. t = a @ w @ b \<and> to_lower w = u)"
  by (simp add: rx_full_iff matches_within matches_icase del: rx_icase.simps)

lemma within_icase_cls:
  "rx_full (rx_within (RSeq (rx_icase u) (RCls p))) t \<longleftrightarrow> (\<exists>a w c b. t = a @ w @ c # b \<and> to_lower w = u \<and> p c)"
proof -
  have "(\<exists>a w b. t = a @ w @ b \<and> (\<exists>x c. w = x @ [c] \<and> to_lower x = u \<and> p c)) \<longleftrightarrow> (\<exists>a w c b. t = a @ w @ c # b \<and> to_lower w = u \<and> p c)"
    by (metis append.assoc append_Cons append_Nil)
  then show ?thesis by (simp add: rx_full_iff matches_within matches_seq_last matches_icase del: rx_icase.simps)
qed

lemma split_off: "(\<exists>a w b. t = a @ w @ b \<and> (\<exists>ds. w = u @ ds \<and> P ds)) \<longleftrightarrow> (\<exists>a ds b. t = a @ u @ ds @ b \<and> P ds)"
  by (metis append.assoc)

lemma within_source_line: "rx_full (rx_within (RSeq (rx_lit ''.go:'') rx_digits)) t \<longleftrightarrow>
    (\<exists>a ds b. t = a @ ''.go:'' @ ds @ b \<and> ds \<noteq> [] \<and> list_all is_digit ds)"
proof -
  have m: "matches (RSeq (rx_lit ''.go:'') rx_digits) w \<longleftrightarrow> (\<exists>ds. w = ''.go:'' @ ds \<and> ds \<noteq> [] \<and> list_all is_digit ds)" for w
    by (simp add: matches_seq rx_digits_def matches_plus_cls del: rx_lit.simps append.simps)
  show ?thesis unfolding rx_full_iff matches_within m by (rule split_off)
qed

lemma at_word_icase: "rx_full (rx_at_word (rx_icase u)) t \<longleftrightarrow> at_word (\<lambda>w. to_lower w = u) t"
  by (simp add: rx_full_iff matches_at_word at_word_def matches_icase del: rx_icase.simps)

lemma at_word_banner: "rx_full (rx_at_word (RSeq (rx_icase ''nginx'') (RSeq (RCls p) (RSeq (RStar (RCls q)) (RSeq rx_digits (RSeq (rx_lit ''.'') (RSeq rx_digits (RSeq (rx_lit ''.'') rx_digits)))))))) t \<longleftrightarrow>
    at_word (\<lambda>w. \<exists>n c m v. w = n @ c # m @ v \<and> to_lower n = ''nginx'' \<and> p c \<and> list_all q m \<and> version_number v) t"
  unfolding rx_full_iff matches_at_word at_word_def matches_banner by (rule refl)

lemma leak_found_iff: "(\<exists>x \<in> set LEAK_PATTERNS. rx_full (snd x) t) \<longleftrightarrow> leaks t"
proof -
  have any: "(\<exists>a w b. t = a @ w @ b \<and> to_lower w \<in> {u1, u2, u3, u4}) \<longleftrightarrow>
    (\<exists>a w b. t = a @ w @ b \<and> to_lower w = u1) \<or> (\<exists>a w b. t = a @ w @ b \<and> to_lower w = u2) \<or>
    (\<exists>a w b. t = a @ w @ b \<and> to_lower w = u3) \<or> (\<exists>a w b. t = a @ w @ b \<and> to_lower w = u4)" for u1 u2 u3 u4
    by blast
  have line: "list_all (\<lambda>x. code_unit x \<noteq> 10 \<and> code_unit x \<noteq> 13) (c # m) \<longleftrightarrow>
    (code_unit c \<noteq> 10 \<and> code_unit c \<noteq> 13) \<and> list_all (\<lambda>x. code_unit x \<noteq> 10 \<and> code_unit x \<noteq> 13) m" for c m by simp
  show ?thesis
    unfolding LEAK_PATTERNS_def leaks_def list.set bex_simps snd_conv within_icase within_icase_cls within_source_line at_word_icase at_word_banner
      any line Let_def by (simp only: conj_assoc simp_thms) blast
qed

lemma leaks_Nil: "\<not> leaks []"
proof -
  have "\<not> rx_full r []" if "(n, r) \<in> set LEAK_PATTERNS" for n r
    using that by (auto simp: LEAK_PATTERNS_def rx_within_def rx_at_word_def rx_any_def)
  then show ?thesis by (force simp: leak_found_iff [symmetric])
qed

lemma sniffLeak_iff: "sniffLeak t = None \<longleftrightarrow> \<not> leaks t"
proof (cases "t = []")
  case True
  then show ?thesis by (simp add: sniffLeak_def leaks_Nil)
next
  case False
  then have "sniffLeak t = None \<longleftrightarrow> find (\<lambda>(n, r). rx_full r t) LEAK_PATTERNS = None" by (simp add: sniffLeak_def)
  also have "\<dots> \<longleftrightarrow> \<not> leaks t" unfolding leak_found_iff [symmetric] find_None_iff by (auto simp: split_def)
  finally show ?thesis .
qed

text \<open>
  The answers that pass: a JSON value of the shape the case asks for, or nothing with a status of 2xx; and
  the answers on which the harness itself throws: a JSON number, text or \<open>true\<close>, and, in a tolerant case, an
  error whose code has no text.
\<close>

definition envelope :: "fuzz_expect \<Rightarrow> jsval \<Rightarrow> bool" where
  "envelope expect v = (case v of
      JArr vs \<Rightarrow> expect \<noteq> JsonRpcError
    | JObj ps \<Rightarrow> (case expect of
        BatchArray \<Rightarrow> truthy (get_prop ps ''error'')
      | JsonRpcError \<Rightarrow> ''result'' \<in> fst ` set ps \<or> is_JNum (member_of ''code'' (get_prop ps ''error''))
      | AnyGraceful \<Rightarrow> if truthy (get_prop ps ''error'') then \<not> text_throws (member_of ''code'' (get_prop ps ''error''))
          else ''result'' \<in> fst ` set ps)
    | _ \<Rightarrow> False)"

definition blank_success :: "fuzz_expect \<Rightarrow> nat \<Rightarrow> string \<Rightarrow> bool" where
  "blank_success expect status text = (expect = AnyGraceful \<and> 200 \<le> status \<and> status < 300 \<and> list_all is_ws text)"

definition graceful :: "(string \<Rightarrow> jsval option) \<Rightarrow> fuzz_expect \<Rightarrow> rpc_reply \<Rightarrow> bool" where
  "graceful parse expect r = (case r of Replied status text \<Rightarrow> status < 500 \<and> \<not> leaks text \<and>
       (blank_success expect status text \<or> (\<exists>v. parse text = Some v \<and> envelope expect v)) | _ \<Rightarrow> False)"

definition primitive :: "jsval \<Rightarrow> bool" where
  "primitive v = (case v of JObj ps \<Rightarrow> False | JArr vs \<Rightarrow> False | _ \<Rightarrow> True)"

definition unreadable :: "fuzz_expect \<Rightarrow> jsval \<Rightarrow> bool" where
  "unreadable expect v = ((expect \<noteq> BatchArray \<and> truthy v \<and> primitive v) \<or>
     (expect = AnyGraceful \<and> truthy (member_of ''error'' v) \<and> text_throws (member_of ''code'' (member_of ''error'' v))))"

definition chokes :: "(string \<Rightarrow> jsval option) \<Rightarrow> fuzz_expect \<Rightarrow> rpc_reply \<Rightarrow> bool" where
  "chokes parse expect r = (case r of Replied status text \<Rightarrow> status < 500 \<and> \<not> leaks text \<and>
       \<not> blank_success expect status text \<and> (\<exists>v. parse text = Some v \<and> unreadable expect v) | _ \<Rightarrow> False)"

lemma code_of_error: "is_JNum (member_of ''code'' err) \<Longrightarrow> truthy err"
  by (auto simp: member_of_def is_JNum_def truthy_def split: jsval.splits)

lemma classify_shape:
  "\<not> blank_success expect status text \<Longrightarrow> status < 500 \<Longrightarrow> \<not> leaks text \<Longrightarrow>
    (fuzz_classify expect status v (is_JArr v) text = None \<longleftrightarrow> unreadable expect v) \<and>
    (\<forall>ok note. fuzz_classify expect status v (is_JArr v) text = Some (ok, note) \<longrightarrow> ok = envelope expect v)"
  unfolding fuzz_classify_def Let_def sniffLeak_iff [THEN iffD2]
  by (cases v; cases expect)
    (auto simp: blank_success_def trim_eq_Nil sniffLeak_iff [THEN iffD2] has_result_def is_JArr_def truthy_def [of "JArr _"] truthy_def [of "JObj _"]
      truthy_def [of JUndef] truthy_def [of JNull] member_of_def [of _ JUndef] member_of_def [of _ JNull] member_of_def [of _ "JObj _"] member_of_def [of _ "JArr _"]
      member_of_def [of _ "JBool _"] member_of_def [of _ "JNum _"] member_of_def [of _ "JStr _"] envelope_def primitive_def unreadable_def image_iff
      dest: code_of_error split: option.splits if_splits bool.splits)

lemma classify_early:
  "500 \<le> status \<or> leaks t \<Longrightarrow> \<exists>note. fuzz_classify expect status v b t = Some (False, note)"
proof (cases "500 \<le> status")
  case False
  assume "500 \<le> status \<or> leaks t"
  with False obtain l where "sniffLeak t = Some l" using sniffLeak_iff [of t] by auto
  with False show ?thesis by (simp add: fuzz_classify_def)
qed (simp add: fuzz_classify_def)

lemma classify_blank:
  assumes "blank_success expect status t" "status < 500" "\<not> leaks t"
  shows "fuzz_classify expect status v b t = Some (True, EmptyBody)"
proof -
  have "sniffLeak t = None" using assms(3) sniffLeak_iff by blast
  with assms show ?thesis by (simp add: fuzz_classify_def blank_success_def trim_eq_Nil)
qed

lemma verdict_of:
  "(fuzz_verdict parse expect r = None \<longleftrightarrow> chokes parse expect r) \<and>
   (\<forall>ok note. fuzz_verdict parse expect r = Some (ok, note) \<longrightarrow> ok = graceful parse expect r)"
proof (cases r)
  case (Replied status t)
  let ?v = "case parse t of None \<Rightarrow> JNull | Some v \<Rightarrow> v"
  have f: "fuzz_verdict parse expect (Replied status t) = fuzz_classify expect status ?v (is_JArr ?v) t" by (simp add: fuzz_verdict_def Let_def)
  consider "500 \<le> status \<or> leaks t" | "status < 500" "\<not> leaks t" "blank_success expect status t"
    | "status < 500" "\<not> leaks t" "\<not> blank_success expect status t" by linarith
  then show ?thesis
  proof cases
    case 1
    then show ?thesis using classify_early [OF 1, of expect ?v "is_JArr ?v"] by (auto simp: f chokes_def graceful_def Replied)
  next
    case 2
    then show ?thesis using classify_blank [OF 2(3,1,2), of ?v "is_JArr ?v"] by (auto simp: f chokes_def graceful_def Replied)
  next
    case 3
    have null: "\<not> unreadable expect JNull" "\<not> envelope expect JNull"
      by (simp_all add: truthy_def envelope_def unreadable_def member_of_def)
    from 3 show ?thesis using classify_shape [OF 3(3,1,2), of ?v] null by (cases "parse t") (auto simp: f chokes_def graceful_def Replied)
  qed
qed (simp_all add: fuzz_verdict_def chokes_def graceful_def)

lemma flags_of:
  "(fuzz_flags parse ps = None \<longleftrightarrow> list_ex (\<lambda>(ep, c, r). chokes parse (fc_expect c) r) ps) \<and>
   (\<forall>fs. fuzz_flags parse ps = Some fs \<longrightarrow> (fs = [] \<longleftrightarrow> list_all (\<lambda>(ep, c, r). graceful parse (fc_expect c) r) ps))"
proof (induction ps)
  case (Cons p ps)
  obtain ep c r where p: "p = (ep, c, r)" by (cases p)
  show ?case using verdict_of [of parse "fc_expect c" r] Cons by (auto simp: p split: option.splits)
qed simp

lemma envelope_readable: "envelope expect v \<Longrightarrow> \<not> unreadable expect v"
  by (cases v; cases expect) (auto simp: envelope_def unreadable_def primitive_def member_of_def truthy_def split: if_splits)

lemma graceful_not_chokes: "graceful parse expect r \<Longrightarrow> \<not> chokes parse expect r"
  by (cases r) (auto simp: graceful_def chokes_def dest: envelope_readable)

text \<open>
  C29. The harness exits with 0 exactly when its report could be written and every one of its probes was answered
  in time with a status below 500, a body that shows no internals, and the JSON shape its case asks for (or an
  empty success); and with 2 exactly when the report could not be written or some body makes the harness itself
  throw: a bare JSON number, text or \<open>true\<close> for a case that is not a batch, or, for a tolerant case, an error whose
  code is an object with a member \<open>toString\<close>, alone or in an array.
\<close>

theorem fuzz_passes_iff_graceful:
  "(fuzz_exit parse write_ok (fuzz_probes parse stringify block reply) = 0 \<longleftrightarrow> write_ok \<and>
     list_all (\<lambda>(ep, c, r). graceful parse (fc_expect c) r) (fuzz_probes parse stringify block reply)) \<and>
   (fuzz_exit parse write_ok (fuzz_probes parse stringify block reply) \<noteq> 2 \<longleftrightarrow> write_ok \<and>
     \<not> list_ex (\<lambda>(ep, c, r). chokes parse (fc_expect c) r) (fuzz_probes parse stringify block reply))"
proof -
  let ?ps = "fuzz_probes parse stringify block reply"
  have "list_ex (\<lambda>(ep, c, r). chokes parse (fc_expect c) r) ?ps \<Longrightarrow> \<not> list_all (\<lambda>(ep, c, r). graceful parse (fc_expect c) r) ?ps"
    using graceful_not_chokes by (fastforce simp: list_ex_iff list_all_iff)
  with flags_of [of parse ?ps] show ?thesis
    by (cases "fuzz_flags parse ?ps") (auto simp: fuzz_exit_def)
qed

text \<open>An answer that kills the harness where it should pass: an error whose code is \<open>{"toString":1}\<close>.\<close>

lemma odd_code_chokes:
  assumes "parse t = Some (JObj [(''error'', JObj [(''code'', JObj [(''toString'', JNum (Fin 1))])])])" "\<not> leaks t" "\<not> list_all is_ws t"
  shows "chokes parse AnyGraceful (Replied 200 t)"
  using assms by (simp add: chokes_def blank_success_def unreadable_def member_of_def get_prop_def truthy_def)

lemma fuzz_probes_number: "length (fuzz_probes parse stringify block reply) = 30"
  by (simp add: fuzz_probes_def ENDPOINTS_def buildCases_def Let_def del: replicate.simps upt.simps)

text \<open>An empty success passes for every tolerant case, not only for the one that is a notification.\<close>

lemma empty_answer_passes: "graceful parse AnyGraceful (Replied 200 [])"
  by (simp add: graceful_def blank_success_def leaks_Nil)

end
