(* ===== verification/Ratelimit_Probe.thy ===== *)
theory Ratelimit_Probe
  imports Rpc_Fuzz Load_Metrics
begin

text \<open>
  The probe of the rate limit, security/track3-rpc-infra/ratelimit-probe.js: sixty requests, one every 50
  milliseconds, what is found in each answer, and the report. Answers, times and the pauses between requests are arguments.
\<close>

section \<open>One request\<close>

definition probe_total :: nat where "probe_total = 60"

definition WINDOW_MS :: int where "WINDOW_MS = 3000"

text \<open>Headers are looked up by a lower-case name; a header that is empty counts as missing.\<close>

definition header_of :: "(string \<Rightarrow> string option) \<Rightarrow> string \<Rightarrow> string" where
  "header_of headers n = (case headers n of None \<Rightarrow> '''' | Some v \<Rightarrow> v)"

definition mentions :: "string \<Rightarrow> string \<Rightarrow> bool" where
  "mentions w t = rx_full (rx_within (rx_icase w)) t"

lemma mentions_iff: "mentions w t \<longleftrightarrow> str_includes (to_lower t) w"
proof -
  have "mentions w t \<longleftrightarrow> (\<exists>a m b. t = a @ m @ b \<and> map lower_char m = w)"
    by (simp add: mentions_def rx_full_iff matches_within matches_icase to_lower_def)
  also have "\<dots> \<longleftrightarrow> (\<exists>a b. map lower_char t = a @ w @ b)"
  proof
    assume "\<exists>a b. map lower_char t = a @ w @ b"
    then obtain a b where "map lower_char t = a @ w @ b" by blast
    then obtain u v where t: "t = u @ v" and "w @ b = map lower_char v" by (auto simp only: map_eq_append_conv)
    from this(2) [symmetric] obtain m c where "v = m @ c" "w = map lower_char m" by (auto simp only: map_eq_append_conv)
    with t show "\<exists>a m b. t = a @ m @ b \<and> map lower_char m = w" by blast
  qed (metis map_append)
  finally show ?thesis by (simp add: str_includes_iff to_lower_def)
qed

definition looksChallenge :: "string \<Rightarrow> bool" where
  "looksChallenge t = (list_ex (\<lambda>w. mentions w t) [''just a moment'', ''cf-challenge'', ''challenge-platform'', ''attention required'', ''cloudflare'']
     \<and> \<not> mentions ''jsonrpc'' t)"

definition detectCloudflare :: "nat \<Rightarrow> (string \<Rightarrow> string option) \<Rightarrow> string \<Rightarrow> string option" where
  "detectCloudflare status headers t = (let edge = (header_of headers ''cf-ray'' \<noteq> [] \<or> mentions ''cloudflare'' (to_lower (header_of headers ''server''))) in
     if status = 403 \<and> edge then Some ''cloudflare-403''
     else if status = 503 \<and> edge then Some ''cloudflare-503''
     else if header_of headers ''cf-mitigated'' \<noteq> [] then Some (''cf-mitigated:'' @ header_of headers ''cf-mitigated'')
     else if looksChallenge t then Some ''cf-challenge-page'' else None)"

text \<open>What a fetch ends with, and the time it ends at.\<close>

datatype fetch_end =
    Response nat "string \<Rightarrow> string option" string
  | AbortedFetch
  | FetchError string

datatype probe_result =
    Answered nat nat int "string option" "string option"
  | Broken nat int string

definition oneReq :: "nat \<Rightarrow> int \<Rightarrow> fetch_end \<Rightarrow> int \<Rightarrow> probe_result" where
  "oneReq idx started out ended = (case out of
     Response status headers t \<Rightarrow> Answered idx status (ended - started) (detectCloudflare status headers t) (headers ''retry-after'')
   | AbortedFetch \<Rightarrow> Broken idx (ended - started) ''timeout''
   | FetchError m \<Rightarrow> Broken idx (ended - started) m)"

text \<open>The times requests leave at: each one after a pause.\<close>

fun dispatched :: "int \<Rightarrow> int list \<Rightarrow> int list" where
  "dispatched t [] = []"
| "dispatched t (d # ds) = t # dispatched (t + d) ds"

section \<open>The report\<close>

definition result_key :: "probe_result \<Rightarrow> string" where
  "result_key r = (case r of Answered i st ms cf ra \<Rightarrow> dec_string st | Broken i ms e \<Rightarrow> ''ERR:'' @ e)"

definition is_broken :: "probe_result \<Rightarrow> bool" where
  "is_broken r = (case r of Answered i st ms cf ra \<Rightarrow> False | Broken i ms e \<Rightarrow> True)"

definition is_429 :: "probe_result \<Rightarrow> bool" where
  "is_429 r = (case r of Answered i st ms cf ra \<Rightarrow> st = 429 | Broken i ms e \<Rightarrow> False)"

definition is_cf :: "probe_result \<Rightarrow> bool" where
  "is_cf r = (case r of Answered i st ms cf ra \<Rightarrow> cf \<noteq> None | Broken i ms e \<Rightarrow> False)"

definition ok_latencies :: "probe_result list \<Rightarrow> int list" where
  "ok_latencies rs = List.map_filter (\<lambda>r. case r of Answered i st ms cf ra \<Rightarrow> Some ms | Broken i ms e \<Rightarrow> None) rs"

datatype probe_verdict = ProtectionActive | ManyErrors nat | NotTripped

record probe_report =
  pb_completed :: nat
  pb_status :: tally
  pb_p50 :: int
  pb_p90 :: int
  pb_max :: int
  pb_first429 :: "probe_result option"
  pb_firstCf :: "probe_result option"
  pb_firstErr :: "probe_result option"
  pb_verdict :: probe_verdict

definition probe_verdict_of :: "probe_result list \<Rightarrow> probe_verdict" where
  "probe_verdict_of rs = (if find is_429 rs \<noteq> None \<or> find is_cf rs \<noteq> None then ProtectionActive
     else (let errs = length (filter is_broken rs) in
       if js_lt (js_mul (js_of_int (int probe_total)) (Fin (dbl (3 / 10)))) (js_of_int (int errs)) then ManyErrors errs else NotTripped))"

definition probe_report_of :: "probe_result list \<Rightarrow> probe_report" where
  "probe_report_of rs = (let ls = ok_latencies rs in \<lparr>pb_completed = length rs,
     pb_status = foldl (\<lambda>m r. tally_add (result_key r) m) [] rs,
     pb_p50 = pct (1 / 2) ls, pb_p90 = pct (9 / 10) ls, pb_max = (if ls = [] then 0 else List.last (sort ls)),
     pb_first429 = find is_429 rs, pb_firstCf = find is_cf rs, pb_firstErr = find is_broken rs, pb_verdict = probe_verdict_of rs\<rparr>)"

definition ratelimit_probe :: "int \<Rightarrow> int list \<Rightarrow> (nat \<Rightarrow> fetch_end \<times> int) \<Rightarrow> probe_report" where
  "ratelimit_probe t pauses outs = probe_report_of
     (map (\<lambda>(i, s). oneReq i s (fst (outs i)) (snd (outs i))) (zip [0..<probe_total] (dispatched t pauses)))"

section \<open>What the verdict says\<close>

lemma error_share: "js_mul (js_of_int (int probe_total)) (Fin (dbl (3 / 10))) = Fin 18"
  by code_simp

lemma many_errors: "n \<le> 2 ^ 53 \<Longrightarrow> js_lt (js_mul (js_of_int (int probe_total)) (Fin (dbl (3 / 10)))) (js_of_int (int n)) \<longleftrightarrow> 18 < n"
  by (simp add: error_share js_of_int_small)

lemma dispatched_length: "length (dispatched t ds) = length ds"
  by (induction ds arbitrary: t) auto

lemma dispatched_nth: "i < length ds \<Longrightarrow> dispatched t ds ! i = t + sum_list (take i ds)"
proof (induction ds arbitrary: t i)
  case (Cons d ds)
  then show ?case by (cases i) simp_all
qed simp

lemma pauses_add_up:
  fixes ds :: "int list"
  assumes "\<forall>d \<in> set ds. p \<le> d" "j \<le> i" "i \<le> length ds"
  shows "int (i - j) * p \<le> sum_list (take i ds) - sum_list (take j ds)"
proof -
  have "take i ds = take j ds @ take (i - j) (drop j ds)" using assms(2) by (metis le_add_diff_inverse take_add)
  then have e: "sum_list (take i ds) - sum_list (take j ds) = sum_list (take (i - j) (drop j ds))" by simp
  have "int (length xs) * p \<le> sum_list xs" if "\<forall>d \<in> set xs. p \<le> d" for xs :: "int list"
    using that by (induction xs) (auto simp: algebra_simps)
  moreover have "\<forall>d \<in> set (take (i - j) (drop j ds)). p \<le> d"
    using assms(1) in_set_takeD in_set_dropD by metis
  moreover have "length (take (i - j) (drop j ds)) = i - j" using assms(2,3) by simp
  ultimately show ?thesis unfolding e by metis
qed

lemma requests_spaced:
  assumes "\<forall>d \<in> set ds. p \<le> d" "j \<le> i" "i < length ds"
  shows "int (i - j) * p \<le> dispatched t ds ! i - dispatched t ds ! j"
  using pauses_add_up [OF assms(1,2)] assms by (simp add: dispatched_nth)

text \<open>With pauses of \<open>WINDOW_MS / 60\<close>, fewer than twenty other requests left in the second before any request.\<close>

lemma at_most_twenty_a_second:
  assumes "\<forall>d \<in> set ds. 50 \<le> d" "i < length ds"
  shows "card {j. j < i \<and> dispatched t ds ! i - dispatched t ds ! j < 1000} \<le> 19"
proof -
  have "{j. j < i \<and> dispatched t ds ! i - dispatched t ds ! j < 1000} \<subseteq> {i - 19..<i}"
  proof
    fix j assume j: "j \<in> {j. j < i \<and> dispatched t ds ! i - dispatched t ds ! j < 1000}"
    then have "int (i - j) * 50 < 1000" using requests_spaced [OF assms(1) _ assms(2), of j t] by simp
    then show "j \<in> {i - 19..<i}" using j by auto
  qed
  then have "card {j. j < i \<and> dispatched t ds ! i - dispatched t ds ! j < 1000} \<le> card {i - 19..<i}" by (rule card_mono [rotated]) simp
  then show ?thesis by simp
qed

lemma find_None: "find P xs = None \<longleftrightarrow> (\<forall>x \<in> set xs. \<not> P x)"
  by (induction xs) auto

theorem probe_verdict_cases:
  assumes "length rs = probe_total"
  shows "(probe_verdict_of rs = ProtectionActive \<longleftrightarrow> list_ex (\<lambda>r. is_429 r \<or> is_cf r) rs) \<and>
    (probe_verdict_of rs = NotTripped \<longleftrightarrow> \<not> list_ex (\<lambda>r. is_429 r \<or> is_cf r) rs \<and> length (filter is_broken rs) \<le> 18)"
proof -
  have "length (filter is_broken rs) \<le> length rs" by (rule length_filter_le)
  also have "\<dots> \<le> 2 ^ 53" using assms by (simp add: probe_total_def)
  finally have n: "length (filter is_broken rs) \<le> 2 ^ 53" .
  show ?thesis
    unfolding probe_verdict_of_def Let_def many_errors [OF n] by (auto simp: find_None list_ex_iff not_less)
qed

lemma probe_results_nth:
  assumes "length pauses = probe_total"
  shows "pb_verdict (ratelimit_probe t pauses outs) = probe_verdict_of
     (map (\<lambda>i. oneReq i (dispatched t pauses ! i) (fst (outs i)) (snd (outs i))) [0..<probe_total])"
proof -
  have "zip [0..<probe_total] (dispatched t pauses) = map (\<lambda>i. (i, dispatched t pauses ! i)) [0..<probe_total]"
    by (rule nth_equalityI) (simp_all add: dispatched_length assms)
  then show ?thesis by (simp add: ratelimit_probe_def probe_report_of_def Let_def comp_def)
qed

lemma quiet_probe:
  assumes "length pauses = probe_total"
    and quiet: "\<And>i. i < probe_total \<Longrightarrow> \<exists>st h b. fst (outs i) = Response st h b \<and> st \<noteq> 429 \<and> detectCloudflare st h b = None"
  shows "pb_verdict (ratelimit_probe t pauses outs) = NotTripped"
proof -
  let ?r = "\<lambda>i. oneReq i (dispatched t pauses ! i) (fst (outs i)) (snd (outs i))"
  have "\<not> is_429 (?r i) \<and> \<not> is_cf (?r i) \<and> \<not> is_broken (?r i)" if i: "i < probe_total" for i
  proof -
    obtain st h b where "fst (outs i) = Response st h b" "st \<noteq> 429" "detectCloudflare st h b = None" using quiet [OF i] by blast
    then show ?thesis by (simp add: oneReq_def is_429_def is_cf_def is_broken_def)
  qed
  then have q: "\<forall>r \<in> set (map ?r [0..<probe_total]). \<not> is_429 r \<and> \<not> is_cf r \<and> \<not> is_broken r" by auto
  then have "filter is_broken (map ?r [0..<probe_total]) = []" by (simp add: filter_empty_conv)
  with q show ?thesis
    using probe_verdict_cases [of "map ?r [0..<probe_total]"] by (auto simp: probe_results_nth [OF assms(1)] list_ex_iff)
qed

text \<open>
  The probe cannot trip the limit it is there to test: a limiter that refuses a request only when 25 others left in the
  second before it refuses none, so the verdict is that the limit was not tripped.
\<close>

theorem probe_cannot_trip:
  assumes "length pauses = probe_total" "\<forall>d \<in> set pauses. WINDOW_MS div int probe_total \<le> d"
    and limiter: "\<And>i. i < probe_total \<Longrightarrow> refused i \<Longrightarrow> 25 \<le> card {j. j < i \<and> dispatched t pauses ! i - dispatched t pauses ! j < 1000}"
    and served: "\<And>i. i < probe_total \<Longrightarrow> \<not> refused i \<Longrightarrow> \<exists>h b. fst (outs i) = Response 200 h b \<and> detectCloudflare 200 h b = None"
  shows "(\<forall>i < probe_total. \<not> refused i) \<and> pb_verdict (ratelimit_probe t pauses outs) = NotTripped"
proof -
  have fifty: "WINDOW_MS div int probe_total = 50" by (simp add: WINDOW_MS_def probe_total_def)
  have none: "\<not> refused i" if "i < probe_total" for i
    using at_most_twenty_a_second [of pauses i t] limiter [OF that] assms(1,2) that unfolding fifty by fastforce
  moreover have "pb_verdict (ratelimit_probe t pauses outs) = NotTripped"
    by (rule quiet_probe [OF assms(1)]) (use none served in fastforce)
  ultimately show ?thesis by blast
qed

definition plain_503 :: fetch_end where
  "plain_503 = Response 503 (\<lambda>n. None) ''<h1>503 Service Temporarily Unavailable</h1>''"

definition served_block :: fetch_end where
  "served_block = Response 200 (\<lambda>n. None) ''{\"jsonrpc\":\"2.0\",\"id\":1,\"result\":\"0x10\"}''"

lemma no_edge:
  "detectCloudflare 503 (\<lambda>n. None) ''<h1>503 Service Temporarily Unavailable</h1>'' = None"
  "detectCloudflare 200 (\<lambda>n. None) ''{\"jsonrpc\":\"2.0\",\"id\":1,\"result\":\"0x10\"}'' = None"
  unfolding detectCloudflare_def looksChallenge_def mentions_iff header_of_def by code_simp+

theorem probe_cannot_trip_witness:
  "pb_verdict (ratelimit_probe 1000 (replicate 60 50) (\<lambda>i. (served_block, 2000))) = NotTripped"
proof -
  have l: "length (replicate 60 50 :: int list) = probe_total" by (simp only: length_replicate probe_total_def)
  have p: "\<forall>d \<in> set (replicate 60 50 :: int list). WINDOW_MS div int probe_total \<le> d"
    unfolding set_replicate_conv_if by (simp add: WINDOW_MS_def probe_total_def)
  show ?thesis
    by (rule probe_cannot_trip [OF l p, of "\<lambda>i. False", THEN conjunct2]) (simp_all add: served_block_def no_edge(2))
qed

text \<open>
  An endpoint that refuses every request with status 503, the status the servers reject with, is reported as not
  limited when the answer does not show the edge network.
\<close>

theorem refused_by_503_unnoticed:
  assumes "length pauses = probe_total"
  shows "pb_verdict (ratelimit_probe t pauses (\<lambda>i. (plain_503, ended))) = NotTripped"
  using no_edge(1) by (intro quiet_probe [OF assms]) (simp add: plain_503_def)

text \<open>With the header of the edge network, the refusal of the server itself is reported as one of the edge.\<close>

lemma server_refusal_blamed_on_edge:
  "detectCloudflare 503 (\<lambda>n. if n = ''cf-ray'' then Some ''8a1'' else None) ''<h1>503 Service Temporarily Unavailable</h1>'' = Some ''cloudflare-503''"
  by (simp add: detectCloudflare_def header_of_def)

end
