(* ===== verification/Stress_Contracts.thy ===== *)
theory Stress_Contracts
  imports Workload_Build Checked_Nat
begin

text \<open>
  The contracts of the stress run, stress/contracts/src/Stress.sol, one group of definitions for each, and a
  transaction as the chain executes it: native coins move first, then the contract at the address is called.
  \<open>None\<close> is a transaction that reverts and changes nothing. Fees and gas are not charged; events are left out.
  The hashes are arguments.
\<close>

section \<open>Tokens\<close>

record st20 =
  t_supply :: nat
  t_bal :: "string \<Rightarrow> nat"
  t_allow :: "string \<Rightarrow> string \<Rightarrow> nat"

definition st20_new :: st20 where
  "st20_new = \<lparr>t_supply = 0, t_bal = (\<lambda>a. 0), t_allow = (\<lambda>f s. 0)\<rparr>"

definition st20_mint :: "string \<Rightarrow> nat \<Rightarrow> st20 \<Rightarrow> st20 option" where
  "st20_mint a n t = do { s \<leftarrow> chk (t_supply t + n); v \<leftarrow> chk (t_bal t a + n); Some (t\<lparr>t_supply := s, t_bal := (t_bal t)(a := v)\<rparr>) }"

definition st20_approve :: "string \<Rightarrow> string \<Rightarrow> nat \<Rightarrow> st20 \<Rightarrow> st20" where
  "st20_approve f s n t = t\<lparr>t_allow := (t_allow t)(f := (t_allow t f)(s := n))\<rparr>"

definition st20_t :: "string \<Rightarrow> string \<Rightarrow> nat \<Rightarrow> st20 \<Rightarrow> st20 option" where
  "st20_t f a n t = do { v \<leftarrow> chk_sub (t_bal t f) n; let b = (t_bal t)(f := v); x \<leftarrow> chk (b a + n); Some (t\<lparr>t_bal := b(a := x)\<rparr>) }"

definition st20_transferFrom :: "string \<Rightarrow> string \<Rightarrow> string \<Rightarrow> nat \<Rightarrow> st20 \<Rightarrow> st20 option" where
  "st20_transferFrom sender f a n t = (let al = t_allow t f sender in
     if al \<noteq> 2 ^ 256 - 1 then do { v \<leftarrow> chk_sub al n; st20_t f a n (st20_approve f sender v t) } else st20_t f a n t)"

text \<open>The calls of a contract: the function and its arguments; a call it does not have reverts.\<close>

definition st20_call :: "string \<Rightarrow> string \<Rightarrow> call_arg list \<Rightarrow> st20 \<Rightarrow> st20 option" where
  "st20_call sender fn args t = (case args of
      [Addr a, Num n] \<Rightarrow> (if fn = ''mint'' then st20_mint a (nat n) t
        else if fn = ''approve'' then Some (st20_approve sender a (nat n) t)
        else if fn = ''transfer'' then st20_t sender a (nat n) t else None)
    | [Addr f, Addr a, Num n] \<Rightarrow> (if fn = ''transferFrom'' then st20_transferFrom sender f a (nat n) t else None)
    | _ \<Rightarrow> None)"

record st721 =
  n_next :: nat
  n_owner :: "nat \<Rightarrow> string option"
  n_bal :: "string \<Rightarrow> nat"
  n_approved :: "nat \<Rightarrow> string option"
  n_operator :: "string \<Rightarrow> string \<Rightarrow> bool"

text \<open>The address zero is \<open>None\<close>.\<close>

definition st721_new :: st721 where
  "st721_new = \<lparr>n_next = 1, n_owner = (\<lambda>i. None), n_bal = (\<lambda>a. 0), n_approved = (\<lambda>i. None), n_operator = (\<lambda>f s. False)\<rparr>"

definition st721_mint :: "string \<Rightarrow> st721 \<Rightarrow> st721 option" where
  "st721_mint a t = do { i \<leftarrow> chk (n_next t + 1); b \<leftarrow> chk (n_bal t a + 1);
     Some (t\<lparr>n_next := i, n_owner := (n_owner t)(n_next t := Some a), n_bal := (n_bal t)(a := b)\<rparr>) }"

definition st721_move :: "string \<Rightarrow> string \<Rightarrow> nat \<Rightarrow> st721 \<Rightarrow> st721 option" where
  "st721_move f a i t = do { v \<leftarrow> chk_sub (n_bal t f) 1; let b = (n_bal t)(f := v); x \<leftarrow> chk (b a + 1);
     Some (t\<lparr>n_owner := (n_owner t)(i := Some a), n_bal := b(a := x), n_approved := (n_approved t)(i := None)\<rparr>) }"

definition st721_transferFrom :: "string \<Rightarrow> string \<Rightarrow> string \<Rightarrow> nat \<Rightarrow> st721 \<Rightarrow> st721 option" where
  "st721_transferFrom sender f a i t = do { guard (n_owner t i = Some f);
     guard (sender = f \<or> n_approved t i = Some sender \<or> n_operator t f sender); st721_move f a i t }"

definition st721_call :: "string \<Rightarrow> string \<Rightarrow> call_arg list \<Rightarrow> st721 \<Rightarrow> st721 option" where
  "st721_call sender fn args t = (case args of
      [Addr a] \<Rightarrow> (if fn = ''mint'' then st721_mint a t else None)
    | [Addr f, Addr a, Num i] \<Rightarrow> (if fn = ''transferFrom'' then st721_transferFrom sender f a (nat i) t else None)
    | _ \<Rightarrow> None)"

text \<open>StressNFT takes the id of the caller; it has no operators.\<close>

definition nft2_mint :: "string \<Rightarrow> nat \<Rightarrow> st721 \<Rightarrow> st721 option" where
  "nft2_mint a i t = do { guard (n_owner t i = None); b \<leftarrow> chk (n_bal t a + 1);
     Some (t\<lparr>n_owner := (n_owner t)(i := Some a), n_bal := (n_bal t)(a := b)\<rparr>) }"

definition nft2_transferFrom :: "string \<Rightarrow> string \<Rightarrow> string \<Rightarrow> nat \<Rightarrow> st721 \<Rightarrow> st721 option" where
  "nft2_transferFrom sender f a i t = do { guard (n_owner t i = Some f); guard (sender = f \<or> n_approved t i = Some sender);
     st721_move f a i t }"

definition nft2_call :: "string \<Rightarrow> string \<Rightarrow> call_arg list \<Rightarrow> st721 \<Rightarrow> st721 option" where
  "nft2_call sender fn args t = (case args of
      [Addr a, Num i] \<Rightarrow> (if fn = ''mint'' then nft2_mint a (nat i) t else None)
    | [Addr f, Addr a, Num i] \<Rightarrow> (if fn = ''transferFrom'' then nft2_transferFrom sender f a (nat i) t else None)
    | _ \<Rightarrow> None)"

record st1155 =
  m_bal :: "nat \<Rightarrow> string \<Rightarrow> nat"
  m_operator :: "string \<Rightarrow> string \<Rightarrow> bool"

definition st1155_new :: st1155 where
  "st1155_new = \<lparr>m_bal = (\<lambda>i a. 0), m_operator = (\<lambda>f s. False)\<rparr>"

definition st1155_set :: "nat \<Rightarrow> string \<Rightarrow> nat \<Rightarrow> st1155 \<Rightarrow> st1155" where
  "st1155_set i a n t = t\<lparr>m_bal := (m_bal t)(i := (m_bal t i)(a := n))\<rparr>"

definition st1155_mint :: "string \<Rightarrow> nat \<Rightarrow> nat \<Rightarrow> st1155 \<Rightarrow> st1155 option" where
  "st1155_mint a i n t = do { v \<leftarrow> chk (m_bal t i a + n); Some (st1155_set i a v t) }"

definition st1155_transferFrom :: "string \<Rightarrow> string \<Rightarrow> string \<Rightarrow> nat \<Rightarrow> nat \<Rightarrow> st1155 \<Rightarrow> st1155 option" where
  "st1155_transferFrom sender f a i n t = do { guard (sender = f \<or> m_operator t f sender); v \<leftarrow> chk_sub (m_bal t i f) n;
     let t1 = st1155_set i f v t; x \<leftarrow> chk (m_bal t1 i a + n); Some (st1155_set i a x t1) }"

definition st1155_call :: "string \<Rightarrow> string \<Rightarrow> call_arg list \<Rightarrow> st1155 \<Rightarrow> st1155 option" where
  "st1155_call sender fn args t = (case args of
      [Addr a, Num i, Num n] \<Rightarrow> (if fn = ''mint'' then st1155_mint a (nat i) (nat n) t else None)
    | [Addr f, Addr a, Num i, Num n, Text d] \<Rightarrow>
        (if fn = ''safeTransferFrom'' then st1155_transferFrom sender f a (nat i) (nat n) t else None)
    | _ \<Rightarrow> None)"

section \<open>Storage and the gas bomb\<close>

record hashes =
  h_cell :: "nat \<Rightarrow> nat \<Rightarrow> nat"
  h_bomb :: "nat \<Rightarrow> nat \<Rightarrow> nat"

record cells =
  c_store :: "nat \<Rightarrow> nat"
  c_counter :: nat

definition cells_new :: cells where
  "cells_new = \<lparr>c_store = (\<lambda>k. 0), c_counter = 0\<rparr>"

definition cells_put :: "nat \<Rightarrow> nat \<Rightarrow> cells \<Rightarrow> cells" where
  "cells_put k v t = t\<lparr>c_store := (c_store t)(k mod 1024 := v)\<rparr>"

definition cells_count :: "cells \<Rightarrow> cells option" where
  "cells_count t = do { n \<leftarrow> chk (c_counter t + 1); Some (t\<lparr>c_counter := n\<rparr>) }"

text \<open>The hashing loops are folds over the numbers below the bound.\<close>

definition cells_call :: "hashes \<Rightarrow> string \<Rightarrow> call_arg list \<Rightarrow> cells \<Rightarrow> cells option" where
  "cells_call H fn args t = (case args of
      [Num k, Num v] \<Rightarrow> (if fn = ''set'' then cells_count (cells_put (nat k) (nat v) t) else None)
    | [Num n] \<Rightarrow> (if fn = ''loop'' then (let x = foldl (h_cell H) (c_counter t) [0..<nat n] in cells_count (cells_put x x t)) else None)
    | [Text d] \<Rightarrow> (if fn = ''sink'' then cells_count t else None)
    | _ \<Rightarrow> None)"

definition bomb_call :: "hashes \<Rightarrow> string \<Rightarrow> call_arg list \<Rightarrow> nat \<Rightarrow> nat option" where
  "bomb_call H fn args acc = (case args of [Num n] \<Rightarrow> (if fn = ''burn'' then Some (foldl (h_bomb H) acc [0..<nat n]) else None) | _ \<Rightarrow> None)"

section \<open>The exchange\<close>

type_synonym pool_key = "string \<times> string"

record sdex =
  p_res :: "pool_key \<Rightarrow> nat \<times> nat"
  p_lp :: "pool_key \<Rightarrow> string \<Rightarrow> nat"
  p_total :: "pool_key \<Rightarrow> nat"

definition sdex_new :: sdex where
  "sdex_new = \<lparr>p_res = (\<lambda>k. (0, 0)), p_lp = (\<lambda>k a. 0), p_total = (\<lambda>k. 0)\<rparr>"

text \<open>\<open>below\<close> is the order of addresses as numbers; the hash of the sorted pair stands for the pair.\<close>

definition dex_key :: "(string \<Rightarrow> string \<Rightarrow> bool) \<Rightarrow> string \<Rightarrow> string \<Rightarrow> pool_key" where
  "dex_key below a b = (if below a b then (a, b) else (b, a))"

datatype st_contract = Token20 st20 | Token721 st721 | Token1155 st1155 | Cells cells | Bomb nat | Disperser | Dex sdex | Nft2 st721

record chain_world =
  cw_code :: "string \<Rightarrow> st_contract option"
  cw_native :: "string \<Rightarrow> nat"

definition put_code :: "string \<Rightarrow> st_contract \<Rightarrow> chain_world \<Rightarrow> chain_world" where
  "put_code a c w = w\<lparr>cw_code := (cw_code w)(a := Some c)\<rparr>"

text \<open>Calls of the exchange to a token, with the exchange as the sender.\<close>

definition token_pull :: "string \<Rightarrow> string \<Rightarrow> string \<Rightarrow> nat \<Rightarrow> chain_world \<Rightarrow> chain_world option" where
  "token_pull me token f n w = (case cw_code w token of
      Some (Token20 t) \<Rightarrow> map_option (\<lambda>t. put_code token (Token20 t) w) (st20_transferFrom me f me n t)
    | _ \<Rightarrow> None)"

definition token_pay :: "string \<Rightarrow> string \<Rightarrow> string \<Rightarrow> nat \<Rightarrow> chain_world \<Rightarrow> chain_world option" where
  "token_pay me token a n w = (case cw_code w token of
      Some (Token20 t) \<Rightarrow> map_option (\<lambda>t. put_code token (Token20 t) w) (st20_t me a n t)
    | _ \<Rightarrow> None)"

definition dex_grow :: "pool_key \<Rightarrow> string \<Rightarrow> nat \<Rightarrow> nat \<Rightarrow> sdex \<Rightarrow> sdex option" where
  "dex_grow k sender a0 a1 d = (case p_res d k of (rA, rB) \<Rightarrow> do {
     share \<leftarrow> (if p_total d k = 0 then chk (a0 + a1) else map_option (\<lambda>x. x div (if rA = 0 then 1 else rA)) (chk (a0 * p_total d k)));
     rA' \<leftarrow> chk (rA + a0); rB' \<leftarrow> chk (rB + a1); l \<leftarrow> chk (p_lp d k sender + share); tl \<leftarrow> chk (p_total d k + share);
     Some (d\<lparr>p_res := (p_res d)(k := (rA', rB')), p_lp := (p_lp d)(k := (p_lp d k)(sender := l)), p_total := (p_total d)(k := tl)\<rparr>) })"

definition dex_addLiquidity :: "(string \<Rightarrow> string \<Rightarrow> bool) \<Rightarrow> string \<Rightarrow> string \<Rightarrow> string \<Rightarrow> string \<Rightarrow> nat \<Rightarrow> nat \<Rightarrow> chain_world \<Rightarrow> chain_world option" where
  "dex_addLiquidity below me sender a b amtA amtB w = (let k = dex_key below a b;
       (a0, a1) = (if a = fst k then (amtA, amtB) else (amtB, amtA)) in do {
     w1 \<leftarrow> token_pull me (fst k) sender a0 w;
     w2 \<leftarrow> token_pull me (snd k) sender a1 w1;
     case cw_code w2 me of Some (Dex d) \<Rightarrow> map_option (\<lambda>d. put_code me (Dex d) w2) (dex_grow k sender a0 a1 d) | _ \<Rightarrow> None })"

definition dex_shrink :: "pool_key \<Rightarrow> string \<Rightarrow> nat \<Rightarrow> sdex \<Rightarrow> (sdex \<times> nat \<times> nat) option" where
  "dex_shrink k sender share d = (case p_res d k of (rA, rB) \<Rightarrow> do {
     guard (0 < p_total d k);
     xA \<leftarrow> chk (rA * share); xB \<leftarrow> chk (rB * share);
     let outA = xA div p_total d k; let outB = xB div p_total d k;
     rA' \<leftarrow> chk_sub rA outA; rB' \<leftarrow> chk_sub rB outB; l \<leftarrow> chk_sub (p_lp d k sender) share; tl \<leftarrow> chk_sub (p_total d k) share;
     Some (d\<lparr>p_res := (p_res d)(k := (rA', rB')), p_lp := (p_lp d)(k := (p_lp d k)(sender := l)), p_total := (p_total d)(k := tl)\<rparr>, outA, outB) })"

definition dex_removeLiquidity :: "(string \<Rightarrow> string \<Rightarrow> bool) \<Rightarrow> string \<Rightarrow> string \<Rightarrow> string \<Rightarrow> string \<Rightarrow> nat \<Rightarrow> chain_world \<Rightarrow> chain_world option" where
  "dex_removeLiquidity below me sender a b share w = (let k = dex_key below a b in case cw_code w me of
      Some (Dex d) \<Rightarrow> (case dex_shrink k sender share d of None \<Rightarrow> None
        | Some (d', outA, outB) \<Rightarrow> do { w1 \<leftarrow> token_pay me (fst k) sender outA (put_code me (Dex d') w); token_pay me (snd k) sender outB w1 })
    | _ \<Rightarrow> None)"

text \<open>The amount paid out, from the reserves of the two sides; and the pool after the trade.\<close>

definition dex_out :: "nat \<Rightarrow> nat \<Rightarrow> nat \<Rightarrow> nat option" where
  "dex_out rin rout amtIn = do {
     x \<leftarrow> chk (amtIn * 997); let fee = x div 1000;
     num \<leftarrow> chk (rout * fee); den \<leftarrow> chk (rin + fee); Some (num div den) }"

definition dex_trade :: "pool_key \<Rightarrow> bool \<Rightarrow> nat \<Rightarrow> nat \<Rightarrow> sdex \<Rightarrow> sdex option" where
  "dex_trade k inIs0 amtIn out d = (case p_res d k of (rA, rB) \<Rightarrow>
     if inIs0 then do { x \<leftarrow> chk (rA + amtIn); y \<leftarrow> chk_sub rB out; Some (d\<lparr>p_res := (p_res d)(k := (x, y))\<rparr>) }
     else do { x \<leftarrow> chk (rB + amtIn); y \<leftarrow> chk_sub rA out; Some (d\<lparr>p_res := (p_res d)(k := (y, x))\<rparr>) })"

definition dex_swap :: "(string \<Rightarrow> string \<Rightarrow> bool) \<Rightarrow> string \<Rightarrow> string \<Rightarrow> string \<Rightarrow> string \<Rightarrow> nat \<Rightarrow> nat \<Rightarrow> chain_world \<Rightarrow> chain_world option" where
  "dex_swap below me sender tin tout amtIn minOut w = (let k = dex_key below tin tout; inIs0 = (tin = fst k) in case cw_code w me of
      Some (Dex d) \<Rightarrow> (let (rin, rout) = (if inIs0 then p_res d k else (snd (p_res d k), fst (p_res d k))) in do {
        guard (0 < rin \<and> 0 < rout);
        w1 \<leftarrow> token_pull me tin sender amtIn w;
        out \<leftarrow> dex_out rin rout amtIn;
        guard (minOut \<le> out);
        d' \<leftarrow> dex_trade k inIs0 amtIn out d;
        token_pay me tout sender out (put_code me (Dex d') w1) })
    | _ \<Rightarrow> None)"

definition dex_call :: "(string \<Rightarrow> string \<Rightarrow> bool) \<Rightarrow> string \<Rightarrow> string \<Rightarrow> string \<Rightarrow> call_arg list \<Rightarrow> chain_world \<Rightarrow> chain_world option" where
  "dex_call below me sender fn args w = (case args of
      [Addr a, Addr b, Num x, Num y] \<Rightarrow> (if fn = ''addLiquidity'' then dex_addLiquidity below me sender a b (nat x) (nat y) w
        else if fn = ''swap'' then dex_swap below me sender a b (nat x) (nat y) w else None)
    | [Addr a, Addr b, Num s] \<Rightarrow> (if fn = ''removeLiquidity'' then dex_removeLiquidity below me sender a b (nat s) w else None)
    | _ \<Rightarrow> None)"

section \<open>Native coins\<close>

text \<open>None of the contracts takes coins that come without a call.\<close>

definition move_native :: "string \<Rightarrow> string \<Rightarrow> nat \<Rightarrow> chain_world \<Rightarrow> chain_world option" where
  "move_native f a n w = do { v \<leftarrow> chk_sub (cw_native w f) n; let m = (cw_native w)(f := v); Some (w\<lparr>cw_native := m(a := m a + n)\<rparr>) }"

definition send_native :: "string \<Rightarrow> string \<Rightarrow> nat \<Rightarrow> chain_world \<Rightarrow> chain_world option" where
  "send_native f a n w = do { guard (cw_code w a = None); move_native f a n w }"

fun disperse_loop :: "string \<Rightarrow> string list \<Rightarrow> nat list \<Rightarrow> chain_world \<Rightarrow> chain_world option" where
  "disperse_loop me [] ns w = Some w"
| "disperse_loop me (a # as) [] w = None"
| "disperse_loop me (a # as) (n # ns) w = (case send_native me a n w of None \<Rightarrow> None | Some w1 \<Rightarrow> disperse_loop me as ns w1)"

definition disperse :: "string \<Rightarrow> string \<Rightarrow> string list \<Rightarrow> nat list \<Rightarrow> chain_world \<Rightarrow> chain_world option" where
  "disperse me sender as ns w = (case disperse_loop me as ns w of None \<Rightarrow> None
     | Some w1 \<Rightarrow> if 0 < cw_native w1 me then send_native me sender (cw_native w1 me) w1 else Some w1)"

section \<open>Transactions\<close>

definition contract_call :: "hashes \<Rightarrow> (string \<Rightarrow> string \<Rightarrow> bool) \<Rightarrow> string \<Rightarrow> string \<Rightarrow> string \<Rightarrow> call_arg list \<Rightarrow> st_contract \<Rightarrow> chain_world \<Rightarrow> chain_world option" where
  "contract_call H below me sender fn args c w = (case c of
      Token20 t \<Rightarrow> map_option (\<lambda>t. put_code me (Token20 t) w) (st20_call sender fn args t)
    | Token721 t \<Rightarrow> map_option (\<lambda>t. put_code me (Token721 t) w) (st721_call sender fn args t)
    | Token1155 t \<Rightarrow> map_option (\<lambda>t. put_code me (Token1155 t) w) (st1155_call sender fn args t)
    | Nft2 t \<Rightarrow> map_option (\<lambda>t. put_code me (Nft2 t) w) (nft2_call sender fn args t)
    | Cells t \<Rightarrow> map_option (\<lambda>t. put_code me (Cells t) w) (cells_call H fn args t)
    | Bomb n \<Rightarrow> map_option (\<lambda>n. put_code me (Bomb n) w) (bomb_call H fn args n)
    | Dex d \<Rightarrow> dex_call below me sender fn args w
    | Disperser \<Rightarrow> (case args of [Addrs as, Nums ns] \<Rightarrow> (if fn = ''disperse'' then disperse me sender as (map nat ns) w else None) | _ \<Rightarrow> None))"

text \<open>
  A transaction with no target creates a contract at the address \<open>fresh\<close>; the run creates only Storage. Native
  coins sent to a function that does not take them revert.
\<close>

definition chain_tx :: "hashes \<Rightarrow> (string \<Rightarrow> string \<Rightarrow> bool) \<Rightarrow> string \<Rightarrow> string \<Rightarrow> tx_request \<Rightarrow> chain_world \<Rightarrow> chain_world option" where
  "chain_tx H below fresh sender r w = (case rq_to r of
      None \<Rightarrow> (case rq_data r of Raw b \<Rightarrow> if rq_value r = 0 then Some (put_code fresh (Cells cells_new) w) else None | _ \<Rightarrow> None)
    | Some a \<Rightarrow> (case cw_code w a of
        None \<Rightarrow> move_native sender a (nat (rq_value r)) w
      | Some c \<Rightarrow> (case rq_data r of
          Call i fn args \<Rightarrow> if rq_value r = 0 \<or> c = Disperser
            then Option.bind (move_native sender a (nat (rq_value r)) w) (contract_call H below a sender fn args c) else None
        | _ \<Rightarrow> None)))"

text \<open>Transactions that are waited for: the first that reverts ends the script.\<close>

fun chain_txs :: "hashes \<Rightarrow> (string \<Rightarrow> string \<Rightarrow> bool) \<Rightarrow> (string \<times> tx_request) list \<Rightarrow> chain_world \<Rightarrow> chain_world option" where
  "chain_txs H below [] w = Some w"
| "chain_txs H below ((f, r) # rs) w = (case chain_tx H below [] f r w of None \<Rightarrow> None | Some w1 \<Rightarrow> chain_txs H below rs w1)"

end
