(* ===== verification/Stress_Suite.thy ===== *)
theory Stress_Suite
  imports Stress_Contracts Stress_Run Seeding
begin

text \<open>
  The scripts around a stress run: 01-deploy-suite.js with build-artifacts.mjs, 02-fund-wallets.js,
  02b-bootstrap.js, 99-sweep.js and sweep2.mjs of stress/scripts, and direct-fund.mjs and drain-to-founder.mjs of
  stress. A transaction that is waited for is executed on the chain of Stress_Contracts; answers of the node are
  arguments. The gas of a request that the library estimates is left at 0.
\<close>

section \<open>Deployment\<close>

text \<open>The contracts that are compiled, and the suite in its order: variable, artifact, texts of the constructor.\<close>

definition STRESS_ARTIFACTS :: "string list" where
  "STRESS_ARTIFACTS = [''StressERC20'', ''StressERC721'', ''StressERC1155'', ''Storage'', ''GasBomb'', ''Disperse'', ''StressDex'', ''StressNFT'']"

definition STRESS_SUITE :: "(string \<times> string \<times> string list) list" where
  "STRESS_SUITE = [(''t0'', ''StressERC20'', [''Stress Token 0'', ''ST0'']), (''t1'', ''StressERC20'', [''Stress Token 1'', ''ST1'']),
     (''erc721'', ''StressERC721'', [''Stress NFT'', ''SNFT'']), (''erc1155'', ''StressERC1155'', []), (''storage'', ''Storage'', []),
     (''gasbomb'', ''GasBomb'', []), (''disperse'', ''Disperse'', []), (''dex'', ''StressDex'', [])]"

definition new_contract :: "string \<Rightarrow> st_contract option" where
  "new_contract k = map_of [(''StressERC20'', Token20 st20_new), (''StressERC721'', Token721 st721_new), (''StressERC1155'', Token1155 st1155_new),
     (''Storage'', Cells cells_new), (''GasBomb'', Bomb 0), (''Disperse'', Disperser), (''StressDex'', Dex sdex_new), (''StressNFT'', Nft2 st721_new)] k"

text \<open>The address of each new contract, in order; \<open>None\<close> is a deployment that fails.\<close>

fun deploy_contracts :: "(string \<times> string \<times> string list) list \<Rightarrow> string option list \<Rightarrow> (string \<times> string) list \<times> chain_world
    \<Rightarrow> ((string \<times> string) list \<times> chain_world) option" where
  "deploy_contracts [] as s = Some s"
| "deploy_contracts ((v, k, xs) # ss) (Some a # as) (vars, w) = (case new_contract k of None \<Rightarrow> None
     | Some c \<Rightarrow> deploy_contracts ss as (vars @ [(v, a)], put_code a c w))"
| "deploy_contracts (s # ss) _ _ = None"

definition SEED :: int where "SEED = 10 ^ 30"

text \<open>A variable of the suite; \<open>undefined\<close> is what a property that was not written is, read from JSON.\<close>

definition suite_addr :: "(string \<times> string) list \<Rightarrow> string \<Rightarrow> string" where
  "suite_addr vars v = (case map_of vars v of Some a \<Rightarrow> a | None \<Rightarrow> ''undefined'')"

definition seed_requests :: "string \<Rightarrow> (string \<times> string) list \<Rightarrow> (string \<times> tx_request) list" where
  "seed_requests funder vars = (let A = suite_addr vars in
     concat (map (\<lambda>t. [(funder, tx (A t) (Call ''erc20'' ''mint'' [Addr funder, Num SEED]) 0 0),
       (funder, tx (A t) (Call ''erc20'' ''approve'' [Addr (A ''dex''), Num (2 ^ 255)]) 0 0)]) [''t0'', ''t1'']) @
     [(funder, tx (A ''dex'') (Call ''dex'' ''addLiquidity'' [Addr (A ''t0''), Addr (A ''t1''), Num (10 ^ 24), Num (10 ^ 24)]) 0 0)])"

text \<open>The script; the addresses it writes are those of the suite.\<close>

definition stress_deploy :: "hashes \<Rightarrow> (string \<Rightarrow> string \<Rightarrow> bool) \<Rightarrow> env \<Rightarrow> string \<Rightarrow> string option list \<Rightarrow> chain_world
    \<Rightarrow> string + (string \<times> string) list \<times> chain_world" where
  "stress_deploy H below env funder answers w = (if env ''FUNDER_PK'' \<in> {None, Some []} then Inl ''FUNDER_PK not set in .env''
     else case deploy_contracts STRESS_SUITE answers ([], w) of None \<Rightarrow> Inl ''deployment failed''
       | Some (vars, w1) \<Rightarrow> (case chain_txs H below (seed_requests funder vars) w1 of None \<Rightarrow> Inl ''transaction reverted''
           | Some w2 \<Rightarrow> Inr (vars, w2)))"

section \<open>Funding\<close>

definition fund_request :: "string \<Rightarrow> string \<Rightarrow> int \<Rightarrow> seed_wallet list \<Rightarrow> string \<times> tx_request" where
  "fund_request funder disp per ws = (funder, tx disp (Call ''disperse'' ''disperse''
     [Addrs (map sw_addr ws), Nums (map (\<lambda>w. per) ws)]) (per * int (length ws)) 0)"

definition fund_wallets :: "string \<Rightarrow> (string \<times> string) list \<Rightarrow> int \<Rightarrow> seed_wallet list \<Rightarrow> (string \<times> tx_request) list" where
  "fund_wallets funder vars per ws = map (fund_request funder (suite_addr vars ''disperse'') per) (chunks ws 100)"

definition fund_per_wallet :: "(string \<Rightarrow> string + int) \<Rightarrow> env \<Rightarrow> string + int" where
  "fund_per_wallet parse_ether env = parse_ether (env_or env ''FUND_PER_WALLET'' ''2.0'')"

section \<open>Bootstrap\<close>

definition bootstrap_ops :: "(string \<times> string) list \<Rightarrow> seed_wallet \<Rightarrow> tx_request list" where
  "bootstrap_ops vars s = (let A = suite_addr vars in
     [tx (A ''t0'') (Call ''erc20'' ''mint'' [Addr (sw_addr s), Num (10 ^ 24)]) 0 70000,
      tx (A ''t1'') (Call ''erc20'' ''mint'' [Addr (sw_addr s), Num (10 ^ 24)]) 0 70000,
      tx (A ''t0'') (Call ''erc20'' ''approve'' [Addr (A ''dex''), Num (2 ^ 255)]) 0 60000,
      tx (A ''t1'') (Call ''erc20'' ''approve'' [Addr (A ''dex''), Num (2 ^ 255)]) 0 60000,
      tx (A ''erc1155'') (Call ''erc1155'' ''mint'' [Addr (sw_addr s), Num (int (sw_index s)), Num 1000000]) 0 70000])"

text \<open>
  One wallet submits its operations one after the other; each has the error of the signer, the answer to the
  submission and a count for the resynchronisation. The result is what was handed to the node, with the nonces,
  and the numbers of operations counted as good and as failed.
\<close>

record boot_result =
  br_sent :: "(int \<times> tx_request) list"
  br_ok :: nat
  br_fail :: nat

fun bootstrap_wallet :: "string \<Rightarrow> (tx_request \<times> string option \<times> string option \<times> (string + int)) list \<Rightarrow> nonce_mgr \<Rightarrow> boot_result \<times> nonce_mgr" where
  "bootstrap_wallet a [] nm = (\<lparr>br_sent = [], br_ok = 0, br_fail = 0\<rparr>, nm)"
| "bootstrap_wallet a ((r, se, an, count) # ops) nm = (case stress_sendRaw a se an count nm of (res, nm1) \<Rightarrow>
     (case bootstrap_wallet a ops nm1 of (b, nm2) \<Rightarrow> (case res of
         SentOk n \<Rightarrow> b\<lparr>br_sent := (n, r) # br_sent b, br_ok := br_ok b + 1\<rparr>
       | SentSoft n m \<Rightarrow> b\<lparr>br_sent := (n, r) # br_sent b, br_ok := br_ok b + 1\<rparr>
       | SentDropped n m \<Rightarrow> b\<lparr>br_ok := br_ok b + 1\<rparr>
       | SendThrew m \<Rightarrow> b\<lparr>br_fail := br_fail b + 1\<rparr>, nm2)))"

text \<open>The last line looks at the first wallet alone; with no wallet it throws.\<close>

definition bootstrap_done :: "(string \<times> string) list \<Rightarrow> seed_wallet list \<Rightarrow> chain_world \<Rightarrow> bool option" where
  "bootstrap_done vars ws w = (case ws of [] \<Rightarrow> None | s # _ \<Rightarrow>
     (case cw_code w (suite_addr vars ''t0'') of Some (Token20 t) \<Rightarrow> Some (0 < t_bal t (sw_addr s)) | _ \<Rightarrow> None))"

section \<open>Sweeping\<close>

definition sweep_gasCost :: "int \<Rightarrow> int" where
  "sweep_gasCost maxFee = maxFee * 25000"

text \<open>
  A wallet is asked for its balance and count, the transfer is sent, and 99-sweep.js waits for it; each may fail,
  and \<open>waited\<close> says whether the script waits.
\<close>

record sweep_answers =
  sa_balance :: "int option"
  sa_count :: "int option"
  sa_sent :: bool
  sa_mined :: bool

datatype sweep_result = Swept int | SweepSkipped | SweepFailed

definition sweep_one :: "bool \<Rightarrow> int \<Rightarrow> sweep_answers \<Rightarrow> sweep_result" where
  "sweep_one waited gasCost s = (case sa_balance s of None \<Rightarrow> SweepFailed
     | Some b \<Rightarrow> if b \<le> gasCost then SweepSkipped
         else if sa_count s = None \<or> \<not> sa_sent s \<or> (waited \<and> \<not> sa_mined s) then SweepFailed else Swept (b - gasCost))"

definition sweep_js :: "(string \<Rightarrow> string + int) \<Rightarrow> env \<Rightarrow> sweep_answers list \<Rightarrow> string + sweep_result list" where
  "sweep_js parse_gwei env rs = (case parse_gwei (env_or env ''MAX_FEE_GWEI'' ''3'') of Inl e \<Rightarrow> Inl e
     | Inr maxFee \<Rightarrow> (case parse_gwei (env_or env ''PRIORITY_FEE_GWEI'' ''1'') of Inl e \<Rightarrow> Inl e
       | Inr prio \<Rightarrow> Inr (concat (map (map (sweep_one True (sweep_gasCost maxFee))) (chunks rs 60)))))"

definition sweep2_mjs :: "sweep_answers list \<Rightarrow> sweep_result list" where
  "sweep2_mjs rs = concat (map (map (sweep_one False (sweep_gasCost (8 * 10 ^ 9)))) (chunks rs 20))"

text \<open>What is reported: the sum returned, and the numbers sent, skipped and failed.\<close>

definition swept_amount :: "sweep_result \<Rightarrow> int" where
  "swept_amount r = (case r of Swept v \<Rightarrow> v | _ \<Rightarrow> 0)"

definition sweep_report :: "sweep_result list \<Rightarrow> int \<times> nat \<times> nat \<times> nat" where
  "sweep_report rs = (sum_list (map swept_amount rs), length (filter (\<lambda>r. r \<noteq> SweepSkipped \<and> r \<noteq> SweepFailed) rs),
     length (filter (\<lambda>r. r = SweepSkipped) rs), length (filter (\<lambda>r. r = SweepFailed) rs))"

section \<open>Funding directly, and draining\<close>

text \<open>Every wallet gets 15 coins, with nonces from the count of the funder; the first refusal ends the script.\<close>

fun direct_sends :: "(string \<Rightarrow> bool) \<Rightarrow> int \<Rightarrow> seed_wallet list \<Rightarrow> (string \<times> int \<times> int) list \<times> bool" where
  "direct_sends ok n [] = ([], True)"
| "direct_sends ok n (w # ws) = (if ok (sw_addr w) then (case direct_sends ok (n + 1) ws of (sent, fin) \<Rightarrow> ((sw_addr w, 15 * 10 ^ 18, n) # sent, fin))
     else ([], False))"

text \<open>The rest waits for the last transaction, and reads four wallets of the list for its last lines.\<close>

definition direct_sample :: "seed_wallet list \<Rightarrow> string list option" where
  "direct_sample ws = those (map (\<lambda>i. if i < length ws then Some (sw_addr (ws ! i)) else None) [0, 1, 150, 299])"

definition direct_fund :: "(string \<Rightarrow> bool) \<Rightarrow> int \<Rightarrow> bool \<Rightarrow> seed_wallet list \<Rightarrow> (string \<times> int \<times> int) list \<times> bool" where
  "direct_fund ok n landed ws = (case direct_sends ok n ws of (sent, fin) \<Rightarrow>
     (sent, fin \<and> sent \<noteq> [] \<and> landed \<and> direct_sample ws \<noteq> None))"

definition drain_maxFee :: "int \<Rightarrow> int" where
  "drain_maxFee base = (if base = 0 then 5 * 10 ^ 9 else base) * 3 + 10 ^ 9"

definition drain_gasResv :: "int \<Rightarrow> int" where
  "drain_gasResv base = 21000 * drain_maxFee base"

text \<open>A wallet is its balance and whether its transfer is accepted; the sum of the balances, and of the transfers.\<close>

fun drain_wallets :: "int \<Rightarrow> (int \<times> bool) list \<Rightarrow> int \<times> int" where
  "drain_wallets resv [] = (0, 0)"
| "drain_wallets resv ((b, ok) # ws) = (case drain_wallets resv ws of (sm, ret) \<Rightarrow>
     (sm + b, if resv < b \<and> ok then ret + (b - resv) else ret))"

text \<open>The funder's transfer is not caught; then the report: gas spent, and what was returned.\<close>

definition drain_report :: "int \<Rightarrow> (int \<times> bool) list \<Rightarrow> int \<times> bool \<Rightarrow> (int \<times> int) option" where
  "drain_report base ws f = (let resv = drain_gasResv base in case (drain_wallets resv ws, f) of ((sm, ret), (fbal, ok)) \<Rightarrow>
     if resv < fbal \<and> \<not> ok then None
     else Some (4500 * 10 ^ 18 - sm, if resv < fbal then ret + (fbal - resv) else ret))"

section \<open>What the scripts report\<close>

lemma bootstrap_counts: "bootstrap_wallet a ops nm = (b, nm') \<Longrightarrow> br_ok b + br_fail b = length ops"
  by (induction ops arbitrary: nm b nm') (auto split: prod.splits submission.splits)

text \<open>
  A wallet whose submissions are all accepted sends its operations with consecutive nonces, in order.
\<close>

lemma bootstrap_accepted:
  assumes "map_of (next_nonce nm) a = Some n" "\<forall>(r, se, an, c) \<in> set ops. se = None \<and> an = None"
  shows "br_sent (fst (bootstrap_wallet a ops nm)) = zip [n..n + int (length ops) - 1] (map fst ops)"
  using assms
proof (induction ops arbitrary: nm n)
  case (Cons x ops)
  obtain r c where x: "x = (r, None, None, c)" using Cons.prems(2) by (cases x) auto
  obtain k nm1 where t: "nm_take a nm = (k, nm1)" by fastforce
  have k: "k = n" "map_of (next_nonce nm1) a = Some (n + 1)" using t Cons.prems(1) next_of_take [of a nm a] by (auto simp: nm_take_def Let_def next_of_def update_conv' split: if_splits)
  have "br_sent (fst (bootstrap_wallet a ops nm1)) = zip [n + 1..n + 1 + int (length ops) - 1] (map fst ops)"
    using Cons.prems(2) by (intro Cons.IH k(2)) simp
  then show ?case
    by (auto simp: x stress_sendRaw_def t k(1) upto_rec1 add.commute [of 1] split: prod.split)
qed simp

text \<open>A transaction that the node refuses for its nonce is not sent, but counted as good.\<close>

lemma dropped_counts_as_good:
  "br_ok (fst (bootstrap_wallet a [(r, None, Some ''nonce too low'', Inr n)] nm)) = 1 \<and>
   br_sent (fst (bootstrap_wallet a [(r, None, Some ''nonce too low'', Inr n)] nm)) = []"
proof -
  have c: "isBenign (to_lower ''nonce too low'') = False" "str_includes (to_lower ''nonce too low'') ''nonce'' = True" by code_simp+
  obtain k nm1 where "nm_take a nm = (k, nm1)" by fastforce
  then show ?thesis by (simp add: stress_sendRaw_def c Let_def)
qed

text \<open>A sweep never sends more than the wallet has, and leaves 4000 times the fee when all of its gas is paid.\<close>

lemma sweep_affordable:
  assumes "sweep_one waited (sweep_gasCost m) s = Swept v" "sa_balance s = Some b"
  shows "0 < v \<and> b - v - 21000 * m = 4000 * m"
  using assms by (auto simp: sweep_one_def sweep_gasCost_def split: if_splits)

lemma sweep_counts: "sweep_report rs = (r, a, b, c) \<Longrightarrow> a + b + c = length rs"
  by (induction rs arbitrary: r a b c) (auto simp: sweep_report_def split: if_splits)

lemma sweep2_keeps_order: "sweep2_mjs rs = map (sweep_one False (sweep_gasCost (8 * 10 ^ 9))) rs"
  by (simp add: sweep2_mjs_def map_concat [symmetric] concat_chunks)

lemma drain_within: "\<forall>(b, ok) \<in> set ws. 0 \<le> b \<Longrightarrow> 0 \<le> resv \<Longrightarrow> drain_wallets resv ws = (sm, ret) \<Longrightarrow> 0 \<le> ret \<and> ret \<le> sm"
proof (induction ws arbitrary: sm ret)
  case (Cons x ws)
  obtain b ok where x: "x = (b, ok)" by fastforce
  obtain s r where w: "drain_wallets resv ws = (s, r)" by fastforce
  have "0 \<le> r \<and> r \<le> s" using Cons.prems w by (intro Cons.IH) auto
  with Cons.prems show ?case by (auto simp: x w split: if_splits)
qed simp

text \<open>With less than 300 wallets the funding ends with an error, after every wallet has been paid.\<close>

lemma direct_sample_fails: "length ws < 300 \<Longrightarrow> direct_sample ws = None"
  by (auto simp: direct_sample_def)

lemma direct_fund_fails_after_paying:
  assumes "length ws < 300" "\<forall>w \<in> set ws. ok (sw_addr w)"
  shows "length (fst (direct_fund ok n landed ws)) = length ws \<and> \<not> snd (direct_fund ok n landed ws)"
proof -
  have "length (fst (direct_sends ok n ws)) = length ws"
    using assms(2) by (induction ws arbitrary: n) (auto simp: case_prod_beta)
  then show ?thesis using direct_sample_fails [OF assms(1)] by (auto simp: direct_fund_def split: prod.split)
qed

end
