(* ===== verification/Stress_Traffic.thy ===== *)
theory Stress_Traffic
  imports Stress_Suite
begin

text \<open>
  What the requests of the stress run do on the contracts of the suite: with the wallets prepared, the sets core
  and all make transactions of which none reverts but those that are meant to, and removals of liquidity of a
  wallet that has not added enough.
\<close>

section \<open>Tokens under load\<close>

text \<open>
  After \<open>k\<close> transactions: no balance is near the limit of the numbers, and every wallet still has nearly what it
  was given, and the approval of the exchange \<open>D\<close>.
\<close>

definition most :: nat where "most = 10 ^ 36"
text \<open>A wallet starts with a million units of its ERC1155 token, and a transfer takes one.\<close>

definition longest :: nat where "longest = 10 ^ 6"

definition tok_inv :: "string \<Rightarrow> string set \<Rightarrow> nat \<Rightarrow> st20 \<Rightarrow> bool" where
  "tok_inv D P k t \<longleftrightarrow> t_supply t \<le> most + 10 ^ 24 * k \<and> (\<forall>a. t_bal t a \<le> most + 10 ^ 24 * k) \<and>
     (\<forall>f \<in> P. 10 ^ 24 \<le> t_bal t f + 10 ^ 5 * k \<and> 2 ^ 255 \<le> t_allow t f D + 10 ^ 5 * k \<and> t_allow t f D \<le> 2 ^ 255)"

lemma tok_inv_mono: "tok_inv D P k t \<Longrightarrow> k \<le> n \<Longrightarrow> tok_inv D P n t"
  unfolding tok_inv_def by (meson le_trans add_le_mono mult_le_mono order_refl)

lemma st20_mint_ok:
  assumes "tok_inv D P k t" "k < longest"
  shows "\<exists>t'. st20_mint a (10 ^ 24) t = Some t' \<and> tok_inv D P (Suc k) t' \<and> t_bal t D \<le> t_bal t' D"
proof -
  have b: "t_supply t \<le> most + 10 ^ 24 * k" "t_bal t a \<le> most + 10 ^ 24 * k" using assms(1) by (auto simp: tok_inv_def)
  then have c: "t_supply t + 10 ^ 24 < 2 ^ 256" "t_bal t a + 10 ^ 24 < 2 ^ 256"
    using assms(2) by (simp_all add: most_def longest_def)
  define t' where "t' = t\<lparr>t_supply := t_supply t + 10 ^ 24, t_bal := (t_bal t)(a := t_bal t a + 10 ^ 24)\<rparr>"
  have "st20_mint a (10 ^ 24) t = Some t'" using c by (simp add: st20_mint_def chk_def t'_def)
  moreover have "tok_inv D P (Suc k) t'"
    using assms(1) b unfolding tok_inv_def t'_def by (auto intro: trans_le_add1 order_trans)
  ultimately show ?thesis by (auto simp: t'_def)
qed

lemma st20_approve_ok:
  "tok_inv D P k t \<Longrightarrow> tok_inv D P (Suc k) (st20_approve f D (2 ^ 255) t)"
  using tok_inv_mono [of D P k t "Suc k"] by (auto simp: tok_inv_def st20_approve_def)

text \<open>Payments.\<close>

lemma st20_t_ok:
  assumes t: "tok_inv D P k t" "k < longest" and n: "n \<le> 10 ^ 5" "n \<le> t_bal t f" and f: "f \<in> P \<or> f = D" "D \<notin> P"
  shows "\<exists>t'. st20_t f a n t = Some t' \<and> tok_inv D P (Suc k) t' \<and> t_bal t' = ((t_bal t)(f := t_bal t f - n))(a := ((t_bal t)(f := t_bal t f - n)) a + n) \<and> t_allow t' = t_allow t"
proof -
  let ?b = "(t_bal t)(f := t_bal t f - n)"
  have b: "t_bal t a \<le> most + 10 ^ 24 * k" using t(1) by (auto simp: tok_inv_def)
  have "?b a \<le> t_bal t a" by simp
  with b have c: "?b a + n < 2 ^ 256" using t(2) n(1) by (simp add: most_def longest_def)
  have "?b a + n \<le> most + 10 ^ 24 * Suc k" using \<open>?b a \<le> t_bal t a\<close> b n(1) by simp
  moreover have "10 ^ 24 \<le> t_bal t f + 10 ^ 5 * k \<Longrightarrow> 10 ^ 24 \<le> ?b f + 10 ^ 5 * Suc k" using n by simp
  ultimately have "tok_inv D P (Suc k) (t\<lparr>t_bal := ?b(a := ?b a + n)\<rparr>)"
    using tok_inv_mono [OF t(1), of "Suc k"] t(1) f unfolding tok_inv_def by (auto intro: le_trans [OF diff_le_self])
  moreover have "st20_t f a n t = Some (t\<lparr>t_bal := ?b(a := ?b a + n)\<rparr>)"
    using n(2) c by (simp add: st20_t_def chk_def chk_sub_def)
  ultimately show ?thesis by auto
qed

lemma st20_t_approve: "st20_t f a n (st20_approve g s v t) = map_option (st20_approve g s v) (st20_t f a n t)"
  by (simp add: st20_t_def st20_approve_def chk_def chk_sub_def Let_def)

lemma st20_pull_ok:
  assumes t: "tok_inv D P k t" "k < longest" and n: "n \<le> 10 ^ 5" and f: "f \<in> P" "D \<notin> P"
  shows "\<exists>t'. st20_transferFrom D f D n t = Some t' \<and> tok_inv D P (Suc k) t' \<and> t_bal t' D = t_bal t D + n"
proof -
  have al: "2 ^ 255 \<le> t_allow t f D + 10 ^ 5 * k" "t_allow t f D \<le> 2 ^ 255" "10 ^ 24 \<le> t_bal t f + 10 ^ 5 * k"
    using t(1) f(1) by (auto simp: tok_inv_def)
  then have a: "n \<le> t_allow t f D" "t_allow t f D \<noteq> 2 ^ 256 - 1" "n \<le> t_bal t f" using t(2) n by (simp_all add: longest_def)
  from st20_t_ok [OF t n a(3), where a = D] f obtain t' where t': "st20_t f D n t = Some t'" "tok_inv D P (Suc k) t'"
      "t_bal t' = ((t_bal t)(f := t_bal t f - n))(D := ((t_bal t)(f := t_bal t f - n)) D + n)" "t_allow t' = t_allow t" by blast
  have "D \<noteq> f" using f by auto
  have "2 ^ 255 \<le> t_allow t f D - n + 10 ^ 5 * Suc k" "t_allow t f D - n \<le> 2 ^ 255" using al(1,2) n by simp_all
  then have "tok_inv D P (Suc k) (st20_approve f D (t_allow t f D - n) t')"
    using t'(2) unfolding tok_inv_def by (auto simp: st20_approve_def)
  moreover have "st20_transferFrom D f D n t = Some (st20_approve f D (t_allow t f D - n) t')"
    using a t'(1) by (simp add: st20_transferFrom_def st20_t_approve Let_def chk_sub_def)
  moreover have "t_bal (st20_approve f D (t_allow t f D - n) t') D = t_bal t D + n" using t'(3) \<open>D \<noteq> f\<close> by (simp add: st20_approve_def)
  ultimately show ?thesis by blast
qed

lemma st20_pay_ok:
  assumes "tok_inv D P k t" "k < longest" "n \<le> 10 ^ 5" "n \<le> t_bal t D" "f \<in> P" "D \<notin> P"
  shows "\<exists>t'. st20_t D f n t = Some t' \<and> tok_inv D P (Suc k) t' \<and> t_bal t' D = t_bal t D - n"
  using st20_t_ok [OF assms(1-4), where a = f] assms(5,6) by fastforce

lemma st20_transfer_ok:
  assumes "tok_inv D P k t" "k < longest" "f \<in> P" "D \<notin> P"
  shows "\<exists>t'. st20_t f a 1 t = Some t' \<and> tok_inv D P (Suc k) t' \<and> t_bal t D \<le> t_bal t' D"
proof -
  have "10 ^ 24 \<le> t_bal t f + 10 ^ 5 * k" using assms(1,3) by (auto simp: tok_inv_def)
  then have "1 \<le> t_bal t f" using assms(2) by (simp add: longest_def)
  from st20_t_ok [OF assms(1,2) _ this, where a = a] assms(3,4) show ?thesis by fastforce
qed

section \<open>The pool under load\<close>

definition pool_inv :: "pool_key \<Rightarrow> nat \<Rightarrow> sdex \<Rightarrow> bool" where
  "pool_inv q k d \<longleftrightarrow> (\<forall>r \<in> {fst (p_res d q), snd (p_res d q)}. 10 ^ 24 \<le> r + 2000 * k \<and> r \<le> 10 ^ 24 + 10 ^ 5 * k) \<and>
     2 * 10 ^ 24 \<le> p_total d q + 1000 * k \<and> p_total d q \<le> 2 * 10 ^ 24 + 10 ^ 6 * k \<and> (\<forall>f. p_lp d q f \<le> 2 * 10 ^ 24 + 10 ^ 6 * k)"

lemma div_le_of: "a \<le> b * c \<Longrightarrow> 0 < c \<Longrightarrow> a div c \<le> (b :: nat)"
  by (metis div_le_mono nonzero_mult_div_cancel_right not_gr_zero)

lemma dex_out_ok:
  assumes "10 ^ 24 \<le> rin + 2000 * k" "rin \<le> 10 ^ 24 + 10 ^ 5 * k" "10 ^ 24 \<le> rout + 2000 * k" "rout \<le> 10 ^ 24 + 10 ^ 5 * k" "k < longest"
  shows "\<exists>out. dex_out rin rout 1000 = Some out \<and> out \<le> 2000"
proof -
  have "rout * 997 \<le> 2000 * (rin + 997)" using assms by (simp add: longest_def)
  then have "rout * 997 div (rin + 997) \<le> 2000" by (intro div_le_of) simp_all
  then show ?thesis using assms by (simp add: dex_out_def chk_def longest_def)
qed

lemma pool_inv_lp: "pool_inv q k d \<Longrightarrow> p_lp d q f \<le> 2 * 10 ^ 24 + 10 ^ 6 * k"
  by (simp add: pool_inv_def)

lemma dex_trade_ok:
  assumes "pool_inv q k d" "k < longest" "out \<le> 2000"
  shows "\<exists>d'. dex_trade q i 1000 out d = Some d' \<and> pool_inv q (Suc k) d' \<and> p_lp d' = p_lp d \<and>
    p_res d' q = (if i then (fst (p_res d q) + 1000, snd (p_res d q) - out) else (fst (p_res d q) - out, snd (p_res d q) + 1000)) \<and>
    out \<le> (if i then snd (p_res d q) else fst (p_res d q))"
proof -
  obtain rA rB where r: "p_res d q = (rA, rB)" by fastforce
  have "10 ^ 24 \<le> rA + 2000 * k" "rA \<le> 10 ^ 24 + 10 ^ 5 * k" "10 ^ 24 \<le> rB + 2000 * k" "rB \<le> 10 ^ 24 + 10 ^ 5 * k"
    using assms(1) by (simp_all add: pool_inv_def r)
  then have b: "rA + 1000 < 2 ^ 256" "rB + 1000 < 2 ^ 256" "out \<le> rA" "out \<le> rB"
    and c: "10 ^ 24 \<le> rA - out + 2000 * Suc k" "rA + 1000 \<le> 10 ^ 24 + 10 ^ 5 * Suc k" "10 ^ 24 \<le> rA + 1000 + 2000 * Suc k" "rA - out \<le> 10 ^ 24 + 10 ^ 5 * Suc k"
      "10 ^ 24 \<le> rB - out + 2000 * Suc k" "rB + 1000 \<le> 10 ^ 24 + 10 ^ 5 * Suc k" "10 ^ 24 \<le> rB + 1000 + 2000 * Suc k" "rB - out \<le> 10 ^ 24 + 10 ^ 5 * Suc k"
    using assms(2,3) by (simp_all add: longest_def)
  have t: "2 * 10 ^ 24 \<le> p_total d q + 1000 * Suc k" "p_total d q \<le> 2 * 10 ^ 24 + 10 ^ 6 * Suc k"
    using assms(1) by (simp_all add: pool_inv_def)
  have l: "p_lp d q f \<le> 2 * 10 ^ 24 + 10 ^ 6 * Suc k" for f using pool_inv_lp [OF assms(1), of f] by simp
  show ?thesis
    using b c t l by (cases i) (simp_all add: dex_trade_def r chk_def chk_sub_def pool_inv_def)
qed

text \<open>An addition gives at least 199000 shares, a removal takes 1000.\<close>

lemma share_bounds:
  assumes "10 ^ 24 \<le> rA + 2000 * k" "rA \<le> 10 ^ 24 + 10 ^ 5 * k" "2 * 10 ^ 24 \<le> tt + 1000 * k" "tt \<le> 2 * 10 ^ 24 + 10 ^ 6 * k" "k < longest"
  shows "199000 \<le> 10 ^ 5 * tt div rA" "10 ^ 5 * tt div rA \<le> 10 ^ 6" "rA * 1000 div tt \<le> 2000"
proof -
  have "199000 * rA \<le> 10 ^ 5 * tt" "10 ^ 5 * tt \<le> 10 ^ 6 * rA" "rA * 1000 \<le> 2000 * tt" and z: "0 < rA" "0 < tt"
    using assms by (simp_all add: longest_def)
  then show "199000 \<le> 10 ^ 5 * tt div rA" "10 ^ 5 * tt div rA \<le> 10 ^ 6" "rA * 1000 div tt \<le> 2000"
    by (simp_all only: less_eq_div_iff_mult_less_eq div_le_of)
qed

lemma dex_grow_ok:
  assumes "pool_inv q k d" "k < longest"
  shows "\<exists>d' share. dex_grow q f (10 ^ 5) (10 ^ 5) d = Some d' \<and> pool_inv q (Suc k) d' \<and> 199000 \<le> share \<and>
    p_lp d' q = (p_lp d q)(f := p_lp d q f + share) \<and> p_res d' q = (fst (p_res d q) + 10 ^ 5, snd (p_res d q) + 10 ^ 5)"
proof -
  obtain rA rB where r: "p_res d q = (rA, rB)" by fastforce
  define tt where "tt = p_total d q"
  have i: "10 ^ 24 \<le> rA + 2000 * k" "rA \<le> 10 ^ 24 + 10 ^ 5 * k" "10 ^ 24 \<le> rB + 2000 * k" "rB \<le> 10 ^ 24 + 10 ^ 5 * k"
      "2 * 10 ^ 24 \<le> tt + 1000 * k" "tt \<le> 2 * 10 ^ 24 + 10 ^ 6 * k"
    using assms(1) by (simp_all add: pool_inv_def r tt_def)
  define share where "share = 10 ^ 5 * tt div rA"
  have sh: "199000 \<le> share" "share \<le> 10 ^ 6" using share_bounds(1,2) [OF i(1,2,5,6) assms(2)] by (simp_all add: share_def)
  have l: "p_lp d q g \<le> 2 * 10 ^ 24 + 10 ^ 6 * k" for g by (rule pool_inv_lp [OF assms(1)])
  have lf: "p_lp d q f + share \<le> 2 * 10 ^ 24 + 10 ^ 6 * Suc k" and lg: "p_lp d q g \<le> 2 * 10 ^ 24 + 10 ^ 6 * Suc k" for g
    using l [of f] l [of g] sh(2) by simp_all
  have b: "tt \<noteq> 0" "rA \<noteq> 0" "10 ^ 5 * tt < 2 ^ 256" "rA + 10 ^ 5 < 2 ^ 256" "rB + 10 ^ 5 < 2 ^ 256" "tt + share < 2 ^ 256" "p_lp d q f + share < 2 ^ 256"
    using i sh l [of f] assms(2) by (simp_all add: longest_def)
  define d' where "d' = d\<lparr>p_res := (p_res d)(q := (rA + 10 ^ 5, rB + 10 ^ 5)), p_lp := (p_lp d)(q := (p_lp d q)(f := p_lp d q f + share)),
      p_total := (p_total d)(q := tt + share)\<rparr>"
  have "dex_grow q f (10 ^ 5) (10 ^ 5) d = Some d'"
    using b by (simp add: dex_grow_def r chk_def d'_def share_def tt_def)
  moreover have "pool_inv q (Suc k) d'"
    using i sh lf lg by (auto simp: pool_inv_def d'_def)
  ultimately show ?thesis using sh(1) by (intro exI [of _ d'] exI [of _ share]) (simp add: d'_def r)
qed

lemma dex_shrink_ok:
  assumes "pool_inv q k d" "k < longest" "1000 \<le> p_lp d q f"
  shows "\<exists>d' x y. dex_shrink q f 1000 d = Some (d', x, y) \<and> pool_inv q (Suc k) d' \<and> x \<le> 2000 \<and> y \<le> 2000 \<and>
    p_lp d' q = (p_lp d q)(f := p_lp d q f - 1000) \<and> p_res d' q = (fst (p_res d q) - x, snd (p_res d q) - y) \<and>
    x \<le> fst (p_res d q) \<and> y \<le> snd (p_res d q)"
proof -
  obtain rA rB where r: "p_res d q = (rA, rB)" by fastforce
  define tt where "tt = p_total d q"
  have i: "10 ^ 24 \<le> rA + 2000 * k" "rA \<le> 10 ^ 24 + 10 ^ 5 * k" "10 ^ 24 \<le> rB + 2000 * k" "rB \<le> 10 ^ 24 + 10 ^ 5 * k"
      "2 * 10 ^ 24 \<le> tt + 1000 * k" "tt \<le> 2 * 10 ^ 24 + 10 ^ 6 * k"
    using assms(1) by (simp_all add: pool_inv_def r tt_def)
  define x y where "x = rA * 1000 div tt" and "y = rB * 1000 div tt"
  have xy: "x \<le> 2000" "y \<le> 2000" using share_bounds(3) [OF i(1,2,5,6) assms(2)] share_bounds(3) [OF i(3-6) assms(2)] by (simp_all add: x_def y_def)
  have lg: "p_lp d q g \<le> 2 * 10 ^ 24 + 10 ^ 6 * Suc k" for g using pool_inv_lp [OF assms(1), of g] by simp
  have lf: "p_lp d q f - 1000 \<le> 2 * 10 ^ 24 + 10 ^ 6 * Suc k" using lg [of f] by (rule le_trans [OF diff_le_self])
  have b: "0 < tt" "rA * 1000 < 2 ^ 256" "rB * 1000 < 2 ^ 256" "1000 \<le> tt" "x \<le> rA" "y \<le> rB"
    using i xy assms(2) by (simp_all add: longest_def)
  have c: "10 ^ 24 \<le> rA - x + 2000 * Suc k" "rA - x \<le> 10 ^ 24 + 10 ^ 5 * Suc k" "10 ^ 24 \<le> rB - y + 2000 * Suc k" "rB - y \<le> 10 ^ 24 + 10 ^ 5 * Suc k"
      "2 * 10 ^ 24 \<le> tt - 1000 + 1000 * Suc k" "tt - 1000 \<le> 2 * 10 ^ 24 + 10 ^ 6 * Suc k"
    using i xy b by simp_all
  define d' where "d' = d\<lparr>p_res := (p_res d)(q := (rA - x, rB - y)), p_lp := (p_lp d)(q := (p_lp d q)(f := p_lp d q f - 1000)),
      p_total := (p_total d)(q := tt - 1000)\<rparr>"
  have "dex_shrink q f 1000 d = Some (d', x, y)"
    using b assms(3) by (simp add: dex_shrink_def r chk_def chk_sub_def guard_def Let_def d'_def x_def y_def tt_def)
  moreover have "pool_inv q (Suc k) d'"
    using c lf lg by (auto simp: pool_inv_def d'_def)
  ultimately show ?thesis using xy b by (intro exI [of _ d'] exI [of _ x] exI [of _ y]) (simp add: d'_def r)
qed

section \<open>The suite under load\<close>

definition suite_distinct :: "wl_env \<Rightarrow> bool" where
  "suite_distinct e \<longleftrightarrow> distinct (map (wl_addr e) [''t0'', ''t1'', ''erc721'', ''erc1155'', ''storage'', ''gasbomb'', ''dex''])"

record suite_view =
  sv_t0 :: st20
  sv_t1 :: st20
  sv_721 :: st721
  sv_1155 :: st1155
  sv_cells :: cells
  sv_bomb :: nat
  sv_dex :: sdex

definition suite_at :: "wl_env \<Rightarrow> chain_world \<Rightarrow> suite_view \<Rightarrow> bool" where
  "suite_at e w v \<longleftrightarrow> cw_code w (wl_addr e ''t0'') = Some (Token20 (sv_t0 v)) \<and> cw_code w (wl_addr e ''t1'') = Some (Token20 (sv_t1 v)) \<and>
     cw_code w (wl_addr e ''erc721'') = Some (Token721 (sv_721 v)) \<and> cw_code w (wl_addr e ''erc1155'') = Some (Token1155 (sv_1155 v)) \<and>
     cw_code w (wl_addr e ''storage'') = Some (Cells (sv_cells v)) \<and> cw_code w (wl_addr e ''gasbomb'') = Some (Bomb (sv_bomb v)) \<and>
     cw_code w (wl_addr e ''dex'') = Some (Dex (sv_dex v))"

lemma suite_at_put:
  assumes "suite_distinct e" "suite_at e w v"
  shows "suite_at e (put_code (wl_addr e ''t0'') (Token20 t) w) (v\<lparr>sv_t0 := t\<rparr>)"
    and "suite_at e (put_code (wl_addr e ''t1'') (Token20 t) w) (v\<lparr>sv_t1 := t\<rparr>)"
    and "suite_at e (put_code (wl_addr e ''erc721'') (Token721 n) w) (v\<lparr>sv_721 := n\<rparr>)"
    and "suite_at e (put_code (wl_addr e ''erc1155'') (Token1155 m) w) (v\<lparr>sv_1155 := m\<rparr>)"
    and "suite_at e (put_code (wl_addr e ''storage'') (Cells c) w) (v\<lparr>sv_cells := c\<rparr>)"
    and "suite_at e (put_code (wl_addr e ''gasbomb'') (Bomb b) w) (v\<lparr>sv_bomb := b\<rparr>)"
    and "suite_at e (put_code (wl_addr e ''dex'') (Dex d) w) (v\<lparr>sv_dex := d\<rparr>)"
  using assms by (auto simp: suite_distinct_def suite_at_def put_code_def)

definition pool_of :: "(string \<Rightarrow> string \<Rightarrow> bool) \<Rightarrow> wl_env \<Rightarrow> pool_key" where
  "pool_of below e = dex_key below (wl_addr e ''t0'') (wl_addr e ''t1'')"

text \<open>The reserves of the pool for T0 and T1, in this order.\<close>

definition reserves :: "(string \<Rightarrow> string \<Rightarrow> bool) \<Rightarrow> wl_env \<Rightarrow> sdex \<Rightarrow> nat \<times> nat" where
  "reserves below e d = (case p_res d (pool_of below e) of (x, y) \<Rightarrow> if below (wl_addr e ''t0'') (wl_addr e ''t1'') then (x, y) else (y, x))"

definition traffic_ok :: "(string \<Rightarrow> string \<Rightarrow> bool) \<Rightarrow> wl_env \<Rightarrow> nat \<Rightarrow> suite_view \<Rightarrow> bool" where
  "traffic_ok below e k v \<longleftrightarrow> (let D = wl_addr e ''dex''; P = set (wl_pool e) in
     tok_inv D P k (sv_t0 v) \<and> tok_inv D P k (sv_t1 v) \<and> pool_inv (pool_of below e) k (sv_dex v) \<and>
     fst (reserves below e (sv_dex v)) \<le> t_bal (sv_t0 v) D \<and> snd (reserves below e (sv_dex v)) \<le> t_bal (sv_t1 v) D \<and>
     (\<forall>f \<in> P. 10 ^ 6 \<le> m_bal (sv_1155 v) (nat (wl_index e f)) f + k) \<and> (\<forall>i a. m_bal (sv_1155 v) i a \<le> most + 10 ^ 6 * k) \<and>
     n_next (sv_721 v) \<le> Suc k \<and> (\<forall>a. n_bal (sv_721 v) a \<le> k) \<and> c_counter (sv_cells v) \<le> k)"

definition wallets_ok :: "wl_env \<Rightarrow> nat \<Rightarrow> chain_world \<Rightarrow> bool" where
  "wallets_ok e k w \<longleftrightarrow> (\<forall>f \<in> set (wl_pool e). cw_code w f = None \<and> 10 ^ 18 \<le> cw_native w f + k)"

definition traffic_inv :: "(string \<Rightarrow> string \<Rightarrow> bool) \<Rightarrow> wl_env \<Rightarrow> nat \<Rightarrow> chain_world \<Rightarrow> bool" where
  "traffic_inv below e k w \<longleftrightarrow> (\<exists>v. suite_at e w v \<and> traffic_ok below e k v) \<and> wallets_ok e k w"

lemma chain_tx_call:
  "cw_code w a = Some c \<Longrightarrow> chain_tx H below fresh f (tx a (Call i fn args) 0 g) w = contract_call H below a f fn args c w"
  by (simp add: chain_tx_def tx_def move_native_def chk_sub_def)

text \<open>A contract at an address that is not a wallet's may change.\<close>

lemma wallets_ok_put: "wallets_ok e k w \<Longrightarrow> a \<notin> set (wl_pool e) \<Longrightarrow> wallets_ok e k (put_code a c w)"
  by (auto simp: wallets_ok_def put_code_def)

lemma wallets_ok_mono: "wallets_ok e k w \<Longrightarrow> wallets_ok e (Suc k) w"
  by (auto simp: wallets_ok_def intro: le_SucI)

lemma suite_not_wallet:
  "suite_at e w v \<Longrightarrow> wallets_ok e k w \<Longrightarrow> x \<in> {''t0'', ''t1'', ''erc721'', ''erc1155'', ''storage'', ''gasbomb'', ''dex''} \<Longrightarrow>
   wl_addr e x \<notin> set (wl_pool e)"
  by (auto simp: suite_at_def wallets_ok_def)

lemma pool_inv_mono: "pool_inv q k d \<Longrightarrow> pool_inv q (Suc k) d"
proof -
  assume i: "pool_inv q k d"
  have "p_lp d q f \<le> 2 * 10 ^ 24 + 10 ^ 6 * Suc k" for f using pool_inv_lp [OF i, of f] by simp
  with i show ?thesis by (simp add: pool_inv_def)
qed

lemma traffic_okD:
  assumes "traffic_ok below e k v"
  shows "tok_inv (wl_addr e ''dex'') (set (wl_pool e)) k (sv_t0 v)" "tok_inv (wl_addr e ''dex'') (set (wl_pool e)) k (sv_t1 v)"
    and "pool_inv (pool_of below e) k (sv_dex v)"
    and "fst (reserves below e (sv_dex v)) \<le> t_bal (sv_t0 v) (wl_addr e ''dex'')" "snd (reserves below e (sv_dex v)) \<le> t_bal (sv_t1 v) (wl_addr e ''dex'')"
    and "f \<in> set (wl_pool e) \<Longrightarrow> 10 ^ 6 \<le> m_bal (sv_1155 v) (nat (wl_index e f)) f + k" "m_bal (sv_1155 v) i a \<le> most + 10 ^ 6 * k"
    and "n_next (sv_721 v) \<le> Suc k" "n_bal (sv_721 v) a \<le> k" "c_counter (sv_cells v) \<le> k"
  using assms by (auto simp: traffic_ok_def Let_def)

lemma traffic_ok_mono:
  assumes "traffic_ok below e k v"
  shows "traffic_ok below e (Suc k) v"
proof -
  note i = traffic_okD [OF assms]
  have "m_bal (sv_1155 v) i a \<le> most + 10 ^ 6 * Suc k" for i a using i(7) [of i a] by simp
  moreover have "f \<in> set (wl_pool e) \<Longrightarrow> 10 ^ 6 \<le> m_bal (sv_1155 v) (nat (wl_index e f)) f + Suc k" for f using i(6) [of f] by simp
  ultimately show ?thesis
    using i(4,5,8-10) tok_inv_mono [OF i(1), of "Suc k"] tok_inv_mono [OF i(2), of "Suc k"] pool_inv_mono [OF i(3)]
    by (auto simp: traffic_ok_def Let_def intro: le_SucI)
qed

lemma traffic_invI: "suite_at e w v \<Longrightarrow> traffic_ok below e k v \<Longrightarrow> wallets_ok e k w \<Longrightarrow> traffic_inv below e k w"
  by (auto simp: traffic_inv_def)

text \<open>One contract of the suite changes.\<close>

lemma traffic_inv_put:
  assumes "suite_at e w v" "wallets_ok e k w" "suite_at e (put_code (wl_addr e x) c w) v'" "traffic_ok below e (Suc k) v'"
    and "x \<in> {''t0'', ''t1'', ''erc721'', ''erc1155'', ''storage'', ''gasbomb'', ''dex''}"
  shows "traffic_inv below e (Suc k) (put_code (wl_addr e x) c w)"
  using assms(3,4) wallets_ok_put [OF wallets_ok_mono [OF assms(2)] suite_not_wallet [OF assms(1,2,5)]] by (rule traffic_invI)

section \<open>The requests\<close>

text \<open>The shares of the wallets in the pool.\<close>

definition lp_of :: "(string \<Rightarrow> string \<Rightarrow> bool) \<Rightarrow> wl_env \<Rightarrow> chain_world \<Rightarrow> string \<Rightarrow> nat" where
  "lp_of below e w = (case cw_code w (wl_addr e ''dex'') of Some (Dex d) \<Rightarrow> p_lp d (pool_of below e) | _ \<Rightarrow> (\<lambda>f. 0))"

lemma lp_at: "suite_at e w v \<Longrightarrow> lp_of below e w = p_lp (sv_dex v) (pool_of below e)"
  by (simp add: lp_of_def suite_at_def)

text \<open>A request that takes effect, keeps the invariant, and changes the shares as \<open>R\<close> says.\<close>

definition goes_through :: "hashes \<Rightarrow> (string \<Rightarrow> string \<Rightarrow> bool) \<Rightarrow> wl_env \<Rightarrow> nat \<Rightarrow> string \<Rightarrow> tx_request \<Rightarrow> ((string \<Rightarrow> nat) \<Rightarrow> (string \<Rightarrow> nat) \<Rightarrow> bool) \<Rightarrow> chain_world \<Rightarrow> bool" where
  "goes_through H below e k f r R w \<longleftrightarrow> (\<forall>fresh. cw_code w fresh = None \<and> fresh \<notin> set (wl_pool e) \<longrightarrow>
     (\<exists>w'. chain_tx H below fresh f r w = Some w' \<and> traffic_inv below e (Suc k) w' \<and> R (lp_of below e w) (lp_of below e w')))"

lemma goes_t0:
  assumes "suite_distinct e" "suite_at e w v" "traffic_ok below e k v" "wallets_ok e k w"
    and "st20_call f fn args (sv_t0 v) = Some t'" "tok_inv (wl_addr e ''dex'') (set (wl_pool e)) (Suc k) t'"
    and "t_bal (sv_t0 v) (wl_addr e ''dex'') \<le> t_bal t' (wl_addr e ''dex'')"
  shows "goes_through H below e k f (tx (wl_addr e ''t0'') (Call i fn args) 0 g) (=) w"
proof -
  have "traffic_ok below e (Suc k) (v\<lparr>sv_t0 := t'\<rparr>)"
    using traffic_ok_mono [OF assms(3)] assms(6,7) by (auto simp: traffic_ok_def Let_def)
  from traffic_inv_put [OF assms(2,4) suite_at_put(1) [OF assms(1,2)] this] have "traffic_inv below e (Suc k) (put_code (wl_addr e ''t0'') (Token20 t') w)" by simp
  moreover have "lp_of below e (put_code (wl_addr e ''t0'') (Token20 t') w) = lp_of below e w"
    using lp_at [OF suite_at_put(1) [OF assms(1,2)]] lp_at [OF assms(2)] by simp
  moreover have "cw_code w (wl_addr e ''t0'') = Some (Token20 (sv_t0 v))" using assms(2) by (simp add: suite_at_def)
  ultimately show ?thesis using assms(5) by (simp add: goes_through_def chain_tx_call contract_call_def)
qed

lemma goes_t1:
  assumes "suite_distinct e" "suite_at e w v" "traffic_ok below e k v" "wallets_ok e k w"
    and "st20_call f fn args (sv_t1 v) = Some t'" "tok_inv (wl_addr e ''dex'') (set (wl_pool e)) (Suc k) t'"
    and "t_bal (sv_t1 v) (wl_addr e ''dex'') \<le> t_bal t' (wl_addr e ''dex'')"
  shows "goes_through H below e k f (tx (wl_addr e ''t1'') (Call i fn args) 0 g) (=) w"
proof -
  have "traffic_ok below e (Suc k) (v\<lparr>sv_t1 := t'\<rparr>)"
    using traffic_ok_mono [OF assms(3)] assms(6,7) by (auto simp: traffic_ok_def Let_def)
  from traffic_inv_put [OF assms(2,4) suite_at_put(2) [OF assms(1,2)] this] have "traffic_inv below e (Suc k) (put_code (wl_addr e ''t1'') (Token20 t') w)" by simp
  moreover have "lp_of below e (put_code (wl_addr e ''t1'') (Token20 t') w) = lp_of below e w"
    using lp_at [OF suite_at_put(2) [OF assms(1,2)]] lp_at [OF assms(2)] by simp
  moreover have "cw_code w (wl_addr e ''t1'') = Some (Token20 (sv_t1 v))" using assms(2) by (simp add: suite_at_def)
  ultimately show ?thesis using assms(5) by (simp add: goes_through_def chain_tx_call contract_call_def)
qed

definition loaded :: "(string \<Rightarrow> string \<Rightarrow> bool) \<Rightarrow> wl_env \<Rightarrow> nat \<Rightarrow> chain_world \<Rightarrow> suite_view \<Rightarrow> string \<Rightarrow> bool" where
  "loaded below e k w v f \<longleftrightarrow> suite_distinct e \<and> suite_at e w v \<and> traffic_ok below e k v \<and> wallets_ok e k w \<and> k < longest \<and> f \<in> set (wl_pool e)"

lemma loadedD:
  assumes "loaded below e k w v f"
  shows "suite_distinct e" "suite_at e w v" "traffic_ok below e k v" "wallets_ok e k w" "k < longest" "f \<in> set (wl_pool e)"
    and "wl_addr e ''dex'' \<notin> set (wl_pool e)"
  using assms suite_not_wallet [of e w v k "''dex''"] by (auto simp: loaded_def)

lemma goes_either:
  assumes l: "loaded below e k w v f" and x: "x = ''t0'' \<or> x = ''t1''"
    and c: "\<And>t. tok_inv (wl_addr e ''dex'') (set (wl_pool e)) k t \<Longrightarrow> \<exists>t'. st20_call f fn args t = Some t' \<and>
      tok_inv (wl_addr e ''dex'') (set (wl_pool e)) (Suc k) t' \<and> t_bal t (wl_addr e ''dex'') \<le> t_bal t' (wl_addr e ''dex'')"
  shows "goes_through H below e k f (tx (wl_addr e x) (Call i fn args) 0 g) (=) w"
proof -
  note d = loadedD [OF l] note t = traffic_okD(1,2) [OF d(3)]
  from c [OF t(1)] have "goes_through H below e k f (tx (wl_addr e ''t0'') (Call i fn args) 0 g) (=) w" using goes_t0 [OF d(1-4)] by blast
  moreover from c [OF t(2)] have "goes_through H below e k f (tx (wl_addr e ''t1'') (Call i fn args) 0 g) (=) w" using goes_t1 [OF d(1-4)] by blast
  ultimately show ?thesis using x by (elim disjE) simp_all
qed

lemma goes_token:
  assumes l: "loaded below e k w v f" and x: "x = ''t0'' \<or> x = ''t1''"
  shows "goes_through H below e k f (tx (wl_addr e x) (Call i ''transfer'' [Addr a, Num 1]) 0 g) (=) w"
    and "goes_through H below e k f (tx (wl_addr e x) (Call i ''approve'' [Addr (wl_addr e ''dex''), Num (2 ^ 255)]) 0 g) (=) w"
    and "goes_through H below e k f (tx (wl_addr e x) (Call i ''mint'' [Addr a, Num (10 ^ 24)]) 0 g) (=) w"
proof -
  note d = loadedD [OF l]
  have c: "st20_call f ''transfer'' [Addr a, Num 1] t = st20_t f a 1 t"
      "st20_call f ''approve'' [Addr (wl_addr e ''dex''), Num (2 ^ 255)] t = Some (st20_approve f (wl_addr e ''dex'') (2 ^ 255) t)"
      "st20_call f ''mint'' [Addr a, Num (10 ^ 24)] t = st20_mint a (10 ^ 24) t" for t
    by (simp_all add: st20_call_def)
  show "goes_through H below e k f (tx (wl_addr e x) (Call i ''transfer'' [Addr a, Num 1]) 0 g) (=) w"
    by (rule goes_either [OF l x]) (unfold c(1), rule st20_transfer_ok [OF _ d(5-7)])
  show "goes_through H below e k f (tx (wl_addr e x) (Call i ''approve'' [Addr (wl_addr e ''dex''), Num (2 ^ 255)]) 0 g) (=) w"
    by (rule goes_either [OF l x], unfold c(2)) (intro exI conjI, rule refl, erule st20_approve_ok, simp add: st20_approve_def)
  show "goes_through H below e k f (tx (wl_addr e x) (Call i ''mint'' [Addr a, Num (10 ^ 24)]) 0 g) (=) w"
    by (rule goes_either [OF l x]) (unfold c(3), rule st20_mint_ok [OF _ d(5)])
qed

lemma goes_other:
  assumes "loaded below e k w v f" "x \<in> {''t0'', ''t1'', ''erc721'', ''erc1155'', ''storage'', ''gasbomb'', ''dex''}"
    and "cw_code w (wl_addr e x) = Some c" "contract_call H below (wl_addr e x) f fn args c w = Some (put_code (wl_addr e x) c' w)"
    and "suite_at e (put_code (wl_addr e x) c' w) v'" "traffic_ok below e (Suc k) v'" "sv_dex v' = sv_dex v"
  shows "goes_through H below e k f (tx (wl_addr e x) (Call i fn args) 0 g) (=) w"
proof -
  note d = loadedD [OF assms(1)]
  show ?thesis using traffic_inv_put [OF d(2,4) assms(5,6,2)] lp_at [OF d(2), of below] lp_at [OF assms(5), of below]
    by (simp add: goes_through_def chain_tx_call [OF assms(3)] assms(4,7))
qed

lemma goes_721:
  assumes l: "loaded below e k w v f"
  shows "goes_through H below e k f (tx (wl_addr e ''erc721'') (Call i ''mint'' [Addr a]) 0 g) (=) w"
proof -
  note d = loadedD [OF l] note t = traffic_okD [OF d(3)]
  define n where "n = (sv_721 v)\<lparr>n_next := n_next (sv_721 v) + 1, n_owner := (n_owner (sv_721 v))(n_next (sv_721 v) := Some a),
     n_bal := (n_bal (sv_721 v))(a := n_bal (sv_721 v) a + 1)\<rparr>"
  have "n_next (sv_721 v) + 1 < 2 ^ 256" "n_bal (sv_721 v) a + 1 < 2 ^ 256" using t(8) t(9) [of a] d(5) by (simp_all add: longest_def)
  then have m: "st721_mint a (sv_721 v) = Some n" by (simp add: st721_mint_def chk_def n_def)
  have "traffic_ok below e (Suc k) (v\<lparr>sv_721 := n\<rparr>)"
    using traffic_ok_mono [OF d(3)] t(8,9) by (simp add: traffic_ok_def Let_def n_def le_SucI)
  with m d(2) show ?thesis
    by (intro goes_other [OF l _ _ _ suite_at_put(3) [OF d(1,2)]]) (auto simp: suite_at_def contract_call_def st721_call_def)
qed

lemma goes_1155:
  assumes l: "loaded below e k w v f"
  shows "goes_through H below e k f (tx (wl_addr e ''erc1155'') (Call i ''mint'' [Addr f, Num (wl_index e f), Num 1000000]) 0 g) (=) w" (is ?a)
    and "goes_through H below e k f (tx (wl_addr e ''erc1155'') (Call i ''safeTransferFrom'' [Addr f, Addr a, Num (wl_index e f), Num 1, Text b]) 0 g) (=) w" (is ?b)
proof -
  note d = loadedD [OF l] note t = traffic_okD [OF d(3)]
  let ?m = "sv_1155 v" and ?j = "nat (wl_index e f)"
  have up: "m_bal ?m j a \<le> most + 10 ^ 6 * k" and lo: "g \<in> set (wl_pool e) \<Longrightarrow> 10 ^ 6 \<le> m_bal ?m (nat (wl_index e g)) g + k" for j a g
    using t(6) [of g] t(7) [of j a] by simp_all
  have put: "traffic_ok below e (Suc k) (v\<lparr>sv_1155 := m\<rparr>)"
    if "\<And>j a. m_bal m j a \<le> most + 10 ^ 6 * Suc k" "\<And>g. g \<in> set (wl_pool e) \<Longrightarrow> 10 ^ 6 \<le> m_bal m (nat (wl_index e g)) g + Suc k" for m
    using traffic_ok_mono [OF d(3)] that by (simp add: traffic_ok_def Let_def)
  have "m_bal ?m ?j f + 1000000 < 2 ^ 256" using up [of ?j f] d(5) by (simp add: most_def longest_def)
  then have m: "st1155_mint f ?j 1000000 ?m = Some (st1155_set ?j f (m_bal ?m ?j f + 1000000) ?m)" by (simp add: st1155_mint_def chk_def)
  have "traffic_ok below e (Suc k) (v\<lparr>sv_1155 := st1155_set ?j f (m_bal ?m ?j f + 1000000) ?m\<rparr>)"
  proof (rule put)
    show "m_bal (st1155_set ?j f (m_bal ?m ?j f + 1000000) ?m) j a \<le> most + 10 ^ 6 * Suc k" for j a
      using up [of j a] up [of ?j f] up [of ?j a] by (simp add: st1155_set_def)
    show "10 ^ 6 \<le> m_bal (st1155_set ?j f (m_bal ?m ?j f + 1000000) ?m) (nat (wl_index e g)) g + Suc k" if "g \<in> set (wl_pool e)" for g
      using lo [OF that] by (cases "nat (wl_index e g) = ?j"; cases "g = f") (simp_all add: st1155_set_def)
  qed
  with m d(2) show ?a
    by (intro goes_other [OF l _ _ _ suite_at_put(4) [OF d(1,2)]]) (auto simp: suite_at_def contract_call_def st1155_call_def)
  let ?m1 = "st1155_set ?j f (m_bal ?m ?j f - 1) ?m"
  let ?m2 = "st1155_set ?j a (m_bal ?m1 ?j a + 1) ?m1"
  have g1: "1 \<le> m_bal ?m ?j f" using lo [OF d(6)] d(5) by (simp add: longest_def)
  have u1: "m_bal ?m1 j x \<le> m_bal ?m j x" for j x by (simp add: st1155_set_def)
  have "m_bal ?m1 ?j a + 1 < 2 ^ 256" using u1 [of ?j a] up [of ?j a] d(5) by (simp add: most_def longest_def)
  with g1 have m2: "st1155_transferFrom f f a ?j 1 ?m = Some ?m2" by (simp add: st1155_transferFrom_def Let_def guard_def chk_def chk_sub_def)
  have "traffic_ok below e (Suc k) (v\<lparr>sv_1155 := ?m2\<rparr>)"
  proof (rule put)
    show "m_bal ?m2 j x \<le> most + 10 ^ 6 * Suc k" for j x
      using up [of j x] up [of ?j a] u1 [of j x] u1 [of ?j a] by (simp add: st1155_set_def split: if_splits)
    show "10 ^ 6 \<le> m_bal ?m2 (nat (wl_index e g)) g + Suc k" if "g \<in> set (wl_pool e)" for g
      using lo [OF that] g1 by (cases "nat (wl_index e g) = ?j"; cases "g = f"; cases "g = a") (simp_all add: st1155_set_def)
  qed
  with m2 d(2) show ?b
    by (intro goes_other [OF l _ _ _ suite_at_put(4) [OF d(1,2)]]) (auto simp: suite_at_def contract_call_def st1155_call_def)
qed

lemma goes_cells:
  assumes l: "loaded below e k w v f" and c: "\<exists>s. cells_call H fn args (sv_cells v) = cells_count (s :: cells) \<and> c_counter s = c_counter (sv_cells v)"
  shows "goes_through H below e k f (tx (wl_addr e ''storage'') (Call i fn args) 0 g) (=) w"
proof -
  note d = loadedD [OF l] note t = traffic_okD [OF d(3)]
  from c obtain s where s: "cells_call H fn args (sv_cells v) = cells_count s" "c_counter s = c_counter (sv_cells v)" by blast
  have "c_counter s + 1 < 2 ^ 256" using t(10) d(5) s(2) by (simp add: longest_def)
  then have m: "cells_call H fn args (sv_cells v) = Some (s\<lparr>c_counter := c_counter s + 1\<rparr>)" by (simp add: s(1) cells_count_def chk_def)
  have "traffic_ok below e (Suc k) (v\<lparr>sv_cells := s\<lparr>c_counter := c_counter s + 1\<rparr>\<rparr>)"
    using traffic_ok_mono [OF d(3)] t(10) s(2) by (simp add: traffic_ok_def Let_def)
  from goes_other [OF l _ _ _ suite_at_put(5) [OF d(1,2)] this, where H = H and fn = fn and args = args and i = i and g = g] m d(2) show ?thesis
    by (simp add: suite_at_def contract_call_def)
qed

lemma goes_bomb:
  assumes l: "loaded below e k w v f"
  shows "goes_through H below e k f (tx (wl_addr e ''gasbomb'') (Call i ''burn'' [Num n]) 0 g) (=) w"
proof -
  note d = loadedD [OF l]
  let ?n = "foldl (h_bomb H) (sv_bomb v) [0..<nat n]"
  have "traffic_ok below e (Suc k) (v\<lparr>sv_bomb := ?n\<rparr>)" using traffic_ok_mono [OF d(3)] by (simp add: traffic_ok_def Let_def)
  from goes_other [OF l _ _ _ suite_at_put(6) [OF d(1,2)] this, where H = H and fn = "''burn''" and args = "[Num n]" and i = i and g = g] d(2) show ?thesis
    by (simp add: suite_at_def contract_call_def bomb_call_def)
qed

lemma goes_native:
  assumes l: "loaded below e k w v f" and a: "a \<in> set (wl_pool e)"
  shows "goes_through H below e k f (tx a NoData 1 g) (=) w"
proof -
  note d = loadedD [OF l]
  have f: "10 ^ 18 \<le> cw_native w f + k" and c: "cw_code w a = None" using d(4,6) a by (simp_all add: wallets_ok_def)
  then have n: "1 \<le> cw_native w f" using d(5) by (simp add: longest_def)
  define m where "m = (cw_native w)(f := cw_native w f - 1)"
  have "10 ^ 18 \<le> (m(a := m a + 1)) x + Suc k" if "x \<in> set (wl_pool e)" for x
    using d(4) that n by (auto simp: wallets_ok_def m_def)
  then have "wallets_ok e (Suc k) (w\<lparr>cw_native := m(a := m a + 1)\<rparr>)" using d(4) by (simp add: wallets_ok_def)
  moreover have "suite_at e (w\<lparr>cw_native := m(a := m a + 1)\<rparr>) v" using d(2) by (simp add: suite_at_def)
  ultimately have "traffic_inv below e (Suc k) (w\<lparr>cw_native := m(a := m a + 1)\<rparr>)" using traffic_ok_mono [OF d(3)] by (intro traffic_invI)
  then show ?thesis using n c by (simp add: goes_through_def lp_of_def chain_tx_def tx_def move_native_def chk_sub_def m_def Let_def)
qed

lemma goes_deploy:
  assumes l: "loaded below e k w v f"
  shows "goes_through H below e k f \<lparr>rq_to = None, rq_data = Raw b, rq_value = 0, rq_gas = g\<rparr> (=) w"
  unfolding goes_through_def
proof (intro allI impI)
  fix fresh assume fr: "cw_code w fresh = None \<and> fresh \<notin> set (wl_pool e)"
  note d = loadedD [OF l]
  have s: "suite_at e (put_code fresh (Cells cells_new) w) v" using d(2) fr by (auto simp: suite_at_def put_code_def)
  from traffic_invI [OF s traffic_ok_mono [OF d(3)] wallets_ok_put [OF wallets_ok_mono [OF d(4)]]] fr
  show "\<exists>w'. chain_tx H below fresh f \<lparr>rq_to = None, rq_data = Raw b, rq_value = 0, rq_gas = g\<rparr> w = Some w' \<and>
      traffic_inv below e (Suc k) w' \<and> lp_of below e w = lp_of below e w'"
    using lp_at [OF d(2), of below] lp_at [OF s, of below] by (simp add: chain_tx_def)
qed

section \<open>The requests to the exchange\<close>

lemma key_side:
  "suite_distinct e \<Longrightarrow> wl_addr e ''t0'' = fst (pool_of below e) \<longleftrightarrow> below (wl_addr e ''t0'') (wl_addr e ''t1'')"
  by (auto simp: suite_distinct_def pool_of_def dex_key_def)

text \<open>Payments of the exchange, on the suite.\<close>

lemma pull_at:
  assumes "suite_at e w v" "x = ''t0'' \<and> t = sv_t0 v \<or> x = ''t1'' \<and> t = sv_t1 v" "st20_transferFrom D f D n t = Some t'"
  shows "token_pull D (wl_addr e x) f n w = Some (put_code (wl_addr e x) (Token20 t') w)"
  using assms by (elim disjE conjE) (simp_all add: token_pull_def suite_at_def)

lemma pay_at:
  assumes "suite_at e w v" "x = ''t0'' \<and> t = sv_t0 v \<or> x = ''t1'' \<and> t = sv_t1 v" "st20_t D f n t = Some t'"
  shows "token_pay D (wl_addr e x) f n w = Some (put_code (wl_addr e x) (Token20 t') w)"
  using assms by (elim disjE conjE) (simp_all add: token_pay_def suite_at_def)

text \<open>The pool and both tokens change.\<close>

lemma view_order:
  "v\<lparr>sv_t1 := b, sv_t0 := a\<rparr> = v\<lparr>sv_t0 := a, sv_t1 := b\<rparr>"
  "v\<lparr>sv_dex := d, sv_t0 := a\<rparr> = v\<lparr>sv_t0 := a, sv_dex := d\<rparr>"
  "v\<lparr>sv_dex := d, sv_t1 := b\<rparr> = v\<lparr>sv_t1 := b, sv_dex := d\<rparr>"
  by (cases v; simp)+

lemma traffic_inv_dex:
  assumes l: "loaded below e k w v f" and s: "suite_at e w' (v\<lparr>sv_t0 := a, sv_t1 := b, sv_dex := d\<rparr>)"
    and t: "tok_inv (wl_addr e ''dex'') (set (wl_pool e)) (Suc k) a" "tok_inv (wl_addr e ''dex'') (set (wl_pool e)) (Suc k) b"
    and p: "pool_inv (pool_of below e) (Suc k) d"
    and r: "fst (reserves below e d) \<le> t_bal a (wl_addr e ''dex'')" "snd (reserves below e d) \<le> t_bal b (wl_addr e ''dex'')"
    and w: "wallets_ok e k w'"
  shows "traffic_inv below e (Suc k) w'"
proof (rule traffic_invI [OF s _ wallets_ok_mono [OF w]])
  show "traffic_ok below e (Suc k) (v\<lparr>sv_t0 := a, sv_t1 := b, sv_dex := d\<rparr>)"
    using traffic_ok_mono [OF loadedD(3) [OF l]] t p r by (simp add: traffic_ok_def Let_def)
qed

lemma goes_swap:
  assumes l: "loaded below e k w v f"
  shows "goes_through H below e k f (tx (wl_addr e ''dex'') (Call i ''swap'' [Addr (wl_addr e ''t0''), Addr (wl_addr e ''t1''), Num 1000, Num 0]) 0 g) (=) w"
proof -
  note d = loadedD [OF l] note t = traffic_okD [OF d(3)]
  let ?D = "wl_addr e ''dex''" and ?T0 = "wl_addr e ''t0''" and ?T1 = "wl_addr e ''t1''" and ?q = "pool_of below e"
  define b where "b = below ?T0 ?T1"
  obtain rin rout where r: "reserves below e (sv_dex v) = (rin, rout)" by fastforce
  have q: "p_res (sv_dex v) ?q = (if b then (rin, rout) else (rout, rin))"
    using r by (auto simp: reserves_def b_def split: prod.splits if_splits)
  have R: "10 ^ 24 \<le> rin + 2000 * k" "rin \<le> 10 ^ 24 + 10 ^ 5 * k" "10 ^ 24 \<le> rout + 2000 * k" "rout \<le> 10 ^ 24 + 10 ^ 5 * k"
    using t(3) by (cases b; simp add: pool_inv_def q)+
  from R d(5) have pos: "0 < rin" "0 < rout" by (simp_all add: longest_def)
  obtain out where out: "dex_out rin rout 1000 = Some out" "out \<le> 2000" using dex_out_ok [OF R d(5)] by blast
  obtain t0 where t0: "st20_transferFrom ?D f ?D 1000 (sv_t0 v) = Some t0" "tok_inv ?D (set (wl_pool e)) (Suc k) t0" "t_bal t0 ?D = t_bal (sv_t0 v) ?D + 1000"
    using st20_pull_ok [OF t(1) d(5) _ d(6,7), of 1000] by auto
  obtain d' where d': "dex_trade ?q b 1000 out (sv_dex v) = Some d'" "pool_inv ?q (Suc k) d'" "p_lp d' = p_lp (sv_dex v)"
      "p_res d' ?q = (if b then (rin + 1000, rout - out) else (rout - out, rin + 1000))" "out \<le> rout"
    using dex_trade_ok [OF t(3) d(5) out(2), of b] by (auto simp: q split: if_splits)
  have le: "out \<le> t_bal (sv_t1 v) ?D" using d'(5) t(5) by (simp add: r)
  obtain t1 where t1: "st20_t ?D f out (sv_t1 v) = Some t1" "tok_inv ?D (set (wl_pool e)) (Suc k) t1" "t_bal t1 ?D = t_bal (sv_t1 v) ?D - out"
    using st20_pay_ok [OF t(2) d(5) _ le d(6,7)] out(2) by auto
  define w1 where "w1 = put_code ?T0 (Token20 t0) w"
  define w2 where "w2 = put_code ?D (Dex d') w1"
  define w3 where "w3 = put_code ?T1 (Token20 t1) w2"
  have s1: "suite_at e w1 (v\<lparr>sv_t0 := t0\<rparr>)" unfolding w1_def by (rule suite_at_put(1) [OF d(1,2)])
  have s2: "suite_at e w2 (v\<lparr>sv_t0 := t0, sv_dex := d'\<rparr>)" unfolding w2_def by (rule suite_at_put(7) [OF d(1) s1])
  have s3: "suite_at e w3 (v\<lparr>sv_t0 := t0, sv_dex := d', sv_t1 := t1\<rparr>)" unfolding w3_def by (rule suite_at_put(2) [OF d(1) s2])
  have e1: "token_pull ?D ?T0 f 1000 w = Some w1" unfolding w1_def by (rule pull_at [OF d(2) _ t0(1)]) simp
  have e2: "token_pay ?D ?T1 f out w2 = Some w3" unfolding w3_def by (rule pay_at [OF s2 _ t1(1)]) simp
  have k: "dex_key below ?T0 ?T1 = ?q" "(?T0 = fst ?q) = b" "cw_code w ?D = Some (Dex (sv_dex v))"
    using key_side [OF d(1)] d(2) by (simp_all add: pool_of_def b_def suite_at_def)
  have "dex_swap below ?D f ?T0 ?T1 1000 0 w = Some w3"
    using d'(1) by (cases b) (simp_all add: dex_swap_def k q Let_def pos guard_def e1 out(1) e2 [unfolded w2_def])
  moreover have "wallets_ok e k w3"
    unfolding w3_def w2_def w1_def using suite_not_wallet [OF d(2,4)] d(4) by (simp add: wallets_ok_put)
  then have "traffic_inv below e (Suc k) w3"
    using s3 [unfolded view_order] t0 t1 d' t(4,5) r by (intro traffic_inv_dex [OF l, where a = t0 and b = t1 and d = d']) (auto simp: reserves_def b_def [symmetric] split: if_splits)
  ultimately show ?thesis using lp_at [OF d(2), of below] lp_at [OF s3, of below] d'(3)
    by (simp add: goes_through_def chain_tx_call [OF k(3)] contract_call_def dex_call_def)
qed

text \<open>Nothing changes but the contracts of the suite.\<close>

definition elsewhere :: "wl_env \<Rightarrow> chain_world \<Rightarrow> chain_world \<Rightarrow> bool" where
  "elsewhere e w w' \<longleftrightarrow> cw_native w' = cw_native w \<and>
     (\<forall>a. a \<notin> wl_addr e ` {''t0'', ''t1'', ''erc721'', ''erc1155'', ''storage'', ''gasbomb'', ''dex''} \<longrightarrow> cw_code w' a = cw_code w a)"

text \<open>An addition of the same amount of both tokens, on any state of the suite.\<close>

lemma add_at:
  assumes d: "suite_distinct e" "suite_at e w v"
    and t0: "st20_transferFrom (wl_addr e ''dex'') f (wl_addr e ''dex'') n (sv_t0 v) = Some t0"
    and t1: "st20_transferFrom (wl_addr e ''dex'') f (wl_addr e ''dex'') n (sv_t1 v) = Some t1"
    and d': "dex_grow (pool_of below e) f n n (sv_dex v) = Some d'"
  shows "\<exists>w'. dex_addLiquidity below (wl_addr e ''dex'') f (wl_addr e ''t0'') (wl_addr e ''t1'') n n w = Some w' \<and>
    suite_at e w' (v\<lparr>sv_t0 := t0, sv_t1 := t1, sv_dex := d'\<rparr>) \<and> elsewhere e w w'"
proof -
  let ?D = "wl_addr e ''dex''" and ?T0 = "wl_addr e ''t0''" and ?T1 = "wl_addr e ''t1''" and ?q = "pool_of below e"
  define b where "b = below ?T0 ?T1"
  have k: "dex_key below ?T0 ?T1 = ?q" "?q = (if b then (?T0, ?T1) else (?T1, ?T0))"
    by (simp_all add: pool_of_def dex_key_def b_def)
  define wA where "wA = (if b then put_code ?T0 (Token20 t0) w else put_code ?T1 (Token20 t1) w)"
  define wB where "wB = (if b then put_code ?T1 (Token20 t1) wA else put_code ?T0 (Token20 t0) wA)"
  define w3 where "w3 = put_code ?D (Dex d') wB"
  have s1: "suite_at e wA (if b then v\<lparr>sv_t0 := t0\<rparr> else v\<lparr>sv_t1 := t1\<rparr>)" using suite_at_put(1,2) [OF d] by (simp add: wA_def)
  have s2: "suite_at e wB (v\<lparr>sv_t0 := t0, sv_t1 := t1\<rparr>)"
    using suite_at_put(2) [OF d(1), of wA "v\<lparr>sv_t0 := t0\<rparr>" t1] suite_at_put(1) [OF d(1), of wA "v\<lparr>sv_t1 := t1\<rparr>" t0] s1
    by (cases b) (simp_all add: wB_def view_order)
  have s3: "suite_at e w3 (v\<lparr>sv_t0 := t0, sv_t1 := t1, sv_dex := d'\<rparr>)" unfolding w3_def by (rule suite_at_put(7) [OF d(1) s2])
  have e1: "token_pull ?D (fst ?q) f n w = Some wA"
    using pull_at [OF d(2) _ t0, of "''t0''"] pull_at [OF d(2) _ t1, of "''t1''"] by (cases b) (simp_all add: k wA_def)
  have e2: "token_pull ?D (snd ?q) f n wA = Some wB"
    using pull_at [of e wA "v\<lparr>sv_t0 := t0\<rparr>" "''t1''", OF _ _ t1] pull_at [of e wA "v\<lparr>sv_t1 := t1\<rparr>" "''t0''", OF _ _ t0] s1
    by (cases b) (simp_all add: k wB_def)
  have c: "cw_code wB ?D = Some (Dex (sv_dex v))" using s2 by (simp add: suite_at_def)
  have "dex_addLiquidity below ?D f ?T0 ?T1 n n w = Some w3"
    by (simp add: dex_addLiquidity_def k(1) Let_def e1 e2 c d' w3_def)
  moreover have "elsewhere e w w3" by (simp add: elsewhere_def w3_def wB_def wA_def put_code_def)
  ultimately show ?thesis using s3 by blast
qed

lemma wallets_ok_same:
  assumes "wallets_ok e k w" "suite_at e w v" "elsewhere e w w'"
  shows "wallets_ok e k w'"
  unfolding wallets_ok_def
proof (intro ballI)
  fix f assume f: "f \<in> set (wl_pool e)"
  then have "f \<notin> wl_addr e ` {''t0'', ''t1'', ''erc721'', ''erc1155'', ''storage'', ''gasbomb'', ''dex''}"
    using suite_not_wallet [OF assms(2,1)] by blast
  then show "cw_code w' f = None \<and> 10 ^ 18 \<le> cw_native w' f + k" using assms(1,3) f by (simp add: wallets_ok_def elsewhere_def)
qed

lemma goes_add:
  assumes l: "loaded below e k w v f"
  shows "goes_through H below e k f (tx (wl_addr e ''dex'') (Call i ''addLiquidity'' [Addr (wl_addr e ''t0''), Addr (wl_addr e ''t1''), Num 100000, Num 100000]) 0 g)
    (\<lambda>x y. \<exists>share. 199000 \<le> share \<and> y = x(f := x f + share)) w"
proof -
  note d = loadedD [OF l] note t = traffic_okD [OF d(3)]
  let ?D = "wl_addr e ''dex''" and ?q = "pool_of below e"
  obtain t0 where t0: "st20_transferFrom ?D f ?D 100000 (sv_t0 v) = Some t0" "tok_inv ?D (set (wl_pool e)) (Suc k) t0" "t_bal t0 ?D = t_bal (sv_t0 v) ?D + 100000"
    using st20_pull_ok [OF t(1) d(5) _ d(6,7), of 100000] by auto
  obtain t1 where t1: "st20_transferFrom ?D f ?D 100000 (sv_t1 v) = Some t1" "tok_inv ?D (set (wl_pool e)) (Suc k) t1" "t_bal t1 ?D = t_bal (sv_t1 v) ?D + 100000"
    using st20_pull_ok [OF t(2) d(5) _ d(6,7), of 100000] by auto
  obtain d' share where d': "dex_grow ?q f 100000 100000 (sv_dex v) = Some d'" "pool_inv ?q (Suc k) d'" "199000 \<le> share"
      "p_lp d' ?q = (p_lp (sv_dex v) ?q)(f := p_lp (sv_dex v) ?q f + share)"
      "p_res d' ?q = (fst (p_res (sv_dex v) ?q) + 100000, snd (p_res (sv_dex v) ?q) + 100000)"
    using dex_grow_ok [OF t(3) d(5), of f] by auto
  obtain w3 where w3: "dex_addLiquidity below ?D f (wl_addr e ''t0'') (wl_addr e ''t1'') 100000 100000 w = Some w3"
      "suite_at e w3 (v\<lparr>sv_t0 := t0, sv_t1 := t1, sv_dex := d'\<rparr>)" "elsewhere e w w3"
    using add_at [OF d(1,2) t0(1) t1(1) d'(1)] by blast
  have "traffic_inv below e (Suc k) w3"
    using w3(2) t0 t1 d' t(4,5) wallets_ok_same [OF d(4,2) w3(3)]
    by (intro traffic_inv_dex [OF l, where a = t0 and b = t1 and d = d']) (auto simp: reserves_def split: prod.splits if_splits)
  moreover have "cw_code w ?D = Some (Dex (sv_dex v))" using d(2) by (simp add: suite_at_def)
  ultimately show ?thesis using lp_at [OF d(2), of below] lp_at [OF w3(2), of below] d'(3,4) w3(1)
    by (auto simp: goes_through_def chain_tx_call contract_call_def dex_call_def)
qed

lemma goes_remove:
  assumes l: "loaded below e k w v f" and lp: "1000 \<le> lp_of below e w f"
  shows "goes_through H below e k f (tx (wl_addr e ''dex'') (Call i ''removeLiquidity'' [Addr (wl_addr e ''t0''), Addr (wl_addr e ''t1''), Num 1000]) 0 g)
    (\<lambda>x y. y = x(f := x f - 1000)) w"
proof -
  note d = loadedD [OF l] note t = traffic_okD [OF d(3)]
  let ?D = "wl_addr e ''dex''" and ?T0 = "wl_addr e ''t0''" and ?T1 = "wl_addr e ''t1''" and ?q = "pool_of below e"
  define b where "b = below ?T0 ?T1"
  have "1000 \<le> p_lp (sv_dex v) ?q f" using lp by (simp add: lp_at [OF d(2)])
  then obtain d' x y where d': "dex_shrink ?q f 1000 (sv_dex v) = Some (d', x, y)" "pool_inv ?q (Suc k) d'" "x \<le> 2000" "y \<le> 2000"
      "p_lp d' ?q = (p_lp (sv_dex v) ?q)(f := p_lp (sv_dex v) ?q f - 1000)"
      "p_res d' ?q = (fst (p_res (sv_dex v) ?q) - x, snd (p_res (sv_dex v) ?q) - y)" "x \<le> fst (p_res (sv_dex v) ?q)" "y \<le> snd (p_res (sv_dex v) ?q)"
    using dex_shrink_ok [OF t(3) d(5)] by blast
  define n0 n1 where "n0 = (if b then x else y)" and "n1 = (if b then y else x)"
  have le: "n0 \<le> t_bal (sv_t0 v) ?D" "n1 \<le> t_bal (sv_t1 v) ?D" "n0 \<le> 10 ^ 5" "n1 \<le> 10 ^ 5"
    using d'(3,4,7,8) t(4,5) by (auto simp: n0_def n1_def reserves_def b_def split: prod.splits if_splits)
  obtain t0 where t0: "st20_t ?D f n0 (sv_t0 v) = Some t0" "tok_inv ?D (set (wl_pool e)) (Suc k) t0" "t_bal t0 ?D = t_bal (sv_t0 v) ?D - n0"
    using st20_pay_ok [OF t(1) d(5) le(3,1) d(6,7)] by blast
  obtain t1 where t1: "st20_t ?D f n1 (sv_t1 v) = Some t1" "tok_inv ?D (set (wl_pool e)) (Suc k) t1" "t_bal t1 ?D = t_bal (sv_t1 v) ?D - n1"
    using st20_pay_ok [OF t(2) d(5) le(4,2) d(6,7)] by blast
  have k: "dex_key below ?T0 ?T1 = ?q" "(?T0 = fst ?q) = b" "cw_code w ?D = Some (Dex (sv_dex v))"
    using key_side [OF d(1)] d(2) by (simp_all add: pool_of_def b_def suite_at_def)
  have q: "?q = (if b then (?T0, ?T1) else (?T1, ?T0))" by (simp add: pool_of_def dex_key_def b_def)
  define w1 where "w1 = put_code ?D (Dex d') w"
  define wA where "wA = (if b then put_code ?T0 (Token20 t0) w1 else put_code ?T1 (Token20 t1) w1)"
  define w3 where "w3 = (if b then put_code ?T1 (Token20 t1) wA else put_code ?T0 (Token20 t0) wA)"
  have s1: "suite_at e w1 (v\<lparr>sv_dex := d'\<rparr>)" unfolding w1_def by (rule suite_at_put(7) [OF d(1,2)])
  have s2: "suite_at e wA (if b then v\<lparr>sv_dex := d', sv_t0 := t0\<rparr> else v\<lparr>sv_dex := d', sv_t1 := t1\<rparr>)"
    using suite_at_put(1,2) [OF d(1) s1] by (simp add: wA_def)
  have s3: "suite_at e w3 (v\<lparr>sv_t0 := t0, sv_t1 := t1, sv_dex := d'\<rparr>)"
    using suite_at_put(2) [OF d(1), of wA "v\<lparr>sv_dex := d', sv_t0 := t0\<rparr>" t1] suite_at_put(1) [OF d(1), of wA "v\<lparr>sv_dex := d', sv_t1 := t1\<rparr>" t0] s2
    by (cases b) (simp_all add: w3_def view_order)
  have e1: "token_pay ?D (fst ?q) f x w1 = Some wA"
    using pay_at [OF s1 _ t0(1), of "''t0''"] pay_at [OF s1 _ t1(1), of "''t1''"] by (cases b) (simp_all add: q wA_def n0_def n1_def)
  have e2: "token_pay ?D (snd ?q) f y wA = Some w3"
    using pay_at [of e wA "v\<lparr>sv_dex := d', sv_t0 := t0\<rparr>" "''t1''", OF _ _ t1(1)] pay_at [of e wA "v\<lparr>sv_dex := d', sv_t1 := t1\<rparr>" "''t0''", OF _ _ t0(1)] s2
    by (cases b) (simp_all add: q w3_def n0_def n1_def)
  have "dex_removeLiquidity below ?D f ?T0 ?T1 1000 w = Some w3"
    by (simp add: dex_removeLiquidity_def k Let_def d'(1) e1 [unfolded w1_def] e2)
  moreover have "wallets_ok e k w3"
    using suite_not_wallet [OF d(2,4)] d(4) by (simp add: wallets_ok_put w3_def wA_def w1_def)
  then have "traffic_inv below e (Suc k) w3"
    using s3 t0 t1 d' t(4,5) by (intro traffic_inv_dex [OF l, where a = t0 and b = t1 and d = d'])
      (auto simp: reserves_def b_def [symmetric] n0_def n1_def diff_le_mono split: prod.splits if_splits)
  ultimately show ?thesis using lp_at [OF d(2), of below] lp_at [OF s3, of below] d'(5)
    by (auto simp: goes_through_def chain_tx_call [OF k(3)] contract_call_def dex_call_def)
qed

end
