(* ===== verification/Stress_Properties.thy ===== *)
theory Stress_Properties
  imports Stress_Traffic
begin

text \<open>
  Runs of the stress generator on its suite: which transactions revert; and the scripts that prepare the chain,
  which reach the state such runs start from.
\<close>

section \<open>One request\<close>

lemma plain_ops:
  "name \<noteq> ''soak'' \<Longrightarrow> op \<in> fst ` set (stress_set name) \<Longrightarrow> op \<notin> {SNftMint, SNftTransfer, SWrapGMB, SUnwrapGMB}"
  by (auto simp: stress_set_def split: if_splits)

definition lp_change :: "stress_op \<Rightarrow> string \<Rightarrow> (string \<Rightarrow> nat) \<Rightarrow> (string \<Rightarrow> nat) \<Rightarrow> bool" where
  "lp_change op f = (case op of
      SDexAddLiq \<Rightarrow> (\<lambda>x y. \<exists>share. 199000 \<le> share \<and> y = x(f := x f + share))
    | SDexRemoveLiq \<Rightarrow> (\<lambda>x y. y = x(f := x f - 1000))
    | _ \<Rightarrow> (=))"

lemma built_goes_through:
  assumes l: "loaded below e k w v f" and r: "stress_build e rnd op f c = (Some r, c')"
    and op: "op \<notin> {SNftMint, SNftTransfer, SWrapGMB, SUnwrapGMB}" "op \<noteq> SRevertOp" and lp: "op = SDexRemoveLiq \<Longrightarrow> 1000 \<le> lp_of below e w f"
  shows "goes_through H below e k f r (lp_change op f) w"
proof -
  have ne: "wl_pool e \<noteq> []" using loadedD(6) [OF l] by auto
  have two: "\<exists>x. (x = ''t0'' \<or> x = ''t1'') \<and> randOf rnd 0 [wl_addr e ''t0'', wl_addr e ''t1''] = wl_addr e x"
    using randOf_two [of rnd 0 "wl_addr e ''t0''" "wl_addr e ''t1''"] by blast
  note tok = goes_token [OF l] note g = goes_721 [OF l] goes_1155 [OF l] goes_bomb [OF l] goes_swap [OF l] goes_add [OF l] goes_deploy [OF l]
  have cells: "goes_through H below e k f (tx (wl_addr e ''storage'') (Call i fn args) 0 g) (=) w"
    if "(fn, args) \<in> {(''set'', [Num x, Num y]), (''loop'', [Num x]), (''sink'', [Text t])}" for i fn args g x y t
    using that by (intro goes_cells [OF l]) (auto simp: cells_call_def cells_put_def Let_def)
  show ?thesis
  proof (cases op)
    case SErc20Transfer
    with two r tok(1) show ?thesis by (auto simp: lp_change_def)
  next
    case SErc20Approve
    with two r tok(2) show ?thesis by (auto simp: lp_change_def)
  next
    case SErc20Mint
    with r tok(3) [of "''t0''"] show ?thesis by (auto simp: lp_change_def)
  qed (use r op lp g goes_native [OF l randOf_in [OF ne]] cells goes_remove [OF l] in \<open>auto simp: lp_change_def Let_def split: if_splits\<close>)
qed

section \<open>Runs\<close>

text \<open>
  Gas is not counted by the model of the contracts. Any transaction may run out of it, which leaves the chain as it was,
  and one whose limit is below a bound that is certain must: the EVM takes 21000 for a transaction and at least 20000 for
  a store that makes a zero cell nonzero, and \<open>set\<close> of Storage stores a value and raises a counter.
\<close>

definition least_gas :: "chain_world \<Rightarrow> tx_request \<Rightarrow> int" where
  "least_gas w r = (case (rq_to r, rq_data r) of
     (Some a, Call i fn [Num k, Num v]) \<Rightarrow> (case cw_code w a of
        Some (Cells t) \<Rightarrow> if fn = ''set'' then 21000 + (if c_store t (nat k mod 1024) = 0 \<and> nat v \<noteq> 0 then 20000 else 0) +
            (if c_counter t = 0 then 20000 else 0) else 21000
      | _ \<Rightarrow> 21000)
   | _ \<Rightarrow> 21000)"

text \<open>
  The transactions that a run of a set of workloads has had executed, in the order of the blocks, each with the
  wallet, the operation, and how it ended: it succeeded, a check of the contracts refused it, or it ran out of gas. The
  bookkeeping a request was built with is arbitrary.
\<close>

datatype stress_end = Succeeded | Refused | OutOfGas

inductive stress_traffic :: "hashes \<Rightarrow> (string \<Rightarrow> string \<Rightarrow> bool) \<Rightarrow> wl_env \<Rightarrow> string \<Rightarrow> chain_world \<Rightarrow> chain_world \<Rightarrow> (string \<times> stress_op \<times> stress_end) list \<Rightarrow> bool"
  for H below e name w0 where
  st_start: "stress_traffic H below e name w0 w0 []"
| st_done: "stress_traffic H below e name w0 w hist \<Longrightarrow> f \<in> set (wl_pool e) \<Longrightarrow> op \<in> fst ` set (stress_set name) \<Longrightarrow>
    stress_build e rnd op f c = (Some r, c') \<Longrightarrow> cw_code w fresh = None \<Longrightarrow> fresh \<notin> set (wl_pool e) \<Longrightarrow> least_gas w r \<le> rq_gas r \<Longrightarrow>
    chain_tx H below fresh f r w = Some w' \<Longrightarrow> stress_traffic H below e name w0 w' (hist @ [(f, op, Succeeded)])"
| st_reverted: "stress_traffic H below e name w0 w hist \<Longrightarrow> f \<in> set (wl_pool e) \<Longrightarrow> op \<in> fst ` set (stress_set name) \<Longrightarrow>
    stress_build e rnd op f c = (Some r, c') \<Longrightarrow> cw_code w fresh = None \<Longrightarrow> fresh \<notin> set (wl_pool e) \<Longrightarrow>
    chain_tx H below fresh f r w = None \<Longrightarrow> stress_traffic H below e name w0 w (hist @ [(f, op, Refused)])"
| st_out_of_gas: "stress_traffic H below e name w0 w hist \<Longrightarrow> f \<in> set (wl_pool e) \<Longrightarrow> op \<in> fst ` set (stress_set name) \<Longrightarrow>
    stress_build e rnd op f c = (Some r, c') \<Longrightarrow> stress_traffic H below e name w0 w (hist @ [(f, op, OutOfGas)])"

text \<open>
  The first \<open>storageSet\<close> on a new Storage must run out of its 50000 units: both stores make a zero cell nonzero (the value
  is zero once in 10^9 draws). It leaves the counter at zero, so the next one runs out as well, and the set core has no other operation that
  raises the counter.
\<close>

lemma storage_set_runs_out:
  assumes "stress_build e rnd SStorageSet f c = (Some r, c')" "cw_code w (wl_addr e ''storage'') = Some (Cells t)"
    and "c_counter t = 0" "\<And>k. c_store t k = 0" "rq_data r = Call i fn [Num k, Num v]" "0 < v"
  shows "rq_gas r < least_gas w r"
  using assms by (auto simp: least_gas_def tx_def)

definition done_by :: "stress_op \<Rightarrow> string \<Rightarrow> (string \<times> stress_op \<times> stress_end) list \<Rightarrow> nat" where
  "done_by op f hist = length (filter (\<lambda>x. x = (f, op, Succeeded)) hist)"

lemma done_by_simps [simp]:
  "done_by op f [] = 0"
  "done_by op f (hist @ [x]) = (if x = (f, op, Succeeded) then Suc (done_by op f hist) else done_by op f hist)"
  by (simp_all add: done_by_def)

text \<open>A transaction that may be refused: one that is meant to, or a removal after 199 removals for each addition.\<close>

definition may_revert :: "(string \<times> stress_op \<times> stress_end) list \<Rightarrow> string \<Rightarrow> stress_op \<Rightarrow> bool" where
  "may_revert hist f op \<longleftrightarrow> op = SRevertOp \<or> op = SDexRemoveLiq \<and> 199 * done_by SDexAddLiq f hist \<le> done_by SDexRemoveLiq f hist"

definition log_ok :: "(string \<times> stress_op \<times> stress_end) list \<Rightarrow> bool" where
  "log_ok hist \<longleftrightarrow> (\<forall>xs f op ys. hist = xs @ (f, op, Refused) # ys \<longrightarrow> may_revert xs f op)"

lemma log_ok_snoc: "log_ok (hist @ [(f, op, ok)]) \<longleftrightarrow> log_ok hist \<and> (ok \<noteq> Refused \<or> may_revert hist f op)"
proof
  assume a: "log_ok (hist @ [(f, op, ok)])"
  have "log_ok hist" using a unfolding log_ok_def by (metis append.assoc append_Cons)
  moreover have "ok = Refused \<Longrightarrow> may_revert hist f op" using a unfolding log_ok_def by blast
  ultimately show "log_ok hist \<and> (ok \<noteq> Refused \<or> may_revert hist f op)" by blast
next
  assume a: "log_ok hist \<and> (ok \<noteq> Refused \<or> may_revert hist f op)"
  show "log_ok (hist @ [(f, op, ok)])" unfolding log_ok_def
  proof (intro allI impI)
    fix xs g op' ys assume eq: "hist @ [(f, op, ok)] = xs @ (g, op', Refused) # ys"
    show "may_revert xs g op'"
    proof (cases ys rule: rev_cases)
      case Nil
      with eq a show ?thesis by simp
    next
      case (snoc zs z)
      with eq have "hist = xs @ (g, op', Refused) # zs" by simp
      with a show ?thesis by (auto simp: log_ok_def)
    qed
  qed
qed

lemma boom_reverts: "suite_at e w v \<Longrightarrow> stress_build e rnd SRevertOp f c = (Some r, c') \<Longrightarrow> chain_tx H below fresh f r w = None"
  by (auto simp: chain_tx_call suite_at_def contract_call_def cells_call_def)

lemma lp_change_step:
  assumes "lp_change op f x y" "op = SDexRemoveLiq \<longrightarrow> 1000 \<le> x f"
    and "\<forall>g. 199000 * done_by SDexAddLiq g hist \<le> x g + 1000 * done_by SDexRemoveLiq g hist"
  shows "199000 * done_by SDexAddLiq g (hist @ [(f, op, Succeeded)]) \<le> y g + 1000 * done_by SDexRemoveLiq g (hist @ [(f, op, Succeeded)])"
  using assms(1,2) assms(3) [rule_format, of g] by (cases op) (auto simp: lp_change_def)

lemma traffic_keeps:
  assumes "stress_traffic H below e name w0 w hist" "traffic_inv below e 0 w0" "suite_distinct e" "name \<noteq> ''soak''" "length hist \<le> longest"
  shows "traffic_inv below e (length hist) w \<and> log_ok hist \<and>
    (\<forall>g. 199000 * done_by SDexAddLiq g hist \<le> lp_of below e w g + 1000 * done_by SDexRemoveLiq g hist)"
  using assms
proof (induction rule: stress_traffic.induct)
  case st_start
  then show ?case by (simp add: log_ok_def)
next
  case (st_done w hist f op rnd c r c' fresh w')
  then have i: "traffic_inv below e (length hist) w" "log_ok hist"
      "\<forall>g. 199000 * done_by SDexAddLiq g hist \<le> lp_of below e w g + 1000 * done_by SDexRemoveLiq g hist" and k: "length hist < longest" by auto
  from i(1) obtain v where v: "suite_at e w v" "traffic_ok below e (length hist) v" "wallets_ok e (length hist) w" by (auto simp: traffic_inv_def)
  have l: "loaded below e (length hist) w v f" using v k st_done by (simp add: loaded_def)
  have nr: "op \<noteq> SRevertOp" using boom_reverts [OF v(1)] st_done.hyps by fastforce
  have lp: "1000 \<le> lp_of below e w f" if rm: "op = SDexRemoveLiq"
  proof (rule ccontr)
    assume "\<not> 1000 \<le> lp_of below e w f"
    then have "p_lp (sv_dex v) (pool_of below e) f < 1000" by (simp add: lp_at [OF v(1)])
    then have "dex_shrink (pool_of below e) f 1000 (sv_dex v) = None"
      by (auto simp: dex_shrink_def chk_sub_def Let_def split: prod.splits option.splits bind_splits)
    then have "chain_tx H below fresh f r w = None"
      using st_done.hyps(4) rm v(1) by (auto simp: chain_tx_call suite_at_def contract_call_def dex_call_def dex_removeLiquidity_def pool_of_def Let_def split: if_splits)
    with st_done.hyps show False by simp
  qed
  from built_goes_through [OF l st_done.hyps(4) plain_ops [OF st_done.prems(3) st_done.hyps(3)] nr lp, of H] st_done.hyps
  have "traffic_inv below e (Suc (length hist)) w'" "lp_change op f (lp_of below e w) (lp_of below e w')" by (auto simp: goes_through_def)
  then show ?case using i lp lp_change_step [of op f "lp_of below e w" "lp_of below e w'" hist] by (auto simp: log_ok_snoc simp del: done_by_simps)
next
  case (st_reverted w hist f op rnd c r c' fresh)
  then have i: "traffic_inv below e (length hist) w" "log_ok hist"
      "\<forall>g. 199000 * done_by SDexAddLiq g hist \<le> lp_of below e w g + 1000 * done_by SDexRemoveLiq g hist" and k: "length hist < longest" by auto
  from i(1) obtain v where v: "suite_at e w v" "traffic_ok below e (length hist) v" "wallets_ok e (length hist) w" by (auto simp: traffic_inv_def)
  have l: "loaded below e (length hist) w v f" using v k st_reverted by (simp add: loaded_def)
  have "may_revert hist f op"
  proof (rule ccontr)
    assume "\<not> may_revert hist f op"
    then have n: "op \<noteq> SRevertOp" "op = SDexRemoveLiq \<Longrightarrow> 1000 \<le> lp_of below e w f" using i(3) [rule_format, of f] by (auto simp: may_revert_def)
    from built_goes_through [OF l st_reverted.hyps(4) plain_ops [OF st_reverted.prems(3) st_reverted.hyps(3)] n, of H] st_reverted.hyps
    show False by (auto simp: goes_through_def)
  qed
  moreover have "traffic_inv below e (Suc (length hist)) w"
    using traffic_ok_mono [OF v(2)] wallets_ok_mono [OF v(3)] v(1) by (auto simp: traffic_inv_def)
  ultimately show ?case using i by (simp add: log_ok_snoc)
next
  case (st_out_of_gas w hist f op rnd c r c')
  then have i: "traffic_inv below e (length hist) w" "log_ok hist"
      "\<forall>g. 199000 * done_by SDexAddLiq g hist \<le> lp_of below e w g + 1000 * done_by SDexRemoveLiq g hist" by auto
  from i(1) obtain v where v: "suite_at e w v" "traffic_ok below e (length hist) v" "wallets_ok e (length hist) w" by (auto simp: traffic_inv_def)
  have "traffic_inv below e (Suc (length hist)) w"
    using traffic_ok_mono [OF v(2)] wallets_ok_mono [OF v(3)] v(1) by (auto simp: traffic_inv_def)
  then show ?case using i by (simp add: log_ok_snoc)
qed

end
