(* ===== verification/Stress_Prepared.thy ===== *)
theory Stress_Prepared
  imports Stress_Properties
begin

text \<open>
  The scripts that prepare a stress run, on the chain: the suite is deployed with a pool, every wallet is paid, and the
  bootstrap gives it tokens and approvals, in whatever order the transactions of different wallets are mined. Then the
  runs of Stress_Properties start.
\<close>

section \<open>Funding\<close>

lemma disperse_loop_pays:
  assumes "\<forall>a \<in> set as. cw_code w a = None" "me \<notin> set as" "n * length as \<le> cw_native w me"
  shows "disperse_loop me as (replicate (length as) n) w =
    Some (w\<lparr>cw_native := (\<lambda>a. if a = me then cw_native w me - n * length as else cw_native w a + n * count_list as a)\<rparr>)"
  using assms
proof (induction as arbitrary: w)
  case (Cons b as)
  let ?m = "(cw_native w)(me := cw_native w me - n)"
  let ?w = "w\<lparr>cw_native := ?m(b := ?m b + n)\<rparr>"
  have s: "send_native me b n w = Some ?w"
    using Cons.prems by (simp add: send_native_def move_native_def guard_def chk_sub_def Let_def)
  have "n * length as \<le> cw_native ?w me" using Cons.prems by simp
  then have "disperse_loop me as (replicate (length as) n) ?w =
      Some (?w\<lparr>cw_native := (\<lambda>a. if a = me then cw_native ?w me - n * length as else cw_native ?w a + n * count_list as a)\<rparr>)"
    using Cons.prems by (intro Cons.IH) auto
  moreover have "(\<lambda>a. if a = me then cw_native ?w me - n * length as else cw_native ?w a + n * count_list as a) =
      (\<lambda>a. if a = me then cw_native w me - n * length (b # as) else cw_native w a + n * count_list (b # as) a)"
    using Cons.prems by (intro ext) (auto simp: algebra_simps)
  ultimately show ?case by (simp add: s)
next
  case Nil
  then show ?case by (cases w) (simp add: fun_eq_iff cong: if_cong)
qed

lemma fund_request_pays:
  assumes "cw_code w disp = Some Disperser" "cw_native w disp = 0" "\<forall>s \<in> set ws. cw_code w (sw_addr s) = None"
    and "funder \<notin> sw_addr ` set ws" "funder \<noteq> disp" "n * length ws \<le> cw_native w funder"
  shows "chain_tx H below fresh funder (snd (fund_request funder disp (int n) ws)) w =
    Some (w\<lparr>cw_native := (\<lambda>a. if a = funder then cw_native w funder - n * length ws else cw_native w a + n * count_list (map sw_addr ws) a)\<rparr>)"
proof -
  let ?as = "map sw_addr ws"
  define w1 where "w1 = w\<lparr>cw_native := (cw_native w)(funder := cw_native w funder - n * length ws, disp := n * length ws)\<rparr>"
  have m: "move_native funder disp (n * length ws) w = Some w1" using assms(2,5,6) by (simp add: move_native_def chk_sub_def Let_def w1_def)
  have d: "disp \<notin> set ?as" using assms(1,3) by auto
  have "disperse_loop disp ?as (replicate (length ws) n) w1 =
      Some (w1\<lparr>cw_native := (\<lambda>a. if a = disp then cw_native w1 disp - n * length ws else cw_native w1 a + n * count_list ?as a)\<rparr>)"
    using disperse_loop_pays [of ?as w1 disp n, unfolded length_map] assms(3) d by (auto simp: w1_def)
  moreover have "(\<lambda>a. if a = disp then cw_native w1 disp - n * length ws else cw_native w1 a + n * count_list ?as a) =
      (\<lambda>a. if a = funder then cw_native w funder - n * length ws else cw_native w a + n * count_list ?as a)"
    using assms(2,4,5) d by (intro ext) (auto simp: w1_def count_list_0_iff)
  ultimately have "disperse disp funder ?as (replicate (length ws) n) w1 =
      Some (w\<lparr>cw_native := (\<lambda>a. if a = funder then cw_native w funder - n * length ws else cw_native w a + n * count_list ?as a)\<rparr>)"
    using assms(2,5) d by (simp add: disperse_def w1_def count_list_0_iff)
  moreover have "map nat (map (\<lambda>w. int n) ws) = replicate (length ws) n" by (simp add: map_replicate_const)
  moreover have "nat (int n * int (length ws)) = n * length ws" by (simp add: nat_mult_distrib)
  ultimately show ?thesis
    using assms(1) m by (simp add: fund_request_def chain_tx_def tx_def contract_call_def)
qed

lemma fund_requests_pay:
  assumes "cw_code w disp = Some Disperser" "cw_native w disp = 0" "\<forall>s \<in> set (concat cs). cw_code w (sw_addr s) = None"
    and "funder \<notin> sw_addr ` set (concat cs)" "funder \<noteq> disp" "n * length (concat cs) \<le> cw_native w funder"
  shows "chain_txs H below (map (fund_request funder disp (int n)) cs) w =
    Some (w\<lparr>cw_native := (\<lambda>a. if a = funder then cw_native w funder - n * length (concat cs)
      else cw_native w a + n * count_list (map sw_addr (concat cs)) a)\<rparr>)"
  using assms
proof (induction cs arbitrary: w)
  case (Cons c cs)
  let ?w = "w\<lparr>cw_native := (\<lambda>a. if a = funder then cw_native w funder - n * length c else cw_native w a + n * count_list (map sw_addr c) a)\<rparr>"
  obtain r where r: "fund_request funder disp (int n) c = (funder, r)" by (simp add: fund_request_def)
  have nc: "n * length c \<le> cw_native w funder" using Cons.prems(6) by (simp add: algebra_simps)
  have "chain_tx H below [] funder r w = Some ?w"
    using fund_request_pays [OF Cons.prems(1,2) _ _ Cons.prems(5) nc, of H below "[]"] Cons.prems(3,4) r by auto
  moreover have "disp \<notin> sw_addr ` set c" using Cons.prems(1,3) by auto
  then have "cw_native ?w disp = 0" using Cons.prems(2,5) by (auto simp: count_list_0_iff)
  then have "chain_txs H below (map (fund_request funder disp (int n)) cs) ?w =
      Some (?w\<lparr>cw_native := (\<lambda>a. if a = funder then cw_native ?w funder - n * length (concat cs)
        else cw_native ?w a + n * count_list (map sw_addr (concat cs)) a)\<rparr>)"
    using Cons.prems by (intro Cons.IH) (auto simp: algebra_simps)
  moreover have "(\<lambda>a. if a = funder then cw_native ?w funder - n * length (concat cs) else cw_native ?w a + n * count_list (map sw_addr (concat cs)) a) =
      (\<lambda>a. if a = funder then cw_native w funder - n * length (concat (c # cs)) else cw_native w a + n * count_list (map sw_addr (concat (c # cs))) a)"
    by (intro ext) (simp add: algebra_simps)
  ultimately show ?case by (simp add: r)
next
  case Nil
  then show ?case by (cases w) (simp add: fun_eq_iff cong: if_cong)
qed

section \<open>Deployment\<close>

definition suite_vars :: "string list \<Rightarrow> (string \<times> string) list" where
  "suite_vars as = zip (map fst STRESS_SUITE) as"

lemma deployed:
  "deploy_contracts STRESS_SUITE (map Some [a0, a1, a2, a3, a4, a5, a6, a7]) ([], w) =
     Some (suite_vars [a0, a1, a2, a3, a4, a5, a6, a7], put_code a7 (Dex sdex_new) (put_code a6 Disperser (put_code a5 (Bomb 0)
       (put_code a4 (Cells cells_new) (put_code a3 (Token1155 st1155_new) (put_code a2 (Token721 st721_new)
       (put_code a1 (Token20 st20_new) (put_code a0 (Token20 st20_new) w))))))))"
  by (simp add: suite_vars_def STRESS_SUITE_def new_contract_def)

lemma suite_addresses:
  "suite_addr (suite_vars [a0, a1, a2, a3, a4, a5, a6, a7]) ''t0'' = a0" "suite_addr (suite_vars [a0, a1, a2, a3, a4, a5, a6, a7]) ''t1'' = a1"
  "suite_addr (suite_vars [a0, a1, a2, a3, a4, a5, a6, a7]) ''erc721'' = a2" "suite_addr (suite_vars [a0, a1, a2, a3, a4, a5, a6, a7]) ''erc1155'' = a3"
  "suite_addr (suite_vars [a0, a1, a2, a3, a4, a5, a6, a7]) ''storage'' = a4" "suite_addr (suite_vars [a0, a1, a2, a3, a4, a5, a6, a7]) ''gasbomb'' = a5"
  "suite_addr (suite_vars [a0, a1, a2, a3, a4, a5, a6, a7]) ''disperse'' = a6" "suite_addr (suite_vars [a0, a1, a2, a3, a4, a5, a6, a7]) ''dex'' = a7"
  by (simp_all add: suite_addr_def suite_vars_def STRESS_SUITE_def)

definition new_view :: suite_view where
  "new_view = \<lparr>sv_t0 = st20_new, sv_t1 = st20_new, sv_721 = st721_new, sv_1155 = st1155_new, sv_cells = cells_new, sv_bomb = 0, sv_dex = sdex_new\<rparr>"

text \<open>The tokens and the pool after the seeding, which the funder does.\<close>

definition seeded_token :: "string \<Rightarrow> string \<Rightarrow> st20" where
  "seeded_token D funder = \<lparr>t_supply = 10 ^ 30, t_bal = (\<lambda>a. 0)(funder := 10 ^ 30 - 10 ^ 24, D := 10 ^ 24),
     t_allow = (\<lambda>f s. 0)(funder := (\<lambda>s. 0)(D := 2 ^ 255 - 10 ^ 24))\<rparr>"

definition seeded_pool :: "pool_key \<Rightarrow> string \<Rightarrow> sdex" where
  "seeded_pool q funder = \<lparr>p_res = (\<lambda>k. (0, 0))(q := (10 ^ 24, 10 ^ 24)), p_lp = (\<lambda>k a. 0)(q := (\<lambda>a. 0)(funder := 2 * 10 ^ 24)),
     p_total = (\<lambda>k. 0)(q := 2 * 10 ^ 24)\<rparr>"

definition seeded_view :: "(string \<Rightarrow> string \<Rightarrow> bool) \<Rightarrow> wl_env \<Rightarrow> string \<Rightarrow> suite_view" where
  "seeded_view below e funder = new_view\<lparr>sv_t0 := seeded_token (wl_addr e ''dex'') funder, sv_t1 := seeded_token (wl_addr e ''dex'') funder,
     sv_dex := seeded_pool (pool_of below e) funder\<rparr>"

definition minted_token :: "string \<Rightarrow> st20" where
  "minted_token funder = \<lparr>t_supply = 10 ^ 30, t_bal = (\<lambda>a. 0)(funder := 10 ^ 30), t_allow = (\<lambda>f s. 0)\<rparr>"

lemma seed_steps:
  "st20_call funder ''mint'' [Addr funder, Num SEED] st20_new = Some (minted_token funder)"
  "st20_call funder ''approve'' [Addr D, Num (2 ^ 255)] t = Some (st20_approve funder D (2 ^ 255) t)"
  by (simp_all add: st20_call_def st20_mint_def st20_new_def minted_token_def SEED_def chk_def)

lemma seed_pull: "funder \<noteq> D \<Longrightarrow> st20_transferFrom D funder D (10 ^ 24) (st20_approve funder D (2 ^ 255) (minted_token funder)) = Some (seeded_token D funder)"
  by (simp add: st20_transferFrom_def st20_t_def st20_approve_def minted_token_def seeded_token_def chk_def chk_sub_def Let_def)

lemma seed_grow: "dex_grow q funder (10 ^ 24) (10 ^ 24) sdex_new = Some (seeded_pool q funder)"
  by (simp add: dex_grow_def sdex_new_def seeded_pool_def chk_def)

text \<open>A call of one of the tokens on the suite.\<close>

lemma token_tx:
  assumes "suite_distinct e" "suite_at e w v"
  shows "st20_call f fn args (sv_t0 v) = Some t \<Longrightarrow> \<exists>w'. chain_tx H below fresh f (tx (wl_addr e ''t0'') (Call i fn args) 0 g) w = Some w' \<and>
      suite_at e w' (v\<lparr>sv_t0 := t\<rparr>) \<and> elsewhere e w w'"
    and "st20_call f fn args (sv_t1 v) = Some t \<Longrightarrow> \<exists>w'. chain_tx H below fresh f (tx (wl_addr e ''t1'') (Call i fn args) 0 g) w = Some w' \<and>
      suite_at e w' (v\<lparr>sv_t1 := t\<rparr>) \<and> elsewhere e w w'"
proof -
  have c: "cw_code w (wl_addr e ''t0'') = Some (Token20 (sv_t0 v))" "cw_code w (wl_addr e ''t1'') = Some (Token20 (sv_t1 v))"
    using assms(2) by (simp_all add: suite_at_def)
  show "st20_call f fn args (sv_t0 v) = Some t \<Longrightarrow> \<exists>w'. chain_tx H below fresh f (tx (wl_addr e ''t0'') (Call i fn args) 0 g) w = Some w' \<and>
      suite_at e w' (v\<lparr>sv_t0 := t\<rparr>) \<and> elsewhere e w w'"
    using suite_at_put(1) [OF assms, of t] by (simp add: chain_tx_call [OF c(1)] contract_call_def elsewhere_def put_code_def)
  show "st20_call f fn args (sv_t1 v) = Some t \<Longrightarrow> \<exists>w'. chain_tx H below fresh f (tx (wl_addr e ''t1'') (Call i fn args) 0 g) w = Some w' \<and>
      suite_at e w' (v\<lparr>sv_t1 := t\<rparr>) \<and> elsewhere e w w'"
    using suite_at_put(2) [OF assms, of t] by (simp add: chain_tx_call [OF c(2)] contract_call_def elsewhere_def put_code_def)
qed

lemma elsewhere_trans: "elsewhere e w1 w2 \<Longrightarrow> elsewhere e w2 w3 \<Longrightarrow> elsewhere e w1 w3"
  by (simp add: elsewhere_def)

lemma seeded:
  assumes d: "suite_distinct e" and s: "suite_at e w new_view" and e: "wl_addr e = suite_addr vars" and f: "funder \<noteq> wl_addr e ''dex''"
  shows "\<exists>w'. chain_txs H below (seed_requests funder vars) w = Some w' \<and> suite_at e w' (seeded_view below e funder) \<and> elsewhere e w w'"
proof -
  let ?D = "wl_addr e ''dex''"
  let ?M = "minted_token funder" and ?A = "st20_approve funder ?D (2 ^ 255) (minted_token funder)"
  have v0: "sv_t0 new_view = st20_new" by (simp add: new_view_def)
  obtain w1 where w1: "chain_tx H below [] funder (tx (wl_addr e ''t0'') (Call ''erc20'' ''mint'' [Addr funder, Num SEED]) 0 0) w = Some w1"
      "suite_at e w1 (new_view\<lparr>sv_t0 := ?M\<rparr>)" "elsewhere e w w1"
    using token_tx(1) [OF d s, of funder "''mint''" "[Addr funder, Num SEED]" ?M] seed_steps(1) v0 by metis
  obtain w2 where w2: "chain_tx H below [] funder (tx (wl_addr e ''t0'') (Call ''erc20'' ''approve'' [Addr ?D, Num (2 ^ 255)]) 0 0) w1 = Some w2"
      "suite_at e w2 (new_view\<lparr>sv_t0 := ?A\<rparr>)" "elsewhere e w1 w2"
    using token_tx(1) [OF d w1(2) seed_steps(2)] by simp blast
  have v1: "sv_t1 (new_view\<lparr>sv_t0 := ?A\<rparr>) = st20_new" by (simp add: new_view_def)
  obtain w3 where w3: "chain_tx H below [] funder (tx (wl_addr e ''t1'') (Call ''erc20'' ''mint'' [Addr funder, Num SEED]) 0 0) w2 = Some w3"
      "suite_at e w3 (new_view\<lparr>sv_t0 := ?A, sv_t1 := ?M\<rparr>)" "elsewhere e w2 w3"
    using token_tx(2) [OF d w2(2), of funder "''mint''" "[Addr funder, Num SEED]" ?M] seed_steps(1) v1 by metis
  obtain w4 where w4: "chain_tx H below [] funder (tx (wl_addr e ''t1'') (Call ''erc20'' ''approve'' [Addr ?D, Num (2 ^ 255)]) 0 0) w3 = Some w4"
      "suite_at e w4 (new_view\<lparr>sv_t0 := ?A, sv_t1 := ?A\<rparr>)" "elsewhere e w3 w4"
    using token_tx(2) [OF d w3(2) seed_steps(2)] by simp blast
  obtain w5 where w5: "dex_addLiquidity below ?D funder (wl_addr e ''t0'') (wl_addr e ''t1'') (10 ^ 24) (10 ^ 24) w4 = Some w5"
      "suite_at e w5 (new_view\<lparr>sv_t0 := ?A, sv_t1 := ?A, sv_t0 := seeded_token ?D funder, sv_t1 := seeded_token ?D funder, sv_dex := seeded_pool (pool_of below e) funder\<rparr>)"
      "elsewhere e w4 w5"
    using add_at [OF d w4(2), of funder "10 ^ 24" "seeded_token ?D funder" "seeded_token ?D funder" below "seeded_pool (pool_of below e) funder"]
      seed_pull [OF f] seed_grow by (auto simp: new_view_def)
  have "cw_code w4 ?D = Some (Dex (sv_dex new_view))" using w4(2) by (simp add: suite_at_def)
  then have "chain_tx H below [] funder (tx ?D (Call ''dex'' ''addLiquidity'' [Addr (wl_addr e ''t0''), Addr (wl_addr e ''t1''), Num (10 ^ 24), Num (10 ^ 24)]) 0 0) w4 = Some w5"
    using w5(1) by (simp add: chain_tx_call contract_call_def dex_call_def)
  then have "chain_txs H below (seed_requests funder vars) w = Some w5"
    using w1(1) w2(1) w3(1) w4(1) by (simp add: seed_requests_def e [symmetric] Let_def)
  moreover have "suite_at e w5 (seeded_view below e funder)" using w5(2) by (simp add: seeded_view_def new_view_def)
  moreover have "elsewhere e w w5" using w1(3) w2(3) w3(3) w4(3) w5(3) by (blast intro: elsewhere_trans)
  ultimately show ?thesis by blast
qed

section \<open>Bootstrap\<close>

text \<open>What the operation \<open>j\<close> of a wallet's bootstrap gives it.\<close>

definition gained :: "wl_env \<Rightarrow> suite_view \<Rightarrow> seed_wallet \<Rightarrow> nat \<Rightarrow> bool" where
  "gained e v s j = (let a = sw_addr s; D = wl_addr e ''dex'' in
     if j = 0 then 10 ^ 24 \<le> t_bal (sv_t0 v) a else if j = 1 then 10 ^ 24 \<le> t_bal (sv_t1 v) a
     else if j = 2 then t_allow (sv_t0 v) a D = 2 ^ 255 else if j = 3 then t_allow (sv_t1 v) a D = 2 ^ 255
     else 10 ^ 6 \<le> m_bal (sv_1155 v) (sw_index s) a)"

definition boot_token :: "string \<Rightarrow> nat \<Rightarrow> st20 \<Rightarrow> bool" where
  "boot_token D n t \<longleftrightarrow> t_supply t \<le> 10 ^ 30 + 10 ^ 24 * n \<and> (\<forall>a. t_bal t a \<le> 10 ^ 30 + 10 ^ 24 * n) \<and> 10 ^ 24 \<le> t_bal t D"

definition boot_ok :: "(string \<Rightarrow> string \<Rightarrow> bool) \<Rightarrow> wl_env \<Rightarrow> string \<Rightarrow> nat \<Rightarrow> suite_view \<Rightarrow> bool" where
  "boot_ok below e funder n v \<longleftrightarrow> boot_token (wl_addr e ''dex'') n (sv_t0 v) \<and> boot_token (wl_addr e ''dex'') n (sv_t1 v) \<and>
     (\<forall>i a. m_bal (sv_1155 v) i a \<le> 10 ^ 6 * n) \<and> sv_721 v = st721_new \<and> sv_cells v = cells_new \<and> sv_dex v = seeded_pool (pool_of below e) funder"

lemma boot_token_mono: "boot_token D n t \<Longrightarrow> boot_token D (Suc n) t"
  unfolding boot_token_def by (auto intro: le_trans)

lemma boot_ok_mono: "boot_ok below e funder n v \<Longrightarrow> boot_ok below e funder (Suc n) v"
  unfolding boot_ok_def by (auto intro: boot_token_mono le_trans [where j = "10 ^ 6 * n"])

lemma boot_mint:
  assumes "boot_token D n t" "n < longest"
  shows "\<exists>t'. st20_call f ''mint'' [Addr a, Num (10 ^ 24)] t = Some t' \<and> boot_token D (Suc n) t' \<and> 10 ^ 24 \<le> t_bal t' a \<and>
    (\<forall>b. t_bal t b \<le> t_bal t' b) \<and> t_allow t' = t_allow t"
proof -
  have b: "t_supply t \<le> 10 ^ 30 + 10 ^ 24 * n" "t_bal t x \<le> 10 ^ 30 + 10 ^ 24 * n" "10 ^ 24 \<le> t_bal t D" for x using assms(1) by (auto simp: boot_token_def)
  have c: "t_supply t + 10 ^ 24 < 2 ^ 256" "t_bal t a + 10 ^ 24 < 2 ^ 256" using b(1) b(2) [of a] assms(2) by (simp_all add: longest_def)
  define t' where "t' = t\<lparr>t_supply := t_supply t + 10 ^ 24, t_bal := (t_bal t)(a := t_bal t a + 10 ^ 24)\<rparr>"
  have "t_bal t' x \<le> 10 ^ 30 + 10 ^ 24 * Suc n" for x using b(2) [of x] b(2) [of a] by (simp add: t'_def)
  then have "boot_token D (Suc n) t'" using b by (simp add: boot_token_def t'_def)
  moreover have "st20_call f ''mint'' [Addr a, Num (10 ^ 24)] t = Some t'" using c by (simp add: st20_call_def st20_mint_def chk_def t'_def)
  ultimately show ?thesis by (auto simp: t'_def)
qed

text \<open>The operations of a wallet, one by one.\<close>

lemma bootstrap_op:
  assumes "wl_addr e = suite_addr vars"
  shows "bootstrap_ops vars s ! 0 = tx (wl_addr e ''t0'') (Call ''erc20'' ''mint'' [Addr (sw_addr s), Num (10 ^ 24)]) 0 70000"
    and "bootstrap_ops vars s ! 1 = tx (wl_addr e ''t1'') (Call ''erc20'' ''mint'' [Addr (sw_addr s), Num (10 ^ 24)]) 0 70000"
    and "bootstrap_ops vars s ! 2 = tx (wl_addr e ''t0'') (Call ''erc20'' ''approve'' [Addr (wl_addr e ''dex''), Num (2 ^ 255)]) 0 60000"
    and "bootstrap_ops vars s ! 3 = tx (wl_addr e ''t1'') (Call ''erc20'' ''approve'' [Addr (wl_addr e ''dex''), Num (2 ^ 255)]) 0 60000"
    and "bootstrap_ops vars s ! 4 = tx (wl_addr e ''erc1155'') (Call ''erc1155'' ''mint'' [Addr (sw_addr s), Num (int (sw_index s)), Num 1000000]) 0 70000"
  by (simp_all add: bootstrap_ops_def assms Let_def nth_Cons')

definition boot_step :: "hashes \<Rightarrow> (string \<Rightarrow> string \<Rightarrow> bool) \<Rightarrow> wl_env \<Rightarrow> (string \<times> string) list \<Rightarrow> string \<Rightarrow> nat \<Rightarrow> chain_world \<Rightarrow> suite_view \<Rightarrow> seed_wallet \<Rightarrow> nat \<Rightarrow> bool" where
  "boot_step H below e vars funder n w v s j \<longleftrightarrow> (\<exists>w' v'. chain_tx H below [] (sw_addr s) (bootstrap_ops vars s ! j) w = Some w' \<and>
     suite_at e w' v' \<and> elsewhere e w w' \<and> boot_ok below e funder (Suc n) v' \<and> gained e v' s j \<and> (\<forall>s' j'. gained e v s' j' \<longrightarrow> gained e v' s' j'))"

lemma boot_stepI:
  "\<exists>w'. chain_tx H below [] (sw_addr s) (bootstrap_ops vars s ! j) w = Some w' \<and> suite_at e w' v' \<and> elsewhere e w w' \<Longrightarrow>
   boot_ok below e funder (Suc n) v' \<Longrightarrow> gained e v' s j \<Longrightarrow> (\<And>s' j'. gained e v s' j' \<Longrightarrow> gained e v' s' j') \<Longrightarrow>
   boot_step H below e vars funder n w v s j"
  unfolding boot_step_def by blast

lemma boot_step_mint:
  assumes d: "suite_distinct e" "suite_at e w v" and b: "boot_ok below e funder n v" and n: "n < longest" and e: "wl_addr e = suite_addr vars"
  shows "boot_step H below e vars funder n w v s 0" "boot_step H below e vars funder n w v s 1"
proof -
  let ?D = "wl_addr e ''dex''"
  have t: "boot_token ?D n (sv_t0 v)" "boot_token ?D n (sv_t1 v)" using b by (simp_all add: boot_ok_def)
  note m = boot_ok_mono [OF b]
  obtain t0 where t0: "st20_call (sw_addr s) ''mint'' [Addr (sw_addr s), Num (10 ^ 24)] (sv_t0 v) = Some t0" "boot_token ?D (Suc n) t0" "10 ^ 24 \<le> t_bal t0 (sw_addr s)"
      "\<forall>b. t_bal (sv_t0 v) b \<le> t_bal t0 b" "t_allow t0 = t_allow (sv_t0 v)"
    using boot_mint [OF t(1) n] by blast
  show "boot_step H below e vars funder n w v s 0"
  proof (rule boot_stepI [where v' = "v\<lparr>sv_t0 := t0\<rparr>"])
    show "\<exists>w'. chain_tx H below [] (sw_addr s) (bootstrap_ops vars s ! 0) w = Some w' \<and> suite_at e w' (v\<lparr>sv_t0 := t0\<rparr>) \<and> elsewhere e w w'"
      unfolding bootstrap_op(1) [OF e] by (rule token_tx(1) [OF d t0(1)])
    show "boot_ok below e funder (Suc n) (v\<lparr>sv_t0 := t0\<rparr>)" using m t0(2) by (simp add: boot_ok_def)
    show "gained e (v\<lparr>sv_t0 := t0\<rparr>) s 0" using t0(3) by (simp add: gained_def)
    show "gained e v s' j' \<Longrightarrow> gained e (v\<lparr>sv_t0 := t0\<rparr>) s' j'" for s' j'
      using t0(4) [rule_format, of "sw_addr s'"] t0(5) by (simp add: gained_def Let_def split: if_splits)
  qed
  obtain t1 where t1: "st20_call (sw_addr s) ''mint'' [Addr (sw_addr s), Num (10 ^ 24)] (sv_t1 v) = Some t1" "boot_token ?D (Suc n) t1" "10 ^ 24 \<le> t_bal t1 (sw_addr s)"
      "\<forall>b. t_bal (sv_t1 v) b \<le> t_bal t1 b" "t_allow t1 = t_allow (sv_t1 v)"
    using boot_mint [OF t(2) n] by blast
  show "boot_step H below e vars funder n w v s 1"
  proof (rule boot_stepI [where v' = "v\<lparr>sv_t1 := t1\<rparr>"])
    show "\<exists>w'. chain_tx H below [] (sw_addr s) (bootstrap_ops vars s ! 1) w = Some w' \<and> suite_at e w' (v\<lparr>sv_t1 := t1\<rparr>) \<and> elsewhere e w w'"
      unfolding bootstrap_op(2) [OF e] by (rule token_tx(2) [OF d t1(1)])
    show "boot_ok below e funder (Suc n) (v\<lparr>sv_t1 := t1\<rparr>)" using m t1(2) by (simp add: boot_ok_def)
    show "gained e (v\<lparr>sv_t1 := t1\<rparr>) s 1" using t1(3) by (simp add: gained_def)
    show "gained e v s' j' \<Longrightarrow> gained e (v\<lparr>sv_t1 := t1\<rparr>) s' j'" for s' j'
      using t1(4) [rule_format, of "sw_addr s'"] t1(5) by (simp add: gained_def Let_def split: if_splits)
  qed
qed

lemma boot_step_approve:
  assumes d: "suite_distinct e" "suite_at e w v" and b: "boot_ok below e funder n v" and e: "wl_addr e = suite_addr vars"
  shows "boot_step H below e vars funder n w v s 2" "boot_step H below e vars funder n w v s 3"
proof -
  let ?D = "wl_addr e ''dex''"
  let ?a0 = "st20_approve (sw_addr s) ?D (2 ^ 255) (sv_t0 v)" and ?a1 = "st20_approve (sw_addr s) ?D (2 ^ 255) (sv_t1 v)"
  note m = boot_ok_mono [OF b]
  show "boot_step H below e vars funder n w v s 2"
  proof (rule boot_stepI [where v' = "v\<lparr>sv_t0 := ?a0\<rparr>"])
    show "\<exists>w'. chain_tx H below [] (sw_addr s) (bootstrap_ops vars s ! 2) w = Some w' \<and> suite_at e w' (v\<lparr>sv_t0 := ?a0\<rparr>) \<and> elsewhere e w w'"
      unfolding bootstrap_op(3) [OF e] by (rule token_tx(1) [OF d seed_steps(2)])
    show "boot_ok below e funder (Suc n) (v\<lparr>sv_t0 := ?a0\<rparr>)" using m by (simp add: boot_ok_def boot_token_def st20_approve_def)
    show "gained e (v\<lparr>sv_t0 := ?a0\<rparr>) s 2" by (simp add: gained_def st20_approve_def)
    show "gained e v s' j' \<Longrightarrow> gained e (v\<lparr>sv_t0 := ?a0\<rparr>) s' j'" for s' j'
      by (cases "sw_addr s' = sw_addr s") (simp_all add: gained_def Let_def st20_approve_def split: if_splits)
  qed
  show "boot_step H below e vars funder n w v s 3"
  proof (rule boot_stepI [where v' = "v\<lparr>sv_t1 := ?a1\<rparr>"])
    show "\<exists>w'. chain_tx H below [] (sw_addr s) (bootstrap_ops vars s ! 3) w = Some w' \<and> suite_at e w' (v\<lparr>sv_t1 := ?a1\<rparr>) \<and> elsewhere e w w'"
      unfolding bootstrap_op(4) [OF e] by (rule token_tx(2) [OF d seed_steps(2)])
    show "boot_ok below e funder (Suc n) (v\<lparr>sv_t1 := ?a1\<rparr>)" using m by (simp add: boot_ok_def boot_token_def st20_approve_def)
    show "gained e (v\<lparr>sv_t1 := ?a1\<rparr>) s 3" by (simp add: gained_def st20_approve_def)
    show "gained e v s' j' \<Longrightarrow> gained e (v\<lparr>sv_t1 := ?a1\<rparr>) s' j'" for s' j'
      by (cases "sw_addr s' = sw_addr s") (simp_all add: gained_def Let_def st20_approve_def split: if_splits)
  qed
qed

lemma boot_step_1155:
  assumes d: "suite_distinct e" "suite_at e w v" and b: "boot_ok below e funder n v" and n: "n < longest" and e: "wl_addr e = suite_addr vars"
  shows "boot_step H below e vars funder n w v s 4"
proof -
  let ?m = "sv_1155 v"
  define m' where "m' = st1155_set (sw_index s) (sw_addr s) (m_bal ?m (sw_index s) (sw_addr s) + 10 ^ 6) ?m"
  have u: "m_bal ?m i a \<le> 10 ^ 6 * n" for i a using b by (simp add: boot_ok_def)
  have "m_bal ?m (sw_index s) (sw_addr s) + 10 ^ 6 < 2 ^ 256" using u [of "sw_index s" "sw_addr s"] n by (simp add: longest_def)
  then have c: "st1155_call (sw_addr s) ''mint'' [Addr (sw_addr s), Num (int (sw_index s)), Num 1000000] ?m = Some m'"
    by (simp add: st1155_call_def st1155_mint_def chk_def m'_def)
  have "cw_code w (wl_addr e ''erc1155'') = Some (Token1155 ?m)" using d(2) by (simp add: suite_at_def)
  then have t: "chain_tx H below [] (sw_addr s) (bootstrap_ops vars s ! 4) w = Some (put_code (wl_addr e ''erc1155'') (Token1155 m') w)"
    unfolding bootstrap_op(5) [OF e] using c by (simp add: chain_tx_call contract_call_def)
  show ?thesis
  proof (rule boot_stepI [where v' = "v\<lparr>sv_1155 := m'\<rparr>"])
    show "\<exists>w'. chain_tx H below [] (sw_addr s) (bootstrap_ops vars s ! 4) w = Some w' \<and> suite_at e w' (v\<lparr>sv_1155 := m'\<rparr>) \<and> elsewhere e w w'"
      using t suite_at_put(4) [OF d] by (simp add: elsewhere_def put_code_def)
    have "m_bal m' i a \<le> 10 ^ 6 * Suc n" for i a using u [of i a] u [of "sw_index s" "sw_addr s"] u [of "sw_index s" a] by (simp add: m'_def st1155_set_def)
    then show "boot_ok below e funder (Suc n) (v\<lparr>sv_1155 := m'\<rparr>)" using boot_ok_mono [OF b] by (simp add: boot_ok_def)
    show "gained e (v\<lparr>sv_1155 := m'\<rparr>) s 4" by (simp add: gained_def m'_def st1155_set_def)
    show "gained e v s' j' \<Longrightarrow> gained e (v\<lparr>sv_1155 := m'\<rparr>) s' j'" for s' j'
      by (auto simp add: gained_def Let_def m'_def st1155_set_def split: if_splits)
  qed
qed

lemma boot_steps:
  assumes "suite_distinct e" "wl_addr e = suite_addr vars"
  shows "suite_at e w v \<Longrightarrow> boot_ok below e funder n v \<Longrightarrow> n + length xs \<le> longest \<Longrightarrow> \<forall>(s, j) \<in> set xs. j < 5 \<Longrightarrow>
    \<exists>w' v'. chain_txs H below (map (\<lambda>(s, j). (sw_addr s, bootstrap_ops vars s ! j)) xs) w = Some w' \<and> suite_at e w' v' \<and> elsewhere e w w' \<and>
      boot_ok below e funder (n + length xs) v' \<and> (\<forall>(s, j) \<in> set xs. gained e v' s j) \<and> (\<forall>s j. gained e v s j \<longrightarrow> gained e v' s j)"
proof (induction xs arbitrary: w v n)
  case Nil
  then show ?case by (auto simp: elsewhere_def)
next
  case (Cons x xs)
  obtain s j where x: "x = (s, j)" by fastforce
  have "j = 0 \<or> j = 1 \<or> j = 2 \<or> j = 3 \<or> j = 4" and k: "n < longest" using Cons.prems(3,4) x by auto
  then have "boot_step H below e vars funder n w v s j"
    using boot_step_mint [OF assms(1) Cons.prems(1,2) k assms(2), of H s] boot_step_approve [OF assms(1) Cons.prems(1,2) assms(2), of H s]
      boot_step_1155 [OF assms(1) Cons.prems(1,2) k assms(2), of H s] by (elim disjE) simp_all
  then obtain w1 v1 where 1: "chain_tx H below [] (sw_addr s) (bootstrap_ops vars s ! j) w = Some w1" "suite_at e w1 v1" "elsewhere e w w1"
      "boot_ok below e funder (Suc n) v1" "gained e v1 s j" "\<forall>s' j'. gained e v s' j' \<longrightarrow> gained e v1 s' j'"
    by (auto simp: boot_step_def)
  have "Suc n + length xs \<le> longest" "\<forall>(s, j) \<in> set xs. j < 5" using Cons.prems(3,4) by auto
  from Cons.IH [OF 1(2,4) this] obtain w2 v2 where 2: "chain_txs H below (map (\<lambda>(s, j). (sw_addr s, bootstrap_ops vars s ! j)) xs) w1 = Some w2"
      "suite_at e w2 v2" "elsewhere e w1 w2" "boot_ok below e funder (Suc n + length xs) v2" "\<forall>(s, j) \<in> set xs. gained e v2 s j"
      "\<forall>s j. gained e v1 s j \<longrightarrow> gained e v2 s j" by blast
  show ?case
    using 1 2 elsewhere_trans [OF 1(3) 2(3)] by (intro exI [of _ w2] exI [of _ v2]) (simp add: x)
qed

lemma seeded_boot_ok: "funder \<noteq> wl_addr e ''dex'' \<Longrightarrow> boot_ok below e funder 0 (seeded_view below e funder)"
  by (simp add: boot_ok_def boot_token_def seeded_view_def seeded_token_def new_view_def st1155_new_def)

text \<open>The state after the bootstrap of all wallets is one that runs start from.\<close>

lemma booted_traffic_inv:
  assumes v: "suite_at e w v" "boot_ok below e funder n v" "n \<le> longest" and p: "wl_pool e = map sw_addr ws"
    and i: "\<forall>s \<in> set ws. wl_index e (sw_addr s) = int (sw_index s)" and g: "\<forall>s \<in> set ws. \<forall>j < 5. gained e v s j"
    and w: "\<forall>s \<in> set ws. cw_code w (sw_addr s) = None \<and> 10 ^ 18 \<le> cw_native w (sw_addr s)"
  shows "traffic_inv below e 0 w"
proof (rule traffic_invI [OF v(1)])
  have g': "gained e v s 0" "gained e v s 1" "gained e v s 2" "gained e v s 3" "gained e v s 4" if "s \<in> set ws" for s using g that by simp_all
  have t: "tok_inv (wl_addr e ''dex'') (set (wl_pool e)) 0 t"
    if "boot_token (wl_addr e ''dex'') n t" "\<forall>s \<in> set ws. 10 ^ 24 \<le> t_bal t (sw_addr s) \<and> t_allow t (sw_addr s) (wl_addr e ''dex'') = 2 ^ 255" for t
  proof -
    have "10 ^ 30 + 10 ^ 24 * n \<le> most" using v(3) by (simp add: longest_def most_def)
    with that show ?thesis unfolding tok_inv_def boot_token_def p by (auto intro: le_trans)
  qed
  have "tok_inv (wl_addr e ''dex'') (set (wl_pool e)) 0 (sv_t0 v)" "tok_inv (wl_addr e ''dex'') (set (wl_pool e)) 0 (sv_t1 v)"
    using t v(2) g' by (simp_all add: boot_ok_def gained_def Let_def)
  moreover have "pool_inv (pool_of below e) 0 (sv_dex v)" using v(2) by (simp add: boot_ok_def pool_inv_def seeded_pool_def)
  moreover have "reserves below e (sv_dex v) = (10 ^ 24, 10 ^ 24)" using v(2) by (simp add: boot_ok_def reserves_def seeded_pool_def)
  moreover have "m_bal (sv_1155 v) i a \<le> most" for i a
  proof -
    have "m_bal (sv_1155 v) i a \<le> 10 ^ 6 * n" using v(2) by (simp add: boot_ok_def)
    then show ?thesis using v(3) by (simp add: longest_def most_def)
  qed
  moreover have "\<forall>f \<in> set (wl_pool e). 10 ^ 6 \<le> m_bal (sv_1155 v) (nat (wl_index e f)) f" using g'(5) i by (simp add: p gained_def)
  ultimately show "traffic_ok below e 0 v" using v(2)
    by (simp add: traffic_ok_def Let_def boot_ok_def boot_token_def st721_new_def cells_new_def)
  show "wallets_ok e 0 w" using w by (simp add: wallets_ok_def p)
qed

section \<open>From the deployment to a run\<close>

text \<open>The new contracts get addresses of their own, and a fresh one for Disperse has no coins.\<close>

definition fresh_chain :: "string list \<Rightarrow> seed_wallet list \<Rightarrow> string \<Rightarrow> chain_world \<Rightarrow> bool" where
  "fresh_chain as ws funder w \<longleftrightarrow> length as = 8 \<and> distinct as \<and> funder \<notin> set as \<union> sw_addr ` set ws \<and>
     (\<forall>s \<in> set ws. sw_addr s \<notin> set as \<and> cw_code w (sw_addr s) = None) \<and> cw_native w (as ! 6) = 0"

definition run_env :: "wl_env \<Rightarrow> string list \<Rightarrow> seed_wallet list \<Rightarrow> bool" where
  "run_env e as ws \<longleftrightarrow> wl_addr e = suite_addr (suite_vars as) \<and> wl_pool e = map sw_addr ws \<and> (\<forall>s \<in> set ws. wl_index e (sw_addr s) = int (sw_index s))"

lemma eight: "length as = 8 \<Longrightarrow> \<exists>a0 a1 a2 a3 a4 a5 a6 a7. as = [a0, a1, a2, a3, a4, a5, a6, a7]"
  by (auto simp: numeral_eq_Suc length_Suc_conv)

lemma deploy_ok:
  assumes f: "fresh_chain as ws funder w" and k: "env ''FUNDER_PK'' \<notin> {None, Some []}" and e: "wl_addr e = suite_addr (suite_vars as)"
  shows "\<exists>w1. stress_deploy H below env funder (map Some as) w = Inr (suite_vars as, w1) \<and> suite_distinct e \<and>
    suite_at e w1 (seeded_view below e funder) \<and> cw_native w1 = cw_native w \<and> funder \<noteq> wl_addr e ''dex'' \<and>
    cw_code w1 (suite_addr (suite_vars as) ''disperse'') = Some Disperser \<and> suite_addr (suite_vars as) ''disperse'' = as ! 6 \<and>
    (\<forall>a. a \<notin> set as \<longrightarrow> cw_code w1 a = cw_code w a) \<and> wl_addr e ` {''t0'', ''t1'', ''erc721'', ''erc1155'', ''storage'', ''gasbomb'', ''dex''} \<subseteq> set as"
proof -
  obtain a0 a1 a2 a3 a4 a5 a6 a7 where as: "as = [a0, a1, a2, a3, a4, a5, a6, a7]" using eight [of as] f unfolding fresh_chain_def by blast
  define w0 where "w0 = put_code a7 (Dex sdex_new) (put_code a6 Disperser (put_code a5 (Bomb 0)
       (put_code a4 (Cells cells_new) (put_code a3 (Token1155 st1155_new) (put_code a2 (Token721 st721_new)
       (put_code a1 (Token20 st20_new) (put_code a0 (Token20 st20_new) w)))))))"
  have adr: "wl_addr e ''t0'' = a0" "wl_addr e ''t1'' = a1" "wl_addr e ''erc721'' = a2" "wl_addr e ''erc1155'' = a3"
      "wl_addr e ''storage'' = a4" "wl_addr e ''gasbomb'' = a5" "suite_addr (suite_vars as) ''disperse'' = a6" "wl_addr e ''dex'' = a7"
    using suite_addresses [of a0 a1 a2 a3 a4 a5 a6 a7] by (simp_all add: e as)
  have ds: "distinct [a0, a1, a2, a3, a4, a5, a6, a7]" "a6 \<notin> {a0, a1, a2, a3, a4, a5, a7}" using f as by (auto simp: fresh_chain_def)
  have dist: "suite_distinct e" using ds(1) by (simp add: suite_distinct_def adr)
  have at: "suite_at e w0 new_view" unfolding suite_at_def adr w0_def put_code_def new_view_def using ds(1) by auto
  have fd: "funder \<noteq> wl_addr e ''dex''" using f as by (auto simp: fresh_chain_def adr)
  obtain w1 where w1: "chain_txs H below (seed_requests funder (suite_vars as)) w0 = Some w1" "suite_at e w1 (seeded_view below e funder)" "elsewhere e w0 w1"
    using seeded [OF dist at e fd] by blast
  have names: "wl_addr e ` {''t0'', ''t1'', ''erc721'', ''erc1155'', ''storage'', ''gasbomb'', ''dex''} = {a0, a1, a2, a3, a4, a5, a7}" by (simp add: adr)
  have "stress_deploy H below env funder (map Some as) w = Inr (suite_vars as, w1)"
    using k w1(1) deployed [of a0 a1 a2 a3 a4 a5 a6 a7 w] by (simp add: stress_deploy_def as w0_def)
  moreover have "cw_code w1 a6 = Some Disperser" using w1(3) [unfolded elsewhere_def names] ds by (simp add: w0_def put_code_def)
  moreover have "cw_native w1 = cw_native w" using w1(3) by (simp add: elsewhere_def w0_def put_code_def)
  moreover have "cw_code w1 a = cw_code w a" if "a \<notin> set as" for a
  proof -
    have "a \<notin> {a0, a1, a2, a3, a4, a5, a6, a7}" using that as by simp
    then show ?thesis using w1(3) [unfolded elsewhere_def names] by (simp add: w0_def put_code_def)
  qed
  moreover have "wl_addr e ` {''t0'', ''t1'', ''erc721'', ''erc1155'', ''storage'', ''gasbomb'', ''dex''} \<subseteq> set as" unfolding names as by auto
  moreover have "as ! 6 = a6" by (simp add: as)
  ultimately show ?thesis using dist w1(2) fd adr(7) by (intro exI [of _ w1]) metis
qed

lemma funding_pays:
  assumes "fresh_chain as ws funder w" "env ''FUNDER_PK'' \<notin> {None, Some []}" "n * length ws \<le> cw_native w funder"
  shows "\<exists>w1 w2. stress_deploy H below env funder (map Some as) w = Inr (suite_vars as, w1) \<and>
    chain_txs H below (fund_wallets funder (suite_vars as) (int n) ws) w1 = Some w2 \<and>
    (\<forall>s \<in> set ws. cw_native w2 (sw_addr s) = cw_native w (sw_addr s) + n * count_list (map sw_addr ws) (sw_addr s)) \<and>
    cw_native w2 funder = cw_native w funder - n * length ws \<and> cw_native w2 (as ! 6) = 0 \<and> cw_code w2 = cw_code w1"
proof -
  define e where "e = \<lparr>wl_addr = suite_addr (suite_vars as), wl_pool = [], wl_index = (\<lambda>a. 0), wl_pairs = [], childBytecode = [], createAddr = (\<lambda>a n. []),
    create2Addr = (\<lambda>n. []), salt32 = (\<lambda>n. []), cloneAddr = (\<lambda>a. []), permit_sig = (\<lambda>a b n. []), voucher_sig = (\<lambda>a n. [])\<rparr>"
  obtain w1 where w1: "stress_deploy H below env funder (map Some as) w = Inr (suite_vars as, w1)" "cw_native w1 = cw_native w"
      "cw_code w1 (as ! 6) = Some Disperser" "suite_addr (suite_vars as) ''disperse'' = as ! 6" and o: "\<forall>a. a \<notin> set as \<longrightarrow> cw_code w1 a = cw_code w a"
    using deploy_ok [where env = env and e = e and H = H and below = below, OF assms(1) assms(2)] by (auto simp: e_def)
  have n: "\<forall>s \<in> set ws. cw_code w1 (sw_addr s) = None" using o assms(1) by (simp add: fresh_chain_def)
  have "as ! 6 \<in> set as" using assms(1) by (simp add: fresh_chain_def)
  then have f: "funder \<notin> sw_addr ` set ws" "funder \<noteq> as ! 6" "cw_native w (as ! 6) = 0"
    using assms(1) unfolding fresh_chain_def by blast+
  have "as ! 6 \<notin> sw_addr ` set ws"
  proof
    assume "as ! 6 \<in> sw_addr ` set ws"
    then obtain s where "s \<in> set ws" "sw_addr s \<in> set as" using \<open>as ! 6 \<in> set as\<close> by (metis imageE)
    with assms(1) show False by (simp add: fresh_chain_def)
  qed
  note f = f this
  have "concat (chunks ws 100) = ws" by (rule concat_chunks) simp
  with fund_requests_pay [of w1 "as ! 6" "chunks ws 100" funder n H below] w1 n f assms(3)
  have "chain_txs H below (fund_wallets funder (suite_vars as) (int n) ws) w1 =
      Some (w1\<lparr>cw_native := (\<lambda>a. if a = funder then cw_native w funder - n * length ws else cw_native w a + n * count_list (map sw_addr ws) a)\<rparr>)"
    by (simp add: fund_wallets_def cong: if_cong)
  moreover define w2 where "w2 = w1\<lparr>cw_native := (\<lambda>a. if a = funder then cw_native w funder - n * length ws else cw_native w a + n * count_list (map sw_addr ws) a)\<rparr>"
  have "\<forall>s \<in> set ws. cw_native w2 (sw_addr s) = cw_native w (sw_addr s) + n * count_list (map sw_addr ws) (sw_addr s)" "cw_native w2 (as ! 6) = 0"
      "cw_native w2 funder = cw_native w funder - n * length ws" "cw_code w2 = cw_code w1"
    using f by (auto simp: w2_def count_list_0_iff)
  ultimately show ?thesis using w1(1) unfolding w2_def [symmetric] by blast
qed

text \<open>
  After the deployment, when the funder has enough, every batch of the funding succeeds, each wallet
  receives exactly the amount of the configuration for each time it is listed, and the funder pays exactly the sum.
\<close>

theorem funding_pays_each_wallet:
  assumes "fresh_chain as ws funder w" "env ''FUNDER_PK'' \<notin> {None, Some []}" "n * length ws \<le> cw_native w funder"
  shows "\<exists>w1 w2. stress_deploy H below env funder (map Some as) w = Inr (suite_vars as, w1) \<and>
    chain_txs H below (fund_wallets funder (suite_vars as) (int n) ws) w1 = Some w2 \<and>
    (\<forall>s \<in> set ws. cw_native w2 (sw_addr s) = cw_native w (sw_addr s) + n * count_list (map sw_addr ws) (sw_addr s)) \<and>
    cw_native w2 funder = cw_native w funder - n * length ws \<and> cw_native w2 (as ! 6) = 0 \<and> cw_code w2 = cw_code w1"
  by (rule funding_pays [where env = env, OF assms])

text \<open>The bootstrap, in any order of its transactions.\<close>

definition bootstrap_txs :: "(string \<times> string) list \<Rightarrow> (seed_wallet \<times> nat) list \<Rightarrow> (string \<times> tx_request) list" where
  "bootstrap_txs vars = map (\<lambda>(s, j). (sw_addr s, bootstrap_ops vars s ! j))"

lemma bootstrap_ok:
  assumes f: "fresh_chain as ws funder w" and k: "env ''FUNDER_PK'' \<notin> {None, Some []}" and n: "n * length ws \<le> cw_native w funder" "10 ^ 18 \<le> n"
    and r: "run_env e as ws" and xs: "set xs = set ws \<times> {..<5}" "length xs \<le> longest"
    and w1: "stress_deploy H below env funder (map Some as) w = Inr (suite_vars as, w1)"
    and w2: "chain_txs H below (fund_wallets funder (suite_vars as) (int n) ws) w1 = Some w2"
  shows "\<exists>w3. chain_txs H below (bootstrap_txs (suite_vars as) xs) w2 = Some w3 \<and> suite_distinct e \<and> traffic_inv below e 0 w3 \<and>
    (\<forall>a. a \<notin> set as \<longrightarrow> cw_code w3 a = cw_code w a)"
proof -
  have e: "wl_addr e = suite_addr (suite_vars as)" using r by (simp add: run_env_def)
  have d: "suite_distinct e" "suite_at e w1 (seeded_view below e funder)" "funder \<noteq> wl_addr e ''dex''" and o: "\<forall>a. a \<notin> set as \<longrightarrow> cw_code w1 a = cw_code w a"
      "wl_addr e ` {''t0'', ''t1'', ''erc721'', ''erc1155'', ''storage'', ''gasbomb'', ''dex''} \<subseteq> set as"
    using deploy_ok [where env = env and e = e and H = H and below = below, OF f k e] w1 by auto
  have m: "\<forall>s \<in> set ws. 10 ^ 18 \<le> cw_native w2 (sw_addr s)" "cw_code w2 = cw_code w1"
  proof -
    have p: "(\<forall>s \<in> set ws. cw_native w2 (sw_addr s) = cw_native w (sw_addr s) + n * count_list (map sw_addr ws) (sw_addr s)) \<and> cw_code w2 = cw_code w1"
      using funding_pays [where env = env and H = H and below = below, OF f k n(1)] w1 w2 by auto
    then show "cw_code w2 = cw_code w1" by simp
    show "\<forall>s \<in> set ws. 10 ^ 18 \<le> cw_native w2 (sw_addr s)"
    proof
      fix s assume s: "s \<in> set ws"
      then have "0 < count_list (map sw_addr ws) (sw_addr s)" by (metis count_list_0_iff gr0I image_eqI list.set_map)
      then have "n * 1 \<le> n * count_list (map sw_addr ws) (sw_addr s)" by (intro mult_le_mono) simp_all
      with n(2) have "10 ^ 18 \<le> n * count_list (map sw_addr ws) (sw_addr s)" by linarith
      then show "10 ^ 18 \<le> cw_native w2 (sw_addr s)" using p s by (simp add: trans_le_add2)
    qed
  qed
  have at: "suite_at e w2 (seeded_view below e funder)" using d(2) m(2) by (simp add: suite_at_def)
  obtain w3 v3 where 3: "chain_txs H below (bootstrap_txs (suite_vars as) xs) w2 = Some w3" "suite_at e w3 v3" "elsewhere e w2 w3"
      "boot_ok below e funder (length xs) v3" "\<forall>(s, j) \<in> set xs. gained e v3 s j"
    using boot_steps [OF d(1) e at seeded_boot_ok [OF d(3)], where xs = xs and H = H] xs by (auto simp: bootstrap_txs_def)
  have "cw_code w3 (sw_addr s) = None \<and> 10 ^ 18 \<le> cw_native w3 (sw_addr s)" if s: "s \<in> set ws" for s
  proof -
    have a: "sw_addr s \<notin> set as" "cw_code w (sw_addr s) = None" using f s by (auto simp: fresh_chain_def)
    then have "cw_code w2 (sw_addr s) = None" using o(1) m(2) by simp
    moreover have "sw_addr s \<notin> wl_addr e ` {''t0'', ''t1'', ''erc721'', ''erc1155'', ''storage'', ''gasbomb'', ''dex''}" by (rule contra_subsetD [OF o(2) a(1)])
    ultimately show ?thesis using 3(3) m(1) s by (simp add: elsewhere_def)
  qed
  then have "traffic_inv below e 0 w3"
    using r 3(5) xs by (intro booted_traffic_inv [OF 3(2,4)]) (auto simp: run_env_def)
  moreover have "cw_code w3 a = cw_code w a" if "a \<notin> set as" for a
  proof -
    have "a \<notin> wl_addr e ` {''t0'', ''t1'', ''erc721'', ''erc1155'', ''storage'', ''gasbomb'', ''dex''}" by (rule contra_subsetD [OF o(2) that])
    then show ?thesis using 3(3) o(1) m(2) that by (simp add: elsewhere_def)
  qed
  ultimately show ?thesis using 3(1) d(1) by blast
qed

text \<open>
  C27. After the deployment, the funding and the bootstrap of every wallet have gone through, whatever order their
  transactions are mined in, a run of the sets core or all makes at most 10^6 transactions of which the checks of the
  contracts refuse none but \<open>revertOp\<close>, which is meant to be, and removals of liquidity by a wallet that has removed 199
  times for each time it has added. Any of the transactions may run out of gas besides, and some must
  (\<open>storage_set_runs_out\<close>); the others are not refused for it.
\<close>

theorem prepared_runs_refused_as_meant:
  assumes "fresh_chain as ws funder w" "env ''FUNDER_PK'' \<notin> {None, Some []}" "n * length ws \<le> cw_native w funder" "10 ^ 18 \<le> n"
    and "run_env e as ws" "set xs = set ws \<times> {..<5}" "length xs \<le> longest"
    and "stress_deploy H below env funder (map Some as) w = Inr (suite_vars as, w1)"
    and "chain_txs H below (fund_wallets funder (suite_vars as) (int n) ws) w1 = Some w2"
    and "chain_txs H below (bootstrap_txs (suite_vars as) xs) w2 = Some w3"
    and "name \<noteq> ''soak''" "stress_traffic H below e name w3 w4 hist" "length hist \<le> longest" "hist = pre @ (f, op, Refused) # post"
  shows "op = SRevertOp \<or> op = SDexRemoveLiq \<and> 199 * done_by SDexAddLiq f pre \<le> done_by SDexRemoveLiq f pre"
proof -
  have "suite_distinct e \<and> traffic_inv below e 0 w3"
    using bootstrap_ok [where env = env and H = H and below = below, OF assms(1-9)] assms(10) by auto
  then have "log_ok hist" using traffic_keeps [OF assms(12)] assms(11,13) by blast
  then show ?thesis using assms(14) by (auto simp: log_ok_def may_revert_def)
qed

section \<open>The soak set\<close>

text \<open>
  Two contracts that the set soak uses are not in the suite, so their addresses are \<open>undefined\<close>, which sends a
  transaction that creates a contract; its code is the call.
\<close>

lemma soak_targets_missing:
  assumes "length as = 8" "wl_addr e = suite_addr (suite_vars as)" "op \<in> {SNftMint, SNftTransfer, SWrapGMB, SUnwrapGMB}"
    and "stress_build e rnd op f c = (Some r, c')"
  shows "rq_to r = Some ''undefined''"
proof -
  obtain a0 a1 a2 a3 a4 a5 a6 a7 where as: "as = [a0, a1, a2, a3, a4, a5, a6, a7]" using eight [OF assms(1)] by blast
  have "wl_addr e ''nft2'' = ''undefined''" "wl_addr e ''wgmb'' = ''undefined''"
    by (simp_all add: assms(2) as suite_addr_def suite_vars_def STRESS_SUITE_def)
  with assms(3,4) show ?thesis by (auto simp: tx_def split: if_splits)
qed

lemma soak_share: "sum_list (map snd (filter (\<lambda>(op, n). op \<in> {SNftMint, SNftTransfer, SWrapGMB, SUnwrapGMB}) (stress_set ''soak''))) = 30"
  "sum_list (map snd (stress_set ''soak'')) = 100"
  by (simp_all add: stress_set_def)

section \<open>A small run\<close>

definition small_as :: "string list" where "small_as = [''a'', ''b'', ''c'', ''d'', ''e'', ''f'', ''g'', ''h'']"
definition small_ws :: "seed_wallet list" where "small_ws = [\<lparr>sw_index = 0, sw_addr = ''x''\<rparr>, \<lparr>sw_index = 1, sw_addr = ''y''\<rparr>]"
definition small_world :: chain_world where "small_world = \<lparr>cw_code = (\<lambda>a. None), cw_native = (\<lambda>a. 0)(''z'' := 10 ^ 19)\<rparr>"
definition small_hashes :: hashes where "small_hashes = \<lparr>h_cell = (\<lambda>x i. x + i), h_bomb = (\<lambda>x i. x)\<rparr>"
definition small_env :: wl_env where
  "small_env = \<lparr>wl_addr = suite_addr (suite_vars small_as), wl_pool = map sw_addr small_ws, wl_index = (\<lambda>a. if a = ''y'' then 1 else 0), wl_pairs = [],
     childBytecode = [], createAddr = (\<lambda>a n. []), create2Addr = (\<lambda>n. []), salt32 = (\<lambda>n. []), cloneAddr = (\<lambda>a. []),
     permit_sig = (\<lambda>a b n. []), voucher_sig = (\<lambda>a n. [])\<rparr>"

lemma small_fresh: "fresh_chain small_as small_ws ''z'' small_world"
  by (simp add: fresh_chain_def small_as_def small_ws_def small_world_def)

lemma small_run_env: "run_env small_env small_as small_ws"
  by (simp add: run_env_def small_env_def small_ws_def)

theorem funding_pays_each_wallet_witness:
  "\<exists>w1 w2. stress_deploy small_hashes (\<lambda>a b. True) [''FUNDER_PK'' \<mapsto> ''k''] ''z'' (map Some small_as) small_world = Inr (suite_vars small_as, w1) \<and>
    chain_txs small_hashes (\<lambda>a b. True) (fund_wallets ''z'' (suite_vars small_as) (2 * 10 ^ 18) small_ws) w1 = Some w2 \<and> cw_native w2 ''x'' = 2 * 10 ^ 18"
proof -
  have c: "2 * 10 ^ 18 * length small_ws \<le> cw_native small_world ''z''" "([''FUNDER_PK'' \<mapsto> ''k''] :: env) ''FUNDER_PK'' \<notin> {None, Some []}"
    "\<lparr>sw_index = 0, sw_addr = ''x''\<rparr> \<in> set small_ws" "count_list (map sw_addr small_ws) ''x'' = 1" "cw_native small_world ''x'' = 0"
    by (simp_all add: small_ws_def small_world_def)
  from funding_pays_each_wallet [where H = small_hashes and below = "\<lambda>a b. True" and env = "[''FUNDER_PK'' \<mapsto> ''k'']", OF small_fresh c(2,1)]
  obtain w1 w2 where "stress_deploy small_hashes (\<lambda>a b. True) [''FUNDER_PK'' \<mapsto> ''k''] ''z'' (map Some small_as) small_world = Inr (suite_vars small_as, w1)"
      "chain_txs small_hashes (\<lambda>a b. True) (fund_wallets ''z'' (suite_vars small_as) (int (2 * 10 ^ 18)) small_ws) w1 = Some w2"
      "\<forall>s \<in> set small_ws. cw_native w2 (sw_addr s) = cw_native small_world (sw_addr s) + 2 * 10 ^ 18 * count_list (map sw_addr small_ws) (sw_addr s)"
    by blast
  moreover from this(3) [rule_format, OF c(3)] have "cw_native w2 ''x'' = 2 * 10 ^ 18" using c(4,5) by simp
  ultimately show ?thesis by auto
qed

theorem prepared_runs_refused_as_meant_witness:
  "\<exists>w1 w2 w3. stress_deploy small_hashes (\<lambda>a b. True) [''FUNDER_PK'' \<mapsto> ''k''] ''z'' (map Some small_as) small_world = Inr (suite_vars small_as, w1) \<and>
    chain_txs small_hashes (\<lambda>a b. True) (fund_wallets ''z'' (suite_vars small_as) (int (2 * 10 ^ 18)) small_ws) w1 = Some w2 \<and>
    chain_txs small_hashes (\<lambda>a b. True) (bootstrap_txs (suite_vars small_as) (List.product small_ws [0..<5])) w2 = Some w3 \<and>
    stress_traffic small_hashes (\<lambda>a b. True) small_env ''all'' w3 w3 [(''x'', SRevertOp, Refused)] \<and>
    (SRevertOp = SRevertOp \<or> SRevertOp = SDexRemoveLiq \<and> 199 * done_by SDexAddLiq ''x'' [] \<le> done_by SDexRemoveLiq ''x'' [])"
proof -
  let ?env = "[''FUNDER_PK'' \<mapsto> ''k''] :: env" and ?n = "2 * 10 ^ 18 :: nat"
  have c: "?env ''FUNDER_PK'' \<notin> {None, Some []}" "?n * length small_ws \<le> cw_native small_world ''z''" "(10 :: nat) ^ 18 \<le> ?n"
    "set (List.product small_ws [0..<5]) = set small_ws \<times> {..<5}" "length (List.product small_ws [0..<5]) \<le> longest"
    by (auto simp: small_ws_def small_world_def longest_def)
  obtain w1 w2 where w: "stress_deploy small_hashes (\<lambda>a b. True) ?env ''z'' (map Some small_as) small_world = Inr (suite_vars small_as, w1)"
      "chain_txs small_hashes (\<lambda>a b. True) (fund_wallets ''z'' (suite_vars small_as) (int ?n) small_ws) w1 = Some w2"
    using funding_pays [where H = small_hashes and below = "\<lambda>a b. True" and env = ?env and n = ?n, OF small_fresh c(1,2)] by blast
  obtain w3 where w3: "chain_txs small_hashes (\<lambda>a b. True) (bootstrap_txs (suite_vars small_as) (List.product small_ws [0..<5])) w2 = Some w3"
      "suite_distinct small_env" "traffic_inv (\<lambda>a b. True) small_env 0 w3"
      "\<forall>a. a \<notin> set small_as \<longrightarrow> cw_code w3 a = cw_code small_world a"
    using bootstrap_ok [where env = ?env and n = ?n, OF small_fresh c(1-3) small_run_env c(4,5) w] by blast
  from w3(3) obtain v where v: "suite_at small_env w3 v" "wallets_ok small_env 0 w3" by (auto simp: traffic_inv_def)
  have x: "''x'' \<in> set (wl_pool small_env)" "SRevertOp \<in> fst ` set (stress_set ''all'')" by (simp_all add: small_env_def small_ws_def stress_set_def)
  let ?r = "tx (wl_addr small_env ''storage'') (Call ''storage'' ''boom'' []) 0 60000" and ?c = "stress_ctx_start (\<lambda>a. None)"
  have b: "stress_build small_env (\<lambda>i. 0) SRevertOp ''x'' ?c = (Some ?r, ?c)" by simp
  have "stress_traffic small_hashes (\<lambda>a b. True) small_env ''all'' w3 w3 ([] @ [(''x'', SRevertOp, Refused)])"
  proof (rule st_reverted [OF st_start x b])
    show "cw_code w3 ''new'' = None" using w3(4) by (simp add: small_as_def small_world_def)
    show "''new'' \<notin> set (wl_pool small_env)" by (simp add: small_env_def small_ws_def)
    show "chain_tx small_hashes (\<lambda>a b. True) ''new'' ''x'' ?r w3 = None" by (rule boom_reverts [OF v(1) b])
  qed
  then have t: "stress_traffic small_hashes (\<lambda>a b. True) small_env ''all'' w3 w3 [(''x'', SRevertOp, Refused)]" by simp
  have "SRevertOp = SRevertOp \<or> SRevertOp = SDexRemoveLiq \<and> 199 * done_by SDexAddLiq ''x'' [] \<le> done_by SDexRemoveLiq ''x'' []"
    by (rule prepared_runs_refused_as_meant [where env = ?env and n = ?n and pre = "[]" and post = "[]" and hist = "[(''x'', SRevertOp, Refused)]", OF small_fresh c(1-3) small_run_env c(4,5) w w3(1) _ t])
      (simp_all add: longest_def)
  with w w3(1) t show ?thesis by blast
qed

end
