(* ===== verification/Locker.thy ===== *)
theory Locker
  imports Lock_Form Checked_Nat
begin

text \<open>
  The contract behind the lock form, contracts/src/dex/LiquidityLocker.sol, as a machine whose steps are its calls by anyone at
  growing times, and what the form shows of it.

  Tokens are third-party contracts: what a transfer to the locker brings and whether a transfer out goes through are the
  argument \<open>locker_tokens\<close>; that the locker's balance changes by what is transferred is what the contract relies on. A call is
  one step: \<open>nonReentrant\<close> keeps a token from calling \<open>lock\<close> or \<open>withdraw\<close> in between, and \<open>withdraw\<close> marks the lock before it pays.
\<close>

section \<open>The contract\<close>

record lock_rec =
  lk_owner :: string
  lk_token :: string
  lk_amount :: nat
  lk_unlock :: nat
  lk_withdrawn :: bool

definition NO_ADDRESS :: string where
  "NO_ADDRESS = ''0x'' @ replicate 40 CHR ''0''"

definition empty_lock :: lock_rec where
  "empty_lock = \<lparr>lk_owner = NO_ADDRESS, lk_token = NO_ADDRESS, lk_amount = 0, lk_unlock = 0, lk_withdrawn = False\<rparr>"

text \<open>\<open>lo_bal\<close> is the balance of the contract itself in each token.\<close>

record locker =
  lo_lock :: "nat \<Rightarrow> lock_rec"
  lo_next :: nat
  lo_ids :: "string \<Rightarrow> nat list"
  lo_bal :: "string \<Rightarrow> nat"

record locker_tokens =
  lt_pull :: "string \<Rightarrow> string \<Rightarrow> nat \<Rightarrow> nat option"
  lt_sends :: "string \<Rightarrow> string \<Rightarrow> nat \<Rightarrow> bool"

definition locker_start :: locker where
  "locker_start = \<lparr>lo_lock = (\<lambda>i. empty_lock), lo_next = 0, lo_ids = (\<lambda>u. []), lo_bal = (\<lambda>t. 0)\<rparr>"

definition locker_lock :: "locker_tokens \<Rightarrow> nat \<Rightarrow> string \<Rightarrow> string \<Rightarrow> nat \<Rightarrow> nat \<Rightarrow> locker \<Rightarrow> (nat \<times> locker) option" where
  "locker_lock tok now sender token amount unlock s = do {
     guard (token \<noteq> NO_ADDRESS);
     guard (amount \<noteq> 0);
     guard (now < unlock);
     received \<leftarrow> lt_pull tok token sender amount;
     guard (received \<noteq> 0);
     let i = lo_next s;
     Some (i, s\<lparr>lo_lock := (lo_lock s)(i := \<lparr>lk_owner = sender, lk_token = token, lk_amount = received, lk_unlock = unlock, lk_withdrawn = False\<rparr>),
       lo_next := Suc i, lo_ids := (lo_ids s)(sender := lo_ids s sender @ [i]), lo_bal := (lo_bal s)(token := lo_bal s token + received)\<rparr>)
   }"

definition locker_withdraw :: "locker_tokens \<Rightarrow> nat \<Rightarrow> string \<Rightarrow> nat \<Rightarrow> locker \<Rightarrow> locker option" where
  "locker_withdraw tok now sender i s = do {
     let l = lo_lock s i;
     guard (lk_owner l = sender);
     guard (\<not> lk_withdrawn l);
     guard (lk_unlock l \<le> now);
     rest \<leftarrow> chk_sub (lo_bal s (lk_token l)) (lk_amount l);
     guard (lt_sends tok (lk_token l) (lk_owner l) (lk_amount l));
     Some (s\<lparr>lo_lock := (lo_lock s)(i := l\<lparr>lk_withdrawn := True\<rparr>), lo_bal := (lo_bal s)(lk_token l := rest)\<rparr>)
   }"

definition locker_extend :: "string \<Rightarrow> nat \<Rightarrow> nat \<Rightarrow> locker \<Rightarrow> locker option" where
  "locker_extend sender i unlock s = do {
     let l = lo_lock s i;
     guard (lk_owner l = sender);
     guard (\<not> lk_withdrawn l);
     guard (lk_unlock l < unlock);
     Some (s\<lparr>lo_lock := (lo_lock s)(i := l\<lparr>lk_unlock := unlock\<rparr>)\<rparr>)
   }"

section \<open>Runs\<close>

definition uint64 :: "nat \<Rightarrow> bool" where
  "uint64 n = (n < 2 ^ 64)"

text \<open>
  The last time, the state, and the withdrawals so far: the lock, the account that was paid and the time. Anyone can also
  send tokens to the contract. Nobody calls from the zero address, and a \<open>uint64\<close> is below \<open>2 ^ 64\<close>.
\<close>

inductive locker_run :: "locker_tokens \<Rightarrow> nat \<Rightarrow> locker \<Rightarrow> (nat \<times> string \<times> nat) list \<Rightarrow> bool" for tok where
  lr_start: "locker_run tok 0 locker_start []"
| lr_lock: "locker_run tok t s h \<Longrightarrow> t \<le> now \<Longrightarrow> sender \<noteq> NO_ADDRESS \<Longrightarrow> uint64 unlock \<Longrightarrow>
    locker_lock tok now sender token amount unlock s = Some (i, s') \<Longrightarrow> locker_run tok now s' h"
| lr_withdraw: "locker_run tok t s h \<Longrightarrow> t \<le> now \<Longrightarrow> sender \<noteq> NO_ADDRESS \<Longrightarrow>
    locker_withdraw tok now sender i s = Some s' \<Longrightarrow> locker_run tok now s' (h @ [(i, sender, now)])"
| lr_extend: "locker_run tok t s h \<Longrightarrow> t \<le> now \<Longrightarrow> sender \<noteq> NO_ADDRESS \<Longrightarrow> uint64 unlock \<Longrightarrow>
    locker_extend sender i unlock s = Some s' \<Longrightarrow> locker_run tok now s' h"
| lr_gift: "locker_run tok t s h \<Longrightarrow> t \<le> now \<Longrightarrow> locker_run tok now (s\<lparr>lo_bal := (lo_bal s)(token := lo_bal s token + v)\<rparr>) h"

text \<open>What is owed in a token.\<close>

definition owed :: "locker \<Rightarrow> string \<Rightarrow> nat" where
  "owed s t = (\<Sum>i < lo_next s. if lk_token (lo_lock s i) = t \<and> \<not> lk_withdrawn (lo_lock s i) then lk_amount (lo_lock s i) else 0)"

definition solvent :: "locker \<Rightarrow> bool" where
  "solvent s = (\<forall>t. owed s t \<le> lo_bal s t)"

definition ids_right :: "locker \<Rightarrow> bool" where
  "ids_right s = (\<forall>u. u \<noteq> NO_ADDRESS \<longrightarrow> lo_ids s u = filter (\<lambda>i. lk_owner (lo_lock s i) = u) [0..<lo_next s])"

definition locks_right :: "locker \<Rightarrow> bool" where
  "locks_right s = (\<forall>i. if i < lo_next s then lk_owner (lo_lock s i) \<noteq> NO_ADDRESS \<and> 0 < lk_amount (lo_lock s i) \<and> uint64 (lk_unlock (lo_lock s i))
     else lo_lock s i = empty_lock)"

definition paid_right :: "locker \<Rightarrow> (nat \<times> string \<times> nat) list \<Rightarrow> bool" where
  "paid_right s h = (distinct (map fst h) \<and> fst ` set h = {i. lk_withdrawn (lo_lock s i)} \<and>
     (\<forall>(i, u, t) \<in> set h. lk_owner (lo_lock s i) = u \<and> lk_unlock (lo_lock s i) \<le> t))"

definition locker_inv :: "locker \<Rightarrow> (nat \<times> string \<times> nat) list \<Rightarrow> bool" where
  "locker_inv s h = (solvent s \<and> ids_right s \<and> locks_right s \<and> paid_right s h)"

lemma sum_one_changed:
  fixes f :: "nat \<Rightarrow> nat"
  assumes "i < n" "\<And>j. j \<noteq> i \<Longrightarrow> g j = f j"
  shows "(\<Sum>j<n. g j) + f i = (\<Sum>j<n. f j) + g i"
proof -
  have "(\<Sum>j<n. g j) = g i + (\<Sum>j\<in>{..<n} - {i}. g j)" "(\<Sum>j<n. f j) = f i + (\<Sum>j\<in>{..<n} - {i}. f j)"
    using assms(1) by (simp_all add: sum.remove)
  moreover have "(\<Sum>j\<in>{..<n} - {i}. g j) = (\<Sum>j\<in>{..<n} - {i}. f j)" using assms(2) by (intro sum.cong) auto
  ultimately show ?thesis by simp
qed

lemma inv_lock:
  assumes inv: "locker_inv s h" and u: "sender \<noteq> NO_ADDRESS" "uint64 unlock"
    and l: "locker_lock tok now sender token amount unlock s = Some (i, s')"
  shows "locker_inv s' h"
proof -
  obtain r where r: "0 < r" "i = lo_next s" and s': "lo_next s' = Suc i" "lo_ids s' = (lo_ids s)(sender := lo_ids s sender @ [i])"
    "lo_bal s' = (lo_bal s)(token := lo_bal s token + r)"
    and new: "lo_lock s' = (lo_lock s)(i := \<lparr>lk_owner = sender, lk_token = token, lk_amount = r, lk_unlock = unlock, lk_withdrawn = False\<rparr>)"
    using l by (auto simp: locker_lock_def Let_def guard_def split: bind_splits if_splits)
  have fresh: "lo_lock s i = empty_lock" using inv by (auto simp: locker_inv_def locks_right_def r dest: spec [of _ "lo_next s"])
  have "(\<Sum>j<lo_next s. if lk_token (lo_lock s' j) = t \<and> \<not> lk_withdrawn (lo_lock s' j) then lk_amount (lo_lock s' j) else 0) = owed s t" for t
    unfolding owed_def by (rule sum.cong) (auto simp: new r)
  then have "owed s' t = owed s t + (if token = t then r else 0)" for t
    unfolding owed_def [of s'] s' by (simp add: new r)
  then have "solvent s'" using inv by (simp add: locker_inv_def solvent_def s')
  moreover have "filter (\<lambda>j. lk_owner (lo_lock s' j) = v) [0..<lo_next s] = filter (\<lambda>j. lk_owner (lo_lock s j) = v) [0..<lo_next s]" for v
    by (rule filter_cong) (auto simp: new r)
  then have "ids_right s'" using inv u by (auto simp: locker_inv_def ids_right_def s' r(2) new)
  moreover have "locks_right s'" using inv u r(1) by (auto simp: locker_inv_def locks_right_def s' r(2) new less_Suc_eq)
  moreover have "paid_right s' h"
  proof -
    have "i \<notin> fst ` set h" using inv fresh by (simp add: locker_inv_def paid_right_def empty_lock_def)
    then have "\<forall>(j, v, t) \<in> set h. lo_lock s' j = lo_lock s j" by (force simp: new)
    moreover have "{j. lk_withdrawn (lo_lock s' j)} = {j. lk_withdrawn (lo_lock s j)}" using fresh by (auto simp: new empty_lock_def)
    ultimately show ?thesis using inv by (fastforce simp: locker_inv_def paid_right_def)
  qed
  ultimately show ?thesis by (simp add: locker_inv_def)
qed

lemma withdraw_result:
  assumes "locker_withdraw tok now sender i s = Some s'"
  shows "lk_owner (lo_lock s i) = sender" "\<not> lk_withdrawn (lo_lock s i)" "lk_unlock (lo_lock s i) \<le> now"
    "lk_amount (lo_lock s i) \<le> lo_bal s (lk_token (lo_lock s i))"
    "s' = s\<lparr>lo_lock := (lo_lock s)(i := (lo_lock s i)\<lparr>lk_withdrawn := True\<rparr>),
       lo_bal := (lo_bal s)(lk_token (lo_lock s i) := lo_bal s (lk_token (lo_lock s i)) - lk_amount (lo_lock s i))\<rparr>"
  using assms by (auto simp: locker_withdraw_def Let_def guard_def chk_sub_def split: bind_splits if_splits)

lemma own_lock_exists: "locks_right s \<Longrightarrow> u \<noteq> NO_ADDRESS \<Longrightarrow> lk_owner (lo_lock s i) = u \<Longrightarrow> i < lo_next s"
  unfolding locks_right_def by (metis empty_lock_def lock_rec.select_convs(1))

lemma inv_withdraw:
  assumes inv: "locker_inv s h" and u: "sender \<noteq> NO_ADDRESS" and w: "locker_withdraw tok now sender i s = Some s'"
  shows "locker_inv s' (h @ [(i, sender, now)])"
proof -
  note r = withdraw_result [OF w]
  let ?l = "lo_lock s i"
  have i: "i < lo_next s" using own_lock_exists [OF _ u r(1)] inv by (simp add: locker_inv_def)
  have new: "lo_lock s' = (lo_lock s)(i := ?l\<lparr>lk_withdrawn := True\<rparr>)" "lo_next s' = lo_next s" "lo_ids s' = lo_ids s"
    "lo_bal s' = (lo_bal s)(lk_token ?l := lo_bal s (lk_token ?l) - lk_amount ?l)" by (simp_all add: r(5))
  have "owed s' t + (if lk_token ?l = t then lk_amount ?l else 0) = owed s t" for t
    using sum_one_changed [OF i, of "\<lambda>j. if lk_token (lo_lock s' j) = t \<and> \<not> lk_withdrawn (lo_lock s' j) then lk_amount (lo_lock s' j) else 0"
        "\<lambda>j. if lk_token (lo_lock s j) = t \<and> \<not> lk_withdrawn (lo_lock s j) then lk_amount (lo_lock s j) else 0"] r(2)
    by (simp add: owed_def new)
  note owing = this
  have "owed s' t \<le> lo_bal s' t" for t
  proof -
    have "owed s t \<le> lo_bal s t" using inv by (simp add: locker_inv_def solvent_def)
    with owing [of t] show ?thesis by (cases "lk_token ?l = t") (simp_all add: new)
  qed
  then have "solvent s'" by (simp add: solvent_def)
  moreover have "(\<lambda>j. lk_owner (lo_lock s' j) = v) = (\<lambda>j. lk_owner (lo_lock s j) = v)" for v by (auto simp: new)
  then have "ids_right s'" using inv by (simp add: locker_inv_def ids_right_def new(2,3))
  moreover have "locks_right s'" using inv i by (auto simp: locker_inv_def locks_right_def new)
  moreover have "paid_right s' (h @ [(i, sender, now)])"
  proof -
    have "i \<notin> fst ` set h" using inv r(2) by (simp add: locker_inv_def paid_right_def)
    moreover have "{j. lk_withdrawn (lo_lock s' j)} = insert i {j. lk_withdrawn (lo_lock s j)}" by (auto simp: new)
    moreover have "\<forall>j. lk_owner (lo_lock s' j) = lk_owner (lo_lock s j) \<and> lk_unlock (lo_lock s' j) = lk_unlock (lo_lock s j)" by (simp add: new)
    ultimately show ?thesis using inv r(1,3) by (auto simp: locker_inv_def paid_right_def)
  qed
  ultimately show ?thesis by (simp add: locker_inv_def)
qed

lemma extend_result:
  assumes "locker_extend sender i unlock s = Some s'"
  shows "lk_owner (lo_lock s i) = sender" "\<not> lk_withdrawn (lo_lock s i)" "lk_unlock (lo_lock s i) < unlock"
    "s' = s\<lparr>lo_lock := (lo_lock s)(i := (lo_lock s i)\<lparr>lk_unlock := unlock\<rparr>)\<rparr>"
  using assms by (auto simp: locker_extend_def Let_def guard_def split: bind_splits if_splits)

lemma inv_extend:
  assumes inv: "locker_inv s h" and u: "sender \<noteq> NO_ADDRESS" "uint64 unlock" and w: "locker_extend sender i unlock s = Some s'"
  shows "locker_inv s' h"
proof -
  note r = extend_result [OF w]
  have i: "i < lo_next s" using own_lock_exists [OF _ u(1) r(1)] inv by (simp add: locker_inv_def)
  have new: "lo_lock s' = (lo_lock s)(i := (lo_lock s i)\<lparr>lk_unlock := unlock\<rparr>)" "lo_next s' = lo_next s" "lo_ids s' = lo_ids s" "lo_bal s' = lo_bal s"
    by (simp_all add: r(4))
  have "owed s' t = owed s t" for t unfolding owed_def new by (rule sum.cong) auto
  then have "solvent s'" using inv by (simp add: locker_inv_def solvent_def new)
  moreover have "(\<lambda>j. lk_owner (lo_lock s' j) = v) = (\<lambda>j. lk_owner (lo_lock s j) = v)" for v by (auto simp: new)
  then have "ids_right s'" using inv by (simp add: locker_inv_def ids_right_def new(2,3))
  moreover have "locks_right s'" using inv i u(2) by (auto simp: locker_inv_def locks_right_def new)
  moreover have "paid_right s' h"
  proof -
    have "i \<notin> fst ` set h" using inv r(2) by (simp add: locker_inv_def paid_right_def)
    then have "\<forall>(j, v, t) \<in> set h. lo_lock s' j = lo_lock s j" by (force simp: new)
    moreover have "{j. lk_withdrawn (lo_lock s' j)} = {j. lk_withdrawn (lo_lock s j)}" by (auto simp: new)
    ultimately show ?thesis using inv by (fastforce simp: locker_inv_def paid_right_def)
  qed
  ultimately show ?thesis by (simp add: locker_inv_def)
qed

lemma inv_gift:
  assumes "locker_inv s h"
  shows "locker_inv (s\<lparr>lo_bal := (lo_bal s)(token := lo_bal s token + v)\<rparr>) h"
proof -
  have "owed (s\<lparr>lo_bal := (lo_bal s)(token := lo_bal s token + v)\<rparr>) t = owed s t" for t
    unfolding owed_def by (rule sum.cong) auto
  then show ?thesis
    using assms by (auto simp: locker_inv_def solvent_def ids_right_def locks_right_def paid_right_def intro: trans_le_add1)
qed

lemma inv_start: "locker_inv locker_start []"
  by (simp add: locker_inv_def solvent_def ids_right_def locks_right_def paid_right_def owed_def locker_start_def empty_lock_def)

lemma locker_run_inv: "locker_run tok t s h \<Longrightarrow> locker_inv s h"
  by (induction rule: locker_run.induct) (auto intro: inv_start inv_lock inv_withdraw inv_extend inv_gift)

inductive_cases locker_runE: "locker_run tok t s h"

text \<open>
  C37. Tokens leave the locker only as it promises: in every run of its calls by anyone, each lock is paid out at most once, to the
  account that made it, not before its unlock time, and exactly the locks marked as withdrawn have been; and the contract always
  holds, of every token, at least the sum of the locks that are not withdrawn, whatever fee the token takes on the way in.
\<close>

theorem locks_paid_once_and_covered:
  assumes "locker_run tok t s h"
  shows "distinct (map fst h) \<and> (\<forall>i. i \<in> fst ` set h \<longleftrightarrow> lk_withdrawn (lo_lock s i)) \<and>
    (\<forall>(i, u, t') \<in> set h. lk_owner (lo_lock s i) = u \<and> lk_unlock (lo_lock s i) \<le> t') \<and>
    (\<forall>a. (\<Sum>i < lo_next s. if lk_token (lo_lock s i) = a \<and> \<not> lk_withdrawn (lo_lock s i) then lk_amount (lo_lock s i) else 0) \<le> lo_bal s a)"
  using locker_run_inv [OF assms] by (auto simp: locker_inv_def paid_right_def solvent_def owed_def)

section \<open>What the form shows\<close>

text \<open>The answers of the contract as the hooks of the form give them.\<close>

definition entry_of :: "lock_rec \<Rightarrow> lock_entry" where
  "entry_of l = \<lparr>le_owner = lk_owner l, le_token = lk_token l, le_amount = int (lk_amount l), le_unlock = int (lk_unlock l), le_withdrawn = lk_withdrawn l\<rparr>"

definition reads_locker :: "locker \<Rightarrow> string \<Rightarrow> lock_chain \<Rightarrow> bool" where
  "reads_locker s u c = (kc_account c = Some u \<and> kc_ids c = Some (map int (lo_ids s u)) \<and> (\<forall>i. kc_lock c (int i) = Some (entry_of (lo_lock s i))))"

lemma my_locks_shown:
  assumes inv: "locker_inv s h" and c: "reads_locker s u c" and u: "u \<noteq> NO_ADDRESS" "u \<noteq> ''''"
  shows "myLocks c = map (\<lambda>i. (int i, entry_of (lo_lock s i))) (filter (\<lambda>i. lk_owner (lo_lock s i) = u) [0..<lo_next s])"
proof -
  let ?ids = "filter (\<lambda>i. lk_owner (lo_lock s i) = u) [0..<lo_next s]"
  have ids: "kc_ids c = Some (map int ?ids)" using inv c u(1) by (simp add: reads_locker_def locker_inv_def ids_right_def)
  have "concat (map (\<lambda>i. case kc_lock c i of None \<Rightarrow> [] | Some l \<Rightarrow> [(i, l)]) (map int is)) = map (\<lambda>i. (int i, entry_of (lo_lock s i))) is" for "is"
    using c by (induction "is") (simp_all add: reads_locker_def)
  moreover have "filter (\<lambda>(i, l). le_owner l \<noteq> '''' \<and> Some (to_lower (le_owner l)) = map_option to_lower (kc_account c))
      (map (\<lambda>i. (int i, entry_of (lo_lock s i))) ?ids) = map (\<lambda>i. (int i, entry_of (lo_lock s i))) ?ids"
    using c u(2) by (auto simp: filter_id_conv reads_locker_def entry_of_def)
  ultimately show ?thesis by (simp add: myLocks_def ids)
qed

lemma js_compare_time:
  assumes "0 \<le> n" "0 \<le> m" "m \<le> 8640000000000"
  shows "js_le (js_of_int n) (js_of_int m) \<longleftrightarrow> n \<le> m"
proof (cases "n \<le> 2 ^ 53")
  case True
  then show ?thesis using assms by (simp add: js_of_int_small)
next
  case False
  have "(2 :: rat) ^ 53 = of_int (2 ^ 53)" by simp
  then have "dbl (2 ^ 53) = 2 ^ 53" using dbl_of_int [of "2 ^ 53"] by simp
  moreover have "(of_int (2 ^ 53) :: rat) \<le> of_int n" using False by (intro of_int_le_iff [THEN iffD2]) simp
  then have "dbl (2 ^ 53) \<le> dbl (of_int n)" by (intro dbl_mono) simp
  ultimately have big: "2 ^ 53 \<le> dbl (of_int n)" by simp
  have m: "js_of_int m = Fin (of_int m)" using assms by (simp add: js_of_int_small)
  have "(of_int m :: rat) \<le> of_int 8640000000000" using assms(3) by (rule of_int_le_iff [THEN iffD2])
  then have "\<not> dbl (of_int n) \<le> of_int m" using big by simp
  then have "\<not> js_le (js_of_int n) (js_of_int m)"
    using big unfolding m by (auto simp: js_of_int_def js_of_rat_def Let_def dbl_limit_def)
  then show ?thesis using False assms(3) by simp
qed

lemma owed_covers:
  assumes "i < lo_next s" "\<not> lk_withdrawn (lo_lock s i)"
  shows "lk_amount (lo_lock s i) \<le> owed s (lk_token (lo_lock s i))"
proof -
  let ?f = "\<lambda>j. if lk_token (lo_lock s j) = lk_token (lo_lock s i) \<and> \<not> lk_withdrawn (lo_lock s j) then lk_amount (lo_lock s j) else 0"
  have "?f i \<le> (\<Sum>j<lo_next s. ?f j)" using assms(1) by (intro member_le_sum) auto
  then show ?thesis using assms(2) by (simp add: owed_def)
qed

text \<open>Whether the contract lets the account withdraw a lock now.\<close>

definition withdrawable :: "locker_tokens \<Rightarrow> nat \<Rightarrow> string \<Rightarrow> nat \<Rightarrow> locker \<Rightarrow> bool" where
  "withdrawable tok now u i s = (locker_withdraw tok now u i s \<noteq> None)"

lemma withdrawable_iff:
  assumes inv: "locker_inv s h" and u: "u \<noteq> NO_ADDRESS" and pays: "\<And>t v. lt_sends tok t u v"
  shows "withdrawable tok now u i s \<longleftrightarrow> lk_owner (lo_lock s i) = u \<and> \<not> lk_withdrawn (lo_lock s i) \<and> lk_unlock (lo_lock s i) \<le> now"
proof
  assume "withdrawable tok now u i s"
  then show "lk_owner (lo_lock s i) = u \<and> \<not> lk_withdrawn (lo_lock s i) \<and> lk_unlock (lo_lock s i) \<le> now"
    unfolding withdrawable_def using withdraw_result by blast
next
  assume m: "lk_owner (lo_lock s i) = u \<and> \<not> lk_withdrawn (lo_lock s i) \<and> lk_unlock (lo_lock s i) \<le> now"
  then have "i < lo_next s" using inv own_lock_exists [OF _ u] by (simp add: locker_inv_def)
  moreover have "owed s (lk_token (lo_lock s i)) \<le> lo_bal s (lk_token (lo_lock s i))" using inv by (simp add: locker_inv_def solvent_def)
  ultimately have "lk_amount (lo_lock s i) \<le> lo_bal s (lk_token (lo_lock s i))" using owed_covers m by (meson le_trans)
  then show "withdrawable tok now u i s" using m pays by (simp add: withdrawable_def locker_withdraw_def Let_def guard_def chk_sub_def)
qed

lemma button_matures:
  assumes "\<not> kc_pending c" "\<not> kc_mining c" "0 \<le> now" "now \<le> 8640000000000000"
  shows "withdraw_button now c (entry_of l) = Some True \<longleftrightarrow> \<not> lk_withdrawn l \<and> lk_unlock l \<le> nat (now div 1000)"
proof -
  have "now div 1000 \<le> 8640000000000" using zdiv_mono1 [OF assms(4), of 1000] by simp
  then have "js_le (js_of_int (int (lk_unlock l))) (js_of_int (now div 1000)) \<longleftrightarrow> int (lk_unlock l) \<le> now div 1000"
    using assms(3) by (intro js_compare_time) auto
  then show ?thesis using assms by (auto simp: withdraw_button_def entry_of_def)
qed

text \<open>
  C31. The form and the contract agree on the account's locks: in every state the contract reaches, once the hooks have read it, the
  list is exactly the locks the account made, oldest first, with their token, amount and time; and a row's withdraw button can be
  pressed exactly when the contract, called at that moment, pays the lock out (for tokens that do send). So no button leads to
  a revert and no lock that can be withdrawn is kept back; the comparison of the two times, in floating point, decides rightly even
  for unlock times that are no JavaScript integers.
\<close>

theorem lock_list_matches_locker:
  assumes "locker_run tok t s h" and "reads_locker s u c" and "u \<noteq> NO_ADDRESS" "u \<noteq> ''''" and pays: "\<And>a v. lt_sends tok a u v"
    and "\<not> kc_pending c" "\<not> kc_mining c" and "0 \<le> now" "now \<le> 8640000000000000"
  shows "myLocks c = map (\<lambda>i. (int i, entry_of (lo_lock s i))) (filter (\<lambda>i. lk_owner (lo_lock s i) = u) [0..<lo_next s]) \<and>
    (\<forall>i. ((int i, entry_of (lo_lock s i)) \<in> set (myLocks c) \<and> withdraw_button now c (entry_of (lo_lock s i)) = Some True) \<longleftrightarrow>
      locker_withdraw tok (nat (now div 1000)) u i s \<noteq> None)"
proof -
  note inv = locker_run_inv [OF assms(1)]
  note shown = my_locks_shown [OF inv assms(2-4)]
  have "(int i, entry_of (lo_lock s i)) \<in> set (myLocks c) \<longleftrightarrow> lk_owner (lo_lock s i) = u" for i
    using own_lock_exists [OF _ assms(3), of s i] inv by (auto simp: shown locker_inv_def)
  then show ?thesis
    using shown withdrawable_iff [OF inv assms(3) pays] button_matures [OF assms(6-9)] by (auto simp: withdrawable_def)
qed

section \<open>Samples\<close>

text \<open>A token that takes one hundredth on every transfer; a lock of 1000 at time 100 until 200, extended to 300 and withdrawn at 350.\<close>

definition fee_token :: locker_tokens where
  "fee_token = \<lparr>lt_pull = (\<lambda>t u v. Some (v - v div 100)), lt_sends = (\<lambda>t u v. True)\<rparr>"

definition locked_sample :: "locker" where
  "locked_sample = locker_start\<lparr>lo_lock := (lo_lock locker_start)(0 := \<lparr>lk_owner = ''0xa1'', lk_token = ''0x70'', lk_amount = 990, lk_unlock = 200, lk_withdrawn = False\<rparr>),
     lo_next := 1, lo_ids := (lo_ids locker_start)(''0xa1'' := [0]), lo_bal := (lo_bal locker_start)(''0x70'' := 990)\<rparr>"

definition extended_sample :: "locker" where
  "extended_sample = locked_sample\<lparr>lo_lock := (lo_lock locked_sample)(0 := (lo_lock locked_sample 0)\<lparr>lk_unlock := 300\<rparr>)\<rparr>"

lemma not_zero_address: "''0xa1'' \<noteq> NO_ADDRESS" "''0x70'' \<noteq> NO_ADDRESS"
  by (auto simp: NO_ADDRESS_def dest: arg_cong [of _ _ length])

lemma locked_sample_run: "locker_run fee_token 100 locked_sample []"
  by (rule lr_lock [OF lr_start, of 100 "''0xa1''" 200 fee_token "''0x70''" 1000 0])
    (simp_all add: not_zero_address uint64_def locker_lock_def locked_sample_def locker_start_def fee_token_def guard_def)

lemma extended_sample_run: "locker_run fee_token 150 extended_sample []"
  by (rule lr_extend [OF locked_sample_run, of 150 "''0xa1''" 300 0])
    (simp_all add: not_zero_address uint64_def locker_extend_def extended_sample_def locked_sample_def guard_def)

lemma extended_sample_pays: "\<exists>s. locker_withdraw fee_token 350 ''0xa1'' 0 extended_sample = Some s \<and> lk_withdrawn (lo_lock s 0)"
  by (simp add: locker_withdraw_def extended_sample_def locked_sample_def fee_token_def guard_def chk_sub_def)

theorem locks_paid_once_and_covered_witness:
  "\<exists>s. locker_run fee_token 350 s [(0, ''0xa1'', 350)] \<and> distinct (map fst [(0 :: nat, ''0xa1'', 350 :: nat)]) \<and> lk_withdrawn (lo_lock s 0) \<and>
    (\<Sum>i < lo_next s. if lk_token (lo_lock s i) = ''0x70'' \<and> \<not> lk_withdrawn (lo_lock s i) then lk_amount (lo_lock s i) else 0) \<le> lo_bal s ''0x70''"
proof -
  obtain s where w: "locker_withdraw fee_token 350 ''0xa1'' 0 extended_sample = Some s" using extended_sample_pays by blast
  have "locker_run fee_token 350 s ([] @ [(0, ''0xa1'', 350)])"
    by (rule lr_withdraw [OF extended_sample_run _ not_zero_address(1) w]) simp
  then have r: "locker_run fee_token 350 s [(0, ''0xa1'', 350)]" by simp
  show ?thesis using r locks_paid_once_and_covered [OF r] by (intro exI [of _ s]) auto
qed

definition reading_sample :: lock_chain where
  "reading_sample = \<lparr>kc_account = Some ''0xa1'', kc_connected = True, kc_chain = 821207, kc_decimals = (\<lambda>t. Some 18), kc_allowance = (\<lambda>t. Some 0),
     kc_ids = Some [0], kc_lock = (\<lambda>i. Some (entry_of (lo_lock extended_sample (nat i)))), kc_time = (\<lambda>s. Fin 0), kc_pending = False, kc_mining = False\<rparr>"

theorem lock_list_matches_locker_witness:
  "map fst (myLocks reading_sample) = [0] \<and> withdraw_button 299999 reading_sample (entry_of (lo_lock extended_sample 0)) \<noteq> Some True \<and>
    withdraw_button 300000 reading_sample (entry_of (lo_lock extended_sample 0)) = Some True"
proof -
  have c: "reads_locker extended_sample ''0xa1'' reading_sample"
    by (simp add: reads_locker_def reading_sample_def extended_sample_def locked_sample_def)
  have idle: "\<not> kc_pending reading_sample" "\<not> kc_mining reading_sample" by (simp_all add: reading_sample_def)
  have pays: "lt_sends fee_token a ''0xa1'' v" for a v by (simp add: fee_token_def)
  have named: "''0xa1'' \<noteq> ''''" by simp
  note agree = lock_list_matches_locker [OF extended_sample_run c not_zero_address(1) named pays idle]
  have list: "myLocks reading_sample = [(0, entry_of (lo_lock extended_sample 0))]"
    using agree [of 0, THEN conjunct1] by (simp add: extended_sample_def locked_sample_def)
  have "locker_withdraw fee_token (nat (299999 div 1000)) ''0xa1'' 0 extended_sample = None"
    "locker_withdraw fee_token (nat (300000 div 1000)) ''0xa1'' 0 extended_sample \<noteq> None"
    by (simp_all add: locker_withdraw_def extended_sample_def locked_sample_def fee_token_def guard_def chk_sub_def)
  then show ?thesis
    using agree [of 299999, THEN conjunct2, THEN spec, of 0] agree [of 300000, THEN conjunct2, THEN spec, of 0] by (auto simp: list)
qed

end
