(* ===== verification/Chain_Reads.thy ===== *)
theory Chain_Reads
  imports Notifier
begin

text \<open>
  What the notifier reads of the chain, services/blockchain-notifier/src/chain.js: the Cosmos REST service, page by page
  for the validators, and the events of the dispenser. What an HTTP request gives is the argument \<open>fetch\<close>, the text of a
  number the argument \<open>num\<close>.
\<close>

section \<open>Values of a reply\<close>

text \<open>\<open>v.k\<close>, which throws for null and undefined, and \<open>v?.k\<close>. No other value than an object has the members that are read.\<close>

definition prop_of :: "string \<Rightarrow> jsval \<Rightarrow> string + jsval" where
  "prop_of k v = (case v of JUndef \<Rightarrow> Inl ''TypeError'' | JNull \<Rightarrow> Inl ''TypeError'' | JObj ps \<Rightarrow> Inr (get_prop ps k) | _ \<Rightarrow> Inr JUndef)"

definition opt_prop :: "string \<Rightarrow> jsval \<Rightarrow> jsval" where
  "opt_prop k v = (case v of JObj ps \<Rightarrow> get_prop ps k | _ \<Rightarrow> JUndef)"

text \<open>\<open>BigInt(v)\<close>. A string is trimmed; the empty one is 0; a radix prefix takes no sign.\<close>

definition radix_int :: "string \<Rightarrow> int option" where
  "radix_int s = (case s of
      z # x # ds \<Rightarrow>
        (if z \<noteq> CHR ''0'' \<or> ds = [] then None
         else if (x = CHR ''x'' \<or> x = CHR ''X'') \<and> list_all is_hex ds then Some (digits_val 16 ds)
         else if (x = CHR ''o'' \<or> x = CHR ''O'') \<and> list_all (\<lambda>c. is_digit c \<and> digit_val c < 8) ds then Some (digits_val 8 ds)
         else if (x = CHR ''b'' \<or> x = CHR ''B'') \<and> list_all (\<lambda>c. is_digit c \<and> digit_val c < 2) ds then Some (digits_val 2 ds)
         else None)
    | _ \<Rightarrow> None)"

definition string_to_bigint :: "string \<Rightarrow> int option" where
  "string_to_bigint str = (let s = trim str in
     if s = [] then Some 0 else case radix_int s of Some n \<Rightarrow> Some n | None \<Rightarrow> dec_int s)"

definition or_error :: "'e \<Rightarrow> 'a option \<Rightarrow> 'e + 'a" where
  "or_error e x = (case x of None \<Rightarrow> Inl e | Some a \<Rightarrow> Inr a)"

definition bigint_of :: "(jsnum \<Rightarrow> string) \<Rightarrow> jsval \<Rightarrow> string + int" where
  "bigint_of num v = (case v of JUndef \<Rightarrow> Inl ''TypeError'' | JNull \<Rightarrow> Inl ''TypeError'' | JBool b \<Rightarrow> Inr (if b then 1 else 0)
     | JNum n \<Rightarrow> or_error ''RangeError'' (big_of_number n)
     | _ \<Rightarrow> or_error ''SyntaxError'' (string_to_bigint (js_string num v)))"

definition sum_bind :: "'e + 'a \<Rightarrow> ('a \<Rightarrow> 'e + 'b) \<Rightarrow> 'e + 'b" where
  "sum_bind m f = (case m of Inl e \<Rightarrow> Inl e | Inr a \<Rightarrow> f a)"

lemma sum_bind_simps [simp]: "sum_bind (Inl e) f = Inl e" "sum_bind (Inr a) f = f a"
  by (simp_all add: sum_bind_def)

section \<open>The REST service\<close>

text \<open>A request fails, or ends with a status and a body, which may not be JSON.\<close>

datatype rest_answer = RestFails string | RestReply nat "jsval option"

definition rest :: "(string \<Rightarrow> rest_answer) \<Rightarrow> notifier_cfg \<Rightarrow> string \<Rightarrow> string + jsval" where
  "rest fetch cfg path = (case fetch (cosmos_rest cfg @ path) of RestFails e \<Rightarrow> Inl e
     | RestReply st body \<Rightarrow> if \<not> (200 \<le> st \<and> st < 300) then Inl (''cosmos REST '' @ path @ '' -> '' @ dec_string st)
         else or_error ''SyntaxError'' body)"

subsection \<open>encodeURIComponent\<close>

text \<open>The bytes of a character in UTF-8; a character here is one of the first 256 code points.\<close>

definition utf8 :: "char \<Rightarrow> nat list" where
  "utf8 c = (let n = code_unit c in if n < 128 then [n] else [192 + n div 64, 128 + n mod 64])"

definition hex_upper :: "nat \<Rightarrow> char" where
  "hex_upper n = char_of (if n < 10 then 48 + n else 55 + n)"

definition percent :: "nat \<Rightarrow> string" where
  "percent b = [CHR ''%'', hex_upper (b div 16), hex_upper (b mod 16)]"

definition uri_plain :: "char \<Rightarrow> bool" where
  "uri_plain c = (let n = code_unit c in is_digit c \<or> 65 \<le> n \<and> n \<le> 90 \<or> 97 \<le> n \<and> n \<le> 122 \<or>
     c = CHR ''-'' \<or> c = CHR ''_'' \<or> c = CHR ''.'' \<or> c = CHR ''!'' \<or> c = CHR ''~'' \<or> c = CHR ''*'' \<or> n = 39 \<or> c = CHR ''('' \<or> c = CHR '')'')"

definition encodeURIComponent :: "string \<Rightarrow> string" where
  "encodeURIComponent s = concat (map (\<lambda>c. if uri_plain c then [c] else concat (map percent (utf8 c))) s)"

subsection \<open>Validators\<close>

text \<open>
  An entry of \<open>out\<close>. The operator and the moniker are only put into texts and keys, the status is only compared with a string;
  \<open>fetchBondedValidators\<close> keeps no status.
\<close>

definition validator_of :: "(jsnum \<Rightarrow> string) \<Rightarrow> bool \<Rightarrow> jsval \<Rightarrow> string + validator" where
  "validator_of num with_status v =
     sum_bind (prop_of ''operator_address'' v) (\<lambda>oper.
     sum_bind (bigint_of num (or_else (opt_prop ''tokens'' v) (JStr ''0''))) (\<lambda>tokens.
     Inr \<lparr>v_operator = js_string num oper, v_moniker = js_string num (or_else (opt_prop ''moniker'' (opt_prop ''description'' v)) (JStr [])),
       v_tokens = tokens, v_jailed = truthy (opt_prop ''jailed'' v),
       v_status = (if with_status then (case opt_prop ''status'' v of JStr s \<Rightarrow> s | _ \<Rightarrow> []) else [])\<rparr>))"

text \<open>What \<open>for (const v of x)\<close> goes through.\<close>

definition elements_of :: "jsval \<Rightarrow> string + jsval list" where
  "elements_of v = (case v of JArr vs \<Rightarrow> Inr vs | JStr s \<Rightarrow> Inr (map (\<lambda>c. JStr [c]) s) | _ \<Rightarrow> Inl ''TypeError'')"

fun validators_of :: "(jsnum \<Rightarrow> string) \<Rightarrow> bool \<Rightarrow> jsval list \<Rightarrow> string + validator list" where
  "validators_of num st [] = Inr []"
| "validators_of num st (v # vs) = sum_bind (validator_of num st v) (\<lambda>w. sum_bind (validators_of num st vs) (\<lambda>ws. Inr (w # ws)))"

text \<open>One turn of the loop: the query with the key of the page, the entries and the next key.\<close>

definition page_query :: "(jsnum \<Rightarrow> string) \<Rightarrow> string \<Rightarrow> jsval \<Rightarrow> string" where
  "page_query num base key = base @ (if truthy key then ''&pagination.key='' @ encodeURIComponent (js_string num key) else [])"

definition fetch_page :: "(jsnum \<Rightarrow> string) \<Rightarrow> (string \<Rightarrow> rest_answer) \<Rightarrow> notifier_cfg \<Rightarrow> string \<Rightarrow> bool \<Rightarrow> jsval \<Rightarrow> string + (validator list \<times> jsval)" where
  "fetch_page num fetch cfg base st key =
     sum_bind (rest fetch cfg (page_query num base key)) (\<lambda>d.
     sum_bind (prop_of ''validators'' d) (\<lambda>l.
     sum_bind (elements_of (or_else l (JArr []))) (\<lambda>vs.
     sum_bind (validators_of num st vs) (\<lambda>ws. Inr (ws, or_else (opt_prop ''next_key'' (opt_prop ''pagination'' d)) (JStr []))))))"

text \<open>The loop goes on until the key is empty; it may not end, and then has no value.\<close>

partial_function (option) fetch_pages :: "(jsval \<Rightarrow> string + (validator list \<times> jsval)) \<Rightarrow> jsval \<Rightarrow> (string + validator list) option" where
  "fetch_pages page key = (case page key of
      Inl e \<Rightarrow> Some (Inl e)
    | Inr (vs, next_key) \<Rightarrow> (if \<not> truthy next_key then Some (Inr vs)
        else Option.bind (fetch_pages page next_key) (\<lambda>r. Some (sum_bind r (\<lambda>ws. Inr (vs @ ws))))))"

definition BONDED_QUERY :: string where
  "BONDED_QUERY = ''/cosmos/staking/v1beta1/validators?status=BOND_STATUS_BONDED&pagination.limit=200''"

definition VALIDATORS_QUERY :: string where
  "VALIDATORS_QUERY = ''/cosmos/staking/v1beta1/validators?pagination.limit=200''"

definition fetchBondedValidators :: "(jsnum \<Rightarrow> string) \<Rightarrow> (string \<Rightarrow> rest_answer) \<Rightarrow> notifier_cfg \<Rightarrow> (string + validator list) option" where
  "fetchBondedValidators num fetch cfg = fetch_pages (fetch_page num fetch cfg BONDED_QUERY False) (JStr [])"

definition fetchAllValidators :: "(jsnum \<Rightarrow> string) \<Rightarrow> (string \<Rightarrow> rest_answer) \<Rightarrow> notifier_cfg \<Rightarrow> (string + validator list) option" where
  "fetchAllValidators num fetch cfg = fetch_pages (fetch_page num fetch cfg VALIDATORS_QUERY True) (JStr [])"

subsection \<open>Amounts\<close>

definition fetchBondedTokens :: "(jsnum \<Rightarrow> string) \<Rightarrow> (string \<Rightarrow> rest_answer) \<Rightarrow> notifier_cfg \<Rightarrow> string + int" where
  "fetchBondedTokens num fetch cfg = sum_bind (rest fetch cfg ''/cosmos/staking/v1beta1/pool'') (\<lambda>d.
     sum_bind (prop_of ''pool'' d) (\<lambda>p. bigint_of num (or_else (opt_prop ''bonded_tokens'' p) (JStr ''0''))))"

definition fetchTotalSupply :: "(jsnum \<Rightarrow> string) \<Rightarrow> (string \<Rightarrow> rest_answer) \<Rightarrow> notifier_cfg \<Rightarrow> string + int" where
  "fetchTotalSupply num fetch cfg = sum_bind (rest fetch cfg (''/cosmos/bank/v1beta1/supply/by_denom?denom='' @ denom cfg)) (\<lambda>d.
     sum_bind (prop_of ''amount'' d) (\<lambda>p. bigint_of num (or_else (opt_prop ''amount'' p) (JStr ''0''))))"

definition fetchBalance :: "(jsnum \<Rightarrow> string) \<Rightarrow> (string \<Rightarrow> rest_answer) \<Rightarrow> notifier_cfg \<Rightarrow> string \<Rightarrow> string + int" where
  "fetchBalance num fetch cfg a = sum_bind (rest fetch cfg (''/cosmos/bank/v1beta1/balances/'' @ a @ ''/by_denom?denom='' @ denom cfg)) (\<lambda>d.
     sum_bind (prop_of ''balance'' d) (\<lambda>p. bigint_of num (or_else (opt_prop ''amount'' p) (JStr ''0''))))"

text \<open>Both amounts are asked for together and the read fails when one does.\<close>

definition read_ratio :: "(jsnum \<Rightarrow> string) \<Rightarrow> (string \<Rightarrow> rest_answer) \<Rightarrow> notifier_cfg \<Rightarrow> string + jsnum" where
  "read_ratio num fetch cfg = sum_bind (fetchBondedTokens num fetch cfg) (\<lambda>bonded. sum_bind (fetchTotalSupply num fetch cfg) (\<lambda>supply.
     Inr (fetchBondedRatio bonded supply (fetchBalance num fetch cfg) cfg)))"

section \<open>The dispenser\<close>

record dispensed_event =
  de_to :: string
  de_amount :: int
  de_ref :: string
  de_tx :: string
  de_block :: int

text \<open>\<open>queryFilter\<close> gives the events of a contract between two blocks. The amount in coins and the receiver are only shown.\<close>

definition fetchDispensedLogs :: "(string \<Rightarrow> int \<Rightarrow> int \<Rightarrow> string + dispensed_event list) \<Rightarrow> notifier_cfg \<Rightarrow> int \<Rightarrow> int \<Rightarrow> string + sale list" where
  "fetchDispensedLogs queryFilter cfg fromBlock toBlock = sum_bind (queryFilter (nc_dispenser cfg) fromBlock toBlock) (\<lambda>evs.
     Inr (map (\<lambda>e. \<lparr>sale_tx = de_tx e, sale_amount = de_amount e, sale_block = de_block e\<rparr>) evs))"

text \<open>A cycle over what the chain answers during it. A read that does not end leaves the cycle without one.\<close>

definition chain_cycle :: "(jsnum \<Rightarrow> string) \<Rightarrow> (string \<Rightarrow> rest_answer) \<Rightarrow> (string \<Rightarrow> int \<Rightarrow> int \<Rightarrow> string + dispensed_event list) \<Rightarrow> string + int \<Rightarrow>
    notifier_cfg \<Rightarrow> nworld \<Rightarrow> nworld option" where
  "chain_cycle num fetch queryFilter block cfg w = Option.bind (fetchAllValidators num fetch cfg) (\<lambda>vals.
     Some (runChainCycle cfg vals (read_ratio num fetch cfg) block (fetchDispensedLogs queryFilter cfg) (fetchBondedTokens num fetch cfg) w))"

end
