(* ===== verification/Chain_Reads_Properties.thy ===== *)
theory Chain_Reads_Properties
  imports Chain_Reads Notifier_Properties
begin

text \<open>
  The read of the validators against a paging Cosmos service: every validator with its exact stake, and when the read does
  not end.
\<close>

section \<open>Keys survive the query\<close>

text \<open>How a server decodes a part of a query: percent escapes and the plus sign to bytes, the bytes as UTF-8.\<close>

fun unpercent :: "string \<Rightarrow> nat list option" where
  "unpercent [] = Some []"
| "unpercent (c # s) = (if c = CHR ''%'' then (case s of
        h # l # s' \<Rightarrow> if is_hex h \<and> is_hex l then map_option ((#) (nat (16 * digit_val h + digit_val l))) (unpercent s') else None
      | _ \<Rightarrow> None)
    else map_option ((#) (if c = CHR ''+'' then 32 else code_unit c)) (unpercent s))"

fun utf8_decode :: "nat list \<Rightarrow> string option" where
  "utf8_decode [] = Some []"
| "utf8_decode (b # bs) = (if b < 128 then map_option ((#) (char_of b)) (utf8_decode bs)
     else case bs of [] \<Rightarrow> None
       | b' # bs' \<Rightarrow> if 192 \<le> b \<and> b < 196 \<and> 128 \<le> b' \<and> b' < 192 then map_option ((#) (char_of ((b - 192) * 64 + (b' - 128)))) (utf8_decode bs') else None)"

definition url_decode :: "string \<Rightarrow> string option" where
  "url_decode s = Option.bind (unpercent s) utf8_decode"

lemma code_unit_less: "code_unit c < 256"
  by (simp add: code_unit_def)

lemma char_of_code_unit [simp]: "char_of (code_unit c) = c"
  by (simp add: code_unit_def)

lemma code_unit_char_of: "n < 256 \<Longrightarrow> code_unit (char_of n) = n"
  by (simp add: code_unit_def)

lemma utf8_decode_utf8: "utf8_decode (utf8 c @ bs) = map_option ((#) c) (utf8_decode bs)"
proof (cases "code_unit c < 128")
  case False
  have "code_unit c div 64 < 4" "128 \<le> 128 + code_unit c mod 64" "128 + code_unit c mod 64 < 192"
    using code_unit_less [of c] by auto
  moreover have "char_of (code_unit c div 64 * 64 + code_unit c mod 64) = c" by simp
  ultimately show ?thesis using False by (simp add: utf8_def Let_def)
qed (simp add: utf8_def Let_def)

lemma utf8_bytes: "b \<in> set (utf8 c) \<Longrightarrow> b < 256"
  using code_unit_less [of c] by (auto simp: utf8_def Let_def split: if_splits)

lemma hex_upper_val:
  assumes "n < 16"
  shows "is_hex (hex_upper n)" "digit_val (hex_upper n) = int n"
  using assms by (auto simp: is_hex_def hex_upper_def digit_val_def Let_def code_unit_char_of)

lemma unpercent_percent:
  assumes "b < 256"
  shows "unpercent (percent b @ s) = map_option ((#) b) (unpercent s)"
proof -
  have "b div 16 < 16" "b mod 16 < 16" using assms by auto
  note h = hex_upper_val [OF this(1)] hex_upper_val [OF this(2)]
  have "b = 16 * (b div 16) + b mod 16" by simp
  then have "nat (16 * int (b div 16) + int (b mod 16)) = b" by linarith
  then show ?thesis using h by (simp add: percent_def)
qed

lemma unpercent_bytes: "(\<And>b. b \<in> set bs \<Longrightarrow> b < 256) \<Longrightarrow> unpercent (concat (map percent bs) @ s) = map_option ((@) bs) (unpercent s)"
  by (cases "unpercent s"; induction bs) (simp_all add: unpercent_percent)

lemma plain_ascii: "uri_plain c \<Longrightarrow> c \<noteq> CHR ''%'' \<and> c \<noteq> CHR ''+'' \<and> utf8 c = [code_unit c]"
  by (auto simp: uri_plain_def utf8_def is_digit_def Let_def code_unit_def)

lemma unpercent_char: "unpercent ((if uri_plain c then [c] else concat (map percent (utf8 c))) @ s) = map_option ((@) (utf8 c)) (unpercent s)"
  using plain_ascii [of c] by (cases "unpercent s") (auto simp: unpercent_bytes utf8_bytes)

lemma unpercent_encoded: "unpercent (encodeURIComponent s) = Some (concat (map utf8 s))"
  by (induction s) (simp_all add: encodeURIComponent_def unpercent_char del: unpercent.simps(2))

text \<open>Every key comes out of the query as it was put in.\<close>

lemma url_decode_encoded [simp]: "url_decode (encodeURIComponent s) = Some s"
proof -
  have "utf8_decode (concat (map utf8 s)) = Some s" by (induction s) (simp_all add: utf8_decode_utf8)
  then show ?thesis by (simp add: url_decode_def unpercent_encoded)
qed

section \<open>Amounts\<close>

lemma is_digit_char: "n < 10 \<Longrightarrow> is_digit (char_of (48 + n)) \<and> digit_val (char_of (48 + n)) = int n"
  by (auto simp: is_digit_def digit_val_def Let_def code_unit_char_of)

lemma dec_string_digits: "dec_string n \<noteq> [] \<and> list_all is_digit (dec_string n) \<and> digits_val 10 (dec_string n) = int n"
proof (induction n rule: dec_string.induct)
  case (1 n)
  show ?case
  proof (cases "n < 10")
    case True
    then show ?thesis using is_digit_char by (simp add: dec_string.simps [of n] digits_val_def)
  next
    case False
    have "n = n div 10 * 10 + n mod 10" by simp
    then have "int n = int (n div 10) * 10 + int (n mod 10)" by linarith
    then show ?thesis using False 1 [OF False] is_digit_char [of "n mod 10"]
      by (subst (1 2 3) dec_string.simps) (simp add: digits_val_def)
  qed
qed

lemma digit_facts: "is_digit c \<Longrightarrow> \<not> is_ws c \<and> c \<noteq> CHR ''-'' \<and> c \<noteq> CHR ''+'' \<and> c \<notin> {CHR ''x'', CHR ''X'', CHR ''o'', CHR ''O'', CHR ''b'', CHR ''B''}"
  by (auto simp: is_digit_def is_ws_def Let_def code_unit_def)

lemma bigint_of_dec_string: "string_to_bigint (dec_string n) = Some (int n)"
proof -
  let ?s = "dec_string n"
  have d: "?s \<noteq> []" "\<And>c. c \<in> set ?s \<Longrightarrow> is_digit c" "digits_val 10 ?s = int n"
    using dec_string_digits [of n] by (auto simp: list_all_iff)
  have "\<not> is_ws (hd ?s)" "\<not> is_ws (last ?s)" using d(1) d(2) digit_facts by auto
  then have t: "trim ?s = ?s" by (simp add: trim_fix)
  have r: "radix_int ?s = None"
  proof (cases ?s)
    case (Cons z w)
    show ?thesis
    proof (cases w)
      case (Cons x ds)
      then have "is_digit x" using d(2) \<open>?s = z # w\<close> by simp
      then show ?thesis using digit_facts [of x] by (simp add: \<open>?s = z # w\<close> Cons radix_int_def)
    qed (simp add: \<open>?s = z # w\<close> radix_int_def)
  qed (simp add: radix_int_def)
  have "dec_int ?s = Some (int n)"
  proof (cases ?s)
    case (Cons z w)
    then have "is_digit z" using d(2) by simp
    then show ?thesis using digit_facts [of z] d by (simp add: dec_int_def Cons list_all_iff)
  qed (simp add: d)
  then show ?thesis using d(1) by (simp add: string_to_bigint_def t r)
qed

section \<open>When the read ends\<close>

text \<open>The key of the \<open>n\<close>-th page, if the loop gets there.\<close>

fun page_key :: "(jsval \<Rightarrow> string + (validator list \<times> jsval)) \<Rightarrow> jsval \<Rightarrow> nat \<Rightarrow> jsval option" where
  "page_key page key 0 = Some key"
| "page_key page key (Suc n) = (case page key of Inl e \<Rightarrow> None | Inr (vs, nk) \<Rightarrow> if truthy nk then page_key page nk n else None)"

lemma pages_end:
  assumes "page_key page key n = None"
  shows "fetch_pages page key \<noteq> None"
  using assms
proof (induction n arbitrary: key)
  case (Suc n)
  show ?case
  proof (cases "page key")
    case (Inr p)
    obtain vs nk where p: "p = (vs, nk)" by (cases p)
    show ?thesis
    proof (cases "truthy nk")
      case True
      then obtain r where "fetch_pages page nk = Some r" using Suc Inr p by fastforce
      then show ?thesis using Inr p by (simp add: fetch_pages.simps [of page key])
    qed (simp add: fetch_pages.simps [of page key] Inr p)
  qed (simp add: fetch_pages.simps)
qed simp

lemma pages_ended:
  assumes "fetch_pages page key = Some r"
  shows "\<exists>n. page_key page key n = None"
proof (rule fetch_pages.raw_induct [OF _ assms])
  fix f p key r
  assume IH: "\<And>p' k r. f p' k = Some r \<Longrightarrow> \<exists>n. page_key p' k n = None"
    and body: "(case p key of Inl e \<Rightarrow> Some (Inl e) | Inr (vs, nk) \<Rightarrow> if \<not> truthy nk then Some (Inr vs)
      else Option.bind (f p nk) (\<lambda>r. Some (sum_bind r (\<lambda>ws. Inr (vs @ ws))))) = Some r"
  show "\<exists>n. page_key p key n = None"
  proof (cases "p key")
    case (Inl e)
    then show ?thesis by (intro exI [of _ 1]) simp
  next
    case (Inr q)
    obtain vs nk where q: "q = (vs, nk)" by (cases q)
    show ?thesis
    proof (cases "truthy nk")
      case True
      then obtain r' where "f p nk = Some r'" using body Inr q by (auto split: bind_splits)
      then obtain n where "page_key p nk n = None" using IH by blast
      then show ?thesis using Inr q True by (intro exI [of _ "Suc n"]) simp
    next
      case False
      then show ?thesis using Inr q by (intro exI [of _ 1]) simp
    qed
  qed
qed

text \<open>
  The read of the validators does not end exactly when the service keeps giving next keys: there is no bound on the pages, and
  the time limit is one of each request. A cycle of the notifier waits for it.
\<close>

theorem validator_read_hangs_iff:
  "chain_cycle num fetch queryFilter block cfg w = None \<longleftrightarrow>
    (\<forall>n. page_key (fetch_page num fetch cfg VALIDATORS_QUERY True) (JStr []) n \<noteq> None)"
proof -
  have "fetchAllValidators num fetch cfg = None \<longleftrightarrow> (\<forall>n. page_key (fetch_page num fetch cfg VALIDATORS_QUERY True) (JStr []) n \<noteq> None)"
    unfolding fetchAllValidators_def using pages_end pages_ended by (metis not_Some_eq)
  then show ?thesis by (auto simp: chain_cycle_def split: bind_splits)
qed

section \<open>A paging service\<close>

text \<open>
  What the loop relies on: the service answers the first query, and a query with a key, with a page of entries and the key of
  the next page, null on the last. \<open>srv\<close> gives the page of a key and is arbitrary; an entry describes a validator by the
  fields that are read, with its stake in decimal, and may have others.
\<close>

definition describes :: "jsval \<Rightarrow> validator \<Rightarrow> bool" where
  "describes j v = (case j of JObj ps \<Rightarrow> get_prop ps ''operator_address'' = JStr (v_operator v) \<and>
       get_prop ps ''tokens'' = JStr (dec_string (nat (v_tokens v))) \<and> 0 \<le> v_tokens v \<and>
       get_prop ps ''jailed'' = JBool (v_jailed v) \<and> get_prop ps ''status'' = JStr (v_status v) \<and>
       opt_prop ''moniker'' (get_prop ps ''description'') = JStr (v_moniker v)
     | _ \<Rightarrow> False)"

definition page_reply :: "jsval list \<times> string option \<Rightarrow> rest_answer" where
  "page_reply p = RestReply 200 (Some (JObj [(''validators'', JArr (fst p)),
     (''pagination'', JObj [(''next_key'', case snd p of None \<Rightarrow> JNull | Some k \<Rightarrow> JStr k)])]))"

definition cosmos_server :: "(string \<Rightarrow> jsval list \<times> string option) \<Rightarrow> notifier_cfg \<Rightarrow> (string \<Rightarrow> rest_answer) \<Rightarrow> bool" where
  "cosmos_server srv cfg fetch = (let base = cosmos_rest cfg @ VALIDATORS_QUERY in
     fetch base = page_reply (srv []) \<and>
     (\<forall>s k. url_decode s = Some k \<longrightarrow> fetch (base @ ''&pagination.key='' @ s) = page_reply (srv k)))"

text \<open>The pages from a key on list these validators.\<close>

inductive page_chain :: "(string \<Rightarrow> jsval list \<times> string option) \<Rightarrow> string \<Rightarrow> validator list \<Rightarrow> bool" for srv where
  last_page: "srv key = (js, None) \<Longrightarrow> list_all2 describes js vs \<Longrightarrow> page_chain srv key vs"
| more_pages: "srv key = (js, Some nk) \<Longrightarrow> nk \<noteq> [] \<Longrightarrow> list_all2 describes js vs \<Longrightarrow> page_chain srv nk ws \<Longrightarrow> page_chain srv key (vs @ ws)"

lemma validator_of_described: "describes j v \<Longrightarrow> validator_of num True j = Inr v"
  by (cases j; cases v)
    (auto simp: describes_def validator_of_def prop_of_def opt_prop_def or_else_def truthy_def bigint_of_def or_error_def bigint_of_dec_string
      dec_string_digits)

lemma validators_of_described: "list_all2 describes js vs \<Longrightarrow> validators_of num True js = Inr vs"
  by (induction rule: list_all2_induct) (simp_all add: validator_of_described)

lemma server_answers:
  assumes "cosmos_server srv cfg fetch"
  shows "fetch (cosmos_rest cfg @ page_query num VALIDATORS_QUERY (JStr key)) = page_reply (srv key)"
  using assms by (cases "key = []") (simp_all add: cosmos_server_def page_query_def truthy_def Let_def)

lemma fetch_page_served:
  assumes "cosmos_server srv cfg fetch" "srv key = (js, nk)" "list_all2 describes js vs"
  shows "fetch_page num fetch cfg VALIDATORS_QUERY True (JStr key) = Inr (vs, JStr (case nk of None \<Rightarrow> [] | Some k \<Rightarrow> k))"
proof -
  have "rest fetch cfg (page_query num VALIDATORS_QUERY (JStr key)) = Inr (JObj [(''validators'', JArr js),
     (''pagination'', JObj [(''next_key'', case nk of None \<Rightarrow> JNull | Some k \<Rightarrow> JStr k)])])"
    by (simp add: rest_def server_answers [OF assms(1)] assms(2) page_reply_def or_error_def)
  then show ?thesis
    by (auto simp: fetch_page_def prop_of_def opt_prop_def get_prop_def or_else_def truthy_def elements_of_def
        validators_of_described [OF assms(3)] split: option.splits)
qed

lemma pages_fetched:
  assumes "page_chain srv key vs" "cosmos_server srv cfg fetch"
  shows "fetch_pages (fetch_page num fetch cfg VALIDATORS_QUERY True) (JStr key) = Some (Inr vs)"
  using assms(1)
proof induction
  case (last_page key js vs)
  then show ?case using fetch_page_served [OF assms(2)] by (simp add: fetch_pages.simps [of _ "JStr key"] truthy_def)
next
  case (more_pages key js nk vs ws)
  then show ?case using fetch_page_served [OF assms(2)] by (simp add: fetch_pages.simps [of _ "JStr key"] truthy_def)
qed

section \<open>A cycle records what the service lists\<close>

definition same_seen :: "nworld \<Rightarrow> nworld \<Rightarrow> bool" where
  "same_seen w w' = (seen_validators w' = seen_validators w)"

lemma same_seen_pre: "reflp same_seen" "transp same_seen"
  by (auto simp: same_seen_def reflp_def transp_def)

lemma notify_keeps_seen: "keeps same_seen (notify cfg k s lv)" "keeps same_seen (resetKey k)"
  by (auto simp: keeps_def same_seen_def notify_def resetKey_def Let_def split: option.splits list.splits bool.splits)

lemmas seen_rules = keeps_bind [OF same_seen_pre(2)] keeps_pure [OF same_seen_pre(1)] notify_keeps_seen

lemma share_alerts_keep_seen: "keeps same_seen (share_alerts cfg n vs)"
  by (induction vs) (auto simp: share_alert_def Let_def intro!: seen_rules)

lemma rise_alerts_keep_seen: "keeps same_seen (rise_alerts cfg ref xs)"
  by (induction xs) (auto simp: rise_alert_def Let_def intro!: seen_rules split: option.splits)

lemma watch_shares_keeps_seen: "keeps same_seen (watch_shares cfg sh)"
proof (rule keepsI)
  fix w
  show "same_seen w (snd (watch_shares cfg sh w))"
    using keepsD [OF rise_alerts_keep_seen] by (auto simp: watch_shares_def Let_def same_seen_def split: option.splits)
qed

lemma ratio_watch_keeps_seen: "keeps same_seen (watchBondedRatio cfg r)"
proof (cases r)
  case (Inr q)
  have tail: "keeps same_seen (\<lambda>w. let h = bonded_history w; h1 = f h w; w1 = w\<lparr>bonded_history := h1\<rparr> in
      case find (\<lambda>(t, r). seven_days_old (nclock w) t) h1 of None \<Rightarrow> (Inr (), w1)
      | Some (t, r) \<Rightarrow> if g r then act_bind (notify cfg k s lv) (\<lambda>_. act_return ()) w1 else (Inr (), w1))" for f g k s lv
  proof (rule keepsI)
    fix w
    have "same_seen v (snd (act_bind (notify cfg k s lv) (\<lambda>_. act_return ()) v))" for v
      by (rule keepsD) (auto intro!: seen_rules)
    then show "same_seen w (snd (let h = bonded_history w; h1 = f h w; w1 = w\<lparr>bonded_history := h1\<rparr> in
      case find (\<lambda>(t, r). seven_days_old (nclock w) t) h1 of None \<Rightarrow> (Inr (), w1)
      | Some (t, r) \<Rightarrow> if g r then act_bind (notify cfg k s lv) (\<lambda>_. act_return ()) w1 else (Inr (), w1)))"
      by (auto simp: Let_def same_seen_def split: option.splits)
  qed
  show ?thesis unfolding watchBondedRatio_def Inr by (auto intro!: seen_rules tail)
qed (auto simp: watchBondedRatio_def intro!: seen_rules)

lemma sales_loop_keeps_seen: "keeps same_seen (sales_loop cfg b evs)"
  by (induction evs) (auto simp: sale_alerts_def Let_def intro!: seen_rules)

lemma sales_watch_keeps_seen: "keeps same_seen (watchGmbSales cfg b f r)"
proof (rule keepsI)
  fix w
  have k: "keeps same_seen (\<lambda>w1. (Inr (), w1\<lparr>last_dispenser_block := l\<rparr>))" for l by (simp add: keeps_def same_seen_def)
  have "same_seen w (snd (act_bind (sales_loop cfg n logs) (\<lambda>_ w1. (Inr (), w1\<lparr>last_dispenser_block := l\<rparr>)) w))" for n logs l
    by (rule keepsD [OF keeps_bind [OF same_seen_pre(2) sales_loop_keeps_seen k]])
  then show "same_seen w (snd (watchGmbSales cfg b f r w))"
    by (auto simp: watchGmbSales_def Let_def same_seen_def split: sum.splits)
qed

text \<open>With a mail server that refuses nothing no alert throws.\<close>

lemma notify_accepted: "smtp_fails w = [] \<Longrightarrow> \<exists>b w'. notify cfg k s lv w = (Inr b, w') \<and> smtp_fails w' = [] \<and> seen_validators w' = seen_validators w"
  by (auto simp: notify_def Let_def)

lemma watch_one_sees:
  assumes "smtp_fails w = []"
  shows "\<exists>w'. watch_one cfg v w = (Inr (), w') \<and> smtp_fails w' = [] \<and>
    seen_validators w' = AList.update (v_operator v) \<lparr>vs_jailed = v_jailed v, vs_tokens = v_tokens v\<rparr> (seen_validators w)"
proof -
  let ?alert = "\<lambda>w. (case map_of (seen_validators w) (v_operator v) of
      None \<Rightarrow> notify cfg (''val-new-'' @ v_operator v) ''New validator'' Info w
    | Some prev \<Rightarrow>
        if v_jailed v \<and> \<not> vs_jailed prev
        then notify cfg (''val-jail-'' @ v_operator v @ ''-'' @ dec_string (nat (nclock w))) ''Validator JAILED'' Warning w
        else if \<not> v_jailed v \<and> vs_jailed prev
        then notify cfg (''val-unjail-'' @ v_operator v @ ''-'' @ dec_string (nat (nclock w))) ''Validator unjailed'' Info w
        else (Inr False, w))"
  have "\<exists>b w'. ?alert w = (Inr b, w') \<and> smtp_fails w' = [] \<and> seen_validators w' = seen_validators w"
    using notify_accepted [OF assms] assms by (auto split: option.splits)
  then obtain b w' where "?alert w = (Inr b, w')" "smtp_fails w' = []" "seen_validators w' = seen_validators w" by blast
  then show ?thesis unfolding watch_one_def act_bind_def by (simp add: see_validator_def)
qed

lemma watch_each_sees:
  assumes "smtp_fails w = []" "distinct (map v_operator vs)"
  shows "\<exists>w'. watch_each cfg vs w = (Inr (), w') \<and>
    (\<forall>k. map_of (seen_validators w') k = (case find (\<lambda>v. v_operator v = k) vs of
       None \<Rightarrow> map_of (seen_validators w) k | Some v \<Rightarrow> Some \<lparr>vs_jailed = v_jailed v, vs_tokens = v_tokens v\<rparr>))"
  using assms
proof (induction vs arbitrary: w)
  case (Cons v vs)
  obtain w1 where w1: "watch_one cfg v w = (Inr (), w1)" "smtp_fails w1 = []"
    "seen_validators w1 = AList.update (v_operator v) \<lparr>vs_jailed = v_jailed v, vs_tokens = v_tokens v\<rparr> (seen_validators w)"
    using watch_one_sees [OF Cons.prems(1)] by blast
  obtain w' where w': "watch_each cfg vs w1 = (Inr (), w')" "\<And>k. map_of (seen_validators w') k = (case find (\<lambda>v. v_operator v = k) vs of
       None \<Rightarrow> map_of (seen_validators w1) k | Some v \<Rightarrow> Some \<lparr>vs_jailed = v_jailed v, vs_tokens = v_tokens v\<rparr>)"
    using Cons.IH [OF w1(2)] Cons.prems(2) by auto
  have "find (\<lambda>u. v_operator u = v_operator v) vs = None" using Cons.prems(2) by (auto simp: find_None_iff rev_image_eqI)
  then have "map_of (seen_validators w') k = (case find (\<lambda>v. v_operator v = k) (v # vs) of
       None \<Rightarrow> map_of (seen_validators w) k | Some v \<Rightarrow> Some \<lparr>vs_jailed = v_jailed v, vs_tokens = v_tokens v\<rparr>)" for k
    by (cases "v_operator v = k") (auto simp: w'(2) w1(3) update_conv split: option.splits)
  then show ?case by (simp add: act_bind_def w1(1) w'(1))
qed simp

lemma keeps_after: "m w = (Inr a, w1) \<Longrightarrow> keeps R (f a) \<Longrightarrow> R w1 (snd (act_bind m f w))"
  by (simp add: act_bind_def keepsD)

lemma guarded_keeps: "keeps R m \<Longrightarrow> R w (guarded m w)"
  by (simp add: keepsD guarded_def)

text \<open>
  C13. A cycle of the notifier reads all of a paged list of validators and records each of them with its exact stake: when the REST
  service lists validators over any number of pages, whatever its keys, and no mail is refused, the cycle ends, and afterwards the
  state holds for every operator on the list the stake and whether it is jailed as listed, and for every other operator what it held before.
\<close>

theorem cycle_records_every_validator:
  assumes "cosmos_server srv cfg fetch" "page_chain srv [] vals" "distinct (map v_operator vals)" "smtp_fails w = []"
  shows "\<exists>w'. chain_cycle num fetch queryFilter block cfg w = Some w' \<and>
    (\<forall>v \<in> set vals. map_of (seen_validators w') (v_operator v) = Some \<lparr>vs_jailed = v_jailed v, vs_tokens = v_tokens v\<rparr>) \<and>
    (\<forall>k. k \<notin> v_operator ` set vals \<longrightarrow> map_of (seen_validators w') k = map_of (seen_validators w) k)"
proof -
  have read: "fetchAllValidators num fetch cfg = Some (Inr vals)"
    unfolding fetchAllValidators_def by (rule pages_fetched [OF assms(2,1)])
  obtain w1 where w1: "watch_each cfg vals w = (Inr (), w1)"
    and seen: "\<And>k. map_of (seen_validators w1) k = (case find (\<lambda>v. v_operator v = k) vals of
       None \<Rightarrow> map_of (seen_validators w) k | Some v \<Rightarrow> Some \<lparr>vs_jailed = v_jailed v, vs_tokens = v_tokens v\<rparr>)"
    using watch_each_sees [OF assms(4,3)] by blast
  define rest where "rest = (\<lambda>w. guarded (watchGmbSales cfg block (fetchDispensedLogs queryFilter cfg) (fetchBondedTokens num fetch cfg))
       (guarded (watchBondedRatio cfg (read_ratio num fetch cfg)) w))"
  have watch: "same_seen w1 (guarded (watchValidators cfg (Inr vals)) w)"
  proof -
    show ?thesis
      unfolding guarded_def watchValidators_def Let_def sum.case
      by (rule keeps_after [of "watch_each cfg vals" w, OF w1]) (auto intro!: seen_rules share_alerts_keep_seen watch_shares_keeps_seen)
  qed
  let ?w' = "rest (guarded (watchValidators cfg (Inr vals)) w)"
  have "chain_cycle num fetch queryFilter block cfg w = Some ?w'" by (simp add: chain_cycle_def read runChainCycle_def rest_def)
  moreover have "seen_validators ?w' = seen_validators w1"
    using watch guarded_keeps [OF ratio_watch_keeps_seen] guarded_keeps [OF sales_watch_keeps_seen] by (simp add: rest_def same_seen_def)
  moreover have "find (\<lambda>u. v_operator u = v_operator v) vals = Some v" if "v \<in> set vals" for v
    using that assms(3) by (induction vals) (auto simp: image_iff)
  moreover have "find (\<lambda>u. v_operator u = k) vals = None" if "k \<notin> v_operator ` set vals" for k
    using that by (auto simp: find_None_iff)
  ultimately show ?thesis by (auto simp: seen)
qed

section \<open>Samples\<close>

text \<open>A service for any pages.\<close>

definition serving :: "(string \<Rightarrow> jsval list \<times> string option) \<Rightarrow> notifier_cfg \<Rightarrow> string \<Rightarrow> rest_answer" where
  "serving srv cfg url = (let base = cosmos_rest cfg @ VALIDATORS_QUERY; q = base @ ''&pagination.key='' in
     if url = base then page_reply (srv [])
     else if take (length q) url = q then (case url_decode (drop (length q) url) of None \<Rightarrow> RestReply 400 None | Some k \<Rightarrow> page_reply (srv k))
     else RestReply 404 None)"

lemma serving_serves: "cosmos_server srv cfg (serving srv cfg)"
  by (simp add: cosmos_server_def serving_def Let_def)

definition listed :: "string \<Rightarrow> nat \<Rightarrow> jsval" where
  "listed oper stake = JObj [(''operator_address'', JStr oper), (''jailed'', JBool False), (''status'', JStr ''BOND_STATUS_BONDED''),
     (''tokens'', JStr (dec_string stake)), (''description'', JObj [(''moniker'', JStr ''m'')])]"

definition listed_as :: "string \<Rightarrow> nat \<Rightarrow> validator" where
  "listed_as oper stake = \<lparr>v_operator = oper, v_moniker = ''m'', v_tokens = int stake, v_jailed = False, v_status = ''BOND_STATUS_BONDED''\<rparr>"

lemma listed_describes: "describes (listed oper stake) (listed_as oper stake)"
  by (simp add: describes_def listed_def listed_as_def get_prop_def opt_prop_def)

text \<open>Two pages, with a key in base 64.\<close>

definition two_pages :: "string \<Rightarrow> jsval list \<times> string option" where
  "two_pages k = (if k = [] then ([listed ''a'' 1000000000000000000001], Some ''Fk+/w=='')
     else if k = ''Fk+/w=='' then ([listed ''b'' 7], None) else ([], None))"

lemma two_pages_chain: "page_chain two_pages [] ([listed_as ''a'' 1000000000000000000001] @ [listed_as ''b'' 7])"
  by (rule more_pages [where nk = "''Fk+/w==''" and js = "[listed ''a'' 1000000000000000000001]"])
    (auto simp: two_pages_def listed_describes intro!: last_page [where js = "[listed ''b'' 7]"])

theorem cycle_records_every_validator_witness:
  "\<exists>w'. chain_cycle (\<lambda>n. []) (serving two_pages sample_notifier) (\<lambda>a b c. Inr []) (Inr 5) sample_notifier sample_nworld = Some w' \<and>
    map_of (seen_validators w') ''a'' = Some \<lparr>vs_jailed = False, vs_tokens = 1000000000000000000001\<rparr> \<and>
    map_of (seen_validators w') ''b'' = Some \<lparr>vs_jailed = False, vs_tokens = 7\<rparr>"
  using cycle_records_every_validator [OF serving_serves two_pages_chain, of sample_nworld "\<lambda>n. []" sample_notifier "\<lambda>a b c. Inr []" "Inr 5"]
  by (auto simp: listed_as_def sample_nworld_def)

text \<open>A service that always gives the same next key: the read never ends.\<close>

lemma constant_key_hangs:
  assumes "\<And>k. srv k = ([], Some ''k'')"
  shows "fetchAllValidators num (serving srv cfg) cfg = None"
proof -
  have page: "fetch_page num (serving srv cfg) cfg VALIDATORS_QUERY True (JStr k) = Inr ([], JStr ''k'')" for k
    using fetch_page_served [OF serving_serves assms, where vs = "[]"] by simp
  have "page_key (fetch_page num (serving srv cfg) cfg VALIDATORS_QUERY True) (JStr k) n \<noteq> None" for n k
    by (induction n arbitrary: k) (simp_all add: page truthy_def)
  then show ?thesis unfolding fetchAllValidators_def using pages_ended by (metis not_Some_eq)
qed

end
