(* ===== verification/Gmb_Collector.thy ===== *)
theory Gmb_Collector
  imports Gemba_Prelude
begin

text \<open>
  The payment collector, contracts/src/payments/GmbCollector.sol, on a chain that takes transactions, and the harness that
  attacks the live contract, security/collector-attack.mjs.
\<close>

section \<open>The contract\<close>

text \<open>
  \<open>gc_paid\<close> goes by the hash of the order; the owner only changes by calls that are not modelled. \<open>keccak\<close> and whether an
  account takes coins (\<open>accepts\<close>) are arguments. \<open>nonReentrant\<close> and marking the order before the coins are forwarded keep a
  recipient from changing anything in between, so a call is one step.
\<close>

record collector =
  gc_owner :: string
  gc_recipient :: string
  gc_count :: nat
  gc_paid :: "string \<Rightarrow> bool"
  gc_paused :: bool

record coll_chain =
  ch_bal :: "string \<Rightarrow> nat"
  ch_coll :: collector

datatype coll_error = CollPaused | CollZeroAmount | CollEmptyOrderId | CollAlreadyPaid | CollFailedCall | CollDirectPayment | CollNotOwner |
  CollZeroAddress | CollNotPayable

definition COLLECTOR :: string where
  "COLLECTOR = ''0x72F771d2CaC82Dd807435b03D3a216006413614c''"

definition NOBODY :: string where
  "NOBODY = ''0x'' @ replicate 40 CHR ''0''"

definition move_coins :: "string \<Rightarrow> string \<Rightarrow> nat \<Rightarrow> (string \<Rightarrow> nat) \<Rightarrow> string \<Rightarrow> nat" where
  "move_coins a b v bal = (let bal1 = bal(a := bal a - v) in bal1(b := bal1 b + v))"

definition gc_pay :: "(string \<Rightarrow> string) \<Rightarrow> (string \<Rightarrow> bool) \<Rightarrow> string \<Rightarrow> string \<Rightarrow> nat \<Rightarrow> coll_chain \<Rightarrow> coll_error + coll_chain" where
  "gc_pay keccak accepts sender order v w = (let c = ch_coll w; h = keccak order; to = gc_recipient c in
     if gc_paused c then Inl CollPaused
     else if v = 0 then Inl CollZeroAmount
     else if order = [] then Inl CollEmptyOrderId
     else if gc_paid c h then Inl CollAlreadyPaid
     else if to = COLLECTOR \<or> \<not> accepts to then Inl CollFailedCall
     else Inr (w\<lparr>ch_bal := move_coins sender to v (ch_bal w), ch_coll := c\<lparr>gc_paid := (gc_paid c)(h := True), gc_count := Suc (gc_count c)\<rparr>\<rparr>))"

definition gc_setRecipient :: "string \<Rightarrow> string \<Rightarrow> coll_chain \<Rightarrow> coll_error + coll_chain" where
  "gc_setRecipient sender a w = (if sender \<noteq> gc_owner (ch_coll w) then Inl CollNotOwner else if a = NOBODY then Inl CollZeroAddress
     else Inr (w\<lparr>ch_coll := (ch_coll w)\<lparr>gc_recipient := a\<rparr>\<rparr>))"

definition gc_set_paused :: "string \<Rightarrow> bool \<Rightarrow> coll_chain \<Rightarrow> coll_error + coll_chain" where
  "gc_set_paused sender p w = (if sender \<noteq> gc_owner (ch_coll w) then Inl CollNotOwner else if gc_paused (ch_coll w) = p then Inl CollPaused
     else Inr (w\<lparr>ch_coll := (ch_coll w)\<lparr>gc_paused := p\<rparr>\<rparr>))"

section \<open>Transactions\<close>

datatype coll_call = CallPay string | CallSetRecipient string | CallPause bool | SendTo string

record coll_tx =
  tx_from :: string
  tx_call :: coll_call
  tx_value :: nat
  tx_gas :: nat

text \<open>A coin transfer to the collector reaches \<open>receive\<close>.\<close>

definition apply_call :: "(string \<Rightarrow> string) \<Rightarrow> (string \<Rightarrow> bool) \<Rightarrow> coll_tx \<Rightarrow> coll_chain \<Rightarrow> coll_error + coll_chain" where
  "apply_call keccak accepts tx w = (case tx_call tx of
      CallPay order \<Rightarrow> gc_pay keccak accepts (tx_from tx) order (tx_value tx) w
    | CallSetRecipient a \<Rightarrow> if tx_value tx \<noteq> 0 then Inl CollNotPayable else gc_setRecipient (tx_from tx) a w
    | CallPause p \<Rightarrow> if tx_value tx \<noteq> 0 then Inl CollNotPayable else gc_set_paused (tx_from tx) p w
    | SendTo a \<Rightarrow> if a = COLLECTOR then Inl CollDirectPayment else if \<not> accepts a then Inl CollFailedCall
        else Inr (w\<lparr>ch_bal := move_coins (tx_from tx) a (tx_value tx) (ch_bal w)\<rparr>))"

text \<open>What ends \<open>(await call).wait(1)\<close>: a receipt, a revert, or an error with its message.\<close>

datatype tx_end = TxMined | TxReverted | TxUnsent string

record coll_node =
  nd_keccak :: "string \<Rightarrow> string"
  nd_accepts :: "string \<Rightarrow> bool"
  nd_price :: nat
  nd_used :: "coll_tx \<Rightarrow> nat"

definition gas_fee :: "coll_node \<Rightarrow> coll_tx \<Rightarrow> nat" where
  "gas_fee nd tx = min (nd_used nd tx) (tx_gas tx) * nd_price nd"

text \<open>
  One transaction in a block of its own: the node takes it when the sender can pay for its whole limit, the fee is that of
  the gas it used (an argument, at most the limit) at the one price of the node, and a call that a check refuses
  costs the same and does nothing else. That the limit is enough for the call is taken for granted.
\<close>

definition send_tx :: "coll_node \<Rightarrow> coll_tx \<Rightarrow> coll_chain \<Rightarrow> tx_end \<times> coll_chain" where
  "send_tx nd tx w = (let a = tx_from tx in
     if ch_bal w a < tx_value tx + tx_gas tx * nd_price nd then (TxUnsent ''insufficient funds for gas * price + value'', w)
     else let w1 = w\<lparr>ch_bal := (ch_bal w)(a := ch_bal w a - gas_fee nd tx)\<rparr> in
       case apply_call (nd_keccak nd) (nd_accepts nd) tx w1 of Inl e \<Rightarrow> (TxReverted, w1) | Inr w2 \<Rightarrow> (TxMined, w2))"

section \<open>The harness\<close>

text \<open>It only sends transactions and reads balances, so it is over any chain \<open>'w\<close> with these two.\<close>

definition wei :: "nat \<Rightarrow> nat" where
  "wei n = n * 10 ^ 18"

text \<open>\<open>reverted(e)\<close> for an error that is no revert.\<close>

definition revert_words :: "string \<Rightarrow> bool" where
  "revert_words m = list_ex (str_includes (to_lower m)) [''revert'', ''reverted'', ''already'', ''not allowed'', ''paused'', ''exceeds'', ''insufficient'']"

definition must :: "(coll_tx \<Rightarrow> 'w \<Rightarrow> tx_end \<times> 'w) \<Rightarrow> coll_tx \<Rightarrow> 'w \<Rightarrow> 'w option" where
  "must send tx w = (case send tx w of (TxMined, w') \<Rightarrow> Some w' | _ \<Rightarrow> None)"

text \<open>An attack is defended (\<open>True\<close>) when its transaction fails in one of the ways that count.\<close>

definition attack :: "(coll_tx \<Rightarrow> 'w \<Rightarrow> tx_end \<times> 'w) \<Rightarrow> coll_tx \<Rightarrow> 'w \<times> bool list \<Rightarrow> 'w \<times> bool list" where
  "attack send tx s = (case send tx (fst s) of (TxMined, w) \<Rightarrow> (w, snd s @ [False]) | (TxReverted, w) \<Rightarrow> (w, snd s @ [True])
     | (TxUnsent m, w) \<Rightarrow> (w, snd s @ [revert_words m]))"

text \<open>The two payments of the race are mined in either order.\<close>

definition race :: "(coll_tx \<Rightarrow> 'w \<Rightarrow> tx_end \<times> 'w) \<Rightarrow> bool \<Rightarrow> coll_tx \<Rightarrow> coll_tx \<Rightarrow> 'w \<times> bool list \<Rightarrow> 'w \<times> bool list" where
  "race send first t1 t2 s = (let (e1, w1) = send (if first then t1 else t2) (fst s); (e2, w2) = send (if first then t2 else t1) w1 in
     (w2, snd s @ [(e1 = TxMined) \<noteq> (e2 = TxMined)]))"

text \<open>The funder, the six fresh wallets, and the base 36 text of the time.\<close>

record attackers =
  at_funder :: string
  at_a1 :: string
  at_r1 :: string
  at_r2 :: string
  at_a3 :: string
  at_a4 :: string
  at_a5 :: string
  at_stamp :: string

definition fundNew :: "string \<Rightarrow> string \<Rightarrow> nat \<Rightarrow> coll_tx" where
  "fundNew funder a gmb = \<lparr>tx_from = funder, tx_call = SendTo a, tx_value = wei gmb, tx_gas = 21000\<rparr>"

definition pay_tx :: "string \<Rightarrow> string \<Rightarrow> nat \<Rightarrow> coll_tx" where
  "pay_tx a order v = \<lparr>tx_from = a, tx_call = CallPay order, tx_value = v, tx_gas = 120000\<rparr>"

definition oid1 :: "attackers \<Rightarrow> string" where
  "oid1 p = ''atk-seq-'' @ take 8 (drop 2 (at_a1 p))"

definition oidR :: "attackers \<Rightarrow> string" where
  "oidR p = ''atk-race-'' @ at_stamp p"

text \<open>\<open>None\<close> is the harness error with exit code 2: a step outside the attacks failed.\<close>

definition attacks :: "(coll_tx \<Rightarrow> 'w \<Rightarrow> tx_end \<times> 'w) \<Rightarrow> bool \<Rightarrow> attackers \<Rightarrow> 'w \<Rightarrow> ('w \<times> bool list) option" where
  "attacks send first p w0 =
     Option.bind (must send (fundNew (at_funder p) (at_a1 p) 3) w0) (\<lambda>w1.
     Option.bind (must send (pay_tx (at_a1 p) (oid1 p) (wei 1)) w1) (\<lambda>w2.
     let s1 = attack send (pay_tx (at_a1 p) (oid1 p) (wei 1)) (w2, []) in
     Option.bind (must send (fundNew (at_funder p) (at_r1 p) 3) (fst s1)) (\<lambda>w3.
     Option.bind (must send (fundNew (at_funder p) (at_r2 p) 3) w3) (\<lambda>w4.
     let s2 = race send first (pay_tx (at_r1 p) (oidR p) (wei 1)) (pay_tx (at_r2 p) (oidR p) (wei 1)) (w4, snd s1) in
     Option.bind (must send (fundNew (at_funder p) (at_a3 p) 2) (fst s2)) (\<lambda>w5.
     let s3 = attack send \<lparr>tx_from = at_a3 p, tx_call = SendTo COLLECTOR, tx_value = wei 1, tx_gas = 60000\<rparr> (w5, snd s2) in
     Option.bind (must send (fundNew (at_funder p) (at_a4 p) 1) (fst s3)) (\<lambda>w6.
     let s4 = attack send \<lparr>tx_from = at_a4 p, tx_call = CallSetRecipient (at_a4 p), tx_value = 0, tx_gas = 80000\<rparr> (w6, snd s3) in
     Option.bind (must send (fundNew (at_funder p) (at_a5 p) 2) (fst s4)) (\<lambda>w7.
     Some (attack send (pay_tx (at_a5 p) [] (wei 1)) (attack send (pay_tx (at_a5 p) ''x'' 0) (w7, snd s4))))))))))"

text \<open>The exit code and the marks, the last of which says that the contract holds nothing.\<close>

definition collector_harness :: "(coll_tx \<Rightarrow> 'w \<Rightarrow> tx_end \<times> 'w) \<Rightarrow> (string \<Rightarrow> 'w \<Rightarrow> nat) \<Rightarrow> bool \<Rightarrow> attackers \<Rightarrow> 'w \<Rightarrow> nat \<times> bool list" where
  "collector_harness send bal first p w0 = (case attacks send first p w0 of None \<Rightarrow> (2, [])
     | Some (w, marks) \<Rightarrow> (let all = marks @ [bal COLLECTOR w = 0] in (if list_all (\<lambda>m. m) all then 0 else 1, all)))"

end
