(* ===== verification/Gmb_Collector_Properties.thy ===== *)
theory Gmb_Collector_Properties
  imports Gmb_Collector
begin

text \<open>
  The payment collector settles an order once and keeps nothing, the harness against it ends with every attack defended,
  and what neither stops: anyone settles any order for one base unit.
\<close>

section \<open>Runs of the contract\<close>

text \<open>
  Transactions of anyone from the deployment on, with the payments so far: the order, the payer, the recipient and the amount. The
  contract itself sends no transaction.
\<close>

definition payments_of :: "tx_end \<Rightarrow> coll_tx \<Rightarrow> coll_chain \<Rightarrow> (string \<times> string \<times> string \<times> nat) list" where
  "payments_of e tx w = (if e \<noteq> TxMined then [] else case tx_call tx of
     CallPay order \<Rightarrow> [(order, tx_from tx, gc_recipient (ch_coll w), tx_value tx)] | _ \<Rightarrow> [])"

inductive gc_run :: "coll_node \<Rightarrow> coll_chain \<Rightarrow> coll_chain \<Rightarrow> (string \<times> string \<times> string \<times> nat) list \<Rightarrow> bool" for nd w0 where
  gr_start: "gc_count (ch_coll w0) = 0 \<Longrightarrow> gc_paid (ch_coll w0) = (\<lambda>k. False) \<Longrightarrow> gc_run nd w0 w0 []"
| gr_step: "gc_run nd w0 w h \<Longrightarrow> tx_from tx \<noteq> COLLECTOR \<Longrightarrow> send_tx nd tx w = (e, w') \<Longrightarrow> gc_run nd w0 w' (h @ payments_of e tx w)"

lemma send_cases:
  assumes "send_tx nd tx w = (e, w')"
  obtains (unsent) m where "e = TxUnsent m" "w' = w"
    | (reverted) x where "e = TxReverted" "w' = w\<lparr>ch_bal := (ch_bal w)(tx_from tx := ch_bal w (tx_from tx) - gas_fee nd tx)\<rparr>"
        "apply_call (nd_keccak nd) (nd_accepts nd) tx w' = Inl x"
    | (mined) "e = TxMined" "tx_value tx + tx_gas tx * nd_price nd \<le> ch_bal w (tx_from tx)"
        "apply_call (nd_keccak nd) (nd_accepts nd) tx (w\<lparr>ch_bal := (ch_bal w)(tx_from tx := ch_bal w (tx_from tx) - gas_fee nd tx)\<rparr>) = Inr w'"
  using assms by (auto simp: send_tx_def Let_def split: if_splits sum.splits)

lemma gc_pay_result:
  assumes "gc_pay keccak accepts u order v w = Inr w'"
  shows "\<not> gc_paused (ch_coll w)" "0 < v" "order \<noteq> []" "\<not> gc_paid (ch_coll w) (keccak order)" "gc_recipient (ch_coll w) \<noteq> COLLECTOR"
    "w' = w\<lparr>ch_bal := move_coins u (gc_recipient (ch_coll w)) v (ch_bal w),
       ch_coll := (ch_coll w)\<lparr>gc_paid := (gc_paid (ch_coll w))(keccak order := True), gc_count := Suc (gc_count (ch_coll w))\<rparr>\<rparr>"
  using assms by (auto simp: gc_pay_def Let_def split: if_splits)

lemma move_others: "x \<noteq> a \<Longrightarrow> x \<noteq> b \<Longrightarrow> move_coins a b v bal x = bal x"
  by (simp add: move_coins_def)

text \<open>A call leaves the contract's balance alone, and its payments only grow by the one it makes.\<close>

lemma apply_call_result:
  assumes "apply_call keccak accepts tx w = Inr w'" "tx_from tx \<noteq> COLLECTOR"
  shows "ch_bal w' COLLECTOR = ch_bal w COLLECTOR"
    "case tx_call tx of CallPay order \<Rightarrow> 0 < tx_value tx \<and> order \<noteq> [] \<and> \<not> gc_paid (ch_coll w) (keccak order) \<and>
        gc_recipient (ch_coll w) \<noteq> COLLECTOR \<and> gc_paid (ch_coll w') = (gc_paid (ch_coll w))(keccak order := True) \<and>
        gc_count (ch_coll w') = Suc (gc_count (ch_coll w))
      | _ \<Rightarrow> gc_paid (ch_coll w') = gc_paid (ch_coll w) \<and> gc_count (ch_coll w') = gc_count (ch_coll w)" (is ?calls)
proof (atomize (full), cases "tx_call tx")
  case (CallPay order)
  then have "gc_pay keccak accepts (tx_from tx) order (tx_value tx) w = Inr w'" using assms(1) by (simp add: apply_call_def)
  note r = gc_pay_result [OF this]
  have "COLLECTOR \<noteq> tx_from tx" "COLLECTOR \<noteq> gc_recipient (ch_coll w)" using assms(2) r(5) by auto
  then show "ch_bal w' COLLECTOR = ch_bal w COLLECTOR \<and> ?calls" using r by (simp add: CallPay r(6) move_others)
qed (use assms in \<open>auto simp: apply_call_def gc_setRecipient_def gc_set_paused_def move_others split: if_splits\<close>)

definition collector_inv :: "coll_node \<Rightarrow> coll_chain \<Rightarrow> coll_chain \<Rightarrow> (string \<times> string \<times> string \<times> nat) list \<Rightarrow> bool" where
  "collector_inv nd w0 w h = (distinct (map (\<lambda>p. nd_keccak nd (fst p)) h) \<and> gc_count (ch_coll w) = length h \<and>
     (\<forall>k. gc_paid (ch_coll w) k \<longleftrightarrow> k \<in> set (map (\<lambda>p. nd_keccak nd (fst p)) h)) \<and>
     (\<forall>(order, u, to, v) \<in> set h. order \<noteq> [] \<and> 0 < v \<and> to \<noteq> COLLECTOR) \<and> ch_bal w COLLECTOR = ch_bal w0 COLLECTOR)"

lemma collector_inv_step:
  assumes inv: "collector_inv nd w0 w h" and from_other: "tx_from tx \<noteq> COLLECTOR" and sent: "send_tx nd tx w = (e, w')"
  shows "collector_inv nd w0 w' (h @ payments_of e tx w)"
  using sent
proof (cases rule: send_cases)
  case (unsent m)
  then show ?thesis using inv by (simp add: payments_of_def)
next
  case (reverted x)
  then show ?thesis using inv from_other by (simp add: payments_of_def collector_inv_def)
next
  case mined
  note r = apply_call_result [OF mined(3) from_other]
  show ?thesis
    using inv r from_other mined(1) by (cases "tx_call tx") (auto simp: collector_inv_def payments_of_def)
qed

text \<open>
  C38. The collector settles each order once and keeps nothing: after any transactions of anyone since its deployment, no two
  payments that went through are of the same order, the order ids marked as paid are exactly those of the payments, the counter
  is their number, every one was of a positive amount, forwarded to a recipient outside the contract, and the contract's own
  balance is what it was at the start.
\<close>

theorem orders_settled_once:
  assumes "gc_run nd w0 w h"
  shows "distinct (map (\<lambda>p. nd_keccak nd (fst p)) h) \<and> gc_count (ch_coll w) = length h \<and>
    (\<forall>order. gc_paid (ch_coll w) (nd_keccak nd order) \<longleftrightarrow> nd_keccak nd order \<in> set (map (\<lambda>p. nd_keccak nd (fst p)) h)) \<and>
    (\<forall>(order, u, to, v) \<in> set h. order \<noteq> [] \<and> 0 < v \<and> to \<noteq> COLLECTOR) \<and> ch_bal w COLLECTOR = ch_bal w0 COLLECTOR"
proof -
  have "collector_inv nd w0 w h" using assms
  proof induction
    case gr_start
    then show ?case by (simp add: collector_inv_def)
  next
    case (gr_step w h tx e w')
    then show ?case by (blast intro: collector_inv_step)
  qed
  then show ?thesis by (simp add: collector_inv_def)
qed

section \<open>One base unit settles any order\<close>

lemma pay_mined:
  assumes "v + 120000 * nd_price nd \<le> ch_bal w a" "0 < v" "order \<noteq> []" "\<not> gc_paused (ch_coll w)" "\<not> gc_paid (ch_coll w) (nd_keccak nd order)"
    and "gc_recipient (ch_coll w) \<noteq> COLLECTOR" "nd_accepts nd (gc_recipient (ch_coll w))" "a \<noteq> gc_recipient (ch_coll w)"
  shows "\<exists>w'. send_tx nd (pay_tx a order v) w = (TxMined, w') \<and>
    ch_coll w' = (ch_coll w)\<lparr>gc_paid := (gc_paid (ch_coll w))(nd_keccak nd order := True), gc_count := Suc (gc_count (ch_coll w))\<rparr> \<and>
    ch_bal w' (gc_recipient (ch_coll w)) = ch_bal w (gc_recipient (ch_coll w)) + v \<and>
    ch_bal w a \<le> ch_bal w' a + v + 120000 * nd_price nd \<and>
    (\<forall>x. x \<noteq> a \<and> x \<noteq> gc_recipient (ch_coll w) \<longrightarrow> ch_bal w' x = ch_bal w x)"
proof -
  have "gas_fee nd (pay_tx a order v) \<le> 120000 * nd_price nd" by (simp add: gas_fee_def pay_tx_def)
  then show ?thesis using assms
    by (auto simp: send_tx_def Let_def pay_tx_def apply_call_def gc_pay_def move_coins_def)
qed

lemma sent_reverts:
  assumes "tx_value tx + tx_gas tx * nd_price nd \<le> ch_bal w (tx_from tx)"
    and "\<And>bal. \<exists>x. apply_call (nd_keccak nd) (nd_accepts nd) tx (w\<lparr>ch_bal := bal\<rparr>) = Inl x"
  shows "\<exists>w'. send_tx nd tx w = (TxReverted, w') \<and> ch_coll w' = ch_coll w \<and> ch_bal w (tx_from tx) \<le> ch_bal w' (tx_from tx) + tx_gas tx * nd_price nd \<and>
    (\<forall>x. x \<noteq> tx_from tx \<longrightarrow> ch_bal w' x = ch_bal w x)"
proof -
  have "gas_fee nd tx \<le> tx_gas tx * nd_price nd" by (simp add: gas_fee_def)
  moreover obtain x where "apply_call (nd_keccak nd) (nd_accepts nd) tx (w\<lparr>ch_bal := (ch_bal w)(tx_from tx := ch_bal w (tx_from tx) - gas_fee nd tx)\<rparr>) = Inl x"
    using assms(2) by blast
  ultimately show ?thesis using assms(1) by (simp add: send_tx_def Let_def)
qed

lemma pay_refused: "v = 0 \<or> order = [] \<or> gc_paid (ch_coll w) (keccak order) \<Longrightarrow> \<exists>x. gc_pay keccak accepts u order v w = Inl x"
  by (auto simp: gc_pay_def Let_def)

lemma pay_reverts:
  assumes "v + 120000 * nd_price nd \<le> ch_bal w a" "v = 0 \<or> order = [] \<or> gc_paid (ch_coll w) (nd_keccak nd order)"
  shows "\<exists>w'. send_tx nd (pay_tx a order v) w = (TxReverted, w') \<and> ch_coll w' = ch_coll w \<and> ch_bal w a \<le> ch_bal w' a + 120000 * nd_price nd \<and>
    (\<forall>x. x \<noteq> a \<longrightarrow> ch_bal w' x = ch_bal w x)"
  using sent_reverts [of "pay_tx a order v" nd w] assms(1) pay_refused [of v order "w\<lparr>ch_bal := bal\<rparr>" "nd_keccak nd" for bal] assms(2)
  by (simp add: pay_tx_def apply_call_def)

text \<open>
  The contract does not know what an order costs: whoever learns the id of an order that is not paid yet settles it with one base
  unit, and the customer's payment, of whatever amount, reverts from then on.
\<close>

theorem one_unit_settles_any_order:
  assumes "1 + 120000 * nd_price nd \<le> ch_bal w stranger" "v + 120000 * nd_price nd \<le> ch_bal w customer"
    and "order \<noteq> []" "\<not> gc_paused (ch_coll w)" "\<not> gc_paid (ch_coll w) (nd_keccak nd order)"
    and "gc_recipient (ch_coll w) \<notin> {COLLECTOR, stranger, customer}" "nd_accepts nd (gc_recipient (ch_coll w))" "stranger \<noteq> customer"
  shows "\<exists>w1 w2. send_tx nd (pay_tx stranger order 1) w = (TxMined, w1) \<and>
    ch_bal w1 (gc_recipient (ch_coll w)) = ch_bal w (gc_recipient (ch_coll w)) + 1 \<and>
    send_tx nd (pay_tx customer order v) w1 = (TxReverted, w2)"
proof -
  obtain w1 where w1: "send_tx nd (pay_tx stranger order 1) w = (TxMined, w1)"
    "ch_coll w1 = (ch_coll w)\<lparr>gc_paid := (gc_paid (ch_coll w))(nd_keccak nd order := True), gc_count := Suc (gc_count (ch_coll w))\<rparr>"
    "ch_bal w1 (gc_recipient (ch_coll w)) = ch_bal w (gc_recipient (ch_coll w)) + 1" "ch_bal w1 customer = ch_bal w customer"
    using pay_mined [of 1 nd w stranger order] assms by auto
  have "\<exists>w2. send_tx nd (pay_tx customer order v) w1 = (TxReverted, w2)"
    using pay_reverts [of v nd w1 customer order] assms(2) w1 by auto
  then show ?thesis using w1 by blast
qed

section \<open>The harness\<close>

text \<open>What the harness finds when it starts, and what is left before each of its steps.\<close>

definition prepared :: "coll_node \<Rightarrow> attackers \<Rightarrow> coll_chain \<Rightarrow> bool" where
  "prepared nd p w = (distinct [at_funder p, at_a1 p, at_r1 p, at_r2 p, at_a3 p, at_a4 p, at_a5 p, COLLECTOR, gc_recipient (ch_coll w)] \<and>
     at_a4 p \<noteq> gc_owner (ch_coll w) \<and> \<not> gc_paused (ch_coll w) \<and> ch_bal w COLLECTOR = 0 \<and> 240000 * nd_price nd \<le> 10 ^ 18 \<and>
     (\<forall>a \<in> {at_a1 p, at_r1 p, at_r2 p, at_a3 p, at_a4 p, at_a5 p, gc_recipient (ch_coll w)}. nd_accepts nd a) \<and>
     \<not> gc_paid (ch_coll w) (nd_keccak nd (oid1 p)) \<and> \<not> gc_paid (ch_coll w) (nd_keccak nd (oidR p)) \<and> nd_keccak nd (oid1 p) \<noteq> nd_keccak nd (oidR p))"

lemma funded:
  assumes "nd_accepts nd a" "a \<noteq> f" "a \<noteq> COLLECTOR" "wei n + 21000 * nd_price nd \<le> ch_bal w f"
  shows "\<exists>w'. must (send_tx nd) (fundNew f a n) w = Some w' \<and> ch_coll w' = ch_coll w \<and> ch_bal w' a = ch_bal w a + wei n \<and>
    ch_bal w f \<le> ch_bal w' f + wei n + 21000 * nd_price nd \<and> (\<forall>x. x \<noteq> a \<and> x \<noteq> f \<longrightarrow> ch_bal w' x = ch_bal w x)"
proof -
  have "gas_fee nd (fundNew f a n) \<le> 21000 * nd_price nd" by (simp add: gas_fee_def fundNew_def)
  then show ?thesis using assms by (auto simp: must_def send_tx_def Let_def fundNew_def apply_call_def move_coins_def)
qed

lemma attack_defended: "send tx (fst s) = (TxReverted, w') \<Longrightarrow> attack send tx s = (w', snd s @ [True])"
  by (simp add: attack_def)

text \<open>A first payment, and what is left of it for a second one with the same order.\<close>

lemma paid_then_refused:
  assumes "240000 * nd_price nd \<le> 10 ^ 18" "wei 3 \<le> ch_bal w a" "wei 3 \<le> ch_bal w b" "order \<noteq> []" "\<not> gc_paused (ch_coll w)"
    and "\<not> gc_paid (ch_coll w) (nd_keccak nd order)" "gc_recipient (ch_coll w) \<notin> {COLLECTOR, a, b}" "nd_accepts nd (gc_recipient (ch_coll w))"
  shows "\<exists>w1 w2. send_tx nd (pay_tx a order (wei 1)) w = (TxMined, w1) \<and> send_tx nd (pay_tx b order (wei 1)) w1 = (TxReverted, w2) \<and>
    ch_coll w2 = (ch_coll w)\<lparr>gc_paid := (gc_paid (ch_coll w))(nd_keccak nd order := True), gc_count := Suc (gc_count (ch_coll w))\<rparr> \<and>
    ch_bal w2 (gc_recipient (ch_coll w)) = ch_bal w (gc_recipient (ch_coll w)) + wei 1 \<and>
    (\<forall>x. x \<noteq> a \<and> x \<noteq> b \<and> x \<noteq> gc_recipient (ch_coll w) \<longrightarrow> ch_bal w2 x = ch_bal w x)"
proof -
  have gas: "wei 1 + 120000 * nd_price nd \<le> ch_bal w a" "wei 1 + 120000 * nd_price nd + (wei 1 + 120000 * nd_price nd) \<le> wei 3" "0 < wei 1"
    using assms(1,2) by (simp_all add: wei_def)
  obtain w1 where w1: "send_tx nd (pay_tx a order (wei 1)) w = (TxMined, w1)"
    "ch_coll w1 = (ch_coll w)\<lparr>gc_paid := (gc_paid (ch_coll w))(nd_keccak nd order := True), gc_count := Suc (gc_count (ch_coll w))\<rparr>"
    "ch_bal w1 (gc_recipient (ch_coll w)) = ch_bal w (gc_recipient (ch_coll w)) + wei 1"
    "ch_bal w a \<le> ch_bal w1 a + wei 1 + 120000 * nd_price nd" "\<And>x. x \<noteq> a \<Longrightarrow> x \<noteq> gc_recipient (ch_coll w) \<Longrightarrow> ch_bal w1 x = ch_bal w x"
    using pay_mined [OF gas(1,3) assms(4-6)] assms(7,8) by auto
  have "wei 1 + 120000 * nd_price nd \<le> ch_bal w1 b"
  proof (cases "b = a")
    case True
    show ?thesis using gas w1(4) assms(2) unfolding True by linarith
  next
    case False
    then have "ch_bal w1 b = ch_bal w b" using w1(5) assms(7) by auto
    then show ?thesis using gas assms(3) by linarith
  qed
  then obtain w2 where w2: "send_tx nd (pay_tx b order (wei 1)) w1 = (TxReverted, w2)" "ch_coll w2 = ch_coll w1" "\<And>x. x \<noteq> b \<Longrightarrow> ch_bal w2 x = ch_bal w1 x"
    using pay_reverts [of "wei 1" nd w1 b order] w1(2) by auto
  show ?thesis using w1 w2 assms(7) by (intro exI [of _ w1] exI [of _ w2]) auto
qed

text \<open>The last three attacks change nothing but the balance of the attacker.\<close>

lemma single_attack:
  assumes "tx_value tx + tx_gas tx * nd_price nd \<le> ch_bal w (tx_from tx)"
    and "\<And>bal. \<exists>x. apply_call (nd_keccak nd) (nd_accepts nd) tx (w\<lparr>ch_bal := bal\<rparr>) = Inl x"
  shows "\<exists>w'. attack (send_tx nd) tx (w, marks) = (w', marks @ [True]) \<and> ch_coll w' = ch_coll w \<and>
    ch_bal w (tx_from tx) \<le> ch_bal w' (tx_from tx) + tx_gas tx * nd_price nd \<and> (\<forall>x. x \<noteq> tx_from tx \<longrightarrow> ch_bal w' x = ch_bal w x)"
  using sent_reverts [OF assms] by (auto simp: attack_def)

text \<open>
  The attacks one after the other. \<open>left n w\<close>: the funder can still pay for \<open>n\<close> coins and six transfers at most, and the contract
  is as the attacks need it.
\<close>

lemma first_attacks_defended:
  assumes ok: "prepared nd p w" and funds: "wei 14 + 126000 * nd_price nd \<le> ch_bal w (at_funder p)"
  shows "\<exists>w1 w2 w3 w4 w5 w6. must (send_tx nd) (fundNew (at_funder p) (at_a1 p) 3) w = Some w1 \<and>
    must (send_tx nd) (pay_tx (at_a1 p) (oid1 p) (wei 1)) w1 = Some w2 \<and>
    attack (send_tx nd) (pay_tx (at_a1 p) (oid1 p) (wei 1)) (w2, []) = (w3, [True]) \<and>
    must (send_tx nd) (fundNew (at_funder p) (at_r1 p) 3) w3 = Some w4 \<and> must (send_tx nd) (fundNew (at_funder p) (at_r2 p) 3) w4 = Some w5 \<and>
    race (send_tx nd) first (pay_tx (at_r1 p) (oidR p) (wei 1)) (pay_tx (at_r2 p) (oidR p) (wei 1)) (w5, [True]) = (w6, [True, True]) \<and>
    gc_owner (ch_coll w6) = gc_owner (ch_coll w) \<and> wei 5 + 63000 * nd_price nd \<le> ch_bal w6 (at_funder p) \<and> ch_bal w6 COLLECTOR = 0 \<and>
    ch_bal w6 (gc_recipient (ch_coll w)) = ch_bal w (gc_recipient (ch_coll w)) + wei 2"
proof -
  let ?f = "at_funder p" and ?r = "gc_recipient (ch_coll w)" and ?g = "nd_price nd"
  have people: "distinct [?f, at_a1 p, at_r1 p, at_r2 p, at_a3 p, at_a4 p, at_a5 p, COLLECTOR, ?r]" "at_a4 p \<noteq> gc_owner (ch_coll w)"
    and accepts: "nd_accepts nd (at_a1 p)" "nd_accepts nd (at_r1 p)" "nd_accepts nd (at_r2 p)" "nd_accepts nd (at_a3 p)" "nd_accepts nd (at_a4 p)"
      "nd_accepts nd (at_a5 p)" "nd_accepts nd ?r"
    and start: "\<not> gc_paused (ch_coll w)" "ch_bal w COLLECTOR = 0" and gas: "240000 * ?g \<le> 10 ^ 18"
    and unpaid: "\<not> gc_paid (ch_coll w) (nd_keccak nd (oid1 p))" "\<not> gc_paid (ch_coll w) (nd_keccak nd (oidR p))"
      "nd_keccak nd (oid1 p) \<noteq> nd_keccak nd (oidR p)"
    using ok by (auto simp: prepared_def)
  have ids: "oid1 p \<noteq> []" "oidR p \<noteq> []" by (simp_all add: oid1_def oidR_def)
  obtain w1 where w1: "must (send_tx nd) (fundNew ?f (at_a1 p) 3) w = Some w1" "ch_coll w1 = ch_coll w" "wei 3 \<le> ch_bal w1 (at_a1 p)"
    "wei 11 + 105000 * ?g \<le> ch_bal w1 ?f" "\<And>x. x \<noteq> at_a1 p \<Longrightarrow> x \<noteq> ?f \<Longrightarrow> ch_bal w1 x = ch_bal w x"
    using funded [of nd "at_a1 p" ?f 3 w] accepts people funds by (auto simp: wei_def)
  obtain w2 w3 where w3: "send_tx nd (pay_tx (at_a1 p) (oid1 p) (wei 1)) w1 = (TxMined, w2)"
    "send_tx nd (pay_tx (at_a1 p) (oid1 p) (wei 1)) w2 = (TxReverted, w3)"
    "ch_coll w3 = (ch_coll w)\<lparr>gc_paid := (gc_paid (ch_coll w))(nd_keccak nd (oid1 p) := True), gc_count := Suc (gc_count (ch_coll w))\<rparr>"
    "ch_bal w3 ?r = ch_bal w1 ?r + wei 1" "\<And>x. x \<noteq> at_a1 p \<Longrightarrow> x \<noteq> ?r \<Longrightarrow> ch_bal w3 x = ch_bal w1 x"
    using paid_then_refused [OF gas w1(3,3) ids(1), folded w1(2)] w1(2) start unpaid(1) people accepts(7) by auto
  obtain w4 where w4: "must (send_tx nd) (fundNew ?f (at_r1 p) 3) w3 = Some w4" "ch_coll w4 = ch_coll w3" "wei 3 \<le> ch_bal w4 (at_r1 p)"
    "wei 8 + 84000 * ?g \<le> ch_bal w4 ?f" "\<And>x. x \<noteq> at_r1 p \<Longrightarrow> x \<noteq> ?f \<Longrightarrow> ch_bal w4 x = ch_bal w3 x"
    using funded [of nd "at_r1 p" ?f 3 w3] accepts people w1(4) w3(5) [of ?f] by (auto simp: wei_def)
  obtain w5 where w5: "must (send_tx nd) (fundNew ?f (at_r2 p) 3) w4 = Some w5" "ch_coll w5 = ch_coll w3" "wei 3 \<le> ch_bal w5 (at_r2 p)"
    "wei 5 + 63000 * ?g \<le> ch_bal w5 ?f" "\<And>x. x \<noteq> at_r2 p \<Longrightarrow> x \<noteq> ?f \<Longrightarrow> ch_bal w5 x = ch_bal w4 x"
    using funded [of nd "at_r2 p" ?f 3 w4] accepts people w4(2,4) by (auto simp: wei_def)
  define x y where "x = (if first then at_r1 p else at_r2 p)" and "y = (if first then at_r2 p else at_r1 p)"
  have xy: "x \<noteq> ?r" "y \<noteq> ?r" "wei 3 \<le> ch_bal w5 x" "wei 3 \<le> ch_bal w5 y" "\<And>z. z \<noteq> x \<and> z \<noteq> y \<longleftrightarrow> z \<noteq> at_r1 p \<and> z \<noteq> at_r2 p"
    using people w4(3) w5(3) w5(5) [of "at_r1 p"] by (auto simp: x_def y_def)
  obtain wm w6 where w6: "send_tx nd (pay_tx x (oidR p) (wei 1)) w5 = (TxMined, wm)" "send_tx nd (pay_tx y (oidR p) (wei 1)) wm = (TxReverted, w6)"
    "gc_owner (ch_coll w6) = gc_owner (ch_coll w)" "gc_paused (ch_coll w6) = gc_paused (ch_coll w)"
    "ch_bal w6 ?r = ch_bal w5 ?r + wei 1" "\<And>z. z \<noteq> x \<Longrightarrow> z \<noteq> y \<Longrightarrow> z \<noteq> ?r \<Longrightarrow> ch_bal w6 z = ch_bal w5 z"
    using paid_then_refused [OF gas xy(3,4) ids(2)] w5(2) w3(3) start unpaid people xy(1,2) accepts(7) by auto
  have sent: "must (send_tx nd) (pay_tx (at_a1 p) (oid1 p) (wei 1)) w1 = Some w2"
    "attack (send_tx nd) (pay_tx (at_a1 p) (oid1 p) (wei 1)) (w2, []) = (w3, [True])"
    using w3(1,2) by (simp_all add: must_def attack_def)
  have raced: "race (send_tx nd) first (pay_tx (at_r1 p) (oidR p) (wei 1)) (pay_tx (at_r2 p) (oidR p) (wei 1)) (w5, [True]) = (w6, [True, True])"
    using w6(1,2) by (cases first) (simp_all add: race_def x_def y_def)
  have far: "COLLECTOR \<noteq> at_a1 p" "COLLECTOR \<noteq> at_r1 p" "COLLECTOR \<noteq> at_r2 p" "COLLECTOR \<noteq> ?f" "COLLECTOR \<noteq> ?r" "?f \<noteq> at_r1 p" "?f \<noteq> at_r2 p" "?f \<noteq> ?r"
    "?r \<noteq> at_a1 p" "?r \<noteq> at_r1 p" "?r \<noteq> at_r2 p" "?r \<noteq> ?f"
    using people by auto
  have tail: "ch_bal w6 z = ch_bal w5 z" if "z \<noteq> at_r1 p" "z \<noteq> at_r2 p" "z \<noteq> ?r" for z using w6(6) [of z] xy(5) [of z] that by simp
  have "wei 5 + 63000 * ?g \<le> ch_bal w6 ?f" using w5(4) tail [OF far(6-8)] by simp
  moreover have "ch_bal w6 COLLECTOR = 0"
    using tail [OF far(2,3,5)] w5(5) [OF far(3,4)] w4(5) [OF far(2,4)] w3(5) [OF far(1,5)] w1(5) [OF far(1,4)] start(2) by simp
  moreover have "ch_bal w6 ?r = ch_bal w ?r + wei 2"
    using w6(5) w5(5) [OF far(11,12)] w4(5) [OF far(10,12)] w3(4) w1(5) [OF far(9,12)] by (simp add: wei_def)
  ultimately show ?thesis using w1(1) sent w4(1) w5(1) raced w6(3) by blast
qed

lemma attacks_defended:
  assumes ok: "prepared nd p w" and funds: "wei 14 + 126000 * nd_price nd \<le> ch_bal w (at_funder p)"
  shows "\<exists>w'. attacks (send_tx nd) first p w = Some (w', [True, True, True, True, True, True]) \<and> ch_bal w' COLLECTOR = 0 \<and>
    ch_bal w' (gc_recipient (ch_coll w)) = ch_bal w (gc_recipient (ch_coll w)) + wei 2"
proof -
  let ?f = "at_funder p" and ?r = "gc_recipient (ch_coll w)" and ?g = "nd_price nd"
  have people: "distinct [?f, at_a1 p, at_r1 p, at_r2 p, at_a3 p, at_a4 p, at_a5 p, COLLECTOR, ?r]" "at_a4 p \<noteq> gc_owner (ch_coll w)"
    and accepts: "nd_accepts nd (at_a3 p)" "nd_accepts nd (at_a4 p)" "nd_accepts nd (at_a5 p)" and gas: "240000 * ?g \<le> 10 ^ 18"
    using ok by (auto simp: prepared_def)
  obtain w1 w2 w3 w4 w5 w6 where early: "must (send_tx nd) (fundNew ?f (at_a1 p) 3) w = Some w1"
    "must (send_tx nd) (pay_tx (at_a1 p) (oid1 p) (wei 1)) w1 = Some w2" "attack (send_tx nd) (pay_tx (at_a1 p) (oid1 p) (wei 1)) (w2, []) = (w3, [True])"
    "must (send_tx nd) (fundNew ?f (at_r1 p) 3) w3 = Some w4" "must (send_tx nd) (fundNew ?f (at_r2 p) 3) w4 = Some w5"
    "race (send_tx nd) first (pay_tx (at_r1 p) (oidR p) (wei 1)) (pay_tx (at_r2 p) (oidR p) (wei 1)) (w5, [True]) = (w6, [True, True])"
    and w6: "gc_owner (ch_coll w6) = gc_owner (ch_coll w)" "wei 5 + 63000 * ?g \<le> ch_bal w6 ?f" "ch_bal w6 COLLECTOR = 0"
    "ch_bal w6 ?r = ch_bal w ?r + wei 2"
    using first_attacks_defended [OF ok funds] by blast
  obtain w7 where w7: "must (send_tx nd) (fundNew ?f (at_a3 p) 2) w6 = Some w7" "ch_coll w7 = ch_coll w6" "wei 2 \<le> ch_bal w7 (at_a3 p)"
    "wei 3 + 42000 * ?g \<le> ch_bal w7 ?f" "\<And>x. x \<noteq> at_a3 p \<Longrightarrow> x \<noteq> ?f \<Longrightarrow> ch_bal w7 x = ch_bal w6 x"
    using funded [of nd "at_a3 p" ?f 2 w6] accepts people w6(2) by (auto simp: wei_def)
  let ?t3 = "\<lparr>tx_from = at_a3 p, tx_call = SendTo COLLECTOR, tx_value = wei 1, tx_gas = 60000\<rparr>"
  obtain w8 where w8: "attack (send_tx nd) ?t3 (w7, [True, True]) = (w8, [True, True, True])" "ch_coll w8 = ch_coll w6"
    "\<And>x. x \<noteq> at_a3 p \<Longrightarrow> ch_bal w8 x = ch_bal w7 x"
    using single_attack [of ?t3 nd w7 "[True, True]"] w7(2,3) gas by (auto simp: apply_call_def wei_def)
  obtain w9 where w9: "must (send_tx nd) (fundNew ?f (at_a4 p) 1) w8 = Some w9" "ch_coll w9 = ch_coll w6" "wei 1 \<le> ch_bal w9 (at_a4 p)"
    "wei 2 + 21000 * ?g \<le> ch_bal w9 ?f" "\<And>x. x \<noteq> at_a4 p \<Longrightarrow> x \<noteq> ?f \<Longrightarrow> ch_bal w9 x = ch_bal w8 x"
    using funded [of nd "at_a4 p" ?f 1 w8] accepts people w7(4) w8(2) w8(3) [of ?f] by (auto simp: wei_def)
  let ?t4 = "\<lparr>tx_from = at_a4 p, tx_call = CallSetRecipient (at_a4 p), tx_value = 0, tx_gas = 80000\<rparr>"
  obtain w10 where w10: "attack (send_tx nd) ?t4 (w9, [True, True, True]) = (w10, [True, True, True, True])" "ch_coll w10 = ch_coll w6"
    "\<And>x. x \<noteq> at_a4 p \<Longrightarrow> ch_bal w10 x = ch_bal w9 x"
    using single_attack [of ?t4 nd w9 "[True, True, True]"] w9(2,3) w6(1) people(2) gas by (auto simp: apply_call_def gc_setRecipient_def wei_def)
  obtain w11 where w11: "must (send_tx nd) (fundNew ?f (at_a5 p) 2) w10 = Some w11" "wei 2 \<le> ch_bal w11 (at_a5 p)"
    "\<And>x. x \<noteq> at_a5 p \<Longrightarrow> x \<noteq> ?f \<Longrightarrow> ch_bal w11 x = ch_bal w10 x"
    using funded [of nd "at_a5 p" ?f 2 w10] accepts people w9(4) w10(3) [of ?f] by (auto simp: wei_def)
  obtain w12 where w12: "send_tx nd (pay_tx (at_a5 p) ''x'' 0) w11 = (TxReverted, w12)" "wei 1 + 120000 * ?g \<le> ch_bal w12 (at_a5 p)"
    "\<And>x. x \<noteq> at_a5 p \<Longrightarrow> ch_bal w12 x = ch_bal w11 x"
    using pay_reverts [of 0 nd w11 "at_a5 p" "''x''"] w11(2) gas by (auto simp: wei_def)
  obtain w13 where w13: "send_tx nd (pay_tx (at_a5 p) [] (wei 1)) w12 = (TxReverted, w13)" "\<And>x. x \<noteq> at_a5 p \<Longrightarrow> ch_bal w13 x = ch_bal w12 x"
    using pay_reverts [of "wei 1" nd w12 "at_a5 p" "[]"] w12(2) by auto
  have same: "ch_bal w13 x = ch_bal w6 x" if "x = COLLECTOR \<or> x = ?r" for x
    using that people w13(2) [of x] w12(3) [of x] w11(3) [of x] w10(3) [of x] w9(5) [of x] w8(3) [of x] w7(5) [of x] by auto
  have late: "attack (send_tx nd) (pay_tx (at_a5 p) ''x'' 0) (w11, [True, True, True, True]) = (w12, [True, True, True, True, True])"
    "attack (send_tx nd) (pay_tx (at_a5 p) [] (wei 1)) (w12, [True, True, True, True, True]) = (w13, [True, True, True, True, True, True])"
    by (simp_all only: attack_def fst_conv snd_conv w12(1) w13(1) prod.case tx_end.case append.simps)
  have "attacks (send_tx nd) first p w = Some (w13, [True, True, True, True, True, True])"
    by (simp only: attacks_def Let_def early w7(1) w8(1) w9(1) w10(1) w11(1) late bind.bind_lunit fst_conv snd_conv)
  then show ?thesis using same w6(3,4) by simp
qed

text \<open>
  C28. Against the collector every attack of the harness is defended: with a funder that holds 14 coins and the gas of six transfers,
  fresh wallets and order ids, a contract that is not paused and holds nothing, and a gas price that leaves a wallet the fees of two
  payments out of one coin, the harness ends with exit code 0 and its seven marks, whichever payment of the race is mined first;
  and the recipient got two coins, one for each of the two orders.
\<close>

theorem collector_withstands_harness:
  assumes "prepared nd p w" "wei 14 + 126000 * nd_price nd \<le> ch_bal w (at_funder p)"
  shows "collector_harness (send_tx nd) (\<lambda>a w. ch_bal w a) first p w = (0, replicate 7 True) \<and>
    (\<exists>w' marks. attacks (send_tx nd) first p w = Some (w', marks) \<and>
       ch_bal w' (gc_recipient (ch_coll w)) = ch_bal w (gc_recipient (ch_coll w)) + 2 * 10 ^ 18)"
proof -
  obtain w' where "attacks (send_tx nd) first p w = Some (w', [True, True, True, True, True, True])" "ch_bal w' COLLECTOR = 0"
    "ch_bal w' (gc_recipient (ch_coll w)) = ch_bal w (gc_recipient (ch_coll w)) + wei 2"
    using attacks_defended [OF assms] by blast
  moreover have "replicate 7 True = [True, True, True, True, True, True, True]" by (simp add: numeral_eq_Suc)
  ultimately show ?thesis by (simp add: collector_harness_def wei_def)
qed

text \<open>
  An attack whose transaction never reaches the chain counts as defended when the message of the error has one of the words,
  as that of a used nonce.
\<close>

theorem unsent_attack_counts_as_defended:
  assumes "send tx w = (TxUnsent ''nonce has already been used'', w)"
  shows "attack send tx (w, marks) = (w, marks @ [True])"
proof -
  have "revert_words ''nonce has already been used''" by code_simp
  then show ?thesis using assms by (simp add: attack_def)
qed

section \<open>Samples\<close>

definition sample_node :: coll_node where
  "sample_node = \<lparr>nd_keccak = (\<lambda>s. s), nd_accepts = (\<lambda>a. True), nd_price = 1, nd_used = tx_gas\<rparr>"

definition sample_attackers :: attackers where
  "sample_attackers = \<lparr>at_funder = ''0xf'', at_a1 = ''0xa1'', at_r1 = ''0xb1'', at_r2 = ''0xb2'', at_a3 = ''0xa3'', at_a4 = ''0xa4'', at_a5 = ''0xa5'', at_stamp = ''m1''\<rparr>"

definition sample_chain :: coll_chain where
  "sample_chain = \<lparr>ch_bal = (\<lambda>a. 0)(''0xf'' := 15 * 10 ^ 18), ch_coll = \<lparr>gc_owner = ''0xc'', gc_recipient = ''0xd'', gc_count = 0, gc_paid = (\<lambda>k. False), gc_paused = False\<rparr>\<rparr>"

lemma sample_prepared: "prepared sample_node sample_attackers sample_chain"
  by (simp add: prepared_def sample_node_def sample_attackers_def sample_chain_def COLLECTOR_def oid1_def oidR_def)

theorem collector_withstands_harness_witness:
  "collector_harness (send_tx sample_node) (\<lambda>a w. ch_bal w a) True sample_attackers sample_chain = (0, replicate 7 True) \<and>
    collector_harness (send_tx sample_node) (\<lambda>a w. ch_bal w a) False sample_attackers sample_chain = (0, replicate 7 True)"
proof -
  have f: "wei 14 + 126000 * nd_price sample_node \<le> ch_bal sample_chain (at_funder sample_attackers)"
    by (simp add: wei_def sample_node_def sample_chain_def sample_attackers_def)
  show ?thesis using collector_withstands_harness [OF sample_prepared f] by blast
qed

definition sample_payment :: coll_tx where
  "sample_payment = pay_tx ''0xf'' ''order-1'' 5"

lemma sample_payment_mined: "fst (send_tx sample_node sample_payment sample_chain) = TxMined"
  by (simp add: sample_payment_def pay_tx_def send_tx_def Let_def sample_node_def sample_chain_def gas_fee_def apply_call_def gc_pay_def COLLECTOR_def)

theorem orders_settled_once_witness:
  "\<exists>w. gc_run sample_node sample_chain w [(''order-1'', ''0xf'', ''0xd'', 5)] \<and> gc_count (ch_coll w) = 1 \<and> gc_paid (ch_coll w) ''order-1'' \<and> \<not> gc_paid (ch_coll w) ''order-2''"
proof -
  obtain w where w: "send_tx sample_node sample_payment sample_chain = (TxMined, w)"
    using sample_payment_mined by (metis prod.collapse)
  have "gc_run sample_node sample_chain sample_chain []" by (rule gr_start) (simp_all add: sample_chain_def)
  moreover have "tx_from sample_payment \<noteq> COLLECTOR" by (simp add: sample_payment_def pay_tx_def COLLECTOR_def)
  ultimately have "gc_run sample_node sample_chain w ([] @ payments_of TxMined sample_payment sample_chain)" using w by (rule gr_step)
  then have r: "gc_run sample_node sample_chain w [(''order-1'', ''0xf'', ''0xd'', 5)]"
    by (simp add: payments_of_def sample_payment_def pay_tx_def sample_chain_def)
  have k: "nd_keccak sample_node = (\<lambda>s. s)" by (simp add: sample_node_def)
  show ?thesis using r orders_settled_once [OF r] by (intro exI [of _ w]) (simp add: k)
qed

end
