(* ===== verification/Spec2Isabelle.thy ===== *)
theory Spec2Isabelle
  imports Access_Properties Faucet_Properties Limiter_Refinement Purchase_Properties Contact Notifier_Properties
    Gating Ramp Run_Log Run_Report Run_Probe Rebase_Pair Seeding Stress_Run Reclaim_Properties Request_Types Liquidity_Properties
    Landing_Properties Permit_Nonces Deploy_Properties Ratelimit_Probe Stress_Prepared Locker
    Chain_Reads_Properties Gmb_Collector_Properties
begin

text \<open>
  The off-chain programs of GembaBlockchain: five services, the web pages of the exchange and of the network, and the two load
  generators. They are separate processes that meet only on the chain, so each is modelled on its own,
  with the part of the chain it relies on.

  \<^bold>\<open>Shared theories.\<close> JS_Number: JavaScript numbers as doubles (rounding, NaN, the infinities) and the division
  of BigInt. JS_Regex: the patterns of the sources as an executable matcher. Gemba_Prelude: strings, JSON
  values, \<open>Number(\<dots>)\<close>, the environment, the \<open>Map\<close> as an insertion-ordered association list (locale
  \<open>key_value_map\<close>), and asynchronous operations that may throw, with the rules that carry a relation on worlds
  (\<open>keeps\<close>) or a contract (\<open>contract\<close>) through a handler.

  \<^bold>\<open>Access control\<close> (services/access-control/src). Validation and Auth: validation.js, auth.js. Capability_Ledger:
  the contract AccessControlNFT.sol (locale \<open>capability_ledger\<close>). Access_Db: the tables and policies of db/schema.sql and the statements of
  db.js. Access_World: transactions and the pool, and the chain client of chain.js. Send_Queue: its queue of
  sends as a machine of promises, which the faucet has too; the end of a job, which waits for a receipt without a
  timeout, is a step of its own that need never come. Erasure, with
  the locales \<open>erasure_backend\<close> and \<open>durable_backend\<close>, is gdpr.js over any backend; Access_Repo interprets them on
  the repository and the chain client. Outbox: outbox.js. Access_Api: the routes, middleware and error handler of
  app.js. Access_Properties holds what the API promises (isolation of tenants, the invariant of the world, no
  client held during a send, opaque errors, erasures) and the two defects found there.

  \<^bold>\<open>Faucet\<close> (services/testnet-faucet/src). Cooldown: ratelimit.js, with the locale \<open>rate_limiter\<close> that its clients
  use. Limiter_Refinement: inside that locale, a limiter simulates a ledger that never forgets. Faucet: POST /drip
  cut at its awaits into \<open>drip_enter\<close>, \<open>drip_balance\<close> and \<open>drip_settle\<close>, and \<open>faucet_event\<close>, in which requests
  interleave. Faucet_Properties: spacing of the requests that got a drip, the daily budget, and the ways around them.

  \<^bold>\<open>Purchases, contact, notifier\<close> (services/purchase-backend, contact-form, blockchain-notifier). Purchase and
  Purchase_Properties: creation of orders, the signed webhook cut at the dispense with the order id as the JSON value it
  carries, restarts, and the payouts. Contact: the one handler. Notifier, Nakamoto and Notifier_Properties: configuration, deduplication of
  mails, the probes and the four watchers over the state; the cycles of the sales watcher also as jobs that may overlap, fail and
  be cut off by a restart. Chain_Reads: the REST reads of chain.js from the query to the
  decoded answer, and a cycle over them; the loop over the pages of validators is a partial function in the option
  monad. Chain_Reads_Properties: against a paging service a cycle records every validator with its stake, and when the
  loop does not end.

  \<^bold>\<open>Exchange\<close> (frontend/swap/src). A form is its React state, a rendering (\<open>swap_render\<close>, \<open>liq_render\<close>, \<open>lock_render\<close>)
  that computes amounts, minimums and the button from the state and what the chain answers, and handlers that ask the
  wallet for a call. Swap_Common, Swap_Form, Liquidity_Form, Lock_Form are the models; Swap_Properties and
  Liquidity_Properties say what a call takes and guarantees, and that the router of
  contracts/src/dex/gembaswap/periphery takes an addition in full. A rendering that throws is \<open>None\<close>. Locker:
  the contract behind the lock form, contracts/src/dex/LiquidityLocker.sol, as a step relation (\<open>locker_run\<close>) with its
  invariant (each lock paid out once, to its owner, in time; the balances cover the open locks), and the agreement
  of the form's list and withdraw buttons with it.

  \<^bold>\<open>Landing page\<close> (frontend/landing/src/App.jsx). Landing: the claim buttons and what they read through the wallet,
  the requests to the wallet, and the contact form. Web_Faucet: the contract that is claimed from,
  contracts/src/faucet/GembaFaucet.sol. Landing_Properties: the buttons agree with the contract, the form with the
  server of Contact.

  \<^bold>\<open>Load generators\<close> (endurance, stress). Nonces, Load_Limits, Load_Metrics, Run_Log, Send_Raw, Receipt_Collector: one
  theory for each file of lib; where the stress run has its own version it is in the same theory with the prefix
  \<open>sc\<close> or \<open>stress\<close>. Workloads and Workload_Build: config/workloads.js, each operation an equation of \<open>build\<close>, and what
  it adds to the bookkeeping on success an \<open>effect\<close>. Load_Engine: scripts/run.js and config/profiles.js; it sends what
  is built, gives it to the collector, and runs the effects the collector reports. Permit_Nonces: the counters of signed
  approvals, from their first reading through failures, permits that are given up, and new readings, which may be late or
  out of date. Run_Report: scripts/analyze.js. Run_Probe:
  lib/nodeProbe.js and the blocks of a report.
  The life of an endurance run: Deploy_Suite is scripts/01-deploy-suite.js with the signatures of the contracts, and
  Deploy_Properties shows that every call of \<open>build\<close> fits what is deployed; Seeding is scripts/02-seed-wallets.mjs and
  lib/wallets.js, with the fees of its transactions, their success or revert, and what the contracts take from a wallet; Rebase_Pair is the rebasing token and the pair that
  \<open>RebaseUp\<close> and \<open>RebaseSwap\<close> act on; Reclaim, Reclaim_Chain and Reclaim_Properties are the scripts that return the
  funds, with the contract functions they call.
  The life of a stress run: Stress_Contracts is contracts/src/Stress.sol, as functions from a state to a state or a
  revert (Checked_Nat: checked 256-bit numbers); Stress_Suite the scripts that deploy, fund, prepare, sweep and drain;
  Stress_Run the workloads, profiles and submission; Stress_Traffic the invariant of the contracts under these requests,
  one lemma for each request; Stress_Properties the run as a step relation; Stress_Prepared that the scripts reach the
  state the invariant starts from.
  The other properties are in Collector_Properties (every transaction settles once, no block is skipped), Gating (no
  withdrawal without a confirmed deposit), Request_Types (numbers fit \<open>uint256\<close>), Ramp, and in the theories of the
  parts they are about.

  \<^bold>\<open>Security harnesses\<close> (security). Rpc_Fuzz: track3-rpc-infra/rpc-fuzz.js, the bodies it sends, the search for leaks,
  the verdicts and the answers on which the harness itself throws. Ratelimit_Probe: track3-rpc-infra/ratelimit-probe.js, its pacing, what it finds in an answer, and its report.
  Gmb_Collector: collector-attack.mjs over any chain it can send to, and the payment collector it attacks,
  contracts/src/payments/GmbCollector.sol, on a chain with balances and gas. Gmb_Collector_Properties: the invariant of the
  contract over its runs, that every attack is defended, and what the harness does not try.

  \<^bold>\<open>What is an argument.\<close> Answers of providers, databases, mail servers, wallets and the clock, random draws, hashes,
  signatures and the encoding of calls; and the functions of libraries outside the repository (ethers, viem, HMAC,
  address checks). Hypotheses about them are named where they are used: \<open>amounts_not_negative\<close> for viem's
  \<open>parseUnits\<close>, \<open>date_times\<close> for \<open>Date\<close>, \<open>env_typed\<close> for signatures.

  \<^bold>\<open>Loops and bounds.\<close> A loop over a list is recursion on it. The waiting loop of the rate limiter takes the readings of
  the clock it makes and is \<open>None\<close> when they run out; \<open>take_returns\<close> shows that 1001 readings two milliseconds or
  more apart are enough. A stress run has at most \<open>longest\<close>, a million, transactions, and the contracts start with numbers
  below \<open>most\<close>, \<open>10 ^ 36\<close>, so that sums of what the requests add stay within 256 bits. The scan of blocks and the retries of a submission are recursive functions with a measure. Times are
  those of \<open>Date\<close>, up to 8640000000000000, where doubles are exact; integers that pass through a \<open>Number\<close> are rounded.

  \<^bold>\<open>Not modelled.\<close> Markup, texts of mails and console output; timers (what they start is an event); listening on
  ports; the generation of keys, scripts that only look at a network (diag.js, 03-verify-sample.js, flood.mjs);
  the tests under security/track4-services-dapp, which call the limiter that Cooldown models;
  the Solidity contracts but for the parts named above; the chain node, its genesis and
  configuration. Fees are charged in Reclaim_Chain, Gmb_Collector and Seeding only. The gas that a call needs is not computed:
  running out of it is a step any transaction of a stress run may take (\<open>stress_traffic\<close>, with the one bound \<open>least_gas\<close>), an arbitrary
  failure in Seeding, and left out elsewhere. The stack depth and memory of the JavaScript engine are unbounded. In the log files a rotation is taken to be complete before
  the next row is written.
\<close>

end
